(* ===== verification/Ax_Prelude.thy ===== *)
theory Ax_Prelude
  imports Main "HOL-Library.Char_ord" "HOL-Library.List_Lexorder" "HOL-Library.Monad_Syntax"
begin

section \<open>Shared vocabulary: byte strings, ordered maps, numerals\<close>

text \<open>
  What every component of the model uses of Rust and of its standard library.
  \<^item> A Rust \<open>String\<close>/\<open>&str\<close> is the list of its UTF-8 bytes, and so is a
    \<open>Vec<u8>\<close>: both are a HOL \<^typ>\<open>string\<close>, whose characters are exactly the 8-bit
    bytes. \<open>len\<close> is \<^const>\<open>length\<close>, byte comparison is the lexicographic order, and
    the operations that look at Unicode scalar values go through \<open>utf8_split\<close>.
  \<^item> A \<open>BTreeMap\<close> is its list of entries in key order (\<open>bm_insert\<close>,
    \<open>bm_get\<close>, \<open>bm_remove\<close>), because the code iterates over it.
  \<^item> A \<open>Result\<close> is a sum, \<open>Inl\<close> the error; \<open>and_then\<close> is the \<open>?\<close> operator.
\<close>

named_theorems bytes_simps "byte-level facts"
named_theorems codec_simps "little-endian and frame facts"

type_synonym bytes = "char list"

subsection \<open>Results\<close>

fun and_then :: "'e + 'a \<Rightarrow> ('a \<Rightarrow> 'e + 'b) \<Rightarrow> 'e + 'b" where
  "and_then (Inl e) f = Inl e"
| "and_then (Inr x) f = f x"

fun map_err :: "('e \<Rightarrow> 'f) \<Rightarrow> 'e + 'a \<Rightarrow> 'f + 'a" where
  "map_err g (Inl e) = Inl (g e)"
| "map_err g (Inr x) = Inr x"

definition ok_or :: "'e \<Rightarrow> 'a option \<Rightarrow> 'e + 'a" where
  "ok_or e m = (case m of None \<Rightarrow> Inl e | Some x \<Rightarrow> Inr x)"

lemma and_then_Inr_iff: "and_then m f = Inr y \<longleftrightarrow> (\<exists>x. m = Inr x \<and> f x = Inr y)"
  by (cases m) auto

lemma and_then_Inl_iff:
  "and_then m f = Inl e \<longleftrightarrow> m = Inl e \<or> (\<exists>x. m = Inr x \<and> f x = Inl e)"
  by (cases m) auto

lemma ok_or_simps [simp]: "ok_or e None = Inl e" "ok_or e (Some x) = Inr x"
  by (simp_all add: ok_or_def)

text \<open>A loop over a list that stops at the first error, collecting the results.\<close>

fun try_map :: "('a \<Rightarrow> 'e + 'b) \<Rightarrow> 'a list \<Rightarrow> 'e + 'b list" where
  "try_map f [] = Inr []"
| "try_map f (x # xs) = and_then (f x) (\<lambda>y. and_then (try_map f xs) (\<lambda>ys. Inr (y # ys)))"

fun opt_map :: "('a \<Rightarrow> 'b option) \<Rightarrow> 'a list \<Rightarrow> 'b list option" where
  "opt_map f [] = Some []"
| "opt_map f (x # xs) = (case f x of None \<Rightarrow> None
     | Some y \<Rightarrow> (case opt_map f xs of None \<Rightarrow> None | Some ys \<Rightarrow> Some (y # ys)))"

lemma opt_map_Cons_Some:
  "opt_map f (x # xs) = Some zs \<longleftrightarrow> (\<exists>y ys. zs = y # ys \<and> f x = Some y \<and> opt_map f xs = Some ys)"
  by (auto split: option.splits)

lemma opt_map_Some_iff:
  "opt_map f xs = Some ys \<longleftrightarrow> list_all2 (\<lambda>x y. f x = Some y) xs ys"
proof (induction xs arbitrary: ys)
  case Nil
  then show ?case by auto
next
  case (Cons x xs)
  then show ?case
    unfolding opt_map_Cons_Some list_all2_Cons1 by metis
qed

lemma opt_map_length: "opt_map f xs = Some ys \<Longrightarrow> length ys = length xs"
  by (auto simp: opt_map_Some_iff dest: list_all2_lengthD)

lemma opt_map_append:
  "opt_map f (xs @ ys) = (case opt_map f xs of None \<Rightarrow> None
     | Some a \<Rightarrow> (case opt_map f ys of None \<Rightarrow> None | Some b \<Rightarrow> Some (a @ b)))"
  by (induction xs) (auto split: option.splits)

lemma opt_map_cong [fundef_cong]:
  "xs = ys \<Longrightarrow> (\<And>x. x \<in> set ys \<Longrightarrow> f x = g x) \<Longrightarrow> opt_map f xs = opt_map g ys"
  by (induction ys arbitrary: xs) (auto split: option.splits)

lemma try_map_cong [fundef_cong]:
  assumes "xs = ys" and "\<And>x. x \<in> set ys \<Longrightarrow> f x = g x"
  shows "try_map f xs = try_map g ys"
  using assms by (induction ys arbitrary: xs) auto

lemma try_map_length: "try_map f xs = Inr ys \<Longrightarrow> length ys = length xs"
  by (induction xs arbitrary: ys) (auto simp: and_then_Inr_iff)

lemma try_map_Inr: "try_map f xs = Inr ys \<longleftrightarrow> list_all2 (\<lambda>x y. f x = Inr y) xs ys"
  by (induction xs arbitrary: ys) (auto simp: and_then_Inr_iff list_all2_Cons1)

lemma try_map_list_all:
  assumes "try_map f xs = Inr ys" and "\<And>x y. x \<in> set xs \<Longrightarrow> f x = Inr y \<Longrightarrow> Q y"
  shows "list_all Q ys"
  using assms(1) [unfolded try_map_Inr] assms(2)
  by (simp add: list_all2_conv_all_nth list_all_length) (metis nth_mem)

subsection \<open>ASCII\<close>

definition code :: "char \<Rightarrow> nat" where
  "code c = of_char c"

lemma code_less [simp]: "code c < 256"
  by (simp add: code_def)

lemma code_inject: "code a = code b \<longleftrightarrow> a = b"
  by (simp add: code_def)

lemma char_of_code [simp]: "char_of (code c) = c"
  by (simp add: code_def)

lemma code_char_of_mod [simp]: "code (char_of n) = n mod 256"
  by (simp add: code_def)

lemma code_char_of: "n < 256 \<Longrightarrow> code (char_of n) = n"
  by simp

definition is_ascii :: "string \<Rightarrow> bool" where
  "is_ascii s = list_all (\<lambda>c. code c < 128) s"

definition is_digit :: "char \<Rightarrow> bool" where
  "is_digit c = (48 \<le> code c \<and> code c \<le> 57)"

definition is_alphanumeric :: "char \<Rightarrow> bool" where
  "is_alphanumeric c = (is_digit c \<or> 65 \<le> code c \<and> code c \<le> 90 \<or> 97 \<le> code c \<and> code c \<le> 122)"

definition lower_char :: "char \<Rightarrow> char" where
  "lower_char c = (if 65 \<le> code c \<and> code c \<le> 90 then char_of (code c + 32) else c)"

definition upper_char :: "char \<Rightarrow> char" where
  "upper_char c = (if 97 \<le> code c \<and> code c \<le> 122 then char_of (code c - 32) else c)"

definition to_lower :: "string \<Rightarrow> string" where
  "to_lower s = map lower_char s"

definition to_upper :: "string \<Rightarrow> string" where
  "to_upper s = map upper_char s"

definition eq_ignore_case :: "string \<Rightarrow> string \<Rightarrow> bool" where
  "eq_ignore_case a b = (to_lower a = to_lower b)"

lemma eq_ignore_case_refl [simp]: "eq_ignore_case a a"
  by (simp add: eq_ignore_case_def)

lemma eq_ignore_case_sym: "eq_ignore_case a b \<longleftrightarrow> eq_ignore_case b a"
  by (auto simp: eq_ignore_case_def)

lemma lower_char_idem [simp]: "lower_char (lower_char c) = lower_char c"
  by (auto simp: lower_char_def code_char_of)

lemma to_lower_idem [simp]: "to_lower (to_lower s) = to_lower s"
  by (simp add: to_lower_def comp_def)

subsection \<open>UTF-8\<close>

text \<open>
  \<open>utf8_more lead rest\<close> reads one scalar value whose first byte is \<open>lead\<close>: the code
  point, or \<open>None\<close> where the bytes are not UTF-8, with the number of bytes of
  \<open>rest\<close> it takes; on an error that is the maximal valid prefix, the part that
  \<open>from_utf8_lossy\<close> replaces by one U+FFFD.
\<close>

definition cont :: "char \<Rightarrow> bool" where
  "cont c = (128 \<le> code c \<and> code c \<le> 191)"

definition low6 :: "char \<Rightarrow> nat" where
  "low6 c = code c mod 64"

definition second_ok :: "nat \<Rightarrow> char \<Rightarrow> bool" where
  "second_ok l c =
     (if l = 224 then 160 \<le> code c \<and> code c \<le> 191
      else if l = 237 then 128 \<le> code c \<and> code c \<le> 159
      else if l = 240 then 144 \<le> code c \<and> code c \<le> 191
      else if l = 244 then 128 \<le> code c \<and> code c \<le> 143
      else cont c)"

definition utf8_more :: "char \<Rightarrow> string \<Rightarrow> nat option \<times> nat" where
  "utf8_more lead rest =
     (let l = code lead in
      if l < 128 then (Some l, 0)
      else if 194 \<le> l \<and> l \<le> 223 then
        (case rest of
           a # _ \<Rightarrow> if cont a then (Some (l mod 32 * 64 + low6 a), 1) else (None, 0)
         | [] \<Rightarrow> (None, 0))
      else if 224 \<le> l \<and> l \<le> 239 then
        (case rest of
           a # b # _ \<Rightarrow>
             if \<not> second_ok l a then (None, 0)
             else if \<not> cont b then (None, 1)
             else (Some (l mod 16 * 4096 + low6 a * 64 + low6 b), 2)
         | [a] \<Rightarrow> (None, if second_ok l a then 1 else 0)
         | [] \<Rightarrow> (None, 0))
      else if 240 \<le> l \<and> l \<le> 244 then
        (case rest of
           a # b # c # _ \<Rightarrow>
             if \<not> second_ok l a then (None, 0)
             else if \<not> cont b then (None, 1)
             else if \<not> cont c then (None, 2)
             else (Some (l mod 8 * 262144 + low6 a * 4096 + low6 b * 64 + low6 c), 3)
         | [a, b] \<Rightarrow> (None, if \<not> second_ok l a then 0 else if cont b then 2 else 1)
         | [a] \<Rightarrow> (None, if second_ok l a then 1 else 0)
         | [] \<Rightarrow> (None, 0))
      else (None, 0))"

fun utf8_split :: "string \<Rightarrow> (nat option \<times> string) list" where
  "utf8_split [] = []"
| "utf8_split (c # cs) =
     (case utf8_more c cs of (cp, n) \<Rightarrow> (cp, c # take n cs) # utf8_split (drop n cs))"

definition utf8_ok :: "bytes \<Rightarrow> bool" where
  "utf8_ok s = list_all (\<lambda>(cp, _). cp \<noteq> None) (utf8_split s)"

definition chars :: "string \<Rightarrow> nat list" where
  "chars s = map (\<lambda>(cp, _). case cp of Some n \<Rightarrow> n | None \<Rightarrow> 65533) (utf8_split s)"

definition from_utf8_lossy :: "bytes \<Rightarrow> string" where
  "from_utf8_lossy s =
     concat (map (\<lambda>(cp, bs). if cp = None then [CHR 0xEF, CHR 0xBF, CHR 0xBD] else bs) (utf8_split s))"

definition take_chars :: "nat \<Rightarrow> string \<Rightarrow> string" where
  "take_chars n s = concat (map snd (take n (utf8_split s)))"

lemma utf8_split_concat: "concat (map snd (utf8_split s)) = s"
  by (induction s rule: utf8_split.induct) (auto split: prod.splits)

lemma utf8_split_ascii:
  "is_ascii s \<Longrightarrow> utf8_split s = map (\<lambda>c. (Some (code c), [c])) s"
  by (induction s) (auto simp: is_ascii_def utf8_more_def)

lemma utf8_ok_ascii: "is_ascii s \<Longrightarrow> utf8_ok s"
  by (simp add: utf8_ok_def utf8_split_ascii list_all_iff)

lemma chars_ascii: "is_ascii s \<Longrightarrow> chars s = map code s"
  by (simp add: chars_def utf8_split_ascii)

lemma utf8_lossy_ok: "utf8_ok s \<Longrightarrow> from_utf8_lossy s = s"
proof -
  assume "utf8_ok s"
  then have "map (\<lambda>(cp, bs). if cp = None then [CHR 0xEF, CHR 0xBF, CHR 0xBD] else bs) (utf8_split s)
      = map snd (utf8_split s)"
    by (auto simp: utf8_ok_def list_all_iff)
  then show ?thesis
    unfolding from_utf8_lossy_def by (simp only: utf8_split_concat)
qed

lemma utf8_more_append:
  "utf8_more c cs = (Some cp, n) \<Longrightarrow> n \<le> length cs \<and> utf8_more c (cs @ t) = (Some cp, n)"
  unfolding utf8_more_def Let_def
  by (auto split: if_splits list.splits)

lemma utf8_split_append: "utf8_ok s \<Longrightarrow> utf8_split (s @ t) = utf8_split s @ utf8_split t"
proof (induction s rule: utf8_split.induct)
  case (2 c cs)
  obtain cp n where m: "utf8_more c cs = (cp, n)" by force
  with 2 obtain k where k: "cp = Some k" and ok: "utf8_ok (drop n cs)"
    by (auto simp: utf8_ok_def)
  from utf8_more_append [of c cs k n t] m k have n: "n \<le> length cs" "utf8_more c (cs @ t) = (Some k, n)" by auto
  with 2(1) [OF m [symmetric]] ok m k show ?case by simp
qed simp

lemma utf8_ok_append: "utf8_ok s \<Longrightarrow> utf8_ok t \<Longrightarrow> utf8_ok (s @ t)"
  by (simp add: utf8_ok_def utf8_split_append)

lemma is_ascii_append [simp]: "is_ascii (s @ t) \<longleftrightarrow> is_ascii s \<and> is_ascii t"
  by (simp add: is_ascii_def)

lemma is_ascii_Cons [simp]: "is_ascii (c # s) \<longleftrightarrow> code c < 128 \<and> is_ascii s"
  by (simp add: is_ascii_def)

lemma is_ascii_Nil [simp]: "is_ascii []"
  by (simp add: is_ascii_def)

lemma is_ascii_take_drop: "is_ascii s \<Longrightarrow> is_ascii (take n s)" "is_ascii s \<Longrightarrow> is_ascii (drop n s)"
  by (auto simp: is_ascii_def list_all_iff dest: in_set_takeD in_set_dropD)

lemma is_ascii_replicate [simp]: "is_ascii (replicate n c) \<longleftrightarrow> n = 0 \<or> code c < 128"
  by (auto simp: is_ascii_def list_all_iff)

definition is_whitespace :: "nat \<Rightarrow> bool" where
  "is_whitespace n =
     (9 \<le> n \<and> n \<le> 13 \<or> n = 32 \<or> n = 133 \<or> n = 160 \<or> n = 5760 \<or> 8192 \<le> n \<and> n \<le> 8202
      \<or> n = 8232 \<or> n = 8233 \<or> n = 8239 \<or> n = 8287 \<or> n = 12288)"

definition is_control :: "nat \<Rightarrow> bool" where
  "is_control n = (n < 32 \<or> 127 \<le> n \<and> n < 160)"

definition space_chunk :: "nat option \<times> string \<Rightarrow> bool" where
  "space_chunk p = (case fst p of Some n \<Rightarrow> is_whitespace n | None \<Rightarrow> False)"

definition trim :: "string \<Rightarrow> string" where
  "trim s = concat (map snd (rev (dropWhile space_chunk (rev (dropWhile space_chunk (utf8_split s))))))"

lemma trim_decomp: "\<exists>a b. s = a @ trim s @ b"
proof -
  let ?us = "utf8_split s"
  let ?vs = "dropWhile space_chunk ?us"
  have us: "?us = takeWhile space_chunk ?us @ ?vs" by simp
  have "rev ?vs = takeWhile space_chunk (rev ?vs) @ dropWhile space_chunk (rev ?vs)" by simp
  then have vs: "?vs = rev (dropWhile space_chunk (rev ?vs)) @ rev (takeWhile space_chunk (rev ?vs))"
    by (metis rev_append rev_rev_ident)
  have "s = concat (map snd (takeWhile space_chunk ?us)) @ concat (map snd ?vs)"
    by (metis us utf8_split_concat map_append concat_append)
  moreover have "concat (map snd ?vs) = trim s @ concat (map snd (rev (takeWhile space_chunk (rev ?vs))))"
    unfolding trim_def by (metis vs map_append concat_append)
  ultimately show ?thesis by metis
qed

lemma trim_subset: "set (trim s) \<subseteq> set s"
  using trim_decomp [of s] by (metis Un_iff set_append subsetI)

lemma second_high: "second_ok l c \<Longrightarrow> 128 \<le> code c"
  by (auto simp: second_ok_def cont_def split: if_splits)

lemma utf8_more_high: "utf8_more c cs = (cp, n) \<Longrightarrow>
  code c < 128 \<and> cp = Some (code c) \<and> n = 0 \<or> 128 \<le> code c \<and> (\<forall>b \<in> set (take n cs). 128 \<le> code b)"
  unfolding utf8_more_def Let_def
  by (auto simp: cont_def numeral_2_eq_2 numeral_3_eq_3 split: if_splits list.splits dest: second_high)

lemma utf8_split_bytes:
  "(cp, bs) \<in> set (utf8_split s) \<Longrightarrow> (\<exists>c. bs = [c] \<and> code c < 128 \<and> cp = Some (code c)) \<or> (\<forall>b \<in> set bs. 128 \<le> code b)"
proof (induction s rule: utf8_split.induct)
  case (2 c cs)
  obtain k n where m: "utf8_more c cs = (k, n)" by force
  show ?case
  proof (cases "(cp, bs) \<in> set (utf8_split (drop n cs))")
    case True
    with 2(1) [OF m [symmetric]] show ?thesis .
  next
    case False
    with 2(2) m have "cp = k" "bs = c # take n cs" by auto
    with utf8_more_high [OF m] show ?thesis by auto
  qed
qed simp

definition space_byte :: "char \<Rightarrow> bool" where
  "space_byte c = (128 \<le> code c \<or> is_whitespace (code c))"

lemma space_chunk_bytes: "p \<in> set (utf8_split s) \<Longrightarrow> space_chunk p \<Longrightarrow> b \<in> set (snd p) \<Longrightarrow> space_byte b"
  using utf8_split_bytes [of "fst p" "snd p" s] by (auto simp: space_chunk_def space_byte_def)

lemma trim_decomp_space: "\<exists>a b. s = a @ trim s @ b \<and> list_all space_byte a \<and> list_all space_byte b"
proof -
  let ?us = "utf8_split s"
  let ?vs = "dropWhile space_chunk ?us"
  let ?ws = "dropWhile space_chunk (rev ?vs)"
  let ?a = "takeWhile space_chunk ?us" and ?b = "rev (takeWhile space_chunk (rev ?vs))"
  have "?vs = rev ?ws @ ?b" by (metis rev_append rev_rev_ident takeWhile_dropWhile_id)
  then have us: "?us = ?a @ rev ?ws @ ?b" by (metis takeWhile_dropWhile_id)
  have "s = concat (map snd ?a) @ trim s @ concat (map snd ?b)"
    unfolding trim_def by (subst utf8_split_concat [symmetric], subst us) simp
  moreover have "list_all space_byte (concat (map snd ?a))"
    using space_chunk_bytes by (fastforce simp: list_all_iff dest: set_takeWhileD)
  moreover have "list_all space_byte (concat (map snd ?b))"
  proof -
    have "set ?b \<subseteq> set ?us" by (subst (2) us) auto
    moreover have "p \<in> set ?b \<Longrightarrow> space_chunk p" for p by (auto dest: set_takeWhileD)
    ultimately show ?thesis using space_chunk_bytes by (fastforce simp: list_all_iff)
  qed
  ultimately show ?thesis by blast
qed

lemma trim_solid:
  assumes "s = [] \<or> \<not> space_byte (hd s) \<and> \<not> space_byte (last s)"
  shows "trim s = s"
proof -
  obtain a b where s: "s = a @ trim s @ b" and ab: "list_all space_byte a" "list_all space_byte b"
    using trim_decomp_space by blast
  have "a = []"
    using assms s ab(1) by (metis Nil_is_append_conv hd_append2 hd_in_set list_all_iff)
  moreover have "b = []"
    using assms s ab(2) by (metis Nil_is_append_conv append_assoc last_appendR last_in_set list_all_iff)
  ultimately show ?thesis using s by simp
qed

lemma length_trim: "length (trim s) \<le> length s"
  using trim_decomp [of s] by (metis length_append le_add1 le_add2 le_trans)

subsection \<open>Searching and splitting\<close>

fun split_on :: "char \<Rightarrow> string \<Rightarrow> string list" where
  "split_on d [] = [[]]"
| "split_on d (c # cs) =
     (if c = d then [] # split_on d cs
      else (case split_on d cs of p # ps \<Rightarrow> (c # p) # ps | [] \<Rightarrow> [[c]]))"

lemma split_on_not_Nil [simp]: "split_on d s \<noteq> []"
  by (induction s) (auto split: list.splits)

lemma split_on_pieces: "p \<in> set (split_on d s) \<Longrightarrow> d \<notin> set p \<and> set p \<subseteq> set s"
proof (induction s arbitrary: p)
  case (Cons c cs)
  show ?case
  proof (cases "split_on d cs")
    case (Cons q qs)
    then have "\<And>r. r = q \<or> r \<in> set qs \<Longrightarrow> d \<notin> set r \<and> set r \<subseteq> set cs"
      using Cons.IH by auto
    note ih = this
    show ?thesis
    proof (cases "c = d")
      case True
      with Cons Cons.prems have "p = [] \<or> p = q \<or> p \<in> set qs" by auto
      with ih show ?thesis by auto
    next
      case False
      with Cons Cons.prems have "p = c # q \<or> p \<in> set qs" by auto
      moreover from ih have "d \<notin> set q" "set q \<subseteq> set cs" by blast+
      moreover from ih have "p \<in> set qs \<Longrightarrow> d \<notin> set p \<and> set p \<subseteq> set cs" by blast
      ultimately show ?thesis using False by (elim disjE) auto
    qed
  qed simp
qed simp

lemma split_on_absent: "d \<notin> set s \<Longrightarrow> split_on d s = [s]"
  by (induction s) auto

lemma split_on_append:
  "d \<notin> set a \<Longrightarrow> split_on d (a @ d # b) = a # split_on d b"
  by (induction a) (auto split: list.splits)

fun split_once :: "char \<Rightarrow> string \<Rightarrow> (string \<times> string) option" where
  "split_once d [] = None"
| "split_once d (c # cs) =
     (if c = d then Some ([], cs)
      else map_option (\<lambda>(a, b). (c # a, b)) (split_once d cs))"

lemma split_once_Some:
  "split_once d s = Some (a, b) \<longleftrightarrow> s = a @ d # b \<and> d \<notin> set a"
proof (induction s arbitrary: a)
  case (Cons c cs)
  show ?case by (cases a) (auto simp: Cons.IH)
qed simp

lemma split_once_None: "split_once d s = None \<longleftrightarrow> d \<notin> set s"
  by (induction s) auto

definition rsplit_once :: "char \<Rightarrow> string \<Rightarrow> (string \<times> string) option" where
  "rsplit_once d s = map_option (\<lambda>(a, b). (rev b, rev a)) (split_once d (rev s))"

lemma rsplit_once_Some:
  "rsplit_once d s = Some (a, b) \<longleftrightarrow> s = a @ d # b \<and> d \<notin> set b"
proof -
  have "rsplit_once d s = Some (a, b) \<longleftrightarrow> split_once d (rev s) = Some (rev b, rev a)"
    by (auto simp: rsplit_once_def)
  also have "\<dots> \<longleftrightarrow> rev s = rev b @ d # rev a \<and> d \<notin> set b"
    by (simp add: split_once_Some)
  also have "\<dots> \<longleftrightarrow> s = a @ d # b \<and> d \<notin> set b"
    by (metis append.assoc append_Cons append_Nil rev.simps(2) rev_append rev_rev_ident)
  finally show ?thesis .
qed

fun strip_prefix :: "string \<Rightarrow> string \<Rightarrow> string option" where
  "strip_prefix [] s = Some s"
| "strip_prefix (p # ps) [] = None"
| "strip_prefix (p # ps) (c # cs) = (if p = c then strip_prefix ps cs else None)"

lemma strip_prefix_Some: "strip_prefix p s = Some r \<longleftrightarrow> s = p @ r"
  by (induction p s rule: strip_prefix.induct) auto

definition starts_with :: "string \<Rightarrow> string \<Rightarrow> bool" where
  "starts_with p s = (strip_prefix p s \<noteq> None)"

lemma starts_with_iff: "starts_with p s \<longleftrightarrow> (\<exists>r. s = p @ r)"
  unfolding starts_with_def by (metis not_Some_eq strip_prefix_Some)

definition strip_suffix :: "string \<Rightarrow> string \<Rightarrow> string option" where
  "strip_suffix p s = map_option rev (strip_prefix (rev p) (rev s))"

lemma strip_suffix_Some: "strip_suffix p s = Some r \<longleftrightarrow> s = r @ p"
proof -
  have "strip_suffix p s = Some r \<longleftrightarrow> strip_prefix (rev p) (rev s) = Some (rev r)"
    by (auto simp: strip_suffix_def)
  also have "\<dots> \<longleftrightarrow> rev s = rev p @ rev r" by (simp add: strip_prefix_Some)
  also have "\<dots> \<longleftrightarrow> s = r @ p" by (metis rev_append rev_rev_ident)
  finally show ?thesis .
qed

definition ends_with :: "string \<Rightarrow> string \<Rightarrow> bool" where
  "ends_with p s = (strip_suffix p s \<noteq> None)"

text \<open>The first occurrence of a substring: what precedes it and what follows it.\<close>

fun split_once_str :: "string \<Rightarrow> string \<Rightarrow> (string \<times> string) option" where
  "split_once_str p [] = (if p = [] then Some ([], []) else None)"
| "split_once_str p (c # cs) =
     (case strip_prefix p (c # cs) of
        Some r \<Rightarrow> Some ([], r)
      | None \<Rightarrow> map_option (\<lambda>(a, b). (c # a, b)) (split_once_str p cs))"

lemma split_once_str_Some: "split_once_str p s = Some (a, b) \<Longrightarrow> s = a @ p @ b"
proof (induction s arbitrary: a)
  case (Cons c cs)
  then show ?case
    by (cases "strip_prefix p (c # cs)") (auto simp: strip_prefix_Some)
qed (auto split: if_splits)

definition contains_str :: "string \<Rightarrow> string \<Rightarrow> bool" where
  "contains_str p s = (split_once_str p s \<noteq> None)"

function replace_str :: "string \<Rightarrow> string \<Rightarrow> string \<Rightarrow> string" where
  "replace_str p r s =
     (if p = [] then s
      else case split_once_str p s of
        None \<Rightarrow> s
      | Some (a, b) \<Rightarrow> a @ r @ replace_str p r b)"
  by pat_completeness auto
termination
  by (relation "measure (\<lambda>(p, r, s). length s)") (auto dest!: split_once_str_Some)

declare replace_str.simps [simp del]

fun join_with :: "string \<Rightarrow> string list \<Rightarrow> string" where
  "join_with d [] = []"
| "join_with d [s] = s"
| "join_with d (s # t # ss) = s @ d @ join_with d (t # ss)"

lemma set_join_with: "set (join_with d ss) \<subseteq> set d \<union> (\<Union>s \<in> set ss. set s)"
  by (induction d ss rule: join_with.induct) auto

subsection \<open>Decimal numerals\<close>

fun show_nat :: "nat \<Rightarrow> string" where
  "show_nat n = (if n < 10 then [char_of (48 + n)] else show_nat (n div 10) @ [char_of (48 + n mod 10)])"

declare show_nat.simps [simp del]

definition show_int :: "int \<Rightarrow> string" where
  "show_int i = (if i < 0 then CHR ''-'' # show_nat (nat (- i)) else show_nat (nat i))"

definition digits_value :: "string \<Rightarrow> nat" where
  "digits_value s = foldl (\<lambda>n c. n * 10 + (code c - 48)) 0 s"

definition parse_digits :: "string \<Rightarrow> nat option" where
  "parse_digits s = (if s \<noteq> [] \<and> list_all is_digit s then Some (digits_value s) else None)"

definition parse_unsigned :: "nat \<Rightarrow> string \<Rightarrow> nat option" where
  "parse_unsigned w s =
     (let d = (case s of c # cs \<Rightarrow> if c = CHR ''+'' then cs else s | [] \<Rightarrow> s)
      in case parse_digits d of
           Some n \<Rightarrow> if n < 2 ^ w then Some n else None
         | None \<Rightarrow> None)"

definition parse_signed :: "nat \<Rightarrow> string \<Rightarrow> int option" where
  "parse_signed w s =
     (case s of
        c # cs \<Rightarrow>
          if c = CHR ''-'' then
            (case parse_digits cs of
               Some n \<Rightarrow> if n \<le> 2 ^ (w - 1) then Some (- int n) else None
             | None \<Rightarrow> None)
          else
            (case parse_digits (if c = CHR ''+'' then cs else s) of
               Some n \<Rightarrow> if n < 2 ^ (w - 1) then Some (int n) else None
             | None \<Rightarrow> None)
      | [] \<Rightarrow> None)"

lemma show_nat_not_Nil [simp]: "show_nat n \<noteq> []"
  by (subst show_nat.simps) simp

lemma show_nat_digits: "list_all is_digit (show_nat n)"
proof (induction n rule: show_nat.induct)
  case (1 n)
  then show ?case
    by (cases "n < 10") (subst show_nat.simps, auto simp: is_digit_def code_char_of)+
qed

lemma show_nat_ascii [simp]: "is_ascii (show_nat n)"
  using show_nat_digits [of n] by (auto simp: is_ascii_def list_all_iff is_digit_def)

lemma show_int_ascii [simp]: "is_ascii (show_int i)"
  by (simp add: show_int_def code_def)

lemma digits_value_snoc: "digits_value (s @ [c]) = digits_value s * 10 + (code c - 48)"
  by (simp add: digits_value_def)

lemma digits_value_show_nat: "digits_value (show_nat n) = n"
proof (induction n rule: show_nat.induct)
  case (1 n)
  show ?case
  proof (cases "n < 10")
    case True
    then show ?thesis by (subst show_nat.simps) (simp add: digits_value_def code_char_of)
  next
    case False
    then have "digits_value (show_nat n) = (n div 10) * 10 + (code (char_of (48 + n mod 10)) - 48)"
      using 1 by (subst show_nat.simps) (simp add: digits_value_snoc)
    then show ?thesis by (simp add: code_char_of)
  qed
qed

lemma parse_digits_show_nat [simp]: "parse_digits (show_nat n) = Some n"
  by (simp add: parse_digits_def show_nat_digits digits_value_show_nat)

lemma show_nat_hd_digit: "show_nat n = c # cs \<Longrightarrow> is_digit c"
  using show_nat_digits [of n] by simp

lemma parse_unsigned_show_nat: "n < 2 ^ w \<Longrightarrow> parse_unsigned w (show_nat n) = Some n"
proof -
  assume n: "n < 2 ^ w"
  obtain c cs where s: "show_nat n = c # cs" by (cases "show_nat n") auto
  with show_nat_hd_digit have "c \<noteq> CHR ''+''" by (force simp: is_digit_def code_def)
  moreover have "parse_digits (c # cs) = Some n"
    using parse_digits_show_nat [of n] s by simp
  ultimately show ?thesis
    using n s by (simp add: parse_unsigned_def)
qed

lemma show_nat_inject: "show_nat m = show_nat n \<longleftrightarrow> m = n"
  by (metis digits_value_show_nat)

subsection \<open>Ordered maps\<close>

type_synonym ('k, 'v) bmap = "('k \<times> 'v) list"

definition bm_ok :: "('k::linorder, 'v) bmap \<Rightarrow> bool" where
  "bm_ok m = (sorted (map fst m) \<and> distinct (map fst m))"

definition bm_get :: "('k, 'v) bmap \<Rightarrow> 'k \<Rightarrow> 'v option" where
  "bm_get m k = map_of m k"

fun bm_insert :: "'k::linorder \<Rightarrow> 'v \<Rightarrow> ('k, 'v) bmap \<Rightarrow> ('k, 'v) bmap" where
  "bm_insert k v [] = [(k, v)]"
| "bm_insert k v ((k', v') # m) =
     (if k < k' then (k, v) # (k', v') # m
      else if k = k' then (k, v) # m
      else (k', v') # bm_insert k v m)"

definition bm_remove :: "'k \<Rightarrow> ('k, 'v) bmap \<Rightarrow> ('k, 'v) bmap" where
  "bm_remove k m = filter (\<lambda>(k', _). k' \<noteq> k) m"

definition bm_of_list :: "('k::linorder \<times> 'v) list \<Rightarrow> ('k, 'v) bmap" where
  "bm_of_list kvs = foldl (\<lambda>m (k, v). bm_insert k v m) [] kvs"

lemma bm_get_Nil [simp]: "bm_get [] k = None"
  by (simp add: bm_get_def)

lemma bm_ok_Nil [simp]: "bm_ok []"
  by (simp add: bm_ok_def)

lemma bm_keys_insert: "fst ` set (bm_insert k v m) = insert k (fst ` set m)"
  by (induction k v m rule: bm_insert.induct) auto

lemma bm_ok_insert [simp]: "bm_ok m \<Longrightarrow> bm_ok (bm_insert k v m)"
proof (induction k v m rule: bm_insert.induct)
  case (2 k v k' v' m)
  have "set (map fst (bm_insert k v m)) = insert k (fst ` set m)"
    by (simp add: bm_keys_insert)
  with 2 show ?case
    by (auto simp: bm_ok_def)
qed (simp add: bm_ok_def)

lemma bm_get_insert_same [simp]: "bm_get (bm_insert k v m) k = Some v"
  by (induction k v m rule: bm_insert.induct) (auto simp: bm_get_def)

lemma bm_get_insert_other [simp]: "k' \<noteq> k \<Longrightarrow> bm_get (bm_insert k v m) k' = bm_get m k'"
  by (induction k v m rule: bm_insert.induct) (auto simp: bm_get_def)

lemma bm_get_insert: "bm_get (bm_insert k v m) = (bm_get m)(k \<mapsto> v)"
  by (rule ext) auto

lemma bm_get_remove: "bm_get (bm_remove k m) = (bm_get m)(k := None)"
  by (induction m) (auto simp: bm_remove_def bm_get_def fun_eq_iff)

lemma bm_ok_remove [simp]: "bm_ok m \<Longrightarrow> bm_ok (bm_remove k m)"
  by (induction m) (auto simp: bm_ok_def bm_remove_def)

lemma bm_get_None_iff: "bm_get m k = None \<longleftrightarrow> k \<notin> fst ` set m"
  by (simp add: bm_get_def map_of_eq_None_iff)

lemma set_bm_insert: "set (bm_insert k v m) \<subseteq> insert (k, v) (set m)"
  by (induction k v m rule: bm_insert.induct) auto

lemma bm_of_list_snoc: "bm_of_list (kvs @ [(k, v)]) = bm_insert k v (bm_of_list kvs)"
  by (simp add: bm_of_list_def)

lemma bm_of_list_ok: "bm_ok (bm_of_list kvs) \<and> set (bm_of_list kvs) \<subseteq> set kvs"
proof (induction kvs rule: rev_induct)
  case (snoc p kvs)
  then show ?case using set_bm_insert by (cases p) (fastforce simp: bm_of_list_snoc)
qed (simp add: bm_of_list_def)

lemma bm_insert_last: "bm_ok m \<Longrightarrow> \<forall>k' \<in> fst ` set m. k' < k \<Longrightarrow> bm_insert k v m = m @ [(k, v)]"
  by (induction k v m rule: bm_insert.induct) (auto simp: bm_ok_def)

lemma bm_of_list_sorted: "bm_ok kvs \<Longrightarrow> bm_of_list kvs = kvs"
proof (induction kvs rule: rev_induct)
  case (snoc p kvs)
  obtain k v where p: "p = (k, v)" by force
  from snoc.prems p have ok: "bm_ok kvs" "\<forall>k' \<in> fst ` set kvs. k' < k"
    by (auto simp: bm_ok_def sorted_append order.strict_iff_order image_iff)
  with snoc.IH p bm_insert_last [OF ok] show ?case by (simp add: bm_of_list_snoc)
qed (simp add: bm_of_list_def)

subsection \<open>Little-endian integers\<close>

fun le_value :: "bytes \<Rightarrow> nat" where
  "le_value [] = 0"
| "le_value (c # cs) = code c + 256 * le_value cs"

fun le_bytes :: "nat \<Rightarrow> nat \<Rightarrow> bytes" where
  "le_bytes 0 n = []"
| "le_bytes (Suc k) n = char_of (n mod 256) # le_bytes k (n div 256)"

lemma length_le_bytes [simp, codec_simps]: "length (le_bytes k n) = k"
  by (induction k arbitrary: n) auto

lemma le_value_bytes [codec_simps]: "n < 256 ^ k \<Longrightarrow> le_value (le_bytes k n) = n"
proof (induction k arbitrary: n)
  case (Suc k)
  then have "n div 256 < 256 ^ k" by (simp add: less_mult_imp_div_less mult.commute)
  with Suc.IH have "le_value (le_bytes k (n div 256)) = n div 256" by blast
  then show ?case by (simp add: code_char_of del: char_of_mod_256)
qed simp

lemma le_value_less: "le_value s < 256 ^ length s"
proof (induction s)
  case (Cons c cs)
  have "code c < 256" by simp
  with Cons show ?case by (simp del: code_less)
qed simp

lemma le_bytes_value [codec_simps]: "le_bytes (length s) (le_value s) = s"
proof (induction s)
  case (Cons c cs)
  have "code c < 256" by simp
  with Cons show ?case by simp
qed simp

subsection \<open>Hexadecimal digits\<close>

definition hex_value :: "char \<Rightarrow> nat option" where
  "hex_value c =
     (if 48 \<le> code c \<and> code c \<le> 57 then Some (code c - 48)
      else if 97 \<le> code c \<and> code c \<le> 102 then Some (code c - 97 + 10)
      else if 65 \<le> code c \<and> code c \<le> 70 then Some (code c - 65 + 10)
      else None)"

definition nibble_char :: "nat \<Rightarrow> char" where
  "nibble_char n = ''0123456789abcdef'' ! n"

lemma hex_value_nibble: "n < 16 \<Longrightarrow> hex_value (nibble_char n) = Some n"
proof -
  assume "n < 16"
  then have "n \<in> set [0..<16]" by simp
  moreover have "list_all (\<lambda>n. hex_value (nibble_char n) = Some n) [0..<16]" by code_simp
  ultimately show ?thesis unfolding list_all_iff by blast
qed

lemma nibble_alphanumeric: "n < 16 \<Longrightarrow> is_alphanumeric (nibble_char n)"
proof -
  assume "n < 16"
  then have "n \<in> set [0..<16]" by simp
  moreover have "list_all (\<lambda>n. is_alphanumeric (nibble_char n)) [0..<16]" by code_simp
  ultimately show ?thesis unfolding list_all_iff by blast
qed

fun show_hex :: "nat \<Rightarrow> string" where
  "show_hex n = (if n < 16 then [nibble_char n] else show_hex (n div 16) @ [nibble_char (n mod 16)])"

declare show_hex.simps [simp del]

lemma show_hex_alphanumeric: "c \<in> set (show_hex n) \<Longrightarrow> is_alphanumeric c"
proof (induction n rule: show_hex.induct)
  case (1 n)
  then show ?case by (subst (asm) (2) show_hex.simps) (auto simp: nibble_alphanumeric split: if_splits)
qed

end
