(* ===== verification/Ax_Float.thy ===== *)
theory Ax_Float
  imports Ax_Prelude "HOL-Library.Word" "HOL-Library.Signed_Division"
begin

section \<open>Machine numbers: i64 with overflow checks, f64 as its bits\<close>

text \<open>
  The two numeric types of the expression machine. An \<open>i64\<close> is a 64-bit word read with
  \<^const>\<open>sint\<close>; the \<open>checked_*\<close> operations of Rust return \<open>None\<close> on overflow, on a
  zero divisor and on \<open>MIN / -1\<close>. An \<open>f64\<close> is its 64 bits (IEEE 754 binary64). A
  finite value is an integer number of units of \<open>2 ^ -1074\<close>, so sums, products and
  quotients are computed exactly and rounded once, to nearest with ties to even, by
  \<open>round_mag\<close>; comparisons are on the sign-magnitude key. \<open>show_f64\<close> is Rust's
  \<open>Display\<close>: the shortest decimal that reads back to the same bits, without an exponent.
\<close>

type_synonym i64 = "64 word"
type_synonym f64 = "64 word"

subsection \<open>i64\<close>

definition in_i64 :: "int \<Rightarrow> bool" where
  "in_i64 z = (- (2 ^ 63) \<le> z \<and> z < 2 ^ 63)"

definition i64_of :: "int \<Rightarrow> i64 option" where
  "i64_of z = (if in_i64 z then Some (word_of_int z) else None)"

definition checked_add :: "i64 \<Rightarrow> i64 \<Rightarrow> i64 option" where
  "checked_add a b = i64_of (sint a + sint b)"

definition checked_sub :: "i64 \<Rightarrow> i64 \<Rightarrow> i64 option" where
  "checked_sub a b = i64_of (sint a - sint b)"

definition checked_mul :: "i64 \<Rightarrow> i64 \<Rightarrow> i64 option" where
  "checked_mul a b = i64_of (sint a * sint b)"

definition checked_div :: "i64 \<Rightarrow> i64 \<Rightarrow> i64 option" where
  "checked_div a b = (if sint b = 0 then None else i64_of (sint a sdiv sint b))"

definition checked_rem :: "i64 \<Rightarrow> i64 \<Rightarrow> i64 option" where
  "checked_rem a b =
     (if sint b = 0 \<or> \<not> in_i64 (sint a sdiv sint b) then None else i64_of (sint a smod sint b))"

definition checked_neg :: "i64 \<Rightarrow> i64 option" where
  "checked_neg a = i64_of (- sint a)"

lemma in_i64_sint [simp]: "in_i64 (sint (a :: i64))"
  using sint_lt [of a] sint_ge [of a] by (simp add: in_i64_def)

lemma sint_word_of_in_i64: "in_i64 z \<Longrightarrow> sint (word_of_int z :: i64) = z"
  by (simp add: in_i64_def sint_sbintrunc' signed_take_bit_int_eq_self)

lemma i64_of_Some: "i64_of z = Some w \<longleftrightarrow> in_i64 z \<and> sint w = z"
  by (auto simp: i64_of_def sint_word_of_in_i64 split: if_splits)

lemma checked_add_spec: "checked_add a b = Some c \<longleftrightarrow> sint c = sint a + sint b"
  by (auto simp: checked_add_def i64_of_Some) (metis in_i64_sint)

lemma checked_sub_spec: "checked_sub a b = Some c \<longleftrightarrow> sint c = sint a - sint b"
  by (auto simp: checked_sub_def i64_of_Some) (metis in_i64_sint)

lemma checked_mul_spec: "checked_mul a b = Some c \<longleftrightarrow> sint c = sint a * sint b"
  by (auto simp: checked_mul_def i64_of_Some) (metis in_i64_sint)

lemma checked_div_spec:
  "checked_div a b = Some c \<longleftrightarrow> sint b \<noteq> 0 \<and> sint c = sint a sdiv sint b"
  by (auto simp: checked_div_def i64_of_Some) (metis in_i64_sint)

subsection \<open>f64: classification and order\<close>

definition f64_sign :: "f64 \<Rightarrow> bool" where
  "f64_sign b = (2 ^ 63 \<le> unat b)"

definition f64_mag :: "f64 \<Rightarrow> nat" where
  "f64_mag b = unat b mod 2 ^ 63"

definition inf_mag :: nat where
  "inf_mag = 2047 * 2 ^ 52"

definition is_finite :: "f64 \<Rightarrow> bool" where
  "is_finite b = (f64_mag b < inf_mag)"

definition is_inf :: "f64 \<Rightarrow> bool" where
  "is_inf b = (f64_mag b = inf_mag)"

definition is_nan :: "f64 \<Rightarrow> bool" where
  "is_nan b = (inf_mag < f64_mag b)"

definition f64_make :: "bool \<Rightarrow> nat \<Rightarrow> f64" where
  "f64_make s m = word_of_nat ((if s then 2 ^ 63 else 0) + m)"

definition f64_nan :: f64 where
  "f64_nan = f64_make False (inf_mag + 2 ^ 51)"

definition f64_key :: "f64 \<Rightarrow> int" where
  "f64_key b = (if f64_sign b then - int (f64_mag b) else int (f64_mag b))"

datatype ordering = Less | Equal | Greater

definition int_cmp :: "int \<Rightarrow> int \<Rightarrow> ordering" where
  "int_cmp a b = (if a < b then Less else if a = b then Equal else Greater)"

definition f64_cmp :: "f64 \<Rightarrow> f64 \<Rightarrow> ordering option" where
  "f64_cmp a b = (if is_nan a \<or> is_nan b then None else Some (int_cmp (f64_key a) (f64_key b)))"

definition f64_eq :: "f64 \<Rightarrow> f64 \<Rightarrow> bool" where
  "f64_eq a b = (f64_cmp a b = Some Equal)"

definition f64_is_zero :: "f64 \<Rightarrow> bool" where
  "f64_is_zero b = (f64_mag b = 0)"

lemma f64_finite_cases: "is_finite b \<or> is_inf b \<or> is_nan b"
  by (auto simp: is_finite_def is_inf_def is_nan_def)

lemma f64_finite_not_nan [simp]: "is_finite b \<Longrightarrow> \<not> is_nan b"
  by (simp add: is_finite_def is_nan_def)

lemma f64_eq_sym: "f64_eq a b \<longleftrightarrow> f64_eq b a"
  by (auto simp: f64_eq_def f64_cmp_def int_cmp_def split: if_splits)

lemma f64_eq_refl: "f64_eq a a \<longleftrightarrow> \<not> is_nan a"
  by (simp add: f64_eq_def f64_cmp_def int_cmp_def)

subsection \<open>f64: exact values and rounding\<close>

text \<open>The magnitude of a finite value, in units of \<open>2 ^ -1074\<close>.\<close>

definition f64_scale :: nat where
  "f64_scale = 2 ^ 1074"

definition f64_units :: "f64 \<Rightarrow> nat" where
  "f64_units b =
     (let m = f64_mag b; ex = m div 2 ^ 52; frac = m mod 2 ^ 52
      in if ex = 0 then frac else (2 ^ 52 + frac) * 2 ^ (ex - 1))"

definition f64_int :: "f64 \<Rightarrow> int" where
  "f64_int b = (if f64_sign b then - int (f64_units b) else int (f64_units b))"

fun bit_length :: "nat \<Rightarrow> nat" where
  "bit_length n = (if n = 0 then 0 else Suc (bit_length (n div 2)))"

declare bit_length.simps [simp del]

definition round_half_even :: "nat \<Rightarrow> nat \<Rightarrow> nat" where
  "round_half_even p d =
     (let r = p div d; t = p mod d
      in if 2 * t < d then r else if d < 2 * t then r + 1 else if even r then r else r + 1)"

text \<open>
  The magnitude bits of \<open>p / q\<close> units rounded to nearest, ties to even. Below
  \<open>2 ^ 53\<close> units the spacing is one unit; above, it is \<open>2 ^ k\<close> with 53 significant
  bits kept. Writing the result as \<open>k * 2 ^ 52 + m\<close> makes a carry out of the significand
  move to the next exponent by itself.
\<close>

definition round_mag :: "nat \<Rightarrow> nat \<Rightarrow> nat" where
  "round_mag p q =
     (let k = bit_length (p div q) - 53;
          m = round_half_even p (q * 2 ^ k)
      in min inf_mag (k * 2 ^ 52 + m))"

definition f64_of_i64 :: "i64 \<Rightarrow> f64" where
  "f64_of_i64 i = f64_make (sint i < 0) (round_mag (nat \<bar>sint i\<bar> * f64_scale) 1)"

definition f64_neg :: "f64 \<Rightarrow> f64" where
  "f64_neg b = f64_make (\<not> f64_sign b) (f64_mag b)"

definition f64_add :: "f64 \<Rightarrow> f64 \<Rightarrow> f64" where
  "f64_add a b =
     (if is_nan a \<or> is_nan b then f64_nan
      else if is_inf a then (if is_inf b \<and> f64_sign a \<noteq> f64_sign b then f64_nan else a)
      else if is_inf b then b
      else let s = f64_int a + f64_int b
           in if s = 0 then f64_make (f64_sign a \<and> f64_sign b) 0
              else f64_make (s < 0) (round_mag (nat \<bar>s\<bar>) 1))"

definition f64_sub :: "f64 \<Rightarrow> f64 \<Rightarrow> f64" where
  "f64_sub a b = f64_add a (f64_neg b)"

definition f64_mul :: "f64 \<Rightarrow> f64 \<Rightarrow> f64" where
  "f64_mul a b =
     (let s = (f64_sign a \<noteq> f64_sign b)
      in if is_nan a \<or> is_nan b then f64_nan
         else if is_inf a \<or> is_inf b
           then (if f64_is_zero a \<or> f64_is_zero b then f64_nan else f64_make s inf_mag)
         else f64_make s (round_mag (f64_units a * f64_units b) (f64_scale)))"

definition f64_div :: "f64 \<Rightarrow> f64 \<Rightarrow> f64" where
  "f64_div a b =
     (let s = (f64_sign a \<noteq> f64_sign b)
      in if is_nan a \<or> is_nan b then f64_nan
         else if is_inf a then (if is_inf b then f64_nan else f64_make s inf_mag)
         else if is_inf b then f64_make s 0
         else if f64_is_zero b then (if f64_is_zero a then f64_nan else f64_make s inf_mag)
         else f64_make s (round_mag (f64_units a * f64_scale) (f64_units b)))"

definition f64_rem :: "f64 \<Rightarrow> f64 \<Rightarrow> f64" where
  "f64_rem a b =
     (if is_nan a \<or> is_nan b \<or> is_inf a \<or> f64_is_zero b then f64_nan
      else if is_inf b then a
      else f64_make (f64_sign a) (round_mag (f64_units a mod f64_units b) 1))"

lemma round_mag_le: "round_mag p q \<le> inf_mag"
  by (simp add: round_mag_def Let_def)

lemma inf_mag_less: "inf_mag < 2 ^ 63"
  by (simp add: inf_mag_def)

lemma f64_mag_less: "f64_mag b < 2 ^ 63"
  by (simp add: f64_mag_def)

lemma unat_word_of_nat64: "unat (word_of_nat n :: 64 word) = n mod 2 ^ 64"
  by (simp add: unat_of_nat)

lemma unat_f64_make: "m < 2 ^ 63 \<Longrightarrow> unat (f64_make s m) = (if s then 2 ^ 63 else 0) + m"
  unfolding f64_make_def unat_word_of_nat64 by (cases s) auto

lemma f64_mag_make: "m < 2 ^ 63 \<Longrightarrow> f64_mag (f64_make s m) = m"
  unfolding f64_mag_def by (subst unat_f64_make) auto

lemma f64_sign_make: "m < 2 ^ 63 \<Longrightarrow> f64_sign (f64_make s m) = s"
  unfolding f64_sign_def by (subst unat_f64_make) auto

lemma f64_make_eta: "f64_make (f64_sign b) (f64_mag b) = b"
proof -
  have "unat b < 2 ^ LENGTH(64)" by (rule unsigned_less)
  then have b: "unat b < 2 ^ 63 + 2 ^ 63" by simp
  have "(if f64_sign b then 2 ^ 63 else 0) + f64_mag b = unat b"
  proof (cases "unat b < 2 ^ 63")
    case True
    then show ?thesis by (simp add: f64_sign_def f64_mag_def)
  next
    case False
    then have "unat b mod 2 ^ 63 = unat b - 2 ^ 63"
      using b by (simp only: not_less le_mod_geq) simp
    with False show ?thesis by (simp add: f64_sign_def f64_mag_def)
  qed
  then have "unat (f64_make (f64_sign b) (f64_mag b)) = unat b"
    by (subst unat_f64_make [OF f64_mag_less])
  then show ?thesis by (simp only: word_unat_eq_iff)
qed

lemma f64_neg_finite [simp]: "is_finite (f64_neg b) = is_finite b"
  using f64_mag_less [of b] by (simp add: f64_neg_def is_finite_def f64_mag_make)

lemma f64_neg_neg: "f64_neg (f64_neg b) = b"
  using f64_mag_less [of b]
  by (simp only: f64_neg_def f64_mag_make f64_sign_make not_not f64_make_eta)

subsection \<open>f64: shortest decimal\<close>

definition decimal_reads_as :: "f64 \<Rightarrow> nat \<Rightarrow> int \<Rightarrow> bool" where
  "decimal_reads_as b c e =
     (if 0 \<le> e then round_mag (c * 10 ^ nat e * f64_scale) 1 = f64_mag b
      else round_mag (c * f64_scale) (10 ^ nat (- e)) = f64_mag b)"

fun leading_zeros :: "nat \<Rightarrow> nat \<Rightarrow> nat \<Rightarrow> nat" where
  "leading_zeros 0 u j = j"
| "leading_zeros (Suc fuel) u j =
     (if f64_scale \<le> u * 10 ^ (j + 1) then j else leading_zeros fuel u (j + 1))"

definition dec_exponent :: "nat \<Rightarrow> int" where
  "dec_exponent u =
     (if f64_scale \<le> u then int (length (show_nat (u div f64_scale)))
      else - int (leading_zeros 400 u 0))"

text \<open>The candidates with \<open>n\<close> digits on both sides of the value, nearest first (ties up).\<close>

definition candidates :: "nat \<Rightarrow> nat \<Rightarrow> nat list" where
  "candidates num den =
     (let f = num div den in if 2 * (num mod den) < den then [f, f + 1] else [f + 1, f])"

fun shortest_digits :: "f64 \<Rightarrow> nat list \<Rightarrow> nat \<times> int" where
  "shortest_digits b [] = (0, 0)"
| "shortest_digits b (n # ns) =
     (let u = f64_units b; e = dec_exponent u - int n;
          cs = (if 0 \<le> e then candidates u (10 ^ nat e * f64_scale)
                else candidates (u * 10 ^ nat (- e)) (f64_scale))
      in case filter (\<lambda>c. decimal_reads_as b c e) cs of
           c # _ \<Rightarrow> (c, e)
         | [] \<Rightarrow> shortest_digits b ns)"

fun strip_zeros :: "nat \<Rightarrow> nat \<Rightarrow> int \<Rightarrow> nat \<times> int" where
  "strip_zeros 0 c e = (c, e)"
| "strip_zeros (Suc k) c e = (if c \<noteq> 0 \<and> c mod 10 = 0 then strip_zeros k (c div 10) (e + 1) else (c, e))"

definition show_decimal :: "nat \<Rightarrow> int \<Rightarrow> string" where
  "show_decimal c e =
     (let ds = show_nat c; p = int (length ds) + e
      in if 0 \<le> e then ds @ replicate (nat e) (CHR ''0'')
         else if p \<le> 0 then ''0.'' @ replicate (nat (- p)) (CHR ''0'') @ ds
         else take (nat p) ds @ ''.'' @ drop (nat p) ds)"

definition show_f64 :: "f64 \<Rightarrow> string" where
  "show_f64 b =
     (if is_nan b then ''NaN''
      else (if f64_sign b then ''-'' else []) @
        (if is_inf b then ''inf''
         else if f64_is_zero b then ''0''
         else case shortest_digits b [1..<18] of
           (c, e) \<Rightarrow> (case strip_zeros 17 c e of (c', e') \<Rightarrow> show_decimal c' e')))"

lemma show_f64_ascii [simp]: "is_ascii (show_f64 b)"
  by (auto simp: show_f64_def show_decimal_def Let_def code_def is_ascii_take_drop split: prod.splits)

end
