(* ===== verification/Ax_Expr.thy ===== *)
theory Ax_Expr
  imports Ax_Float
begin

section \<open>Expressions and their server-side evaluation\<close>

text \<open>
  The expression tree of \<open>axonyx-core/src/ax_ast.rs\<close> (\<open>AxExpr\<close>, \<open>AxFloat\<close>, the operators,
  \<open>AxFunctionDef\<close>) and the evaluator the server renders a page with
  (\<open>axonyx-core/src/ax_lowering.rs\<close>: \<open>AxValue\<close>, \<open>eval_expr\<close>, \<open>eval_function_call\<close> and the
  operations on values).

  Two things of Rust show here. Unchecked \<open>i64\<close> arithmetic panics when the build has
  overflow checks and wraps when it has not: \<open>checks\<close> is that build setting. A recursive
  function of a page makes \<open>eval_expr\<close> recurse without end; the model gives a call one unit
  of fuel and answers \<open>Diverges\<close> when there is none left, while everything else is by
  structural recursion. The data resolver of a page (\<open>AxDataResolver\<close>, a closure of the
  application) is an argument.
\<close>

datatype ax_unary_op = OpNot | OpNeg

datatype ax_binary_op =
    OpAdd | OpSub | OpMul | OpDiv | OpRem | OpEq | OpNe | OpGt | OpGe | OpLt | OpLe
  | OpIn | OpAnd | OpOr | OpFallback

datatype ax_expr =
    ExString string
  | ExNumber i64
  | ExFloat f64
  | ExBool bool
  | ExList "ax_expr list"
  | ExObject "(string \<times> ax_expr) list"
  | ExIdentifier string
  | ExUnary ax_unary_op ax_expr
  | ExBinary ax_binary_op ax_expr ax_expr
  | ExIndex ax_expr ax_expr
  | ExMember ax_expr string
  | ExOptionalMember ax_expr string
  | ExCall "string list" "ax_expr list"

record ax_param =
  param_name :: string
  param_ty :: "string option"
  param_literal_values :: "string list"
  param_default :: "ax_expr option"

record ax_function =
  function_name :: string
  function_params :: "ax_param list"
  function_body :: ax_expr

text \<open>\<open>AxFloat::new\<close>: finite values only, with one zero.\<close>

definition ax_float_norm :: "f64 \<Rightarrow> f64" where
  "ax_float_norm b = (if f64_is_zero b then f64_make False 0 else b)"

definition ax_float_new :: "f64 \<Rightarrow> f64 option" where
  "ax_float_new b = (if is_finite b then Some (ax_float_norm b) else None)"

subsection \<open>Values and failures\<close>

datatype ax_value =
    AvNull
  | AvString string
  | AvNumber i64
  | AvFloat f64
  | AvBool bool
  | AvRecord "(string, ax_value) bmap"
  | AvList "ax_value list"

datatype lower_error =
    UnknownIdentifier string
  | UnknownMember string
  | UnsupportedCall string
  | UnsupportedExpression string
  | EachRequiresList
  | InvalidEachKey
  | DuplicateEachKey string
  | ImportedComponentParse string string
  | InvalidComponentPropLiteral string string string string

datatype eval_failure = Raised lower_error | Panicked string | Diverges

type_synonym eval_result = "eval_failure + ax_value"

definition unsupported :: "string \<Rightarrow> eval_failure + 'a" where
  "unsupported message = Inl (Raised (UnsupportedExpression message))"

fun is_truthy :: "ax_value \<Rightarrow> bool" where
  "is_truthy AvNull = False"
| "is_truthy (AvString s) = (s \<noteq> [])"
| "is_truthy (AvNumber i) = (i \<noteq> 0)"
| "is_truthy (AvFloat f) = (\<not> f64_is_zero f)"
| "is_truthy (AvBool b) = b"
| "is_truthy (AvRecord fs) = (fs \<noteq> [])"
| "is_truthy (AvList vs) = (vs \<noteq> [])"

fun ax_value_eq :: "ax_value \<Rightarrow> ax_value \<Rightarrow> bool"
  and ax_values_eq :: "ax_value list \<Rightarrow> ax_value list \<Rightarrow> bool"
  and ax_fields_eq :: "(string \<times> ax_value) list \<Rightarrow> (string \<times> ax_value) list \<Rightarrow> bool" where
  "ax_value_eq AvNull w = (case w of AvNull \<Rightarrow> True | _ \<Rightarrow> False)"
| "ax_value_eq (AvString a) w = (case w of AvString b \<Rightarrow> a = b | _ \<Rightarrow> False)"
| "ax_value_eq (AvNumber a) w = (case w of AvNumber b \<Rightarrow> a = b | _ \<Rightarrow> False)"
| "ax_value_eq (AvFloat a) w = (case w of AvFloat b \<Rightarrow> f64_eq a b | _ \<Rightarrow> False)"
| "ax_value_eq (AvBool a) w = (case w of AvBool b \<Rightarrow> a = b | _ \<Rightarrow> False)"
| "ax_value_eq (AvRecord a) w = (case w of AvRecord b \<Rightarrow> ax_fields_eq a b | _ \<Rightarrow> False)"
| "ax_value_eq (AvList a) w = (case w of AvList b \<Rightarrow> ax_values_eq a b | _ \<Rightarrow> False)"
| "ax_values_eq [] ws = (ws = [])"
| "ax_values_eq (v # vs) ws = (case ws of w # ws' \<Rightarrow> ax_value_eq v w \<and> ax_values_eq vs ws' | [] \<Rightarrow> False)"
| "ax_fields_eq [] gs = (gs = [])"
| "ax_fields_eq ((k, v) # fs) gs =
     (case gs of (l, w) # gs' \<Rightarrow> k = l \<and> ax_value_eq v w \<and> ax_fields_eq fs gs' | [] \<Rightarrow> False)"

subsection \<open>Operations on values\<close>

fun as_string :: "ax_value \<Rightarrow> string" where
  "as_string AvNull = []"
| "as_string (AvString s) = s"
| "as_string (AvNumber i) = show_int (sint i)"
| "as_string (AvFloat f) = (if f64_is_zero f then ''0'' else show_f64 f)"
| "as_string (AvBool b) = (if b then ''true'' else ''false'')"
| "as_string (AvRecord fs) = ''[record]''"
| "as_string (AvList vs) = ''[list]''"

definition finite_float_value :: "f64 \<Rightarrow> string \<Rightarrow> eval_result" where
  "finite_float_value b operator =
     (case ax_float_new b of
        Some f \<Rightarrow> Inr (AvFloat f)
      | None \<Rightarrow> unsupported (operator @ '' produced a non-finite Float''))"

fun ax_scalar :: "ax_value \<Rightarrow> string option" where
  "ax_scalar (AvString s) = Some s"
| "ax_scalar (AvNumber i) = Some (show_int (sint i))"
| "ax_scalar (AvFloat f) = Some (if f64_is_zero f then ''0'' else show_f64 f)"
| "ax_scalar (AvBool b) = Some (if b then ''true'' else ''false'')"
| "ax_scalar _ = None"

fun is_av_string :: "ax_value \<Rightarrow> bool" where
  "is_av_string (AvString _) = True"
| "is_av_string _ = False"

definition add_values :: "ax_value \<Rightarrow> ax_value \<Rightarrow> eval_result" where
  "add_values left right =
     (case (left, right) of
        (AvNumber a, AvNumber b) \<Rightarrow>
          (case checked_add a b of
             Some c \<Rightarrow> Inr (AvNumber c)
           | None \<Rightarrow> unsupported ''integer addition overflow'')
      | (AvFloat a, AvFloat b) \<Rightarrow> finite_float_value (f64_add a b) ''`+`''
      | (AvNumber a, AvFloat b) \<Rightarrow> finite_float_value (f64_add (f64_of_i64 a) b) ''`+`''
      | (AvFloat a, AvNumber b) \<Rightarrow> finite_float_value (f64_add a (f64_of_i64 b)) ''`+`''
      | _ \<Rightarrow>
          if is_av_string left \<or> is_av_string right then
            (case (ax_scalar left, ax_scalar right) of
               (Some a, Some b) \<Rightarrow> Inr (AvString (a @ b))
             | _ \<Rightarrow> unsupported ''`+` concatenation requires scalar operands'')
          else unsupported ''`+` requires two numbers or a String with a scalar operand'')"

text \<open>\<open>a - b\<close> and \<open>a * b\<close> on \<open>i64\<close>: a panic or a wrapped result where the exact one does not fit.\<close>

definition plain_int_op :: "bool \<Rightarrow> (i64 \<Rightarrow> i64 \<Rightarrow> i64 option) \<Rightarrow> (i64 \<Rightarrow> i64 \<Rightarrow> i64) \<Rightarrow> string
    \<Rightarrow> i64 \<Rightarrow> i64 \<Rightarrow> eval_failure + i64" where
  "plain_int_op checks exact wrapping message a b =
     (case exact a b of
        Some c \<Rightarrow> Inr c
      | None \<Rightarrow> if checks then Inl (Panicked message) else Inr (wrapping a b))"

text \<open>\<open>a / b\<close> and \<open>a % b\<close> panic on \<open>i64::MIN / -1\<close> in every build.\<close>

definition eval_numeric_binary :: "ax_value \<Rightarrow> ax_value \<Rightarrow> (i64 \<Rightarrow> i64 \<Rightarrow> eval_failure + i64)
    \<Rightarrow> (f64 \<Rightarrow> f64 \<Rightarrow> f64) \<Rightarrow> string \<Rightarrow> bool \<Rightarrow> eval_result" where
  "eval_numeric_binary left right int_operation float_operation operator reject_zero_right =
     (if reject_zero_right \<and>
         (case right of AvNumber i \<Rightarrow> i = 0 | AvFloat f \<Rightarrow> f64_is_zero f | _ \<Rightarrow> False)
      then unsupported (operator @ '' cannot use zero as the right operand'')
      else case (left, right) of
        (AvNumber a, AvNumber b) \<Rightarrow> and_then (int_operation a b) (\<lambda>c. Inr (AvNumber c))
      | (AvFloat a, AvFloat b) \<Rightarrow> finite_float_value (float_operation a b) operator
      | (AvNumber a, AvFloat b) \<Rightarrow> finite_float_value (float_operation (f64_of_i64 a) b) operator
      | (AvFloat a, AvNumber b) \<Rightarrow> finite_float_value (float_operation a (f64_of_i64 b)) operator
      | _ \<Rightarrow> unsupported (operator @ '' expects numbers''))"

definition str_ordering :: "string \<Rightarrow> string \<Rightarrow> ordering" where
  "str_ordering a b = (if a < b then Less else if a = b then Equal else Greater)"

definition compare_floats :: "(ordering \<Rightarrow> bool) \<Rightarrow> f64 \<Rightarrow> f64 \<Rightarrow> eval_result" where
  "compare_floats operation a b =
     (case f64_cmp a b of
        Some c \<Rightarrow> Inr (AvBool (operation c))
      | None \<Rightarrow> Inl (Panicked ''finite Float values are comparable''))"

definition eval_compare_binary :: "ax_value \<Rightarrow> ax_value \<Rightarrow> (ordering \<Rightarrow> bool) \<Rightarrow> string \<Rightarrow> eval_result" where
  "eval_compare_binary left right operation operator =
     (case (left, right) of
        (AvNumber a, AvNumber b) \<Rightarrow> Inr (AvBool (operation (int_cmp (sint a) (sint b))))
      | (AvFloat a, AvFloat b) \<Rightarrow> compare_floats operation a b
      | (AvNumber a, AvFloat b) \<Rightarrow> compare_floats operation (f64_of_i64 a) b
      | (AvFloat a, AvNumber b) \<Rightarrow> compare_floats operation a (f64_of_i64 b)
      | (AvString a, AvString b) \<Rightarrow> Inr (AvBool (operation (str_ordering a b)))
      | _ \<Rightarrow> unsupported (operator @ '' expects comparable values''))"

definition record_get :: "(string, ax_value) bmap \<Rightarrow> string \<Rightarrow> ax_value" where
  "record_get flds name = (case bm_get flds name of Some v \<Rightarrow> v | None \<Rightarrow> AvNull)"

text \<open>\<open>usize::try_from(index)\<close> on the 64-bit server fails on a negative index only.\<close>

definition eval_index_expr :: "ax_value \<Rightarrow> ax_value \<Rightarrow> eval_result" where
  "eval_index_expr object index =
     (case (object, index) of
        (AvList items, AvNumber i) \<Rightarrow>
          if 0 \<le> sint i \<and> nat (sint i) < length items then Inr (items ! nat (sint i)) else Inr AvNull
      | (AvRecord flds, AvString key) \<Rightarrow> Inr (record_get flds key)
      | _ \<Rightarrow> unsupported ''index access expects List[Number] or Record[String]'')"

definition eval_unary_expr :: "bool \<Rightarrow> ax_unary_op \<Rightarrow> ax_value \<Rightarrow> eval_result" where
  "eval_unary_expr checks op v =
     (case op of
        OpNot \<Rightarrow> Inr (AvBool (\<not> is_truthy v))
      | OpNeg \<Rightarrow>
          (case v of
             AvNumber i \<Rightarrow>
               (case checked_neg i of
                  Some j \<Rightarrow> Inr (AvNumber j)
                | None \<Rightarrow> if checks then Inl (Panicked ''attempt to negate with overflow'') else Inr (AvNumber (- i)))
           | AvFloat f \<Rightarrow>
               (case ax_float_new (f64_neg f) of
                  Some g \<Rightarrow> Inr (AvFloat g)
                | None \<Rightarrow> Inl (Panicked ''negating a finite Float stays finite''))
           | _ \<Rightarrow> unsupported ''unary `-` expects a number''))"

definition eval_binary_expr :: "bool \<Rightarrow> ax_binary_op \<Rightarrow> ax_value \<Rightarrow> ax_value \<Rightarrow> eval_result" where
  "eval_binary_expr checks op left right =
     (case op of
        OpAdd \<Rightarrow> add_values left right
      | OpSub \<Rightarrow> eval_numeric_binary left right
          (plain_int_op checks checked_sub (-) ''attempt to subtract with overflow'') f64_sub ''`-`'' False
      | OpMul \<Rightarrow> eval_numeric_binary left right
          (plain_int_op checks checked_mul (*) ''attempt to multiply with overflow'') f64_mul ''`*`'' False
      | OpDiv \<Rightarrow> eval_numeric_binary left right
          (\<lambda>a b. ok_or (Panicked ''attempt to divide with overflow'') (checked_div a b)) f64_div ''`/`'' True
      | OpRem \<Rightarrow> eval_numeric_binary left right
          (\<lambda>a b. ok_or (Panicked ''attempt to calculate the remainder with overflow'') (checked_rem a b))
          f64_rem ''`%`'' True
      | OpEq \<Rightarrow> Inr (AvBool (ax_value_eq left right))
      | OpNe \<Rightarrow> Inr (AvBool (\<not> ax_value_eq left right))
      | OpGt \<Rightarrow> eval_compare_binary left right (\<lambda>c. c = Greater) ''`>`''
      | OpGe \<Rightarrow> eval_compare_binary left right (\<lambda>c. c \<noteq> Less) ''`>=`''
      | OpLt \<Rightarrow> eval_compare_binary left right (\<lambda>c. c = Less) ''`<`''
      | OpLe \<Rightarrow> eval_compare_binary left right (\<lambda>c. c \<noteq> Greater) ''`<=`''
      | OpIn \<Rightarrow>
          (case right of
             AvList items \<Rightarrow> Inr (AvBool (list_ex (\<lambda>item. ax_value_eq item left) items))
           | _ \<Rightarrow> unsupported ''`in` expects a list on the right side'')
      | _ \<Rightarrow> Inl (Panicked ''short-circuit operators are evaluated before this point''))"

subsection \<open>Functions and the evaluator\<close>

definition find_function :: "ax_function list \<Rightarrow> string \<Rightarrow> ax_function option" where
  "find_function functions name = List.find (\<lambda>f. function_name f = name) (rev functions)"

definition resolve_function :: "ax_function list \<Rightarrow> string list \<Rightarrow> ax_function option" where
  "resolve_function functions path = (case path of [name] \<Rightarrow> find_function functions name | _ \<Rightarrow> None)"

text \<open>
  The parameters of a call, one after another: the argument, else the default evaluated
  in the scope built so far, else null.
\<close>

fun bind_call_params :: "((string, ax_value) bmap \<Rightarrow> ax_expr \<Rightarrow> eval_result) \<Rightarrow> ax_param list
    \<Rightarrow> ax_value list \<Rightarrow> (string, ax_value) bmap \<Rightarrow> eval_failure + (string, ax_value) bmap" where
  "bind_call_params ev [] args scope = Inr scope"
| "bind_call_params ev (param # params) args scope =
     and_then
       (case args of
          v # _ \<Rightarrow> Inr v
        | [] \<Rightarrow> (case param_default param of
             Some d \<Rightarrow> ev scope d
           | None \<Rightarrow> Inr AvNull))
       (\<lambda>v. bind_call_params ev params (tl args) (bm_insert (param_name param) v scope))"

definition eval_function_call :: "((string, ax_value) bmap \<Rightarrow> ax_expr \<Rightarrow> eval_result) \<Rightarrow> ax_function
    \<Rightarrow> ax_value list \<Rightarrow> (string, ax_value) bmap \<Rightarrow> eval_result" where
  "eval_function_call ev f args scope =
     and_then (bind_call_params ev (function_params f) args scope) (\<lambda>s. ev s (function_body f))"

lemma size_field_less [termination_simp]:
  "(k, v) \<in> set fs \<Longrightarrow> size v < Suc (size_list (size_prod (\<lambda>_. 0) size) fs)"
  by (induction fs) auto

function eval_expr :: "bool \<Rightarrow> ax_function list \<Rightarrow> (string list \<Rightarrow> ax_value list \<Rightarrow> ax_value option)
    \<Rightarrow> nat \<Rightarrow> (string, ax_value) bmap \<Rightarrow> ax_expr \<Rightarrow> eval_result" where
  "eval_expr ck fns res n scope (ExString s) = Inr (AvString s)"
| "eval_expr ck fns res n scope (ExNumber i) = Inr (AvNumber i)"
| "eval_expr ck fns res n scope (ExFloat f) = Inr (AvFloat f)"
| "eval_expr ck fns res n scope (ExBool b) = Inr (AvBool b)"
| "eval_expr ck fns res n scope (ExList items) =
     and_then (try_map (\<lambda>e. eval_expr ck fns res n scope e) items) (\<lambda>vs. Inr (AvList vs))"
| "eval_expr ck fns res n scope (ExObject flds) =
     and_then (try_map (\<lambda>(name, e). and_then (eval_expr ck fns res n scope e) (\<lambda>v. Inr (name, v))) flds)
       (\<lambda>kvs. Inr (AvRecord (bm_of_list kvs)))"
| "eval_expr ck fns res n scope (ExIdentifier name) =
     (if name = ''null'' then Inr AvNull
      else ok_or (Raised (UnknownIdentifier name)) (bm_get scope name))"
| "eval_expr ck fns res n scope (ExUnary op e) =
     and_then (eval_expr ck fns res n scope e) (eval_unary_expr ck op)"
| "eval_expr ck fns res n scope (ExBinary op l r) =
     and_then (eval_expr ck fns res n scope l) (\<lambda>a.
       if op = OpAnd then
         (if \<not> is_truthy a then Inr (AvBool False)
          else and_then (eval_expr ck fns res n scope r) (\<lambda>b. Inr (AvBool (is_truthy b))))
       else if op = OpOr then
         (if is_truthy a then Inr (AvBool True)
          else and_then (eval_expr ck fns res n scope r) (\<lambda>b. Inr (AvBool (is_truthy b))))
       else if op = OpFallback then
         (if a \<noteq> AvNull then Inr a else eval_expr ck fns res n scope r)
       else and_then (eval_expr ck fns res n scope r) (\<lambda>b. eval_binary_expr ck op a b))"
| "eval_expr ck fns res n scope (ExIndex obj index) =
     and_then (eval_expr ck fns res n scope obj) (\<lambda>a.
       and_then (eval_expr ck fns res n scope index) (\<lambda>b. eval_index_expr a b))"
| "eval_expr ck fns res n scope (ExMember obj property) =
     and_then (eval_expr ck fns res n scope obj) (\<lambda>v.
       case v of AvRecord flds \<Rightarrow> Inr (record_get flds property)
       | _ \<Rightarrow> Inl (Raised (UnknownMember property)))"
| "eval_expr ck fns res n scope (ExOptionalMember obj property) =
     (case eval_expr ck fns res n scope obj of
        Inl (Raised (UnknownIdentifier _)) \<Rightarrow> Inr AvNull
      | Inl (Raised (UnknownMember _)) \<Rightarrow> Inr AvNull
      | Inl failure \<Rightarrow> Inl failure
      | Inr (AvRecord flds) \<Rightarrow> Inr (record_get flds property)
      | Inr _ \<Rightarrow> Inr AvNull)"
| "eval_expr ck fns res n scope (ExCall path args) =
     and_then (try_map (\<lambda>e. eval_expr ck fns res n scope e) args) (\<lambda>vs.
       case resolve_function fns path of
         Some f \<Rightarrow>
           (case n of
              0 \<Rightarrow> Inl Diverges
            | Suc m \<Rightarrow> eval_function_call (\<lambda>s e. eval_expr ck fns res m s e) f vs scope)
       | None \<Rightarrow> ok_or (Raised (UnsupportedCall (join_with ''.'' path))) (res path vs))"
  by pat_completeness auto
termination
  by (relation "inv_image (less_than <*lex*> less_than) (\<lambda>(ck, fns, res, n, scope, e). (n, size e))")
    (auto simp: less_Suc_eq_le size_list_estimation' intro: size_list_estimation' dest: size_field_less)

end
