(* ===== verification/Ax_Types.thy ===== *)
theory Ax_Types
  imports Ax_Expr
begin

section \<open>Types of the page language\<close>

text \<open>
  \<open>axonyx-core/src/ax_types.rs\<close>: the types, their display and their parser, the literals of
  the scalar types, the context of a page (bindings, records, literal unions), the initial values a
  state accepts, the type of an expression and the contract check of JSON values. The numbers of
  \<open>serde_json\<close> are texts here (the crate's feature \<open>arbitrary_precision\<close>) read by functions
  given as a record; its \<open>Value\<close> is the datatype \<open>json_value\<close>.
\<close>

datatype ax_type =
    TyString | TyNumber | TyInt | TyFloat | TyDecimal | TyBool | TyDateTime | TyDate | TyTime | TyUuid
  | TyBytes | TyFile | TyFileRef | TyJson | TyNever | TyVoid
  | TyList ax_type
  | TyMap ax_type ax_type
  | TySet ax_type
  | TyOptional ax_type
  | TyResult ax_type ax_type
  | TySecret ax_type
  | TyPublic ax_type
  | TySignal ax_type
  | TyResource ax_type ax_type
  | TyRecord string
  | TyUnknown

fun ty_optional :: "ax_type \<Rightarrow> ax_type" where
  "ty_optional (TyOptional t) = TyOptional t"
| "ty_optional t = TyOptional t"

definition wrapped :: "string \<Rightarrow> string list \<Rightarrow> string" where
  "wrapped name args = name @ ''<'' @ join_with '', '' args @ ''>''"

fun display_name :: "ax_type \<Rightarrow> string" where
  "display_name TyString = ''String''"
| "display_name TyNumber = ''Number''"
| "display_name TyInt = ''Int''"
| "display_name TyFloat = ''Float''"
| "display_name TyDecimal = ''Decimal''"
| "display_name TyBool = ''Bool''"
| "display_name TyDateTime = ''DateTime''"
| "display_name TyDate = ''Date''"
| "display_name TyTime = ''Time''"
| "display_name TyUuid = ''Uuid''"
| "display_name TyBytes = ''Bytes''"
| "display_name TyFile = ''File''"
| "display_name TyFileRef = ''FileRef''"
| "display_name TyJson = ''Json''"
| "display_name TyNever = ''Never''"
| "display_name TyVoid = ''Void''"
| "display_name (TyList t) = wrapped ''List'' [display_name t]"
| "display_name (TyMap k v) = wrapped ''Map'' [display_name k, display_name v]"
| "display_name (TySet t) = wrapped ''Set'' [display_name t]"
| "display_name (TyOptional t) = wrapped ''Optional'' [display_name t]"
| "display_name (TyResult t e) = wrapped ''Result'' [display_name t, display_name e]"
| "display_name (TySecret t) = wrapped ''Secret'' [display_name t]"
| "display_name (TyPublic t) = wrapped ''Public'' [display_name t]"
| "display_name (TySignal t) = wrapped ''Signal'' [display_name t]"
| "display_name (TyResource t e) = wrapped ''Resource'' [display_name t, display_name e]"
| "display_name (TyRecord name) = name"
| "display_name TyUnknown = ''Unknown''"

fun list_item :: "ax_type \<Rightarrow> ax_type option" where
  "list_item (TyList t) = Some t"
| "list_item (TySet t) = Some t"
| "list_item _ = None"

fun supports_client_state :: "ax_type \<Rightarrow> bool" where
  "supports_client_state TyDecimal = False"
| "supports_client_state TyFile = False"
| "supports_client_state TyNever = False"
| "supports_client_state TyVoid = False"
| "supports_client_state (TySecret t) = False"
| "supports_client_state (TySignal t) = False"
| "supports_client_state (TyResource t e) = False"
| "supports_client_state (TyList t) = supports_client_state t"
| "supports_client_state (TySet t) = supports_client_state t"
| "supports_client_state (TyOptional t) = supports_client_state t"
| "supports_client_state (TyPublic t) = supports_client_state t"
| "supports_client_state (TyMap k v) = (supports_client_state k \<and> supports_client_state v)"
| "supports_client_state (TyResult t e) = (supports_client_state t \<and> supports_client_state e)"
| "supports_client_state _ = True"

subsection \<open>Literals of the scalar types\<close>

definition parse_fixed_u32 :: "string \<Rightarrow> nat option" where
  "parse_fixed_u32 s = (if s \<noteq> [] \<and> list_all is_digit s then parse_unsigned 32 s else None)"

definition is_valid_date :: "string \<Rightarrow> bool" where
  "is_valid_date s =
     (is_ascii s \<and> length s = 10 \<and> s ! 4 = CHR ''-'' \<and> s ! 7 = CHR ''-''
      \<and> (case (parse_fixed_u32 (take 4 s), parse_fixed_u32 (take 2 (drop 5 s)), parse_fixed_u32 (take 2 (drop 8 s))) of
           (Some year, Some month, Some day) \<Rightarrow>
             year \<noteq> 0 \<and> 1 \<le> month \<and> month \<le> 12
             \<and> (let leap = year mod 4 = 0 \<and> (year mod 100 \<noteq> 0 \<or> year mod 400 = 0);
                    max_day = (if month = 2 then (if leap then 29 else 28)
                               else if month \<in> {4, 6, 9, 11} then 30 else 31)
                in 1 \<le> day \<and> day \<le> max_day)
         | _ \<Rightarrow> False))"

definition is_valid_decimal :: "string \<Rightarrow> bool" where
  "is_valid_decimal v =
     (let v = (case strip_prefix ''-'' v of Some r \<Rightarrow> r | None \<Rightarrow> v) in
      v \<noteq> []
      \<and> (case split_on (CHR ''.'') v of
           [integer] \<Rightarrow> integer \<noteq> [] \<and> list_all is_digit integer
         | [integer, fraction] \<Rightarrow>
             integer \<noteq> [] \<and> list_all is_digit integer \<and> fraction \<noteq> [] \<and> list_all is_digit fraction
         | _ \<Rightarrow> False))"

definition is_valid_time :: "string \<Rightarrow> bool" where
  "is_valid_time v =
     (is_ascii v
      \<and> (let (clock, fraction) = (case split_once (CHR ''.'') v of Some (c, f) \<Rightarrow> (c, Some f) | None \<Rightarrow> (v, None)) in
         length clock = 8 \<and> clock ! 2 = CHR '':'' \<and> clock ! 5 = CHR '':''
         \<and> (case (parse_fixed_u32 (take 2 clock), parse_fixed_u32 (take 2 (drop 3 clock)), parse_fixed_u32 (take 2 (drop 6 clock))) of
              (Some hour, Some minute, Some second) \<Rightarrow>
                hour \<le> 23 \<and> minute \<le> 59 \<and> second \<le> 59
                \<and> (case fraction of None \<Rightarrow> True
                   | Some f \<Rightarrow> 1 \<le> length f \<and> length f \<le> 9 \<and> list_all is_digit f)
            | _ \<Rightarrow> False)))"

definition split_at_last :: "(char \<Rightarrow> bool) \<Rightarrow> string \<Rightarrow> (string \<times> string) option" where
  "split_at_last P s =
     (let after = rev (takeWhile (\<lambda>c. \<not> P c) (rev s)); before = rev (dropWhile (\<lambda>c. \<not> P c) (rev s)) in
      if before = [] then None else Some (butlast before, last before # after))"

definition is_valid_zone :: "string \<Rightarrow> bool" where
  "is_valid_zone zone =
     (zone = ''Z''
      \<or> length zone = 6 \<and> zone ! 0 \<in> {CHR ''+'', CHR ''-''} \<and> zone ! 3 = CHR '':''
        \<and> (case parse_fixed_u32 (take 2 (drop 1 zone)) of Some hour \<Rightarrow> hour \<le> 23 | None \<Rightarrow> False)
        \<and> (case parse_fixed_u32 (take 2 (drop 4 zone)) of Some minute \<Rightarrow> minute \<le> 59 | None \<Rightarrow> False))"

definition is_valid_datetime :: "string \<Rightarrow> bool" where
  "is_valid_datetime v =
     (is_ascii v
      \<and> (case split_once (CHR ''T'') v of
           None \<Rightarrow> False
         | Some (date, time_and_zone) \<Rightarrow>
             is_valid_date date
             \<and> (case (case strip_suffix ''Z'' time_and_zone of
                        Some time \<Rightarrow> Some (time, ''Z'')
                      | None \<Rightarrow> split_at_last (\<lambda>c. c \<in> {CHR ''+'', CHR ''-''}) time_and_zone) of
                  None \<Rightarrow> False
                | Some (time, zone) \<Rightarrow> is_valid_time time \<and> is_valid_zone zone)))"

definition is_hexdigit :: "char \<Rightarrow> bool" where
  "is_hexdigit c = (hex_value c \<noteq> None)"

definition is_valid_uuid :: "string \<Rightarrow> bool" where
  "is_valid_uuid v =
     (is_ascii v \<and> length v = 36 \<and> list_all (\<lambda>i. v ! i = CHR ''-'') [8, 13, 18, 23]
      \<and> list_all (\<lambda>(i, c). i \<in> {8, 13, 18, 23} \<or> is_hexdigit c) (enumerate 0 v))"

fun accepts_string_literal :: "ax_type \<Rightarrow> string \<Rightarrow> bool" where
  "accepts_string_literal TyString v = True"
| "accepts_string_literal TyDate v = is_valid_date v"
| "accepts_string_literal TyTime v = is_valid_time v"
| "accepts_string_literal TyDateTime v = is_valid_datetime v"
| "accepts_string_literal TyUuid v = is_valid_uuid v"
| "accepts_string_literal TyDecimal v = is_valid_decimal v"
| "accepts_string_literal (TyPublic t) v = accepts_string_literal t v"
| "accepts_string_literal _ v = False"

fun accepts_map_key :: "ax_type \<Rightarrow> string \<Rightarrow> bool" where
  "accepts_map_key TyString v = True"
| "accepts_map_key TyDateTime v = is_valid_datetime v"
| "accepts_map_key TyDate v = is_valid_date v"
| "accepts_map_key TyTime v = is_valid_time v"
| "accepts_map_key TyUuid v = is_valid_uuid v"
| "accepts_map_key TyInt v = (parse_signed 64 v \<noteq> None)"
| "accepts_map_key TyDecimal v = is_valid_decimal v"
| "accepts_map_key TyBool v = (v = ''true'' \<or> v = ''false'')"
| "accepts_map_key (TyPublic t) v = accepts_map_key t v"
| "accepts_map_key _ v = False"

subsection \<open>Parsing a type\<close>

datatype type_parse_error =
    TpEmpty
  | TpInvalid string
  | TpDuplicateRecord string
  | TpDuplicateField string string

fun balanced_from :: "nat \<Rightarrow> string \<Rightarrow> bool" where
  "balanced_from depth [] = (depth = 0)"
| "balanced_from depth (c # s) =
     (if c = CHR ''<'' then balanced_from (Suc depth) s
      else if c = CHR ''>'' then (case depth of 0 \<Rightarrow> False | Suc d \<Rightarrow> balanced_from d s)
      else balanced_from depth s)"

definition has_balanced_angle_brackets :: "string \<Rightarrow> bool" where
  "has_balanced_angle_brackets s = balanced_from 0 s"

definition trim_start :: "string \<Rightarrow> string" where
  "trim_start s = concat (map snd (dropWhile space_chunk (utf8_split s)))"

definition parse_wrapped_type :: "string \<Rightarrow> string \<Rightarrow> type_parse_error + string option" where
  "parse_wrapped_type input wrapper =
     (case strip_prefix wrapper input of
        None \<Rightarrow> Inr None
      | Some rest \<Rightarrow>
          (let rest = trim_start rest in
           if \<not> starts_with ''<'' rest then Inr None
           else if \<not> ends_with ''>'' rest then Inl (TpInvalid input)
           else (let inner = butlast (tl rest) in
             if \<not> has_balanced_angle_brackets inner then Inl (TpInvalid input)
             else Inr (Some (trim inner)))))"

text \<open>The index of the only top-level comma, as the two parts around it.\<close>

fun split_pair_from :: "string \<Rightarrow> nat \<Rightarrow> string \<Rightarrow> (string \<times> string) option \<Rightarrow> string
    \<Rightarrow> type_parse_error + (string \<times> string) option" where
  "split_pair_from source depth seen found [] = Inr found"
| "split_pair_from source depth seen found (c # s) =
     (if c = CHR ''<'' then split_pair_from source (Suc depth) (seen @ [c]) found s
      else if c = CHR ''>'' then
        (case depth of
           0 \<Rightarrow> Inl (TpInvalid source)
         | Suc d \<Rightarrow> split_pair_from source d (seen @ [c]) found s)
      else if c = CHR '','' \<and> depth = 0 then
        (if found \<noteq> None then Inl (TpInvalid source)
         else split_pair_from source depth (seen @ [c]) (Some (seen, s)) s)
      else split_pair_from source depth (seen @ [c]) found s)"

definition split_type_pair :: "string \<Rightarrow> string \<Rightarrow> type_parse_error + string \<times> string" where
  "split_type_pair inner source =
     (case split_pair_from source 0 [] None inner of
        Inl e \<Rightarrow> Inl e
      | Inr None \<Rightarrow> Inl (TpInvalid source)
      | Inr (Some (a, b)) \<Rightarrow>
          (let left = trim a; right = trim b in
           if left = [] \<or> right = [] then Inl (TpInvalid source) else Inr (left, right)))"

definition is_type_identifier :: "string \<Rightarrow> bool" where
  "is_type_identifier s =
     (case s of
        [] \<Rightarrow> False
      | c # cs \<Rightarrow> (is_alphanumeric c \<and> \<not> is_digit c \<or> c = CHR ''_'')
          \<and> list_all (\<lambda>d. is_alphanumeric d \<or> d = CHR ''_'') cs)"

definition builtin_types :: "(string \<times> ax_type) list" where
  "builtin_types =
     [(''String'', TyString), (''Number'', TyNumber), (''Int'', TyInt), (''Float'', TyFloat), (''Decimal'', TyDecimal),
      (''Bool'', TyBool), (''DateTime'', TyDateTime), (''Date'', TyDate), (''Time'', TyTime), (''Uuid'', TyUuid),
      (''Bytes'', TyBytes), (''File'', TyFile), (''FileRef'', TyFileRef), (''Json'', TyJson), (''Never'', TyNever),
      (''Void'', TyVoid), (''Unknown'', TyUnknown)]"

definition parse_type_name :: "string \<Rightarrow> type_parse_error + ax_type" where
  "parse_type_name s =
     (case map_of builtin_types s of
        Some t \<Rightarrow> Inr t
      | None \<Rightarrow> if is_type_identifier s then Inr (TyRecord s) else Inl (TpInvalid s))"

text \<open>The wrappers, in the order the parser tries them; two of them smart constructors.\<close>

definition unary_wrappers :: "(string \<times> (ax_type \<Rightarrow> ax_type)) list" where
  "unary_wrappers = [(''List'', TyList), (''Optional'', ty_optional), (''Set'', TySet), (''Secret'', TySecret),
     (''Public'', TyPublic), (''Signal'', TySignal)]"

definition binary_wrappers :: "(string \<times> (ax_type \<Rightarrow> ax_type \<Rightarrow> ax_type)) list" where
  "binary_wrappers = [(''Map'', TyMap), (''Result'', TyResult), (''Resource'', TyResource)]"

text \<open>The first wrapper around the text: none, an error, or the constructor and its parts.\<close>

datatype wrapper_match =
    NoWrapper
  | UnaryWrapper "ax_type \<Rightarrow> ax_type" string
  | BinaryWrapper "ax_type \<Rightarrow> ax_type \<Rightarrow> ax_type" string string

fun match_unary :: "string \<Rightarrow> (string \<times> (ax_type \<Rightarrow> ax_type)) list \<Rightarrow> type_parse_error + wrapper_match" where
  "match_unary input [] = Inr NoWrapper"
| "match_unary input ((name, f) # ws) =
     (case parse_wrapped_type input name of
        Inl e \<Rightarrow> Inl e
      | Inr (Some inner) \<Rightarrow> Inr (UnaryWrapper f inner)
      | Inr None \<Rightarrow> match_unary input ws)"

fun match_binary :: "string \<Rightarrow> (string \<times> (ax_type \<Rightarrow> ax_type \<Rightarrow> ax_type)) list \<Rightarrow> type_parse_error + wrapper_match" where
  "match_binary input [] = Inr NoWrapper"
| "match_binary input ((name, f) # ws) =
     (case parse_wrapped_type input name of
        Inl e \<Rightarrow> Inl e
      | Inr (Some inner) \<Rightarrow>
          (case split_type_pair inner input of Inl e \<Rightarrow> Inl e | Inr (a, b) \<Rightarrow> Inr (BinaryWrapper f a b))
      | Inr None \<Rightarrow> match_binary input ws)"

definition match_wrapper :: "string \<Rightarrow> type_parse_error + wrapper_match" where
  "match_wrapper input =
     (case match_unary input unary_wrappers of
        Inr NoWrapper \<Rightarrow> match_binary input binary_wrappers
      | r \<Rightarrow> r)"

lemma length_butlast_tl: "starts_with ''<'' r \<Longrightarrow> length (butlast (tl r)) < length r"
  by (cases r) (auto simp: starts_with_iff)

lemma length_trim_start: "length (trim_start s) \<le> length s"
proof -
  have "length (concat (map snd (dropWhile P us))) \<le> length (concat (map snd us))" for P :: "nat option \<times> string \<Rightarrow> bool" and us
    by (induction us) auto
  from this [of space_chunk "utf8_split s"] show ?thesis by (simp add: trim_start_def utf8_split_concat)
qed

lemma parse_wrapped_length:
  assumes "parse_wrapped_type input w = Inr (Some inner)" shows "length inner < length input"
proof -
  obtain rest where r: "strip_prefix w input = Some rest" "starts_with ''<'' (trim_start rest)"
      "inner = trim (butlast (tl (trim_start rest)))"
    using assms by (auto simp: parse_wrapped_type_def Let_def split: option.splits if_splits)
  have "length inner \<le> length (butlast (tl (trim_start rest)))" by (simp only: r(3) length_trim)
  also have "\<dots> < length (trim_start rest)" by (rule length_butlast_tl [OF r(2)])
  also have "\<dots> \<le> length rest" by (rule length_trim_start)
  also have "\<dots> \<le> length input" using r(1) by (simp add: strip_prefix_Some)
  finally show ?thesis .
qed

lemma split_pair_length:
  "split_pair_from source depth seen found s = Inr (Some (a, b)) \<Longrightarrow>
    (found = Some (a, b) \<or> length a \<le> length seen + length s \<and> length b \<le> length s)"
proof (induction s arbitrary: depth seen found)
  case Nil
  then show ?case by simp
next
  case (Cons c s)
  then show ?case by (fastforce split: if_splits nat.splits)
qed

lemma split_type_pair_length:
  assumes "split_type_pair inner source = Inr (a, b)"
  shows "length a \<le> length inner" "length b \<le> length inner"
proof -
  obtain x y where s: "split_pair_from source 0 [] None inner = Inr (Some (x, y))" "a = trim x" "b = trim y"
    using assms by (auto simp: split_type_pair_def Let_def split: option.splits sum.splits prod.splits if_splits)
  from split_pair_length [OF s(1)] have "length x \<le> length inner" "length y \<le> length inner" by auto
  then show "length a \<le> length inner" "length b \<le> length inner" using s length_trim le_trans by blast+
qed

lemma split_type_pair_less:
  "split_type_pair inner source = Inr (a, b) \<Longrightarrow> length inner < n \<Longrightarrow> length a < n \<and> length b < n"
  by (meson le_less_trans split_type_pair_length)

lemma match_unary_length:
  "match_unary input ws = Inr (UnaryWrapper f inner) \<Longrightarrow> length inner < length input"
  by (induction ws) (auto split: sum.splits option.splits dest: parse_wrapped_length)

lemma match_unary_shape: "match_unary input ws = Inr m \<Longrightarrow> m = NoWrapper \<or> (\<exists>f inner. m = UnaryWrapper f inner)"
  by (induction ws) (auto split: sum.splits option.splits)

lemma match_binary_length:
  "match_binary input ws = Inr (BinaryWrapper f a b) \<Longrightarrow> length a < length input \<and> length b < length input"
  by (induction ws) (auto split: sum.splits option.splits prod.splits dest!: split_type_pair_less [OF _ parse_wrapped_length])

lemma match_binary_shape: "match_binary input ws = Inr m \<Longrightarrow> m = NoWrapper \<or> (\<exists>f a b. m = BinaryWrapper f a b)"
  by (induction ws) (auto split: sum.splits option.splits prod.splits)

lemma match_wrapper_unary: "match_wrapper input = Inr (UnaryWrapper f inner) \<Longrightarrow> length inner < length input"
  by (auto simp: match_wrapper_def split: sum.splits wrapper_match.splits dest: match_unary_length match_binary_shape)

lemma match_wrapper_binary:
  "match_wrapper input = Inr (BinaryWrapper f a b) \<Longrightarrow> length a < length input \<and> length b < length input"
  by (auto simp: match_wrapper_def split: sum.splits wrapper_match.splits dest: match_binary_length match_unary_shape)

lemma strip_suffix_length: "strip_suffix (c # p) s = Some r \<Longrightarrow> length r < length s"
  by (simp add: strip_suffix_Some)

text \<open>The texts the parser passes on are never longer than the trimmed input.\<close>

lemma trim_shorter: "length x < length (trim s) \<Longrightarrow> length x < length s"
  using length_trim [of s] by simp

function parse_type_annotation :: "string \<Rightarrow> type_parse_error + ax_type" where
  "parse_type_annotation text0 =
     (let input = trim text0 in
      if input = [] then Inl TpEmpty
      else case strip_suffix ''?'' input of
        Some inner \<Rightarrow>
          if trim inner = [] then Inl (TpInvalid input)
          else (case parse_type_annotation inner of Inl e \<Rightarrow> Inl e | Inr t \<Rightarrow> Inr (ty_optional t))
      | None \<Rightarrow>
     (case strip_suffix ''[]'' input of
        Some item \<Rightarrow> (case parse_type_annotation item of Inl e \<Rightarrow> Inl e | Inr t \<Rightarrow> Inr (TyList t))
      | None \<Rightarrow>
     (case match_wrapper input of
        Inl e \<Rightarrow> Inl e
      | Inr (UnaryWrapper f inner) \<Rightarrow> (case parse_type_annotation inner of Inl e \<Rightarrow> Inl e | Inr t \<Rightarrow> Inr (f t))
      | Inr (BinaryWrapper f a b) \<Rightarrow>
          (case parse_type_annotation a of
             Inl e \<Rightarrow> Inl e
           | Inr t \<Rightarrow> (case parse_type_annotation b of Inl e \<Rightarrow> Inl e | Inr u \<Rightarrow> Inr (f t u)))
      | Inr NoWrapper \<Rightarrow> parse_type_name input)))"
  by pat_completeness auto
termination
  by (relation "measure length")
    (auto intro: trim_shorter dest: strip_suffix_length match_wrapper_unary match_wrapper_binary)

declare parse_type_annotation.simps [simp del]

subsection \<open>The context of a page\<close>

record record_type =
  record_name :: string
  record_fields :: "(string, ax_type) bmap"

record data_context =
  ctx_bindings :: "(string, ax_type) bmap"
  ctx_records :: "(string, record_type) bmap"
  ctx_unions :: "(string, string list) bmap"

definition empty_context :: data_context where
  "empty_context = \<lparr> ctx_bindings = [], ctx_records = [], ctx_unions = [] \<rparr>"

definition record_field :: "string \<Rightarrow> ax_type \<Rightarrow> record_type \<Rightarrow> record_type" where
  "record_field name ty r = r\<lparr> record_fields := bm_insert name ty (record_fields r) \<rparr>"

definition ctx_bind :: "string \<Rightarrow> ax_type \<Rightarrow> data_context \<Rightarrow> data_context" where
  "ctx_bind name ty c = c\<lparr> ctx_bindings := bm_insert name ty (ctx_bindings c) \<rparr>"

definition ctx_with_record :: "record_type \<Rightarrow> data_context \<Rightarrow> data_context" where
  "ctx_with_record r c = c\<lparr> ctx_records := bm_insert (record_name r) r (ctx_records c) \<rparr>"

definition ctx_with_union :: "string \<Rightarrow> string list \<Rightarrow> data_context \<Rightarrow> data_context" where
  "ctx_with_union name literals c = c\<lparr> ctx_unions := bm_insert name literals (ctx_unions c) \<rparr>"

text \<open>The declarations of a source file that give a context (\<open>AxTypeDeclV2\<close>, \<open>AxLetDeclV2\<close>).\<close>

record type_decl =
  decl_name :: string
  decl_fields :: "(string \<times> string) list"
  decl_literals :: "string list"

definition is_literal_union :: "type_decl \<Rightarrow> bool" where
  "is_literal_union d = (decl_literals d \<noteq> [])"

fun declare_fields :: "(string \<times> string) list \<Rightarrow> record_type \<Rightarrow> type_parse_error + record_type" where
  "declare_fields [] r = Inr r"
| "declare_fields ((name, ty) # fs) r =
     (if bm_get (record_fields r) name \<noteq> None then Inl (TpDuplicateField (record_name r) name)
      else and_then (parse_type_annotation ty) (\<lambda>t. declare_fields fs (record_field name t r)))"

fun declare_types :: "type_decl list \<Rightarrow> data_context \<Rightarrow> type_parse_error + data_context" where
  "declare_types [] c = Inr c"
| "declare_types (d # ds) c =
     (if bm_get (ctx_records c) (decl_name d) \<noteq> None \<or> bm_get (ctx_unions c) (decl_name d) \<noteq> None
      then Inl (TpDuplicateRecord (decl_name d))
      else if is_literal_union d then declare_types ds (ctx_with_union (decl_name d) (decl_literals d) c)
      else and_then (declare_fields (decl_fields d) \<lparr> record_name = decl_name d, record_fields = [] \<rparr>)
             (\<lambda>r. declare_types ds (ctx_with_record r c)))"

fun bind_annotations :: "(string \<times> string option) list \<Rightarrow> data_context \<Rightarrow> type_parse_error + data_context" where
  "bind_annotations [] c = Inr c"
| "bind_annotations ((name, ty) # bs) c =
     (case ty of
        None \<Rightarrow> bind_annotations bs c
      | Some t \<Rightarrow> and_then (parse_type_annotation t) (\<lambda>t. bind_annotations bs (ctx_bind name t c)))"

definition from_v2_let_types :: "type_decl list \<Rightarrow> (string \<times> string option) list \<Rightarrow> (string \<times> string option) list
    \<Rightarrow> type_parse_error + data_context" where
  "from_v2_let_types types lets states =
     and_then (declare_types types empty_context) (\<lambda>c. and_then (bind_annotations lets c) (bind_annotations states))"

subsection \<open>Initial values\<close>

definition is_null_expr :: "ax_expr \<Rightarrow> bool" where
  "is_null_expr e = (e = ExIdentifier ''null'')"

text \<open>\<open>fields.len() == 1\<close> with an acceptable \<open>Ok\<close> or \<open>Err\<close>.\<close>

definition accepts_result :: "(ax_expr \<Rightarrow> bool) \<Rightarrow> (ax_expr \<Rightarrow> bool) \<Rightarrow> (string \<times> ax_expr) list \<Rightarrow> bool" where
  "accepts_result ok err flds =
     (length flds = 1
      \<and> ((case bm_get flds ''Ok'' of Some v \<Rightarrow> ok v | None \<Rightarrow> False)
        \<or> (case bm_get flds ''Err'' of Some v \<Rightarrow> err v | None \<Rightarrow> False)))"

fun accepts_initializer :: "ax_type \<Rightarrow> ax_expr \<Rightarrow> bool" where
  "accepts_initializer TyString e = (case e of ExString _ \<Rightarrow> True | _ \<Rightarrow> False)"
| "accepts_initializer TyDateTime e = (case e of ExString s \<Rightarrow> is_valid_datetime s | _ \<Rightarrow> False)"
| "accepts_initializer TyDate e = (case e of ExString s \<Rightarrow> is_valid_date s | _ \<Rightarrow> False)"
| "accepts_initializer TyTime e = (case e of ExString s \<Rightarrow> is_valid_time s | _ \<Rightarrow> False)"
| "accepts_initializer TyUuid e = (case e of ExString s \<Rightarrow> is_valid_uuid s | _ \<Rightarrow> False)"
| "accepts_initializer TyNumber e = (case e of ExNumber _ \<Rightarrow> True | ExFloat _ \<Rightarrow> True | _ \<Rightarrow> False)"
| "accepts_initializer TyInt e = (case e of ExNumber _ \<Rightarrow> True | _ \<Rightarrow> False)"
| "accepts_initializer TyFloat e = (case e of ExNumber _ \<Rightarrow> True | ExFloat _ \<Rightarrow> True | _ \<Rightarrow> False)"
| "accepts_initializer TyDecimal e =
     (case e of ExString s \<Rightarrow> is_valid_decimal s | ExNumber _ \<Rightarrow> True | ExFloat _ \<Rightarrow> True | _ \<Rightarrow> False)"
| "accepts_initializer TyBool e = (case e of ExBool _ \<Rightarrow> True | _ \<Rightarrow> False)"
| "accepts_initializer TyBytes e =
     (case e of ExList items \<Rightarrow>
        list_all (\<lambda>i. case i of ExNumber n \<Rightarrow> 0 \<le> sint n \<and> sint n \<le> 255 | _ \<Rightarrow> False) items
      | _ \<Rightarrow> False)"
| "accepts_initializer TyFile e = False"
| "accepts_initializer TyFileRef e = False"
| "accepts_initializer TyJson e =
     (case e of ExUnary _ _ \<Rightarrow> False | ExBinary _ _ _ \<Rightarrow> False | ExIndex _ _ \<Rightarrow> False | ExMember _ _ \<Rightarrow> False
      | ExOptionalMember _ _ \<Rightarrow> False | ExCall _ _ \<Rightarrow> False | _ \<Rightarrow> True)"
| "accepts_initializer TyUnknown e =
     (case e of ExUnary _ _ \<Rightarrow> False | ExBinary _ _ _ \<Rightarrow> False | ExIndex _ _ \<Rightarrow> False | ExMember _ _ \<Rightarrow> False
      | ExOptionalMember _ _ \<Rightarrow> False | ExCall _ _ \<Rightarrow> False | _ \<Rightarrow> True)"
| "accepts_initializer (TyList t) e = (case e of ExList items \<Rightarrow> list_all (accepts_initializer t) items | _ \<Rightarrow> False)"
| "accepts_initializer (TySet t) e = (case e of ExList items \<Rightarrow> list_all (accepts_initializer t) items | _ \<Rightarrow> False)"
| "accepts_initializer (TyOptional t) e = (is_null_expr e \<or> accepts_initializer t e)"
| "accepts_initializer (TyMap k t) e =
     (case e of ExObject flds \<Rightarrow> list_all (\<lambda>(name, v). accepts_map_key k name \<and> accepts_initializer t v) flds | _ \<Rightarrow> False)"
| "accepts_initializer (TyResult t u) e =
     (case e of ExObject flds \<Rightarrow> accepts_result (accepts_initializer t) (accepts_initializer u) flds | _ \<Rightarrow> False)"
| "accepts_initializer (TyRecord name) e = (case e of ExObject _ \<Rightarrow> True | _ \<Rightarrow> False)"
| "accepts_initializer (TyPublic t) e = accepts_initializer t e"
| "accepts_initializer _ e = False"

fun is_optional :: "ax_type \<Rightarrow> bool" where
  "is_optional (TyOptional _) = True"
| "is_optional _ = False"

text \<open>
  With the records of a context. The source counts the depth up to 32; \<open>budget\<close> is what is left of
  it, so the first call has 33.
\<close>

primrec accepts_at_depth :: "nat \<Rightarrow> data_context \<Rightarrow> ax_type \<Rightarrow> ax_expr \<Rightarrow> bool" where
  "accepts_at_depth 0 c ty e = False"
| "accepts_at_depth (Suc budget) c ty e =
     (case ty of
        TyRecord name \<Rightarrow>
          (case bm_get (ctx_unions c) name of
             Some literals \<Rightarrow> (case e of ExString s \<Rightarrow> s \<in> set literals | _ \<Rightarrow> False)
           | None \<Rightarrow>
               (case e of
                  ExObject vals \<Rightarrow>
                    (case bm_get (ctx_records c) name of
                       None \<Rightarrow> True
                     | Some r \<Rightarrow>
                         list_all (\<lambda>(n, _). bm_get (record_fields r) n \<noteq> None) vals
                         \<and> list_all (\<lambda>(n, t). case bm_get vals n of
                               None \<Rightarrow> is_optional t
                             | Some v \<Rightarrow> accepts_at_depth budget c t v) (record_fields r))
                | _ \<Rightarrow> False))
      | TyList t \<Rightarrow> (case e of ExList items \<Rightarrow> list_all (accepts_at_depth budget c t) items | _ \<Rightarrow> False)
      | TySet t \<Rightarrow> (case e of ExList items \<Rightarrow> list_all (accepts_at_depth budget c t) items | _ \<Rightarrow> False)
      | TyMap k t \<Rightarrow>
          (case e of ExObject flds \<Rightarrow> list_all (\<lambda>(n, v). accepts_map_key k n \<and> accepts_at_depth budget c t v) flds
           | _ \<Rightarrow> False)
      | TyOptional t \<Rightarrow> is_null_expr e \<or> accepts_at_depth budget c t e
      | TyResult t u \<Rightarrow>
          (case e of ExObject flds \<Rightarrow> accepts_result (accepts_at_depth budget c t) (accepts_at_depth budget c u) flds
           | _ \<Rightarrow> False)
      | TyPublic t \<Rightarrow> accepts_at_depth budget c t e
      | _ \<Rightarrow> accepts_initializer ty e)"

definition accepts_state_initializer :: "data_context \<Rightarrow> ax_type \<Rightarrow> ax_expr \<Rightarrow> bool" where
  "accepts_state_initializer c ty e = accepts_at_depth 33 c ty e"

subsection \<open>The type of an expression\<close>

datatype type_error =
    InvalidAdditionOperands string string
  | UnknownBinding string
  | UnknownRecord string
  | UnknownField string string
  | CannotAccessField string string
  | ExpectedList string
  | ExpectedNumber string
  | CannotIndex string
  | DuplicateMatchCase string
  | UnknownMatchCase string string
  | NonExhaustiveMatch string string

definition is_numeric_type :: "ax_type \<Rightarrow> bool" where
  "is_numeric_type t = (t \<in> {TyNumber, TyInt, TyFloat})"

definition promote_numeric_type :: "ax_type \<Rightarrow> ax_type \<Rightarrow> ax_type" where
  "promote_numeric_type a b =
     (if a = TyFloat \<or> b = TyFloat then TyFloat
      else if a = TyNumber \<or> b = TyNumber then TyNumber
      else if a = TyInt \<and> b = TyInt then TyInt
      else TyNumber)"

definition add_type :: "ax_type \<Rightarrow> ax_type \<Rightarrow> type_error + ax_type" where
  "add_type a b =
     (if is_numeric_type a \<and> is_numeric_type b then Inr (promote_numeric_type a b)
      else if a = TyUnknown \<or> b = TyUnknown then Inr TyUnknown
      else if a = TyString \<and> (b \<in> {TyString, TyBool} \<or> is_numeric_type b)
        \<or> b = TyString \<and> (a \<in> {TyString, TyBool} \<or> is_numeric_type a) then Inr TyString
      else Inl (InvalidAdditionOperands (display_name a) (display_name b)))"

definition arithmetic_type :: "ax_type \<Rightarrow> ax_type \<Rightarrow> type_error + ax_type" where
  "arithmetic_type a b =
     (if a \<in> {TyNumber, TyInt, TyFloat, TyUnknown} \<and> b \<in> {TyNumber, TyInt, TyFloat, TyUnknown}
      then Inr (promote_numeric_type a b)
      else Inl (ExpectedNumber (display_name a @ '' and '' @ display_name b)))"

fun fallback_type :: "ax_type \<Rightarrow> ax_type \<Rightarrow> ax_type" where
  "fallback_type (TyOptional t) b = t"
| "fallback_type TyUnknown b = b"
| "fallback_type a b = a"

fun binary_type :: "ax_binary_op \<Rightarrow> ax_type \<Rightarrow> ax_type \<Rightarrow> type_error + ax_type" where
  "binary_type OpAdd a b = add_type a b"
| "binary_type OpSub a b = arithmetic_type a b"
| "binary_type OpMul a b = arithmetic_type a b"
| "binary_type OpDiv a b = arithmetic_type a b"
| "binary_type OpRem a b = arithmetic_type a b"
| "binary_type OpFallback a b = Inr (fallback_type a b)"
| "binary_type _ a b = Inr TyBool"

definition negation_type :: "ax_type \<Rightarrow> type_error + ax_type" where
  "negation_type t = (if t \<in> {TyNumber, TyInt, TyFloat, TyUnknown} then Inr t else Inl (ExpectedNumber (display_name t)))"

fun resolve_member_type :: "data_context \<Rightarrow> ax_type \<Rightarrow> string \<Rightarrow> type_error + ax_type" where
  "resolve_member_type c TyFileRef p =
     (if p \<in> {''id'', ''storage'', ''file_name''} then Inr TyString
      else if p = ''content_type'' then Inr (TyOptional TyString)
      else if p = ''size'' then Inr TyInt
      else Inl (UnknownField ''FileRef'' p))"
| "resolve_member_type c (TyRecord name) p =
     (case bm_get (ctx_records c) name of
        None \<Rightarrow> Inl (UnknownRecord name)
      | Some r \<Rightarrow> ok_or (UnknownField name p) (bm_get (record_fields r) p))"
| "resolve_member_type c (TyOptional t) p = resolve_member_type c t p"
| "resolve_member_type c TyUnknown p = Inr TyUnknown"
| "resolve_member_type c t p = Inl (CannotAccessField (display_name t) p)"

fun rest_type :: "(ax_expr \<Rightarrow> type_error + ax_type) \<Rightarrow> ax_type \<Rightarrow> ax_expr list \<Rightarrow> type_error + ax_type" where
  "rest_type f t [] = Inr (TyList t)"
| "rest_type f t (e # es) = and_then (f e) (\<lambda>u. if u \<noteq> t then Inr (TyList TyUnknown) else rest_type f t es)"

fun resolve_list_type :: "(ax_expr \<Rightarrow> type_error + ax_type) \<Rightarrow> ax_expr list \<Rightarrow> type_error + ax_type" where
  "resolve_list_type f [] = Inr (TyList TyUnknown)"
| "resolve_list_type f (e # es) = and_then (f e) (\<lambda>t. rest_type f t es)"

lemma rest_type_cong: "(\<And>e. e \<in> set es \<Longrightarrow> f e = g e) \<Longrightarrow> rest_type f t es = rest_type g t es"
proof (induction es)
  case (Cons e es)
  then have "rest_type f t es = rest_type g t es" and "f e = g e" by simp_all
  then show ?case by (simp only: rest_type.simps)
qed simp

lemma resolve_list_cong [fundef_cong]:
  assumes "es = es'" and "\<And>e. e \<in> set es' \<Longrightarrow> f e = g e"
  shows "resolve_list_type f es = resolve_list_type g es'"
proof (cases es')
  case (Cons x xs)
  then have "f x = g x" "rest_type f t xs = rest_type g t xs" for t
    using assms(2) by (auto intro: rest_type_cong)
  with Cons assms(1) show ?thesis by simp
qed (use assms(1) in simp)

lemma bm_get_mem: "bm_get m k = Some v \<Longrightarrow> (k, v) \<in> set m"
  by (auto simp: bm_get_def dest: map_of_SomeD)

lemma size_get_less: "bm_get flds p = Some e \<Longrightarrow> size e < Suc (size_list (size_prod (\<lambda>_. 0) size) flds)"
  by (rule size_field_less) (rule bm_get_mem)

function resolve_expr_type :: "data_context \<Rightarrow> ax_expr \<Rightarrow> type_error + ax_type" where
  "resolve_expr_type c (ExString s) = Inr TyString"
| "resolve_expr_type c (ExNumber n) = Inr TyNumber"
| "resolve_expr_type c (ExFloat f) = Inr TyFloat"
| "resolve_expr_type c (ExBool b) = Inr TyBool"
| "resolve_expr_type c (ExList items) = resolve_list_type (\<lambda>e. resolve_expr_type c e) items"
| "resolve_expr_type c (ExObject flds) = Inr TyJson"
| "resolve_expr_type c (ExIdentifier name) = ok_or (UnknownBinding name) (bm_get (ctx_bindings c) name)"
| "resolve_expr_type c (ExUnary op e) =
     and_then (resolve_expr_type c e) (\<lambda>t. case op of OpNot \<Rightarrow> Inr TyBool | OpNeg \<Rightarrow> negation_type t)"
| "resolve_expr_type c (ExBinary op l r) =
     and_then (resolve_expr_type c l) (\<lambda>a. and_then (resolve_expr_type c r) (\<lambda>b. binary_type op a b))"
| "resolve_expr_type c (ExIndex obj index) =
     (case (obj, index) of
        (ExObject flds, ExString p) \<Rightarrow>
          (case bm_get flds p of
             Some e \<Rightarrow> resolve_expr_type c e
           | None \<Rightarrow> Inl (UnknownField ''object literal'' p))
      | _ \<Rightarrow>
          and_then (resolve_expr_type c obj) (\<lambda>t.
            case t of
              TyList item \<Rightarrow> Inr item
            | TyMap _ v \<Rightarrow> Inr v
            | TyRecord _ \<Rightarrow> (case index of ExString p \<Rightarrow> resolve_member_type c t p | _ \<Rightarrow> Inr TyUnknown)
            | TyUnknown \<Rightarrow> Inr TyUnknown
            | _ \<Rightarrow> Inl (CannotIndex (display_name t))))"
| "resolve_expr_type c (ExMember obj p) =
     (case obj of
        ExObject flds \<Rightarrow>
          (case bm_get flds p of
             Some e \<Rightarrow> resolve_expr_type c e
           | None \<Rightarrow> Inl (UnknownField ''object literal'' p))
      | _ \<Rightarrow> and_then (resolve_expr_type c obj) (\<lambda>t. resolve_member_type c t p))"
| "resolve_expr_type c (ExOptionalMember obj p) =
     (case obj of
        ExObject flds \<Rightarrow>
          (case bm_get flds p of
             Some e \<Rightarrow> and_then (resolve_expr_type c e) (\<lambda>t. Inr (ty_optional t))
           | None \<Rightarrow> Inr TyUnknown)
      | _ \<Rightarrow>
          and_then (resolve_expr_type c obj) (\<lambda>t.
            case resolve_member_type c t p of
              Inr u \<Rightarrow> Inr (ty_optional u)
            | Inl (UnknownField _ _) \<Rightarrow> Inr TyUnknown
            | Inl (CannotAccessField _ _) \<Rightarrow> Inr TyUnknown
            | Inl e \<Rightarrow> Inl e))"
| "resolve_expr_type c (ExCall path args) = Inr TyUnknown"
  by pat_completeness auto
termination
  by (relation "measure (\<lambda>(c, e). size e)")
    (auto simp: less_Suc_eq_le size_list_estimation' intro: size_list_estimation' dest: size_get_less)

definition bind_each_item :: "data_context \<Rightarrow> string \<Rightarrow> ax_expr \<Rightarrow> type_error + data_context" where
  "bind_each_item c binding source =
     and_then (resolve_expr_type c source) (\<lambda>t.
       case list_item t of
         None \<Rightarrow> Inl (ExpectedList (display_name t))
       | Some item \<Rightarrow> Inr (ctx_bind binding item c))"

end
