(* ===== verification/Runtime_Base.thy ===== *)
theory Runtime_Base
  imports Ax_Prelude
begin

section \<open>Runtime errors and configuration\<close>

text \<open>
  The errors and the environment of \<open>axonyx-runtime/src/backend.rs\<close>: \<open>AxRuntimeError\<close>,
  \<open>AxDbError\<close> and its classification of driver messages, \<open>AxEnv\<close> and the database
  configuration read from it. \<open>rt_error\<close> is the error of every runtime operation; a result
  is the sum \<open>rt_error + 'a\<close>. A \<open>&'static str\<close> message is written as it stands in the source.
\<close>

subsection \<open>Database errors\<close>

datatype db_error_code =
    DbUnknownResource | DbUniqueViolation | DbConstraintViolation | DbInvalidQuery
  | DbUnsupportedOperation | DbMigrationConflict | DbMigrationChecksumMismatch
  | DbConnectionFailed | DbTimeout | DbDriverError

fun db_code_str :: "db_error_code \<Rightarrow> string" where
  "db_code_str DbUnknownResource = ''db.unknown_resource''"
| "db_code_str DbUniqueViolation = ''db.unique_violation''"
| "db_code_str DbConstraintViolation = ''db.constraint_violation''"
| "db_code_str DbInvalidQuery = ''db.invalid_query''"
| "db_code_str DbUnsupportedOperation = ''db.unsupported_operation''"
| "db_code_str DbMigrationConflict = ''db.migration_conflict''"
| "db_code_str DbMigrationChecksumMismatch = ''db.migration_checksum_mismatch''"
| "db_code_str DbConnectionFailed = ''db.connection_failed''"
| "db_code_str DbTimeout = ''db.timeout''"
| "db_code_str DbDriverError = ''db.driver_error''"

fun db_code_message :: "db_error_code \<Rightarrow> string" where
  "db_code_message DbUnknownResource = ''Database resource was not found.''"
| "db_code_message DbUniqueViolation = ''Record already exists.''"
| "db_code_message DbConstraintViolation = ''Database constraint failed.''"
| "db_code_message DbInvalidQuery = ''Database query is invalid.''"
| "db_code_message DbUnsupportedOperation = ''Database operation is not supported.''"
| "db_code_message DbMigrationConflict = ''Database migration state conflicts with the requested operation.''"
| "db_code_message DbMigrationChecksumMismatch = ''Applied database migration checksum does not match the local file.''"
| "db_code_message DbConnectionFailed = ''Database connection failed.''"
| "db_code_message DbTimeout = ''Database operation timed out.''"
| "db_code_message DbDriverError = ''Database operation failed.''"

fun db_code_status :: "db_error_code \<Rightarrow> nat" where
  "db_code_status DbUnknownResource = 400"
| "db_code_status DbInvalidQuery = 400"
| "db_code_status DbUniqueViolation = 409"
| "db_code_status DbConstraintViolation = 409"
| "db_code_status DbMigrationConflict = 409"
| "db_code_status DbMigrationChecksumMismatch = 409"
| "db_code_status DbUnsupportedOperation = 501"
| "db_code_status DbConnectionFailed = 503"
| "db_code_status DbTimeout = 503"
| "db_code_status DbDriverError = 500"

datatype database_driver = DriverPostgres | DriverMySql | DriverSqlite | DriverMemory

record db_error =
  dbe_code :: string
  dbe_message :: string
  dbe_status :: nat
  dbe_driver :: "string option"
  dbe_resource :: "string option"
  dbe_field :: "string option"
  dbe_detail :: "string option"

datatype rt_error =
    RtNotFound
  | RtUnauthorized
  | RtForbidden
  | RtPageRedirect string nat
  | RtInvalidInput string
  | RtMessage string
  | RtDatabase db_error

definition driver_str :: "database_driver \<Rightarrow> string" where
  "driver_str d = (case d of DriverPostgres \<Rightarrow> ''postgres'' | DriverMySql \<Rightarrow> ''mysql''
     | DriverSqlite \<Rightarrow> ''sqlite'' | DriverMemory \<Rightarrow> ''memory'')"

definition db_error_new :: "db_error_code \<Rightarrow> db_error" where
  "db_error_new c = \<lparr> dbe_code = db_code_str c, dbe_message = db_code_message c, dbe_status = db_code_status c,
     dbe_driver = None, dbe_resource = None, dbe_field = None, dbe_detail = None \<rparr>"

definition db_invalid_query :: "database_driver \<Rightarrow> string \<Rightarrow> string \<Rightarrow> db_error" where
  "db_invalid_query d resource detail =
     (db_error_new DbInvalidQuery)\<lparr> dbe_driver := Some (driver_str d), dbe_resource := Some resource,
        dbe_detail := Some detail \<rparr>"

fun classify_driver_error :: "database_driver \<Rightarrow> string \<Rightarrow> db_error_code" where
  "classify_driver_error DriverSqlite detail =
     (let has = (\<lambda>p. contains_str p (to_lower detail)) in
      if has ''no such table'' then DbUnknownResource
      else if has ''unique constraint failed'' then DbUniqueViolation
      else if has ''constraint failed'' \<or> has ''not null constraint failed''
              \<or> has ''foreign key constraint failed'' then DbConstraintViolation
      else if has ''no such column'' then DbInvalidQuery
      else if has ''database is locked'' \<or> has ''database is busy'' then DbTimeout
      else if has ''unable to open database file'' then DbConnectionFailed
      else DbDriverError)"
| "classify_driver_error DriverPostgres detail =
     (let has = (\<lambda>p. contains_str p (to_lower detail)) in
      if has ''42p01'' \<or> has ''undefined table'' then DbUnknownResource
      else if has ''23505'' \<or> has ''duplicate key'' then DbUniqueViolation
      else if has ''23503'' \<or> has ''23502'' \<or> has ''check violation'' then DbConstraintViolation
      else if has ''error serializing parameter'' \<or> has ''cannot be encoded as postgres type'' then DbInvalidQuery
      else if has ''timeout'' then DbTimeout
      else if has ''connection refused'' \<or> has ''could not connect'' \<or> has ''connection error''
              \<or> has ''error connecting to server'' \<or> has ''tls handshake'' \<or> has ''certificate'' then DbConnectionFailed
      else DbDriverError)"
| "classify_driver_error DriverMySql detail =
     (let has = (\<lambda>p. contains_str p (to_lower detail)) in
      if has ''duplicate entry'' \<or> has ''1062'' then DbUniqueViolation
      else if has ''foreign key constraint'' \<or> has ''cannot be null'' \<or> has ''1452'' then DbConstraintViolation
      else if has ''timeout'' then DbTimeout
      else if has ''connection'' then DbConnectionFailed
      else DbDriverError)"
| "classify_driver_error DriverMemory detail = DbDriverError"

definition trim_chars :: "char list \<Rightarrow> string \<Rightarrow> string" where
  "trim_chars cs s = rev (dropWhile (\<lambda>c. c \<in> set cs) (rev (dropWhile (\<lambda>c. c \<in> set cs) s)))"

definition extract_driver_error_field :: "string \<Rightarrow> string option" where
  "extract_driver_error_field detail = do {
     (before, _) \<leftarrow> split_once_str ''constraint failed:'' (to_lower detail);
     let path = trim (drop (length before + length ''constraint failed:'') detail);
     let field = (case rsplit_once (CHR ''.'') path of Some (_, f) \<Rightarrow> f | None \<Rightarrow> path);
     let field = trim_chars [CHR 0x60, CHR 0x22, CHR 0x27, CHR '' '', CHR ''.''] field;
     (if field = [] then None else Some field) }"

definition db_error_from_driver_detail :: "database_driver \<Rightarrow> string \<Rightarrow> string \<Rightarrow> db_error" where
  "db_error_from_driver_detail d resource detail =
     (let e = (db_error_new (classify_driver_error d detail))
                \<lparr> dbe_driver := Some (driver_str d), dbe_resource := Some resource, dbe_detail := Some detail \<rparr>
      in case extract_driver_error_field detail of
           Some f \<Rightarrow> e\<lparr> dbe_field := Some f \<rparr>
         | None \<Rightarrow> e)"

subsection \<open>Runtime errors\<close>

definition has_control_or :: "(nat \<Rightarrow> bool) \<Rightarrow> string \<Rightarrow> bool" where
  "has_control_or p s = list_ex (\<lambda>ch. is_control ch \<or> p ch) (chars s)"

definition page_redirect :: "string \<Rightarrow> nat \<Rightarrow> rt_error" where
  "page_redirect location status =
     (if status \<notin> {302, 303, 307, 308} \<or> \<not> starts_with ''/'' location \<or> starts_with ''//'' location
         \<or> has_control_or (\<lambda>ch. ch = 92) location
      then RtMessage ''invalid page redirect target or status''
      else RtPageRedirect location status)"

fun access_denial_status :: "rt_error \<Rightarrow> nat option" where
  "access_denial_status RtUnauthorized = Some 401"
| "access_denial_status RtForbidden = Some 403"
| "access_denial_status _ = None"

fun public_response_status :: "rt_error \<Rightarrow> nat option" where
  "public_response_status RtNotFound = Some 404"
| "public_response_status e = access_denial_status e"

subsection \<open>Environment\<close>

record ax_env =
  env_public :: "(string, string) bmap"
  env_secret :: "(string, string) bmap"

definition normalize_env_key :: "string \<Rightarrow> string" where
  "normalize_env_key key = to_lower (trim key)"

definition or_else :: "'a option \<Rightarrow> 'a option \<Rightarrow> 'a option" where
  "or_else a b = (case a of Some x \<Rightarrow> Some x | None \<Rightarrow> b)"

definition ax_env_public :: "ax_env \<Rightarrow> string \<Rightarrow> rt_error + string" where
  "ax_env_public e key =
     ok_or (RtMessage (''missing public env key `'' @ key @ ''`'')) (bm_get (env_public e) key)"

definition ax_env_secret :: "ax_env \<Rightarrow> string \<Rightarrow> rt_error + string" where
  "ax_env_secret e key =
     ok_or (RtMessage (''missing secret env key `'' @ key @ ''`''))
       (or_else (bm_get (env_secret e) key) (bm_get (env_secret e) (normalize_env_key key)))"

definition ax_env_value :: "ax_env \<Rightarrow> string \<Rightarrow> rt_error + string" where
  "ax_env_value e key =
     (let n = normalize_env_key key in
      ok_or (RtMessage (''missing env key `'' @ key @ ''`''))
        (or_else (bm_get (env_public e) n) (bm_get (env_secret e) n)))"

text \<open>\<open>AxEnv::from_env\<close> on the variables of the process, in their order.\<close>

definition env_add_var :: "ax_env \<Rightarrow> string \<times> string \<Rightarrow> ax_env" where
  "env_add_var e kv =
     (case kv of (key, v) \<Rightarrow>
        (case strip_prefix ''AX_PUBLIC_'' key of
           Some k \<Rightarrow> e\<lparr> env_public := bm_insert (normalize_env_key k) v (env_public e) \<rparr>
         | None \<Rightarrow>
             (case strip_prefix ''AX_SECRET_'' key of
                Some k \<Rightarrow> e\<lparr> env_secret := bm_insert (normalize_env_key k) v (env_secret e) \<rparr>
              | None \<Rightarrow> e\<lparr> env_secret := bm_insert (normalize_env_key key) v (env_secret e) \<rparr>)))"

definition env_from_vars :: "(string \<times> string) list \<Rightarrow> ax_env" where
  "env_from_vars vars = foldl env_add_var \<lparr> env_public = [], env_secret = [] \<rparr> vars"

subsection \<open>Database configuration\<close>

datatype data_transport = TransportDirect | TransportApi

definition parse_driver :: "string \<Rightarrow> rt_error + database_driver" where
  "parse_driver input =
     (let s = to_lower (trim input) in
      if s \<in> {[], ''postgres'', ''postgresql''} then Inr DriverPostgres
      else if s = ''mysql'' then Inr DriverMySql
      else if s = ''sqlite'' then Inr DriverSqlite
      else if s \<in> {''memory'', ''inmemory'', ''in-memory''} then Inr DriverMemory
      else Inl (RtMessage (''unsupported database driver `'' @ s @ ''`'')))"

definition parse_transport :: "string \<Rightarrow> rt_error + data_transport" where
  "parse_transport input =
     (let s = to_lower (trim input) in
      if s \<in> {[], ''direct''} then Inr TransportDirect
      else if s = ''api'' then Inr TransportApi
      else Inl (RtMessage (''unsupported data transport `'' @ s @ ''`'')))"

definition secret_of :: "ax_env \<Rightarrow> string list \<Rightarrow> string option" where
  "secret_of e ks = foldr (\<lambda>k m. or_else (bm_get (env_secret e) k) m) ks None"

definition parse_positive_env_value :: "nat \<Rightarrow> string option \<Rightarrow> string \<Rightarrow> nat \<Rightarrow> rt_error + nat" where
  "parse_positive_env_value w v name def =
     (case v of
        None \<Rightarrow> Inr def
      | Some s \<Rightarrow>
          (let err = Inl (RtMessage (name @ '' must be a positive integer, got `'' @ s @ ''`'')) in
           case parse_unsigned w s of
             None \<Rightarrow> err
           | Some n \<Rightarrow> if n < 1 then err else Inr n))"

definition parse_non_negative_env_value :: "nat \<Rightarrow> string option \<Rightarrow> string \<Rightarrow> nat \<Rightarrow> rt_error + nat" where
  "parse_non_negative_env_value w v name def =
     (case v of
        None \<Rightarrow> Inr def
      | Some s \<Rightarrow>
          ok_or (RtMessage (name @ '' must be a non-negative integer; received `'' @ s @ ''`''))
            (parse_unsigned w (trim s)))"

record database_policy =
  query_timeout_ms :: nat
  read_retry_attempts :: nat
  read_retry_backoff_ms :: nat
  sqlite_busy_timeout_ms :: nat

record database_config =
  config_driver :: database_driver
  config_transport :: data_transport
  config_url :: "string option"
  config_api_url :: "string option"
  config_api_key :: "string option"
  config_pool_max_size :: nat
  config_pool_timeout_ms :: nat
  config_policy :: database_policy

definition max_db_read_retry_attempts :: nat where
  "max_db_read_retry_attempts = 5"

definition env_database_driver :: "ax_env \<Rightarrow> rt_error + database_driver" where
  "env_database_driver e =
     (case secret_of e [''db_dialect'', ''db_driver'', ''database_dialect'', ''database_driver''] of
        Some d \<Rightarrow> parse_driver d | None \<Rightarrow> Inr DriverPostgres)"

definition env_data_transport :: "ax_env \<Rightarrow> rt_error + data_transport" where
  "env_data_transport e =
     (case secret_of e [''db_transport'', ''data_transport'', ''database_transport''] of
        Some t \<Rightarrow> parse_transport t | None \<Rightarrow> Inr TransportDirect)"

definition env_database_policy :: "ax_env \<Rightarrow> rt_error + database_policy" where
  "env_database_policy e =
     and_then (parse_positive_env_value 64 (secret_of e [''db_query_timeout_ms'', ''database_query_timeout_ms''])
                 ''DB_QUERY_TIMEOUT_MS'' 5000) (\<lambda>q.
     and_then (parse_non_negative_env_value 32 (secret_of e [''db_read_retry_attempts'', ''database_read_retry_attempts''])
                 ''DB_READ_RETRY_ATTEMPTS'' 1) (\<lambda>r.
     and_then (parse_positive_env_value 64 (secret_of e [''db_read_retry_backoff_ms'', ''database_read_retry_backoff_ms''])
                 ''DB_READ_RETRY_BACKOFF_MS'' 50) (\<lambda>b.
     and_then (parse_positive_env_value 64 (secret_of e [''db_sqlite_busy_timeout_ms'', ''database_sqlite_busy_timeout_ms''])
                 ''DB_SQLITE_BUSY_TIMEOUT_MS'' 5000) (\<lambda>s.
     if max_db_read_retry_attempts < r then
       Inl (RtMessage (''DB_READ_RETRY_ATTEMPTS must be between 0 and '' @ show_nat max_db_read_retry_attempts
              @ '', got `'' @ show_nat r @ ''`''))
     else Inr \<lparr> query_timeout_ms = q, read_retry_attempts = r, read_retry_backoff_ms = b,
                sqlite_busy_timeout_ms = s \<rparr>))))"

definition env_database_config :: "ax_env \<Rightarrow> rt_error + database_config" where
  "env_database_config e =
     and_then (env_database_driver e) (\<lambda>d.
     and_then (env_data_transport e) (\<lambda>t.
     and_then (parse_positive_env_value 32 (secret_of e [''db_pool_max_size'', ''database_pool_max_size''])
                 ''DB_POOL_MAX_SIZE'' 10) (\<lambda>n.
     and_then (parse_positive_env_value 64 (secret_of e [''db_pool_timeout_ms'', ''database_pool_timeout_ms''])
                 ''DB_POOL_TIMEOUT_MS'' 5000) (\<lambda>pt.
     and_then (env_database_policy e) (\<lambda>p.
       Inr \<lparr> config_driver = d, config_transport = t,
             config_url = secret_of e [''db_url'', ''database_url''],
             config_api_url = or_else (bm_get (env_public e) ''data_api_url'') (bm_get (env_public e) ''supabase_url''),
             config_api_key = secret_of e [''data_api_key'', ''supabase_service_role_key''],
             config_pool_max_size = n, config_pool_timeout_ms = pt, config_policy = p \<rparr>)))))"

subsection \<open>What the configuration guarantees\<close>

lemma parse_positive_bounds:
  "parse_positive_env_value w v name def = Inr n \<Longrightarrow> n = def \<or> 1 \<le> n \<and> n < 2 ^ w"
  by (auto simp: parse_positive_env_value_def parse_unsigned_def Let_def split: option.splits if_splits)

lemma env_database_policy_bounds:
  assumes "env_database_policy e = Inr p"
  shows "1 \<le> query_timeout_ms p \<and> read_retry_attempts p \<le> max_db_read_retry_attempts
    \<and> 1 \<le> read_retry_backoff_ms p \<and> 1 \<le> sqlite_busy_timeout_ms p"
  using assms by (auto simp: env_database_policy_def and_then_Inr_iff dest!: parse_positive_bounds split: if_splits)

lemma env_database_config_bounds:
  assumes "env_database_config e = Inr c"
  shows "1 \<le> config_pool_max_size c \<and> config_pool_max_size c < 2 ^ 32 \<and> 1 \<le> config_pool_timeout_ms c
    \<and> env_database_policy e = Inr (config_policy c)"
  using assms by (auto simp: env_database_config_def and_then_Inr_iff dest!: parse_positive_bounds)

end
