(* ===== verification/Http.thy ===== *)
theory Http
  imports Runtime_Base
begin

section \<open>Requests, responses, middleware and routes\<close>

text \<open>
  The transport-independent part of \<open>axonyx-runtime/src/server.rs\<close>: requests and their
  headers, cookies, form and query fields, responses, cookies and server-sent events,
  authentication by signed cookie, the middleware chain and the route table. The axum adapter
  and the multipart reader, which move bytes between sockets and these types, are not here,
  except the file-name check. HMAC-SHA256 (the crates \<open>hmac\<close> and \<open>sha2\<close>) is the argument
  \<open>mac key message\<close>. The body of the fixed 401 response is written as serde prints it.
\<close>

subsection \<open>Requests\<close>

record ax_incoming_file =
  file_field_name :: string
  file_name :: string
  file_content_type :: "string option"
  file_bytes :: bytes

record multipart_form =
  form_fields :: "(string, string) bmap"
  form_files :: "(string, ax_incoming_file list) bmap"

record http_request =
  req_method :: string
  req_target :: string
  req_headers :: "(string, string) bmap"
  req_body :: bytes
  req_multipart :: "multipart_form option"

definition http_request_new :: "string \<Rightarrow> string \<Rightarrow> http_request" where
  "http_request_new meth target = \<lparr> req_method = meth, req_target = target, req_headers = [], req_body = [],
     req_multipart = None \<rparr>"

definition req_with_header :: "string \<Rightarrow> string \<Rightarrow> http_request \<Rightarrow> http_request" where
  "req_with_header name v r = r\<lparr> req_headers := bm_insert name v (req_headers r) \<rparr>"

definition find_header :: "(string, string) bmap \<Rightarrow> string \<Rightarrow> string option" where
  "find_header hs name = map_option snd (List.find (\<lambda>(h, _). eq_ignore_case h name) hs)"

definition header_value :: "http_request \<Rightarrow> string \<Rightarrow> string option" where
  "header_value r name = find_header (req_headers r) name"

fun find_map :: "('a \<Rightarrow> 'b option) \<Rightarrow> 'a list \<Rightarrow> 'b option" where
  "find_map f [] = None"
| "find_map f (x # xs) = (case f x of Some y \<Rightarrow> Some y | None \<Rightarrow> find_map f xs)"

definition cookie_pair :: "string \<Rightarrow> string \<Rightarrow> string option" where
  "cookie_pair name pair = do {
     (key, v) \<leftarrow> split_once (CHR ''='') (trim pair);
     if key = name then Some v else None }"

definition cookie_value :: "http_request \<Rightarrow> string \<Rightarrow> string option" where
  "cookie_value r name = do {
     cookies \<leftarrow> header_value r ''Cookie'';
     find_map (cookie_pair name) (split_on (CHR '';'') cookies) }"

fun url_decode_bytes :: "bytes \<Rightarrow> bytes" where
  "url_decode_bytes [] = []"
| "url_decode_bytes (c # cs) =
     (if c = CHR ''+'' then CHR '' '' # url_decode_bytes cs
      else if c = CHR 0x25 then
        (case cs of
           h # l # rest \<Rightarrow>
             (case (hex_value h, hex_value l) of
                (Some high, Some low) \<Rightarrow> char_of (high * 16 + low) # url_decode_bytes rest
              | _ \<Rightarrow> CHR 0x25 # url_decode_bytes (h # l # rest))
         | _ \<Rightarrow> CHR 0x25 # url_decode_bytes cs)
      else c # url_decode_bytes cs)"

definition url_decode :: "string \<Rightarrow> string" where
  "url_decode s = from_utf8_lossy (url_decode_bytes s)"

definition urlencoded_field :: "string \<Rightarrow> (string \<times> string) option" where
  "urlencoded_field pair =
     (if pair = [] then None
      else (case split_once (CHR ''='') pair of
              Some (key, v) \<Rightarrow> Some (url_decode key, url_decode v)
            | None \<Rightarrow> Some (url_decode pair, url_decode [])))"

definition parse_urlencoded_fields :: "string \<Rightarrow> (string, string) bmap" where
  "parse_urlencoded_fields body = bm_of_list (List.map_filter urlencoded_field (split_on (CHR ''&'') body))"

definition body_text_lossy :: "http_request \<Rightarrow> string" where
  "body_text_lossy r = from_utf8_lossy (req_body r)"

definition form_value :: "http_request \<Rightarrow> string \<Rightarrow> string option" where
  "form_value r name =
     or_else (do { form \<leftarrow> req_multipart r; bm_get (form_fields form) name })
       (bm_get (parse_urlencoded_fields (body_text_lossy r)) name)"

definition query_fields :: "http_request \<Rightarrow> (string, string) bmap" where
  "query_fields r =
     (case split_once (CHR 0x3F) (req_target r) of
        Some (_, query) \<Rightarrow> parse_urlencoded_fields query
      | None \<Rightarrow> [])"

definition incoming_files :: "http_request \<Rightarrow> string \<Rightarrow> ax_incoming_file list" where
  "incoming_files r name =
     (case req_multipart r of
        None \<Rightarrow> []
      | Some form \<Rightarrow> (case bm_get (form_files form) name of Some fs \<Rightarrow> fs | None \<Rightarrow> []))"

definition incoming_file :: "http_request \<Rightarrow> string \<Rightarrow> ax_incoming_file option" where
  "incoming_file r name = (case incoming_files r name of f # _ \<Rightarrow> Some f | [] \<Rightarrow> None)"

definition bearer_token :: "http_request \<Rightarrow> string option" where
  "bearer_token r = do {
     authorization \<leftarrow> header_value r ''Authorization'';
     let a = trim authorization;
     token \<leftarrow> or_else (strip_prefix ''Bearer '' a) (strip_prefix ''bearer '' a);
     (if trim token = [] then None else Some (trim token)) }"

definition request_path_without_query :: "string \<Rightarrow> string" where
  "request_path_without_query target =
     (case split_once (CHR 0x3F) target of Some (path, _) \<Rightarrow> path | None \<Rightarrow> target)"

definition last_segment :: "string \<Rightarrow> string" where
  "last_segment s = rev (takeWhile (\<lambda>c. c \<noteq> CHR ''/'' \<and> c \<noteq> CHR 0x5C) (rev s))"

definition sanitize_client_file_name :: "string \<Rightarrow> string + string" where
  "sanitize_client_file_name v =
     (let file = trim (last_segment v) in
      if file = [] \<or> file = ''.'' \<or> file = ''..'' \<or> 255 < length file \<or> has_control_or (\<lambda>_. False) file
      then Inl ''multipart file name is invalid''
      else Inr file)"

subsection \<open>Hexadecimal\<close>

definition hex_encode :: "bytes \<Rightarrow> string" where
  "hex_encode bs = concat (map (\<lambda>c. [nibble_char (code c div 16), nibble_char (code c mod 16)]) bs)"

fun hex_decode :: "string \<Rightarrow> bytes option" where
  "hex_decode [] = Some []"
| "hex_decode [c] = None"
| "hex_decode (h # l # rest) = do {
     high \<leftarrow> hex_value h;
     low \<leftarrow> hex_value l;
     bs \<leftarrow> hex_decode rest;
     Some (char_of (high * 16 + low) # bs) }"

subsection \<open>Cookies, events and responses\<close>

record ax_cookie =
  cookie_name :: string
  cookie_content :: string
  cookie_path :: "string option"
  cookie_domain :: "string option"
  cookie_max_age :: "int option"
  cookie_http_only :: bool
  cookie_secure :: bool
  cookie_same_site :: "string option"

definition cookie_new :: "string \<Rightarrow> string \<Rightarrow> ax_cookie" where
  "cookie_new name v = \<lparr> cookie_name = name, cookie_content = v, cookie_path = None, cookie_domain = None,
     cookie_max_age = None, cookie_http_only = False, cookie_secure = False, cookie_same_site = None \<rparr>"

definition sanitize_cookie_part :: "string \<Rightarrow> string" where
  "sanitize_cookie_part s = filter (\<lambda>c. c \<noteq> CHR 0x0D \<and> c \<noteq> CHR 0x0A \<and> c \<noteq> CHR '';'') s"

definition attribute :: "string \<Rightarrow> string option \<Rightarrow> string list" where
  "attribute name v = (case v of Some s \<Rightarrow> [name @ ''='' @ sanitize_cookie_part s] | None \<Rightarrow> [])"

definition cookie_parts :: "ax_cookie \<Rightarrow> string list" where
  "cookie_parts c =
     (sanitize_cookie_part (cookie_name c) @ ''='' @ sanitize_cookie_part (cookie_content c))
     # attribute ''Path'' (cookie_path c) @ attribute ''Domain'' (cookie_domain c)
     @ (case cookie_max_age c of Some n \<Rightarrow> [''Max-Age='' @ show_int n] | None \<Rightarrow> [])
     @ (if cookie_http_only c then [''HttpOnly''] else [])
     @ (if cookie_secure c then [''Secure''] else [])
     @ attribute ''SameSite'' (cookie_same_site c)"

definition cookie_render :: "ax_cookie \<Rightarrow> string" where
  "cookie_render c = join_with ''; '' (cookie_parts c)"

record sse_event =
  sse_name :: "string option"
  sse_data :: string
  sse_id :: "string option"
  sse_retry_ms :: "nat option"

definition sse_field :: "string \<Rightarrow> string \<Rightarrow> string" where
  "sse_field name v = name @ '': '' @ v @ [CHR 0x0A]"

text \<open>\<open>str::lines\<close>: the pieces between line feeds, without a carriage return before one, and
  without the empty piece after a final one.\<close>

definition strip_cr :: "string \<Rightarrow> string" where
  "strip_cr s = (case strip_suffix [CHR 0x0D] s of Some r \<Rightarrow> r | None \<Rightarrow> s)"

definition str_lines :: "string \<Rightarrow> string list" where
  "str_lines s =
     (let ps = split_on (CHR 0x0A) s
      in map strip_cr (butlast ps) @ (if last ps = [] then [] else [last ps]))"

definition sse_render :: "sse_event \<Rightarrow> string" where
  "sse_render e =
     (case sse_id e of Some i \<Rightarrow> sse_field ''id'' i | None \<Rightarrow> [])
     @ (case sse_name e of Some n \<Rightarrow> sse_field ''event'' n | None \<Rightarrow> [])
     @ (case sse_retry_ms e of Some n \<Rightarrow> sse_field ''retry'' (show_nat n) | None \<Rightarrow> [])
     @ concat (map (sse_field ''data'') (str_lines (sse_data e)))
     @ (if ends_with [CHR 0x0A] (sse_data e) then sse_field ''data'' [] else [])
     @ [CHR 0x0A]"

datatype ax_body = BodyFixed bytes | BodyChunks "bytes list"

fun body_len :: "ax_body \<Rightarrow> nat" where
  "body_len (BodyFixed b) = length b"
| "body_len (BodyChunks cs) = sum_list (map length cs)"

fun body_into_bytes :: "ax_body \<Rightarrow> bytes" where
  "body_into_bytes (BodyFixed b) = b"
| "body_into_bytes (BodyChunks cs) = concat cs"

record http_response =
  res_status :: nat
  res_content_type :: string
  res_headers :: "(string, string) bmap"
  res_set_cookies :: "string list"
  res_body :: ax_body

definition http_response_new :: "nat \<Rightarrow> string \<Rightarrow> bytes \<Rightarrow> http_response" where
  "http_response_new status content_type body = \<lparr> res_status = status, res_content_type = content_type,
     res_headers = [], res_set_cookies = [], res_body = BodyFixed body \<rparr>"

definition response_html :: "nat \<Rightarrow> string \<Rightarrow> http_response" where
  "response_html status body = http_response_new status ''text/html; charset=utf-8'' body"

definition response_text :: "nat \<Rightarrow> string \<Rightarrow> http_response" where
  "response_text status body = http_response_new status ''text/plain; charset=utf-8'' body"

definition response_json :: "nat \<Rightarrow> bytes \<Rightarrow> http_response" where
  "response_json status serialized = http_response_new status ''application/json; charset=utf-8'' serialized"

definition response_no_content :: http_response where
  "response_no_content = http_response_new 204 ''text/plain; charset=utf-8'' []"

definition with_header :: "string \<Rightarrow> string \<Rightarrow> http_response \<Rightarrow> http_response" where
  "with_header name v r = r\<lparr> res_headers := bm_insert name v (res_headers r) \<rparr>"

definition with_no_store :: "http_response \<Rightarrow> http_response" where
  "with_no_store r = with_header ''Cache-Control'' ''no-store'' r"

definition with_cookie :: "ax_cookie \<Rightarrow> http_response \<Rightarrow> http_response" where
  "with_cookie c r = r\<lparr> res_set_cookies := res_set_cookies r @ [cookie_render c] \<rparr>"

definition without_cookie :: "string \<Rightarrow> http_response \<Rightarrow> http_response" where
  "without_cookie name r =
     with_cookie ((cookie_new name [])\<lparr> cookie_path := Some ''/'', cookie_max_age := Some 0,
       cookie_http_only := True, cookie_same_site := Some ''Lax'' \<rparr>) r"

definition redirect_with_status :: "nat \<Rightarrow> string \<Rightarrow> http_response" where
  "redirect_with_status status location = with_header ''Location'' location (response_text status [])"

definition response_redirect :: "string \<Rightarrow> http_response" where
  "response_redirect location = redirect_with_status 303 location"

definition stream_chunks :: "nat \<Rightarrow> string \<Rightarrow> bytes list \<Rightarrow> http_response" where
  "stream_chunks status content_type cs = \<lparr> res_status = status, res_content_type = content_type,
     res_headers = [], res_set_cookies = [], res_body = BodyChunks cs \<rparr>"

definition html_stream :: "nat \<Rightarrow> bytes list \<Rightarrow> http_response" where
  "html_stream status cs = stream_chunks status ''text/html; charset=utf-8'' cs"

definition sse_events :: "sse_event list \<Rightarrow> http_response" where
  "sse_events es =
     with_no_store (with_header ''X-Accel-Buffering'' ''no''
       (stream_chunks 200 ''text/event-stream; charset=utf-8'' (map sse_render es)))"

definition response_header_value :: "http_response \<Rightarrow> string \<Rightarrow> string option" where
  "response_header_value r name = find_header (res_headers r) name"

definition status_reason :: "nat \<Rightarrow> string" where
  "status_reason status =
     (case map_of [(200, ''OK''), (201, ''Created''), (204, ''No Content''), (301, ''Moved Permanently''),
        (302, ''Found''), (303, ''See Other''), (400, ''Bad Request''), (401, ''Unauthorized''),
        (403, ''Forbidden''), (404, ''Not Found''), (405, ''Method Not Allowed''), (413, ''Payload Too Large''),
        (409, ''Conflict''), (415, ''Unsupported Media Type''), (422, ''Unprocessable Entity''),
        (500, ''Internal Server Error'')] status of
      Some s \<Rightarrow> s | None \<Rightarrow> ''OK'')"

definition status_line :: "http_response \<Rightarrow> string" where
  "status_line r = show_nat (res_status r) @ '' '' @ status_reason (res_status r)"

text \<open>\<open>AxHtmlStream\<close>: pushing drops empty chunks.\<close>

definition html_stream_push :: "bytes list \<Rightarrow> bytes \<Rightarrow> bytes list" where
  "html_stream_push cs chunk = (if chunk = [] then cs else cs @ [chunk])"

subsection \<open>Authentication\<close>

definition signature_hex :: "(bytes \<Rightarrow> bytes \<Rightarrow> bytes) \<Rightarrow> string \<Rightarrow> string \<Rightarrow> string" where
  "signature_hex mac v secret = hex_encode (mac secret v)"

definition verify_signature :: "(bytes \<Rightarrow> bytes \<Rightarrow> bytes) \<Rightarrow> string \<Rightarrow> string \<Rightarrow> string \<Rightarrow> bool" where
  "verify_signature mac v signature secret =
     (case hex_decode signature of None \<Rightarrow> False | Some tag \<Rightarrow> tag = mac secret v)"

definition sign_session :: "(bytes \<Rightarrow> bytes \<Rightarrow> bytes) \<Rightarrow> string \<Rightarrow> string \<Rightarrow> string" where
  "sign_session mac v secret = v @ ''.'' @ signature_hex mac v secret"

definition signed_cookie :: "(bytes \<Rightarrow> bytes \<Rightarrow> bytes) \<Rightarrow> http_request \<Rightarrow> string \<Rightarrow> string \<Rightarrow> string option" where
  "signed_cookie mac r name secret = do {
     cookie \<leftarrow> cookie_value r name;
     (v, signature) \<leftarrow> rsplit_once (CHR ''.'') cookie;
     if verify_signature mac v signature secret then Some v else None }"

definition auth_session :: "http_request \<Rightarrow> string option" where
  "auth_session r = cookie_value r ''session''"

definition signed_session :: "(bytes \<Rightarrow> bytes \<Rightarrow> bytes) \<Rightarrow> http_request \<Rightarrow> string \<Rightarrow> string option" where
  "signed_session mac r secret = signed_cookie mac r ''session'' secret"

subsection \<open>Middleware\<close>

record request_context =
  ctx_request :: http_request
  ctx_route :: string
  ctx_env :: "ax_env option"

datatype middleware_result = MwContinue | MwStop http_response

definition unauthorized :: middleware_result where
  "unauthorized = MwStop (response_json 401
     ([CHR 0x7B, CHR 0x22] @ ''error'' @ [CHR 0x22, CHR '':'', CHR 0x22] @ ''unauthorized'' @ [CHR 0x22, CHR 0x7D]))"

datatype middleware_phase = PhaseBefore | PhaseAfter

record middleware_chain =
  chain_before :: "(request_context \<Rightarrow> middleware_result) list"
  chain_after :: "(request_context \<Rightarrow> http_response \<Rightarrow> http_response) list"

definition chain_new :: middleware_chain where
  "chain_new = \<lparr> chain_before = [], chain_after = [] \<rparr>"

definition run_after :: "middleware_chain \<Rightarrow> request_context \<Rightarrow> http_response \<Rightarrow> http_response" where
  "run_after chain ctx r = foldl (\<lambda>r m. m ctx r) r (chain_after chain)"

fun run_before :: "(request_context \<Rightarrow> middleware_result) list \<Rightarrow> request_context \<Rightarrow> http_response option" where
  "run_before [] ctx = None"
| "run_before (m # ms) ctx = (case m ctx of MwContinue \<Rightarrow> run_before ms ctx | MwStop r \<Rightarrow> Some r)"

definition chain_run :: "middleware_chain \<Rightarrow> request_context \<Rightarrow> (request_context \<Rightarrow> http_response) \<Rightarrow> http_response" where
  "chain_run chain ctx handler =
     (case run_before (chain_before chain) ctx of
        Some r \<Rightarrow> run_after chain ctx r
      | None \<Rightarrow> run_after chain ctx (handler ctx))"

definition security_headers_middleware :: "request_context \<Rightarrow> http_response \<Rightarrow> http_response" where
  "security_headers_middleware ctx r =
     with_header ''Referrer-Policy'' ''strict-origin-when-cross-origin''
       (with_header ''X-Content-Type-Options'' ''nosniff'' r)"

definition no_store_middleware :: "request_context \<Rightarrow> http_response \<Rightarrow> http_response" where
  "no_store_middleware ctx r = with_header ''Cache-Control'' ''no-store'' r"

definition require_session_middleware :: "request_context \<Rightarrow> middleware_result" where
  "require_session_middleware ctx = (if auth_session (ctx_request ctx) \<noteq> None then MwContinue else unauthorized)"

definition require_bearer_middleware :: "request_context \<Rightarrow> middleware_result" where
  "require_bearer_middleware ctx = (if bearer_token (ctx_request ctx) \<noteq> None then MwContinue else unauthorized)"

definition require_signed_session_middleware :: "(bytes \<Rightarrow> bytes \<Rightarrow> bytes) \<Rightarrow> request_context \<Rightarrow> middleware_result" where
  "require_signed_session_middleware mac ctx =
     (case ctx_env ctx of
        None \<Rightarrow> unauthorized
      | Some env \<Rightarrow>
          (case ax_env_secret env ''session_key'' of
             Inl _ \<Rightarrow> unauthorized
           | Inr secret \<Rightarrow> if signed_session mac (ctx_request ctx) secret \<noteq> None then MwContinue else unauthorized))"

definition add_before :: "(request_context \<Rightarrow> middleware_result) \<Rightarrow> middleware_chain \<Rightarrow> middleware_chain" where
  "add_before m c = c\<lparr> chain_before := chain_before c @ [m] \<rparr>"

definition add_after :: "(request_context \<Rightarrow> http_response \<Rightarrow> http_response) \<Rightarrow> middleware_chain \<Rightarrow> middleware_chain" where
  "add_after m c = c\<lparr> chain_after := chain_after c @ [m] \<rparr>"

type_synonym unknown_hook = "middleware_phase \<times> string"

definition try_builtin_hook :: "(bytes \<Rightarrow> bytes \<Rightarrow> bytes) \<Rightarrow> middleware_chain \<Rightarrow> middleware_phase \<Rightarrow> string
    \<Rightarrow> unknown_hook + middleware_chain" where
  "try_builtin_hook mac c phase hook =
     (if phase = PhaseBefore \<and> hook = ''Auth.session'' then Inr (add_before require_session_middleware c)
      else if phase = PhaseBefore \<and> hook = ''Auth.bearer'' then Inr (add_before require_bearer_middleware c)
      else if phase = PhaseBefore \<and> hook = ''Auth.signedSession''
        then Inr (add_before (require_signed_session_middleware mac) c)
      else if hook = ''Security.headers'' then Inr (add_after security_headers_middleware c)
      else if hook = ''Cache.noStore'' then Inr (add_after no_store_middleware c)
      else Inl (phase, hook))"

fun try_builtin_hooks :: "(bytes \<Rightarrow> bytes \<Rightarrow> bytes) \<Rightarrow> middleware_chain \<Rightarrow> (middleware_phase \<times> string) list
    \<Rightarrow> unknown_hook + middleware_chain" where
  "try_builtin_hooks mac c [] = Inr c"
| "try_builtin_hooks mac c ((phase, hook) # hooks) =
     and_then (try_builtin_hook mac c phase hook) (\<lambda>c'. try_builtin_hooks mac c' hooks)"

subsection \<open>Routes\<close>

datatype route_target = TargetHandler "request_context \<Rightarrow> http_response" | TargetResponse http_response

fun target_handle :: "route_target \<Rightarrow> request_context \<Rightarrow> http_response" where
  "target_handle (TargetHandler h) ctx = h ctx"
| "target_handle (TargetResponse r) ctx = r"

record route_definition =
  route_method :: string
  route_path :: string
  route_middleware :: middleware_chain
  route_target_of :: route_target

definition with_builtin_hooks :: "(bytes \<Rightarrow> bytes \<Rightarrow> bytes) \<Rightarrow> (middleware_phase \<times> string) list \<Rightarrow> route_definition
    \<Rightarrow> (string \<times> unknown_hook) + route_definition" where
  "with_builtin_hooks mac hooks d =
     map_err (Pair (route_path d))
       (and_then (try_builtin_hooks mac (route_middleware d) hooks) (\<lambda>c. Inr (d\<lparr> route_middleware := c \<rparr>)))"

definition route_matches :: "route_definition \<Rightarrow> http_request \<Rightarrow> bool" where
  "route_matches d r =
     (eq_ignore_case (route_method d) (req_method r) \<and> request_path_without_query (req_target r) = route_path d)"

definition route_handle :: "route_definition \<Rightarrow> http_request \<Rightarrow> ax_env option \<Rightarrow> http_response" where
  "route_handle d r env =
     chain_run (route_middleware d) \<lparr> ctx_request = r, ctx_route = route_path d, ctx_env = env \<rparr>
       (target_handle (route_target_of d))"

record route_table =
  table_routes :: "route_definition list"
  table_env :: "ax_env option"

definition route_for :: "route_table \<Rightarrow> http_request \<Rightarrow> route_definition option" where
  "route_for t r = List.find (\<lambda>d. route_matches d r) (table_routes t)"

definition table_handle :: "route_table \<Rightarrow> http_request \<Rightarrow> http_response option" where
  "table_handle t r = map_option (\<lambda>d. route_handle d r (table_env t)) (route_for t r)"

definition memory_server_handle :: "route_table \<Rightarrow> http_request \<Rightarrow> http_response" where
  "memory_server_handle t r =
     (case table_handle t r of Some response \<Rightarrow> response | None \<Rightarrow> response_text 404 ''Not Found'')"

subsection \<open>Properties of the parts\<close>

subsubsection \<open>Hexadecimal\<close>

lemma code_div_16 [simp]: "code c div 16 < 16"
  using code_less [of c] by (simp add: less_mult_imp_div_less)

lemma code_split_16 [simp]: "char_of (code c div 16 * 16 + code c mod 16) = c"
  by (simp add: div_mult_mod_eq)

lemma hex_encode_Cons: "hex_encode (c # bs) = nibble_char (code c div 16) # nibble_char (code c mod 16) # hex_encode bs"
  by (simp add: hex_encode_def)

lemma hex_decode_encode: "hex_decode (hex_encode bs) = Some bs"
  by (induction bs) (simp_all add: hex_encode_Cons hex_value_nibble, simp add: hex_encode_def)

lemma hex_encode_alphanumeric: "c \<in> set (hex_encode bs) \<Longrightarrow> is_alphanumeric c"
  by (auto simp: hex_encode_def nibble_alphanumeric)

lemma length_hex_encode [simp]: "length (hex_encode bs) = 2 * length bs"
  by (induction bs) (simp_all add: hex_encode_Cons, simp add: hex_encode_def)

subsubsection \<open>Signed cookies\<close>

lemma find_map_Some: "find_map f xs = Some y \<Longrightarrow> \<exists>x \<in> set xs. f x = Some y"
  by (induction xs) (auto split: option.splits)

lemma signed_cookie_Some:
  assumes "signed_cookie mac r name secret = Some v"
  obtains signature where "cookie_value r name = Some (v @ CHR ''.'' # signature)" "CHR ''.'' \<notin> set signature"
    "hex_decode signature = Some (mac secret v)"
proof -
  from assms obtain cookie sig where c: "cookie_value r name = Some cookie" "rsplit_once (CHR ''.'') cookie = Some (v, sig)"
    and s: "verify_signature mac v sig secret"
    unfolding signed_cookie_def by (auto simp: bind_eq_Some_conv split: if_splits)
  from s have "hex_decode sig = Some (mac secret v)" by (auto simp: verify_signature_def split: option.splits)
  with c that [of sig] show thesis unfolding rsplit_once_Some by blast
qed

lemma alphanumeric_ascii: "is_alphanumeric c \<Longrightarrow> code c < 128 \<and> \<not> is_whitespace (code c)
   \<and> c \<noteq> CHR ''.'' \<and> c \<noteq> CHR '';'' \<and> c \<noteq> CHR ''='' \<and> c \<noteq> CHR 0x0D \<and> c \<noteq> CHR 0x0A"
  by (auto simp: is_alphanumeric_def is_digit_def is_whitespace_def code_def)


definition cookie_safe :: "string \<Rightarrow> bool" where
  "cookie_safe s = (is_ascii s \<and> list_all (\<lambda>c. \<not> is_whitespace (code c) \<and> c \<noteq> CHR '';'') s)"

lemma signed_cookie_complete:
  assumes "name \<noteq> []" and "cookie_safe name" "CHR ''='' \<notin> set name" and "cookie_safe v"
    and "header_value r ''Cookie'' = Some (name @ ''='' @ sign_session mac v secret)"
  shows "signed_cookie mac r name secret = Some v"
proof -
  let ?sig = "hex_encode (mac secret v)"
  let ?c = "name @ ''='' @ sign_session mac v secret"
  have c: "?c = name @ CHR ''='' # (v @ CHR ''.'' # ?sig)" by (simp add: sign_session_def signature_hex_def)
  have sig: "\<And>x. x \<in> set ?sig \<Longrightarrow> is_alphanumeric x" by (rule hex_encode_alphanumeric)
  have a: "is_ascii ?sig" using sig alphanumeric_ascii by (auto simp: is_ascii_def list_all_iff)
  have "cookie_safe ?c"
    using assms(2,4) sig alphanumeric_ascii a unfolding c cookie_safe_def
    by (auto simp: list_all_iff is_whitespace_def code_def)
  then have safe: "is_ascii ?c" "\<And>x. x \<in> set ?c \<Longrightarrow> \<not> is_whitespace (code x) \<and> x \<noteq> CHR '';''"
    by (auto simp: cookie_safe_def list_all_iff)
  have ne: "?c \<noteq> []" by simp
  have "\<not> space_byte x" if "x \<in> set ?c" for x
  proof -
    have "code x < 128" using safe(1) that unfolding is_ascii_def list_all_iff by blast
    then show ?thesis using safe(2) [OF that] unfolding space_byte_def by linarith
  qed
  from this [OF hd_in_set [OF ne]] this [OF last_in_set [OF ne]] have t: "trim ?c = ?c"
    by (intro trim_solid disjI2 conjI)
  have s: "split_on (CHR '';'') ?c = [?c]" by (rule split_on_absent) (use safe(2) in blast)
  have "split_once (CHR ''='') ?c = Some (name, v @ CHR ''.'' # ?sig)"
    unfolding split_once_Some c using assms(3) by simp
  then have "cookie_value r name = Some (v @ CHR ''.'' # ?sig)"
    using assms(5) s t by (simp add: cookie_value_def cookie_pair_def)
  moreover have "rsplit_once (CHR ''.'') (v @ CHR ''.'' # ?sig) = Some (v, ?sig)"
    unfolding rsplit_once_Some using sig alphanumeric_ascii by blast
  ultimately show ?thesis by (simp add: signed_cookie_def verify_signature_def hex_decode_encode)
qed

subsubsection \<open>Rendered cookies\<close>

lemma split_join:
  assumes "d \<notin> set sep" and "\<forall>p \<in> set ps. d \<notin> set p" and "d \<notin> set p"
  shows "split_on d (join_with (d # sep) (p # ps)) = p # map (\<lambda>q. sep @ q) ps"
  using assms(2,3)
proof (induction ps arbitrary: p)
  case Nil
  then show ?case by (simp add: split_on_absent)
next
  case (Cons q qs)
  have "split_on d (join_with (d # sep) (p # q # qs)) = p # split_on d (sep @ join_with (d # sep) (q # qs))"
    using Cons.prems by (simp add: split_on_append)
  also have "split_on d (sep @ join_with (d # sep) (q # qs)) = (sep @ q) # map ((@) sep) qs"
  proof -
    have ih: "split_on d (join_with (d # sep) (q # qs)) = q # map ((@) sep) qs"
      by (rule Cons.IH) (use Cons.prems in auto)
    have "d \<notin> set s \<Longrightarrow> split_on d t = r # rs \<Longrightarrow> split_on d (s @ t) = (s @ r) # rs" for s t r rs
      by (induction s) auto
    from this [OF assms(1) ih] show ?thesis .
  qed
  finally show ?case by simp
qed

lemma sanitize_clean: "c \<in> set (sanitize_cookie_part s) \<Longrightarrow> c \<noteq> CHR '';'' \<and> c \<noteq> CHR 0x0D \<and> c \<noteq> CHR 0x0A"
  by (auto simp: sanitize_cookie_part_def)

lemma show_int_chars: "c \<in> set (show_int i) \<Longrightarrow> is_digit c \<or> c = CHR ''-''"
  using show_nat_digits by (auto simp: show_int_def list_all_iff split: if_splits)

lemma cookie_parts_clean:
  "p \<in> set (cookie_parts c) \<Longrightarrow> x \<in> set p \<Longrightarrow> x \<noteq> CHR '';'' \<and> x \<noteq> CHR 0x0D \<and> x \<noteq> CHR 0x0A"
  by (auto simp: cookie_parts_def attribute_def is_digit_def code_def
      dest!: sanitize_clean show_int_chars split: option.splits if_splits)

lemma cookie_render_split: "split_on (CHR '';'') (cookie_render c) = hd (cookie_parts c) # map ((@) '' '') (tl (cookie_parts c))"
proof -
  obtain p ps where p: "cookie_parts c = p # ps" by (simp add: cookie_parts_def)
  have "split_on (CHR '';'') (join_with ''; '' (p # ps)) = p # map ((@) '' '') ps"
    by (rule split_join) (use cookie_parts_clean [of _ c] p in auto)
  then show ?thesis by (simp add: cookie_render_def p)
qed

subsubsection \<open>URL-encoded fields\<close>

definition percent_encode :: "bytes \<Rightarrow> string" where
  "percent_encode s =
     concat (map (\<lambda>c. if is_alphanumeric c then [c]
                      else [CHR 0x25, nibble_char (code c div 16), nibble_char (code c mod 16)]) s)"

lemma url_decode_percent: "url_decode_bytes (percent_encode s) = s"
proof (induction s)
  case (Cons c s)
  have "is_alphanumeric c \<Longrightarrow> c \<noteq> CHR ''+'' \<and> c \<noteq> CHR 0x25"
    by (auto simp: is_alphanumeric_def is_digit_def code_def)
  with Cons show ?case by (auto simp: percent_encode_def hex_value_nibble)
qed (simp add: percent_encode_def)

lemma url_decode_encode: "utf8_ok s \<Longrightarrow> url_decode (percent_encode s) = s"
  by (simp add: url_decode_def url_decode_percent utf8_lossy_ok)

lemma percent_encode_chars: "c \<in> set (percent_encode s) \<Longrightarrow> c \<noteq> CHR ''&'' \<and> c \<noteq> CHR ''=''"
proof -
  assume "c \<in> set (percent_encode s)"
  then have "is_alphanumeric c \<or> c = CHR 0x25"
    by (auto simp: percent_encode_def nibble_alphanumeric split: if_splits)
  then show ?thesis by (auto simp: is_alphanumeric_def is_digit_def code_def)
qed

definition encode_fields_body :: "(string \<times> string) list \<Rightarrow> string" where
  "encode_fields_body kvs = join_with ''&'' (map (\<lambda>(k, v). percent_encode k @ ''='' @ percent_encode v) kvs)"

lemma urlencoded_field_encode:
  "utf8_ok k \<Longrightarrow> utf8_ok v \<Longrightarrow> urlencoded_field (percent_encode k @ ''='' @ percent_encode v) = Some (k, v)"
proof -
  assume u: "utf8_ok k" "utf8_ok v"
  have "split_once (CHR ''='') (percent_encode k @ CHR ''='' # percent_encode v) = Some (percent_encode k, percent_encode v)"
    unfolding split_once_Some using percent_encode_chars by blast
  with u show ?thesis by (simp add: urlencoded_field_def url_decode_encode)
qed

lemma parse_encoded_fields:
  assumes "list_all (\<lambda>(k, v). utf8_ok k \<and> utf8_ok v) kvs"
  shows "parse_urlencoded_fields (encode_fields_body kvs) = bm_of_list kvs"
proof (cases kvs)
  case Nil
  then show ?thesis by (simp add: parse_urlencoded_fields_def encode_fields_body_def urlencoded_field_def)
next
  case (Cons kv rest)
  let ?e = "\<lambda>(k, v). percent_encode k @ ''='' @ percent_encode v"
  have clean: "CHR ''&'' \<notin> set (?e p)" for p
    using percent_encode_chars by (auto split: prod.splits)
  have "split_on (CHR ''&'') (encode_fields_body kvs) = map ?e kvs"
    using split_join [of "CHR ''&''" "[]" "map ?e rest" "?e kv"] clean
    by (simp add: Cons encode_fields_body_def)
  moreover have "List.map_filter urlencoded_field (map ?e kvs) = kvs"
    using assms by (induction kvs) (auto simp: urlencoded_field_encode [simplified] List.map_filter_simps)
  ultimately show ?thesis by (simp add: parse_urlencoded_fields_def)
qed


subsubsection \<open>Middleware\<close>

lemma run_before_None: "run_before ms ctx = None \<longleftrightarrow> (\<forall>m \<in> set ms. m ctx = MwContinue)"
  by (induction ms) (auto split: middleware_result.splits)

lemma run_before_Some:
  "run_before ms ctx = Some r \<longleftrightarrow>
     (\<exists>i < length ms. (ms ! i) ctx = MwStop r \<and> (\<forall>j < i. (ms ! j) ctx = MwContinue))"
  by (induction ms) (auto simp: Ex_less_Suc2 All_less_Suc2 split: middleware_result.splits)

lemma try_builtin_hooks_before:
  "try_builtin_hooks mac c hooks = Inr c' \<Longrightarrow> set (chain_before c) \<subseteq> set (chain_before c')"
proof (induction mac c hooks rule: try_builtin_hooks.induct)
  case (2 mac c phase hook hooks)
  then obtain c1 where c1: "try_builtin_hook mac c phase hook = Inr c1" "try_builtin_hooks mac c1 hooks = Inr c'"
    by (auto simp: and_then_Inr_iff)
  have "set (chain_before c) \<subseteq> set (chain_before c1)"
    using c1(1) by (auto simp: try_builtin_hook_def add_before_def add_after_def split: if_splits)
  with 2(1) [OF c1(2)] show ?case by auto
qed simp

lemma signed_session_hook_installed:
  "try_builtin_hooks mac c hooks = Inr c' \<Longrightarrow> (PhaseBefore, ''Auth.signedSession'') \<in> set hooks \<Longrightarrow>
   require_signed_session_middleware mac \<in> set (chain_before c')"
proof (induction mac c hooks rule: try_builtin_hooks.induct)
  case (2 mac c phase hook hooks)
  then obtain c1 where c1: "try_builtin_hook mac c phase hook = Inr c1" "try_builtin_hooks mac c1 hooks = Inr c'"
    by (auto simp: and_then_Inr_iff)
  show ?case
  proof (cases "(phase, hook) = (PhaseBefore, ''Auth.signedSession'')")
    case True
    then have "require_signed_session_middleware mac \<in> set (chain_before c1)"
      using c1(1) by (simp add: try_builtin_hook_def add_before_def) auto
    with try_builtin_hooks_before [OF c1(2)] show ?thesis by blast
  next
    case False
    with 2(1) [OF c1(2)] 2(3) show ?thesis by auto
  qed
qed simp

lemma try_builtin_hooks_unknown:
  "try_builtin_hooks mac c hooks = Inl (phase, hook) \<Longrightarrow>
     (phase, hook) \<in> set hooks \<and> hook \<notin> {''Security.headers'', ''Cache.noStore''}
     \<and> (phase = PhaseBefore \<longrightarrow> hook \<notin> {''Auth.session'', ''Auth.bearer'', ''Auth.signedSession''})"
proof (induction mac c hooks rule: try_builtin_hooks.induct)
  case (2 mac c p h hooks)
  then consider "try_builtin_hook mac c p h = Inl (phase, hook)"
    | c1 where "try_builtin_hook mac c p h = Inr c1" "try_builtin_hooks mac c1 hooks = Inl (phase, hook)"
    unfolding try_builtin_hooks.simps and_then_Inl_iff by blast
  then show ?case
  proof cases
    case 1
    then show ?thesis by (simp add: try_builtin_hook_def split: if_splits)
  next
    case (2 c1)
    from "2.IH" [OF 2(2)] show ?thesis by simp
  qed
qed simp

subsubsection \<open>Server-sent events\<close>

lemma split_on_join: "join_with [d] (split_on d s) = s"
proof (induction s)
  case (Cons c cs)
  obtain p ps where p: "split_on d cs = p # ps" by (cases "split_on d cs") auto
  with Cons show ?case by (cases ps) auto
qed simp

lemma strip_cr_absent: "CHR 0x0D \<notin> set s \<Longrightarrow> strip_cr s = s"
  by (auto simp: strip_cr_def strip_suffix_Some split: option.splits)

definition sse_lines :: "string \<Rightarrow> string list" where
  "sse_lines d = str_lines d @ (if ends_with [CHR 0x0A] d then [[]] else [])"

lemma split_on_last: "(last (split_on c s) = []) \<longleftrightarrow> s = [] \<or> last s = c"
proof (induction s)
  case (Cons x cs)
  obtain p ps where p: "split_on c cs = p # ps" by (cases "split_on c cs") auto
  have "cs = []" if "split_on c cs = [[]]" using split_on_join [of c cs] that by simp
  with Cons p show ?case by (cases ps) (auto split: if_splits)
qed simp

lemma ends_with_single: "ends_with [c] s \<longleftrightarrow> s \<noteq> [] \<and> last s = c"
proof -
  have "ends_with [c] s \<longleftrightarrow> (\<exists>r. s = r @ [c])"
    unfolding ends_with_def by (metis not_Some_eq strip_suffix_Some)
  then show ?thesis by (metis append_butlast_last_id last_snoc snoc_eq_iff_butlast)
qed

lemma sse_lines_split:
  assumes "CHR 0x0D \<notin> set d" and "d \<noteq> []"
  shows "sse_lines d = split_on (CHR 0x0A) d"
proof -
  let ?ps = "split_on (CHR 0x0A) d"
  have ne: "?ps \<noteq> []" by simp
  have "map strip_cr (butlast ?ps) = butlast ?ps"
    by (rule map_idI, rule strip_cr_absent) (use assms(1) split_on_pieces in_set_butlastD in fastforce)
  moreover have "(last ?ps = []) = ends_with [CHR 0x0A] d"
    using assms(2) by (simp add: split_on_last ends_with_single)
  ultimately show ?thesis
    using append_butlast_last_id [OF ne]
    by (cases "last ?ps = []") (simp_all add: sse_lines_def str_lines_def Let_def)
qed

lemma sse_render_data: "sse_render \<lparr> sse_name = None, sse_data = d, sse_id = None, sse_retry_ms = None \<rparr>
   = concat (map (sse_field ''data'') (sse_lines d)) @ [CHR 0x0A]"
  by (simp add: sse_render_def sse_lines_def)

subsubsection \<open>File names\<close>

lemma sanitize_client_file_name_ok:
  "sanitize_client_file_name v = Inr f \<Longrightarrow>
     f \<noteq> [] \<and> f \<noteq> ''.'' \<and> f \<noteq> ''..'' \<and> length f \<le> 255 \<and> CHR ''/'' \<notin> set f \<and> CHR 0x5C \<notin> set f
     \<and> list_all (\<lambda>ch. \<not> is_control ch) (chars f)"
proof -
  assume a: "sanitize_client_file_name v = Inr f"
  then have f: "f = trim (last_segment v)" by (auto simp: sanitize_client_file_name_def Let_def split: if_splits)
  have "set (last_segment v) \<subseteq> {c. c \<noteq> CHR ''/'' \<and> c \<noteq> CHR 0x5C}"
    by (auto simp: last_segment_def dest: set_takeWhileD)
  with trim_subset [of "last_segment v"] have "CHR ''/'' \<notin> set f" "CHR 0x5C \<notin> set f" by (auto simp: f)
  with a show ?thesis
    by (auto simp: sanitize_client_file_name_def Let_def has_control_or_def list_ex_iff list_all_iff split: if_splits)
qed

subsection \<open>The claims\<close>

lemma run_before_filter:
  "run_before ms ctx = (case filter (\<lambda>m. m ctx \<noteq> MwContinue) ms of [] \<Rightarrow> None
     | m # _ \<Rightarrow> (case m ctx of MwStop r \<Rightarrow> Some r | MwContinue \<Rightarrow> None))"
  by (induction ms) (auto split: middleware_result.splits list.splits)

text \<open>C13. A signed cookie is read back by the request that carries it, for any value that fits in
  a cookie; and whatever value a request yields, the cookie it came from carries exactly the
  authentication code of that value under the secret.\<close>

theorem signed_cookie_sound_complete:
  assumes "name \<noteq> []" and "cookie_safe name" and "CHR ''='' \<notin> set name" and "cookie_safe v"
  shows "signed_cookie mac (req_with_header ''Cookie'' (name @ ''='' @ sign_session mac v secret)
            (http_request_new meth target)) name secret = Some v
    \<and> (\<forall>r w. signed_cookie mac r name secret = Some w \<longrightarrow>
          (\<exists>signature. cookie_value r name = Some (w @ ''.'' @ signature)
             \<and> hex_decode signature = Some (mac secret w)))"
proof
  show "signed_cookie mac (req_with_header ''Cookie'' (name @ ''='' @ sign_session mac v secret)
            (http_request_new meth target)) name secret = Some v"
    by (rule signed_cookie_complete [OF assms])
      (simp add: header_value_def find_header_def req_with_header_def http_request_new_def)
  show "\<forall>r w. signed_cookie mac r name secret = Some w \<longrightarrow>
          (\<exists>signature. cookie_value r name = Some (w @ ''.'' @ signature)
             \<and> hex_decode signature = Some (mac secret w))"
    by (auto elim!: signed_cookie_Some)
qed

definition demo_mac :: "bytes \<Rightarrow> bytes \<Rightarrow> bytes" where
  "demo_mac key message = take 2 (key @ message)"

lemma signed_cookie_sound_complete_witness:
  "signed_cookie demo_mac (req_with_header ''Cookie'' (''session'' @ ''='' @ sign_session demo_mac ''u1'' ''key'')
     (http_request_new ''GET'' ''/'')) ''session'' ''key'' = Some ''u1''"
  by (rule signed_cookie_sound_complete [THEN conjunct1])
    (simp_all add: cookie_safe_def is_ascii_def code_def is_whitespace_def)

text \<open>A rendered cookie holds no line break, and splitting it at semicolons gives the name-value
  pair and one attribute per policy flag that is set, whatever the name, the value, the path and
  the domain contain: no attribute can be injected.\<close>

theorem cookie_no_injection:
  "set (cookie_render c) \<inter> {CHR 0x0D, CHR 0x0A} = {}
   \<and> split_on (CHR '';'') (cookie_render c) = hd (cookie_parts c) # map (\<lambda>p. '' '' @ p) (tl (cookie_parts c))
   \<and> length (cookie_parts c) = Suc (of_bool (cookie_path c \<noteq> None) + of_bool (cookie_domain c \<noteq> None)
       + of_bool (cookie_max_age c \<noteq> None) + of_bool (cookie_http_only c) + of_bool (cookie_secure c)
       + of_bool (cookie_same_site c \<noteq> None))"
proof (intro conjI)
  show "set (cookie_render c) \<inter> {CHR 0x0D, CHR 0x0A} = {}"
    using set_join_with [of "''; ''" "cookie_parts c"] cookie_parts_clean [of _ c] unfolding cookie_render_def by fastforce
  show "split_on (CHR '';'') (cookie_render c) = hd (cookie_parts c) # map (\<lambda>p. '' '' @ p) (tl (cookie_parts c))"
    by (rule cookie_render_split)
qed (auto simp: cookie_parts_def attribute_def split: option.splits)

text \<open>Fields that were percent-encoded come back from the query of a request unchanged, the last
  one winning where a name repeats.\<close>

theorem urlencoded_roundtrip:
  assumes "list_all (\<lambda>(k, v). utf8_ok k \<and> utf8_ok v) kvs"
  shows "query_fields (http_request_new meth (''/search?'' @ encode_fields_body kvs)) = bm_of_list kvs"
proof -
  have "split_once (CHR 0x3F) (''/search?'' @ encode_fields_body kvs) = Some (''/search'', encode_fields_body kvs)"
    by simp
  with parse_encoded_fields [OF assms] show ?thesis by (simp add: query_fields_def http_request_new_def)
qed

lemma urlencoded_roundtrip_witness:
  "query_fields (http_request_new ''GET'' (''/search?'' @ encode_fields_body [(''q'', ''a&b=c'')])) = [(''q'', ''a&b=c'')]"
  using urlencoded_roundtrip [of "[(''q'', ''a&b=c'')]" "''GET''"]
  by (simp add: utf8_ok_ascii code_def bm_of_list_def)

text \<open>A middleware chain answers with the response of the first before-middleware that stops, in
  the order they were added, or else with the handler's; every after-middleware is then applied
  to that response, in order, also when the chain was stopped.\<close>

theorem middleware_order:
  "chain_run chain ctx handler =
     foldl (\<lambda>r m. m ctx r)
       (case filter (\<lambda>m. m ctx \<noteq> MwContinue) (chain_before chain) of
          [] \<Rightarrow> handler ctx
        | m # _ \<Rightarrow> (case m ctx of MwStop r \<Rightarrow> r | MwContinue \<Rightarrow> handler ctx))
       (chain_after chain)"
proof (cases "filter (\<lambda>m. m ctx \<noteq> MwContinue) (chain_before chain)")
  case (Cons m ms)
  then have "m ctx \<noteq> MwContinue" by (metis (mono_tags) filter_eq_ConsD)
  with Cons show ?thesis
    by (cases "m ctx") (simp_all add: chain_run_def run_after_def run_before_filter)
qed (simp add: chain_run_def run_after_def run_before_filter)

text \<open>C12. Behind the built-in hook \<open>Auth.signedSession\<close> a request without a valid signed session
  gets a response that does not depend on the handler of the route.\<close>

theorem protected_route_hides_handler:
  assumes "with_builtin_hooks mac hooks d = Inr d'" and "(PhaseBefore, ''Auth.signedSession'') \<in> set hooks"
    and "\<forall>e secret. env = Some e \<longrightarrow> ax_env_secret e ''session_key'' = Inr secret \<longrightarrow> signed_session mac r secret = None"
  shows "route_handle (d'\<lparr> route_target_of := t \<rparr>) r env = route_handle d' r env"
proof -
  from assms(1) obtain c where c: "try_builtin_hooks mac (route_middleware d) hooks = Inr c"
    and d': "d' = d\<lparr> route_middleware := c \<rparr>"
    unfolding with_builtin_hooks_def
    by (cases "try_builtin_hooks mac (route_middleware d) hooks") auto
  let ?ctx = "\<lparr> ctx_request = r, ctx_route = route_path d, ctx_env = env \<rparr>"
  have "require_signed_session_middleware mac ?ctx = unauthorized"
    using assms(3) by (auto simp: require_signed_session_middleware_def split: option.splits sum.splits)
  then have "require_signed_session_middleware mac ?ctx \<noteq> MwContinue" by (simp add: unauthorized_def)
  with signed_session_hook_installed [OF c assms(2)] run_before_None [of "chain_before c" ?ctx]
  obtain x where "run_before (chain_before c) ?ctx = Some x" by blast
  then show ?thesis by (simp add: route_handle_def d' chain_run_def)
qed

definition demo_route :: "http_response \<Rightarrow> route_definition" where
  "demo_route r = \<lparr> route_method = ''GET'', route_path = ''/admin'', route_middleware = chain_new,
     route_target_of = TargetResponse r \<rparr>"

definition demo_protected :: "http_response \<Rightarrow> route_definition" where
  "demo_protected r = (demo_route r)\<lparr> route_middleware :=
     add_before (require_signed_session_middleware demo_mac) chain_new \<rparr>"

lemma protected_route_hides_handler_witness:
  "route_handle ((demo_protected (response_text 200 ''secret''))\<lparr> route_target_of := TargetResponse (response_text 200 ''other'') \<rparr>) (http_request_new ''GET'' ''/admin'') None
   = route_handle (demo_protected (response_text 200 ''secret'')) (http_request_new ''GET'' ''/admin'') None"
  by (rule protected_route_hides_handler [of demo_mac "[(PhaseBefore, ''Auth.signedSession'')]"
        "demo_route (response_text 200 ''secret'')"])
    (simp_all add: with_builtin_hooks_def try_builtin_hook_def demo_protected_def demo_route_def)

text \<open>The data of a server-sent event without carriage returns is framed line by line: the data
  fields are the lines of the data, whose concatenation gives it back.\<close>

theorem sse_data_framing:
  assumes "CHR 0x0D \<notin> set d" and "d \<noteq> []"
  shows "sse_render \<lparr> sse_name = None, sse_data = d, sse_id = None, sse_retry_ms = None \<rparr>
      = concat (map (\<lambda>l. ''data: '' @ l @ [CHR 0x0A]) (split_on (CHR 0x0A) d)) @ [CHR 0x0A]
    \<and> join_with [CHR 0x0A] (split_on (CHR 0x0A) d) = d
    \<and> (\<forall>l \<in> set (split_on (CHR 0x0A) d). CHR 0x0A \<notin> set l)"
  using sse_lines_split [OF assms] split_on_join split_on_pieces
  by (auto simp: sse_render_data sse_field_def [abs_def])

lemma sse_data_framing_witness:
  "sse_render \<lparr> sse_name = None, sse_data = ''a'' @ [CHR 0x0A] @ ''b'', sse_id = None, sse_retry_ms = None \<rparr>
    = ''data: a'' @ [CHR 0x0A] @ ''data: b'' @ [CHR 0x0A, CHR 0x0A]"
  using sse_data_framing [of "''a'' @ [CHR 0x0A] @ ''b''"] by simp

text \<open>The id and the name of an event are written without escaping: an id with a line feed adds a
  field of its own, so the rendered bytes are those of an event with another name.\<close>

theorem sse_id_injects_fields:
  "sse_render \<lparr> sse_name = None, sse_data = ''x'', sse_id = Some (''1'' @ [CHR 0x0A] @ ''event: admin''), sse_retry_ms = None \<rparr>
    = sse_render \<lparr> sse_name = Some ''admin'', sse_data = ''x'', sse_id = Some ''1'', sse_retry_ms = None \<rparr>"
  by (simp add: sse_render_def sse_field_def)

text \<open>The server answers with the first route of the table whose method matches without regard to
  case and whose path is the target up to the question mark, and with 404 when there is none.\<close>

theorem route_first_match:
  "memory_server_handle t r =
     (case filter (\<lambda>d. eq_ignore_case (route_method d) (req_method r)
                     \<and> request_path_without_query (req_target r) = route_path d) (table_routes t) of
        [] \<Rightarrow> response_text 404 ''Not Found''
      | d # _ \<Rightarrow> route_handle d r (table_env t))"
proof -
  have "List.find P xs = (case filter P xs of [] \<Rightarrow> None | x # _ \<Rightarrow> Some x)" for P and xs :: "route_definition list"
    by (induction xs) auto
  then show ?thesis
    by (simp add: memory_server_handle_def table_handle_def route_for_def route_matches_def split: list.splits)
qed

end
