(* ===== verification/Json_Contract.thy ===== *)
theory Json_Contract
  imports Ax_Types Http
begin

section \<open>JSON contracts\<close>

text \<open>
  Values that cross the JSON boundary are checked against a type: \<open>validate_json\<close> of
  \<open>axonyx-core/src/ax_types.rs\<close>, the request inputs of \<open>axonyx-runtime/src/input.rs\<close> and the
  responses of an API route (\<open>axonyx-runtime/src/lib.rs\<close>, \<open>native_response.rs\<close>). The parser of
  \<open>serde_json\<close> is an argument; its \<open>Value\<close> is the datatype \<open>json_value\<close>, a number being its text
  (feature \<open>arbitrary_precision\<close>) with the conversions of the crate as a record.
\<close>

datatype json_value =
    JNull
  | JBool bool
  | JNumber string
  | JString string
  | JArray "json_value list"
  | JObject "(string, json_value) bmap"

record json_numbers =
  as_i64 :: "string \<Rightarrow> int option"
  as_u64 :: "string \<Rightarrow> nat option"
  as_f64 :: "string \<Rightarrow> f64 option"
  of_i64 :: "int \<Rightarrow> string"
  of_f64 :: "f64 \<Rightarrow> string option"

fun json_string :: "json_value \<Rightarrow> string option" where
  "json_string (JString s) = Some s"
| "json_string _ = None"

fun json_u64 :: "json_numbers \<Rightarrow> json_value \<Rightarrow> nat option" where
  "json_u64 num (JNumber s) = as_u64 num s"
| "json_u64 num _ = None"

fun json_kind :: "json_numbers \<Rightarrow> json_value \<Rightarrow> string" where
  "json_kind num JNull = ''null''"
| "json_kind num (JBool b) = ''boolean''"
| "json_kind num (JNumber s) = (if as_i64 num s \<noteq> None \<or> as_u64 num s \<noteq> None then ''integer'' else ''number'')"
| "json_kind num (JString s) = ''string''"
| "json_kind num (JArray vs) = ''array''"
| "json_kind num (JObject fs) = ''object''"

record json_error =
  json_path :: string
  json_expected :: string
  json_actual :: string
  json_reason :: string

definition json_failure :: "string \<Rightarrow> string \<Rightarrow> string \<Rightarrow> string \<Rightarrow> json_error + 'a" where
  "json_failure path expected actual reason =
     Inl \<lparr> json_path = path, json_expected = expected, json_actual = actual, json_reason = reason \<rparr>"

fun check_each :: "('a \<Rightarrow> 'e + unit) \<Rightarrow> 'a list \<Rightarrow> 'e + unit" where
  "check_each f [] = Inr ()"
| "check_each f (x # xs) = and_then (f x) (\<lambda>_. check_each f xs)"

definition kind_or_missing :: "json_numbers \<Rightarrow> json_value option \<Rightarrow> string" where
  "kind_or_missing num v = (case v of None \<Rightarrow> ''missing'' | Some v \<Rightarrow> json_kind num v)"

text \<open>The fields of a \<open>FileRef\<close>.\<close>

definition validate_file_ref :: "json_numbers \<Rightarrow> string \<Rightarrow> (string, json_value) bmap \<Rightarrow> json_error + unit" where
  "validate_file_ref num path fs =
     and_then
       (check_each (\<lambda>field.
          (case bm_get fs field of
             Some (JString _) \<Rightarrow> Inr ()
           | v \<Rightarrow> json_failure (path @ ''.'' @ field) ''String'' (kind_or_missing num v)
                    ''required FileRef string field is missing or invalid''))
          [''id'', ''storage'', ''file_name''])
       (\<lambda>_.
         if (case bm_get fs ''size'' of Some v \<Rightarrow> json_u64 num v = None | None \<Rightarrow> True)
         then json_failure (path @ ''.size'') ''Int'' (kind_or_missing num (bm_get fs ''size''))
                ''required FileRef size is missing or invalid''
         else if (case bm_get fs ''content_type'' of Some v \<Rightarrow> v \<noteq> JNull \<and> json_string v = None | None \<Rightarrow> False)
         then json_failure (path @ ''.content_type'') ''Optional<String>'' (kind_or_missing num (bm_get fs ''content_type''))
                ''FileRef content_type must be a string or null''
         else Inr ())"

definition nesting_reason :: string where
  "nesting_reason = ''contract nesting exceeds 64 levels''"

text \<open>
  \<open>validate_json_at\<close>: the source counts the depth up to 64, here \<open>budget\<close> is what is left of it.
\<close>

primrec validate_json_at :: "nat \<Rightarrow> json_numbers \<Rightarrow> data_context \<Rightarrow> ax_type \<Rightarrow> json_value \<Rightarrow> string \<Rightarrow> json_error + unit" where
  "validate_json_at 0 num c ty v path = json_failure path (display_name ty) (json_kind num v) nesting_reason"
| "validate_json_at (Suc budget) num c ty v path =
     (let mismatch = json_failure path (display_name ty) (json_kind num v);
          recurse = validate_json_at budget num c in
      case ty of
        TyString \<Rightarrow> (case v of JString _ \<Rightarrow> Inr () | _ \<Rightarrow> mismatch ''expected a JSON string'')
      | TyNumber \<Rightarrow> (case v of JNumber _ \<Rightarrow> Inr () | _ \<Rightarrow> mismatch ''expected a JSON number'')
      | TyFloat \<Rightarrow> (case v of JNumber _ \<Rightarrow> Inr () | _ \<Rightarrow> mismatch ''expected a JSON number'')
      | TyInt \<Rightarrow>
          (case v of
             JNumber s \<Rightarrow> if as_i64 num s \<noteq> None \<or> as_u64 num s \<noteq> None then Inr () else mismatch ''expected a JSON integer''
           | _ \<Rightarrow> mismatch ''expected a JSON integer'')
      | TyDecimal \<Rightarrow>
          (case v of
             JNumber _ \<Rightarrow> Inr ()
           | JString s \<Rightarrow> if is_valid_decimal s then Inr () else mismatch ''expected a decimal JSON string or number''
           | _ \<Rightarrow> mismatch ''expected a decimal JSON string or number'')
      | TyBool \<Rightarrow> (case v of JBool _ \<Rightarrow> Inr () | _ \<Rightarrow> mismatch ''expected a JSON boolean'')
      | TyBytes \<Rightarrow>
          (case v of
             JArray items \<Rightarrow>
               if list_all (\<lambda>i. case json_u64 num i of Some b \<Rightarrow> b \<le> 255 | None \<Rightarrow> False) items then Inr ()
               else mismatch ''expected an array of byte integers (0..255)''
           | _ \<Rightarrow> mismatch ''expected an array of byte integers (0..255)'')
      | TyFile \<Rightarrow> mismatch ''File is a server-only multipart input and cannot cross a JSON boundary''
      | TyFileRef \<Rightarrow>
          (case v of JObject fs \<Rightarrow> validate_file_ref num path fs | _ \<Rightarrow> mismatch ''expected a FileRef JSON object'')
      | TyJson \<Rightarrow> Inr ()
      | TyUnknown \<Rightarrow> Inr ()
      | TyNever \<Rightarrow> mismatch ''Never cannot have a response value''
      | TyVoid \<Rightarrow> if v = JNull then Inr () else mismatch ''expected null''
      | TyList t \<Rightarrow>
          (case v of
             JArray items \<Rightarrow>
               check_each (\<lambda>(i, x). recurse t x (path @ ''['' @ show_nat i @ '']'')) (enumerate 0 items)
           | _ \<Rightarrow> mismatch ''expected a JSON array'')
      | TySet t \<Rightarrow>
          (case v of
             JArray items \<Rightarrow>
               check_each (\<lambda>(i, x). recurse t x (path @ ''['' @ show_nat i @ '']'')) (enumerate 0 items)
           | _ \<Rightarrow> mismatch ''expected a JSON array'')
      | TyMap k t \<Rightarrow>
          (case v of
             JObject fs \<Rightarrow>
               check_each (\<lambda>(n, x).
                 if \<not> accepts_map_key k n then
                   json_failure (path @ ''.'' @ n) (display_name k) ''object key'' ''map key does not satisfy its declared type''
                 else recurse t x (path @ ''.'' @ n)) fs
           | _ \<Rightarrow> mismatch ''expected a JSON object'')
      | TyOptional t \<Rightarrow> if v = JNull then Inr () else recurse t v path
      | TyResult t u \<Rightarrow>
          (case v of
             JObject fs \<Rightarrow>
               if length fs \<noteq> 1 then mismatch ''expected an object with exactly one Ok or Err field''
               else (case bm_get fs ''Ok'' of
                   Some x \<Rightarrow> recurse t x (path @ ''.Ok'')
                 | None \<Rightarrow>
                     (case bm_get fs ''Err'' of
                        Some x \<Rightarrow> recurse u x (path @ ''.Err'')
                      | None \<Rightarrow> mismatch ''expected an object with exactly one Ok or Err field''))
           | _ \<Rightarrow> mismatch ''expected an object with exactly one Ok or Err field'')
      | TyPublic t \<Rightarrow> recurse t v path
      | TySignal t \<Rightarrow> recurse t v path
      | TySecret t \<Rightarrow> mismatch ''Secret values cannot cross an API boundary''
      | TyResource t u \<Rightarrow> mismatch ''Resource is a runtime state container, not an API response contract''
      | TyRecord name \<Rightarrow>
          (case bm_get (ctx_unions c) name of
             Some literals \<Rightarrow>
               (case v of
                  JString s \<Rightarrow> if s \<in> set literals then Inr () else mismatch ''value is not a member of the declared literal union''
                | _ \<Rightarrow> mismatch ''value is not a member of the declared literal union'')
           | None \<Rightarrow>
               (case bm_get (ctx_records c) name of
                  None \<Rightarrow> json_failure path name (json_kind num v) ''unknown record contract''
                | Some r \<Rightarrow>
                    (case v of
                       JObject fs \<Rightarrow>
                         check_each (\<lambda>(field, t).
                           (case bm_get fs field of
                              None \<Rightarrow>
                                if is_optional t then Inr ()
                                else json_failure (path @ ''.'' @ field) (display_name t) ''missing'' ''required field is missing''
                            | Some x \<Rightarrow> recurse t x (path @ ''.'' @ field))) (record_fields r)
                     | _ \<Rightarrow> mismatch ''expected a JSON object'')))
      | _ \<Rightarrow> (case v of
                JString s \<Rightarrow> if accepts_string_literal ty s then Inr () else mismatch ''expected a valid canonical string value''
              | _ \<Rightarrow> mismatch ''expected a valid canonical string value''))"

definition validate_json :: "json_numbers \<Rightarrow> data_context \<Rightarrow> ax_type \<Rightarrow> json_value \<Rightarrow> json_error + unit" where
  "validate_json num c ty v = validate_json_at 65 num c ty v ''$''"

subsection \<open>Record inputs of a request\<close>

definition json_field_value :: "(bytes \<Rightarrow> json_value option) \<Rightarrow> http_request \<Rightarrow> string \<Rightarrow> json_value option" where
  "json_field_value parse_json r name =
     (case parse_json (req_body r) of Some (JObject fs) \<Rightarrow> bm_get fs name | _ \<Rightarrow> None)"

fun json_field_string :: "(json_value \<Rightarrow> string) \<Rightarrow> json_value \<Rightarrow> string" where
  "json_field_string show_json JNull = []"
| "json_field_string show_json (JBool b) = (if b then ''true'' else ''false'')"
| "json_field_string show_json (JNumber s) = s"
| "json_field_string show_json (JString s) = s"
| "json_field_string show_json v = show_json v"

text \<open>\<open>project\<close>: the declared part of a valid value, in the order of the declaration.\<close>

lemma size_bm_json: "bm_get fs n = Some (v::json_value) \<Longrightarrow> size v < Suc (size_list (size_prod (\<lambda>_. 0) size) fs)"
proof -
  assume "bm_get fs n = Some v"
  then have "(n, v) \<in> set fs" by (rule bm_get_mem)
  then show ?thesis by (induction fs) auto
qed

lemma size_pair_json: "(n, v::json_value) \<in> set fs \<Longrightarrow> size v < Suc (size_list (size_prod (\<lambda>_. 0) size) fs)"
  by (induction fs) auto

definition field_or_null :: "(string, json_value) bmap \<Rightarrow> string \<Rightarrow> json_value" where
  "field_or_null fs n = (case bm_get fs n of Some v \<Rightarrow> v | None \<Rightarrow> JNull)"

lemma size_field_or_null: "size (field_or_null fs n) < Suc (size_list (size_prod (\<lambda>_. 0) size) fs)"
  using size_bm_json [of fs n] by (auto simp: field_or_null_def split: option.splits)

function project :: "json_numbers \<Rightarrow> data_context \<Rightarrow> ax_type \<Rightarrow> json_value \<Rightarrow> json_value option" where
  "project num c ty v =
     (case ty of
        TyRecord name \<Rightarrow>
          (case (v, bm_get (ctx_records c) name) of
             (JObject fs, Some r) \<Rightarrow>
               map_option (\<lambda>kvs. JObject (bm_of_list kvs))
                 (opt_map (\<lambda>(n, t). map_option (Pair n) (project num c t (field_or_null fs n))) (record_fields r))
           | _ \<Rightarrow> if bm_get (ctx_unions c) name \<noteq> None then Some v else None)
      | TyOptional t \<Rightarrow> if v = JNull then Some JNull else project num c t v
      | TyList t \<Rightarrow>
          (case v of
             JArray items \<Rightarrow> map_option JArray (opt_map (\<lambda>x. project num c t x) items)
           | _ \<Rightarrow> None)
      | TyInt \<Rightarrow>
          (case v of JNumber s \<Rightarrow> map_option (\<lambda>i. JNumber (of_i64 num i)) (as_i64 num s) | _ \<Rightarrow> None)
      | TyFloat \<Rightarrow>
          (case v of JNumber s \<Rightarrow> map_option JNumber (Option.bind (as_f64 num s) (of_f64 num)) | _ \<Rightarrow> None)
      | TyNumber \<Rightarrow>
          (case v of JNumber s \<Rightarrow> map_option JNumber (Option.bind (as_f64 num s) (of_f64 num)) | _ \<Rightarrow> None)
      | TyMap k t \<Rightarrow>
          (case v of
             JObject fs \<Rightarrow>
               map_option (\<lambda>kvs. JObject (bm_of_list kvs)) (opt_map (\<lambda>(n, x). map_option (Pair n) (project num c t x)) fs)
           | _ \<Rightarrow> None)
      | TyString \<Rightarrow> Some v
      | TyBool \<Rightarrow> Some v
      | TyDateTime \<Rightarrow> Some v
      | TyDate \<Rightarrow> Some v
      | TyTime \<Rightarrow> Some v
      | TyUuid \<Rightarrow> Some v
      | _ \<Rightarrow> None)"
  by pat_completeness auto
termination
  by (relation "inv_image (less_than <*lex*> less_than) (\<lambda>(num, c, t, v). (size v, size t))")
    (auto simp: less_Suc_eq_le size_list_estimation' size_field_or_null [unfolded less_Suc_eq_le] dest: size_pair_json)

declare project.simps [simp del]

definition json_media_type :: "http_request \<Rightarrow> bool" where
  "json_media_type r =
     (case header_value r ''Content-Type'' of
        None \<Rightarrow> False
      | Some v \<Rightarrow> eq_ignore_case (trim (hd (split_on (CHR '';'') v))) ''application/json'')"

definition decode_record :: "(bytes \<Rightarrow> json_value option) \<Rightarrow> json_numbers \<Rightarrow> http_request option \<Rightarrow> string option
    \<Rightarrow> string \<Rightarrow> string \<Rightarrow> data_context \<Rightarrow> rt_error + json_value" where
  "decode_record parse_json num request explicit field contract c =
     (let invalid = RtInvalidInput field;
          found =
            (case explicit of
               Some raw \<Rightarrow> parse_json raw
             | None \<Rightarrow>
                 (case request of
                    None \<Rightarrow> None
                  | Some r \<Rightarrow>
                      if json_media_type r then json_field_value parse_json r field
                      else (case form_value r field of None \<Rightarrow> None | Some raw \<Rightarrow> parse_json raw))) in
      case found of
        None \<Rightarrow> Inl invalid
      | Some v \<Rightarrow>
          (case validate_json num c (TyRecord contract) v of
             Inl _ \<Rightarrow> Inl invalid
           | Inr _ \<Rightarrow> ok_or invalid (project num c (TyRecord contract) v)))"

end
