(* ===== verification/Native.thy ===== *)
theory Native
  imports Json_Contract
begin

section \<open>Native callbacks and binary responses\<close>

text \<open>
  \<open>axonyx-runtime/src/native.rs\<close> (the registry of Rust callbacks with their limits),
  \<open>native_response.rs\<close> (binary responses) and the API response checks of \<open>lib.rs\<close>. A callback of the
  application and the serialization of its types are arguments of the definitions that register it;
  a serialization is the list of chunks it writes and whether it reaches its end.
\<close>

subsection \<open>Binary responses\<close>

definition max_native_binary_bytes :: nat where
  "max_native_binary_bytes = 8 * 1024 * 1024"

datatype native_binary_type = BinaryPng | BinaryJpeg | BinaryOctetStream

datatype native_response_error = NativeForbidden | NativeNotFound | NativeUnavailable

record native_binary =
  nb_kind :: native_binary_type
  nb_bytes :: bytes

definition native_binary_new :: "native_binary_type \<Rightarrow> bytes \<Rightarrow> native_response_error + native_binary" where
  "native_binary_new kind bs =
     (if bs = [] \<or> max_native_binary_bytes < length bs then Inl NativeUnavailable
      else Inr \<lparr> nb_kind = kind, nb_bytes = bs \<rparr>)"

definition private_headers :: "http_response \<Rightarrow> http_response" where
  "private_headers r =
     with_header ''Cross-Origin-Resource-Policy'' ''same-origin''
       (with_header ''X-Content-Type-Options'' ''nosniff'' (with_header ''Cache-Control'' ''private, no-store'' r))"

fun private_error :: "native_response_error \<Rightarrow> http_response" where
  "private_error NativeForbidden = private_headers (response_text 403 ''forbidden'')"
| "private_error NativeNotFound = private_headers (response_text 404 ''not found'')"
| "private_error NativeUnavailable = private_headers (response_text 500 ''binary response unavailable'')"

definition native_into_response :: "nat \<Rightarrow> native_binary \<Rightarrow> http_response" where
  "native_into_response limit b =
     (if limit < length (nb_bytes b) then private_error NativeUnavailable
      else with_header ''Content-Disposition''
        (case nb_kind b of BinaryOctetStream \<Rightarrow> ''attachment'' | _ \<Rightarrow> ''inline'')
        (private_headers (http_response_new 200
          (case nb_kind b of BinaryPng \<Rightarrow> ''image/png'' | BinaryJpeg \<Rightarrow> ''image/jpeg''
            | BinaryOctetStream \<Rightarrow> ''application/octet-stream'') (nb_bytes b))))"

definition private_binary_failure :: http_response where
  "private_binary_failure = private_error NativeUnavailable"

subsection \<open>API responses\<close>

datatype api_response_error =
    InvalidBinaryResponse
  | InvalidContract string string
  | NonJsonResponse string string
  | InvalidJson string string
  | ContractMismatch string json_error

datatype validation_mode = ValidationOff | ValidationDevelopment | ValidationAlways

definition validation_mode_parse :: "string \<Rightarrow> validation_mode option" where
  "validation_mode_parse v =
     (let v = to_lower (trim v) in
      if v = ''off'' then Some ValidationOff
      else if v = ''development'' then Some ValidationDevelopment
      else if v = ''always'' then Some ValidationAlways
      else None)"

fun validation_mode_label :: "validation_mode \<Rightarrow> string" where
  "validation_mode_label ValidationOff = ''off''"
| "validation_mode_label ValidationDevelopment = ''development''"
| "validation_mode_label ValidationAlways = ''always''"

definition validation_enabled :: "validation_mode \<Rightarrow> bool \<Rightarrow> bool" where
  "validation_enabled mode development =
     (mode = ValidationAlways \<or> development \<and> mode = ValidationDevelopment)"

definition is_success :: "nat \<Rightarrow> bool" where
  "is_success status = (200 \<le> status \<and> status < 300)"

definition binary_media_types :: "string list" where
  "binary_media_types = [''image/png'', ''image/jpeg'', ''application/octet-stream'']"

text \<open>The size of a body, if it fits a 64-bit \<open>usize\<close>.\<close>

definition body_size :: "ax_body \<Rightarrow> nat option" where
  "body_size b = (if body_len b < 2 ^ 64 then Some (body_len b) else None)"

definition validate_private_binary_response :: "http_response \<Rightarrow> api_response_error + unit" where
  "validate_private_binary_response r =
     (if \<not> is_success (res_status r) then Inr ()
      else if res_status r \<noteq> 200
        \<or> (case body_size (res_body r) of None \<Rightarrow> True | Some n \<Rightarrow> n < 1 \<or> max_native_binary_bytes < n)
        \<or> res_content_type r \<notin> set binary_media_types
        \<or> response_header_value r ''Cache-Control'' \<noteq> Some ''private, no-store''
        \<or> response_header_value r ''X-Content-Type-Options'' \<noteq> Some ''nosniff''
        \<or> res_set_cookies r \<noteq> []
      then Inl InvalidBinaryResponse
      else Inr ())"

definition finalize_private_binary_response :: "http_response \<Rightarrow> http_response" where
  "finalize_private_binary_response r =
     (if res_status r \<noteq> 200 then
        private_error (if res_status r = 403 then NativeForbidden
          else if res_status r = 404 then NativeNotFound else NativeUnavailable)
      else (let r = private_headers (r\<lparr> res_set_cookies := [] \<rparr>) in
        case validate_private_binary_response r of
          Inl _ \<Rightarrow> private_binary_failure
        | Inr _ \<Rightarrow> r))"

definition is_json_content_type :: "string \<Rightarrow> bool" where
  "is_json_content_type content_type =
     (let media_type = trim (hd (split_on (CHR '';'') content_type)) in
      eq_ignore_case media_type ''application/json'' \<or> ends_with ''+json'' (to_lower media_type))"

definition is_api_type_identifier :: "string \<Rightarrow> bool" where
  "is_api_type_identifier s =
     (case s of
        [] \<Rightarrow> False
      | c # cs \<Rightarrow> (is_alphanumeric c \<and> \<not> is_digit c \<or> c = CHR ''_'')
          \<and> list_all (\<lambda>d. is_alphanumeric d \<or> d = CHR ''_'') cs)"

definition parse_api_type_name :: "string \<Rightarrow> api_response_error + ax_type" where
  "parse_api_type_name s =
     (if s = ''String'' \<or> s = ''string'' then Inr TyString
      else if s \<in> set [''Bool'', ''Boolean'', ''bool'', ''boolean''] then Inr TyBool
      else if s \<in> set [''Number'', ''number'', ''f64'', ''float''] then Inr TyNumber
      else if s \<in> set [''i64'', ''u64'', ''int'', ''integer''] then Inr TyInt
      else if s = ''Json'' then Inr TyJson
      else if s = ''Null'' then Inr TyVoid
      else if is_api_type_identifier s then Inr (TyRecord s)
      else Inl (InvalidContract s ''expected a built-in type, named type, List<T>, Optional<T>, or T[]''))"

definition strip_wrapper :: "string \<Rightarrow> string \<Rightarrow> string option" where
  "strip_wrapper wrapper s = Option.bind (strip_prefix (wrapper @ ''<'') s) (strip_suffix ''>'')"

lemma strip_wrapper_length: "strip_wrapper w s = Some r \<Longrightarrow> length r < length s"
  by (auto simp: strip_wrapper_def strip_prefix_Some strip_suffix_Some bind_eq_Some_conv)

function parse_api_return_contract :: "string \<Rightarrow> api_response_error + ax_type" where
  "parse_api_return_contract text0 =
     (let contract = trim text0 in
      case strip_suffix ''?'' contract of
        Some inner \<Rightarrow>
          if trim inner = [] then Inl (InvalidContract contract ''optional shorthand requires an inner type'')
          else (case parse_api_return_contract inner of Inl e \<Rightarrow> Inl e | Inr t \<Rightarrow> Inr (ty_optional t))
      | None \<Rightarrow>
     (case strip_suffix ''[]'' contract of
        Some inner \<Rightarrow> (case parse_api_return_contract inner of Inl e \<Rightarrow> Inl e | Inr t \<Rightarrow> Inr (TyList t))
      | None \<Rightarrow>
     (case strip_wrapper ''List'' contract of
        Some inner \<Rightarrow> (case parse_api_return_contract inner of Inl e \<Rightarrow> Inl e | Inr t \<Rightarrow> Inr (TyList t))
      | None \<Rightarrow>
     (case strip_wrapper ''Optional'' contract of
        Some inner \<Rightarrow> (case parse_api_return_contract inner of Inl e \<Rightarrow> Inl e | Inr t \<Rightarrow> Inr (ty_optional t))
      | None \<Rightarrow> parse_api_type_name contract))))"
  by pat_completeness auto
termination
  by (relation "measure length")
    (auto intro: trim_shorter dest: strip_suffix_length strip_wrapper_length)

declare parse_api_return_contract.simps [simp del]

definition validate_api_response_bytes :: "(bytes \<Rightarrow> string + json_value) \<Rightarrow> json_numbers \<Rightarrow> nat \<Rightarrow> string \<Rightarrow> bytes
    \<Rightarrow> string \<Rightarrow> data_context \<Rightarrow> api_response_error + unit" where
  "validate_api_response_bytes parse num status content_type body contract c =
     (if trim contract = ''Binary'' then
        (if \<not> is_success status then Inr ()
         else if status \<noteq> 200 \<or> body = [] \<or> max_native_binary_bytes < length body
           \<or> content_type \<notin> set binary_media_types then Inl InvalidBinaryResponse
         else Inr ())
      else if \<not> is_success status \<or> status = 204 then Inr ()
      else if \<not> is_json_content_type content_type then Inl (NonJsonResponse contract content_type)
      else (case parse_api_return_contract contract of
          Inl e \<Rightarrow> Inl e
        | Inr expected \<Rightarrow>
            (case parse body of
               Inl message \<Rightarrow> Inl (InvalidJson contract message)
             | Inr v \<Rightarrow> map_err (ContractMismatch contract) (validate_json num c expected v))))"

subsection \<open>The registry of callbacks\<close>

record native_limits =
  lim_input_bytes :: nat
  lim_output_bytes :: nat
  lim_depth :: nat
  lim_nodes :: nat

definition default_native_limits :: native_limits where
  "default_native_limits = \<lparr> lim_input_bytes = 64 * 1024, lim_output_bytes = 64 * 1024, lim_depth = 32, lim_nodes = 8192 \<rparr>"

datatype native_error =
    InvalidRegistration | DuplicateRegistration | UnknownFunction | InvalidNativeInput | InvalidNativeOutput
  | NativeRejected | PayloadLimit

record native_registry =
  reg_limits :: native_limits
  reg_functions :: "(string, json_value \<Rightarrow> native_limits \<Rightarrow> native_error + json_value) bmap"
  reg_private :: "(string, string \<Rightarrow> json_value \<Rightarrow> native_error + http_response) bmap"
  reg_public :: "(string, json_value \<Rightarrow> native_error + http_response) bmap"

definition native_registry_new :: "native_limits \<Rightarrow> native_registry" where
  "native_registry_new l = \<lparr> reg_limits = l, reg_functions = [], reg_private = [], reg_public = [] \<rparr>"

text \<open>\<open>is_native_function_name\<close> of \<open>axonyx-core/src/ax_native.rs\<close>.\<close>

definition native_segment :: "string \<Rightarrow> bool" where
  "native_segment s =
     (case s of
        [] \<Rightarrow> False
      | c # cs \<Rightarrow> (is_alphanumeric c \<and> \<not> is_digit c \<or> c = CHR ''_'')
          \<and> list_all (\<lambda>d. is_alphanumeric d \<or> d = CHR ''_'') cs)"

definition is_native_function_name :: "string \<Rightarrow> bool" where
  "is_native_function_name name =
     (name \<noteq> [] \<and> length name \<le> 128 \<and> list_all native_segment (split_on (CHR ''.'') name))"

definition contains_name :: "native_registry \<Rightarrow> string \<Rightarrow> bool" where
  "contains_name r name = (bm_get (reg_functions r) name \<noteq> None \<or> bm_get (reg_private r) name \<noteq> None
     \<or> bm_get (reg_public r) name \<noteq> None)"

text \<open>\<open>check_shape\<close>: the pending values with their depth, the next one first.\<close>

function shape_from :: "native_limits \<Rightarrow> nat \<Rightarrow> (json_value \<times> nat) list \<Rightarrow> native_error + unit" where
  "shape_from l nodes [] = Inr ()"
| "shape_from l nodes ((v, depth) # stack) =
     (if lim_depth l < depth \<or> lim_nodes l \<le> nodes then Inl PayloadLimit
      else (let children = (case v of JArray vs \<Rightarrow> vs | JObject fs \<Rightarrow> map snd fs | _ \<Rightarrow> []) in
        if lim_nodes l - (nodes + 1 + length stack) < length children then Inl PayloadLimit
        else shape_from l (nodes + 1) (rev (map (\<lambda>x. (x, depth + 1)) children) @ stack)))"
  by pat_completeness auto
termination
  by (relation "measure (\<lambda>(l, nodes, stack). lim_nodes l - nodes)") auto

definition check_shape :: "json_value \<Rightarrow> native_limits \<Rightarrow> native_error + unit" where
  "check_shape v l = shape_from l 0 [(v, 1)]"

text \<open>\<open>BoundedWriter\<close> and \<open>encode\<close>.\<close>

fun write_bounded :: "nat \<Rightarrow> bytes \<Rightarrow> bytes list \<Rightarrow> bytes option" where
  "write_bounded limit written [] = Some written"
| "write_bounded limit written (chunk # chunks) =
     (if limit - length written < length chunk then None else write_bounded limit (written @ chunk) chunks)"

type_synonym 'a serializer = "'a \<Rightarrow> bytes list \<times> bool"

definition native_encode :: "'a serializer \<Rightarrow> 'a \<Rightarrow> nat \<Rightarrow> native_error \<Rightarrow> native_error + bytes" where
  "native_encode ser v limit invalid =
     (case ser v of (chunks, finished) \<Rightarrow>
        (case write_bounded limit [] chunks of
           None \<Rightarrow> Inl PayloadLimit
         | Some bs \<Rightarrow> if finished then Inr bs else Inl invalid))"

text \<open>The closure that \<open>register\<close> stores.\<close>

definition native_callback :: "(json_value \<Rightarrow> 'i option) \<Rightarrow> ('i \<Rightarrow> 'e + 'o) \<Rightarrow> 'o serializer \<Rightarrow> (bytes \<Rightarrow> 'o option)
    \<Rightarrow> (bytes \<Rightarrow> json_value option) \<Rightarrow> json_value \<Rightarrow> native_limits \<Rightarrow> native_error + json_value" where
  "native_callback from_value function0 ser from_bytes parse_json v l =
     and_then (ok_or InvalidNativeInput (from_value v)) (\<lambda>input.
     and_then (map_err (\<lambda>_. NativeRejected) (function0 input)) (\<lambda>output.
     and_then (native_encode ser output (lim_output_bytes l) InvalidNativeOutput) (\<lambda>bs.
     and_then (ok_or InvalidNativeOutput (from_bytes bs)) (\<lambda>_.
     and_then (ok_or InvalidNativeOutput (parse_json bs)) (\<lambda>w.
     and_then (check_shape w l) (\<lambda>_. Inr w))))))"

text \<open>The closure of a binary response: the result of the callback, never its error text.\<close>

definition response_callback :: "(json_value \<Rightarrow> 'i option) \<Rightarrow> ('i \<Rightarrow> native_response_error + native_binary) \<Rightarrow> nat
    \<Rightarrow> json_value \<Rightarrow> native_error + http_response" where
  "response_callback from_value function0 max_bytes v =
     and_then (ok_or InvalidNativeInput (from_value v)) (\<lambda>input.
       Inr (case function0 input of
              Inr b \<Rightarrow> native_into_response max_bytes b
            | Inl e \<Rightarrow> private_error e))"

definition native_register :: "string \<Rightarrow> (json_value \<Rightarrow> native_limits \<Rightarrow> native_error + json_value) \<Rightarrow> native_registry
    \<Rightarrow> native_error + native_registry" where
  "native_register name callback r =
     (if \<not> is_native_function_name name then Inl InvalidRegistration
      else if contains_name r name then Inl DuplicateRegistration
      else Inr (r\<lparr> reg_functions := bm_insert name callback (reg_functions r) \<rparr>))"

definition register_private_response :: "string \<Rightarrow> nat \<Rightarrow> (string \<Rightarrow> json_value \<Rightarrow> native_error + http_response) \<Rightarrow> native_registry
    \<Rightarrow> native_error + native_registry" where
  "register_private_response name max_bytes callback r =
     (if \<not> is_native_function_name name \<or> max_bytes = 0 \<or> max_native_binary_bytes < max_bytes then Inl InvalidRegistration
      else if contains_name r name then Inl DuplicateRegistration
      else Inr (r\<lparr> reg_private := bm_insert name callback (reg_private r) \<rparr>))"

definition register_public_response :: "string \<Rightarrow> nat \<Rightarrow> (json_value \<Rightarrow> native_error + http_response) \<Rightarrow> native_registry
    \<Rightarrow> native_error + native_registry" where
  "register_public_response name max_bytes callback r =
     (if \<not> is_native_function_name name \<or> max_bytes = 0 \<or> max_native_binary_bytes < max_bytes then Inl InvalidRegistration
      else if contains_name r name then Inl DuplicateRegistration
      else Inr (r\<lparr> reg_public := bm_insert name callback (reg_public r) \<rparr>))"

definition admit_input :: "json_value serializer \<Rightarrow> native_registry \<Rightarrow> json_value \<Rightarrow> native_error + unit" where
  "admit_input ser r input =
     and_then (check_shape input (reg_limits r)) (\<lambda>_.
     and_then (native_encode ser input (lim_input_bytes (reg_limits r)) InvalidNativeInput) (\<lambda>_. Inr ()))"

definition private_response :: "json_value serializer \<Rightarrow> native_registry \<Rightarrow> string \<Rightarrow> string \<Rightarrow> json_value \<Rightarrow> native_error + http_response" where
  "private_response ser r subject name input =
     and_then (ok_or UnknownFunction (bm_get (reg_private r) name)) (\<lambda>callback.
     and_then (admit_input ser r input) (\<lambda>_. callback subject input))"

definition public_response :: "json_value serializer \<Rightarrow> native_registry \<Rightarrow> string \<Rightarrow> json_value \<Rightarrow> native_error + http_response" where
  "public_response ser r name input =
     and_then (ok_or UnknownFunction (bm_get (reg_public r) name)) (\<lambda>callback.
     and_then (admit_input ser r input) (\<lambda>_. callback input))"

definition native_call :: "json_value serializer \<Rightarrow> native_registry \<Rightarrow> string \<Rightarrow> json_value \<Rightarrow> native_error + json_value" where
  "native_call ser r name input =
     and_then (ok_or UnknownFunction (bm_get (reg_functions r) name)) (\<lambda>callback.
     and_then (admit_input ser r input) (\<lambda>_. callback input (reg_limits r)))"

end
