(* ===== verification/Json_Correct.thy ===== *)
theory Json_Correct
  imports Json_Contract
begin

section \<open>What the JSON contracts promise\<close>

text \<open>
  \<open>json_type\<close>, the JSON values of a type, is the specification of the validator; \<open>exact_json\<close> that of the
  decoded inputs, whose records have the declared fields and no others.
\<close>

subsection \<open>Values of a contract\<close>

fun json_file_ref :: "json_numbers \<Rightarrow> json_value \<Rightarrow> bool" where
  "json_file_ref num (JObject fs) =
     ((\<forall>n \<in> {''id'', ''storage'', ''file_name''}. case bm_get fs n of Some (JString _) \<Rightarrow> True | _ \<Rightarrow> False)
      \<and> (case bm_get fs ''size'' of Some v \<Rightarrow> json_u64 num v \<noteq> None | None \<Rightarrow> False)
      \<and> (case bm_get fs ''content_type'' of Some (JString _) \<Rightarrow> True | Some JNull \<Rightarrow> True | None \<Rightarrow> True | _ \<Rightarrow> False))"
| "json_file_ref num _ = False"

function json_type :: "json_numbers \<Rightarrow> data_context \<Rightarrow> ax_type \<Rightarrow> json_value \<Rightarrow> bool" where
  "json_type num c ty v =
     (case ty of
        TyString \<Rightarrow> (case v of JString _ \<Rightarrow> True | _ \<Rightarrow> False)
      | TyNumber \<Rightarrow> (case v of JNumber _ \<Rightarrow> True | _ \<Rightarrow> False)
      | TyFloat \<Rightarrow> (case v of JNumber _ \<Rightarrow> True | _ \<Rightarrow> False)
      | TyInt \<Rightarrow> (case v of JNumber s \<Rightarrow> as_i64 num s \<noteq> None \<or> as_u64 num s \<noteq> None | _ \<Rightarrow> False)
      | TyDecimal \<Rightarrow> (case v of JNumber _ \<Rightarrow> True | JString s \<Rightarrow> is_valid_decimal s | _ \<Rightarrow> False)
      | TyBool \<Rightarrow> (case v of JBool _ \<Rightarrow> True | _ \<Rightarrow> False)
      | TyBytes \<Rightarrow>
          (case v of JArray items \<Rightarrow> list_all (\<lambda>i. case json_u64 num i of Some b \<Rightarrow> b \<le> 255 | None \<Rightarrow> False) items | _ \<Rightarrow> False)
      | TyFile \<Rightarrow> False
      | TyFileRef \<Rightarrow> json_file_ref num v
      | TyJson \<Rightarrow> True
      | TyUnknown \<Rightarrow> True
      | TyNever \<Rightarrow> False
      | TyVoid \<Rightarrow> v = JNull
      | TyList t \<Rightarrow> (case v of JArray items \<Rightarrow> \<forall>x \<in> set items. json_type num c t x | _ \<Rightarrow> False)
      | TySet t \<Rightarrow> (case v of JArray items \<Rightarrow> \<forall>x \<in> set items. json_type num c t x | _ \<Rightarrow> False)
      | TyMap k t \<Rightarrow>
          (case v of JObject fs \<Rightarrow> \<forall>p \<in> set fs. accepts_map_key k (fst p) \<and> json_type num c t (snd p) | _ \<Rightarrow> False)
      | TyOptional t \<Rightarrow> v = JNull \<or> json_type num c t v
      | TyResult t u \<Rightarrow>
          (case v of JObject [(n, x)] \<Rightarrow> n = ''Ok'' \<and> json_type num c t x \<or> n = ''Err'' \<and> json_type num c u x | _ \<Rightarrow> False)
      | TyPublic t \<Rightarrow> json_type num c t v
      | TySignal t \<Rightarrow> json_type num c t v
      | TySecret t \<Rightarrow> False
      | TyResource t u \<Rightarrow> False
      | TyRecord name \<Rightarrow>
          (case bm_get (ctx_unions c) name of
             Some literals \<Rightarrow> (case v of JString s \<Rightarrow> s \<in> set literals | _ \<Rightarrow> False)
           | None \<Rightarrow>
               (case (bm_get (ctx_records c) name, v) of
                  (Some r, JObject fs) \<Rightarrow>
                    \<forall>p \<in> set (record_fields r).
                      (case bm_get fs (fst p) of None \<Rightarrow> is_optional (snd p) | Some x \<Rightarrow> json_type num c (snd p) x)
                | _ \<Rightarrow> False))
      | _ \<Rightarrow> (case v of JString s \<Rightarrow> accepts_string_literal ty s | _ \<Rightarrow> False))"
  by pat_completeness auto
termination
  by (relation "inv_image (less_than <*lex*> less_than) (\<lambda>(num, c, t, v). (size v, size t))")
    (auto simp: less_Suc_eq_le size_list_estimation' dest: size_pair_json size_bm_json intro: size_list_estimation')

declare json_type.simps [simp del]

subsection \<open>The validator is exact\<close>

text \<open>What a validation says about a value being of a type: it is, it is not, or it is too deep to know.\<close>

definition settles :: "json_error + unit \<Rightarrow> bool \<Rightarrow> bool" where
  "settles r typed = (case r of Inr _ \<Rightarrow> typed | Inl e \<Rightarrow> json_reason e = nesting_reason \<or> \<not> typed)"

lemma settles_simps [simp]:
  "settles (Inr u) P = P"
  "settles (json_failure a b d reason) P = (reason = nesting_reason \<or> \<not> P)"
  by (simp_all add: settles_def json_failure_def)

lemma settles_each:
  assumes "\<And>x. x \<in> set xs \<Longrightarrow> settles (f x) (P x)"
  shows "settles (check_each f xs) (\<forall>x \<in> set xs. P x)"
  using assms
proof (induction xs)
  case (Cons x xs)
  then have "settles (f x) (P x)" "settles (check_each f xs) (\<forall>x \<in> set xs. P x)" by simp_all
  then show ?case by (cases "f x") (auto simp: settles_def split: sum.splits)
qed simp

lemma settles_indexed:
  assumes "\<And>i x. x \<in> set xs \<Longrightarrow> settles (f i x) (P x)"
  shows "settles (check_each (\<lambda>(i, x). f i x) (enumerate n xs)) (\<forall>x \<in> set xs. P x)"
proof -
  have "settles (check_each (\<lambda>(i, x). f i x) (enumerate n xs)) (\<forall>p \<in> set (enumerate n xs). P (snd p))"
    by (rule settles_each) (use assms in \<open>auto simp: in_set_enumerate_eq\<close>)
  moreover have "(\<forall>p \<in> set (enumerate n xs). P (snd p)) = (\<forall>x \<in> set xs. P x)"
    by (induction xs arbitrary: n) simp_all
  ultimately show ?thesis by simp
qed

lemma settles_and: "settles m P \<Longrightarrow> settles (f ()) Q \<Longrightarrow> settles (and_then m f) (P \<and> Q)"
  by (cases m) (auto simp: settles_def split: sum.splits)

lemma settles_file_ref: "settles (validate_file_ref num path fs) (json_file_ref num (JObject fs))"
proof -
  let ?str = "\<lambda>n. case bm_get fs n of Some (JString _) \<Rightarrow> True | _ \<Rightarrow> False"
  let ?size = "case bm_get fs ''size'' of Some v \<Rightarrow> json_u64 num v \<noteq> None | None \<Rightarrow> False"
  let ?ct = "case bm_get fs ''content_type'' of Some (JString _) \<Rightarrow> True | Some JNull \<Rightarrow> True | None \<Rightarrow> True | _ \<Rightarrow> False"
  have 1: "settles (case bm_get fs field of
             Some (JString _) \<Rightarrow> Inr ()
           | v \<Rightarrow> json_failure (path @ ''.'' @ field) ''String'' (kind_or_missing num v)
                    ''required FileRef string field is missing or invalid'') (?str field)" for field
    by (cases "bm_get fs field") (auto split: json_value.splits)
  have ct: "?ct \<longleftrightarrow> \<not> (case bm_get fs ''content_type'' of Some v \<Rightarrow> v \<noteq> JNull \<and> json_string v = None | None \<Rightarrow> False)"
    by (cases "bm_get fs ''content_type''") (auto split: json_value.splits)
  have sz: "?size \<longleftrightarrow> \<not> (case bm_get fs ''size'' of Some v \<Rightarrow> json_u64 num v = None | None \<Rightarrow> True)"
    by (cases "bm_get fs ''size''") auto
  have "settles (validate_file_ref num path fs) ((\<forall>n \<in> set [''id'', ''storage'', ''file_name'']. ?str n) \<and> ?size \<and> ?ct)"
    unfolding validate_file_ref_def ct sz
    by (rule settles_and [OF settles_each]) (use 1 in simp_all)
  then show ?thesis by simp
qed


lemma json_type_list: "json_type num c (TyList t) v = (case v of JArray items \<Rightarrow> \<forall>x \<in> set items. json_type num c t x | _ \<Rightarrow> False)"
  "json_type num c (TySet t) v = (case v of JArray items \<Rightarrow> \<forall>x \<in> set items. json_type num c t x | _ \<Rightarrow> False)"
  by (subst json_type.simps, simp)+

lemma json_type_scalar:
  "json_type num c TyString v = (case v of JString _ \<Rightarrow> True | _ \<Rightarrow> False)"
  "json_type num c TyNumber v = (case v of JNumber _ \<Rightarrow> True | _ \<Rightarrow> False)"
  "json_type num c TyFloat v = (case v of JNumber _ \<Rightarrow> True | _ \<Rightarrow> False)"
  "json_type num c TyInt v = (case v of JNumber s \<Rightarrow> as_i64 num s \<noteq> None \<or> as_u64 num s \<noteq> None | _ \<Rightarrow> False)"
  "json_type num c TyDecimal v = (case v of JNumber _ \<Rightarrow> True | JString s \<Rightarrow> is_valid_decimal s | _ \<Rightarrow> False)"
  "json_type num c TyBool v = (case v of JBool _ \<Rightarrow> True | _ \<Rightarrow> False)"
  "json_type num c TyBytes v =
     (case v of JArray items \<Rightarrow> list_all (\<lambda>i. case json_u64 num i of Some b \<Rightarrow> b \<le> 255 | None \<Rightarrow> False) items | _ \<Rightarrow> False)"
  "json_type num c TyFile v = False"
  "json_type num c TyFileRef v = json_file_ref num v"
  "json_type num c TyJson v = True"
  "json_type num c TyUnknown v = True"
  "json_type num c TyNever v = False"
  "json_type num c TyVoid v = (v = JNull)"
  "json_type num c TyDate v = (case v of JString s \<Rightarrow> is_valid_date s | _ \<Rightarrow> False)"
  "json_type num c TyTime v = (case v of JString s \<Rightarrow> is_valid_time s | _ \<Rightarrow> False)"
  "json_type num c TyDateTime v = (case v of JString s \<Rightarrow> is_valid_datetime s | _ \<Rightarrow> False)"
  "json_type num c TyUuid v = (case v of JString s \<Rightarrow> is_valid_uuid s | _ \<Rightarrow> False)"
  "json_type num c (TySecret t) v = False"
  "json_type num c (TyResource t u) v = False"
  by (subst json_type.simps, simp cong: json_value.case_cong)+

lemma settles_array:
  assumes "\<And>x path. settles (f x path) (P x)"
  shows "settles (case v of JArray items \<Rightarrow> check_each (\<lambda>(i, x). f x (path @ ''['' @ show_nat i @ '']'')) (enumerate 0 items)
     | _ \<Rightarrow> json_failure a b d e) (case v of JArray items \<Rightarrow> \<forall>x \<in> set items. P x | _ \<Rightarrow> False)"
  by (cases v) (use assms in \<open>auto intro: settles_indexed\<close>)

lemma settles_map:
  assumes "\<And>x path. settles (f x path) (P x)"
  shows "settles (check_each (\<lambda>(n, x). if \<not> K n then json_failure (a n) b d e else f x (g n)) fs)
     (\<forall>p \<in> set fs. K (fst p) \<and> P (snd p))"
proof (rule settles_each)
  fix q assume "q \<in> set fs"
  show "settles (case q of (n, x) \<Rightarrow> if \<not> K n then json_failure (a n) b d e else f x (g n)) (K (fst q) \<and> P (snd q))"
    using assms by (cases q; cases "K (fst q)") simp_all
qed

lemma settles_fields:
  assumes "\<And>t x path. settles (f t x path) (P t x)"
  shows "settles (check_each (\<lambda>(n, t). case bm_get fs n of None \<Rightarrow> if is_optional t then Inr () else json_failure (a n) (b t) d e
        | Some x \<Rightarrow> f t x (g n)) rs)
     (\<forall>p \<in> set rs. case bm_get fs (fst p) of None \<Rightarrow> is_optional (snd p) | Some x \<Rightarrow> P (snd p) x)"
  by (rule settles_each) (use assms in \<open>auto split: option.splits\<close>)

lemma settles_result:
  assumes "\<And>t x path. settles (f t x path) (P t x)"
  shows "settles (if length fs \<noteq> 1 then json_failure p1 b1 d1 e1
        else (case bm_get fs ''Ok'' of Some x \<Rightarrow> f t x (path @ ''.Ok'')
          | None \<Rightarrow> (case bm_get fs ''Err'' of Some x \<Rightarrow> f u x (path @ ''.Err'') | None \<Rightarrow> json_failure p2 b2 d2 e2)))
     (case fs of [(n, x)] \<Rightarrow> n = ''Ok'' \<and> P t x \<or> n = ''Err'' \<and> P u x | _ \<Rightarrow> False)"
proof (cases "\<exists>n x. fs = [(n, x)]")
  case True
  then show ?thesis using assms by (auto simp: bm_get_def)
next
  case False
  then have "length fs \<noteq> 1" by (cases fs) (auto simp: length_Suc_conv)
  with False show ?thesis by (auto split: list.splits)
qed

lemma validate_settles: "settles (validate_json_at k num c t v path) (json_type num c t v)"
proof (induction k arbitrary: t v path)
  case 0
  then show ?case by simp
next
  case (Suc k)
  note IH = Suc.IH
  show ?case
  proof (cases t)
    case (TyList u)
    then show ?thesis using settles_array [of "validate_json_at k num c u", OF IH] by (simp add: json_type_list Let_def)
  next
    case (TySet u)
    then show ?thesis using settles_array [of "validate_json_at k num c u", OF IH] by (simp add: json_type_list Let_def)
  next
    case (TyMap key u)
    then show ?thesis using settles_map [of "validate_json_at k num c u", OF IH]
      by (cases v) (simp_all add: json_type.simps [of _ _ "TyMap key u"] Let_def)
  next
    case (TyOptional u)
    then show ?thesis using IH by (simp add: json_type.simps [of _ _ "TyOptional u"] Let_def)
  next
    case (TyPublic u)
    then show ?thesis using IH by (simp add: json_type.simps [of _ _ "TyPublic u"] Let_def)
  next
    case (TySignal u)
    then show ?thesis using IH by (simp add: json_type.simps [of _ _ "TySignal u"] Let_def)
  next
    case (TyResult u w)
    then show ?thesis
      using settles_result [of "validate_json_at k num c", OF IH]
      by (cases v) (simp_all add: json_type.simps [of _ _ "TyResult u w"] Let_def del: One_nat_def)
  next
    case (TyRecord name)
    show ?thesis
    proof (cases "bm_get (ctx_unions c) name")
      case (Some ls)
      with TyRecord show ?thesis by (cases v) (simp_all add: json_type.simps [of _ _ "TyRecord name"] Let_def)
    next
      case None
      then show ?thesis using TyRecord settles_fields [of "validate_json_at k num c", OF IH]
        by (cases "bm_get (ctx_records c) name"; cases v) (simp_all add: json_type.simps [of _ _ "TyRecord name"] Let_def)
    qed
  next
    case TyFileRef
    then show ?thesis using settles_file_ref by (cases v) (simp_all add: json_type_scalar Let_def)
  qed (cases v, simp_all add: json_type_scalar Let_def)+
qed


text \<open>The contract check of JSON values is exact: it accepts only values of the type, and it refuses only
  values that are not of the type or that need more than 64 levels of the contract.\<close>

theorem validate_json_exact:
  "case validate_json num c t v of
     Inr _ \<Rightarrow> json_type num c t v
   | Inl e \<Rightarrow> json_reason e = ''contract nesting exceeds 64 levels'' \<or> \<not> json_type num c t v"
  using validate_settles [of 65 num c t v "''$''"] unfolding validate_json_def settles_def nesting_reason_def .

subsection \<open>Decoded inputs hold exactly the declared fields\<close>

function exact_json :: "json_numbers \<Rightarrow> data_context \<Rightarrow> ax_type \<Rightarrow> json_value \<Rightarrow> bool" where
  "exact_json num c ty v =
     (case ty of
        TyRecord name \<Rightarrow>
          (case (bm_get (ctx_unions c) name, v) of
             (Some literals, JString s) \<Rightarrow> s \<in> set literals
           | (None, JObject fs) \<Rightarrow>
               (case bm_get (ctx_records c) name of
                  None \<Rightarrow> False
                | Some r \<Rightarrow> map fst fs = map fst (record_fields r)
                    \<and> (\<forall>p \<in> set (record_fields r). exact_json num c (snd p) (field_or_null fs (fst p))))
           | _ \<Rightarrow> False)
      | TyOptional t \<Rightarrow> v = JNull \<or> exact_json num c t v
      | TyList t \<Rightarrow> (case v of JArray items \<Rightarrow> \<forall>x \<in> set items. exact_json num c t x | _ \<Rightarrow> False)
      | TyMap k t \<Rightarrow>
          (case v of JObject fs \<Rightarrow> \<forall>p \<in> set fs. accepts_map_key k (fst p) \<and> exact_json num c t (snd p) | _ \<Rightarrow> False)
      | TyInt \<Rightarrow> (case v of JNumber s \<Rightarrow> as_i64 num s \<noteq> None | _ \<Rightarrow> False)
      | _ \<Rightarrow> ty \<in> {TyString, TyNumber, TyFloat, TyBool, TyDate, TyTime, TyDateTime, TyUuid} \<and> json_type num c ty v)"
  by pat_completeness auto
termination
  by (relation "inv_image (less_than <*lex*> less_than) (\<lambda>(num, c, t, v). (size v, size t))")
    (auto simp: less_Suc_eq_le size_list_estimation' size_field_or_null [unfolded less_Suc_eq_le]
      dest: size_pair_json intro: size_list_estimation')

declare exact_json.simps [simp del]

definition numbers_ok :: "json_numbers \<Rightarrow> bool" where
  "numbers_ok num = (\<forall>s i. as_i64 num s = Some i \<longrightarrow> as_i64 num (of_i64 num i) = Some i)"

definition context_ok :: "data_context \<Rightarrow> bool" where
  "context_ok c = list_all (\<lambda>(_, r). bm_ok (record_fields r)) (ctx_records c)"

lemma record_fields_ok: "context_ok c \<Longrightarrow> bm_get (ctx_records c) name = Some r \<Longrightarrow> bm_ok (record_fields r)"
  using bm_get_mem [of "ctx_records c" name r] by (force simp: context_ok_def list_all_iff)

lemma opt_map_get:
  assumes "opt_map (\<lambda>(n, t). map_option (Pair n) (f n t)) rs = Some kvs"
  shows "map fst kvs = map fst rs" and "bm_get kvs n = Option.bind (bm_get rs n) (f n)"
proof -
  have l: "list_all2 (\<lambda>x y. (case x of (n, t) \<Rightarrow> map_option (Pair n) (f n t)) = Some y) rs kvs"
    using assms by (simp add: opt_map_Some_iff)
  then show "map fst kvs = map fst rs" by (induction rule: list_all2_induct) auto
  from l show "bm_get kvs n = Option.bind (bm_get rs n) (f n)"
    by (induction rule: list_all2_induct) (auto simp: bm_get_def)
qed

lemma opt_map_values:
  "opt_map (\<lambda>(n, x). map_option (Pair n) (f x)) fs = Some kvs \<Longrightarrow> q \<in> set kvs \<Longrightarrow> \<exists>p \<in> set fs. fst p = fst q \<and> f (snd p) = Some (snd q)"
proof -
  assume "opt_map (\<lambda>(n, x). map_option (Pair n) (f x)) fs = Some kvs" and q: "q \<in> set kvs"
  then have "list_all2 (\<lambda>x y. (case x of (n, t) \<Rightarrow> map_option (Pair n) (f t)) = Some y) fs kvs"
    by (simp add: opt_map_Some_iff)
  then show ?thesis using q by (induction rule: list_all2_induct) auto
qed

lemma bm_get_in_keys: "bm_ok m \<Longrightarrow> (k, v) \<in> set m \<Longrightarrow> bm_get m k = Some v"
  by (auto simp: bm_get_def bm_ok_def strict_sorted_iff intro: map_of_is_SomeI)

lemma project_record:
  assumes "context_ok c" and "bm_get (ctx_records c) name = Some r"
    and "project num c (TyRecord name) (JObject fs) = Some w"
  obtains kvs where "w = JObject kvs" "map fst kvs = map fst (record_fields r)"
    "\<And>n t. (n, t) \<in> set (record_fields r) \<Longrightarrow> project num c t (field_or_null fs n) = Some (field_or_null kvs n)"
proof -
  let ?f = "\<lambda>n t. project num c t (field_or_null fs n)"
  obtain kvs where k: "opt_map (\<lambda>(n, t). map_option (Pair n) (?f n t)) (record_fields r) = Some kvs" "w = JObject (bm_of_list kvs)"
    using assms(2,3) by (auto simp: project.simps [of num c "TyRecord name"])
  note g = opt_map_get [OF k(1)]
  have ok: "bm_ok (record_fields r)" by (rule record_fields_ok [OF assms(1,2)])
  then have "bm_ok kvs" using g(1) by (simp add: bm_ok_def)
  then have w: "w = JObject kvs" using k(2) by (simp add: bm_of_list_sorted)
  have "project num c t (field_or_null fs n) = Some (field_or_null kvs n)" if nt: "(n, t) \<in> set (record_fields r)" for n t
  proof -
    have "bm_get (record_fields r) n = Some t" by (rule bm_get_in_keys [OF ok nt])
    then have "bm_get kvs n = ?f n t" using g(2) by simp
    moreover have "bm_get kvs n \<noteq> None" using g(1) nt by (simp add: bm_get_None_iff) (metis fst_conv image_eqI list.set_map)
    ultimately show ?thesis by (auto simp: field_or_null_def)
  qed
  with that w g(1) show thesis by blast
qed

lemma exact_null: "is_optional t \<Longrightarrow> project num c t JNull = Some w \<Longrightarrow> exact_json num c t w"
proof -
  assume "is_optional t" and p: "project num c t JNull = Some w"
  then obtain u where "t = TyOptional u" by (cases t) simp_all
  with p show ?thesis by (simp add: project.simps [of num c "TyOptional u"] exact_json.simps [of num c "TyOptional u"])
qed

lemma project_scalar:
  "project num c TyString v = Some v" "project num c TyBool v = Some v" "project num c TyDate v = Some v"
  "project num c TyTime v = Some v" "project num c TyDateTime v = Some v" "project num c TyUuid v = Some v"
  "project num c TyFloat v = (case v of JNumber s \<Rightarrow> map_option JNumber (Option.bind (as_f64 num s) (of_f64 num)) | _ \<Rightarrow> None)"
  "project num c TyNumber v = (case v of JNumber s \<Rightarrow> map_option JNumber (Option.bind (as_f64 num s) (of_f64 num)) | _ \<Rightarrow> None)"
  "project num c TyDecimal v = None" "project num c TyBytes v = None" "project num c TyFile v = None"
  "project num c TyFileRef v = None" "project num c TyJson v = None" "project num c TyUnknown v = None"
  "project num c TyNever v = None" "project num c TyVoid v = None" "project num c (TySet t) v = None"
  "project num c (TyResult t u) v = None" "project num c (TySecret t) v = None" "project num c (TyPublic t) v = None"
  "project num c (TySignal t) v = None" "project num c (TyResource t u) v = None"
  by (subst project.simps, simp)+

lemma exact_scalar: "t \<in> {TyString, TyNumber, TyFloat, TyBool, TyDate, TyTime, TyDateTime, TyUuid} \<Longrightarrow>
    exact_json num c t v = json_type num c t v"
  by (subst exact_json.simps) auto

lemma exact_record:
  assumes "context_ok c" and "json_type num c (TyRecord name) v" and "project num c (TyRecord name) v = Some w"
    and IH: "\<And>x t' w'. size x < size v \<Longrightarrow> json_type num c t' x \<Longrightarrow> project num c t' x = Some w' \<Longrightarrow> exact_json num c t' w'"
  shows "exact_json num c (TyRecord name) w"
proof (cases "bm_get (ctx_unions c) name")
  case (Some ls)
  then obtain s where "v = JString s" "s \<in> set ls"
    using assms(2) by (cases v) (simp_all add: json_type.simps [of num c "TyRecord name"])
  moreover from this have "w = JString s" using Some assms(3) by (simp add: project.simps [of num c "TyRecord name"])
  ultimately show ?thesis using Some by (simp add: exact_json.simps [of num c "TyRecord name"])
next
  case None
  then obtain r fs where r: "bm_get (ctx_records c) name = Some r" "v = JObject fs"
      "\<forall>p \<in> set (record_fields r). case bm_get fs (fst p) of None \<Rightarrow> is_optional (snd p) | Some x \<Rightarrow> json_type num c (snd p) x"
    using assms(2) by (cases "bm_get (ctx_records c) name"; cases v) (simp_all add: json_type.simps [of num c "TyRecord name"])
  obtain kvs where k: "w = JObject kvs" "map fst kvs = map fst (record_fields r)"
      "\<And>n t. (n, t) \<in> set (record_fields r) \<Longrightarrow> project num c t (field_or_null fs n) = Some (field_or_null kvs n)"
    using project_record [OF assms(1) r(1) assms(3) [unfolded r(2)]] by metis
  have "exact_json num c (snd p) (field_or_null kvs (fst p))" if p: "p \<in> set (record_fields r)" for p
  proof -
    have pr: "project num c (snd p) (field_or_null fs (fst p)) = Some (field_or_null kvs (fst p))" using k(3) p by simp
    show ?thesis
    proof (cases "bm_get fs (fst p)")
      case none: None
      then show ?thesis using r(3) p pr exact_null by (force simp: field_or_null_def)
    next
      case (Some x)
      have "size x < size v" using size_bm_json [OF Some] r(2) by simp
      moreover have "json_type num c (snd p) x" using r(3) p Some by force
      ultimately show ?thesis using IH pr Some by (simp add: field_or_null_def)
    qed
  qed
  then show ?thesis using None r(1) k(1,2) by (simp add: exact_json.simps [of num c "TyRecord name"])
qed

lemma exact_list:
  assumes "json_type num c (TyList t) v" and "project num c (TyList t) v = Some w"
    and IH: "\<And>x w'. size x < size v \<Longrightarrow> json_type num c t x \<Longrightarrow> project num c t x = Some w' \<Longrightarrow> exact_json num c t w'"
  shows "exact_json num c (TyList t) w"
proof -
  obtain items where v: "v = JArray items" "\<forall>x \<in> set items. json_type num c t x"
    using assms(1) by (cases v) (simp_all add: json_type_list)
  then obtain ws where w: "w = JArray ws" "list_all2 (\<lambda>x y. project num c t x = Some y) items ws"
    using assms(2) by (auto simp: project.simps [of num c "TyList t"] opt_map_Some_iff)
  have "exact_json num c t y" if y: "y \<in> set ws" for y
  proof -
    from w(2) y obtain x where x: "x \<in> set items" "project num c t x = Some y"
      by (induction rule: list_all2_induct) auto
    have "size x < size v" using x(1) v(1) by (simp add: less_Suc_eq_le size_list_estimation')
    with IH x v(2) show ?thesis by blast
  qed
  with w(1) show ?thesis by (simp add: exact_json.simps [of num c "TyList t"])
qed

lemma exact_map:
  assumes "json_type num c (TyMap key t) v" and "project num c (TyMap key t) v = Some w"
    and IH: "\<And>x w'. size x < size v \<Longrightarrow> json_type num c t x \<Longrightarrow> project num c t x = Some w' \<Longrightarrow> exact_json num c t w'"
  shows "exact_json num c (TyMap key t) w"
proof -
  obtain fs where v: "v = JObject fs" "\<forall>p \<in> set fs. accepts_map_key key (fst p) \<and> json_type num c t (snd p)"
    using assms(1) by (cases v) (simp_all add: json_type.simps [of num c "TyMap key t"])
  then obtain ws where w: "w = JObject (bm_of_list ws)" "opt_map (\<lambda>(n, x). map_option (Pair n) (project num c t x)) fs = Some ws"
    using assms(2) by (auto simp: project.simps [of num c "TyMap key t"])
  have "accepts_map_key key (fst q) \<and> exact_json num c t (snd q)" if q: "q \<in> set ws" for q
  proof -
    obtain p where p: "p \<in> set fs" "fst p = fst q" "project num c t (snd p) = Some (snd q)"
      using opt_map_values [OF w(2) q] by blast
    have "size (snd p) < size v" using size_pair_json [of "fst p" "snd p" fs] p(1) v(1) by simp
    with IH p v(2) show ?thesis by force
  qed
  moreover have "set (bm_of_list ws) \<subseteq> set ws" using bm_of_list_ok by blast
  ultimately show ?thesis using w(1) by (auto simp: exact_json.simps [of num c "TyMap key t"])
qed

lemma project_exact:
  assumes "numbers_ok num" and "context_ok c"
  shows "json_type num c t v \<Longrightarrow> project num c t v = Some w \<Longrightarrow> exact_json num c t w"
proof (induction "(size v, size t)" arbitrary: t v w rule: wf_induct_rule [OF wf_lex_prod [OF wf_less_than wf_less_than]])
  case 1
  have IH: "size v' < size v \<Longrightarrow> json_type num c t' v' \<Longrightarrow> project num c t' v' = Some w' \<Longrightarrow> exact_json num c t' w'" for v' t' w'
    by (rule 1(1)) simp_all
  have IHt: "size t' < size t \<Longrightarrow> json_type num c t' v \<Longrightarrow> project num c t' v = Some w' \<Longrightarrow> exact_json num c t' w'" for t' w'
    by (rule 1(1)) simp_all
  show ?case
  proof (cases t)
    case (TyRecord name)
    show ?thesis unfolding TyRecord by (rule exact_record [OF assms(2) 1(2,3) [unfolded TyRecord] IH])
  next
    case (TyList u)
    show ?thesis unfolding TyList by (rule exact_list [OF 1(2,3) [unfolded TyList] IH])
  next
    case (TyMap key u)
    show ?thesis unfolding TyMap by (rule exact_map [OF 1(2,3) [unfolded TyMap] IH])
  next
    case (TyOptional u)
    then show ?thesis using 1(2,3) IHt [of u w]
      by (auto simp: json_type.simps [of num c "TyOptional u"] project.simps [of num c "TyOptional u"]
          exact_json.simps [of num c "TyOptional u"] split: if_splits)
  next
    case TyInt
    with 1(2,3) obtain s i where "as_i64 num s = Some i" "w = JNumber (of_i64 num i)"
      by (cases v) (auto simp: project.simps [of num c TyInt])
    then have "as_i64 num (of_i64 num i) = Some i" using assms(1) unfolding numbers_ok_def by blast
    with TyInt \<open>w = _\<close> show ?thesis by (simp add: exact_json.simps [of num c TyInt])
  qed (use 1(2,3) in \<open>cases v; auto simp: project_scalar exact_scalar json_type_scalar\<close>)+
qed


text \<open>The value a request carries for an input.\<close>

definition carried :: "(bytes \<Rightarrow> json_value option) \<Rightarrow> http_request option \<Rightarrow> string option \<Rightarrow> string \<Rightarrow> json_value option" where
  "carried parse_json request explicit field =
     (case explicit of
        Some raw \<Rightarrow> parse_json raw
      | None \<Rightarrow>
          (case request of
             None \<Rightarrow> None
           | Some r \<Rightarrow>
               if json_media_type r then json_field_value parse_json r field
               else (case form_value r field of None \<Rightarrow> None | Some raw \<Rightarrow> parse_json raw)))"

lemma decode_cases:
  assumes "decode_record parse_json num request explicit field contract c = Inr w"
  obtains v where "carried parse_json request explicit field = Some v" "json_type num c (TyRecord contract) v"
    "project num c (TyRecord contract) v = Some w"
proof -
  obtain v where v: "carried parse_json request explicit field = Some v"
    using assms by (cases "carried parse_json request explicit field") (simp_all add: decode_record_def carried_def [symmetric])
  then obtain u where u: "validate_json num c (TyRecord contract) v = Inr u" "project num c (TyRecord contract) v = Some w"
    using assms by (cases "validate_json num c (TyRecord contract) v"; cases "project num c (TyRecord contract) v")
      (simp_all add: decode_record_def carried_def [symmetric])
  have "json_type num c (TyRecord contract) v" using validate_json_exact [of num c "TyRecord contract" v] u(1) by simp
  with v u(2) that show thesis by blast
qed

text \<open>C27. A record input of a request is decoded to exactly the declared fields with values of the declared types,
  whatever else the request carries; a declared text is the one the request carries. Anything else is the
  error that names the field.\<close>

theorem decoded_record_exact:
  assumes "numbers_ok num" and "context_ok c" and "bm_get (ctx_unions c) contract = None"
    and "bm_get (ctx_records c) contract = Some r"
  shows "case decode_record parse_json num request explicit field contract c of
      Inl e \<Rightarrow> e = RtInvalidInput field
    | Inr w \<Rightarrow>
        \<exists>fs sent. w = JObject fs \<and> carried parse_json request explicit field = Some (JObject sent)
          \<and> map fst fs = map fst (record_fields r)
          \<and> list_all (\<lambda>(n, t). exact_json num c t (field_or_null fs n)
               \<and> (t \<noteq> TyString \<or> bm_get fs n = bm_get sent n)) (record_fields r)"
proof (cases "decode_record parse_json num request explicit field contract c")
  case (Inl e)
  then have "e = RtInvalidInput field"
    by (auto simp: decode_record_def carried_def [symmetric] Let_def ok_or_def split: option.splits sum.splits)
  with Inl show ?thesis by simp
next
  case (Inr w)
  then obtain v where v: "carried parse_json request explicit field = Some v" "json_type num c (TyRecord contract) v"
      "project num c (TyRecord contract) v = Some w" by (rule decode_cases)
  then obtain sent where s: "v = JObject sent"
    using assms(3,4) by (cases v) (simp_all add: json_type.simps [of num c "TyRecord contract"])
  have typed: "case bm_get sent (fst p) of None \<Rightarrow> is_optional (snd p) | Some x \<Rightarrow> json_type num c (snd p) x"
    if "p \<in> set (record_fields r)" for p
    using v(2) s assms(3,4) that by (simp add: json_type.simps [of num c "TyRecord contract"])
  obtain fs where f: "w = JObject fs" "map fst fs = map fst (record_fields r)"
      "\<And>n t. (n, t) \<in> set (record_fields r) \<Longrightarrow> project num c t (field_or_null sent n) = Some (field_or_null fs n)"
    using project_record [OF assms(2,4) v(3) [unfolded s]] by metis
  have x: "exact_json num c (TyRecord contract) w" by (rule project_exact [OF assms(1,2) v(2,3)])
  have "exact_json num c t (field_or_null fs n) \<and> (t \<noteq> TyString \<or> bm_get fs n = bm_get sent n)"
    if nt: "(n, t) \<in> set (record_fields r)" for n t
  proof
    show "exact_json num c t (field_or_null fs n)"
      using x f(1) assms(3,4) nt by (force simp: exact_json.simps [of num c "TyRecord contract"])
    have "bm_get fs n \<noteq> None" using f(2) nt by (simp add: bm_get_None_iff) (metis fst_conv image_eqI list.set_map)
    then show "t \<noteq> TyString \<or> bm_get fs n = bm_get sent n"
      using f(3) [OF nt] typed [OF nt] by (auto simp: project_scalar field_or_null_def split: option.splits)
  qed
  then show ?thesis using Inr f(1,2) v(1) s by (auto simp: list_all_iff)
qed

definition plain_numbers :: json_numbers where
  "plain_numbers = \<lparr> as_i64 = parse_signed 64, as_u64 = parse_unsigned 64, as_f64 = (\<lambda>_. None), of_i64 = show_int, of_f64 = (\<lambda>_. None) \<rparr>"


lemma parse_signed_range: "parse_signed 64 s = Some i \<Longrightarrow> - (2 ^ 63) \<le> i \<and> i < 2 ^ 63"
  by (auto simp: parse_signed_def split: list.splits if_splits option.splits)

lemma parse_signed_show: "- (2 ^ 63) \<le> i \<Longrightarrow> i < 2 ^ 63 \<Longrightarrow> parse_signed 64 (show_int i) = Some i"
proof (cases "i < 0")
  case True
  assume "- (2 ^ 63) \<le> i"
  with True show ?thesis by (simp add: show_int_def parse_signed_def)
next
  case False
  assume "i < 2 ^ 63"
  obtain c cs where c: "show_nat (nat i) = c # cs" by (cases "show_nat (nat i)") simp_all
  then have "is_digit c" by (rule show_nat_hd_digit)
  then have "c \<noteq> CHR ''-''" "c \<noteq> CHR ''+''" by (auto simp: is_digit_def code_def)
  then show ?thesis using False \<open>i < 2 ^ 63\<close> c parse_digits_show_nat [of "nat i"]
    by (simp add: show_int_def parse_signed_def)
qed

lemma plain_numbers_ok: "numbers_ok plain_numbers"
  using parse_signed_range parse_signed_show by (auto simp: numbers_ok_def plain_numbers_def)

definition demo_post :: record_type where
  "demo_post = \<lparr> record_name = ''Post'', record_fields = [(''title'', TyString), (''views'', TyOptional TyInt)] \<rparr>"

definition demo_post_context :: data_context where
  "demo_post_context = \<lparr> ctx_bindings = [], ctx_records = [(''Post'', demo_post)], ctx_unions = [] \<rparr>"

definition demo_post_json :: json_value where
  "demo_post_json = JObject [(''admin'', JBool True), (''title'', JString ''Hi'')]"

lemma demo_post_context_ok: "context_ok demo_post_context" "bm_get (ctx_unions demo_post_context) ''Post'' = None"
  "bm_get (ctx_records demo_post_context) ''Post'' = Some demo_post"
  by (simp_all add: demo_post_context_def demo_post_def context_ok_def bm_ok_def bm_get_def)

theorem decoded_record_exact_witness:
  "case decode_record (\<lambda>_. Some demo_post_json) plain_numbers None (Some ''x'') ''post'' ''Post'' demo_post_context of
      Inl e \<Rightarrow> e = RtInvalidInput ''post''
    | Inr w \<Rightarrow>
        \<exists>fs sent. w = JObject fs \<and> carried (\<lambda>_. Some demo_post_json) None (Some ''x'') ''post'' = Some (JObject sent)
          \<and> map fst fs = map fst (record_fields demo_post)
          \<and> list_all (\<lambda>(n, t). exact_json plain_numbers demo_post_context t (field_or_null fs n)
               \<and> (t \<noteq> TyString \<or> bm_get fs n = bm_get sent n)) (record_fields demo_post)"
  by (rule decoded_record_exact [OF plain_numbers_ok demo_post_context_ok])

theorem validate_json_exact_witness:
  "\<not> json_type plain_numbers empty_context TyBool (JString ''yes'')"
proof -
  have "validate_json plain_numbers empty_context TyBool (JString ''yes'')
      = json_failure ''$'' ''Bool'' ''string'' ''expected a JSON boolean''"
    by (simp add: validate_json_def eval_nat_numeral)
  then show ?thesis
    using validate_json_exact [of plain_numbers empty_context TyBool "JString ''yes''"]
    by (simp add: nesting_reason_def json_failure_def)
qed

lemma demo_post_decoded:
  "decode_record (\<lambda>_. Some demo_post_json) plain_numbers None (Some ''x'') ''post'' ''Post'' demo_post_context
    = Inr (JObject [(''title'', JString ''Hi''), (''views'', JNull)])"
  by (simp add: decode_record_def validate_json_def demo_post_json_def demo_post_context_def demo_post_def bm_get_def eval_nat_numeral
      project_scalar project.simps [of _ _ "TyRecord _"] project.simps [of _ _ "TyOptional _"] field_or_null_def bm_of_list_def Let_def)

end
