(* ===== verification/Ax_Types_Correct.thy ===== *)
theory Ax_Types_Correct
  imports Ax_Types
begin

section \<open>What the types promise\<close>

text \<open>
  Three facts about the types: a displayed type parses back, a typed expression evaluates to a value of
  its type (with \<open>has_type\<close>, the values of a type, as the specification), and the initial values a
  state accepts have the declared type. The expressions of the soundness theorem leave out the spots the
  checker does not look at; the lemmas at the end show them.
\<close>

subsection \<open>Printed types parse back\<close>

fun wf_type :: "ax_type \<Rightarrow> bool" where
  "wf_type (TyOptional t) = (wf_type t \<and> \<not> is_optional t)"
| "wf_type (TyRecord name) = (is_type_identifier name \<and> map_of builtin_types name = None)"
| "wf_type (TyList t) = wf_type t"
| "wf_type (TySet t) = wf_type t"
| "wf_type (TySecret t) = wf_type t"
| "wf_type (TyPublic t) = wf_type t"
| "wf_type (TySignal t) = wf_type t"
| "wf_type (TyMap t u) = (wf_type t \<and> wf_type u)"
| "wf_type (TyResult t u) = (wf_type t \<and> wf_type u)"
| "wf_type (TyResource t u) = (wf_type t \<and> wf_type u)"
| "wf_type _ = True"

definition ident_byte :: "char \<Rightarrow> bool" where
  "ident_byte c = (is_alphanumeric c \<or> c = CHR ''_'')"

lemma ident_byte_not: "ident_byte c \<Longrightarrow> c \<notin> {CHR ''<'', CHR ''>'', CHR '','', CHR ''?'', CHR '']'', CHR '' ''} \<and> \<not> space_byte c"
  by (auto simp: ident_byte_def is_alphanumeric_def is_digit_def space_byte_def is_whitespace_def code_def)

lemma identifier_bytes: "is_type_identifier s \<Longrightarrow> s \<noteq> [] \<and> list_all ident_byte s"
  by (auto simp: is_type_identifier_def ident_byte_def list_all_iff split: list.splits)

lemma builtin_display: "map_of builtin_types s = Some t \<Longrightarrow> list_all ident_byte s \<and> s \<noteq> []"
  by (auto simp: builtin_types_def ident_byte_def is_alphanumeric_def is_digit_def code_def split: if_splits)

text \<open>A displayed type is a name or a name around displayed types.\<close>

inductive shown :: "string \<Rightarrow> bool" where
  name: "s \<noteq> [] \<Longrightarrow> list_all ident_byte s \<Longrightarrow> shown s"
| one: "s \<noteq> [] \<Longrightarrow> list_all ident_byte s \<Longrightarrow> shown a \<Longrightarrow> shown (s @ CHR ''<'' # a @ ''>'')"
| two: "s \<noteq> [] \<Longrightarrow> list_all ident_byte s \<Longrightarrow> shown a \<Longrightarrow> shown b \<Longrightarrow> shown (s @ CHR ''<'' # a @ '', '' @ b @ ''>'')"

lemma ident_names: "list_all ident_byte ''List''" "list_all ident_byte ''Map''" "list_all ident_byte ''Set''"
  "list_all ident_byte ''Optional''" "list_all ident_byte ''Result''" "list_all ident_byte ''Secret''"
  "list_all ident_byte ''Public''" "list_all ident_byte ''Signal''" "list_all ident_byte ''Resource''"
  by (simp_all add: ident_byte_def is_alphanumeric_def is_digit_def code_def)

lemma wrapped_shown1: "w \<noteq> [] \<Longrightarrow> list_all ident_byte w \<Longrightarrow> shown a \<Longrightarrow> shown (wrapped w [a])"
  using shown.one [of w a] by (simp add: wrapped_def)

lemma wrapped_shown2: "w \<noteq> [] \<Longrightarrow> list_all ident_byte w \<Longrightarrow> shown a \<Longrightarrow> shown b \<Longrightarrow> shown (wrapped w [a, b])"
  using shown.two [of w a b] by (simp add: wrapped_def)

lemma builtin_shown: "map_of builtin_types s = Some t \<Longrightarrow> shown s"
  using builtin_display shown.name by blast

lemma display_shown: "wf_type t \<Longrightarrow> shown (display_name t)"
proof (induction t)
  case (TyRecord name)
  then show ?case using identifier_bytes shown.name by simp
qed (auto intro!: wrapped_shown1 wrapped_shown2 ident_names intro: builtin_shown simp: builtin_types_def)

lemma shown_ends: "shown s \<Longrightarrow> s \<noteq> [] \<and> ident_byte (hd s) \<and> (ident_byte (last s) \<or> last s = CHR ''>'')"
  by (induction rule: shown.induct) (auto simp: list_all_iff last_append)

lemma angle_solid: "\<not> space_byte (CHR ''>'')"
  by (simp add: space_byte_def is_whitespace_def code_def)

lemma shown_trim: "shown s \<Longrightarrow> trim s = s"
  using shown_ends [of s] ident_byte_not [of "hd s"] ident_byte_not [of "last s"] angle_solid
  by (intro trim_solid) auto

lemma trim_space: "trim (CHR '' '' # s) = trim s"
  by (simp add: trim_def utf8_more_def space_chunk_def is_whitespace_def code_def)

lemma balanced_ident: "list_all ident_byte s \<Longrightarrow> balanced_from d (s @ r) = balanced_from d r"
  by (induction s) (auto dest: ident_byte_not)

lemma balanced_shown: "shown s \<Longrightarrow> balanced_from d (s @ r) = balanced_from d r"
  by (induction arbitrary: d r rule: shown.induct) (auto simp: balanced_ident)

lemma pair_ident: "list_all ident_byte s \<Longrightarrow>
    split_pair_from src d seen found (s @ r) = split_pair_from src d (seen @ s) found r"
  by (induction s arbitrary: seen) (auto dest: ident_byte_not)

lemma pair_shown: "shown s \<Longrightarrow> split_pair_from src d seen found (s @ r) = split_pair_from src d (seen @ s) found r"
  by (induction arbitrary: d r seen rule: shown.induct) (auto simp: pair_ident)

lemma split_shown:
  assumes "shown a" and "shown b"
  shows "split_type_pair (a @ '', '' @ b) src = Inr (a, b)"
proof -
  have "split_pair_from src 0 [] None (a @ CHR '','' # CHR '' '' # b) = Inr (Some (a, CHR '' '' # b))"
    using pair_shown [OF assms(2), where r = "[]"] by (simp add: pair_shown [OF assms(1)])
  then show ?thesis using assms shown_ends
    by (auto simp: split_type_pair_def shown_trim trim_space)
qed

subsection \<open>The wrapper around a displayed type\<close>

lemma trim_start_solid: "s = [] \<or> \<not> space_byte (hd s) \<Longrightarrow> trim_start s = s"
proof (cases "utf8_split s")
  case Nil
  then show ?thesis using utf8_split_concat [of s] by (simp add: trim_start_def)
next
  case (Cons p ps)
  assume s: "s = [] \<or> \<not> space_byte (hd s)"
  with Cons have "s \<noteq> []" by auto
  then obtain cp n where "p = (cp, hd s # n)" using Cons by (cases s) (auto split: prod.splits)
  then have "\<not> space_chunk p" using s \<open>s \<noteq> []\<close> Cons space_chunk_bytes [of p s "hd s"] by auto
  then show ?thesis using Cons utf8_split_concat [of s] by (simp add: trim_start_def)
qed

lemma parse_wrapped_hit:
  assumes "shown a"
  shows "parse_wrapped_type (w @ CHR ''<'' # a @ ''>'') w = Inr (Some a)"
proof -
  have "strip_prefix w (w @ CHR ''<'' # a @ ''>'') = Some (CHR ''<'' # a @ ''>'')" by (simp add: strip_prefix_Some)
  moreover have "trim_start (CHR ''<'' # a @ ''>'') = CHR ''<'' # a @ ''>''"
    by (rule trim_start_solid) (simp add: space_byte_def is_whitespace_def code_def)
  moreover have "has_balanced_angle_brackets a"
    using balanced_shown [OF assms, of 0 "[]"] by (simp add: has_balanced_angle_brackets_def)
  ultimately show ?thesis using assms
    by (simp add: parse_wrapped_type_def starts_with_def ends_with_def strip_suffix_def butlast_append shown_trim)
qed

lemma parse_wrapped_hit2:
  assumes "shown a" and "shown b"
  shows "parse_wrapped_type (w @ CHR ''<'' # a @ '', '' @ b @ ''>'') w = Inr (Some (a @ '', '' @ b))"
proof -
  let ?i = "a @ '', '' @ b"
  have "strip_prefix w (w @ CHR ''<'' # ?i @ ''>'') = Some (CHR ''<'' # ?i @ ''>'')" by (simp add: strip_prefix_Some)
  moreover have "trim_start (CHR ''<'' # ?i @ ''>'') = CHR ''<'' # ?i @ ''>''"
    by (rule trim_start_solid) (simp add: space_byte_def is_whitespace_def code_def)
  moreover have "has_balanced_angle_brackets ?i"
    using balanced_shown [OF assms(1), of 0] balanced_shown [OF assms(2), of 0 "[]"]
    by (simp add: has_balanced_angle_brackets_def)
  moreover have "trim ?i = ?i"
    using shown_ends [OF assms(1)] shown_ends [OF assms(2)] ident_byte_not angle_solid
    by (intro trim_solid) (auto simp: last_append)
  ultimately show ?thesis
    by (simp add: parse_wrapped_type_def starts_with_def ends_with_def strip_suffix_def butlast_append)
qed

text \<open>A name followed by an angle bracket, or by nothing, is only unwrapped as itself.\<close>

lemma parse_wrapped_miss:
  assumes "list_all ident_byte n" and "list_all ident_byte w" and "n \<noteq> w" and "r = [] \<or> hd r = CHR ''<''"
  shows "parse_wrapped_type (n @ r) w = Inr None"
proof (cases "strip_prefix w (n @ r)")
  case (Some q)
  then have "n @ r = w @ q" by (simp add: strip_prefix_Some)
  then consider us where "n = w @ us" "q = us @ r" | us where "w = n @ us" "r = us @ q" "us \<noteq> []"
    using assms(3) by (auto simp: append_eq_append_conv2)
  then show ?thesis
  proof cases
    case 1
    then obtain u us' where "us = u # us'" using assms(3) by (cases us) auto
    with 1 assms(1) have "ident_byte u" "q = u # us' @ r" by auto
    then have "\<not> starts_with ''<'' (trim_start q)" using ident_byte_not [of u]
      by (subst trim_start_solid) (auto simp: starts_with_iff)
    with Some show ?thesis by (simp add: parse_wrapped_type_def)
  next
    case 2
    then have "ident_byte (hd us)" using assms(2) hd_in_set [of us] by (simp add: list_all_iff)
    moreover have "hd us = CHR ''<''" using 2 assms(4) by (auto simp: hd_append)
    ultimately have False using ident_byte_not by auto
    then show ?thesis ..
  qed
qed (simp add: parse_wrapped_type_def)

lemma parse_wrapped_name: "list_all ident_byte n \<Longrightarrow> list_all ident_byte w \<Longrightarrow> parse_wrapped_type n w = Inr None"
  by (cases "n = w") (use parse_wrapped_miss [of n w "[]"] in \<open>auto simp: parse_wrapped_type_def strip_prefix_Some trim_start_def starts_with_iff split: option.splits\<close>)

definition ident_keys :: "(string \<times> 'a) list \<Rightarrow> bool" where
  "ident_keys ws = list_all (\<lambda>(n, _). list_all ident_byte n) ws"

lemma ident_keys_simps [simp]: "ident_keys []" "ident_keys ((n, f) # ws) \<longleftrightarrow> list_all ident_byte n \<and> ident_keys ws"
  by (simp_all add: ident_keys_def)

lemma match_unary_hit:
  assumes "list_all ident_byte w" and "parse_wrapped_type (w @ CHR ''<'' # z) w = Inr (Some a)" and "ident_keys ws"
  shows "match_unary (w @ CHR ''<'' # z) ws =
    (case map_of ws w of Some f \<Rightarrow> Inr (UnaryWrapper f a) | None \<Rightarrow> Inr NoWrapper)"
  using assms(3)
proof (induction ws)
  case (Cons p ws)
  obtain n f where p: "p = (n, f)" by (cases p)
  with Cons have "n \<noteq> w \<Longrightarrow> parse_wrapped_type (w @ CHR ''<'' # z) n = Inr None"
    using parse_wrapped_miss [OF assms(1), of n "CHR ''<'' # z"] by simp
  with Cons p assms(2) show ?case by (cases "n = w") simp_all
qed simp

lemma match_binary_hit:
  assumes "list_all ident_byte w" and "parse_wrapped_type (w @ CHR ''<'' # z) w = Inr (Some i)"
    and "\<And>src. split_type_pair i src = Inr (a, b)" and "ident_keys ws"
  shows "match_binary (w @ CHR ''<'' # z) ws =
    (case map_of ws w of Some f \<Rightarrow> Inr (BinaryWrapper f a b) | None \<Rightarrow> Inr NoWrapper)"
  using assms(4)
proof (induction ws)
  case (Cons p ws)
  obtain n f where p: "p = (n, f)" by (cases p)
  with Cons have "n \<noteq> w \<Longrightarrow> parse_wrapped_type (w @ CHR ''<'' # z) n = Inr None"
    using parse_wrapped_miss [OF assms(1), of n "CHR ''<'' # z"] by simp
  with Cons p assms(2,3) show ?case by (cases "n = w") simp_all
qed simp

lemma match_name: "list_all ident_byte n \<Longrightarrow> ident_keys us \<Longrightarrow> match_unary n us = Inr NoWrapper"
  "list_all ident_byte n \<Longrightarrow> ident_keys bs \<Longrightarrow> match_binary n bs = Inr NoWrapper"
  by (induction us, auto simp: parse_wrapped_name) (induction bs, auto simp: parse_wrapped_name)

lemma wrapper_keys: "ident_keys unary_wrappers" "ident_keys binary_wrappers"
  by (simp_all add: unary_wrappers_def binary_wrappers_def ident_byte_def is_alphanumeric_def is_digit_def code_def)

lemma match_wrapper_name: "list_all ident_byte n \<Longrightarrow> match_wrapper n = Inr NoWrapper"
  by (simp add: match_wrapper_def match_name wrapper_keys)

lemma match_wrapper_one:
  assumes "list_all ident_byte w" and "shown a" and "map_of unary_wrappers w = Some f"
  shows "match_wrapper (wrapped w [a]) = Inr (UnaryWrapper f a)"
  using match_unary_hit [OF assms(1) parse_wrapped_hit [OF assms(2)] wrapper_keys(1)] assms(3)
  by (simp add: match_wrapper_def wrapped_def)

lemma match_wrapper_two:
  assumes "list_all ident_byte w" and "shown a" and "shown b" and "map_of unary_wrappers w = None"
    and "map_of binary_wrappers w = Some f"
  shows "match_wrapper (wrapped w [a, b]) = Inr (BinaryWrapper f a b)"
  using match_unary_hit [OF assms(1) parse_wrapped_hit2 [OF assms(2,3)] wrapper_keys(1)]
    match_binary_hit [OF assms(1) parse_wrapped_hit2 [OF assms(2,3)] split_shown [OF assms(2,3)] wrapper_keys(2)] assms(4,5)
  by (simp add: match_wrapper_def wrapped_def)

lemma parse_shown:
  assumes "shown s"
  shows "parse_type_annotation s =
     (case match_wrapper s of
        Inl e \<Rightarrow> Inl e
      | Inr (UnaryWrapper f inner) \<Rightarrow> (case parse_type_annotation inner of Inl e \<Rightarrow> Inl e | Inr t \<Rightarrow> Inr (f t))
      | Inr (BinaryWrapper f a b) \<Rightarrow>
          (case parse_type_annotation a of
             Inl e \<Rightarrow> Inl e
           | Inr t \<Rightarrow> (case parse_type_annotation b of Inl e \<Rightarrow> Inl e | Inr u \<Rightarrow> Inr (f t u)))
      | Inr NoWrapper \<Rightarrow> parse_type_name s)"
proof -
  have l: "last s \<noteq> CHR ''?'' \<and> last s \<noteq> CHR '']''" "s \<noteq> []"
    using shown_ends [OF assms] ident_byte_not [of "last s"] by auto
  have "strip_suffix ''?'' s = None"
  proof (cases "strip_suffix ''?'' s")
    case (Some r) with l show ?thesis by (simp add: strip_suffix_Some)
  qed
  moreover have "strip_suffix ''[]'' s = None"
  proof (cases "strip_suffix ''[]'' s")
    case (Some r) with l show ?thesis by (simp add: strip_suffix_Some)
  qed
  ultimately show ?thesis using l
    by (subst parse_type_annotation.simps) (simp add: shown_trim [OF assms] Let_def)
qed

lemma parse_one:
  "list_all ident_byte w \<Longrightarrow> w \<noteq> [] \<Longrightarrow> shown a \<Longrightarrow> map_of unary_wrappers w = Some f \<Longrightarrow> parse_type_annotation a = Inr t
    \<Longrightarrow> parse_type_annotation (wrapped w [a]) = Inr (f t)"
  by (simp add: parse_shown [OF wrapped_shown1] match_wrapper_one)

lemma parse_two:
  "list_all ident_byte w \<Longrightarrow> w \<noteq> [] \<Longrightarrow> shown a \<Longrightarrow> shown b \<Longrightarrow> map_of unary_wrappers w = None \<Longrightarrow> map_of binary_wrappers w = Some f
    \<Longrightarrow> parse_type_annotation a = Inr t \<Longrightarrow> parse_type_annotation b = Inr u
    \<Longrightarrow> parse_type_annotation (wrapped w [a, b]) = Inr (f t u)"
  by (simp add: parse_shown [OF wrapped_shown2] match_wrapper_two)

lemma parse_named: "shown s \<Longrightarrow> list_all ident_byte s \<Longrightarrow> parse_type_annotation s = parse_type_name s"
  by (simp add: parse_shown match_wrapper_name)

lemma parse_builtin: "map_of builtin_types s = Some t \<Longrightarrow> parse_type_annotation s = Inr t"
  using builtin_display [of s t] by (simp add: parse_named builtin_shown parse_type_name_def)

lemma optional_wf: "\<not> is_optional t \<Longrightarrow> ty_optional t = TyOptional t"
  by (cases t) simp_all

text \<open>A displayed type parses back to the type: for every type with proper record names and no directly
  nested optional, \<open>parse_annotation\<close> of its display name is the type.\<close>

theorem displayed_type_parses:
  "wf_type t \<Longrightarrow> parse_type_annotation (display_name t) = Inr t"
proof (induction t)
  case (TyRecord name)
  then have n: "list_all ident_byte name" "name \<noteq> []" using identifier_bytes by auto
  then have "shown name" by (simp add: shown.name)
  with TyRecord n show ?case by (simp add: parse_named parse_type_name_def)
next
  case (TyMap t u)
  then show ?case using parse_two [OF ident_names(2) _ display_shown display_shown, of t u TyMap t u]
    by (simp add: unary_wrappers_def binary_wrappers_def)
next
  case (TyResult t u)
  then show ?case using parse_two [OF ident_names(5) _ display_shown display_shown, of t u TyResult t u]
    by (simp add: unary_wrappers_def binary_wrappers_def)
next
  case (TyResource t u)
  then show ?case using parse_two [OF ident_names(9) _ display_shown display_shown, of t u TyResource t u]
    by (simp add: unary_wrappers_def binary_wrappers_def)
next
  case (TyList t)
  then show ?case using parse_one [OF ident_names(1) _ display_shown, of t TyList t] by (simp add: unary_wrappers_def)
next
  case (TySet t)
  then show ?case using parse_one [OF ident_names(3) _ display_shown, of t TySet t] by (simp add: unary_wrappers_def)
next
  case (TyOptional t)
  then show ?case using parse_one [OF ident_names(4) _ display_shown, of t ty_optional t]
    by (simp add: unary_wrappers_def optional_wf)
next
  case (TySecret t)
  then show ?case using parse_one [OF ident_names(6) _ display_shown, of t TySecret t] by (simp add: unary_wrappers_def)
next
  case (TyPublic t)
  then show ?case using parse_one [OF ident_names(7) _ display_shown, of t TyPublic t] by (simp add: unary_wrappers_def)
next
  case (TySignal t)
  then show ?case using parse_one [OF ident_names(8) _ display_shown, of t TySignal t] by (simp add: unary_wrappers_def)
qed (simp_all add: parse_builtin builtin_types_def)

theorem displayed_type_parses_witness:
  "parse_type_annotation (display_name (TyMap TyString (TyList (TyOptional (TyRecord ''Post''))))) =
     Inr (TyMap TyString (TyList (TyOptional (TyRecord ''Post''))))"
  by (rule displayed_type_parses)
    (simp add: is_type_identifier_def is_alphanumeric_def is_digit_def code_def builtin_types_def)

subsection \<open>Values of a type\<close>

lemma size_bm_value: "bm_get fs n = Some v \<Longrightarrow> size v < Suc (size_list (size_prod (\<lambda>_. 0) size) fs)"
proof -
  assume "bm_get fs n = Some v"
  then have "(n, v) \<in> set fs" by (rule bm_get_mem)
  then show ?thesis by (induction fs) auto
qed

lemma size_pair_value: "(n, v) \<in> set fs \<Longrightarrow> size v < Suc (size_list (size_prod (\<lambda>_. 0) size) fs)"
  by (induction fs) auto

fun is_byte_value :: "ax_value \<Rightarrow> bool" where
  "is_byte_value (AvNumber i) = (0 \<le> sint i \<and> sint i \<le> 255)"
| "is_byte_value _ = False"

fun is_file_ref :: "ax_value \<Rightarrow> bool" where
  "is_file_ref (AvRecord fs) =
     (is_av_string (record_get fs ''id'') \<and> is_av_string (record_get fs ''storage'') \<and> is_av_string (record_get fs ''file_name'')
      \<and> (record_get fs ''content_type'' = AvNull \<or> is_av_string (record_get fs ''content_type''))
      \<and> (case record_get fs ''size'' of AvNumber _ \<Rightarrow> True | _ \<Rightarrow> False))"
| "is_file_ref _ = False"

function has_type :: "data_context \<Rightarrow> ax_type \<Rightarrow> ax_value \<Rightarrow> bool" where
  "has_type c ty v =
     (case ty of
        TyString \<Rightarrow> is_av_string v
      | TyNumber \<Rightarrow> (case v of AvNumber _ \<Rightarrow> True | AvFloat _ \<Rightarrow> True | _ \<Rightarrow> False)
      | TyInt \<Rightarrow> (case v of AvNumber _ \<Rightarrow> True | _ \<Rightarrow> False)
      | TyFloat \<Rightarrow> (case v of AvNumber _ \<Rightarrow> True | AvFloat _ \<Rightarrow> True | _ \<Rightarrow> False)
      | TyDecimal \<Rightarrow> (case v of AvNumber _ \<Rightarrow> True | AvFloat _ \<Rightarrow> True | AvString s \<Rightarrow> is_valid_decimal s | _ \<Rightarrow> False)
      | TyBool \<Rightarrow> (case v of AvBool _ \<Rightarrow> True | _ \<Rightarrow> False)
      | TyDateTime \<Rightarrow> (case v of AvString s \<Rightarrow> is_valid_datetime s | _ \<Rightarrow> False)
      | TyDate \<Rightarrow> (case v of AvString s \<Rightarrow> is_valid_date s | _ \<Rightarrow> False)
      | TyTime \<Rightarrow> (case v of AvString s \<Rightarrow> is_valid_time s | _ \<Rightarrow> False)
      | TyUuid \<Rightarrow> (case v of AvString s \<Rightarrow> is_valid_uuid s | _ \<Rightarrow> False)
      | TyBytes \<Rightarrow> (case v of AvList vs \<Rightarrow> list_all is_byte_value vs | _ \<Rightarrow> False)
      | TyFile \<Rightarrow> False
      | TyFileRef \<Rightarrow> is_file_ref v
      | TyJson \<Rightarrow> True
      | TyNever \<Rightarrow> False
      | TyVoid \<Rightarrow> v = AvNull
      | TyList t \<Rightarrow> (case v of AvList vs \<Rightarrow> \<forall>x \<in> set vs. has_type c t x | _ \<Rightarrow> False)
      | TySet t \<Rightarrow> (case v of AvList vs \<Rightarrow> \<forall>x \<in> set vs. has_type c t x | _ \<Rightarrow> False)
      | TyMap k t \<Rightarrow> (case v of AvRecord fs \<Rightarrow> \<forall>p \<in> set fs. has_type c t (snd p) | _ \<Rightarrow> False)
      | TyOptional t \<Rightarrow> v = AvNull \<or> has_type c t v
      | TyResult t u \<Rightarrow>
          (case v of AvRecord [(n, x)] \<Rightarrow> n = ''Ok'' \<and> has_type c t x \<or> n = ''Err'' \<and> has_type c u x | _ \<Rightarrow> False)
      | TySecret t \<Rightarrow> has_type c t v
      | TyPublic t \<Rightarrow> has_type c t v
      | TySignal t \<Rightarrow> has_type c t v
      | TyResource t u \<Rightarrow> False
      | TyRecord name \<Rightarrow>
          (case bm_get (ctx_unions c) name of
             Some literals \<Rightarrow> (case v of AvString s \<Rightarrow> s \<in> set literals | _ \<Rightarrow> False)
           | None \<Rightarrow>
               (case v of
                  AvRecord fs \<Rightarrow>
                    (case bm_get (ctx_records c) name of
                       None \<Rightarrow> True
                     | Some r \<Rightarrow>
                         \<forall>p \<in> set (record_fields r).
                           (case bm_get fs (fst p) of None \<Rightarrow> is_optional (snd p) | Some x \<Rightarrow> has_type c (snd p) x))
                | _ \<Rightarrow> False))
      | TyUnknown \<Rightarrow> True)"
  by pat_completeness auto
termination
  by (relation "inv_image (less_than <*lex*> less_than) (\<lambda>(c, t, v). (size v, size t))")
    (auto simp: less_Suc_eq_le size_list_estimation' dest: size_bm_value size_pair_value intro: size_list_estimation')

declare has_type.simps [simp del]


lemma has_type_simps [simp]:
  "has_type c TyString v = is_av_string v"
  "has_type c TyNumber v = (case v of AvNumber _ \<Rightarrow> True | AvFloat _ \<Rightarrow> True | _ \<Rightarrow> False)"
  "has_type c TyInt v = (case v of AvNumber _ \<Rightarrow> True | _ \<Rightarrow> False)"
  "has_type c TyFloat v = (case v of AvNumber _ \<Rightarrow> True | AvFloat _ \<Rightarrow> True | _ \<Rightarrow> False)"
  "has_type c TyBool v = (case v of AvBool _ \<Rightarrow> True | _ \<Rightarrow> False)"
  "has_type c TyFileRef v = is_file_ref v"
  "has_type c TyJson v = True"
  "has_type c TyUnknown v = True"
  "has_type c TyVoid v = (v = AvNull)"
  "has_type c (TyList t) v = (case v of AvList vs \<Rightarrow> \<forall>x \<in> set vs. has_type c t x | _ \<Rightarrow> False)"
  "has_type c (TySet t) v = (case v of AvList vs \<Rightarrow> \<forall>x \<in> set vs. has_type c t x | _ \<Rightarrow> False)"
  "has_type c (TyMap k t) v = (case v of AvRecord fs \<Rightarrow> \<forall>p \<in> set fs. has_type c t (snd p) | _ \<Rightarrow> False)"
  "has_type c (TyOptional t) v = (v = AvNull \<or> has_type c t v)"
  "has_type c (TyPublic t) v = has_type c t v"
  "has_type c (TySecret t) v = has_type c t v"
  "has_type c (TySignal t) v = has_type c t v"
  by (subst has_type.simps, simp)+

lemma has_type_record: "has_type c (TyRecord name) v =
    (case bm_get (ctx_unions c) name of
       Some literals \<Rightarrow> (case v of AvString s \<Rightarrow> s \<in> set literals | _ \<Rightarrow> False)
     | None \<Rightarrow>
         (case v of
            AvRecord fs \<Rightarrow>
              (case bm_get (ctx_records c) name of
                 None \<Rightarrow> True
               | Some r \<Rightarrow>
                   \<forall>p \<in> set (record_fields r).
                     (case bm_get fs (fst p) of None \<Rightarrow> is_optional (snd p) | Some x \<Rightarrow> has_type c (snd p) x))
          | _ \<Rightarrow> False))"
  by (subst has_type.simps) simp

lemma has_type_optional [simp]: "has_type c (ty_optional t) v = (v = AvNull \<or> has_type c t v)"
  by (cases t) simp_all

subsection \<open>Failures the types exclude\<close>

definition type_messages :: "string list" where
  "type_messages =
     [''`+` requires two numbers or a String with a scalar operand'', ''`+` concatenation requires scalar operands'',
      ''`-` expects numbers'', ''`*` expects numbers'', ''`/` expects numbers'', ''`%` expects numbers'',
      ''unary `-` expects a number'']"

fun type_failure :: "eval_failure \<Rightarrow> bool" where
  "type_failure (Raised (UnknownIdentifier x)) = True"
| "type_failure (Raised (UnsupportedExpression m)) = (m \<in> set type_messages)"
| "type_failure _ = False"

definition fits :: "data_context \<Rightarrow> ax_type \<Rightarrow> eval_result \<Rightarrow> bool" where
  "fits c t r = (case r of Inr v \<Rightarrow> has_type c t v | Inl f \<Rightarrow> \<not> type_failure f)"

lemma fits_simps [simp]: "fits c t (Inr v) = has_type c t v" "fits c t (Inl f) = (\<not> type_failure f)"
  by (simp_all add: fits_def)

lemma fits_and_then:
  "fits c t m \<Longrightarrow> (\<And>v. m = Inr v \<Longrightarrow> has_type c t v \<Longrightarrow> fits c u (f v)) \<Longrightarrow> fits c u (and_then m f)"
  by (cases m) simp_all

lemma numeric_cases:
  assumes "is_numeric_type t" and "has_type c t v"
  obtains (int) i where "v = AvNumber i" | (float) f where "v = AvFloat f" "t \<noteq> TyInt"
  using assms by (cases v) (auto simp: is_numeric_type_def)

lemma promote_numeric:
  "is_numeric_type (promote_numeric_type a b)" "promote_numeric_type a b = TyInt \<longleftrightarrow> a = TyInt \<and> b = TyInt"
  by (auto simp: promote_numeric_type_def is_numeric_type_def)

lemma numeric_number: "is_numeric_type t \<Longrightarrow> has_type c t (AvNumber i)"
  "is_numeric_type t \<Longrightarrow> t \<noteq> TyInt \<Longrightarrow> has_type c t (AvFloat f)"
  by (auto simp: is_numeric_type_def)

lemma finite_float_fits:
  assumes "is_numeric_type t" "t \<noteq> TyInt" "operator @ '' produced a non-finite Float'' \<notin> set type_messages"
  shows "fits c t (finite_float_value x operator)"
  using assms by (auto simp: finite_float_value_def unsupported_def numeric_number split: option.splits)

lemma scalar_of_type: "has_type c t v \<Longrightarrow> t \<in> {TyString, TyBool} \<or> is_numeric_type t \<Longrightarrow> ax_scalar v \<noteq> None"
  by (cases v) (auto simp: is_numeric_type_def)

lemma add_fits:
  assumes "add_type a b = Inr t" and "has_type c a v" and "has_type c b w" and "a \<noteq> TyUnknown" and "b \<noteq> TyUnknown"
  shows "fits c t (add_values v w)"
proof (cases "is_numeric_type a \<and> is_numeric_type b")
  case True
  then have t: "t = promote_numeric_type a b" using assms(1) by (simp add: add_type_def)
  have f: "fits c t (finite_float_value x ''`+`'')" if "t \<noteq> TyInt" for x
    by (rule finite_float_fits [OF _ that]) (auto simp: t promote_numeric type_messages_def)
  have n: "has_type c t (AvNumber i)" for i by (simp add: t numeric_number promote_numeric)
  show ?thesis
  proof (rule numeric_cases [OF conjunct1 [OF True] assms(2)]; rule numeric_cases [OF conjunct2 [OF True] assms(3)])
    fix i j assume "v = AvNumber i" "w = AvNumber j"
    then show ?thesis using n by (auto simp: add_values_def unsupported_def type_messages_def split: option.splits)
  qed (use f t promote_numeric in \<open>auto simp: add_values_def\<close>)
next
  case False
  then have t: "t = TyString"
    and ab: "a = TyString \<and> (b \<in> {TyString, TyBool} \<or> is_numeric_type b) \<or> b = TyString \<and> (a \<in> {TyString, TyBool} \<or> is_numeric_type a)"
    using assms(1,4,5) by (auto simp: add_type_def split: if_splits)
  then have "is_av_string v \<or> is_av_string w" using assms(2,3) by auto
  moreover have "ax_scalar v \<noteq> None" "ax_scalar w \<noteq> None"
    using ab assms(2,3) scalar_of_type [of c a v] scalar_of_type [of c b w] by auto
  ultimately show ?thesis unfolding t
    by (cases v; cases w) (auto simp: add_values_def unsupported_def)
qed

lemma arithmetic_fits:
  assumes "arithmetic_type a b = Inr t" and "has_type c a v" and "has_type c b w" and "a \<noteq> TyUnknown" and "b \<noteq> TyUnknown"
    and iop: "\<And>i j f. iop i j = Inl f \<Longrightarrow> \<not> type_failure f"
    and msgs: "operator @ '' produced a non-finite Float'' \<notin> set type_messages"
      "operator @ '' cannot use zero as the right operand'' \<notin> set type_messages"
  shows "fits c t (eval_numeric_binary v w iop fop operator z)"
proof -
  have n: "is_numeric_type a" "is_numeric_type b" and t: "t = promote_numeric_type a b"
    using assms(1,4,5) by (auto simp: arithmetic_type_def is_numeric_type_def split: if_splits)
  have f: "fits c t (finite_float_value x operator)" if "t \<noteq> TyInt" for x
    by (rule finite_float_fits [OF _ that msgs(1)]) (simp add: t promote_numeric)
  have i: "fits c t (and_then (iop i j) (\<lambda>k. Inr (AvNumber k)))" for i j
    using iop [of i j] by (cases "iop i j") (auto simp: t numeric_number promote_numeric)
  have z: "fits c t (unsupported (operator @ '' cannot use zero as the right operand''))"
    using msgs(2) by (simp add: unsupported_def)
  show ?thesis
    by (rule numeric_cases [OF n(1) assms(2)]; rule numeric_cases [OF n(2) assms(3)])
      (use f i z t promote_numeric in \<open>auto simp: eval_numeric_binary_def\<close>)
qed

lemma plain_int_no_type: "plain_int_op ck ex wr m i j = Inl f \<Longrightarrow> \<not> type_failure f"
  by (auto simp: plain_int_op_def split: option.splits if_splits)

lemma checked_int_no_type: "ok_or (Panicked m) r = Inl f \<Longrightarrow> \<not> type_failure f"
  by (cases r) auto

lemma compare_fits:
  assumes "operator @ '' expects comparable values'' \<notin> set type_messages"
  shows "fits c TyBool (eval_compare_binary v w op operator)"
  using assms by (auto simp: eval_compare_binary_def compare_floats_def unsupported_def split: ax_value.splits option.splits)

subsection \<open>Expressions the checker looks through\<close>

definition is_typed :: "data_context \<Rightarrow> ax_expr \<Rightarrow> bool" where
  "is_typed c e = (case resolve_expr_type c e of Inr _ \<Rightarrow> True | Inl _ \<Rightarrow> False)"

text \<open>The right operand of \<open>??\<close> has the type of the result, where it can be evaluated.\<close>

definition number_subtype :: "ax_type \<Rightarrow> ax_type \<Rightarrow> bool" where
  "number_subtype a b = (a = b \<or> is_numeric_type a \<and> b \<in> {TyNumber, TyFloat})"

lemma number_subtype_fits: "number_subtype a b \<Longrightarrow> fits c a r \<Longrightarrow> fits c b r"
  by (cases r) (auto simp: number_subtype_def is_numeric_type_def split: ax_value.splits)

definition fallback_agrees :: "data_context \<Rightarrow> ax_type \<Rightarrow> ax_type \<Rightarrow> bool" where
  "fallback_agrees c a b = (case a of TyOptional t \<Rightarrow> number_subtype b t | _ \<Rightarrow> a = b \<or> a = TyJson \<or> \<not> has_type c a AvNull)"

definition operands_known :: "data_context \<Rightarrow> ax_binary_op \<Rightarrow> ax_type \<Rightarrow> ax_type \<Rightarrow> bool" where
  "operands_known c op a b =
     (if op \<in> {OpAdd, OpSub, OpMul, OpDiv, OpRem} then a \<noteq> TyUnknown \<and> b \<noteq> TyUnknown
      else if op = OpFallback then fallback_agrees c a b else True)"

fun checked :: "data_context \<Rightarrow> ax_expr \<Rightarrow> bool" where
  "checked c (ExList es) = list_all (\<lambda>e. checked c e \<and> is_typed c e) es"
| "checked c (ExObject fs) = (bm_ok fs \<and> list_all (\<lambda>(n, e). checked c e \<and> is_typed c e) fs)"
| "checked c (ExIdentifier x) = (x \<noteq> ''null'')"
| "checked c (ExUnary op e) = (checked c e \<and> (op = OpNeg \<longrightarrow> resolve_expr_type c e \<noteq> Inr TyUnknown))"
| "checked c (ExBinary op l r) =
     (checked c l \<and> checked c r
      \<and> (case (resolve_expr_type c l, resolve_expr_type c r) of
           (Inr a, Inr b) \<Rightarrow> operands_known c op a b
         | _ \<Rightarrow> False))"
| "checked c (ExIndex obj i) =
     (checked c obj \<and> checked c i \<and> is_typed c i
      \<and> (case resolve_expr_type c obj of
           Inr (TyList t) \<Rightarrow> has_type c t AvNull
         | Inr (TyMap _ t) \<Rightarrow> has_type c t AvNull
         | _ \<Rightarrow> True))"
| "checked c (ExMember obj p) = checked c obj"
| "checked c (ExOptionalMember obj p) = checked c obj"
| "checked c (ExCall path args) = False"
| "checked c _ = True"

definition scope_fits :: "data_context \<Rightarrow> (string, ax_value) bmap \<Rightarrow> bool" where
  "scope_fits c scope = (\<forall>(x, t) \<in> set (ctx_bindings c).
     case bm_get scope x of None \<Rightarrow> False | Some v \<Rightarrow> has_type c t v)"

lemma scope_fits_get:
  "scope_fits c scope \<Longrightarrow> bm_get (ctx_bindings c) x = Some t \<Longrightarrow> \<exists>v. bm_get scope x = Some v \<and> has_type c t v"
  using bm_get_mem [of "ctx_bindings c" x t] by (cases "bm_get scope x") (auto simp: scope_fits_def)

subsection \<open>Evaluation keeps the type\<close>

lemma try_map_Inl: "try_map f xs = Inl e \<Longrightarrow> \<exists>x \<in> set xs. f x = Inl e"
proof (induction xs)
  case (Cons x xs)
  show ?case
  proof (cases "f x")
    case (Inr y)
    with Cons.prems have "try_map f xs = Inl e" by (cases "try_map f xs") simp_all
    with Cons.IH show ?thesis by simp
  qed (use Cons.prems in simp)
qed simp

lemma fits_try_map:
  assumes "\<And>x. x \<in> set xs \<Longrightarrow> fits c t (f x)"
  shows "fits c (TyList t) (and_then (try_map f xs) (\<lambda>vs. Inr (AvList vs)))"
proof (cases "try_map f xs")
  case (Inl e)
  from try_map_Inl [OF Inl] obtain x where "x \<in> set xs" "f x = Inl e" by (elim bexE)
  with assms [of x] Inl show ?thesis by simp
next
  case (Inr vs)
  then have "list_all2 (\<lambda>x y. f x = Inr y) xs vs" by (simp add: try_map_Inr)
  then have "\<forall>y \<in> set vs. \<exists>x \<in> set xs. f x = Inr y" by (induction rule: list_all2_induct) simp_all
  then have "\<forall>y \<in> set vs. has_type c t y" using assms by (metis fits_simps(1))
  with Inr show ?thesis by simp
qed

lemma field_map_get:
  "try_map (\<lambda>(n, e). and_then (f e) (\<lambda>v. Inr (n, v))) fs = Inr kvs \<Longrightarrow>
    map fst kvs = map fst fs \<and> (\<forall>p e. bm_get fs p = Some e \<longrightarrow> (\<exists>v. bm_get kvs p = Some v \<and> f e = Inr v))"
proof (induction fs arbitrary: kvs)
  case Nil
  then show ?case by simp
next
  case (Cons x fs)
  obtain n e where x: "x = (n, e)" by (cases x)
  obtain v kvs' where "f e = Inr v" "kvs = (n, v) # kvs'"
      "try_map (\<lambda>(n, e). and_then (f e) (\<lambda>v. Inr (n, v))) fs = Inr kvs'"
    using Cons.prems x by (auto simp: and_then_Inr_iff)
  with Cons.IH [of kvs'] x show ?case by (auto simp: bm_get_def)
qed

lemma bm_ok_keys: "map fst a = map fst b \<Longrightarrow> bm_ok a = bm_ok b"
  by (simp add: bm_ok_def)

text \<open>A field of an object literal is the value of its expression.\<close>

lemma object_field:
  assumes "bm_ok fs" and "bm_get fs p = Some e"
    and "and_then (try_map (\<lambda>(n, e). and_then (f e) (\<lambda>v. Inr (n, v))) fs) (\<lambda>kvs. Inr (AvRecord (bm_of_list kvs))) = Inr v"
  shows "\<exists>kvs x. v = AvRecord kvs \<and> f e = Inr x \<and> record_get kvs p = x"
proof -
  obtain kvs where k: "try_map (\<lambda>(n, e). and_then (f e) (\<lambda>v. Inr (n, v))) fs = Inr kvs" "v = AvRecord (bm_of_list kvs)"
    using assms(3) by (auto simp: and_then_Inr_iff)
  obtain x where x: "bm_get kvs p = Some x" "f e = Inr x" using field_map_get [OF k(1)] assms(2) by blast
  have "bm_of_list kvs = kvs" using field_map_get [OF k(1)] assms(1) bm_of_list_sorted [of kvs] bm_ok_keys [of kvs fs] by simp
  with k(2) x show ?thesis by (simp add: record_get_def)
qed

lemma object_failure:
  assumes "and_then (try_map (\<lambda>(n, e). and_then (f e) (\<lambda>v. Inr (n, v))) fs) (\<lambda>kvs. Inr (AvRecord (bm_of_list kvs))) = Inl x"
  shows "\<exists>(n, e) \<in> set fs. f e = Inl x"
proof -
  have "try_map (\<lambda>(n, e). and_then (f e) (\<lambda>v. Inr (n, v))) fs = Inl x" using assms by (simp add: and_then_Inl_iff)
  from try_map_Inl [OF this] obtain q where
    q: "q \<in> set fs" "(case q of (n, e) \<Rightarrow> and_then (f e) (\<lambda>v. Inr (n, v))) = Inl x" by (elim bexE)
  obtain n e where ne: "q = (n, e)" by (cases q)
  have "f e = Inl x" using q(2) unfolding ne by (cases "f e") simp_all
  with q(1) ne show ?thesis by blast
qed

lemma member_fits:
  "resolve_member_type c t p = Inr u \<Longrightarrow> has_type c t (AvRecord fs) \<Longrightarrow> has_type c u (record_get fs p)"
proof (induction t)
  case (TyRecord name)
  then obtain r where r: "bm_get (ctx_records c) name = Some r" "bm_get (record_fields r) p = Some u"
    by (cases "bm_get (ctx_records c) name") (auto split: option.splits simp: ok_or_def)
  have "\<forall>q \<in> set (record_fields r). (case bm_get fs (fst q) of None \<Rightarrow> is_optional (snd q) | Some x \<Rightarrow> has_type c (snd q) x)"
    using TyRecord(2) r(1) by (cases "bm_get (ctx_unions c) name") (simp_all add: has_type_record)
  from bspec [OF this bm_get_mem [OF r(2)]]
  have f: "case bm_get fs p of None \<Rightarrow> is_optional u | Some x \<Rightarrow> has_type c u x" unfolding fst_conv snd_conv .
  show ?case
  proof (cases "bm_get fs p")
    case None
    with f have "is_optional u" by simp
    then obtain w where "u = TyOptional w" by (cases u) simp_all
    with None show ?thesis by (simp add: record_get_def)
  qed (use f in \<open>simp add: record_get_def\<close>)
qed (auto split: if_splits)

lemma fallback_fits:
  assumes "has_type c a v" and "fallback_agrees c a b"
  shows "v \<noteq> AvNull \<Longrightarrow> has_type c (fallback_type a b) v"
    and "v = AvNull \<Longrightarrow> fits c b r \<Longrightarrow> fits c (fallback_type a b) r"
  using assms number_subtype_fits [of b _ c r] by (cases a; auto simp: fallback_agrees_def fits_def split: sum.splits)+

lemma list_type_cases:
  assumes "resolve_list_type f es = Inr t"
  obtains u where "t = TyList u" "\<And>e. e \<in> set es \<Longrightarrow> f e = Inr u" | "t = TyList TyUnknown"
proof -
  have r: "rest_type f u es = Inr t \<Longrightarrow> t = TyList TyUnknown \<or> t = TyList u \<and> (\<forall>e \<in> set es. f e = Inr u)" for u es
    by (induction es) (auto simp: and_then_Inr_iff split: if_splits)
  show thesis
  proof (cases es)
    case Nil
    with assms that(2) show ?thesis by simp
  next
    case (Cons x xs)
    with assms obtain u where "f x = Inr u" "rest_type f u xs = Inr t" by (auto simp: and_then_Inr_iff)
    with r [of u xs] Cons that show ?thesis by auto
  qed
qed

lemma fits_unknown_list: "fits c u r \<Longrightarrow> fits c TyUnknown r"
  by (cases r) simp_all

lemma binary_fits:
  assumes "binary_type op a b = Inr t" and "has_type c a v" and "has_type c b w" and "operands_known c op a b"
    and "op \<notin> {OpAnd, OpOr, OpFallback}"
  shows "fits c t (eval_binary_expr ck op v w)"
proof (cases op)
  case OpAdd
  with assms show ?thesis using add_fits [of a b t c v w] by (simp add: eval_binary_expr_def operands_known_def)
next
  case OpSub
  with assms show ?thesis using arithmetic_fits [of a b t c v w _ "''`-`''"]
    by (simp add: eval_binary_expr_def operands_known_def plain_int_no_type type_messages_def)
next
  case OpMul
  with assms show ?thesis using arithmetic_fits [of a b t c v w _ "''`*`''"]
    by (simp add: eval_binary_expr_def operands_known_def plain_int_no_type type_messages_def)
next
  case OpDiv
  with assms show ?thesis using arithmetic_fits [of a b t c v w
      "\<lambda>a b. ok_or (Panicked ''attempt to divide with overflow'') (checked_div a b)" "''`/`''", OF _ _ _ _ _ checked_int_no_type]
    by (simp add: eval_binary_expr_def operands_known_def type_messages_def)
next
  case OpRem
  with assms show ?thesis using arithmetic_fits [of a b t c v w
      "\<lambda>a b. ok_or (Panicked ''attempt to calculate the remainder with overflow'') (checked_rem a b)" "''`%`''", OF _ _ _ _ _ checked_int_no_type]
    by (simp add: eval_binary_expr_def operands_known_def type_messages_def)
next
  case OpIn
  with assms(1) show ?thesis
    by (cases w) (auto simp: eval_binary_expr_def unsupported_def type_messages_def)
qed (use assms in \<open>simp_all add: eval_binary_expr_def compare_fits type_messages_def\<close>)

lemma index_no_type: "eval_index_expr v w = Inl f \<Longrightarrow> \<not> type_failure f"
  by (auto simp: eval_index_expr_def unsupported_def type_messages_def split: ax_value.splits if_splits)

lemma index_list_fits:
  assumes "has_type c (TyList t) v" and "has_type c t AvNull"
  shows "fits c t (eval_index_expr v w)"
proof (cases v)
  case (AvList vs)
  have n: "\<not> type_failure (Raised (UnsupportedExpression ''index access expects List[Number] or Record[String]''))"
    by (simp add: type_messages_def)
  show ?thesis
  proof (cases w)
    case (AvNumber i)
    then show ?thesis using AvList assms by (simp add: eval_index_expr_def)
  qed (use AvList n in \<open>simp_all add: eval_index_expr_def unsupported_def\<close>)
qed (use assms in simp_all)

lemma record_get_mem: "record_get fs p = AvNull \<or> (\<exists>q \<in> set fs. snd q = record_get fs p)"
  using bm_get_mem [of fs p] by (cases "bm_get fs p") (auto simp: record_get_def intro: rev_bexI)

lemma index_map_fits:
  assumes "has_type c (TyMap k t) v" and "has_type c t AvNull"
  shows "fits c t (eval_index_expr v w)"
proof (cases v)
  case (AvRecord fs)
  have n: "\<not> type_failure (Raised (UnsupportedExpression ''index access expects List[Number] or Record[String]''))"
    by (simp add: type_messages_def)
  show ?thesis
  proof (cases w)
    case (AvString p)
    then show ?thesis using AvRecord assms record_get_mem [of fs p] by (auto simp: eval_index_expr_def)
  qed (use AvRecord n in \<open>simp_all add: eval_index_expr_def unsupported_def\<close>)
qed (use assms in simp_all)


subsection \<open>The theorem\<close>

lemma is_typed_D: "is_typed c e \<Longrightarrow> \<exists>t. resolve_expr_type c e = Inr t"
  by (cases "resolve_expr_type c e") (simp_all add: is_typed_def)

lemma typed_list:
  assumes "list_all (\<lambda>e. checked c e \<and> is_typed c e) es" and "resolve_list_type (resolve_expr_type c) es = Inr t"
    and "\<And>e u. e \<in> set es \<Longrightarrow> resolve_expr_type c e = Inr u \<Longrightarrow> checked c e \<Longrightarrow> fits c u (f e)"
  shows "fits c t (and_then (try_map f es) (\<lambda>vs. Inr (AvList vs)))"
  using assms(2)
proof (cases rule: list_type_cases)
  case (1 u)
  then show ?thesis using fits_try_map [of es c u f] assms by (simp add: list_all_iff)
next
  case 2
  have "fits c TyUnknown (f e)" if e: "e \<in> set es" for e
  proof -
    obtain u where "resolve_expr_type c e = Inr u" using assms(1) e is_typed_D [of c e] by (auto simp: list_all_iff)
    then have "fits c u (f e)" using assms(1,3) e by (simp add: list_all_iff)
    then show ?thesis by (rule fits_unknown_list)
  qed
  then show ?thesis using fits_try_map [of es c TyUnknown f] 2 by simp
qed

definition object_value :: "(ax_expr \<Rightarrow> eval_result) \<Rightarrow> (string \<times> ax_expr) list \<Rightarrow> eval_result" where
  "object_value f fs = and_then (try_map (\<lambda>(n, e). and_then (f e) (\<lambda>v. Inr (n, v))) fs) (\<lambda>kvs. Inr (AvRecord (bm_of_list kvs)))"

definition fields_fit :: "data_context \<Rightarrow> (ax_expr \<Rightarrow> eval_result) \<Rightarrow> (string \<times> ax_expr) list \<Rightarrow> bool" where
  "fields_fit c f fs = (\<forall>q \<in> set fs. \<exists>u. resolve_expr_type c (snd q) = Inr u \<and> fits c u (f (snd q)))"

lemma object_no_type:
  assumes "fields_fit c f fs" and "object_value f fs = Inl x"
  shows "\<not> type_failure x"
proof -
  from object_failure [OF assms(2) [unfolded object_value_def]] obtain n e where "(n, e) \<in> set fs" "f e = Inl x" by blast
  with assms(1) show ?thesis by (force simp: fields_fit_def)
qed

lemma object_shape: "object_value f fs = Inr v \<Longrightarrow> \<exists>kvs. v = AvRecord kvs"
  by (auto simp: object_value_def and_then_Inr_iff)

lemma object_member_fits:
  assumes "fields_fit c f fs" and "bm_ok fs" and "bm_get fs p = Some x" and "resolve_expr_type c x = Inr t"
    and "object_value f fs = Inr v"
  shows "\<exists>kvs. v = AvRecord kvs \<and> has_type c t (record_get kvs p)"
proof -
  obtain kvs y where k: "v = AvRecord kvs" "f x = Inr y" "record_get kvs p = y"
    using object_field [OF assms(2,3) assms(5) [unfolded object_value_def]] by blast
  have "\<exists>u. resolve_expr_type c x = Inr u \<and> fits c u (f x)"
    using assms(1) bm_get_mem [OF assms(3)] by (force simp: fields_fit_def)
  with k assms(4) show ?thesis by auto
qed

lemma eval_object: "eval_expr ck fns res n scope (ExObject fs) = object_value (eval_expr ck fns res n scope) fs"
  by (simp add: object_value_def)

lemma member_resolve:
  assumes "resolve_expr_type c (ExMember obj p) = Inr t"
  obtains (literal) fs x where "obj = ExObject fs" "bm_get fs p = Some x" "resolve_expr_type c x = Inr t"
  | (typed) u where "resolve_expr_type c obj = Inr u" "resolve_member_type c u p = Inr t"
  using assms by (cases obj) (auto simp: and_then_Inr_iff split: option.splits)

lemma optional_resolve:
  assumes "resolve_expr_type c (ExOptionalMember obj p) = Inr t"
  obtains (literal) fs x u where "obj = ExObject fs" "bm_get fs p = Some x" "resolve_expr_type c x = Inr u" "t = ty_optional u"
  | (typed) u w where "resolve_expr_type c obj = Inr u" "resolve_member_type c u p = Inr w" "t = ty_optional w"
  | (unknown) u where "resolve_expr_type c obj = Inr u" "t = TyUnknown"
proof -
  have v: "and_then (resolve_expr_type c obj) (\<lambda>t. case resolve_member_type c t p of
              Inr u \<Rightarrow> Inr (ty_optional u)
            | Inl (UnknownField _ _) \<Rightarrow> Inr TyUnknown
            | Inl (CannotAccessField _ _) \<Rightarrow> Inr TyUnknown
            | Inl e \<Rightarrow> Inl e) = Inr t \<Longrightarrow> thesis" (is "and_then _ ?f = _ \<Longrightarrow> _")
  proof -
    assume "and_then (resolve_expr_type c obj) ?f = Inr t"
    then obtain u where u: "resolve_expr_type c obj = Inr u" "?f u = Inr t" unfolding and_then_Inr_iff by (elim exE conjE)
    show thesis
    proof (cases "resolve_member_type c u p")
      case (Inr w)
      with u that(2) show ?thesis by simp
    next
      case (Inl e)
      then show ?thesis using u(2) by (cases e) (simp_all add: that(3) [OF u(1)])
    qed
  qed
  show thesis
  proof (cases obj)
    case (ExObject fs)
    then show ?thesis using assms that(1) [of fs] that(3) [of TyJson]
      by (auto simp: and_then_Inr_iff split: option.splits)
  qed (use assms v in simp_all)
qed

lemma index_resolve:
  assumes "resolve_expr_type c (ExIndex obj i) = Inr t"
  obtains (literal) fs p x where "obj = ExObject fs" "i = ExString p" "bm_get fs p = Some x" "resolve_expr_type c x = Inr t"
  | (items) "resolve_expr_type c obj = Inr (TyList t)"
  | (mapping) k where "resolve_expr_type c obj = Inr (TyMap k t)"
  | (rec) name p where "resolve_expr_type c obj = Inr (TyRecord name)" "i = ExString p"
      "resolve_member_type c (TyRecord name) p = Inr t"
  | (unknown) u where "resolve_expr_type c obj = Inr u" "t = TyUnknown"
proof -
  have v: "and_then (resolve_expr_type c obj) (\<lambda>t.
            case t of
              TyList item \<Rightarrow> Inr item
            | TyMap _ v \<Rightarrow> Inr v
            | TyRecord _ \<Rightarrow> (case i of ExString p \<Rightarrow> resolve_member_type c t p | _ \<Rightarrow> Inr TyUnknown)
            | TyUnknown \<Rightarrow> Inr TyUnknown
            | _ \<Rightarrow> Inl (CannotIndex (display_name t))) = Inr t \<Longrightarrow> thesis" (is "and_then _ ?f = _ \<Longrightarrow> _")
  proof -
    assume "and_then (resolve_expr_type c obj) ?f = Inr t"
    then obtain u where u: "resolve_expr_type c obj = Inr u" "?f u = Inr t" unfolding and_then_Inr_iff by (elim exE conjE)
    show thesis
    proof (cases u)
      case (TyList x)
      with u that(2) show ?thesis by simp
    next
      case (TyMap k x)
      with u that(3) show ?thesis by simp
    next
      case (TyRecord name)
      show ?thesis
      proof (cases i)
        case (ExString p)
        with u TyRecord that(4) show ?thesis by simp
      qed (use u TyRecord that(5) in simp_all)
    next
      case TyUnknown
      with u that(5) show ?thesis by simp
    qed (use u(2) in simp_all)
  qed
  show thesis
  proof (cases "\<exists>fs p. obj = ExObject fs \<and> i = ExString p")
    case True
    then show ?thesis using assms that(1) by (auto split: option.splits)
  next
    case False
    have "resolve_expr_type c (ExIndex obj i) = and_then (resolve_expr_type c obj) (\<lambda>t.
            case t of
              TyList item \<Rightarrow> Inr item
            | TyMap _ v \<Rightarrow> Inr v
            | TyRecord _ \<Rightarrow> (case i of ExString p \<Rightarrow> resolve_member_type c t p | _ \<Rightarrow> Inr TyUnknown)
            | TyUnknown \<Rightarrow> Inr TyUnknown
            | _ \<Rightarrow> Inl (CannotIndex (display_name t)))"
      using False by (cases obj; cases i; hypsubst; simp del: resolve_expr_type.simps add: resolve_expr_type.simps(10))
    with assms v show ?thesis by (simp only:)
  qed
qed


lemma optional_fits:
  assumes "fits c u r" and "\<And>fs. r = Inr (AvRecord fs) \<Longrightarrow> has_type c t (record_get fs p)" and "has_type c t AvNull"
  shows "fits c t (case r of
        Inl (Raised (UnknownIdentifier _)) \<Rightarrow> Inr AvNull
      | Inl (Raised (UnknownMember _)) \<Rightarrow> Inr AvNull
      | Inl failure \<Rightarrow> Inl failure
      | Inr (AvRecord flds) \<Rightarrow> Inr (record_get flds p)
      | Inr _ \<Rightarrow> Inr AvNull)"
proof (cases r)
  case (Inl f)
  show ?thesis
  proof (cases f)
    case (Raised x)
    then show ?thesis using assms(1,3) Inl by (cases x) simp_all
  qed (use assms(1) Inl in simp_all)
next
  case (Inr v)
  then show ?thesis using assms by (cases v) simp_all
qed

lemma index_record_fits:
  assumes "has_type c t v" and "resolve_member_type c t p = Inr u"
  shows "fits c u (eval_index_expr v (AvString p))"
proof (cases v)
  case (AvRecord fs)
  with assms member_fits show ?thesis by (simp add: eval_index_expr_def)
qed (use index_no_type [of v "AvString p"] in \<open>simp_all add: eval_index_expr_def unsupported_def\<close>)

lemma index_unknown_fits: "fits c TyUnknown (eval_index_expr v w)"
  using index_no_type [of v w] by (cases "eval_index_expr v w") simp_all

definition sound_below :: "data_context \<Rightarrow> (ax_expr \<Rightarrow> eval_result) \<Rightarrow> nat \<Rightarrow> bool" where
  "sound_below c ev k = (\<forall>x u. size x < k \<longrightarrow> resolve_expr_type c x = Inr u \<longrightarrow> checked c x \<longrightarrow> fits c u (ev x))"

lemma sound_belowD:
  "sound_below c ev k \<Longrightarrow> size x < k \<Longrightarrow> resolve_expr_type c x = Inr u \<Longrightarrow> checked c x \<Longrightarrow> fits c u (ev x)"
  by (simp add: sound_below_def)

lemma fields_below:
  assumes "sound_below c ev k" and "checked c (ExObject fs)" and "size (ExObject fs) \<le> k"
  shows "fields_fit c ev fs" "bm_ok fs"
  unfolding fields_fit_def
proof
  fix q assume q: "q \<in> set fs"
  then have u: "checked c (snd q)" "is_typed c (snd q)" using assms(2) by (cases q, auto simp: list_all_iff)+
  have "size (snd q) < k" using size_field_less [of "fst q" "snd q" fs] q assms(3) by simp
  with u sound_belowD [OF assms(1)] is_typed_D show "\<exists>u. resolve_expr_type c (snd q) = Inr u \<and> fits c u (ev (snd q))" by blast
qed (use assms(2) in simp)

lemma list_sound:
  assumes IH: "sound_below c (eval_expr ck fns res n scope) (size (ExList es))"
    and pre: "resolve_expr_type c (ExList es) = Inr t" "checked c (ExList es)"
  shows "fits c t (eval_expr ck fns res n scope (ExList es))"
proof -
  let ?ev = "eval_expr ck fns res n scope"
  have "fits c t (and_then (try_map ?ev es) (\<lambda>vs. Inr (AvList vs)))"
  proof (rule typed_list)
    show "list_all (\<lambda>e. checked c e \<and> is_typed c e) es" using pre(2) by simp
    show "resolve_list_type (resolve_expr_type c) es = Inr t" using pre(1) by simp
    fix x u assume "x \<in> set es" "resolve_expr_type c x = Inr u" "checked c x"
    moreover have "size x < size (ExList es)" using \<open>x \<in> set es\<close> by (simp add: less_Suc_eq_le size_list_estimation')
    ultimately show "fits c u (?ev x)" using sound_belowD [OF IH] by blast
  qed
  then show ?thesis by simp
qed

lemma unary_sound:
  assumes IH: "sound_below c (eval_expr ck fns res n scope) (size (ExUnary op a))"
    and pre: "resolve_expr_type c (ExUnary op a) = Inr t" "checked c (ExUnary op a)"
  shows "fits c t (eval_expr ck fns res n scope (ExUnary op a))"
proof -
  let ?ev = "eval_expr ck fns res n scope"
  obtain u where u: "resolve_expr_type c a = Inr u" using pre(1) by (auto simp: and_then_Inr_iff)
  have "fits c u (?ev a)" using sound_belowD [OF IH, of a u] u pre(2) by simp
  moreover have "fits c t (eval_unary_expr ck op v)" if v: "has_type c u v" for v
  proof (cases op)
    case OpNeg
    with u pre have "is_numeric_type u" "t = u"
      by (auto simp: negation_type_def is_numeric_type_def split: if_splits)
    then show ?thesis using v OpNeg numeric_cases [of u c v] numeric_number [of u c]
      by (auto simp: eval_unary_expr_def split: ax_value.splits option.splits)
  qed (use pre u in \<open>simp add: eval_unary_expr_def\<close>)
  ultimately show ?thesis by (simp add: fits_and_then)
qed

lemma binary_sound:
  assumes IH: "sound_below c (eval_expr ck fns res n scope) (size (ExBinary op l r))"
    and pre: "resolve_expr_type c (ExBinary op l r) = Inr t" "checked c (ExBinary op l r)"
  shows "fits c t (eval_expr ck fns res n scope (ExBinary op l r))"
proof -
  let ?ev = "eval_expr ck fns res n scope"
  obtain a b where ab: "resolve_expr_type c l = Inr a" "resolve_expr_type c r = Inr b" "binary_type op a b = Inr t"
    using pre(1) by (auto simp: and_then_Inr_iff)
  then have ops: "operands_known c op a b" using pre(2) by simp
  have l: "fits c a (?ev l)" and r: "fits c b (?ev r)" using sound_belowD [OF IH, of l a] sound_belowD [OF IH, of r b] ab pre(2) by simp_all
  have bool: "fits c TyBool (and_then (?ev r) (\<lambda>b. Inr (AvBool (is_truthy b))))" by (rule fits_and_then [OF r]) simp
  have "fits c t (if op = OpAnd then (if \<not> is_truthy v then Inr (AvBool False) else and_then (?ev r) (\<lambda>b. Inr (AvBool (is_truthy b))))
     else if op = OpOr then (if is_truthy v then Inr (AvBool True) else and_then (?ev r) (\<lambda>b. Inr (AvBool (is_truthy b))))
     else if op = OpFallback then (if v \<noteq> AvNull then Inr v else ?ev r)
     else and_then (?ev r) (\<lambda>w. eval_binary_expr ck op v w))" if v: "has_type c a v" for v
  proof (cases "op \<in> {OpAnd, OpOr}")
    case True
    then have "t = TyBool" using ab(3) by auto
    with True bool show ?thesis by auto
  next
    case no: False
    show ?thesis
    proof (cases "op = OpFallback")
      case True
      then have "t = fallback_type a b" "fallback_agrees c a b" using ab(3) ops by (auto simp: operands_known_def)
      with True v r fallback_fits [OF v] show ?thesis by simp
    next
      case False
      with no have "op \<notin> {OpAnd, OpOr, OpFallback}" by simp
      from binary_fits [OF ab(3) v _ ops this] have "fits c t (and_then (?ev r) (\<lambda>w. eval_binary_expr ck op v w))"
        by (rule fits_and_then [OF r])
      with no False show ?thesis by simp
    qed
  qed
  then show ?thesis using fits_and_then [OF l] by simp
qed

lemma index_sound:
  assumes IH: "sound_below c (eval_expr ck fns res n scope) (size (ExIndex obj i))"
    and pre: "resolve_expr_type c (ExIndex obj i) = Inr t" "checked c (ExIndex obj i)"
  shows "fits c t (eval_expr ck fns res n scope (ExIndex obj i))"
proof -
  let ?ev = "eval_expr ck fns res n scope"
  have ch: "checked c obj" "checked c i" and "is_typed c i" using pre(2) by simp_all
  then obtain iu where "resolve_expr_type c i = Inr iu" using is_typed_D by blast
  then have i: "fits c iu (?ev i)" using sound_belowD [OF IH, of i iu] ch by simp
  have obj: "fits c u (?ev obj)" if "resolve_expr_type c obj = Inr u" for u using sound_belowD [OF IH, of obj u] that ch by simp
  have go: "fits c t (?ev (ExIndex obj i))" if "fits c u (?ev obj)" "\<And>v w. has_type c u v \<Longrightarrow> ?ev i = Inr w \<Longrightarrow> fits c t (eval_index_expr v w)" for u
    unfolding eval_expr.simps using that(2) by (auto intro!: fits_and_then [OF that(1)] fits_and_then [OF i])
  from pre(1) show ?thesis
  proof (cases rule: index_resolve)
    case (literal fs p x)
    then have f: "fields_fit c ?ev fs" "bm_ok fs" using fields_below [OF IH, of fs] ch(1) by simp_all
    show ?thesis
    proof (cases "object_value ?ev fs")
      case (Inl y)
      then show ?thesis using object_no_type [OF f(1) Inl] literal by (simp add: eval_object [symmetric])
    next
      case (Inr v)
      obtain kvs where "v = AvRecord kvs" "has_type c t (record_get kvs p)"
        using object_member_fits [OF f literal(3,4) Inr] by blast
      then show ?thesis using Inr literal by (simp add: eval_object [symmetric] eval_index_expr_def)
    qed
  next
    case items
    then have "has_type c t AvNull" using pre(2) by simp
    then show ?thesis using go [OF obj [OF items]] index_list_fits by blast
  next
    case (mapping k)
    then have "has_type c t AvNull" using pre(2) by simp
    then show ?thesis using go [OF obj [OF mapping]] index_map_fits by blast
  next
    case (rec name p)
    show ?thesis
      by (rule go [OF obj [OF rec(1)]]) (use rec(2) index_record_fits [OF _ rec(3)] in auto)
  next
    case (unknown u)
    then show ?thesis using go [OF obj [OF unknown(1)]] index_unknown_fits by blast
  qed
qed

lemma member_sound:
  assumes IH: "sound_below c (eval_expr ck fns res n scope) (size (ExMember obj p))"
    and pre: "resolve_expr_type c (ExMember obj p) = Inr t" "checked c (ExMember obj p)"
  shows "fits c t (eval_expr ck fns res n scope (ExMember obj p))"
proof -
  let ?ev = "eval_expr ck fns res n scope"
  from pre(1) show ?thesis
  proof (cases rule: member_resolve)
    case (literal fs x)
    then have f: "fields_fit c ?ev fs" "bm_ok fs" using fields_below [OF IH, of fs] pre(2) by simp_all
    show ?thesis
    proof (cases "object_value ?ev fs")
      case (Inl y)
      then show ?thesis using object_no_type [OF f(1) Inl] literal by (simp add: eval_object [symmetric])
    next
      case (Inr v)
      obtain kvs where "v = AvRecord kvs" "has_type c t (record_get kvs p)"
        using object_member_fits [OF f literal(2,3) Inr] by blast
      then show ?thesis using Inr literal by (simp add: eval_object [symmetric])
    qed
  next
    case (typed u)
    then have "fits c u (?ev obj)" using sound_belowD [OF IH, of obj u] pre(2) by simp
    then show ?thesis using member_fits [OF typed(2)]
      by (auto intro!: fits_and_then split: ax_value.splits)
  qed
qed

lemma optional_sound:
  assumes IH: "sound_below c (eval_expr ck fns res n scope) (size (ExOptionalMember obj p))"
    and pre: "resolve_expr_type c (ExOptionalMember obj p) = Inr t" "checked c (ExOptionalMember obj p)"
  shows "fits c t (eval_expr ck fns res n scope (ExOptionalMember obj p))"
proof -
  let ?ev = "eval_expr ck fns res n scope"
  have ch: "checked c obj" using pre(2) by simp
  from pre(1) show ?thesis
  proof (cases rule: optional_resolve)
    case (literal fs x u)
    then have f: "fields_fit c ?ev fs" "bm_ok fs" using fields_below [OF IH, of fs] ch by simp_all
    have "fits c TyJson (?ev obj)" using literal sound_belowD [OF IH, of obj TyJson] ch by simp
    then show ?thesis unfolding eval_expr.simps
    proof (rule optional_fits)
      fix kvs assume "?ev obj = Inr (AvRecord kvs)"
      then have "object_value ?ev fs = Inr (AvRecord kvs)" using literal by (simp add: eval_object [symmetric])
      from object_member_fits [OF f literal(2,3) this] literal show "has_type c t (record_get kvs p)" by simp
    qed (use literal in simp)
  next
    case (typed u w)
    then have "fits c u (?ev obj)" using sound_belowD [OF IH, of obj u] ch by simp
    then show ?thesis unfolding eval_expr.simps
    proof (rule optional_fits)
      fix kvs assume "?ev obj = Inr (AvRecord kvs)"
      with \<open>fits c u (?ev obj)\<close> typed member_fits [OF typed(2)] show "has_type c t (record_get kvs p)" by simp
    qed (use typed in simp)
  next
    case (unknown u)
    then have "fits c u (?ev obj)" using sound_belowD [OF IH, of obj u] ch by simp
    then show ?thesis unfolding eval_expr.simps
      by (rule optional_fits) (use unknown in simp_all)
  qed
qed



subsection \<open>Initial values have the declared type\<close>

fun static_expr :: "ax_expr \<Rightarrow> bool" where
  "static_expr (ExString s) = True"
| "static_expr (ExNumber i) = True"
| "static_expr (ExFloat f) = True"
| "static_expr (ExBool b) = True"
| "static_expr (ExList es) = list_all static_expr es"
| "static_expr (ExObject fs) = (bm_ok fs \<and> list_all (\<lambda>(n, e). static_expr e) fs)"
| "static_expr (ExIdentifier x) = (x = ''null'')"
| "static_expr _ = False"

fun static_value :: "ax_expr \<Rightarrow> ax_value" where
  "static_value (ExString s) = AvString s"
| "static_value (ExNumber i) = AvNumber i"
| "static_value (ExFloat f) = AvFloat f"
| "static_value (ExBool b) = AvBool b"
| "static_value (ExList es) = AvList (map static_value es)"
| "static_value (ExObject fs) = AvRecord (map (\<lambda>(n, e). (n, static_value e)) fs)"
| "static_value _ = AvNull"

lemma try_map_pure: "(\<And>x. x \<in> set xs \<Longrightarrow> f x = Inr (g x)) \<Longrightarrow> try_map f xs = Inr (map g xs)"
  by (induction xs) simp_all

lemma eval_static: "static_expr e \<Longrightarrow> eval_expr ck fns res n scope e = Inr (static_value e)"
proof (induction e rule: static_expr.induct)
  case (5 es)
  then have "try_map (eval_expr ck fns res n scope) es = Inr (map static_value es)"
    by (intro try_map_pure) (simp add: list_all_iff)
  then show ?case by simp
next
  case (6 fs)
  let ?g = "\<lambda>(n, e). (n, static_value e)"
  have "try_map (\<lambda>(name, e). and_then (eval_expr ck fns res n scope e) (\<lambda>v. Inr (name, v))) fs = Inr (map ?g fs)"
    using 6 by (intro try_map_pure) (force simp: list_all_iff)
  moreover have "bm_ok (map ?g fs)"
    using 6(2) bm_ok_keys [of "map ?g fs" fs] by (simp add: comp_def split_beta)
  ultimately show ?case by (simp add: bm_of_list_sorted)
qed simp_all

lemma bm_get_map_value: "bm_get (map (\<lambda>(n, e). (n, f e)) fs) p = map_option f (bm_get fs p)"
  by (induction fs) (auto simp: bm_get_def)

lemma scalar_initializer:
  assumes "accepts_initializer t e" and "static_expr e"
    and "t \<in> {TyString, TyNumber, TyInt, TyFloat, TyDecimal, TyBool, TyDateTime, TyDate, TyTime, TyUuid, TyBytes, TyFile,
      TyFileRef, TyJson, TyNever, TyVoid, TyUnknown} \<or> (\<exists>u w. t \<in> {TySecret u, TySignal u, TyResource u w})"
  shows "has_type c t (static_value e)"
proof -
  have b: "list_all (\<lambda>i. case i of ExNumber n \<Rightarrow> 0 \<le> sint n \<and> sint n \<le> 255 | _ \<Rightarrow> False) es \<Longrightarrow>
      list_all is_byte_value (map static_value es)" for es
    by (induction es) (auto split: ax_expr.splits)
  show ?thesis
    using assms b by (cases t; cases e) (simp_all add: has_type.simps [of c TyDecimal] has_type.simps [of c TyDateTime]
        has_type.simps [of c TyDate] has_type.simps [of c TyTime] has_type.simps [of c TyUuid] has_type.simps [of c TyBytes])
qed

lemma static_field: "static_expr (ExObject fs) \<Longrightarrow> (n, e) \<in> set fs \<Longrightarrow> static_expr e"
  by (auto simp: list_all_iff)

lemma result_initializer:
  assumes "accepts_at_depth (Suc k) c (TyResult u w) e" and "static_expr e"
    and IH: "\<And>t e. accepts_at_depth k c t e \<Longrightarrow> static_expr e \<Longrightarrow> has_type c t (static_value e)"
  shows "has_type c (TyResult u w) (static_value e)"
proof -
  obtain fs where fs: "e = ExObject fs" using assms(1) by (cases e) simp_all
  with assms(1) have "length fs = 1" by (simp add: accepts_result_def)
  then obtain n x where p: "fs = [(n, x)]" by (cases fs) (auto simp: neq_Nil_conv)
  have "n = ''Ok'' \<and> accepts_at_depth k c u x \<or> n = ''Err'' \<and> accepts_at_depth k c w x"
    using assms(1) fs p by (auto simp: accepts_result_def bm_get_def split: if_splits)
  moreover have "static_expr x" using assms(2) fs p by simp
  ultimately have "n = ''Ok'' \<and> has_type c u (static_value x) \<or> n = ''Err'' \<and> has_type c w (static_value x)" using IH by blast
  then show ?thesis using fs p by (simp add: has_type.simps [of c "TyResult u w"])
qed

lemma record_initializer:
  assumes "accepts_at_depth (Suc k) c (TyRecord name) e" and "static_expr e"
    and IH: "\<And>t e. accepts_at_depth k c t e \<Longrightarrow> static_expr e \<Longrightarrow> has_type c t (static_value e)"
  shows "has_type c (TyRecord name) (static_value e)"
proof (cases "bm_get (ctx_unions c) name")
  case (Some literals)
  with assms(1) show ?thesis by (cases e) (simp_all add: has_type_record)
next
  case None
  with assms(1) obtain fs where fs: "e = ExObject fs" by (cases e) simp_all
  show ?thesis
  proof (cases "bm_get (ctx_records c) name")
    case none: None
    with None fs show ?thesis by (simp add: has_type_record)
  next
    case (Some r)
    have "case bm_get (map (\<lambda>(n, e). (n, static_value e)) fs) (fst p) of
        None \<Rightarrow> is_optional (snd p) | Some x \<Rightarrow> has_type c (snd p) x" if p: "p \<in> set (record_fields r)" for p
    proof -
      have a: "case bm_get fs (fst p) of None \<Rightarrow> is_optional (snd p) | Some v \<Rightarrow> accepts_at_depth k c (snd p) v"
        using assms(1) fs None Some p by (cases p) (auto simp: list_all_iff)
      show ?thesis
      proof (cases "bm_get fs (fst p)")
        case (Some v)
        then have "static_expr v" using static_field [of fs "fst p" v] assms(2) bm_get_mem [OF Some] by (simp only: fs)
        moreover have "accepts_at_depth k c (snd p) v" using a Some by (simp del: accepts_at_depth.simps)
        ultimately show ?thesis using IH [of "snd p" v] Some by (simp add: bm_get_map_value)
      qed (use a in \<open>simp add: bm_get_map_value\<close>)
    qed
    with None Some fs show ?thesis by (simp add: has_type_record)
  qed
qed

text \<open>A value accepted as the initial value of a state has the declared type: the evaluation of the literal
  succeeds in every scope, with a value of the type.\<close>

theorem accepted_initializer_typed:
  assumes "accepts_state_initializer c t e" and "static_expr e"
  shows "\<exists>v. eval_expr ck fns res n scope e = Inr v \<and> has_type c t v"
proof -
  have "accepts_at_depth k c t e \<Longrightarrow> static_expr e \<Longrightarrow> has_type c t (static_value e)" for k
  proof (induction k arbitrary: t e)
    case 0
    then show ?case by simp
  next
    case (Suc k)
    show ?case
    proof (cases t)
      case (TyList u)
      with Suc.prems show ?thesis by (cases e) (auto simp: list_all_iff intro: Suc.IH)
    next
      case (TySet u)
      with Suc.prems show ?thesis by (cases e) (auto simp: list_all_iff intro: Suc.IH)
    next
      case (TyMap key u)
      with Suc.prems show ?thesis using static_field by (cases e) (fastforce simp: list_all_iff intro: Suc.IH)+
    next
      case (TyOptional u)
      with Suc.prems show ?thesis by (auto simp: is_null_expr_def intro: Suc.IH)
    next
      case (TyPublic u)
      with Suc.prems show ?thesis by (auto intro: Suc.IH)
    next
      case (TyResult u w)
      show ?thesis unfolding TyResult
        by (rule result_initializer [OF Suc.prems [unfolded TyResult]]) (rule Suc.IH)
    next
      case (TyRecord name)
      show ?thesis unfolding TyRecord
        by (rule record_initializer [OF Suc.prems [unfolded TyRecord]]) (rule Suc.IH)
    qed (use Suc.prems scalar_initializer [of t e c] in simp_all)
  qed
  then show ?thesis using assms eval_static by (auto simp: accepts_state_initializer_def simp del: accepts_at_depth.simps)
qed


subsection \<open>Concrete expressions\<close>

definition demo_type_context :: data_context where
  "demo_type_context = \<lparr> ctx_bindings = [(''n'', TyInt), (''post'', TyRecord ''Post'')],
     ctx_records = [(''Post'', \<lparr> record_name = ''Post'', record_fields = [(''title'', TyString), (''views'', TyOptional TyNumber)] \<rparr>)],
     ctx_unions = [] \<rparr>"

definition demo_typed_expr :: ax_expr where
  "demo_typed_expr = ExBinary OpAdd (ExMember (ExIdentifier ''post'') ''title'')
     (ExBinary OpMul (ExIdentifier ''n'') (ExBinary OpFallback (ExMember (ExIdentifier ''post'') ''views'') (ExNumber 3)))"

definition demo_type_scope :: "(string, ax_value) bmap" where
  "demo_type_scope = [(''n'', AvNumber 2), (''post'', AvRecord [(''title'', AvString ''a'')])]"

lemma demo_typed: "resolve_expr_type demo_type_context demo_typed_expr = Inr TyString"
  by (simp add: demo_type_context_def demo_typed_expr_def bm_get_def arithmetic_type_def add_type_def promote_numeric_type_def
      is_numeric_type_def)

lemma demo_checked: "checked demo_type_context demo_typed_expr"
  by (simp add: demo_type_context_def demo_typed_expr_def bm_get_def operands_known_def fallback_agrees_def arithmetic_type_def
      number_subtype_def is_numeric_type_def promote_numeric_type_def)

lemma demo_scope_fits: "scope_fits demo_type_context demo_type_scope"
  by (simp add: scope_fits_def demo_type_context_def demo_type_scope_def bm_get_def has_type_record)


theorem accepted_initializer_typed_witness:
  "\<exists>v. eval_expr True [] (\<lambda>_ _. None) 0 [] (ExObject [(''title'', ExString ''a''), (''views'', ExIdentifier ''null'')]) = Inr v
     \<and> has_type demo_type_context (TyRecord ''Post'') v"
  by (rule accepted_initializer_typed)
    (simp_all add: accepts_state_initializer_def demo_type_context_def bm_get_def is_null_expr_def bm_ok_def eval_nat_numeral)

text \<open>What the checker lets through: the right operand of \<open>??\<close>, the index of a list, the operands of a comparison
  and the fields of an object are not looked at. The word \<open>null\<close> it takes for a missing binding.\<close>

definition gap_context :: data_context where
  "gap_context = \<lparr> ctx_bindings = [(''count'', TyOptional TyInt), (''xs'', TyList TyInt)], ctx_records = [], ctx_unions = [] \<rparr>"

lemma fallback_operand_unchecked:
  "resolve_expr_type gap_context (ExBinary OpFallback (ExIdentifier ''count'') (ExString ''none'')) = Inr TyInt
    \<and> eval_expr True [] (\<lambda>_ _. None) 0 [(''count'', AvNull), (''xs'', AvList [])]
        (ExBinary OpFallback (ExIdentifier ''count'') (ExString ''none'')) = Inr (AvString ''none'')"
  by (simp add: gap_context_def bm_get_def)

lemma list_index_may_be_null:
  "resolve_expr_type gap_context (ExIndex (ExIdentifier ''xs'') (ExNumber 0)) = Inr TyInt
    \<and> eval_expr True [] (\<lambda>_ _. None) 0 [(''count'', AvNull), (''xs'', AvList [])]
        (ExIndex (ExIdentifier ''xs'') (ExNumber 0)) = Inr AvNull"
  by (simp add: gap_context_def bm_get_def eval_index_expr_def)

lemma comparison_operands_unchecked:
  "resolve_expr_type c (ExBinary OpLt (ExBool True) (ExNumber 1)) = Inr TyBool
    \<and> eval_expr True [] res 0 scope (ExBinary OpLt (ExBool True) (ExNumber 1)) = unsupported ''`<` expects comparable values''"
  by (simp add: eval_binary_expr_def eval_compare_binary_def)

lemma object_fields_unchecked:
  "resolve_expr_type empty_context (ExObject [(''a'', ExIdentifier ''missing'')]) = Inr TyJson"
  by simp

lemma null_is_unknown:
  "resolve_expr_type empty_context (ExBinary OpEq (ExNumber 1) (ExIdentifier ''null'')) = Inl (UnknownBinding ''null'')"
  by (simp add: empty_context_def)

end
