(* ===== verification/Native_Correct.thy ===== *)
theory Native_Correct
  imports Native Json_Correct Ax_Types_Correct
begin

section \<open>What native callbacks and API responses promise\<close>

text \<open>
  The iterative shape check against the recursive depth and size of a JSON value, the bounds of what a
  registered callback takes and returns, and the two checks of responses.
\<close>

subsection \<open>The shape check\<close>

fun json_depth :: "json_value \<Rightarrow> nat" where
  "json_depth (JArray vs) = Suc (fold max (map json_depth vs) 0)"
| "json_depth (JObject fs) = Suc (fold max (map (\<lambda>(_, v). json_depth v) fs) 0)"
| "json_depth _ = 1"

fun json_nodes :: "json_value \<Rightarrow> nat" where
  "json_nodes (JArray vs) = Suc (sum_list (map json_nodes vs))"
| "json_nodes (JObject fs) = Suc (sum_list (map (\<lambda>(_, v). json_nodes v) fs))"
| "json_nodes _ = 1"

definition json_children :: "json_value \<Rightarrow> json_value list" where
  "json_children v = (case v of JArray vs \<Rightarrow> vs | JObject fs \<Rightarrow> map snd fs | _ \<Rightarrow> [])"

lemma json_nodes_children: "json_nodes v = Suc (sum_list (map json_nodes (json_children v)))"
  by (cases v) (simp_all add: json_children_def comp_def case_prod_unfold)

lemma fold_max_le: "fold max xs a \<le> (n::nat) \<longleftrightarrow> a \<le> n \<and> (\<forall>x \<in> set xs. x \<le> n)"
  by (induction xs arbitrary: a) auto

lemma json_depth_children: "json_depth v \<le> Suc n \<longleftrightarrow> (\<forall>x \<in> set (json_children v). json_depth x \<le> n)"
  by (cases v) (auto simp: json_children_def fold_max_le)

lemma json_depth_pos: "1 \<le> json_depth v" "1 \<le> json_nodes v"
  by (cases v, simp_all)+

lemma sum_nodes_length: "length vs \<le> sum_list (map json_nodes vs)"
proof (induction vs)
  case (Cons v vs)
  then show ?case using json_depth_pos(2) [of v] by simp
qed simp

lemma shape_from_exact:
  "nodes \<le> lim_nodes l \<Longrightarrow> shape_from l nodes st =
     (if nodes + sum_list (map (\<lambda>p. json_nodes (fst p)) st) \<le> lim_nodes l
        \<and> (\<forall>p \<in> set st. snd p + json_depth (fst p) \<le> lim_depth l + 1)
      then Inr () else Inl PayloadLimit)"
proof (induction l nodes st rule: shape_from.induct)
  case (1 l nodes)
  then show ?case by simp
next
  case (2 l nodes v depth stack)
  let ?cs = "json_children v"
  let ?st = "rev (map (\<lambda>x. (x, depth + 1)) ?cs) @ stack"
  have n: "json_nodes v = Suc (sum_list (map json_nodes ?cs))" by (rule json_nodes_children)
  have len: "length stack \<le> sum_list (map (\<lambda>p. json_nodes (fst p)) stack)" "length ?cs \<le> sum_list (map json_nodes ?cs)"
    using sum_nodes_length [of "map fst stack"] sum_nodes_length [of ?cs] by (simp_all add: comp_def)
  have sum: "sum_list (map (\<lambda>p. json_nodes (fst p)) ?st) = sum_list (map json_nodes ?cs) + sum_list (map (\<lambda>p. json_nodes (fst p)) stack)"
    by (simp add: comp_def rev_map [symmetric] sum_list_rev)
  have d: "depth + json_depth v \<le> lim_depth l + 1 \<longleftrightarrow>
      depth \<le> lim_depth l \<and> (\<forall>x \<in> set ?cs. depth + 1 + json_depth x \<le> lim_depth l + 1)"
  proof (cases "depth \<le> lim_depth l")
    case True
    then have "depth + json_depth v \<le> lim_depth l + 1 \<longleftrightarrow> json_depth v \<le> Suc (lim_depth l - depth)" by auto
    moreover have "depth + 1 + json_depth x \<le> lim_depth l + 1 \<longleftrightarrow> json_depth x \<le> lim_depth l - depth" for x
      using True by auto
    ultimately show ?thesis using True by (simp add: json_depth_children)
  next
    case False
    then show ?thesis using json_depth_pos(1) [of v] by auto
  qed
  show ?case
  proof (cases "lim_depth l < depth \<or> lim_nodes l \<le> nodes")
    case True
    then show ?thesis using n d by auto
  next
    case go: False
    show ?thesis
    proof (cases "lim_nodes l - (nodes + 1 + length stack) < length ?cs")
      case True
      then have "\<not> nodes + sum_list (map (\<lambda>p. json_nodes (fst p)) ((v, depth) # stack)) \<le> lim_nodes l"
        using n len by simp
      then show ?thesis using go True by (simp add: json_children_def [symmetric])
    next
      case False
      have IH: "shape_from l (nodes + 1) ?st =
         (if nodes + 1 + sum_list (map (\<lambda>p. json_nodes (fst p)) ?st) \<le> lim_nodes l
            \<and> (\<forall>p \<in> set ?st. snd p + json_depth (fst p) \<le> lim_depth l + 1)
          then Inr () else Inl PayloadLimit)"
        by (rule 2(1)) (use go False in \<open>auto simp: json_children_def\<close>)
      have step: "shape_from l nodes ((v, depth) # stack) = shape_from l (nodes + 1) ?st"
        using go False by (simp add: json_children_def [symmetric])
      have pending: "(\<forall>p \<in> set ?st. snd p + json_depth (fst p) \<le> lim_depth l + 1) \<longleftrightarrow>
          (\<forall>x \<in> set ?cs. depth + 1 + json_depth x \<le> lim_depth l + 1) \<and> (\<forall>p \<in> set stack. snd p + json_depth (fst p) \<le> lim_depth l + 1)"
        by (simp add: ball_Un)
      have "(nodes + 1 + sum_list (map (\<lambda>p. json_nodes (fst p)) ?st) \<le> lim_nodes l
            \<and> (\<forall>p \<in> set ?st. snd p + json_depth (fst p) \<le> lim_depth l + 1)) =
          (nodes + sum_list (map (\<lambda>p. json_nodes (fst p)) ((v, depth) # stack)) \<le> lim_nodes l
            \<and> (\<forall>p \<in> set ((v, depth) # stack). snd p + json_depth (fst p) \<le> lim_depth l + 1))"
        unfolding sum pending using go n d by auto
      then show ?thesis unfolding step IH by simp
    qed
  qed
qed

text \<open>C28. The iterative shape check of a payload is exactly the two recursive measures: it accepts a JSON value if
  and only if its depth and its number of values are within the limits, and otherwise answers with the payload
  limit; it never visits more values than the limit allows.\<close>

theorem check_shape_exact:
  "check_shape v l =
     (if json_depth v \<le> lim_depth l \<and> json_nodes v \<le> lim_nodes l then Inr () else Inl PayloadLimit)"
  using shape_from_exact [of 0 l "[(v, 1)]"] by (simp add: check_shape_def)

subsection \<open>Bounded encoding\<close>

lemma write_bounded_exact:
  "length written \<le> limit \<Longrightarrow> write_bounded limit written chunks =
     (if length written + length (concat chunks) \<le> limit then Some (written @ concat chunks) else None)"
  by (induction chunks arbitrary: written) auto

lemma native_encode_Inr:
  "native_encode ser v limit invalid = Inr bs \<longleftrightarrow> snd (ser v) \<and> bs = concat (fst (ser v)) \<and> length bs \<le> limit"
  by (auto simp: native_encode_def write_bounded_exact split: prod.splits)

subsection \<open>What a call returns\<close>

definition within_limits :: "json_value \<Rightarrow> native_limits \<Rightarrow> bool" where
  "within_limits v l = (json_depth v \<le> lim_depth l \<and> json_nodes v \<le> lim_nodes l)"

lemma check_shape_within: "check_shape v l = Inr u \<longleftrightarrow> within_limits v l"
  by (simp add: check_shape_exact within_limits_def)

lemma ok_or_Inr: "ok_or e m = Inr x \<longleftrightarrow> m = Some x"
  by (cases m) simp_all

lemma callback_within:
  assumes "native_callback from_value f ser from_bytes parse_json v l = Inr w"
  obtains bs where "length bs \<le> lim_output_bytes l" "parse_json bs = Some w" "within_limits w l"
  using assms by (auto simp: native_callback_def and_then_Inr_iff native_encode_Inr ok_or_Inr check_shape_within)

datatype registration =
    RegFunction string "json_value \<Rightarrow> native_limits \<Rightarrow> native_error + json_value"
  | RegPrivate string nat "string \<Rightarrow> json_value \<Rightarrow> native_error + http_response"
  | RegPublic string nat "json_value \<Rightarrow> native_error + http_response"

fun try_register :: "native_registry \<Rightarrow> registration \<Rightarrow> native_registry" where
  "try_register r (RegFunction name f) = (case native_register name f r of Inr r' \<Rightarrow> r' | Inl _ \<Rightarrow> r)"
| "try_register r (RegPrivate name n f) = (case register_private_response name n f r of Inr r' \<Rightarrow> r' | Inl _ \<Rightarrow> r)"
| "try_register r (RegPublic name n f) = (case register_public_response name n f r of Inr r' \<Rightarrow> r' | Inl _ \<Rightarrow> r)"

definition registry_after :: "native_limits \<Rightarrow> registration list \<Rightarrow> native_registry" where
  "registry_after l regs = foldl try_register (native_registry_new l) regs"

definition callback_bounded :: "(json_value \<Rightarrow> native_limits \<Rightarrow> native_error + json_value) \<Rightarrow> bool" where
  "callback_bounded f = (\<forall>v l w. f v l = Inr w \<longrightarrow> within_limits w l)"

fun registration_bounded :: "registration \<Rightarrow> bool" where
  "registration_bounded (RegFunction name f) = callback_bounded f"
| "registration_bounded _ = True"

definition one_channel :: "native_registry \<Rightarrow> string \<Rightarrow> bool" where
  "one_channel r name =
     (length (filter id [bm_get (reg_functions r) name \<noteq> None, bm_get (reg_private r) name \<noteq> None, bm_get (reg_public r) name \<noteq> None]) \<le> 1)"

definition registry_ok :: "native_registry \<Rightarrow> bool" where
  "registry_ok r = (\<forall>name. one_channel r name \<and> (contains_name r name \<longrightarrow> is_native_function_name name)
     \<and> (\<forall>f. bm_get (reg_functions r) name = Some f \<longrightarrow> callback_bounded f))"

lemma insert_ok:
  assumes "registry_ok r" and "\<not> contains_name r n" and "is_native_function_name n"
  shows "callback_bounded f \<Longrightarrow> registry_ok (r\<lparr> reg_functions := bm_insert n f (reg_functions r) \<rparr>)"
    and "registry_ok (r\<lparr> reg_private := bm_insert n g (reg_private r) \<rparr>)"
    and "registry_ok (r\<lparr> reg_public := bm_insert n h (reg_public r) \<rparr>)"
proof -
  have r: "one_channel r m" "contains_name r m \<Longrightarrow> is_native_function_name m"
      "bm_get (reg_functions r) m = Some k \<Longrightarrow> callback_bounded k" for m k
    using assms(1) by (simp_all add: registry_ok_def)
  have n: "bm_get (reg_functions r) n = None" "bm_get (reg_private r) n = None" "bm_get (reg_public r) n = None"
    using assms(2) by (simp_all add: contains_name_def)
  have main: "one_channel r' m \<and> (contains_name r' m \<longrightarrow> is_native_function_name m)"
    if "r' \<in> {r\<lparr> reg_functions := bm_insert n f (reg_functions r) \<rparr>, r\<lparr> reg_private := bm_insert n g (reg_private r) \<rparr>,
        r\<lparr> reg_public := bm_insert n h (reg_public r) \<rparr>}" for r' m
  proof (cases "m = n")
    case True
    then show ?thesis using that n assms(3) by (elim insertE emptyE) (simp_all add: one_channel_def)
  next
    case False
    then show ?thesis using that r(1,2) [of m] by (elim insertE emptyE) (simp_all add: one_channel_def contains_name_def)
  qed
  have cb: "callback_bounded f \<Longrightarrow> bm_get (bm_insert n f (reg_functions r)) m = Some k \<Longrightarrow> callback_bounded k" for m k
    using r(3) [of m k] by (cases "m = n") simp_all
  have m1: "one_channel (r\<lparr> reg_functions := bm_insert n f (reg_functions r) \<rparr>) m
      \<and> (contains_name (r\<lparr> reg_functions := bm_insert n f (reg_functions r) \<rparr>) m \<longrightarrow> is_native_function_name m)" for m
    by (rule main) simp
  have m2: "one_channel (r\<lparr> reg_private := bm_insert n g (reg_private r) \<rparr>) m
      \<and> (contains_name (r\<lparr> reg_private := bm_insert n g (reg_private r) \<rparr>) m \<longrightarrow> is_native_function_name m)" for m
    by (rule main) simp
  have m3: "one_channel (r\<lparr> reg_public := bm_insert n h (reg_public r) \<rparr>) m
      \<and> (contains_name (r\<lparr> reg_public := bm_insert n h (reg_public r) \<rparr>) m \<longrightarrow> is_native_function_name m)" for m
    by (rule main) simp
  show "callback_bounded f \<Longrightarrow> registry_ok (r\<lparr> reg_functions := bm_insert n f (reg_functions r) \<rparr>)"
    unfolding registry_ok_def using m1 cb by simp
  show "registry_ok (r\<lparr> reg_private := bm_insert n g (reg_private r) \<rparr>)" unfolding registry_ok_def using m2 r(3) by simp
  show "registry_ok (r\<lparr> reg_public := bm_insert n h (reg_public r) \<rparr>)" unfolding registry_ok_def using m3 r(3) by simp
qed

lemma register_ok: "registry_ok r \<Longrightarrow> registration_bounded x \<Longrightarrow> registry_ok (try_register r x)"
  by (cases x) (simp_all add: insert_ok native_register_def register_private_response_def register_public_response_def)

lemma register_limits: "reg_limits (try_register r x) = reg_limits r"
  by (cases x) (simp_all add: native_register_def register_private_response_def register_public_response_def)

lemma registry_after_ok:
  assumes "list_all registration_bounded regs"
  shows "registry_ok (registry_after l regs)" "reg_limits (registry_after l regs) = l"
proof -
  have "registry_ok (native_registry_new l)" by (simp add: registry_ok_def native_registry_new_def one_channel_def contains_name_def)
  then have "registry_ok (foldl try_register r regs) \<and> reg_limits (foldl try_register r regs) = reg_limits r"
    if "registry_ok r" for r
    using that assms by (induction regs arbitrary: r) (auto simp: register_ok register_limits)
  from this [OF \<open>registry_ok (native_registry_new l)\<close>] show "registry_ok (registry_after l regs)" "reg_limits (registry_after l regs) = l"
    by (simp_all add: registry_after_def native_registry_new_def)
qed



lemma native_callback_bounded: "callback_bounded (native_callback from_value f ser from_bytes parse_json)"
  unfolding callback_bounded_def using callback_within by metis

definition demo_registrations :: "registration list" where
  "demo_registrations = [RegFunction ''echo''
     (native_callback Some (Inr :: json_value \<Rightarrow> unit + json_value) (\<lambda>_. ([''1''], True)) (\<lambda>_. Some JNull) (\<lambda>_. Some (JNumber ''1'')))]"

definition demo_serializer :: "json_value serializer" where
  "demo_serializer v = ([''null''], True)"


subsection \<open>Binary responses fail closed\<close>

definition has_private_headers :: "http_response \<Rightarrow> bool" where
  "has_private_headers r = (response_header_value r ''Cache-Control'' = Some ''private, no-store''
     \<and> response_header_value r ''X-Content-Type-Options'' = Some ''nosniff'')"

lemma private_error_headers: "has_private_headers (private_error e) \<and> res_set_cookies (private_error e) = []"
  by (cases e) (simp_all add: has_private_headers_def private_headers_def with_header_def response_text_def http_response_new_def
      response_header_value_def find_header_def eq_ignore_case_def to_lower_def lower_char_def code_def)

text \<open>C30. What leaves a private binary route has no cookies and the private headers, whatever the handler set: it is
  a non-empty body of at most 8 MiB of an allowed media type, or one of the three fixed errors.\<close>

theorem private_binary_fails_closed:
  "res_set_cookies (finalize_private_binary_response r) = []
    \<and> has_private_headers (finalize_private_binary_response r)
    \<and> ((\<exists>e. finalize_private_binary_response r = private_error e)
      \<or> res_status r = 200 \<and> res_status (finalize_private_binary_response r) = 200
        \<and> res_body (finalize_private_binary_response r) = res_body r
        \<and> 1 \<le> body_len (res_body r) \<and> body_len (res_body r) \<le> 8388608
        \<and> res_content_type (finalize_private_binary_response r) \<in> {''image/png'', ''image/jpeg'', ''application/octet-stream''})"
proof (cases "\<exists>e. finalize_private_binary_response r = private_error e")
  case True
  then show ?thesis using private_error_headers by metis
next
  case False
  let ?r = "private_headers (r\<lparr> res_set_cookies := [] \<rparr>)"
  have s: "res_status r = 200"
  proof (rule ccontr)
    assume "res_status r \<noteq> 200"
    then have "finalize_private_binary_response r = private_error (if res_status r = 403 then NativeForbidden
        else if res_status r = 404 then NativeNotFound else NativeUnavailable)"
      by (simp only: finalize_private_binary_response_def if_True not_False_eq_True simp_thms)
    with False show False by blast
  qed
  moreover have v: "validate_private_binary_response ?r = Inr ()"
    using False s by (cases "validate_private_binary_response ?r")
      (auto simp: finalize_private_binary_response_def private_binary_failure_def Let_def simp del: private_error.simps)
  ultimately have f: "finalize_private_binary_response r = ?r" by (simp add: finalize_private_binary_response_def)
  have k: "res_status ?r = 200" "res_body ?r = res_body r" "res_set_cookies ?r = []" "res_content_type ?r = res_content_type r"
    using s by (simp_all add: private_headers_def with_header_def)
  have c: "is_success (res_status ?r)" using k(1) by (simp add: is_success_def)
  have "has_private_headers ?r \<and> 1 \<le> body_len (res_body r) \<and> body_len (res_body r) \<le> 8388608
      \<and> res_content_type ?r \<in> {''image/png'', ''image/jpeg'', ''application/octet-stream''}"
    using v c k(1,2) by (simp add: validate_private_binary_response_def has_private_headers_def binary_media_types_def
        max_native_binary_bytes_def body_size_def split: if_splits)
  with f k s show ?thesis by simp
qed

subsection \<open>API responses\<close>

text \<open>A successful response of an API route that passes the validation is of the declared type: its body is
  JSON and the value is one of the contract. Where it does not pass, the error names the contract.\<close>

theorem api_response_checked:
  assumes "trim contract \<noteq> ''Binary''" and "is_success status" and "status \<noteq> 204"
  shows "case validate_api_response_bytes parse num status content_type body contract c of
      Inr _ \<Rightarrow> (\<exists>t v. parse_api_return_contract contract = Inr t \<and> parse body = Inr v \<and> json_type num c t v
          \<and> is_json_content_type content_type)
    | Inl e \<Rightarrow> \<not> is_json_content_type content_type \<or> (\<exists>x. parse_api_return_contract contract = Inl x) \<or> (\<exists>m. parse body = Inl m)
        \<or> (\<exists>t v j. parse_api_return_contract contract = Inr t \<and> parse body = Inr v \<and> e = ContractMismatch contract j
            \<and> (\<not> json_type num c t v \<or> json_reason j = nesting_reason))"
proof -
  let ?v = "validate_api_response_bytes parse num status content_type body contract c"
  show ?thesis
  proof (cases "is_json_content_type content_type")
    case True
    show ?thesis
    proof (cases "parse_api_return_contract contract")
      case (Inl e)
      with True assms show ?thesis by (simp add: validate_api_response_bytes_def)
    next
      case t: (Inr t)
      show ?thesis
      proof (cases "parse body")
        case (Inl m)
        with True t assms show ?thesis by (simp add: validate_api_response_bytes_def)
      next
        case v: (Inr v)
        have "?v = map_err (ContractMismatch contract) (validate_json num c t v)"
          using True t v assms by (simp add: validate_api_response_bytes_def)
        then show ?thesis using validate_settles [of 65 num c t v "''$''"] True t v
          by (cases "validate_json num c t v") (auto simp: settles_def validate_json_def)
      qed
    qed
  qed (use assms in \<open>simp add: validate_api_response_bytes_def\<close>)
qed

text \<open>The contract parser of API routes does not know the names \<open>Int\<close> and \<open>Float\<close>; they become records that
  no context declares.\<close>

lemma int_contract_rejected:
  "parse_api_return_contract ''Int'' = Inr (TyRecord ''Int'')" "parse_type_annotation ''Int'' = Inr TyInt"
proof -
  have "trim ''Int'' = ''Int''" by (rule trim_solid) (simp add: space_byte_def is_whitespace_def code_def)
  then show "parse_api_return_contract ''Int'' = Inr (TyRecord ''Int'')"
    by (simp add: parse_api_return_contract.simps [of "''Int''"] strip_suffix_def strip_wrapper_def parse_api_type_name_def
        is_api_type_identifier_def is_alphanumeric_def is_digit_def code_def)
  show "parse_type_annotation ''Int'' = Inr TyInt" by (rule parse_builtin) (simp add: builtin_types_def)
qed

definition demo_status :: nat where
  "demo_status = 200"

theorem api_response_checked_witness:
  "case validate_api_response_bytes (\<lambda>_. Inr (JArray [])) plain_numbers demo_status ''application/json'' ''[]'' ''Post[]'' demo_post_context of
      Inr _ \<Rightarrow> (\<exists>t v. parse_api_return_contract ''Post[]'' = Inr t \<and> Inr (JArray []) = (Inr v :: string + json_value)
          \<and> json_type plain_numbers demo_post_context t v \<and> is_json_content_type ''application/json'')
    | Inl e \<Rightarrow> \<not> is_json_content_type ''application/json'' \<or> (\<exists>x. parse_api_return_contract ''Post[]'' = Inl x)
        \<or> (\<exists>m. Inr (JArray []) = (Inl m :: string + json_value))
        \<or> (\<exists>t v j. parse_api_return_contract ''Post[]'' = Inr t \<and> Inr (JArray []) = (Inr v :: string + json_value)
            \<and> e = ContractMismatch ''Post[]'' j \<and> (\<not> json_type plain_numbers demo_post_context t v \<or> json_reason j = nesting_reason))"
  by (rule api_response_checked)
    (simp_all add: trim_solid space_byte_def is_whitespace_def code_def is_success_def demo_status_def)

end
