(* ===== verification/Session_Manager.thy ===== *)
theory Session_Manager
  imports Http Ax_Float
begin

section \<open>Server-side sessions\<close>

text \<open>
  \<open>axonyx-runtime/src/session.rs\<close> with \<open>session/csrf.rs\<close>, \<open>session/sqlite.rs\<close> and
  \<open>session/postgres.rs\<close>. A store is the record of its four operations, the table of a
  \<open>dyn AxSessionStore\<close>: each takes the state of the store and returns a result and the new
  state. Times are \<open>i64\<close> words, compared as signed integers. The keyed hash \<open>mac\<close>, the random
  identifier of a new session and the JSON codec of the stored data are arguments.
\<close>

subsection \<open>Saturating times\<close>

definition i64_saturate :: "int \<Rightarrow> i64" where
  "i64_saturate z = word_of_int (max (- (2 ^ 63)) (min z (2 ^ 63 - 1)))"

definition saturating_add :: "i64 \<Rightarrow> i64 \<Rightarrow> i64" where
  "saturating_add a b = i64_saturate (sint a + sint b)"

definition saturating_sub :: "i64 \<Rightarrow> i64 \<Rightarrow> i64" where
  "saturating_sub a b = i64_saturate (sint a - sint b)"

definition i64_min :: "i64 \<Rightarrow> i64 \<Rightarrow> i64" where
  "i64_min a b = (if sint a \<le> sint b then a else b)"

definition i64_max :: "i64 \<Rightarrow> i64 \<Rightarrow> i64" where
  "i64_max a b = (if sint a \<le> sint b then b else a)"

lemma sint_saturate: "sint (i64_saturate z) = max (- (2 ^ 63)) (min z (2 ^ 63 - 1))"
  unfolding i64_saturate_def by (rule sint_word_of_in_i64) (simp add: in_i64_def min_def max_def)

lemma sint_min: "sint (i64_min a b) = min (sint a) (sint b)"
  by (simp add: i64_min_def min_def)

lemma sint_max: "sint (i64_max a b) = max (sint a) (sint b)"
  by (simp add: i64_max_def max_def)

lemma sint_saturating_add: "sint (saturating_add a b) = max (- (2 ^ 63)) (min (sint a + sint b) (2 ^ 63 - 1))"
  by (simp add: saturating_add_def sint_saturate)

lemma sint_saturating_sub: "sint (saturating_sub a b) = max (- (2 ^ 63)) (min (sint a - sint b) (2 ^ 63 - 1))"
  by (simp add: saturating_sub_def sint_saturate)

lemma sint_range: "- (2 ^ 63) \<le> sint (a :: i64)" "sint (a :: i64) \<le> 2 ^ 63 - 1"
  using in_i64_sint [of a] by (simp_all add: in_i64_def)

lemmas sint_times = sint_min sint_max sint_saturating_add sint_saturating_sub

lemma saturating_add_mono: "sint a \<le> sint b \<Longrightarrow> sint (saturating_add c a) \<le> sint (saturating_add c b)"
  by (simp add: sint_times)

subsection \<open>Policies and cookies\<close>

datatype same_site = SameSiteStrict | SameSiteLax | SameSiteNone

fun same_site_label :: "same_site \<Rightarrow> string" where
  "same_site_label SameSiteStrict = ''Strict''"
| "same_site_label SameSiteLax = ''Lax''"
| "same_site_label SameSiteNone = ''None''"

record session_policy =
  policy_name :: string
  policy_path :: string
  policy_domain :: "string option"
  policy_ttl :: i64
  policy_absolute_ttl :: i64
  policy_secure :: bool
  policy_same_site :: same_site

definition default_session_ttl :: i64 where
  "default_session_ttl = 60 * 60 * 24 * 30"

definition default_policy :: session_policy where
  "default_policy = \<lparr> policy_name = ''session'', policy_path = ''/'', policy_domain = None,
     policy_ttl = default_session_ttl, policy_absolute_ttl = default_session_ttl, policy_secure = True,
     policy_same_site = SameSiteLax \<rparr>"

definition development_policy :: session_policy where
  "development_policy = default_policy\<lparr> policy_secure := False \<rparr>"

definition policy_validate :: "session_policy \<Rightarrow> rt_error + unit" where
  "policy_validate p =
     (if trim (policy_name p) = [] then Inl (RtMessage ''session cookie name must not be empty'')
      else if trim (policy_path p) = [] then Inl (RtMessage ''session cookie path must not be empty'')
      else if sint (policy_ttl p) \<le> 0 \<or> sint (policy_absolute_ttl p) \<le> 0 then
        Inl (RtMessage ''session TTL must be greater than zero'')
      else if policy_same_site p = SameSiteNone \<and> \<not> policy_secure p then
        Inl (RtMessage ''SameSite=None session cookies must be Secure'')
      else Inr ())"

definition policy_cookie :: "session_policy \<Rightarrow> string \<Rightarrow> i64 \<Rightarrow> ax_cookie" where
  "policy_cookie p v max_age =
     (cookie_new (policy_name p) v)
       \<lparr> cookie_path := Some (policy_path p), cookie_max_age := Some (sint max_age), cookie_http_only := True,
         cookie_same_site := Some (same_site_label (policy_same_site p)),
         cookie_domain := policy_domain p, cookie_secure := policy_secure p \<rparr>"

definition validate_secret :: "string \<Rightarrow> rt_error + unit" where
  "validate_secret secret =
     (if trim secret = [] then Inl (RtMessage ''session signing secret must not be empty'') else Inr ())"

definition issue_cookie :: "(bytes \<Rightarrow> bytes \<Rightarrow> bytes) \<Rightarrow> session_policy \<Rightarrow> string \<Rightarrow> string \<Rightarrow> rt_error + ax_cookie" where
  "issue_cookie mac p session_id secret =
     and_then (policy_validate p) (\<lambda>_.
     and_then (validate_secret secret) (\<lambda>_.
       Inr (policy_cookie p (sign_session mac session_id secret) (policy_ttl p))))"

definition clear_cookie :: "session_policy \<Rightarrow> rt_error + ax_cookie" where
  "clear_cookie p = and_then (policy_validate p) (\<lambda>_. Inr (policy_cookie p [] 0))"

subsection \<open>Sessions and stores\<close>

record 'v ax_session =
  session_id :: string
  session_subject :: string
  session_data :: "(string, 'v) bmap"
  session_created :: i64
  session_last_seen :: i64
  session_expires :: i64

definition is_expired :: "'v ax_session \<Rightarrow> i64 \<Rightarrow> bool" where
  "is_expired x now = (sint (session_expires x) \<le> sint now)"

type_synonym ('s, 'a) store_op = "'s \<Rightarrow> (rt_error + 'a) \<times> 's"

record ('s, 'v) store_ops =
  ops_save :: "'v ax_session \<Rightarrow> ('s, unit) store_op"
  ops_load :: "string \<Rightarrow> ('s, 'v ax_session option) store_op"
  ops_delete :: "string \<Rightarrow> ('s, unit) store_op"
  ops_refresh_live :: "'v ax_session \<Rightarrow> i64 \<Rightarrow> ('s, bool) store_op"

text \<open>\<open>store_then m f\<close> is \<open>let x = m?; f(x)\<close>: the first error ends the computation and keeps
  the state reached so far.\<close>

definition store_then :: "('s, 'a) store_op \<Rightarrow> ('a \<Rightarrow> ('s, 'b) store_op) \<Rightarrow> ('s, 'b) store_op" where
  "store_then m f s = (case m s of (Inl e, s') \<Rightarrow> (Inl e, s') | (Inr x, s') \<Rightarrow> f x s')"

definition store_return :: "'a \<Rightarrow> ('s, 'a) store_op" where
  "store_return x s = (Inr x, s)"

definition store_lift :: "rt_error + 'a \<Rightarrow> ('s, 'a) store_op" where
  "store_lift r s = (r, s)"

text \<open>The default of \<open>AxSessionStore::refresh_live\<close>.\<close>

definition default_refresh_live :: "'v ax_session \<Rightarrow> i64 \<Rightarrow> ('s, bool) store_op" where
  "default_refresh_live x now = store_lift (Inl (RtMessage ''session store does not support atomic refresh''))"

subsubsection \<open>The memory store\<close>

text \<open>A poisoned lock makes every operation fail.\<close>

record 'v memory_store =
  mem_sessions :: "(string, 'v ax_session) bmap"
  mem_poisoned :: bool

definition mem_read :: "('v memory_store, (string, 'v ax_session) bmap) store_op" where
  "mem_read s =
     (if mem_poisoned s then Inl (RtMessage ''session store read lock is poisoned'') else Inr (mem_sessions s), s)"

definition mem_write :: "((string, 'v ax_session) bmap \<Rightarrow> 'a \<times> (string, 'v ax_session) bmap) \<Rightarrow> ('v memory_store, 'a) store_op" where
  "mem_write f s =
     (if mem_poisoned s then (Inl (RtMessage ''session store write lock is poisoned''), s)
      else (case f (mem_sessions s) of (x, m) \<Rightarrow> (Inr x, s\<lparr> mem_sessions := m \<rparr>)))"

definition mem_length :: "('v memory_store, nat) store_op" where
  "mem_length = store_then mem_read (\<lambda>m. store_return (length m))"

definition mem_is_empty :: "('v memory_store, bool) store_op" where
  "mem_is_empty = store_then mem_read (\<lambda>m. store_return (m = []))"

definition mem_save :: "'v ax_session \<Rightarrow> ('v memory_store, unit) store_op" where
  "mem_save x = mem_write (\<lambda>m. ((), bm_insert (session_id x) x m))"

definition mem_load :: "string \<Rightarrow> ('v memory_store, 'v ax_session option) store_op" where
  "mem_load i = store_then mem_read (\<lambda>m. store_return (bm_get m i))"

definition mem_delete :: "string \<Rightarrow> ('v memory_store, unit) store_op" where
  "mem_delete i = mem_write (\<lambda>m. ((), bm_remove i m))"

definition extended :: "'v ax_session \<Rightarrow> 'v ax_session \<Rightarrow> 'v ax_session" where
  "extended current x = current
     \<lparr> session_last_seen := i64_max (session_last_seen current) (session_last_seen x),
       session_expires := i64_max (session_expires current) (session_expires x) \<rparr>"

definition mem_refresh_live :: "'v ax_session \<Rightarrow> i64 \<Rightarrow> ('v memory_store, bool) store_op" where
  "mem_refresh_live x now = mem_write (\<lambda>m.
     (case bm_get m (session_id x) of
        None \<Rightarrow> (False, m)
      | Some current \<Rightarrow>
          if is_expired current now \<or> session_created current \<noteq> session_created x then (False, m)
          else (True, bm_insert (session_id x) (extended current x) m)))"

definition memory_store_ops :: "('v memory_store, 'v) store_ops" where
  "memory_store_ops = \<lparr> ops_save = mem_save, ops_load = mem_load, ops_delete = mem_delete,
     ops_refresh_live = mem_refresh_live \<rparr>"

definition memory_store_new :: "'v memory_store" where
  "memory_store_new = \<lparr> mem_sessions = [], mem_poisoned = False \<rparr>"

subsubsection \<open>The SQL stores\<close>

text \<open>The SQLite and the PostgreSQL store run the same statements on the table \<open>ax_sessions\<close>. The
  table is the list of its rows, \<open>'j\<close> the type of the JSON column. The connection answers the
  next statement with an error when \<open>table_faults\<close> says so, and a failed statement has no effect.\<close>

record 'j session_row =
  row_id :: string
  row_subject :: string
  row_data :: 'j
  row_created :: i64
  row_last_seen :: i64
  row_expires :: i64

record 'j session_table =
  table_rows :: "'j session_row list"
  table_faults :: "rt_error option list"

definition statement :: "('j session_row list \<Rightarrow> 'a \<times> 'j session_row list) \<Rightarrow> ('j session_table, 'a) store_op" where
  "statement f t =
     (case table_faults t of
        Some e # fs \<Rightarrow> (Inl e, t\<lparr> table_faults := fs \<rparr>)
      | fs \<Rightarrow> (case f (table_rows t) of
                 (x, rows) \<Rightarrow> (Inr x, t\<lparr> table_rows := rows, table_faults := tl fs \<rparr>)))"

definition upsert_row :: "'j session_row \<Rightarrow> 'j session_row list \<Rightarrow> 'j session_row list" where
  "upsert_row r rows =
     (if row_id r \<in> row_id ` set rows then map (\<lambda>q. if row_id q = row_id r then r else q) rows else rows @ [r])"

definition sql_save :: "((string, 'v) bmap \<Rightarrow> rt_error + 'j) \<Rightarrow> 'v ax_session \<Rightarrow> ('j session_table, unit) store_op" where
  "sql_save to_json x =
     store_then (store_lift (to_json (session_data x))) (\<lambda>json.
       statement (\<lambda>rows. ((), upsert_row
         \<lparr> row_id = session_id x, row_subject = session_subject x, row_data = json, row_created = session_created x,
            row_last_seen = session_last_seen x, row_expires = session_expires x \<rparr> rows)))"

definition session_of_row :: "'j session_row \<Rightarrow> (string, 'v) bmap \<Rightarrow> 'v ax_session" where
  "session_of_row r d = \<lparr> session_id = row_id r, session_subject = row_subject r, session_data = d,
     session_created = row_created r, session_last_seen = row_last_seen r, session_expires = row_expires r \<rparr>"

definition sql_load :: "('j \<Rightarrow> rt_error + (string, 'v) bmap) \<Rightarrow> string \<Rightarrow> ('j session_table, 'v ax_session option) store_op" where
  "sql_load from_json i =
     store_then (statement (\<lambda>rows. (List.find (\<lambda>r. row_id r = i) rows, rows))) (\<lambda>found.
       case found of
         None \<Rightarrow> store_return None
       | Some r \<Rightarrow> store_then (store_lift (from_json (row_data r))) (\<lambda>d. store_return (Some (session_of_row r d))))"

definition sql_delete :: "string \<Rightarrow> ('j session_table, unit) store_op" where
  "sql_delete i = statement (\<lambda>rows. ((), filter (\<lambda>r. row_id r \<noteq> i) rows))"

definition live_row :: "'v ax_session \<Rightarrow> i64 \<Rightarrow> 'j session_row \<Rightarrow> bool" where
  "live_row x now r =
     (row_id r = session_id x \<and> row_created r = session_created x \<and> sint now < sint (row_expires r))"

definition extended_row :: "'v ax_session \<Rightarrow> 'j session_row \<Rightarrow> 'j session_row" where
  "extended_row x r = r
     \<lparr> row_last_seen := i64_max (row_last_seen r) (session_last_seen x),
       row_expires := i64_max (row_expires r) (session_expires x) \<rparr>"

definition sql_refresh_live :: "'v ax_session \<Rightarrow> i64 \<Rightarrow> ('j session_table, bool) store_op" where
  "sql_refresh_live x now = statement (\<lambda>rows.
     (length (filter (live_row x now) rows) = 1,
      map (\<lambda>r. if live_row x now r then extended_row x r else r) rows))"

definition sql_purge_expired :: "i64 \<Rightarrow> ('j session_table, nat) store_op" where
  "sql_purge_expired now = statement (\<lambda>rows.
     (length (filter (\<lambda>r. sint (row_expires r) \<le> sint now) rows),
      filter (\<lambda>r. \<not> sint (row_expires r) \<le> sint now) rows))"

definition sql_store_ops :: "((string, 'v) bmap \<Rightarrow> rt_error + 'j) \<Rightarrow> ('j \<Rightarrow> rt_error + (string, 'v) bmap)
    \<Rightarrow> ('j session_table, 'v) store_ops" where
  "sql_store_ops to_json from_json = \<lparr> ops_save = sql_save to_json, ops_load = sql_load from_json,
     ops_delete = sql_delete, ops_refresh_live = sql_refresh_live \<rparr>"

subsection \<open>Proofs against request forgery\<close>

definition be64 :: "nat \<Rightarrow> bytes" where
  "be64 n = map (\<lambda>k. char_of (n div 256 ^ k)) (rev [0..<8])"

definition csrf_input :: "string \<Rightarrow> bytes" where
  "csrf_input i = ''axonyx:csrf:v1'' @ [CHR 0x00] @ be64 (length i) @ i"

definition session_mac :: "(bytes \<Rightarrow> bytes \<Rightarrow> bytes) \<Rightarrow> string \<Rightarrow> string \<Rightarrow> rt_error + bytes" where
  "session_mac mac i secret =
     (if length secret < 32 then Inl (RtMessage ''CSRF signing secret must contain at least 32 bytes'')
      else Inr (mac secret (csrf_input i)))"

definition csrf_issue :: "(bytes \<Rightarrow> bytes \<Rightarrow> bytes) \<Rightarrow> string \<Rightarrow> string \<Rightarrow> rt_error + string" where
  "csrf_issue mac i secret = and_then (session_mac mac i secret) (\<lambda>tag. Inr (''axcsrf1.'' @ hex_encode tag))"

definition csrf_nibble :: "char \<Rightarrow> nat option" where
  "csrf_nibble c =
     (if 48 \<le> code c \<and> code c \<le> 57 then Some (code c - 48)
      else if 97 \<le> code c \<and> code c \<le> 102 then Some (code c - 97 + 10) else None)"

fun csrf_signature :: "string \<Rightarrow> bytes option" where
  "csrf_signature (h # l # cs) = do {
     high \<leftarrow> csrf_nibble h; low \<leftarrow> csrf_nibble l; rest \<leftarrow> csrf_signature cs;
     Some (char_of (high * 16 + low) # rest) }"
| "csrf_signature _ = Some []"

definition csrf_verify :: "(bytes \<Rightarrow> bytes \<Rightarrow> bytes) \<Rightarrow> string \<Rightarrow> string \<Rightarrow> string \<Rightarrow> rt_error + bool" where
  "csrf_verify mac i token secret =
     and_then (session_mac mac i secret) (\<lambda>tag.
       case strip_prefix ''axcsrf1.'' token of
         None \<Rightarrow> Inr False
       | Some hex \<Rightarrow>
           if length hex \<noteq> 64 then Inr False
           else (case csrf_signature hex of None \<Rightarrow> Inr False | Some signature \<Rightarrow> Inr (signature = tag)))"

subsection \<open>The manager\<close>

record ('s, 'v) session_manager =
  manager_store :: "('s, 'v) store_ops"
  manager_policy :: session_policy

definition manager_new :: "('s, 'v) store_ops \<Rightarrow> session_policy \<Rightarrow> rt_error + ('s, 'v) session_manager" where
  "manager_new ops p = and_then (policy_validate p) (\<lambda>_. Inr \<lparr> manager_store = ops, manager_policy = p \<rparr>)"

definition new_session :: "session_policy \<Rightarrow> string \<Rightarrow> string \<Rightarrow> (string, 'v) bmap \<Rightarrow> i64 \<Rightarrow> 'v ax_session" where
  "new_session p i subject data now =
     \<lparr> session_id = i, session_subject = subject, session_data = data, session_created = now,
        session_last_seen = now,
        session_expires = saturating_add now (i64_min (policy_ttl p) (policy_absolute_ttl p)) \<rparr>"

definition session_cookie :: "(bytes \<Rightarrow> bytes \<Rightarrow> bytes) \<Rightarrow> session_policy \<Rightarrow> 'v ax_session \<Rightarrow> string \<Rightarrow> i64 \<Rightarrow> ax_cookie" where
  "session_cookie mac p x secret now =
     policy_cookie p (sign_session mac (session_id x) secret) (saturating_sub (session_expires x) now)"

definition manager_create :: "(bytes \<Rightarrow> bytes \<Rightarrow> bytes) \<Rightarrow> string \<Rightarrow> ('s, 'v) session_manager \<Rightarrow> string
    \<Rightarrow> (string, 'v) bmap \<Rightarrow> string \<Rightarrow> i64 \<Rightarrow> ('s, 'v ax_session \<times> ax_cookie) store_op" where
  "manager_create mac uuid mgr subject data secret now =
     store_then (store_lift (validate_secret secret)) (\<lambda>_.
       if trim subject = [] then store_lift (Inl (RtMessage ''session subject must not be empty''))
       else
         let x = new_session (manager_policy mgr) uuid subject data now in
         store_then (ops_save (manager_store mgr) x) (\<lambda>_.
           store_return (x, session_cookie mac (manager_policy mgr) x secret now)))"

definition past_lifetime :: "session_policy \<Rightarrow> 'v ax_session \<Rightarrow> i64 \<Rightarrow> bool" where
  "past_lifetime p x now =
     (is_expired x now \<or> sint (saturating_add (session_created x) (policy_absolute_ttl p)) \<le> sint now)"

definition manager_load :: "(bytes \<Rightarrow> bytes \<Rightarrow> bytes) \<Rightarrow> ('s, 'v) session_manager \<Rightarrow> http_request \<Rightarrow> string \<Rightarrow> i64
    \<Rightarrow> ('s, 'v ax_session option) store_op" where
  "manager_load mac mgr r secret now =
     store_then (store_lift (validate_secret secret)) (\<lambda>_.
       case signed_cookie mac r (policy_name (manager_policy mgr)) secret of
         None \<Rightarrow> store_return None
       | Some i \<Rightarrow>
           store_then (ops_load (manager_store mgr) i) (\<lambda>found.
             case found of
               None \<Rightarrow> store_return None
             | Some x \<Rightarrow>
                 if past_lifetime (manager_policy mgr) x now then
                   store_then (ops_delete (manager_store mgr) i) (\<lambda>_. store_return None)
                 else store_return (Some x)))"

definition refreshed_session :: "session_policy \<Rightarrow> 'v ax_session \<Rightarrow> i64 \<Rightarrow> 'v ax_session" where
  "refreshed_session p x now = x
     \<lparr> session_last_seen := now,
       session_expires := i64_min (saturating_add now (policy_ttl p))
                            (saturating_add (session_created x) (policy_absolute_ttl p)) \<rparr>"

text \<open>The second half of \<open>refresh\<close>, after the load.\<close>

definition refresh_finish :: "(bytes \<Rightarrow> bytes \<Rightarrow> bytes) \<Rightarrow> ('s, 'v) session_manager \<Rightarrow> string \<Rightarrow> i64 \<Rightarrow> 'v ax_session
    \<Rightarrow> ('s, ('v ax_session \<times> ax_cookie) option) store_op" where
  "refresh_finish mac mgr secret now x =
     store_then (ops_refresh_live (manager_store mgr) x now) (\<lambda>live.
       store_return (if live then Some (x, session_cookie mac (manager_policy mgr) x secret now) else None))"

definition manager_refresh :: "(bytes \<Rightarrow> bytes \<Rightarrow> bytes) \<Rightarrow> ('s, 'v) session_manager \<Rightarrow> http_request \<Rightarrow> string \<Rightarrow> i64
    \<Rightarrow> ('s, ('v ax_session \<times> ax_cookie) option) store_op" where
  "manager_refresh mac mgr r secret now =
     store_then (manager_load mac mgr r secret now) (\<lambda>found.
       case found of
         None \<Rightarrow> store_return None
       | Some x \<Rightarrow> refresh_finish mac mgr secret now (refreshed_session (manager_policy mgr) x now))"

definition manager_csrf_token :: "(bytes \<Rightarrow> bytes \<Rightarrow> bytes) \<Rightarrow> ('s, 'v) session_manager \<Rightarrow> http_request \<Rightarrow> string \<Rightarrow> i64
    \<Rightarrow> ('s, string option) store_op" where
  "manager_csrf_token mac mgr r secret now =
     store_then (manager_load mac mgr r secret now) (\<lambda>found.
       case found of
         None \<Rightarrow> store_return None
       | Some x \<Rightarrow> store_lift (and_then (csrf_issue mac (session_id x) secret) (\<lambda>t. Inr (Some t))))"

definition manager_verify_csrf :: "(bytes \<Rightarrow> bytes \<Rightarrow> bytes) \<Rightarrow> ('s, 'v) session_manager \<Rightarrow> http_request \<Rightarrow> string
    \<Rightarrow> string \<Rightarrow> i64 \<Rightarrow> ('s, bool) store_op" where
  "manager_verify_csrf mac mgr r token secret now =
     store_then (manager_load mac mgr r secret now) (\<lambda>found.
       case found of
         None \<Rightarrow> store_return False
       | Some x \<Rightarrow> store_lift (csrf_verify mac (session_id x) token secret))"

definition manager_destroy :: "(bytes \<Rightarrow> bytes \<Rightarrow> bytes) \<Rightarrow> ('s, 'v) session_manager \<Rightarrow> http_request \<Rightarrow> string
    \<Rightarrow> ('s, ax_cookie) store_op" where
  "manager_destroy mac mgr r secret =
     store_then (store_lift (validate_secret secret)) (\<lambda>_.
     store_then
       (case signed_cookie mac r (policy_name (manager_policy mgr)) secret of
          Some i \<Rightarrow> ops_delete (manager_store mgr) i | None \<Rightarrow> store_return ())
       (\<lambda>_. store_lift (clear_cookie (manager_policy mgr))))"

end
