(* ===== verification/Session_Correct.thy ===== *)
theory Session_Correct
  imports Session_Manager
begin

section \<open>What sessions promise\<close>

text \<open>
  \<open>session_store\<close> is the contract of \<open>AxSessionStore\<close>: a store implements the map from
  identifiers to sessions (\<open>rows_ops\<close>), and an operation that fails changes nothing. The manager
  is verified once against the contract; the memory store and the SQL stores provide it.
\<close>

subsection \<open>The abstract store\<close>

type_synonym 'v session_rows = "string \<Rightarrow> 'v ax_session option"

definition rows_refresh :: "'v ax_session \<Rightarrow> i64 \<Rightarrow> ('v session_rows, bool) store_op" where
  "rows_refresh x now m =
     (case m (session_id x) of
        None \<Rightarrow> (Inr False, m)
      | Some current \<Rightarrow>
          if is_expired current now \<or> session_created current \<noteq> session_created x then (Inr False, m)
          else (Inr True, m(session_id x \<mapsto> extended current x)))"

definition rows_ops :: "('v session_rows, 'v) store_ops" where
  "rows_ops = \<lparr> ops_save = (\<lambda>x m. (Inr (), m(session_id x \<mapsto> x))), ops_load = (\<lambda>i m. (Inr (m i), m)),
     ops_delete = (\<lambda>i m. (Inr (), m(i := None))), ops_refresh_live = rows_refresh \<rparr>"

lemma rows_ops_simps [simp]:
  "ops_save rows_ops x m = (Inr (), m(session_id x \<mapsto> x))" "ops_load rows_ops i m = (Inr (m i), m)"
  "ops_delete rows_ops i m = (Inr (), m(i := None))" "ops_refresh_live rows_ops = rows_refresh"
  by (simp_all add: rows_ops_def)

text \<open>\<open>keyed m\<close>: every session is stored under its own identifier.\<close>

definition keyed :: "'v session_rows \<Rightarrow> bool" where
  "keyed m = (\<forall>i x. m i = Some x \<longrightarrow> session_id x = i)"

subsection \<open>The contract\<close>

text \<open>A step of the store implements a step of the map, or fails and leaves the map alone, or fails
  as the step of the map does.\<close>

definition step_ok :: "('s \<Rightarrow> 'v session_rows) \<Rightarrow> ('s \<Rightarrow> bool) \<Rightarrow> ('v session_rows, 'a) store_op \<Rightarrow> 's
    \<Rightarrow> (rt_error + 'a) \<times> 's \<Rightarrow> bool" where
  "step_ok rows invar a s = (\<lambda>(r, s'). invar s' \<and>
     (case r of Inr y \<Rightarrow> a (rows s) = (Inr y, rows s')
      | Inl e \<Rightarrow> rows s' = rows s \<or> a (rows s) = (Inl e, rows s')))"

definition implements :: "('s \<Rightarrow> 'v session_rows) \<Rightarrow> ('s \<Rightarrow> bool) \<Rightarrow> ('s, 'a) store_op \<Rightarrow> ('v session_rows, 'a) store_op \<Rightarrow> bool" where
  "implements rows invar m a = (\<forall>s. invar s \<longrightarrow> step_ok rows invar a s (m s))"

lemma implementsI: "(\<And>s. invar s \<Longrightarrow> step_ok rows invar a s (m s)) \<Longrightarrow> implements rows invar m a"
  by (simp add: implements_def)

lemma implementsD:
  assumes "implements rows invar m a" and "invar s"
  shows "invar (snd (m s))" and "fst (m s) = Inr y \<Longrightarrow> a (rows s) = (Inr y, rows (snd (m s)))"
    and "fst (m s) = Inl e \<Longrightarrow> rows (snd (m s)) = rows s \<or> a (rows s) = (Inl e, rows (snd (m s)))"
  using assms unfolding implements_def step_ok_def by (cases "m s"; fastforce)+

lemma implements_lift [intro, simp]: "implements rows invar (store_lift r) (store_lift r)"
  by (simp add: implements_def step_ok_def store_lift_def split: sum.split)

lemma store_return_lift: "store_return x = store_lift (Inr x)"
  by (rule ext) (simp add: store_return_def store_lift_def)

lemma implements_return [intro, simp]: "implements rows invar (store_return x) (store_return x)"
  by (simp add: implements_def step_ok_def store_return_def)

lemma store_then_lift [simp]: "store_then (store_lift r) f = (case r of Inl e \<Rightarrow> store_lift (Inl e) | Inr x \<Rightarrow> f x)"
  by (rule ext) (simp add: store_then_def store_lift_def split: sum.split)

lemma store_then_return [simp]: "store_then (store_return x) f = f x"
  by (rule ext) (simp add: store_then_def store_return_def)

text \<open>Sequencing: the second step must not change the map when it fails, or must fail on the map too;
  a first step that has changed the map is followed by steps that the map shares.\<close>

lemma implements_then:
  assumes "implements rows invar m a" and "\<And>x. implements rows invar (f x) (g x)"
    and "\<And>s x. invar s \<Longrightarrow> fst (m s) = Inr x \<Longrightarrow> rows (snd (m s)) = rows s \<or> (\<exists>r. f x = store_lift r \<and> g x = store_lift r)"
  shows "implements rows invar (store_then m f) (store_then a g)"
proof (rule implementsI)
  fix s assume s: "invar s"
  obtain r s1 where m: "m s = (r, s1)" by force
  note M = implementsD [OF assms(1) s, unfolded m, simplified]
  show "step_ok rows invar (store_then a g) s (store_then m f s)"
  proof (cases r)
    case (Inl e)
    with m M show ?thesis by (auto simp: store_then_def step_ok_def)
  next
    case (Inr x)
    with M have a: "a (rows s) = (Inr x, rows s1)" and s1: "invar s1" by auto
    from implementsD [OF assms(2) s1, of x] assms(3) [OF s, of x] m Inr a show ?thesis
      by (auto simp: store_then_def store_lift_def step_ok_def split: sum.split prod.split)
  qed
qed

text \<open>In particular when the first step never changes the map.\<close>

definition reads :: "('s \<Rightarrow> 'v session_rows) \<Rightarrow> ('s \<Rightarrow> bool) \<Rightarrow> ('s, 'a) store_op \<Rightarrow> bool" where
  "reads rows invar m = (\<forall>s. invar s \<longrightarrow> rows (snd (m s)) = rows s)"

locale session_store =
  fixes ops :: "('s, 'v) store_ops" and rows :: "'s \<Rightarrow> 'v session_rows" and invar :: "'s \<Rightarrow> bool"
  assumes save_law: "implements rows invar (ops_save ops x) (ops_save rows_ops x)"
    and load_law: "implements rows invar (ops_load ops i) (ops_load rows_ops i)"
    and delete_law: "implements rows invar (ops_delete ops i) (ops_delete rows_ops i)"
    and refresh_law: "implements rows invar (ops_refresh_live ops x now) (ops_refresh_live rows_ops x now)"
begin

abbreviation manager :: "session_policy \<Rightarrow> ('s, 'v) session_manager" where
  "manager p \<equiv> \<lparr> manager_store = ops, manager_policy = p \<rparr>"

abbreviation spec :: "session_policy \<Rightarrow> ('v session_rows, 'v) session_manager" where
  "spec p \<equiv> \<lparr> manager_store = rows_ops, manager_policy = p \<rparr>"

lemma load_reads: "invar s \<Longrightarrow> rows (snd (ops_load ops i s)) = rows s"
  using implementsD [OF load_law [of i], of s] by (cases "fst (ops_load ops i s)") auto

lemma create_implements:
  "implements rows invar (manager_create mac uuid (manager p) subject data secret now)
     (manager_create mac uuid (spec p) subject data secret now)"
  unfolding manager_create_def
  by (auto simp: Let_def store_return_lift split: sum.split intro!: implements_then save_law)

lemma load_implements:
  "implements rows invar (manager_load mac (manager p) r secret now) (manager_load mac (spec p) r secret now)"
  unfolding manager_load_def
  by (auto simp: store_return_lift load_reads split: sum.split option.split intro!: implements_then load_law delete_law)

lemma destroy_implements:
  "implements rows invar (manager_destroy mac (manager p) r secret) (manager_destroy mac (spec p) r secret)"
  unfolding manager_destroy_def
  by (auto simp: split: sum.split option.split intro!: implements_then delete_law)

lemma found_unchanged:
  assumes "invar s" and "fst (manager_load mac (manager p) r secret now s) = Inr (Some x)"
  shows "rows (snd (manager_load mac (manager p) r secret now s)) = rows s"
proof -
  have "rows t = rows s" if "ops_load ops i s = (y, t)" for i y t
    using load_reads [OF assms(1), of i] that by simp
  with assms(2) show ?thesis
    by (auto simp: manager_load_def store_then_def store_return_def store_lift_def split: sum.splits option.splits if_splits prod.splits)
qed

lemma refresh_implements:
  "implements rows invar (manager_refresh mac (manager p) r secret now) (manager_refresh mac (spec p) r secret now)"
proof -
  have f: "implements rows invar (refresh_finish mac (manager p) secret now x) (refresh_finish mac (spec p) secret now x)" for x
    unfolding refresh_finish_def
    by (auto simp: store_return_lift intro!: implements_then refresh_law [simplified])
  show ?thesis
    unfolding manager_refresh_def
    by (rule implements_then [OF load_implements])
      (use f found_unchanged in \<open>auto simp: store_return_lift split: option.split\<close>)
qed

lemma token_implements:
  "implements rows invar (manager_csrf_token mac (manager p) r secret now) (manager_csrf_token mac (spec p) r secret now)"
  unfolding manager_csrf_token_def
  by (rule implements_then [OF load_implements]) (auto simp: store_return_lift split: option.split)

lemma verify_implements:
  "implements rows invar (manager_verify_csrf mac (manager p) r t secret now) (manager_verify_csrf mac (spec p) r t secret now)"
  unfolding manager_verify_csrf_def
  by (rule implements_then [OF load_implements]) (auto simp: store_return_lift split: option.split)

end

subsection \<open>The memory store provides it\<close>

definition mem_rows :: "'v memory_store \<Rightarrow> 'v session_rows" where
  "mem_rows s = bm_get (mem_sessions s)"

definition mem_ok :: "'v memory_store \<Rightarrow> bool" where
  "mem_ok s = (bm_ok (mem_sessions s) \<and> keyed (mem_rows s))"

lemma keyed_update: "keyed m \<Longrightarrow> session_id x = i \<Longrightarrow> keyed (m(i \<mapsto> x))" "keyed m \<Longrightarrow> keyed (m(i := None))"
  by (auto simp: keyed_def)

lemma session_id_extended [simp]: "session_id (extended c x) = session_id c"
  by (simp add: extended_def)

lemmas memory_simps = memory_store_ops_def mem_save_def mem_load_def mem_delete_def mem_refresh_live_def mem_write_def
  mem_read_def store_then_def store_return_def mem_rows_def rows_refresh_def

lemma mem_refresh_ok:
  assumes "mem_ok s"
  shows "step_ok mem_rows mem_ok (rows_refresh x now) s (mem_refresh_live x now s)"
proof (cases "bm_get (mem_sessions s) (session_id x)")
  case None
  with assms show ?thesis by (simp add: memory_simps step_ok_def)
next
  case (Some c)
  from assms have k: "keyed (bm_get (mem_sessions s))" and b: "bm_ok (mem_sessions s)" by (simp_all add: mem_ok_def mem_rows_def)
  from k Some have "session_id (extended c x) = session_id x" by (simp add: keyed_def)
  from keyed_update(1) [OF k this] b Some assms show ?thesis
    by (simp add: memory_simps step_ok_def mem_ok_def bm_get_insert)
qed

interpretation mem: session_store memory_store_ops mem_rows mem_ok
proof (unfold_locales; rule implementsI)
  fix x :: "'a ax_session" and i now and s :: "'a memory_store"
  assume s: "mem_ok s"
  then have k: "keyed (bm_get (mem_sessions s))" and b: "bm_ok (mem_sessions s)" by (simp_all add: mem_ok_def mem_rows_def)
  show "step_ok mem_rows mem_ok (ops_save rows_ops x) s (ops_save memory_store_ops x s)"
    using s b keyed_update(1) [OF k] by (simp add: memory_simps step_ok_def mem_ok_def bm_get_insert)
  show "step_ok mem_rows mem_ok (ops_load rows_ops i) s (ops_load memory_store_ops i s)"
    using s by (simp add: memory_simps step_ok_def)
  show "step_ok mem_rows mem_ok (ops_delete rows_ops i) s (ops_delete memory_store_ops i s)"
    using s b keyed_update(2) [OF k] by (simp add: memory_simps step_ok_def mem_ok_def bm_get_remove)
  show "step_ok mem_rows mem_ok (ops_refresh_live rows_ops x now) s (ops_refresh_live memory_store_ops x now s)"
    using mem_refresh_ok [OF s] by (simp add: memory_store_ops_def)
qed

subsection \<open>The SQL stores provide it\<close>

definition sql_rows :: "('j \<Rightarrow> rt_error + (string, 'v) bmap) \<Rightarrow> 'j session_table \<Rightarrow> 'v session_rows" where
  "sql_rows from_json t i =
     (case List.find (\<lambda>r. row_id r = i) (table_rows t) of
        None \<Rightarrow> None
      | Some r \<Rightarrow> (case from_json (row_data r) of Inr d \<Rightarrow> Some (session_of_row r d) | Inl _ \<Rightarrow> None))"

definition sql_ok :: "('j \<Rightarrow> rt_error + (string, 'v) bmap) \<Rightarrow> 'j session_table \<Rightarrow> bool" where
  "sql_ok from_json t =
     (distinct (map row_id (table_rows t)) \<and> (\<forall>r \<in> set (table_rows t). \<exists>d. from_json (row_data r) = Inr d))"

abbreviation find_row :: "string \<Rightarrow> 'j session_row list \<Rightarrow> 'j session_row option" where
  "find_row i rows \<equiv> List.find (\<lambda>r. row_id r = i) rows"

lemma find_row_None: "find_row i rows = None \<longleftrightarrow> i \<notin> row_id ` set rows"
  by (auto simp: find_None_iff)

lemma find_row_id: "find_row i rows = Some r \<Longrightarrow> row_id r = i \<and> r \<in> set rows"
  by (auto simp: find_Some_iff)

lemma find_row_map: "(\<And>r. row_id (f r) = row_id r) \<Longrightarrow> find_row i (map f rows) = map_option f (find_row i rows)"
  by (induction rows) auto

lemma find_row_append: "find_row i (rows @ qs) = (case find_row i rows of Some r \<Rightarrow> Some r | None \<Rightarrow> find_row i qs)"
  by (induction rows) auto

lemma find_row_replace: "find_row i (map (\<lambda>q. if row_id q = row_id r then r else q) rows)
    = (if i = row_id r \<and> i \<in> row_id ` set rows then Some r else find_row i rows)"
  by (induction rows) auto

lemma find_row_upsert: "find_row i (upsert_row r rows) = (if i = row_id r then Some r else find_row i rows)"
proof (cases "row_id r \<in> row_id ` set rows")
  case False
  then have "find_row (row_id r) rows = None" by (simp add: find_row_None)
  with False show ?thesis by (auto simp: upsert_row_def find_row_append split: option.split)
qed (simp add: upsert_row_def find_row_replace)

lemma find_row_filter: "find_row i (filter (\<lambda>r. row_id r \<noteq> j) rows) = (if i = j then None else find_row i rows)"
  by (induction rows) auto

lemma distinct_upsert: "distinct (map row_id rows) \<Longrightarrow> distinct (map row_id (upsert_row r rows))"
proof -
  have "map row_id (map (\<lambda>q. if row_id q = row_id r then r else q) rows) = map row_id rows" by (induction rows) auto
  then show "distinct (map row_id rows) \<Longrightarrow> distinct (map row_id (upsert_row r rows))"
    by (auto simp: upsert_row_def simp del: map_map)
qed

lemma set_upsert: "set (upsert_row r rows) \<subseteq> insert r (set rows)"
  by (auto simp: upsert_row_def)

lemma one_live_row:
  assumes "distinct (map row_id rows)"
  shows "length (filter (live_row x now) rows) = 1 \<longleftrightarrow>
    (case find_row (session_id x) rows of Some r \<Rightarrow> live_row x now r | None \<Rightarrow> False)"
  using assms
proof (induction rows)
  case (Cons r rows)
  show ?case
  proof (cases "row_id r = session_id x")
    case True
    with Cons.prems have "filter (live_row x now) rows = []"
      by (auto simp: filter_empty_conv live_row_def image_iff)
    with True show ?thesis by simp
  next
    case False
    then have "\<not> live_row x now r" by (simp add: live_row_def)
    with Cons False show ?thesis by simp
  qed
qed simp

lemma extended_row_simps [simp]: "row_id (extended_row x r) = row_id r" "row_data (extended_row x r) = row_data r"
  by (simp_all add: extended_row_def)

lemma session_of_extended: "session_of_row (extended_row x r) d = extended (session_of_row r d) x"
  by (simp add: session_of_row_def extended_row_def extended_def)

lemma sql_refresh_rows:
  assumes dist: "distinct (map row_id (table_rows t))"
    and dec: "\<And>r. r \<in> set (table_rows t) \<Longrightarrow> \<exists>d. from_json (row_data r) = Inr d"
  shows "rows_refresh x now (sql_rows from_json t) = (Inr (length (filter (live_row x now) (table_rows t)) = 1),
    sql_rows from_json (t\<lparr> table_rows := map (\<lambda>r. if live_row x now r then extended_row x r else r) (table_rows t),
      table_faults := fs \<rparr>))" (is "_ = (_, sql_rows from_json ?t)")
proof -
  let ?f = "\<lambda>r. if live_row x now r then extended_row x r else r"
  have look: "find_row i (table_rows ?t) = map_option ?f (find_row i (table_rows t))" for i
    using find_row_map [of ?f i "table_rows t"] by (simp add: extended_row_def)
  have data: "row_data (?f r) = row_data r" for r by (simp add: extended_row_def)
  have other: "sql_rows from_json ?t i = sql_rows from_json t i" if "i \<noteq> session_id x" for i
  proof (cases "find_row i (table_rows t)")
    case (Some r)
    with that find_row_id [OF this] have "\<not> live_row x now r" by (simp add: live_row_def)
    with Some look [of i] show ?thesis unfolding sql_rows_def by simp
  next
    case None
    with look [of i] show ?thesis unfolding sql_rows_def by simp
  qed
  have same: "sql_rows from_json ?t = sql_rows from_json t"
    if "sql_rows from_json ?t (session_id x) = sql_rows from_json t (session_id x)"
  proof
    fix i show "sql_rows from_json ?t i = sql_rows from_json t i"
      using other [of i] that by (cases "i = session_id x") blast+
  qed
  show ?thesis
  proof (cases "find_row (session_id x) (table_rows t)")
    case None
    with look [of "session_id x"] have "sql_rows from_json ?t (session_id x) = None" "sql_rows from_json t (session_id x) = None"
      by (simp_all only: sql_rows_def) simp_all
    moreover from this have "sql_rows from_json ?t = sql_rows from_json t" by (intro same) (simp only:)
    ultimately show ?thesis using None one_live_row [OF dist, of x now] by (simp add: rows_refresh_def)
  next
    case (Some q)
    with find_row_id [OF this] dec [of q] obtain d where d: "from_json (row_data q) = Inr d" and q: "row_id q = session_id x" by auto
    from Some d have c: "sql_rows from_json t (session_id x) = Some (session_of_row q d)" by (simp add: sql_rows_def)
    have c': "sql_rows from_json ?t (session_id x) = Some (session_of_row (?f q) d)"
      using look [of "session_id x"] Some d data [of q] unfolding sql_rows_def by simp
    have live: "live_row x now q \<longleftrightarrow> \<not> (is_expired (session_of_row q d) now \<or> session_created (session_of_row q d) \<noteq> session_created x)"
      using q by (auto simp: live_row_def is_expired_def session_of_row_def)
    show ?thesis
    proof (cases "live_row x now q")
      case True
      with c' have "sql_rows from_json ?t = (sql_rows from_json t)(session_id x \<mapsto> extended (session_of_row q d) x)"
        using other by (auto simp: fun_eq_iff session_of_extended)
      with True c live Some one_live_row [OF dist, of x now] show ?thesis by (simp add: rows_refresh_def)
    next
      case False
      with c c' have "sql_rows from_json ?t = sql_rows from_json t" by (intro same) (simp only: if_False)
      with False c live Some one_live_row [OF dist, of x now] show ?thesis by (simp add: rows_refresh_def)
    qed
  qed
qed

lemma sql_session_store:
  assumes codec: "\<And>d j. to_json d = Inr j \<Longrightarrow> from_json j = Inr d"
  shows "session_store (sql_store_ops to_json from_json) (sql_rows from_json) (sql_ok from_json)"
proof (unfold_locales; rule implementsI)
  fix x :: "'a ax_session" and i now and t :: "'b session_table"
  assume t: "sql_ok from_json t"
  then have dist: "distinct (map row_id (table_rows t))"
    and dec: "\<And>r. r \<in> set (table_rows t) \<Longrightarrow> \<exists>d. from_json (row_data r) = Inr d" by (auto simp: sql_ok_def)
  let ?step = "\<lambda>a r. step_ok (sql_rows from_json) (sql_ok from_json) a t r"
  have faults: "?step a (statement f t)"
    if "\<And>y rows. f (table_rows t) = (y, rows) \<Longrightarrow> ?step a (Inr y, t\<lparr> table_rows := rows, table_faults := tl (table_faults t) \<rparr>)"
    for a :: "('a session_rows, 'c) store_op" and f
  proof (cases "table_faults t")
    case Nil
    with that show ?thesis by (simp add: statement_def split: prod.split)
  next
    case (Cons g fs)
    with that t show ?thesis
      by (cases g) (simp_all add: statement_def step_ok_def sql_rows_def fun_eq_iff sql_ok_def split: prod.split)
  qed
  show "?step (ops_delete rows_ops i) (ops_delete (sql_store_ops to_json from_json) i t)"
  proof -
    have "?step (ops_delete rows_ops i) (statement (\<lambda>rows. ((), filter (\<lambda>r. row_id r \<noteq> i) rows)) t)"
      by (rule faults) (use dist dec in \<open>auto simp: step_ok_def sql_ok_def sql_rows_def fun_eq_iff find_row_filter distinct_map_filter\<close>)
    then show ?thesis by (simp add: sql_store_ops_def sql_delete_def)
  qed
  show "?step (ops_save rows_ops x) (ops_save (sql_store_ops to_json from_json) x t)"
  proof (cases "to_json (session_data x)")
    case (Inl e)
    with t show ?thesis by (simp add: sql_store_ops_def sql_save_def step_ok_def store_lift_def)
  next
    case (Inr j)
    let ?r = "\<lparr> row_id = session_id x, row_subject = session_subject x, row_data = j, row_created = session_created x,
            row_last_seen = session_last_seen x, row_expires = session_expires x \<rparr>"
    have "\<exists>d. from_json (row_data r) = Inr d" if "r \<in> set (upsert_row ?r (table_rows t))" for r
      using that set_upsert [of ?r "table_rows t"] codec [OF Inr] dec [of r] by auto
    then have "?step (ops_save rows_ops x) (statement (\<lambda>rows. ((), upsert_row ?r rows)) t)"
      by (intro faults) (use dist codec [OF Inr] in \<open>auto simp: step_ok_def sql_ok_def sql_rows_def
          session_of_row_def fun_eq_iff find_row_upsert distinct_upsert\<close>)
    with Inr show ?thesis by (simp add: sql_store_ops_def sql_save_def)
  qed
  show "?step (ops_load rows_ops i) (ops_load (sql_store_ops to_json from_json) i t)"
  proof -
    have s: "step_ok (sql_rows from_json) (sql_ok from_json) (\<lambda>m. (Inr (find_row i (table_rows t)), m)) t
        (statement (\<lambda>rows. (find_row i rows, rows)) t)"
      by (rule faults) (use t in \<open>auto simp: step_ok_def sql_ok_def sql_rows_def fun_eq_iff\<close>)
    obtain r t' where st: "statement (\<lambda>rows. (find_row i rows, rows)) t = (r, t')" by force
    with s have ok: "sql_ok from_json t'" and rows: "sql_rows from_json t' = sql_rows from_json t"
      and r: "\<And>y. r = Inr y \<Longrightarrow> y = find_row i (table_rows t)"
      by (auto simp: step_ok_def split: sum.splits)
    show ?thesis
    proof (cases r)
      case (Inl e)
      with st ok rows show ?thesis by (simp add: sql_store_ops_def sql_load_def store_then_def step_ok_def)
    next
      case (Inr y)
      then have y: "y = find_row i (table_rows t)" by (rule r)
      show ?thesis
      proof (cases y)
        case None
        then have "sql_rows from_json t i = None" using y by (simp add: sql_rows_def)
        with st Inr None ok rows show ?thesis
          by (simp add: sql_store_ops_def sql_load_def store_then_def step_ok_def store_return_def)
      next
        case (Some q)
        with y find_row_id [of i "table_rows t" q] dec [of q] obtain d where d: "from_json (row_data q) = Inr d" by auto
        with y Some have "sql_rows from_json t i = Some (session_of_row q d)" by (simp add: sql_rows_def flip: y)
        with st Inr Some ok rows d show ?thesis
          by (simp add: sql_store_ops_def sql_load_def step_ok_def store_then_def store_return_def store_lift_def)
      qed
    qed
  qed
  show "?step (ops_refresh_live rows_ops x now) (ops_refresh_live (sql_store_ops to_json from_json) x now t)"
  proof -
    let ?f = "\<lambda>r. if live_row x now r then extended_row x r else r"
    have "map row_id (map ?f (table_rows t)) = map row_id (table_rows t)" by simp
    with dist have dist': "distinct (map row_id (map ?f (table_rows t)))" by (simp only:)
    have ok: "sql_ok from_json (t\<lparr> table_rows := map ?f (table_rows t), table_faults := fs \<rparr>)" for fs
      using dist' dec by (auto simp: sql_ok_def simp del: map_map)
    have "?step (rows_refresh x now) (statement (\<lambda>rows. (length (filter (live_row x now) rows) = 1, map ?f rows)) t)"
    proof (rule faults)
      fix y rows assume e: "(length (filter (live_row x now) (table_rows t)) = 1, map ?f (table_rows t)) = (y, rows)"
      have "rows_refresh x now (sql_rows from_json t) = (Inr (length (filter (live_row x now) (table_rows t)) = 1),
        sql_rows from_json (t\<lparr> table_rows := map ?f (table_rows t), table_faults := tl (table_faults t) \<rparr>))"
        by (rule sql_refresh_rows [OF dist]) (rule dec)
      with e ok show "?step (rows_refresh x now) (Inr y, t\<lparr> table_rows := rows, table_faults := tl (table_faults t) \<rparr>)"
        by (auto simp: step_ok_def)
    qed
    then show ?thesis by (simp add: sql_store_ops_def sql_refresh_live_def)
  qed
qed

subsection \<open>Interleavings\<close>

text \<open>The requests of a server interleave between the operations of the store. A refresh loads its
  session in one step and extends the row in a later one; \<open>world_pending\<close> holds the refreshes that
  have loaded and not yet finished.\<close>

record ('s, 'v) session_world =
  world_store :: 's
  world_pending :: "('v ax_session \<times> i64) list"

datatype session_event = EvCreate string | EvLoad | EvRefreshBegin | EvRefreshEnd | EvDestroy

inductive session_step :: "(bytes \<Rightarrow> bytes \<Rightarrow> bytes) \<Rightarrow> ('s, 'v) session_manager \<Rightarrow> ('s, 'v) session_world
    \<Rightarrow> session_event \<Rightarrow> ('s, 'v) session_world \<Rightarrow> bool" for mac mgr where
  create: "manager_create mac uuid mgr subject data secret now (world_store w) = (res, s)
    \<Longrightarrow> session_step mac mgr w (EvCreate uuid) (w\<lparr> world_store := s \<rparr>)"
| load: "manager_load mac mgr r secret now (world_store w) = (res, s)
    \<Longrightarrow> session_step mac mgr w EvLoad (w\<lparr> world_store := s \<rparr>)"
| refresh_begin: "manager_load mac mgr r secret now (world_store w) = (Inr (Some x), s)
    \<Longrightarrow> session_step mac mgr w EvRefreshBegin
          (w\<lparr> world_store := s, world_pending := (refreshed_session (manager_policy mgr) x now, now) # world_pending w \<rparr>)"
| refresh_end: "(x, now) \<in> set (world_pending w)
    \<Longrightarrow> refresh_finish mac mgr secret now x (world_store w) = (res, s)
    \<Longrightarrow> session_step mac mgr w EvRefreshEnd (w\<lparr> world_store := s, world_pending := remove1 (x, now) (world_pending w) \<rparr>)"
| destroy: "manager_destroy mac mgr r secret (world_store w) = (res, s)
    \<Longrightarrow> session_step mac mgr w EvDestroy (w\<lparr> world_store := s \<rparr>)"

inductive session_run :: "(bytes \<Rightarrow> bytes \<Rightarrow> bytes) \<Rightarrow> ('s, 'v) session_manager \<Rightarrow> ('s, 'v) session_world
    \<Rightarrow> session_event list \<Rightarrow> ('s, 'v) session_world \<Rightarrow> bool" for mac mgr where
  Nil: "session_run mac mgr w [] w"
| Cons: "session_step mac mgr w e w' \<Longrightarrow> session_run mac mgr w' es w'' \<Longrightarrow> session_run mac mgr w (e # es) w''"

inductive_cases session_stepE: "session_step mac mgr w e w'"

lemma spec_create_rows:
  "snd (manager_create mac uuid \<lparr> manager_store = rows_ops, manager_policy = p \<rparr> subject data secret now m)
     \<in> {m, m(uuid \<mapsto> new_session p uuid subject data now)}"
  by (auto simp: manager_create_def Let_def store_then_def store_return_def store_lift_def new_session_def split: sum.split)

lemma spec_load_rows:
  "\<exists>i. snd (manager_load mac \<lparr> manager_store = rows_ops, manager_policy = p \<rparr> r secret now m) \<in> {m, m(i := None)}"
  by (auto simp: manager_load_def store_then_def store_return_def store_lift_def split: sum.split option.split)

lemma spec_destroy_rows:
  "\<exists>i. snd (manager_destroy mac \<lparr> manager_store = rows_ops, manager_policy = p \<rparr> r secret m) \<in> {m, m(i := None)}"
  by (auto simp: manager_destroy_def clear_cookie_def store_then_def store_return_def store_lift_def split: sum.split option.split)

lemma spec_finish_rows:
  "snd (refresh_finish mac \<lparr> manager_store = rows_ops, manager_policy = p \<rparr> secret now x m) = m
   \<or> (\<exists>c. m (session_id x) = Some c \<and> session_created c = session_created x
        \<and> snd (refresh_finish mac \<lparr> manager_store = rows_ops, manager_policy = p \<rparr> secret now x m)
            = m(session_id x \<mapsto> extended c x))"
  by (auto simp: refresh_finish_def store_then_def store_return_def rows_refresh_def split: option.split)

lemma spec_load_found:
  "manager_load mac \<lparr> manager_store = rows_ops, manager_policy = p \<rparr> r secret now m = (Inr (Some x), m') \<longleftrightarrow>
     m' = m \<and> trim secret \<noteq> [] \<and> \<not> past_lifetime p x now
     \<and> (\<exists>i. signed_cookie mac r (policy_name p) secret = Some i \<and> m i = Some x)"
  by (auto simp: manager_load_def validate_secret_def store_then_def store_return_def store_lift_def
      split: sum.split option.split)

lemma implements_rows:
  "implements rows invar m a \<Longrightarrow> invar s \<Longrightarrow> invar (snd (m s)) \<and> (rows (snd (m s)) = rows s \<or> rows (snd (m s)) = snd (a (rows s)))"
  using implementsD [of rows invar m a s] by (cases "fst (m s)") fastforce+

text \<open>\<open>within p m\<close>: no session outlives its absolute lifetime.\<close>

definition outlives :: "session_policy \<Rightarrow> 'v ax_session \<Rightarrow> bool" where
  "outlives p x = (sint (saturating_add (session_created x) (policy_absolute_ttl p)) < sint (session_expires x))"

definition within :: "session_policy \<Rightarrow> 'v session_rows \<Rightarrow> bool" where
  "within p m = (\<forall>i x. m i = Some x \<longrightarrow> \<not> outlives p x)"

lemma new_session_within: "\<not> outlives p (new_session p uuid subject data now)"
  using saturating_add_mono [of "i64_min (policy_ttl p) (policy_absolute_ttl p)" "policy_absolute_ttl p" now]
  by (simp add: outlives_def new_session_def sint_min not_less)

lemma refreshed_within: "\<not> outlives p (refreshed_session p x now)"
  by (simp add: outlives_def refreshed_session_def sint_min)

lemma extended_within:
  "session_created c = session_created x \<Longrightarrow> \<not> outlives p c \<Longrightarrow> \<not> outlives p x \<Longrightarrow> \<not> outlives p (extended c x)"
  by (simp add: outlives_def extended_def sint_max)

context session_store begin

lemma finish_implements:
  "implements rows invar (refresh_finish mac (manager p) secret now x) (refresh_finish mac (spec p) secret now x)"
  unfolding refresh_finish_def by (auto simp: store_return_lift intro!: implements_then refresh_law [simplified])

lemma step_rows:
  assumes "session_step mac (manager p) w e w'" and "invar (world_store w)"
  shows "invar (world_store w') \<and> (\<forall>q \<in> set (world_pending w'). q \<in> set (world_pending w) \<or> \<not> outlives p (fst q))
    \<and> (rows (world_store w') = rows (world_store w)
      \<or> (\<exists>uuid x. e = EvCreate uuid \<and> \<not> outlives p x \<and> rows (world_store w') = (rows (world_store w))(uuid \<mapsto> x))
      \<or> (\<exists>i. rows (world_store w') = (rows (world_store w))(i := None))
      \<or> (\<exists>x now c. (x, now) \<in> set (world_pending w) \<and> rows (world_store w) (session_id x) = Some c
           \<and> session_created c = session_created x
           \<and> rows (world_store w') = (rows (world_store w))(session_id x \<mapsto> extended c x)))"
  using assms
proof (induction rule: session_step.induct)
  case (create uuid subject data secret now w res s)
  with implements_rows [OF create_implements, of "world_store w" mac uuid p subject data secret now]
    spec_create_rows [of mac uuid p subject data secret now "rows (world_store w)"] new_session_within [of p uuid subject data now]
  show ?case by (simp del: fun_upd_apply) metis
next
  case (load r secret now w res s)
  with implements_rows [OF load_implements, of "world_store w" mac p r secret now]
    spec_load_rows [of mac p r secret now "rows (world_store w)"]
  show ?case by (simp del: fun_upd_apply) metis
next
  case (refresh_begin r secret now w x s)
  with implements_rows [OF load_implements, of "world_store w" mac p r secret now]
    spec_load_rows [of mac p r secret now "rows (world_store w)"]
  show ?case by (simp del: fun_upd_apply add: refreshed_within) metis
next
  case (refresh_end x now w secret res s)
  with implements_rows [OF finish_implements, of "world_store w" mac p secret now x]
    spec_finish_rows [of mac p secret now x "rows (world_store w)"] set_remove1_subset [of "(x, now)" "world_pending w"]
  show ?case by (simp del: fun_upd_apply, intro conjI, blast, metis)
next
  case (destroy r secret w res s)
  with implements_rows [OF destroy_implements, of "world_store w" mac p r secret]
    spec_destroy_rows [of mac p r secret "rows (world_store w)"]
  show ?case by (simp del: fun_upd_apply) metis
qed

lemma run_invar: "session_run mac (manager p) w es w' \<Longrightarrow> invar (world_store w) \<Longrightarrow> invar (world_store w')"
  by (induction rule: session_run.induct) (use step_rows in blast)+

lemma absent_stays_absent:
  assumes "session_run mac (manager p) w es w'" and "invar (world_store w)"
    and "rows (world_store w) i = None" and "EvCreate i \<notin> set es"
  shows "rows (world_store w') i = None"
  using assms
proof (induction rule: session_run.induct)
  case (Cons w e w' es w'')
  from step_rows [OF Cons.hyps(1) Cons.prems(1)] Cons.prems
  have "invar (world_store w')" "rows (world_store w') i = None" by (auto split: if_splits)
  with Cons show ?case by simp
qed

lemma run_within:
  assumes "session_run mac (manager p) w es w'" and "invar (world_store w)"
    and "within p (rows (world_store w))" and "\<forall>q \<in> set (world_pending w). \<not> outlives p (fst q)"
  shows "within p (rows (world_store w'))"
  using assms
proof (induction rule: session_run.induct)
  case (Cons w e w' es w'')
  note S = step_rows [OF Cons.hyps(1) Cons.prems(1)]
  have "within p (rows (world_store w'))"
    using S Cons.prems(2,3) extended_within unfolding within_def by (fastforce split: if_splits)
  moreover have "\<forall>q \<in> set (world_pending w'). \<not> outlives p (fst q)" using S Cons.prems(3) by blast
  ultimately show ?case using Cons.IH S by blast
qed

lemma load_live:
  assumes "invar s" and "manager_load mac (manager p) r secret now s = (Inr (Some x), s')"
  shows "rows s' = rows s \<and> \<not> past_lifetime p x now
    \<and> (\<exists>i. signed_cookie mac r (policy_name p) secret = Some i \<and> rows s i = Some x)"
  using implementsD(2) [OF load_implements assms(1), of mac p r secret now "Some x"] assms(2)
  by (auto simp: spec_load_found)

end

subsection \<open>Proofs\<close>

lemma csrf_nibble_char: "n < 16 \<Longrightarrow> csrf_nibble (nibble_char n) = Some n"
proof -
  assume "n < 16"
  then have "n \<in> set [0..<16]" by simp
  moreover have "list_all (\<lambda>n. csrf_nibble (nibble_char n) = Some n) [0..<16]" by code_simp
  ultimately show ?thesis unfolding list_all_iff by blast
qed

lemma csrf_nibble_Some: "csrf_nibble c = Some n \<Longrightarrow> n < 16 \<and> nibble_char n = c"
proof -
  have d: "list_all (\<lambda>n. nibble_char n = char_of (48 + n)) [0..<10]"
    and l: "list_all (\<lambda>n. nibble_char n = char_of (87 + n)) [10..<16]" by code_simp+
  have c: "char_of (code c) = c" by (simp add: code_def)
  assume "csrf_nibble c = Some n"
  then consider "n < 10" "code c = 48 + n" | "10 \<le> n" "n < 16" "code c = 87 + n"
    by (auto simp: csrf_nibble_def split: if_splits)
  then show ?thesis
  proof cases
    case 1
    then have "n \<in> set [0..<10]" by simp
    with d have "nibble_char n = char_of (48 + n)" unfolding list_all_iff by blast
    with 1 c show ?thesis by simp
  next
    case 2
    then have "n \<in> set [10..<16]" unfolding set_upt by simp
    with l have "nibble_char n = char_of (87 + n)" unfolding list_all_iff by blast
    with 2 c show ?thesis by simp
  qed
qed

lemma csrf_signature_encode: "csrf_signature (hex_encode bs) = Some bs"
proof (induction bs)
  case (Cons c bs)
  have "code c < 256" by (rule code_less)
  then have "code c div 16 < 16" "code c mod 16 < 16" by simp_all
  then show ?case using Cons
    by (simp add: hex_encode_Cons csrf_nibble_char div_mult_mod_eq)
qed (simp add: hex_encode_def)

lemma csrf_signature_inverse: "csrf_signature h = Some bs \<Longrightarrow> even (length h) \<Longrightarrow> h = hex_encode bs"
proof (induction h arbitrary: bs rule: csrf_signature.induct)
  case (1 h l cs)
  then obtain a b rest where n: "csrf_nibble h = Some a" "csrf_nibble l = Some b" "csrf_signature cs = Some rest"
    and bs: "bs = char_of (a * 16 + b) # rest" by (auto simp: bind_eq_Some_conv)
  from n csrf_nibble_Some have a: "a < 16" "nibble_char a = h" and b: "b < 16" "nibble_char b = l" by blast+
  then have "code (char_of (a * 16 + b)) = a * 16 + b" by (simp add: code_def)
  with 1 n a b bs show ?case by (simp add: hex_encode_Cons)
qed (simp_all add: hex_encode_def)

lemma csrf_input_inject: "csrf_input i = csrf_input j \<longleftrightarrow> i = j"
proof
  have "length (be64 n) = 8" for n by (simp add: be64_def)
  then show "csrf_input i = csrf_input j \<Longrightarrow> i = j" by (simp add: csrf_input_def)
qed simp

text \<open>HMAC-SHA-256 gives 32 bytes.\<close>

definition mac32 :: "(bytes \<Rightarrow> bytes \<Rightarrow> bytes) \<Rightarrow> bool" where
  "mac32 mac = (\<forall>key message. length (mac key message) = 32)"

lemma csrf_verify_token:
  assumes "mac32 mac" and s: "\<not> length secret < 32"
  shows "csrf_verify mac i token secret = Inr (token = ''axcsrf1.'' @ hex_encode (mac secret (csrf_input i)))"
proof -
  let ?tag = "mac secret (csrf_input i)" and ?p = "''axcsrf1.''"
  have len: "length (hex_encode ?tag) = 64" using assms by (simp add: mac32_def)
  show ?thesis
  proof (cases "strip_prefix ?p token")
    case None
    then have "token \<noteq> ?p @ x" for x using strip_prefix_Some [of ?p token x] by auto
    with None s show ?thesis by (simp add: csrf_verify_def session_mac_def)
  next
    case (Some hex)
    then have t: "token = ?p @ hex" by (simp add: strip_prefix_Some)
    show ?thesis
    proof (cases "length hex = 64")
      case True
      have "hex = hex_encode tag \<longleftrightarrow> csrf_signature hex = Some tag" for tag
        using csrf_signature_inverse [of hex tag] csrf_signature_encode [of tag] True by auto
      with True Some s t show ?thesis
        by (simp add: csrf_verify_def session_mac_def split: option.split)
    next
      case False
      with len have "hex \<noteq> hex_encode ?tag" by auto
      with False Some s t show ?thesis by (simp add: csrf_verify_def session_mac_def)
    qed
  qed
qed

lemma csrf_issue_token:
  "csrf_issue mac i secret = Inr t \<longleftrightarrow> \<not> length secret < 32 \<and> t = ''axcsrf1.'' @ hex_encode (mac secret (csrf_input i))"
  by (auto simp: csrf_issue_def session_mac_def)

lemma csrf_verify_issue:
  assumes "mac32 mac"
  shows "csrf_verify mac i token secret = Inr True \<longleftrightarrow> csrf_issue mac i secret = Inr token"
proof (cases "length secret < 32")
  case True
  then show ?thesis by (simp add: csrf_verify_def session_mac_def csrf_issue_def)
next
  case False
  with csrf_verify_token [OF assms False] show ?thesis by (simp add: csrf_issue_token)
qed

text \<open>A request forgery proof is the one token issued for the session: under a secret of at least 32
  bytes every session has a token of 72 bytes, and \<open>verify\<close> accepts exactly this token; a
  shorter secret is an error for both. The authenticated bytes determine the session.\<close>

theorem csrf_verify_exact:
  assumes "mac32 mac"
  shows "(if length secret < 32
      then csrf_issue mac i secret = Inl (RtMessage ''CSRF signing secret must contain at least 32 bytes'')
        \<and> csrf_verify mac i token secret = Inl (RtMessage ''CSRF signing secret must contain at least 32 bytes'')
      else \<exists>t. csrf_issue mac i secret = Inr t \<and> length t = 72
        \<and> csrf_verify mac i token secret = Inr (token = t))
    \<and> (csrf_input i = csrf_input j \<longleftrightarrow> i = j)"
  using csrf_verify_token [OF assms, of secret i token] assms csrf_input_inject
  by (simp add: mac32_def csrf_issue_def csrf_verify_def session_mac_def)

definition demo_mac32 :: "bytes \<Rightarrow> bytes \<Rightarrow> bytes" where
  "demo_mac32 key message = replicate 32 (char_of (length key + length message))"

lemma csrf_verify_exact_witness:
  "\<exists>t. csrf_issue demo_mac32 ''u1'' (replicate 32 (CHR ''k'')) = Inr t \<and> length t = 72
     \<and> csrf_verify demo_mac32 ''u1'' t (replicate 32 (CHR ''k'')) = Inr True"
proof -
  let ?k = "replicate 32 (CHR ''k'')"
  have m: "mac32 demo_mac32" by (simp add: demo_mac32_def mac32_def)
  obtain t where t: "csrf_issue demo_mac32 ''u1'' ?k = Inr t" "length t = 72"
    using csrf_verify_exact [of demo_mac32 ?k "''u1''" "[]", OF m] by auto
  with csrf_verify_exact [of demo_mac32 ?k "''u1''" t, OF m] show ?thesis by auto
qed

subsection \<open>Properties of the manager\<close>

abbreviation memory_manager :: "session_policy \<Rightarrow> ('v memory_store, 'v) session_manager" where
  "memory_manager p \<equiv> \<lparr> manager_store = memory_store_ops, manager_policy = p \<rparr>"

abbreviation sql_manager :: "((string, 'v) bmap \<Rightarrow> rt_error + 'j) \<Rightarrow> ('j \<Rightarrow> rt_error + (string, 'v) bmap)
    \<Rightarrow> session_policy \<Rightarrow> ('j session_table, 'v) session_manager" where
  "sql_manager to_json from_json p \<equiv> \<lparr> manager_store = sql_store_ops to_json from_json, manager_policy = p \<rparr>"

abbreviation map_manager :: "session_policy \<Rightarrow> ('v session_rows, 'v) session_manager" where
  "map_manager p \<equiv> \<lparr> manager_store = rows_ops, manager_policy = p \<rparr>"

text \<open>C19. The session manager does the same over every store: on the memory store and on the SQL stores,
  whose JSON column reads back what was written, each operation implements the operation of the
  same manager on a plain map from identifiers to sessions. An operation that fails where the
  map does not leaves the sessions as they were.\<close>

theorem stores_refine_map:
  assumes "\<And>d j. to_json d = Inr j \<Longrightarrow> from_json j = Inr d"
  shows "implements mem_rows mem_ok (manager_create mac uuid (memory_manager p) subject data secret now) (manager_create mac uuid (map_manager p) subject data secret now)
   \<and> implements mem_rows mem_ok (manager_load mac (memory_manager p) r secret now) (manager_load mac (map_manager p) r secret now)
   \<and> implements mem_rows mem_ok (manager_refresh mac (memory_manager p) r secret now) (manager_refresh mac (map_manager p) r secret now)
   \<and> implements mem_rows mem_ok (manager_csrf_token mac (memory_manager p) r secret now) (manager_csrf_token mac (map_manager p) r secret now)
   \<and> implements mem_rows mem_ok (manager_verify_csrf mac (memory_manager p) r token secret now) (manager_verify_csrf mac (map_manager p) r token secret now)
   \<and> implements mem_rows mem_ok (manager_destroy mac (memory_manager p) r secret) (manager_destroy mac (map_manager p) r secret)
   \<and> implements (sql_rows from_json) (sql_ok from_json)
        (manager_create mac uuid (sql_manager to_json from_json p) subject data secret now) (manager_create mac uuid (map_manager p) subject data secret now)
   \<and> implements (sql_rows from_json) (sql_ok from_json) (manager_load mac (sql_manager to_json from_json p) r secret now) (manager_load mac (map_manager p) r secret now)
   \<and> implements (sql_rows from_json) (sql_ok from_json) (manager_refresh mac (sql_manager to_json from_json p) r secret now) (manager_refresh mac (map_manager p) r secret now)
   \<and> implements (sql_rows from_json) (sql_ok from_json) (manager_csrf_token mac (sql_manager to_json from_json p) r secret now) (manager_csrf_token mac (map_manager p) r secret now)
   \<and> implements (sql_rows from_json) (sql_ok from_json)
        (manager_verify_csrf mac (sql_manager to_json from_json p) r token secret now) (manager_verify_csrf mac (map_manager p) r token secret now)
   \<and> implements (sql_rows from_json) (sql_ok from_json) (manager_destroy mac (sql_manager to_json from_json p) r secret) (manager_destroy mac (map_manager p) r secret)"
proof -
  have sql: "session_store (sql_store_ops to_json from_json) (sql_rows from_json) (sql_ok from_json)"
    by (rule sql_session_store) (rule assms)
  show ?thesis
    by (intro conjI mem.create_implements mem.load_implements mem.refresh_implements mem.token_implements
        mem.verify_implements mem.destroy_implements session_store.create_implements [OF sql]
        session_store.load_implements [OF sql] session_store.refresh_implements [OF sql]
        session_store.token_implements [OF sql] session_store.verify_implements [OF sql]
        session_store.destroy_implements [OF sql])
qed

lemma stores_refine_map_witness:
  "implements (sql_rows Inr) (sql_ok Inr)
     (manager_load demo_mac32 (sql_manager Inr Inr default_policy :: ((string, nat) bmap session_table, nat) session_manager)
        (http_request_new ''GET'' ''/'') ''key'' 5)
     (manager_load demo_mac32 (map_manager default_policy) (http_request_new ''GET'' ''/'') ''key'' 5)"
  using stores_refine_map [of Inr Inr] by blast

lemma implements_agree:
  assumes "implements rows invar m a" and "implements rows' invar' n a" and "invar s" and "invar' t" and "rows s = rows' t"
    and "m s = (Inr x, s')" and "n t = (Inr y, t')"
  shows "x = y \<and> rows s' = rows' t'"
  using implementsD(2) [OF assms(1,3), of x] implementsD(2) [OF assms(2,4), of y] assms(5-) by simp

text \<open>The memory store and the SQL stores are interchangeable: from states that hold the same
  sessions, a load, a refresh, a creation and a destruction that succeed in both give the same
  result and states that hold the same sessions again.\<close>

theorem memory_and_sql_agree:
  assumes codec: "\<And>d j. to_json d = Inr j \<Longrightarrow> from_json j = Inr d"
    and s: "mem_ok s" and t: "sql_ok from_json t" and same: "mem_rows s = sql_rows from_json t"
  shows "(manager_create mac uuid (memory_manager p) subject data secret now s = (Inr a1, s1)
      \<and> manager_create mac uuid (sql_manager to_json from_json p) subject data secret now t = (Inr b1, t1)
      \<longrightarrow> a1 = b1 \<and> mem_rows s1 = sql_rows from_json t1)
   \<and> (manager_load mac (memory_manager p) r secret now s = (Inr a2, s2)
      \<and> manager_load mac (sql_manager to_json from_json p) r secret now t = (Inr b2, t2)
      \<longrightarrow> a2 = b2 \<and> mem_rows s2 = sql_rows from_json t2)
   \<and> (manager_refresh mac (memory_manager p) r secret now s = (Inr a3, s3)
      \<and> manager_refresh mac (sql_manager to_json from_json p) r secret now t = (Inr b3, t3)
      \<longrightarrow> a3 = b3 \<and> mem_rows s3 = sql_rows from_json t3)
   \<and> (manager_destroy mac (memory_manager p) r secret s = (Inr a4, s4)
      \<and> manager_destroy mac (sql_manager to_json from_json p) r secret t = (Inr b4, t4)
      \<longrightarrow> a4 = b4 \<and> mem_rows s4 = sql_rows from_json t4)"
proof -
  have sql: "session_store (sql_store_ops to_json from_json) (sql_rows from_json) (sql_ok from_json)"
    by (rule sql_session_store) (rule codec)
  show ?thesis
    using implements_agree [OF mem.create_implements session_store.create_implements [OF sql] s t same,
        of mac uuid p subject data secret now a1 s1 b1 t1]
      implements_agree [OF mem.load_implements session_store.load_implements [OF sql] s t same, of mac p r secret now a2 s2 b2 t2]
      implements_agree [OF mem.refresh_implements session_store.refresh_implements [OF sql] s t same, of mac p r secret now a3 s3 b3 t3]
      implements_agree [OF mem.destroy_implements session_store.destroy_implements [OF sql] s t same, of mac p r secret a4 s4 b4 t4]
    by argo
qed

lemma mem_new_ok [simp]: "mem_ok memory_store_new" "mem_rows memory_store_new = Map.empty"
  by (simp_all add: mem_ok_def mem_rows_def memory_store_new_def keyed_def bm_get_def fun_eq_iff bm_ok_def)

lemma sql_new_ok [simp]: "sql_ok from_json \<lparr> table_rows = [], table_faults = [] \<rparr>"
    "sql_rows from_json \<lparr> table_rows = [], table_faults = [] \<rparr> = Map.empty"
  by (simp_all add: sql_ok_def sql_rows_def fun_eq_iff)

lemma plain_trim: "s \<noteq> [] \<Longrightarrow> list_all (\<lambda>c. is_alphanumeric c) s \<Longrightarrow> trim s = s"
proof (rule trim_solid)
  have "\<not> space_byte c" if "is_alphanumeric c" for c
    using that by (auto simp: is_alphanumeric_def is_digit_def space_byte_def is_whitespace_def code_def)
  then show "s \<noteq> [] \<Longrightarrow> list_all is_alphanumeric s \<Longrightarrow> s = [] \<or> \<not> space_byte (hd s) \<and> \<not> space_byte (last s)"
    by (simp add: list_all_iff)
qed

lemma memory_and_sql_agree_witness:
  "\<exists>a s1 t1. manager_create demo_mac32 ''u1'' (memory_manager default_policy) ''ada'' [] ''key'' 5 (memory_store_new :: nat memory_store) = (Inr a, s1)
    \<and> manager_create demo_mac32 ''u1'' (sql_manager Inr Inr default_policy) ''ada'' [] ''key'' 5 \<lparr> table_rows = [], table_faults = [] \<rparr> = (Inr a, t1)
    \<and> mem_rows s1 = sql_rows Inr t1"
proof -
  have t: "trim ''key'' = ''key''" "trim ''ada'' = ''ada''"
    by (rule plain_trim; simp add: is_alphanumeric_def is_digit_def code_def)+
  let ?x = "new_session default_policy ''u1'' ''ada'' [] 5 :: nat ax_session"
  have m: "manager_create demo_mac32 ''u1'' (memory_manager default_policy) ''ada'' [] ''key'' 5 (memory_store_new :: nat memory_store)
      = (Inr (?x, session_cookie demo_mac32 default_policy ?x ''key'' 5), snd (mem_save ?x memory_store_new))"
    by (simp add: manager_create_def t validate_secret_def Let_def memory_simps memory_store_new_def)
  have n: "manager_create demo_mac32 ''u1'' (sql_manager Inr Inr default_policy) ''ada'' [] ''key'' 5 \<lparr> table_rows = [], table_faults = [] \<rparr>
      = (Inr (?x, session_cookie demo_mac32 default_policy ?x ''key'' 5), snd (sql_save Inr ?x \<lparr> table_rows = [], table_faults = [] \<rparr>))"
    by (simp add: manager_create_def t validate_secret_def Let_def sql_store_ops_def sql_save_def statement_def store_then_def
        store_return_def)
  show ?thesis
    using memory_and_sql_agree [of Inr Inr memory_store_new "\<lparr> table_rows = [], table_faults = [] \<rparr>", THEN conjunct1] m n by fastforce
qed

text \<open>C18. The life of a session: the cookie that comes with a new session loads exactly this session
  until it expires, and nothing afterwards, when its row is removed; after the session is
  destroyed the cookie loads nothing.\<close>

theorem session_lifecycle:
  assumes create: "manager_create mac uuid (memory_manager p) subject data secret now s = (Inr (x, c), s1)"
    and s: "mem_ok s"
    and name: "policy_name p \<noteq> []" "cookie_safe (policy_name p)" "CHR ''='' \<notin> set (policy_name p)" and uuid: "cookie_safe uuid"
    and cookie: "header_value r ''Cookie'' = Some (cookie_name c @ ''='' @ cookie_content c)"
  shows "manager_load mac (memory_manager p) r secret later s1
      = (if sint later < sint (session_expires x) then (Inr (Some x), s1)
         else (Inr None, s1\<lparr> mem_sessions := bm_remove uuid (mem_sessions s1) \<rparr>))
    \<and> (let s2 = snd (manager_destroy mac (memory_manager p) r secret s1)
       in fst (manager_load mac (memory_manager p) r secret later s2) = Inr None)"
proof -
  from create have secret: "trim secret \<noteq> []" and x: "x = new_session p uuid subject data now"
    and c: "c = session_cookie mac p x secret now" and s1: "s1 = s\<lparr> mem_sessions := bm_insert uuid x (mem_sessions s) \<rparr>"
    and live: "\<not> mem_poisoned s"
    by (auto simp: manager_create_def store_then_lift validate_secret_def Let_def store_lift_def memory_simps new_session_def
        split: if_splits)
  have "session_id x = uuid" by (simp add: x new_session_def)
  then have id: "signed_cookie mac r (policy_name p) secret = Some uuid"
    using cookie by (intro signed_cookie_complete [OF name uuid]) (simp add: c session_cookie_def policy_cookie_def cookie_new_def)
  have past: "past_lifetime p x later \<longleftrightarrow> \<not> sint later < sint (session_expires x)"
    using new_session_within [of p uuid subject data now]
    by (auto simp: past_lifetime_def is_expired_def outlives_def x [symmetric])
  have "manager_load mac (memory_manager p) r secret later s1
      = (if sint later < sint (session_expires x) then (Inr (Some x), s1)
         else (Inr None, s1\<lparr> mem_sessions := bm_remove uuid (mem_sessions s1) \<rparr>))"
    using secret id past live by (simp add: manager_load_def validate_secret_def memory_simps s1)
  moreover have "fst (manager_load mac (memory_manager p) r secret later (snd (manager_destroy mac (memory_manager p) r secret s1))) = Inr None"
    using secret id live
    by (cases "clear_cookie p") (simp_all add: manager_load_def manager_destroy_def validate_secret_def memory_simps s1 store_lift_def bm_get_remove)
  ultimately show ?thesis by (simp add: Let_def)
qed

definition demo_session :: "nat ax_session" where
  "demo_session = new_session default_policy ''u1'' ''ada'' [] 5"

definition demo_store :: "nat memory_store" where
  "demo_store = \<lparr> mem_sessions = [(''u1'', demo_session)], mem_poisoned = False \<rparr>"

definition demo_session_request :: http_request where
  "demo_session_request = req_with_header ''Cookie'' (''session='' @ sign_session demo_mac32 ''u1'' ''key'') (http_request_new ''POST'' ''/'')"

lemma demo_trim [simp]: "trim ''key'' = ''key''" "trim ''ada'' = ''ada''"
  by (rule plain_trim; simp add: is_alphanumeric_def is_digit_def code_def)+

lemma demo_cookie_safe [simp]: "cookie_safe ''session''" "cookie_safe ''u1''"
  by (simp_all add: cookie_safe_def is_ascii_def code_def is_whitespace_def)

lemma demo_header: "header_value demo_session_request ''Cookie'' = Some (''session='' @ sign_session demo_mac32 ''u1'' ''key'')"
  by (simp add: demo_session_request_def header_value_def find_header_def req_with_header_def http_request_new_def)

lemma demo_cookie [simp]: "signed_cookie demo_mac32 demo_session_request ''session'' ''key'' = Some ''u1''"
  by (rule signed_cookie_complete) (simp_all add: demo_header)

lemma demo_store_ok [simp]: "mem_ok demo_store" "mem_rows demo_store = [''u1'' \<mapsto> demo_session]"
  by (auto simp: mem_ok_def mem_rows_def demo_store_def keyed_def bm_get_def bm_ok_def demo_session_def new_session_def fun_eq_iff)

lemma demo_policy_name [simp]: "policy_name default_policy = ''session''"
  by (simp add: default_policy_def)

lemma session_lifecycle_witness:
  "fst (manager_load demo_mac32 (memory_manager default_policy) demo_session_request ''key'' 7 demo_store) = Inr (Some demo_session)"
proof -
  let ?c = "session_cookie demo_mac32 default_policy demo_session ''key'' 5"
  have create: "manager_create demo_mac32 ''u1'' (memory_manager default_policy) ''ada'' [] ''key'' 5 (memory_store_new :: nat memory_store)
      = (Inr (demo_session, ?c), demo_store)"
    by (simp add: manager_create_def validate_secret_def Let_def memory_simps memory_store_new_def demo_session_def [symmetric]
        demo_store_def) (simp add: demo_session_def new_session_def)
  have "sint (7 :: i64) < sint (session_expires demo_session)"
    by (simp add: demo_session_def new_session_def default_policy_def default_session_ttl_def sint_times)
  with session_lifecycle [OF create, where r = demo_session_request and later = 7] demo_header
  show ?thesis by (simp add: session_cookie_def policy_cookie_def cookie_new_def demo_session_def new_session_def)
qed

text \<open>C17. A revoked session stays revoked: once its row is gone, no interleaving of loads, refreshes that
  were already under way, destructions and creations of other sessions brings it back, and the
  cookies that name it load nothing.\<close>

theorem revoked_stays_revoked:
  assumes "session_run mac (memory_manager p) w es w'" and "mem_ok (world_store w)"
    and "mem_rows (world_store w) i = None" and "EvCreate i \<notin> set es"
  shows "mem_rows (world_store w') i = None
    \<and> (signed_cookie mac r (policy_name p) secret = Some i
        \<longrightarrow> (\<nexists>x s. manager_load mac (memory_manager p) r secret now (world_store w') = (Inr (Some x), s)))"
  using mem.absent_stays_absent [OF assms] mem.load_live [OF mem.run_invar [OF assms(1,2)], of mac p r secret now] by auto

lemma revoked_stays_revoked_witness:
  "\<exists>w'. session_run demo_mac32 (memory_manager default_policy)
        \<lparr> world_store = memory_store_new, world_pending = [(demo_session, 7)] \<rparr> [EvRefreshEnd] w'
     \<and> mem_rows (world_store w') ''u1'' = None"
proof -
  let ?w = "\<lparr> world_store = memory_store_new, world_pending = [(demo_session, 7)] \<rparr>"
  obtain res s where "refresh_finish demo_mac32 (memory_manager default_policy) ''key'' 7 demo_session (world_store ?w) = (res, s)"
    by force
  from session_step.refresh_end [OF _ this]
  have "session_step demo_mac32 (memory_manager default_policy) ?w EvRefreshEnd (?w\<lparr> world_store := s, world_pending := [] \<rparr>)" by simp
  then have r: "session_run demo_mac32 (memory_manager default_policy) ?w [EvRefreshEnd] (?w\<lparr> world_store := s, world_pending := [] \<rparr>)"
    by (rule session_run.Cons [OF _ session_run.Nil])
  with revoked_stays_revoked [OF r, of "''u1''"] show ?thesis by auto
qed

text \<open>C4. No session is served past its lifetime or without its signature: whatever requests the server
  has handled since it started with an empty store, a session that a request loads has not
  expired, its expiry is within the absolute lifetime, the absolute lifetime has not passed, and
  the cookie of the request carries the authentication code of its identifier.\<close>

theorem loaded_session_is_live:
  assumes run: "session_run mac (memory_manager p) \<lparr> world_store = memory_store_new, world_pending = [] \<rparr> es w"
    and load: "manager_load mac (memory_manager p) r secret now (world_store w) = (Inr (Some x), s)"
  shows "sint now < sint (session_expires x)
    \<and> sint (session_expires x) \<le> sint (saturating_add (session_created x) (policy_absolute_ttl p))
    \<and> (\<exists>signature. cookie_value r (policy_name p) = Some (session_id x @ ''.'' @ signature)
         \<and> hex_decode signature = Some (mac secret (session_id x)))"
proof -
  have ok: "mem_ok (world_store w)" using mem.run_invar [OF run] by simp
  have "within p (mem_rows (world_store w))" using mem.run_within [OF run] by (simp add: within_def)
  with mem.load_live [OF ok load] obtain i where "\<not> past_lifetime p x now" "\<not> outlives p x"
    and c: "signed_cookie mac r (policy_name p) secret = Some i" and "mem_rows (world_store w) i = Some x"
    by (auto simp: within_def)
  moreover from this ok have "session_id x = i" by (simp add: mem_ok_def keyed_def)
  moreover from c obtain sig where "cookie_value r (policy_name p) = Some (i @ CHR ''.'' # sig)" "hex_decode sig = Some (mac secret i)"
    by (rule signed_cookie_Some)
  ultimately show ?thesis by (auto simp: past_lifetime_def is_expired_def outlives_def)
qed

lemma loaded_session_is_live_witness:
  "sint (7 :: i64) < sint (session_expires demo_session)
   \<and> sint (session_expires demo_session) \<le> sint (saturating_add (session_created demo_session) (policy_absolute_ttl default_policy))"
proof -
  have "manager_create demo_mac32 ''u1'' (memory_manager default_policy) ''ada'' [] ''key'' 5 (memory_store_new :: nat memory_store)
      = (Inr (demo_session, session_cookie demo_mac32 default_policy demo_session ''key'' 5), demo_store)"
    by (simp add: manager_create_def validate_secret_def Let_def memory_simps memory_store_new_def demo_session_def [symmetric]
        demo_store_def) (simp add: demo_session_def new_session_def)
  then have "session_step demo_mac32 (memory_manager default_policy) \<lparr> world_store = memory_store_new, world_pending = [] \<rparr> (EvCreate ''u1'')
      \<lparr> world_store = demo_store, world_pending = [] \<rparr>"
    using session_step.create [of demo_mac32 "''u1''" "memory_manager default_policy" "''ada''" "[]" "''key''" 5
        "\<lparr> world_store = memory_store_new :: nat memory_store, world_pending = [] \<rparr>"] by simp
  then have run: "session_run demo_mac32 (memory_manager default_policy) \<lparr> world_store = memory_store_new, world_pending = [] \<rparr> [EvCreate ''u1'']
      \<lparr> world_store = demo_store, world_pending = [] \<rparr>"
    by (rule session_run.Cons [OF _ session_run.Nil])
  have "\<not> past_lifetime default_policy demo_session 7"
    by (simp add: past_lifetime_def is_expired_def demo_session_def new_session_def default_policy_def default_session_ttl_def sint_times)
  then have "manager_load demo_mac32 (memory_manager default_policy) demo_session_request ''key'' 7 demo_store = (Inr (Some demo_session), demo_store)"
    by (simp add: manager_load_def validate_secret_def memory_simps demo_store_def bm_get_def)
  then have "manager_load demo_mac32 (memory_manager default_policy) demo_session_request ''key'' 7
      (world_store \<lparr> world_store = demo_store, world_pending = [] \<rparr>) = (Inr (Some demo_session), demo_store)" by simp
  from loaded_session_is_live [OF run this] show ?thesis by blast
qed

end
