(* ===== verification/Mutation_Guard.thy ===== *)
theory Mutation_Guard
  imports Http
begin

section \<open>The mutation guard\<close>

text \<open>
  \<open>axonyx-runtime/src/mutation_security.rs\<close>: which browser requests are rejected before a
  handler runs, and the canonical origins they are compared by. The reading and printing of
  IPv6 addresses, which the code takes from Rust's \<open>std::net\<close>, are written out: a reader takes
  the text that is left and returns a value with the rest.
\<close>

subsection \<open>IPv6 addresses of the standard library\<close>

definition digit_value :: "nat \<Rightarrow> char \<Rightarrow> nat option" where
  "digit_value radix c =
     (case hex_value c of Some n \<Rightarrow> if n < radix then Some n else None | None \<Rightarrow> None)"

fun digits_of :: "nat \<Rightarrow> string \<Rightarrow> nat list \<times> string" where
  "digits_of radix [] = ([], [])"
| "digits_of radix (c # cs) =
     (case digit_value radix c of
        Some d \<Rightarrow> (case digits_of radix cs of (ds, rest) \<Rightarrow> (d # ds, rest))
      | None \<Rightarrow> ([], c # cs))"

text \<open>\<open>read_number\<close>: at most \<open>max\<close> digits, at least one, below \<open>2 ^ w\<close>.\<close>

definition read_number :: "nat \<Rightarrow> nat \<Rightarrow> nat \<Rightarrow> bool \<Rightarrow> string \<Rightarrow> (nat \<times> string) option" where
  "read_number w radix most zero_prefix s =
     (case digits_of radix s of (ds, rest) \<Rightarrow>
        let n = foldl (\<lambda>n d. n * radix + d) 0 ds in
        if ds = [] \<or> most < length ds \<or> \<not> zero_prefix \<and> hd ds = 0 \<and> 1 < length ds \<or> 2 ^ w \<le> n
        then None else Some (n, rest))"

definition read_char :: "char \<Rightarrow> string \<Rightarrow> string option" where
  "read_char c s = (case s of d # rest \<Rightarrow> if d = c then Some rest else None | [] \<Rightarrow> None)"

definition read_separator :: "char \<Rightarrow> nat \<Rightarrow> string \<Rightarrow> string option" where
  "read_separator c i s = (if 0 < i then read_char c s else Some s)"

fun read_octets :: "nat \<Rightarrow> nat \<Rightarrow> string \<Rightarrow> (nat list \<times> string) option" where
  "read_octets i 0 s = Some ([], s)"
| "read_octets i (Suc n) s = do {
     s1 \<leftarrow> read_separator (CHR ''.'') i s;
     (octet, s2) \<leftarrow> read_number 8 10 3 False s1;
     (octets, s3) \<leftarrow> read_octets (Suc i) n s2;
     Some (octet # octets, s3) }"

definition read_embedded_ipv4 :: "nat \<Rightarrow> string \<Rightarrow> (nat list \<times> string) option" where
  "read_embedded_ipv4 i s = do {
     s1 \<leftarrow> read_separator (CHR '':'') i s;
     (os, s2) \<leftarrow> read_octets 0 4 s1;
     Some ([os ! 0 * 256 + os ! 1, os ! 2 * 256 + os ! 3], s2) }"

definition read_group :: "nat \<Rightarrow> string \<Rightarrow> (nat \<times> string) option" where
  "read_group i s = do { s1 \<leftarrow> read_separator (CHR '':'') i s; read_number 16 16 4 True s1 }"

text \<open>\<open>read_groups\<close> with \<open>n\<close> slots left of a slice, the next one at index \<open>i\<close>; the flag tells
  that the groups end in an embedded IPv4 address, which needs two slots.\<close>

fun read_groups :: "nat \<Rightarrow> nat \<Rightarrow> string \<Rightarrow> nat list \<times> bool \<times> string" where
  "read_groups i 0 s = ([], False, s)"
| "read_groups i (Suc n) s =
     (case (if 0 < n then read_embedded_ipv4 i s else None) of
        Some (gs, rest) \<Rightarrow> (gs, True, rest)
      | None \<Rightarrow>
          (case read_group i s of
             None \<Rightarrow> ([], False, s)
           | Some (g, s1) \<Rightarrow>
               (case read_groups (Suc i) n s1 of (gs, v4, rest) \<Rightarrow> (g # gs, v4, rest))))"

definition read_ipv6 :: "string \<Rightarrow> (nat list \<times> string) option" where
  "read_ipv6 s =
     (case read_groups 0 8 s of (head, v4, s1) \<Rightarrow>
        if length head = 8 then Some (head, s1)
        else if v4 then None
        else do {
          s2 \<leftarrow> read_char (CHR '':'') s1;
          s3 \<leftarrow> read_char (CHR '':'') s2;
          let (tail, _, rest) = read_groups 0 (7 - length head) s3;
          Some (head @ replicate (8 - length head - length tail) 0 @ tail, rest) })"

definition parse_ipv6 :: "string \<Rightarrow> nat list option" where
  "parse_ipv6 s = (case read_ipv6 s of Some (a, []) \<Rightarrow> Some a | _ \<Rightarrow> None)"

text \<open>The longest run of zero groups, the first of the longest: its start and its length.\<close>

fun zero_span :: "nat \<Rightarrow> nat \<times> nat \<Rightarrow> nat \<times> nat \<Rightarrow> nat list \<Rightarrow> nat \<times> nat" where
  "zero_span i current longest [] = longest"
| "zero_span i (start, len) longest (g # gs) =
     (if g = 0 then
        (let current = (if len = 0 then i else start, len + 1)
         in zero_span (Suc i) current (if snd longest < snd current then current else longest) gs)
      else zero_span (Suc i) (0, 0) longest gs)"

definition show_groups :: "nat list \<Rightarrow> string" where
  "show_groups gs = join_with '':'' (map show_hex gs)"

definition show_ipv4 :: "nat list \<Rightarrow> string" where
  "show_ipv4 os = join_with ''.'' (map show_nat os)"

definition show_ipv6 :: "nat list \<Rightarrow> string" where
  "show_ipv6 a =
     (if take 6 a = [0, 0, 0, 0, 0, 65535] then
        ''::ffff:'' @ show_ipv4 [a ! 6 div 256, a ! 6 mod 256, a ! 7 div 256, a ! 7 mod 256]
      else
        (case zero_span 0 (0, 0) (0, 0) a of (start, len) \<Rightarrow>
           if 1 < len then show_groups (take start a) @ ''::'' @ show_groups (drop (start + len) a)
           else show_groups a))"

subsection \<open>Origins\<close>

type_synonym origin = "string \<times> string \<times> nat"

definition split_once_scheme :: "string \<Rightarrow> (string \<times> string) option" where
  "split_once_scheme v = split_once_str ''://'' v"

definition authority_of :: "string \<Rightarrow> string" where
  "authority_of rest = takeWhile (\<lambda>c. c \<noteq> CHR ''/'' \<and> c \<noteq> CHR 0x3F \<and> c \<noteq> CHR 0x23) rest"

definition default_port :: "string \<Rightarrow> nat option" where
  "default_port scheme = (if scheme = ''http'' then Some 80 else if scheme = ''https'' then Some 443 else None)"

definition unsafe_origin_char :: "nat \<Rightarrow> bool" where
  "unsafe_origin_char ch = (is_whitespace ch \<or> is_control ch \<or> ch = 64 \<or> ch = 92 \<or> ch = 44)"

definition host_char :: "char \<Rightarrow> bool" where
  "host_char c = (is_alphanumeric c \<or> c = CHR ''.'' \<or> c = CHR ''-'')"

definition parse_bracket_host :: "nat \<Rightarrow> string \<Rightarrow> (string \<times> nat) option" where
  "parse_bracket_host dport ipv6 = do {
     (host, suffix) \<leftarrow> split_once (CHR '']'') ipv6;
     address \<leftarrow> parse_ipv6 host;
     port \<leftarrow> (if suffix = [] then Some dport
              else do { p \<leftarrow> strip_prefix '':'' suffix; parse_unsigned 16 p });
     Some (show_ipv6 address, port) }"

definition parse_named_host :: "nat \<Rightarrow> string \<Rightarrow> (string \<times> nat) option" where
  "parse_named_host dport authority = do {
     (host, port) \<leftarrow> (case split_once (CHR '':'') authority of
        Some (host, p) \<Rightarrow> do { port \<leftarrow> parse_unsigned 16 p; Some (host, port) }
      | None \<Rightarrow> Some (authority, dport));
     (if host = [] \<or> \<not> list_all host_char host then None else Some (to_lower host, port)) }"

definition parse_origin :: "string \<Rightarrow> origin option" where
  "parse_origin v = do {
     (raw_scheme, rest) \<leftarrow> split_once_scheme v;
     let scheme = to_lower raw_scheme;
     dport \<leftarrow> default_port scheme;
     (if list_ex unsafe_origin_char (chars v) then None
      else do {
        let authority = authority_of rest;
        (host, port) \<leftarrow> (case strip_prefix ''['' authority of
           Some ipv6 \<Rightarrow> parse_bracket_host dport ipv6
         | None \<Rightarrow> parse_named_host dport authority);
        (if port = 0 then None else Some (scheme, host, port)) }) }"

definition valid_public_origin :: "string \<Rightarrow> bool" where
  "valid_public_origin v =
     (parse_origin v \<noteq> None
      \<and> (case split_once_scheme v of
           Some (_, rest) \<Rightarrow> list_all (\<lambda>c. c \<noteq> CHR ''/'' \<and> c \<noteq> CHR 0x3F \<and> c \<noteq> CHR 0x23) rest
         | None \<Rightarrow> False))"

definition matches_host :: "string \<Rightarrow> string option \<Rightarrow> bool" where
  "matches_host origin host =
     (case host of
        None \<Rightarrow> False
      | Some h \<Rightarrow>
          (case split_once_scheme origin of
             None \<Rightarrow> False
           | Some (scheme, remainder) \<Rightarrow>
               if \<not> eq_ignore_case scheme ''https'' \<and> \<not> eq_ignore_case scheme ''http'' then False
               else
                 (let authority = authority_of remainder in
                  if authority = []
                     \<or> list_ex (\<lambda>ch. is_whitespace ch \<or> ch = 64 \<or> ch = 92 \<or> ch = 44) (chars authority)
                  then False
                  else eq_ignore_case authority h)))"

subsection \<open>The decision\<close>

definition is_safe_method :: "string \<Rightarrow> bool" where
  "is_safe_method meth = (to_upper meth \<in> {''GET'', ''HEAD'', ''OPTIONS''})"

definition request_source :: "http_request \<Rightarrow> string option" where
  "request_source r = or_else (header_value r ''Origin'') (header_value r ''Referer'')"

definition rejects_mutation_request_with_origin :: "http_request \<Rightarrow> string option \<Rightarrow> bool" where
  "rejects_mutation_request_with_origin r public_origin =
     (if is_safe_method (req_method r) then False
      else if (case public_origin of Some o' \<Rightarrow> \<not> valid_public_origin o' | None \<Rightarrow> False) then True
      else
        (let site = header_value r ''Sec-Fetch-Site'' in
         if (case site of Some v \<Rightarrow> \<not> eq_ignore_case v ''same-origin'' | None \<Rightarrow> False) then True
         else
           (case request_source r of
              Some source \<Rightarrow>
                (case public_origin of
                   Some expected \<Rightarrow>
                     (case (parse_origin source, parse_origin expected) of
                        (Some a, Some b) \<Rightarrow> a \<noteq> b
                      | _ \<Rightarrow> True)
                 | None \<Rightarrow> \<not> matches_host source (header_value r ''Host''))
            | None \<Rightarrow>
                if site \<noteq> None then public_origin \<noteq> None
                else header_value r ''Cookie'' \<noteq> None)))"

definition rejects_mutation_request :: "http_request \<Rightarrow> bool" where
  "rejects_mutation_request r = rejects_mutation_request_with_origin r None"

subsection \<open>The grammar of origins\<close>

definition delimiter :: "char \<Rightarrow> bool" where
  "delimiter c = (c = CHR ''/'' \<or> c = CHR 0x3F \<or> c = CHR 0x23)"

lemma authority_of_delimiter: "authority_of s = takeWhile (\<lambda>c. \<not> delimiter c) s"
  by (simp add: authority_of_def delimiter_def)

lemma authority_split:
  "\<exists>tail. rest = authority_of rest @ tail \<and> (tail = [] \<or> delimiter (hd tail))"
  using hd_dropWhile [of "\<lambda>c. \<not> delimiter c" rest] unfolding authority_of_delimiter
  by (intro exI [of _ "dropWhile (\<lambda>c. \<not> delimiter c) rest"]) auto

lemma authority_of_append:
  "\<not> list_ex delimiter a \<Longrightarrow> t = [] \<or> delimiter (hd t) \<Longrightarrow> authority_of (a @ t) = a"
  unfolding authority_of_delimiter by (subst takeWhile_append2) (auto simp: list_ex_iff takeWhile_eq_Nil_iff)

lemma authority_clean: "\<not> list_ex delimiter (authority_of s)"
  by (auto simp: authority_of_delimiter list_ex_iff dest: set_takeWhileD)

lemma parse_unsigned_less: "parse_unsigned w s = Some n \<Longrightarrow> n < 2 ^ w"
  by (auto simp: parse_unsigned_def Let_def split: option.splits if_splits)

lemma default_port_Some: "default_port s = Some p \<longleftrightarrow> s = ''http'' \<and> p = 80 \<or> s = ''https'' \<and> p = 443"
  by (auto simp: default_port_def)

definition port_text :: "nat \<Rightarrow> string \<Rightarrow> nat \<Rightarrow> bool" where
  "port_text dport s p = (if s = [] then p = dport else hd s = CHR '':'' \<and> parse_unsigned 16 (tl s) = Some p)"

lemma parse_named_host_Some:
  "parse_named_host d a = Some (h, p) \<longleftrightarrow>
     (\<exists>host port. a = host @ port \<and> host \<noteq> [] \<and> list_all host_char host \<and> h = to_lower host \<and> port_text d port p)"
proof
  assume pn: "parse_named_host d a = Some (h, p)"
  obtain host pt where a: "a = host @ pt" "port_text d pt p" and h: "host \<noteq> [] \<and> list_all host_char host \<and> h = to_lower host"
  proof (cases "split_once (CHR '':'') a")
    case None
    with pn that [of a "[]"] show thesis by (auto simp: parse_named_host_def port_text_def split: if_splits)
  next
    case (Some x)
    obtain b c where x: "x = (b, c)" by force
    from Some x have "a = b @ CHR '':'' # c" by (simp add: split_once_Some)
    with pn Some x that [of b "CHR '':'' # c"] show thesis
      by (auto simp: parse_named_host_def port_text_def bind_eq_Some_conv split: if_splits)
  qed
  then show "\<exists>host port. a = host @ port \<and> host \<noteq> [] \<and> list_all host_char host \<and> h = to_lower host \<and> port_text d port p"
    by blast
next
  assume "\<exists>host port. a = host @ port \<and> host \<noteq> [] \<and> list_all host_char host \<and> h = to_lower host \<and> port_text d port p"
  then obtain host port where a: "a = host @ port" and h: "host \<noteq> []" "list_all host_char host" "h = to_lower host"
    and p: "port_text d port p" by blast
  have colon: "CHR '':'' \<notin> set host"
    using h(2) by (auto simp: list_all_iff host_char_def is_alphanumeric_def is_digit_def code_def)
  show "parse_named_host d a = Some (h, p)"
  proof (cases port)
    case Nil
    with colon a p h split_once_None [of "CHR '':''" host] show ?thesis
      by (simp add: parse_named_host_def port_text_def)
  next
    case (Cons c cs)
    with p have c: "c = CHR '':''" by (simp add: port_text_def)
    have "split_once (CHR '':'') a = Some (host, cs)" unfolding split_once_Some using a Cons c colon by simp
    with p h Cons show ?thesis by (simp add: parse_named_host_def port_text_def)
  qed
qed

lemma parse_bracket_host_Some:
  "parse_bracket_host d s = Some (h, p) \<longleftrightarrow>
     (\<exists>addr port a. s = addr @ CHR '']'' # port \<and> CHR '']'' \<notin> set addr \<and> parse_ipv6 addr = Some a
        \<and> h = show_ipv6 a \<and> port_text d port p)"
proof
  assume pb: "parse_bracket_host d s = Some (h, p)"
  then obtain addr port where s: "split_once (CHR '']'') s = Some (addr, port)"
    by (cases "split_once (CHR '']'') s") (auto simp: parse_bracket_host_def)
  from pb s obtain a where a: "parse_ipv6 addr = Some a"
    by (cases "parse_ipv6 addr") (auto simp: parse_bracket_host_def)
  have "h = show_ipv6 a \<and> port_text d port p" using pb s a
    by (cases port) (auto simp: parse_bracket_host_def port_text_def bind_eq_Some_conv split: if_splits)
  with s a show "\<exists>addr port a. s = addr @ CHR '']'' # port \<and> CHR '']'' \<notin> set addr \<and> parse_ipv6 addr = Some a
        \<and> h = show_ipv6 a \<and> port_text d port p"
    unfolding split_once_Some by blast
next
  assume "\<exists>addr port a. s = addr @ CHR '']'' # port \<and> CHR '']'' \<notin> set addr \<and> parse_ipv6 addr = Some a
        \<and> h = show_ipv6 a \<and> port_text d port p"
  then obtain addr port a where t: "split_once (CHR '']'') s = Some (addr, port)" and a: "parse_ipv6 addr = Some a"
    "h = show_ipv6 a" "port_text d port p" unfolding split_once_Some by blast
  then show "parse_bracket_host d s = Some (h, p)"
    by (cases port) (simp_all add: parse_bracket_host_def port_text_def)
qed

lemma parse_origin_Some:
  assumes "parse_origin v = Some (s, h, p)"
  obtains raw authority tail dport where "v = raw @ ''://'' @ authority @ tail" "s = to_lower raw"
    "default_port s = Some dport" "tail = [] \<or> delimiter (hd tail)" "\<not> list_ex delimiter authority" "p \<noteq> 0"
    "\<not> list_ex unsafe_origin_char (chars v)"
    "case strip_prefix ''['' authority of Some ipv6 \<Rightarrow> parse_bracket_host dport ipv6 = Some (h, p)
       | None \<Rightarrow> parse_named_host dport authority = Some (h, p)"
proof -
  from assms obtain raw rest dport where v: "split_once_scheme v = Some (raw, rest)" and s: "s = to_lower raw"
    "default_port (to_lower raw) = Some dport" and u: "\<not> list_ex unsafe_origin_char (chars v)" and p: "p \<noteq> 0"
    and a: "(case strip_prefix ''['' (authority_of rest) of Some ipv6 \<Rightarrow> parse_bracket_host dport ipv6
           | None \<Rightarrow> parse_named_host dport (authority_of rest)) = Some (h, p)"
    unfolding parse_origin_def by (auto simp: bind_eq_Some_conv Let_def split: if_splits)
  from authority_split obtain tail where t: "rest = authority_of rest @ tail"
    "tail = [] \<or> delimiter (hd tail)" by blast
  from v have "v = raw @ ''://'' @ rest" unfolding split_once_scheme_def by (rule split_once_str_Some)
  then have "v = raw @ ''://'' @ authority_of rest @ tail" using t(1) by metis
  from that [OF this s(1) _ t(2) authority_clean p u] s a show thesis by (auto split: option.splits)
qed

lemma split_once_str_first:
  "CHR '':'' \<notin> set a \<Longrightarrow> split_once_str ''://'' (a @ ''://'' @ b) = Some (a, b)"
proof (induction a)
  case (Cons c a)
  then have "strip_prefix ''://'' ((c # a) @ ''://'' @ b) = None" by simp
  with Cons show ?case by simp
qed simp

definition origin_host :: "string \<Rightarrow> string \<Rightarrow> bool" where
  "origin_host host h =
     (host \<noteq> [] \<and> list_all host_char host \<and> h = to_lower host
      \<or> (\<exists>addr a. host = ''['' @ addr @ '']'' \<and> CHR '']'' \<notin> set addr \<and> parse_ipv6 addr = Some a \<and> h = show_ipv6 a))"

lemma to_lower_no_colon: "to_lower raw \<in> {''http'', ''https''} \<Longrightarrow> CHR '':'' \<notin> set raw"
proof
  assume r: "to_lower raw \<in> {''http'', ''https''}" and "CHR '':'' \<in> set raw"
  then have "lower_char (CHR '':'') \<in> set (to_lower raw)" by (auto simp: to_lower_def)
  then have "CHR '':'' \<in> set (to_lower raw)" by (simp add: lower_char_def code_def)
  with r show False by auto
qed

lemma host_and_port:
  "(case strip_prefix ''['' a of Some ipv6 \<Rightarrow> parse_bracket_host d ipv6 | None \<Rightarrow> parse_named_host d a) = Some (h, p)
   \<longleftrightarrow> (\<exists>host port. a = host @ port \<and> origin_host host h \<and> port_text d port p)"
proof (cases "strip_prefix ''['' a")
  case None
  then have na: "a \<noteq> ''['' @ x" for x using strip_prefix_Some by (metis option.distinct(1))
  have "host \<noteq> ''['' @ addr @ '']''" if "a = host @ port" for host port addr
    using na [of "addr @ '']'' @ port"] that by auto
  then have "a = host @ port \<Longrightarrow> origin_host host h \<longleftrightarrow> host \<noteq> [] \<and> list_all host_char host \<and> h = to_lower host" for host port
    unfolding origin_host_def by blast
  with None show ?thesis unfolding None option.case parse_named_host_Some by blast
next
  case (Some ipv6)
  then have a: "a = CHR ''['' # ipv6" by (simp add: strip_prefix_Some)
  have "\<not> host_char (CHR ''['')" by (simp add: host_char_def is_alphanumeric_def is_digit_def code_def)
  then have n: "host \<noteq> [] \<and> list_all host_char host \<Longrightarrow> CHR ''['' # ipv6 \<noteq> host @ port" for host port
    by (cases host) auto
  have brk: "host \<noteq> [] \<and> list_all host_char host \<Longrightarrow> a \<noteq> host @ port" for host port using n unfolding a .
  show ?thesis unfolding Some option.case parse_bracket_host_Some
  proof (intro iffI; (elim exE conjE)?)
    fix host port
    assume hp: "a = host @ port" "origin_host host h" "port_text d port p"
    with brk [of host port] obtain addr a' where "host = ''['' @ addr @ '']''" "CHR '']'' \<notin> set addr"
      "parse_ipv6 addr = Some a'" "h = show_ipv6 a'" unfolding origin_host_def by blast
    with hp a show "\<exists>addr port a'. ipv6 = addr @ CHR '']'' # port \<and> CHR '']'' \<notin> set addr \<and> parse_ipv6 addr = Some a'
        \<and> h = show_ipv6 a' \<and> port_text d port p" by (intro exI [of _ addr] exI [of _ port] exI [of _ a']) simp
  next
    fix addr port a'
    assume "ipv6 = addr @ CHR '']'' # port" "CHR '']'' \<notin> set addr" "parse_ipv6 addr = Some a'"
        "h = show_ipv6 a'" "port_text d port p"
    then show "\<exists>host port. a = host @ port \<and> origin_host host h \<and> port_text d port p"
      by (intro exI [of _ "''['' @ addr @ '']''"] exI [of _ port]) (auto simp: a origin_host_def)
  qed
qed

lemma matches_host_iff:
  "matches_host source h \<longleftrightarrow>
     (\<exists>raw authority tail host. h = Some host \<and> source = raw @ ''://'' @ authority @ tail
        \<and> to_lower raw \<in> {''http'', ''https''} \<and> (tail = [] \<or> delimiter (hd tail)) \<and> \<not> list_ex delimiter authority
        \<and> authority \<noteq> [] \<and> \<not> list_ex (\<lambda>ch. is_whitespace ch \<or> ch = 64 \<or> ch = 92 \<or> ch = 44) (chars authority)
        \<and> eq_ignore_case authority host)"
proof (cases h)
  case (Some host)
  have lower: "eq_ignore_case raw ''https'' \<or> eq_ignore_case raw ''http'' \<longleftrightarrow> to_lower raw \<in> {''http'', ''https''}" for raw
  proof -
    have "to_lower ''https'' = ''https''" "to_lower ''http'' = ''http''" by code_simp+
    then show ?thesis by (auto simp: eq_ignore_case_def)
  qed
  show ?thesis
  proof
    assume m: "matches_host source h"
    then obtain raw rest where s: "split_once_scheme source = Some (raw, rest)"
      by (auto simp: matches_host_def split: option.splits)
    then have v: "source = raw @ ''://'' @ rest" unfolding split_once_scheme_def by (rule split_once_str_Some)
    from authority_split obtain tail where t: "rest = authority_of rest @ tail" "tail = [] \<or> delimiter (hd tail)" by blast
    from m s Some lower [of raw] have "to_lower raw \<in> {''http'', ''https''}" "authority_of rest \<noteq> []"
      "\<not> list_ex (\<lambda>ch. is_whitespace ch \<or> ch = 64 \<or> ch = 92 \<or> ch = 44) (chars (authority_of rest))"
      "eq_ignore_case (authority_of rest) host"
      by (simp_all add: matches_host_def Let_def split: if_splits)
    with v t authority_clean [of rest] Some show "\<exists>raw authority tail host. h = Some host \<and> source = raw @ ''://'' @ authority @ tail
        \<and> to_lower raw \<in> {''http'', ''https''} \<and> (tail = [] \<or> delimiter (hd tail)) \<and> \<not> list_ex delimiter authority
        \<and> authority \<noteq> [] \<and> \<not> list_ex (\<lambda>ch. is_whitespace ch \<or> ch = 64 \<or> ch = 92 \<or> ch = 44) (chars authority)
        \<and> eq_ignore_case authority host"
      by (intro exI [of _ raw] exI [of _ "authority_of rest"] exI [of _ tail] exI [of _ host] conjI) simp_all
  next
    assume "\<exists>raw authority tail host. h = Some host \<and> source = raw @ ''://'' @ authority @ tail
        \<and> to_lower raw \<in> {''http'', ''https''} \<and> (tail = [] \<or> delimiter (hd tail)) \<and> \<not> list_ex delimiter authority
        \<and> authority \<noteq> [] \<and> \<not> list_ex (\<lambda>ch. is_whitespace ch \<or> ch = 64 \<or> ch = 92 \<or> ch = 44) (chars authority)
        \<and> eq_ignore_case authority host"
    then obtain raw authority tail host' where v: "h = Some host'" "source = raw @ ''://'' @ authority @ tail"
      and l: "to_lower raw \<in> {''http'', ''https''}" and t: "tail = [] \<or> delimiter (hd tail)" "\<not> list_ex delimiter authority"
      and a: "authority \<noteq> []" "\<not> list_ex (\<lambda>ch. is_whitespace ch \<or> ch = 64 \<or> ch = 92 \<or> ch = 44) (chars authority)"
        "eq_ignore_case authority host'" by blast
    have "split_once_scheme source = Some (raw, authority @ tail)"
      unfolding split_once_scheme_def v by (rule split_once_str_first) (rule to_lower_no_colon [OF l])
    with v a lower [of raw] l authority_of_append [OF t(2,1)] show "matches_host source h"
      by (simp add: matches_host_def Let_def)
  qed
qed (simp add: matches_host_def)

subsection \<open>IPv6 texts\<close>

definition stops :: "nat \<Rightarrow> string \<Rightarrow> bool" where
  "stops radix rest = (case rest of [] \<Rightarrow> True | c # _ \<Rightarrow> digit_value radix c = None)"

lemma digits_of_append:
  "list_all2 (\<lambda>c d. digit_value radix c = Some d) s ds \<Longrightarrow> stops radix rest \<Longrightarrow> digits_of radix (s @ rest) = (ds, rest)"
  by (induction s ds rule: list_all2_induct) (auto simp: stops_def split: list.splits)

lemma digits_of_suffix: "\<exists>a. s = a @ snd (digits_of radix s)"
proof (induction s)
  case (Cons c s)
  then obtain a where "s = a @ snd (digits_of radix s)" by blast
  then show ?case by (cases "digit_value radix c") (auto split: prod.splits intro: exI [of _ "c # a"])
qed simp

lemma read_number_subset: "read_number w r m z s = Some (n, rest) \<Longrightarrow> set rest \<subseteq> set s"
  using digits_of_suffix [of s r] by (auto simp: read_number_def Let_def split: prod.splits if_splits)

lemma nibble_digit: "n < 16 \<Longrightarrow> digit_value 16 (nibble_char n) = Some n"
  by (simp add: digit_value_def hex_value_nibble)

fun hex_digits :: "nat \<Rightarrow> nat list" where
  "hex_digits n = (if n < 16 then [n] else hex_digits (n div 16) @ [n mod 16])"

declare hex_digits.simps [simp del]

lemma show_hex_digits: "list_all2 (\<lambda>c d. digit_value 16 c = Some d) (show_hex n) (hex_digits n)"
proof (induction n rule: hex_digits.induct)
  case (1 n)
  then show ?case
    by (subst show_hex.simps, subst hex_digits.simps) (auto simp: nibble_digit intro!: list_all2_appendI)
qed

lemma hex_digits_value: "foldl (\<lambda>n d. n * 16 + d) 0 (hex_digits n) = n"
proof (induction n rule: hex_digits.induct)
  case (1 n)
  then show ?case by (subst hex_digits.simps) (auto simp: div_mult_mod_eq)
qed

lemma hex_digits_length: "n < 16 ^ Suc k \<Longrightarrow> length (hex_digits n) \<le> Suc k"
proof (induction k arbitrary: n)
  case 0
  then show ?case by (subst hex_digits.simps) simp
next
  case (Suc k)
  then have "n div 16 < 16 ^ Suc k" by (simp add: less_mult_imp_div_less)
  from Suc.IH [OF this] show ?case by (subst hex_digits.simps) simp
qed

lemma hex_digits_not_Nil [simp]: "hex_digits n \<noteq> []"
  by (subst hex_digits.simps) simp

lemma read_hex: "g < 65536 \<Longrightarrow> stops 16 rest \<Longrightarrow> read_number 16 16 4 True (show_hex g @ rest) = Some (g, rest)"
  using hex_digits_length [of g 3] digits_of_append [OF show_hex_digits, of rest g]
  by (simp add: read_number_def hex_digits_value)

lemma dec_digit: "n < 10 \<Longrightarrow> digit_value 10 (char_of (48 + n)) = Some n"
  by (simp add: digit_value_def hex_value_def code_char_of)

fun dec_digits :: "nat \<Rightarrow> nat list" where
  "dec_digits n = (if n < 10 then [n] else dec_digits (n div 10) @ [n mod 10])"

declare dec_digits.simps [simp del]

lemma dec_digits_not_Nil [simp]: "dec_digits n \<noteq> []"
  by (subst dec_digits.simps) simp

lemma show_nat_dec_digits: "list_all2 (\<lambda>c d. digit_value 10 c = Some d) (show_nat n) (dec_digits n)"
proof (induction n rule: dec_digits.induct)
  case (1 n)
  then show ?case
    by (subst show_nat.simps, subst dec_digits.simps) (auto simp: dec_digit intro!: list_all2_appendI)
qed

lemma dec_digits_value: "foldl (\<lambda>n d. n * 10 + d) 0 (dec_digits n) = n"
proof (induction n rule: dec_digits.induct)
  case (1 n)
  then show ?case by (subst dec_digits.simps) (auto simp: div_mult_mod_eq)
qed

lemma dec_digits_length: "n < 10 ^ Suc k \<Longrightarrow> length (dec_digits n) \<le> Suc k"
proof (induction k arbitrary: n)
  case 0
  then show ?case by (subst dec_digits.simps) simp
next
  case (Suc k)
  then have "n div 10 < 10 ^ Suc k" by (simp add: less_mult_imp_div_less)
  from Suc.IH [OF this] show ?case by (subst dec_digits.simps) simp
qed

lemma dec_digits_hd: "0 < n \<Longrightarrow> hd (dec_digits n) \<noteq> 0"
proof (induction n rule: dec_digits.induct)
  case (1 n)
  then show ?case by (subst dec_digits.simps) simp
qed

lemma read_octet: "b < 256 \<Longrightarrow> stops 10 rest \<Longrightarrow> read_number 8 10 3 False (show_nat b @ rest) = Some (b, rest)"
proof -
  assume b: "b < 256" and r: "stops 10 rest"
  have "\<not> (hd (dec_digits b) = 0 \<and> 1 < length (dec_digits b))"
    using dec_digits_hd [of b] by (cases "b = 0") (simp_all add: dec_digits.simps [of 0])
  with digits_of_append [OF show_nat_dec_digits r] dec_digits_length [of b 2] b show ?thesis
    by (simp add: read_number_def Let_def dec_digits_value)
qed

lemma digit_value_dot [simp]: "digit_value r (CHR ''.'') = None" "digit_value r (CHR '':'') = None"
  by (simp_all add: digit_value_def hex_value_def code_def)

lemma stops_simps [simp]: "stops r []" "stops r (c # s) \<longleftrightarrow> digit_value r c = None"
  by (simp_all add: stops_def)

lemma read_octets_dotless: "CHR ''.'' \<notin> set s \<Longrightarrow> read_octets 0 4 s = None"
proof -
  assume s: "CHR ''.'' \<notin> set s"
  have "read_number 8 10 3 False s = Some (b, rest) \<Longrightarrow> read_separator (CHR ''.'') (Suc 0) rest = None" for b rest
    using read_number_subset [of 8 10 3 False s b rest] s
    by (cases rest) (auto simp: read_separator_def read_char_def)
  moreover have four: "(4::nat) = Suc (Suc 2)" by simp
  ultimately show ?thesis unfolding four read_octets.simps(2)
    by (cases "read_number 8 10 3 False s") (auto simp: read_separator_def)
qed

lemma embedded_dotless: "CHR ''.'' \<notin> set s \<Longrightarrow> read_embedded_ipv4 i s = None"
  using read_octets_dotless
  by (auto simp: read_embedded_ipv4_def read_separator_def read_char_def bind_eq_None_conv split: list.splits)

fun groups_text :: "nat \<Rightarrow> nat list \<Rightarrow> string" where
  "groups_text i [] = []"
| "groups_text i (g # gs) = (if 0 < i then '':'' else []) @ show_hex g @ groups_text (Suc i) gs"

lemma show_groups_text: "show_groups gs = groups_text 0 gs"
proof -
  have "groups_text (Suc i) gs = concat (map (\<lambda>g. CHR '':'' # show_hex g) gs)" for i gs
    by (induction gs arbitrary: i) auto
  moreover have "join_with '':'' (map show_hex (g # gs)) = show_hex g @ concat (map (\<lambda>g. CHR '':'' # show_hex g) gs)" for g gs
    by (induction gs arbitrary: g) auto
  ultimately show ?thesis by (cases gs) (simp_all add: show_groups_def)
qed

lemma show_hex_dotless: "CHR ''.'' \<notin> set (show_hex n)"
  using show_hex_alphanumeric [of "CHR ''.''" n] by (auto simp: is_alphanumeric_def is_digit_def code_def)

lemma groups_text_dotless: "CHR ''.'' \<notin> set (groups_text i gs)"
  by (induction gs arbitrary: i) (auto simp: show_hex_dotless)

definition ends_groups :: "string \<Rightarrow> bool" where
  "ends_groups rest = (rest = [] \<or> (\<exists>t. rest = CHR '':'' # CHR '':'' # t))"

lemma read_group_end: "ends_groups rest \<Longrightarrow> read_group i rest = None"
  by (auto simp: ends_groups_def read_group_def read_separator_def read_char_def read_number_def)

lemma read_groups_text:
  "\<lbrakk> length gs \<le> n; \<forall>g \<in> set gs. g < 65536; ends_groups rest; CHR ''.'' \<notin> set rest \<rbrakk>
   \<Longrightarrow> read_groups i n (groups_text i gs @ rest) = (gs, False, rest)"
proof (induction gs arbitrary: i n)
  case Nil
  then show ?case by (cases n) (simp_all add: embedded_dotless read_group_end)
next
  case (Cons g gs)
  then obtain m where m: "n = Suc m" "length gs \<le> m" by (cases n) auto
  let ?t = "groups_text i (g # gs) @ rest"
  have dot: "CHR ''.'' \<notin> set ?t" using groups_text_dotless [of i "g # gs"] Cons.prems(4) by (simp only: set_append Un_iff simp_thms)
  have st: "stops 16 (groups_text (Suc i) gs @ rest)"
    using Cons.prems(3) by (cases gs) (auto simp: ends_groups_def)
  have rg: "read_group i ?t = Some (g, groups_text (Suc i) gs @ rest)"
    using read_hex [OF _ st, of g] Cons.prems(2)
    by (cases i) (simp_all add: read_group_def read_separator_def read_char_def)
  from Cons.IH [OF m(2) _ Cons.prems(3,4), of "Suc i"] Cons.prems(2)
  have "read_groups (Suc i) m (groups_text (Suc i) gs @ rest) = (gs, False, rest)" by simp
  then show ?case unfolding m(1) read_groups.simps embedded_dotless [OF dot] rg by simp
qed

definition zeros :: "nat list \<Rightarrow> nat \<Rightarrow> nat \<Rightarrow> bool" where
  "zeros a start len = (start + len \<le> length a \<and> (\<forall>j < len. a ! (start + j) = 0))"

lemma zero_span_zeros:
  "\<lbrakk> a = pre @ gs; zeros a (fst longest) (snd longest); zeros a (fst current) (snd current);
     snd current \<noteq> 0 \<longrightarrow> fst current + snd current = length pre;
     zero_span (length pre) current longest gs = (start, len) \<rbrakk> \<Longrightarrow> zeros a start len"
proof (induction "length pre" current longest gs arbitrary: pre rule: zero_span.induct)
  case (2 st ln longest g gs)
  obtain S L where l: "longest = (S, L)" by force
  have a: "a = (pre @ [g]) @ gs" and len: "Suc (length pre) = length (pre @ [g])" using 2 by auto
  show ?case
  proof (cases "g = 0")
    case True
    let ?c = "(if ln = 0 then length pre else st, ln + 1)"
    have en: "fst ?c + ln = length pre" using 2(6) by (auto split: if_splits)
    have c: "zeros a (fst ?c) (snd ?c)"
      using 2(5) en True a by (auto simp: zeros_def nth_append less_Suc_eq split: if_splits)
    show ?thesis
      by (rule 2(1) [OF True refl len a]) (use 2 True c en l in \<open>auto simp: Let_def split: if_splits\<close>)
  next
    case False
    show ?thesis
      by (rule 2(2) [OF False len a]) (use 2 False in \<open>auto simp: zeros_def\<close>)
  qed
qed simp

lemma zeros_split:
  "zeros a s l \<Longrightarrow> a = take s a @ replicate l 0 @ drop (s + l) a"
proof -
  assume z: "zeros a s l"
  then have "take l (drop s a) = replicate l 0"
    by (intro nth_equalityI) (auto simp: zeros_def)
  then show ?thesis by (metis append_take_drop_id drop_drop add.commute)
qed

lemma read_groups_all:
  "length gs \<le> n \<Longrightarrow> \<forall>g \<in> set gs. g < 65536 \<Longrightarrow> ends_groups rest \<Longrightarrow> CHR ''.'' \<notin> set rest \<Longrightarrow>
   read_groups 0 n (show_groups gs @ rest) = (gs, False, rest)"
  by (simp add: show_groups_text read_groups_text)

lemma show_groups_dotless: "CHR ''.'' \<notin> set (show_groups gs)"
  by (simp add: show_groups_text groups_text_dotless)

lemma read_octets_four:
  assumes "list_all (\<lambda>b. b < 256) [a, b, c, d]"
  shows "read_octets 0 4 (show_ipv4 [a, b, c, d]) = Some ([a, b, c, d], [])"
proof -
  have four: "(4::nat) = Suc (Suc (Suc (Suc 0)))" by simp
  show ?thesis using assms read_octet [of d "[]"]
    unfolding four read_octets.simps show_ipv4_def
    by (simp add: read_separator_def read_char_def read_octet)
qed

lemma mapped_groups:
  assumes "x < 65536" "y < 65536"
  shows "read_groups 0 7 (''ffff:'' @ show_ipv4 [x div 256, x mod 256, y div 256, y mod 256]) = ([65535, x, y], True, [])"
proof -
  let ?v = "show_ipv4 [x div 256, x mod 256, y div 256, y mod 256]"
  have f: "show_hex 65535 = ''ffff''" by (simp add: show_hex.simps nibble_char_def)
  have "read_group 0 (show_hex 65535 @ CHR '':'' # ?v) = Some (65535, CHR '':'' # ?v)"
    by (simp add: read_group_def read_separator_def read_hex del: append_Cons)
  then have g: "read_group 0 (''ffff:'' @ ?v) = Some (65535, CHR '':'' # ?v)" by (simp add: f)
  have e: "read_embedded_ipv4 0 (''ffff:'' @ ?v) = None"
  proof -
    have "read_number 8 10 3 False (''ffff:'' @ ?v) = None"
      by (simp add: read_number_def digit_value_def hex_value_def code_def)
    moreover have four: "(4::nat) = Suc 3" by simp
    ultimately show ?thesis unfolding read_embedded_ipv4_def four read_octets.simps
      by (simp add: read_separator_def)
  qed
  have "read_octets 0 4 ?v = Some ([x div 256, x mod 256, y div 256, y mod 256], [])"
    by (rule read_octets_four) (use assms in \<open>simp add: less_mult_imp_div_less\<close>)
  then have v: "read_embedded_ipv4 1 (CHR '':'' # ?v) = Some ([x, y], [])"
    by (simp add: read_embedded_ipv4_def read_separator_def read_char_def div_mult_mod_eq)
  have seven: "(7::nat) = Suc (Suc 5)" by simp
  show ?thesis unfolding seven read_groups.simps(2) e g using v by simp
qed

lemma read_ipv6_front: "read_groups 0 8 (CHR '':'' # CHR '':'' # s) = ([], False, CHR '':'' # CHR '':'' # s)"
proof -
  have n: "read_number w r m z (CHR '':'' # t) = None" for w r m z t by (simp add: read_number_def)
  have e: "read_embedded_ipv4 0 (CHR '':'' # t) = None" for t
  proof -
    have four: "(4::nat) = Suc 3" by simp
    show ?thesis unfolding read_embedded_ipv4_def four read_octets.simps by (simp add: read_separator_def n)
  qed
  have g: "read_group 0 (CHR '':'' # t) = None" for t by (simp add: read_group_def read_separator_def n)
  have eight: "(8::nat) = Suc 7" by simp
  show ?thesis unfolding eight read_groups.simps(2) e g by simp
qed

subsection \<open>The claims\<close>

text \<open>C11. With a configured public origin, an unsafe request passes exactly if the configuration is a
  bare origin, the fetch metadata is absent or \<open>same-origin\<close>, and the origin it names (in Origin,
  else in Referer) is canonically the configured one; a request that names none passes only
  without fetch metadata and without cookies. The Host header plays no part.\<close>

theorem guard_configured:
  "\<not> rejects_mutation_request_with_origin r (Some expected) \<longleftrightarrow>
     is_safe_method (req_method r)
     \<or> valid_public_origin expected
       \<and> (case header_value r ''Sec-Fetch-Site'' of Some site \<Rightarrow> eq_ignore_case site ''same-origin'' | None \<Rightarrow> True)
       \<and> (case request_source r of
            Some source \<Rightarrow> parse_origin source = parse_origin expected
          | None \<Rightarrow> header_value r ''Sec-Fetch-Site'' = None \<and> header_value r ''Cookie'' = None)"
proof (cases "is_safe_method (req_method r) \<or> \<not> valid_public_origin expected")
  case True
  then show ?thesis by (auto simp: rejects_mutation_request_with_origin_def)
next
  case False
  then obtain e where "parse_origin expected = Some e" by (auto simp: valid_public_origin_def)
  with False show ?thesis
    unfolding rejects_mutation_request_with_origin_def Let_def
    by (cases "header_value r ''Sec-Fetch-Site''"; cases "request_source r") (auto split: option.splits)
qed

text \<open>Without a configured origin, an unsafe request that names a source passes exactly if the
  source is an http or https URL whose authority is the Host header up to case and has no
  user information, comma, backslash or white space.\<close>

theorem guard_by_host:
  "\<not> rejects_mutation_request r \<longleftrightarrow>
     is_safe_method (req_method r)
     \<or> (case header_value r ''Sec-Fetch-Site'' of Some site \<Rightarrow> eq_ignore_case site ''same-origin'' | None \<Rightarrow> True)
       \<and> (case request_source r of
            Some source \<Rightarrow> \<exists>raw authority tail host. header_value r ''Host'' = Some host
              \<and> source = raw @ ''://'' @ authority @ tail
              \<and> to_lower raw \<in> {''http'', ''https''} \<and> (tail = [] \<or> delimiter (hd tail)) \<and> \<not> list_ex delimiter authority
              \<and> authority \<noteq> [] \<and> \<not> list_ex (\<lambda>ch. is_whitespace ch \<or> ch = 64 \<or> ch = 92 \<or> ch = 44) (chars authority)
              \<and> eq_ignore_case authority host
          | None \<Rightarrow> if header_value r ''Sec-Fetch-Site'' = None then header_value r ''Cookie'' = None else True)"
  unfolding rejects_mutation_request_def rejects_mutation_request_with_origin_def Let_def matches_host_iff [symmetric]
  by (cases "header_value r ''Sec-Fetch-Site''"; cases "request_source r") auto

text \<open>What \<open>parse_origin\<close> accepts: a scheme http or https in any case, a host of letters, digits,
  dots and dashes or an IPv6 address in brackets, an optional port, then nothing or a path, query
  or fragment; the canonical origin has the scheme and the host in lower case, the address in its
  canonical text, and the port of the scheme where none is given.\<close>

theorem origin_grammar:
  "parse_origin v = Some (s, h, p) \<longleftrightarrow>
     p \<noteq> 0 \<and> \<not> list_ex unsafe_origin_char (chars v) \<and>
     (\<exists>raw host port tail dport. v = raw @ ''://'' @ host @ port @ tail \<and> s = to_lower raw
        \<and> default_port s = Some dport \<and> origin_host host h \<and> port_text dport port p
        \<and> \<not> list_ex delimiter (host @ port) \<and> (tail = [] \<or> delimiter (hd tail)))"
  (is "?L = ?R")
proof
  assume ?L
  then obtain raw authority tail dport where v: "v = raw @ ''://'' @ authority @ tail" "s = to_lower raw"
    "default_port s = Some dport" "tail = [] \<or> delimiter (hd tail)" "\<not> list_ex delimiter authority" "p \<noteq> 0"
    "\<not> list_ex unsafe_origin_char (chars v)"
    and a: "case strip_prefix ''['' authority of Some ipv6 \<Rightarrow> parse_bracket_host dport ipv6 = Some (h, p)
       | None \<Rightarrow> parse_named_host dport authority = Some (h, p)"
    by (rule parse_origin_Some)
  from a host_and_port [of dport authority] obtain host port where "authority = host @ port" "origin_host host h"
    "port_text dport port p" by (auto split: option.splits)
  with v show ?R by (simp only: append.assoc) blast
next
  assume R: ?R
  then obtain raw host port tail dport where v: "v = raw @ ''://'' @ host @ port @ tail" and s: "s = to_lower raw"
    and d: "default_port s = Some dport" and h: "origin_host host h" "port_text dport port p"
    and c: "\<not> list_ex delimiter (host @ port)" "tail = [] \<or> delimiter (hd tail)"
    and p: "p \<noteq> 0" "\<not> list_ex unsafe_origin_char (chars v)" by blast
  have "CHR '':'' \<notin> set raw" by (rule to_lower_no_colon) (use d s in \<open>auto simp: default_port_Some\<close>)
  then have sp: "split_once_scheme v = Some (raw, host @ port @ tail)"
    unfolding split_once_scheme_def v by (rule split_once_str_first)
  from authority_of_append [OF c] have au: "authority_of (host @ port @ tail) = host @ port" by simp
  have hp: "(case strip_prefix ''['' (host @ port) of Some ipv6 \<Rightarrow> parse_bracket_host dport ipv6
      | None \<Rightarrow> parse_named_host dport (host @ port)) = Some (h, p)"
    unfolding host_and_port using h by blast
  show ?L unfolding parse_origin_def sp using d s p hp [folded au] by (simp add: Let_def)
qed

text \<open>Printing an IPv6 address in its canonical text and reading it gives the address back, so
  two bracketed hosts have the same canonical text only if they are the same address.\<close>

theorem ipv6_canonical:
  assumes "length a = 8" and "\<forall>g \<in> set a. g < 65536"
  shows "parse_ipv6 (show_ipv6 a) = Some a"
proof (cases "take 6 a = [0, 0, 0, 0, 0, 65535]")
  case True
  have a: "a = [0, 0, 0, 0, 0, 65535, a ! 6, a ! 7]"
  proof -
    from assms(1) obtain b c d e f g x y where "a = [b, c, d, e, f, g, x, y]"
      by (auto simp: numeral_eq_Suc length_Suc_conv)
    with True show ?thesis by simp
  qed
  from assms have "a ! 6 < 65536" "a ! 7 < 65536" by auto
  note m = mapped_groups [OF this]
  let ?v = "show_ipv4 [a ! 6 div 256, a ! 6 mod 256, a ! 7 div 256, a ! 7 mod 256]"
  have sh: "show_ipv6 a = CHR '':'' # CHR '':'' # ''ffff:'' @ ?v" using True by (simp add: show_ipv6_def)
  have r: "replicate 5 (0::nat) = [0, 0, 0, 0, 0]" by (simp add: numeral_eq_Suc)
  have "read_ipv6 (show_ipv6 a) = Some ([0, 0, 0, 0, 0, 65535, a ! 6, a ! 7], [])"
    unfolding sh read_ipv6_def read_ipv6_front by (simp add: read_char_def m [simplified] r)
  then show ?thesis unfolding parse_ipv6_def a [symmetric] by simp
next
  case False
  obtain st ln where z: "zero_span 0 (0, 0) (0, 0) a = (st, ln)" by force
  then have zs: "zeros a st ln"
    using zero_span_zeros [of a "[]" a "(0, 0)" "(0, 0)" st ln] by (simp add: zeros_def)
  have small: "\<forall>g \<in> set (take st a). g < 65536" "\<forall>g \<in> set (drop (st + ln) a). g < 65536"
    using assms(2) by (auto dest: in_set_takeD in_set_dropD)
  show ?thesis
  proof (cases "1 < ln")
    case True
    let ?t = "drop (st + ln) a"
    from zs True assms(1) have le: "st + ln \<le> 8" "st < 8" by (auto simp: zeros_def)
    have h: "read_groups 0 8 (show_groups (take st a) @ ''::'' @ show_groups ?t)
        = (take st a, False, ''::'' @ show_groups ?t)"
      by (rule read_groups_all) (use small show_groups_dotless in \<open>auto simp: ends_groups_def assms\<close>)
    have t: "read_groups 0 (7 - st) (show_groups ?t @ []) = (?t, False, [])"
      by (rule read_groups_all) (use small True le in \<open>auto simp: ends_groups_def assms\<close>)
    have "take st a @ replicate ln 0 @ ?t = a" using zeros_split [OF zs] by simp
    moreover have "8 - st - (8 - (st + ln)) = ln" using le by simp
    ultimately show ?thesis using h t le True False z assms(1)
      by (simp add: show_ipv6_def parse_ipv6_def read_ipv6_def read_char_def)
  next
    case False
    have "read_groups 0 8 (show_groups a @ []) = (a, False, [])"
      by (rule read_groups_all) (use assms in \<open>auto simp: ends_groups_def\<close>)
    with False \<open>take 6 a \<noteq> _\<close> z assms(1) show ?thesis
      by (simp add: show_ipv6_def parse_ipv6_def read_ipv6_def)
  qed
qed

lemma ipv6_canonical_witness: "parse_ipv6 (show_ipv6 [0, 0, 0, 0, 0, 0, 0, 1]) = Some [0, 0, 0, 0, 0, 0, 0, 1]"
  by (rule ipv6_canonical) simp_all

end
