(* ===== verification/Csrf_Http.thy ===== *)
theory Csrf_Http
  imports Session_Correct Mutation_Guard
begin

section \<open>Request forgery protection over HTTP\<close>

text \<open>
  \<open>axonyx-runtime/src/csrf_http.rs\<close>. A backend runtime is its environment and its session
  loader; \<open>database_runtime\<close> is the one of \<open>backend.rs\<close>, over a session manager. Arguments are
  the keyed hash, the recogniser \<open>is_uuid\<close> and the source of UUIDs, the clock, the reader of a
  string field of a JSON body and the serialiser of the token response.
\<close>

definition csrf_header :: string where
  "csrf_header = ''X-Axonyx-CSRF''"

definition csrf_field :: string where
  "csrf_field = ''__ax_csrf''"

definition form_marker :: string where
  "form_marker = ''<!--axonyx:csrf-field-->''"

definition anonymous_ttl :: nat where
  "anonymous_ttl = 1800"

record ('s, 'v) backend_runtime =
  runtime_env :: ax_env
  runtime_load_session :: "http_request \<Rightarrow> ('s, 'v ax_session option) store_op"

definition database_runtime :: "(bytes \<Rightarrow> bytes \<Rightarrow> bytes) \<Rightarrow> ('s, 'v) session_manager \<Rightarrow> ax_env \<Rightarrow> i64 \<Rightarrow> ('s, 'v) backend_runtime" where
  "database_runtime mac mgr env now =
     \<lparr> runtime_env = env,
       runtime_load_session = (\<lambda>r. store_then (store_lift (ax_env_secret env ''session_key''))
         (\<lambda>secret. manager_load mac mgr r secret now)) \<rparr>"

definition local_host :: "string \<Rightarrow> bool" where
  "local_host host =
     (host = ''localhost'' \<or> starts_with ''localhost:'' host \<or> host = ''127.0.0.1'' \<or> starts_with ''127.0.0.1:'' host
      \<or> host = ''[::1]'' \<or> starts_with ''[::1]:'' host)"

definition local_request :: "http_request \<Rightarrow> bool" where
  "local_request r = (case header_value r ''Host'' of Some host \<Rightarrow> local_host host | None \<Rightarrow> False)"

definition anonymous_name :: "http_request \<Rightarrow> string" where
  "anonymous_name r = (if local_request r then ''axonyx_csrf'' else ''__Host-axonyx-csrf'')"

text \<open>The parts of an anonymous cookie: its identity, its time stamp, its nonce and its signature.\<close>

definition anonymous_parts :: "string \<Rightarrow> (string \<times> nat \<times> string \<times> string) option" where
  "anonymous_parts cookie = do {
     (identity, signature) \<leftarrow> split_once_str ''.axcsrf1.'' cookie;
     rest \<leftarrow> strip_prefix ''anonymous:'' identity;
     (timestamp, nonce) \<leftarrow> split_once (CHR '':'') rest;
     issued \<leftarrow> parse_unsigned 64 timestamp;
     Some (identity, issued, nonce, signature) }"

definition anonymous_identity :: "(bytes \<Rightarrow> bytes \<Rightarrow> bytes) \<Rightarrow> (string \<Rightarrow> bool) \<Rightarrow> http_request \<Rightarrow> string \<Rightarrow> nat
    \<Rightarrow> rt_error + string option" where
  "anonymous_identity mac is_uuid r secret time =
     (case do { cookie \<leftarrow> cookie_value r (anonymous_name r); anonymous_parts cookie } of
        None \<Rightarrow> Inr None
      | Some (identity, issued, nonce, signature) \<Rightarrow>
          if time < issued \<or> anonymous_ttl \<le> time - issued \<or> \<not> is_uuid nonce then Inr None
          else and_then (csrf_verify mac identity (''axcsrf1.'' @ signature) secret) (\<lambda>ok.
            Inr (if ok then Some identity else None)))"

definition anonymous_cookie :: "http_request \<Rightarrow> string \<Rightarrow> string \<Rightarrow> ax_cookie" where
  "anonymous_cookie r identity token =
     (cookie_new (anonymous_name r) (identity @ ''.'' @ token))
       \<lparr> cookie_path := Some ''/'', cookie_http_only := True, cookie_same_site := Some ''Strict'',
         cookie_max_age := Some (int anonymous_ttl), cookie_secure := \<not> local_request r \<rparr>"

definition delivery :: "(bytes \<Rightarrow> bytes \<Rightarrow> bytes) \<Rightarrow> (string \<Rightarrow> bool) \<Rightarrow> string \<Rightarrow> rt_error + nat \<Rightarrow> ('s, 'v) backend_runtime
    \<Rightarrow> http_request \<Rightarrow> ('s, string \<times> ax_cookie option) store_op" where
  "delivery mac is_uuid uuid clock rt r =
     store_then (store_lift (ax_env_secret (runtime_env rt) ''session_key'')) (\<lambda>secret.
     store_then (runtime_load_session rt r) (\<lambda>session.
       case session of
         Some x \<Rightarrow> store_lift (and_then (csrf_issue mac (session_id x) secret) (\<lambda>t. Inr (t, None)))
       | None \<Rightarrow> store_lift (
           and_then clock (\<lambda>time.
           and_then (anonymous_identity mac is_uuid r secret time) (\<lambda>known.
             case known of
               Some identity \<Rightarrow> and_then (csrf_issue mac identity secret) (\<lambda>t. Inr (t, None))
             | None \<Rightarrow>
                 let identity = ''anonymous:'' @ show_nat time @ '':'' @ uuid in
                 and_then (csrf_issue mac identity secret) (\<lambda>t.
                   Inr (t, Some (anonymous_cookie r identity t))))))))"

definition hidden_field :: "string \<Rightarrow> string" where
  "hidden_field token =
     ''<input type='' @ CHR 0x22 # ''hidden'' @ CHR 0x22 # '' name='' @ CHR 0x22 # csrf_field @ CHR 0x22 # '' value=''
     @ CHR 0x22 # token @ CHR 0x22 # ''>''"

definition protect_form_response :: "(bytes \<Rightarrow> bytes \<Rightarrow> bytes) \<Rightarrow> (string \<Rightarrow> bool) \<Rightarrow> string \<Rightarrow> rt_error + nat
    \<Rightarrow> ('s, 'v) backend_runtime \<Rightarrow> http_request \<Rightarrow> http_response \<Rightarrow> ('s, http_response) store_op" where
  "protect_form_response mac is_uuid uuid clock rt r response =
     (let html = body_into_bytes (res_body response) in
      if \<not> (req_method r = ''GET'' \<or> req_method r = ''POST'' \<and> res_status response = 422)
         \<or> \<not> starts_with ''text/html'' (res_content_type response)
         \<or> \<not> utf8_ok html \<or> \<not> contains_str form_marker html
      then store_return response
      else
        store_then (delivery mac is_uuid uuid clock rt r) (\<lambda>(token, cookie).
          let marked = response
                \<lparr> res_body := BodyFixed (replace_str form_marker (hidden_field token) html),
                  res_headers := filter (\<lambda>(name, _).
                    to_lower name \<notin> {''etag'', ''content-length'', ''last-modified''}) (res_headers response) \<rparr>;
              guarded = with_header ''Vary'' ''Cookie'' (with_no_store marked)
          in store_return (case cookie of Some c \<Rightarrow> with_cookie c guarded | None \<Rightarrow> guarded)))"

definition rejects_token_source :: "http_request \<Rightarrow> string option \<Rightarrow> bool" where
  "rejects_token_source r public_origin =
     (if header_value r ''Origin'' = None \<and> header_value r ''Referer'' = None
         \<and> (case header_value r ''Sec-Fetch-Site'' of Some site \<Rightarrow> eq_ignore_case site ''same-origin'' | None \<Rightarrow> False)
      then False
      else rejects_mutation_request_with_origin (r\<lparr> req_method := ''POST'' \<rparr>) public_origin)"

definition token_response :: "(string \<Rightarrow> bytes option) \<Rightarrow> (bytes \<Rightarrow> bytes \<Rightarrow> bytes) \<Rightarrow> (string \<Rightarrow> bool) \<Rightarrow> string \<Rightarrow> rt_error + nat
    \<Rightarrow> ('s, 'v) backend_runtime \<Rightarrow> http_request \<Rightarrow> ('s, http_response) store_op" where
  "token_response json mac is_uuid uuid clock rt r =
     store_then (delivery mac is_uuid uuid clock rt r) (\<lambda>(token, cookie).
       case json token of
         None \<Rightarrow> store_lift (Inl (RtMessage ''CSRF response could not be generated''))
       | Some body \<Rightarrow>
           let guarded = with_header ''Vary'' ''Cookie'' (with_no_store (response_json 200 body))
           in store_return (case cookie of Some c \<Rightarrow> with_cookie c guarded | None \<Rightarrow> guarded))"

definition csrf_proof :: "(http_request \<Rightarrow> string \<Rightarrow> string option) \<Rightarrow> http_request \<Rightarrow> string option" where
  "csrf_proof json_string r =
     (case header_value r csrf_header of
        Some v \<Rightarrow> Some v
      | None \<Rightarrow>
          if (case header_value r ''Content-Type'' of Some v \<Rightarrow> starts_with ''application/json'' v | None \<Rightarrow> False)
          then json_string r csrf_field else form_value r csrf_field)"

definition plain_client :: "http_request \<Rightarrow> bool" where
  "plain_client r =
     (header_value r ''Cookie'' = None \<and> header_value r ''Origin'' = None \<and> header_value r ''Referer'' = None
      \<and> header_value r ''Sec-Fetch-Site'' = None)"

definition reject_mutation :: "(bytes \<Rightarrow> bytes \<Rightarrow> bytes) \<Rightarrow> (string \<Rightarrow> bool) \<Rightarrow> (http_request \<Rightarrow> string \<Rightarrow> string option)
    \<Rightarrow> rt_error + nat \<Rightarrow> ('s, 'v) backend_runtime \<Rightarrow> http_request \<Rightarrow> ('s, http_response option) store_op" where
  "reject_mutation mac is_uuid json_string clock rt r =
     (if is_safe_method (req_method r) then store_return None
      else
        store_then (runtime_load_session rt r) (\<lambda>session.
          if session = None \<and> plain_client r then store_return None
          else
            store_then (store_lift (ax_env_secret (runtime_env rt) ''session_key'')) (\<lambda>secret.
            store_then
              (case session of
                 Some x \<Rightarrow> store_return (Some (session_id x))
               | None \<Rightarrow> store_lift (and_then clock (\<lambda>time. anonymous_identity mac is_uuid r secret time)))
              (\<lambda>identity.
            store_then
              (case (csrf_proof json_string r, identity) of
                 (Some token, Some i) \<Rightarrow> store_lift (csrf_verify mac i token secret)
               | _ \<Rightarrow> store_return False)
              (\<lambda>valid. store_return
                 (if valid then None
                  else Some (with_no_store (response_text 403 ''Forbidden: invalid CSRF proof''))))))))"

subsection \<open>Properties\<close>

lemma anonymous_identity_Some:
  assumes mac: "mac32 mac"
    and a: "anonymous_identity mac is_uuid r secret time = Inr (Some identity)"
  shows "\<exists>issued nonce signature token. cookie_value r (anonymous_name r) = Some (identity @ ''.'' @ token)
     \<and> anonymous_parts (identity @ ''.'' @ token) = Some (identity, issued, nonce, signature)
     \<and> issued \<le> time \<and> time < issued + anonymous_ttl \<and> is_uuid nonce \<and> csrf_issue mac identity secret = Inr token"
proof -
  from a obtain cookie issued nonce signature where c: "cookie_value r (anonymous_name r) = Some cookie"
    and p: "anonymous_parts cookie = Some (identity, issued, nonce, signature)"
    and t: "issued \<le> time" "time < issued + anonymous_ttl" "is_uuid nonce"
    and v: "csrf_verify mac identity (''axcsrf1.'' @ signature) secret = Inr True"
    by (auto simp: anonymous_identity_def bind_eq_Some_conv and_then_Inr_iff split: option.splits if_splits)
  from p have "split_once_str ''.axcsrf1.'' cookie = Some (identity, signature)"
    by (auto simp: anonymous_parts_def bind_eq_Some_conv)
  then have "cookie = identity @ ''.'' @ (''axcsrf1.'' @ signature)" using split_once_str_Some by fastforce
  moreover from v have "csrf_issue mac identity secret = Inr (''axcsrf1.'' @ signature)"
    by (simp only: csrf_verify_issue [OF mac])
  ultimately show ?thesis using c p t by blast
qed

text \<open>C15. An accepted mutation carries a proof: unless it comes without a session and without any
  browser header, the token of the request is the one issued for its session, or for the
  anonymous identity of its cookie, which the server signed less than half an hour ago.\<close>

theorem mutations_need_proof:
  assumes "mac32 mac" and "\<not> is_safe_method (req_method r)"
    and "reject_mutation mac is_uuid json_string clock rt r s = (Inr None, s')"
  shows "\<exists>session s1. runtime_load_session rt r s = (Inr session, s1) \<and>
    (session = None \<and> plain_client r
     \<or> (\<exists>secret identity token. ax_env_secret (runtime_env rt) ''session_key'' = Inr secret
          \<and> csrf_proof json_string r = Some token \<and> csrf_issue mac identity secret = Inr token
          \<and> (case session of
               Some x \<Rightarrow> identity = session_id x
             | None \<Rightarrow> \<exists>time issued nonce signature. clock = Inr time \<and> issued \<le> time \<and> time < issued + 1800
                 \<and> cookie_value r (anonymous_name r) = Some (identity @ ''.'' @ token)
                 \<and> anonymous_parts (identity @ ''.'' @ token) = Some (identity, issued, nonce, signature) \<and> is_uuid nonce)))"
proof -
  from assms(2,3) obtain session s1 where l: "runtime_load_session rt r s = (Inr session, s1)"
    by (auto simp: reject_mutation_def store_then_def split: prod.splits sum.splits)
  show ?thesis
  proof (cases "session = None \<and> plain_client r")
    case True
    with l show ?thesis by blast
  next
    case False
    with assms(2,3) l obtain secret identity token where sec: "ax_env_secret (runtime_env rt) ''session_key'' = Inr secret"
      and i: "(case session of Some x \<Rightarrow> Inr (Some (session_id x))
          | None \<Rightarrow> and_then clock (\<lambda>time. anonymous_identity mac is_uuid r secret time)) = Inr (Some identity)"
      and t: "csrf_proof json_string r = Some token" and v: "csrf_verify mac identity token secret = Inr True"
      by (auto simp: reject_mutation_def store_then_def store_lift_def store_return_def
          split: prod.splits sum.splits option.splits if_splits)
    from v have issue: "csrf_issue mac identity secret = Inr token" by (simp only: csrf_verify_issue [OF assms(1)])
    show ?thesis
    proof (cases session)
      case (Some x)
      with i l sec t issue show ?thesis by auto
    next
      case None
      with i obtain time where "clock = Inr time" "anonymous_identity mac is_uuid r secret time = Inr (Some identity)"
        by (auto simp: and_then_Inr_iff)
      with anonymous_identity_Some [OF assms(1) this(2)] None l sec t issue show ?thesis
        by (fastforce simp: anonymous_ttl_def)
    qed
  qed
qed

lemma split_at_dot_marker:
  assumes "CHR ''.'' \<notin> set a"
  shows "split_once_str (CHR ''.'' # p) (a @ CHR ''.'' # p @ b) = Some (a, b)"
  using assms
proof (induction a)
  case Nil
  have "strip_prefix (CHR ''.'' # p) (CHR ''.'' # p @ b) = Some b" by (simp add: strip_prefix_Some)
  then show ?case by simp
next
  case (Cons c a)
  then have "strip_prefix (CHR ''.'' # p) ((c # a) @ CHR ''.'' # p @ b) = None"
    by (auto simp: strip_prefix_Some simp flip: not_None_eq)
  with Cons show ?case by simp
qed

lemma digit_no_mark: "c \<in> set (show_nat n) \<Longrightarrow> c \<noteq> CHR ''.'' \<and> c \<noteq> CHR '':''"
  using show_nat_digits [of n] by (auto simp: list_all_iff is_digit_def code_def)

lemma anonymous_parts_issued:
  assumes "CHR ''.'' \<notin> set uuid" and "time < 2 ^ 64"
  shows "anonymous_parts ((''anonymous:'' @ show_nat time @ '':'' @ uuid) @ ''.axcsrf1.'' @ signature)
    = Some (''anonymous:'' @ show_nat time @ '':'' @ uuid, time, uuid, signature)"
proof -
  let ?i = "''anonymous:'' @ show_nat time @ '':'' @ uuid"
  have "CHR ''.'' \<notin> set ?i" using assms(1) digit_no_mark [of "CHR ''.''" time] by auto
  from split_at_dot_marker [OF this, of "''axcsrf1.''" signature]
  have 1: "split_once_str ''.axcsrf1.'' (?i @ ''.axcsrf1.'' @ signature) = Some (?i, signature)" by simp
  have 2: "strip_prefix ''anonymous:'' ?i = Some (show_nat time @ '':'' @ uuid)" by (simp only: strip_prefix_Some)
  have 3: "split_once (CHR '':'') (show_nat time @ '':'' @ uuid) = Some (show_nat time, uuid)"
    using digit_no_mark [of "CHR '':''" time] by (auto simp: split_once_Some)
  show ?thesis
    unfolding anonymous_parts_def 1 by (simp only: Option.bind.bind_lunit prod.case 2 3 parse_unsigned_show_nat [OF assms(2)])
qed

lemma delivery_Inr:
  assumes "delivery mac is_uuid uuid clock rt r s = (Inr (token, cookie), s1)"
  shows "\<exists>secret session. ax_env_secret (runtime_env rt) ''session_key'' = Inr secret
     \<and> runtime_load_session rt r s = (Inr session, s1)
     \<and> (case session of
          Some x \<Rightarrow> csrf_issue mac (session_id x) secret = Inr token \<and> cookie = None
        | None \<Rightarrow> (\<exists>time. clock = Inr time \<and>
            (case cookie of
               None \<Rightarrow> \<exists>identity. anonymous_identity mac is_uuid r secret time = Inr (Some identity) \<and> csrf_issue mac identity secret = Inr token
             | Some c \<Rightarrow> (let identity = ''anonymous:'' @ show_nat time @ '':'' @ uuid in
                 csrf_issue mac identity secret = Inr token \<and> c = anonymous_cookie r identity token))))"
  using assms
  by (auto simp: delivery_def store_then_def store_lift_def Let_def and_then_Inr_iff split: sum.splits prod.splits option.splits)


definition demo_key :: string where
  "demo_key = replicate 32 (CHR ''k'')"

definition demo_runtime :: "(unit, nat) backend_runtime" where
  "demo_runtime = \<lparr> runtime_env = \<lparr> env_public = [], env_secret = [(''session_key'', demo_key)] \<rparr>,
     runtime_load_session = (\<lambda>r. store_return (Some demo_session)) \<rparr>"

definition demo_token :: string where
  "demo_token = ''axcsrf1.'' @ hex_encode (demo_mac32 demo_key (csrf_input ''u1''))"

definition demo_mutation :: http_request where
  "demo_mutation = req_with_header csrf_header demo_token (http_request_new ''POST'' ''/'')"

lemma demo_mac32_ok: "mac32 demo_mac32"
  by (simp add: demo_mac32_def mac32_def)

lemma demo_issue: "csrf_issue demo_mac32 ''u1'' demo_key = Inr demo_token"
  by (simp add: csrf_issue_token demo_token_def demo_key_def)

lemma demo_verify: "csrf_verify demo_mac32 ''u1'' demo_token demo_key = Inr True"
  by (simp only: csrf_verify_issue [OF demo_mac32_ok] demo_issue)

lemma demo_runtime_simps: "ax_env_secret (runtime_env demo_runtime) ''session_key'' = Inr demo_key"
    "runtime_load_session demo_runtime r s = (Inr (Some demo_session), s)" "session_id demo_session = ''u1''"
    "csrf_proof json_string demo_mutation = Some demo_token" "\<not> is_safe_method (req_method demo_mutation)"
proof -
  show "csrf_proof json_string demo_mutation = Some demo_token"
    by (simp add: csrf_proof_def demo_mutation_def req_with_header_def http_request_new_def header_value_def find_header_def)
  show "\<not> is_safe_method (req_method demo_mutation)"
    by (simp add: is_safe_method_def demo_mutation_def req_with_header_def http_request_new_def to_upper_def upper_char_def code_def)
qed (simp_all add: demo_runtime_def ax_env_secret_def or_else_def bm_get_def store_return_def demo_session_def new_session_def)

lemma mutations_need_proof_witness:
  "\<exists>secret token. ax_env_secret (runtime_env demo_runtime) ''session_key'' = Inr secret
     \<and> csrf_proof (\<lambda>_ _. None) demo_mutation = Some token \<and> csrf_issue demo_mac32 ''u1'' secret = Inr token"
proof -
  have "reject_mutation demo_mac32 (\<lambda>_. True) (\<lambda>_ _. None) (Inr 0) demo_runtime demo_mutation () = (Inr None, ())"
    by (simp add: reject_mutation_def demo_runtime_simps store_then_def store_lift_def store_return_def demo_verify)
  from mutations_need_proof [OF demo_mac32_ok demo_runtime_simps(5) this] show ?thesis
    by (auto simp: demo_runtime_simps)
qed


end
