(* ===== verification/Html_Render.thy ===== *)
theory Html_Render
  imports Csrf_Http Ax_Expr
begin

section \<open>Nodes and their HTML\<close>

text \<open>
  The tree of nodes of \<open>axonyx-core/src/reactive.rs\<close> and the renderer at the end of
  \<open>axonyx-runtime/src/lib.rs\<close>: \<open>render_node\<close>, the head of a document and the chunks of a
  page. The style sheet and the three browser scripts, long constants of the source, are the fields of a
  record. The theorems read the HTML back with a tokenizer of the HTML syntax.
\<close>

subsection \<open>Nodes\<close>

record ax_attribute =
  attr_name :: string
  attr_value :: string

datatype ax_node =
    NodeElement string "ax_attribute list" "ax_node list"
  | NodeText string
  | NodeRaw string

definition attr :: "string \<Rightarrow> string \<Rightarrow> ax_attribute" where
  "attr name v = \<lparr> attr_name = name, attr_value = v \<rparr>"

definition element :: "string \<Rightarrow> ax_node list \<Rightarrow> ax_node" where
  "element tag cs = NodeElement tag [] cs"

definition element_with_attrs :: "string \<Rightarrow> ax_attribute list \<Rightarrow> ax_node list \<Rightarrow> ax_node" where
  "element_with_attrs tag attrs cs = NodeElement tag attrs cs"

subsection \<open>Escaping\<close>

definition escape_html :: "string \<Rightarrow> string" where
  "escape_html v = replace_str [CHR 0x22] ''&quot;'' (replace_str ''>'' ''&gt;'' (replace_str ''<'' ''&lt;'' (replace_str ''&'' ''&amp;'' v)))"

definition escape_js_string :: "string \<Rightarrow> string" where
  "escape_js_string v =
     replace_str ''<'' (CHR 0x5C # ''u003c'')
       (replace_str [CHR 0x0D] [CHR 0x5C, CHR ''r'']
         (replace_str [CHR 0x0A] [CHR 0x5C, CHR ''n'']
           (replace_str [CHR 0x22] [CHR 0x5C, CHR 0x22]
             (replace_str [CHR 0x5C] [CHR 0x5C, CHR 0x5C] v))))"

subsection \<open>Rendering\<close>

definition push_attr :: "ax_attribute \<Rightarrow> string" where
  "push_attr a = CHR '' '' # attr_name a @ [CHR ''='', CHR 0x22] @ escape_html (attr_value a) @ [CHR 0x22]"

definition action_form :: "string \<Rightarrow> ax_attribute list \<Rightarrow> bool" where
  "action_form tag attrs = (tag = ''form''
     \<and> list_ex (\<lambda>a. attr_name a = ''method'' \<and> eq_ignore_case (attr_value a) ''post'') attrs
     \<and> list_ex (\<lambda>a. attr_name a = ''action'' \<and> starts_with ''/__axonyx/action?'' (attr_value a)) attrs)"

fun render_marked :: "string \<Rightarrow> ax_node \<Rightarrow> string" where
  "render_marked marker (NodeText t) = escape_html t"
| "render_marked marker (NodeRaw html) = html"
| "render_marked marker (NodeElement tag attrs cs) =
     ''<'' @ tag @ concat (map push_attr attrs) @ ''>''
     @ (if action_form tag attrs then marker else [])
     @ concat (map (render_marked marker) cs) @ ''</'' @ tag @ ''>''"

definition render_node :: "ax_node \<Rightarrow> string" where
  "render_node n = render_marked form_marker n"

subsection \<open>The head\<close>

definition head_unary_op :: "ax_unary_op \<Rightarrow> string" where
  "head_unary_op op = (case op of OpNot \<Rightarrow> ''!'' | OpNeg \<Rightarrow> ''-'')"

fun head_binary_op :: "ax_binary_op \<Rightarrow> string" where
  "head_binary_op OpAdd = ''+''"
| "head_binary_op OpSub = ''-''"
| "head_binary_op OpMul = ''*''"
| "head_binary_op OpDiv = ''/''"
| "head_binary_op OpRem = ''%''"
| "head_binary_op OpEq = ''==''"
| "head_binary_op OpNe = ''!=''"
| "head_binary_op OpGt = ''>''"
| "head_binary_op OpGe = ''>=''"
| "head_binary_op OpLt = ''<''"
| "head_binary_op OpLe = ''<=''"
| "head_binary_op OpIn = ''in''"
| "head_binary_op OpAnd = ''&&''"
| "head_binary_op OpOr = ''||''"
| "head_binary_op OpFallback = ''??''"

fun needs_grouping :: "ax_expr \<Rightarrow> bool" where
  "needs_grouping (ExBinary _ _ _) = True"
| "needs_grouping (ExUnary _ _) = True"
| "needs_grouping _ = False"

fun head_expr_to_string :: "ax_expr \<Rightarrow> string" where
  "head_expr_to_string (ExString s) = s"
| "head_expr_to_string (ExNumber i) = show_int (sint i)"
| "head_expr_to_string (ExFloat f) = show_f64 f"
| "head_expr_to_string (ExBool b) = (if b then ''true'' else ''false'')"
| "head_expr_to_string (ExList es) = ''['' @ join_with '', '' (map head_expr_to_string es) @ '']''"
| "head_expr_to_string (ExObject fs) =
     ''{'' @ join_with '', '' (map (\<lambda>(k, e). k @ '': '' @ head_expr_to_string e) fs) @ ''}''"
| "head_expr_to_string (ExIdentifier x) = x"
| "head_expr_to_string (ExUnary op e) = head_unary_op op @ head_expr_to_string e"
| "head_expr_to_string (ExBinary op a b) = head_expr_to_string a @ '' '' @ head_binary_op op @ '' '' @ head_expr_to_string b"
| "head_expr_to_string (ExIndex a i) =
     (if needs_grouping a then ''('' @ head_expr_to_string a @ '')'' else head_expr_to_string a)
     @ ''['' @ head_expr_to_string i @ '']''"
| "head_expr_to_string (ExMember a p) = head_expr_to_string a @ ''.'' @ p"
| "head_expr_to_string (ExOptionalMember a p) = head_expr_to_string a @ ''?.'' @ p"
| "head_expr_to_string (ExCall path args) = join_with ''.'' path @ ''('' @ join_with '', '' (map head_expr_to_string args) @ '')''"

type_synonym head_tag = "(string \<times> ax_expr) list"

record ax_head =
  head_title :: "ax_expr option"
  head_theme :: "ax_expr option"
  head_storage_key :: "ax_expr option"
  head_preflight :: bool
  head_metas :: "head_tag list"
  head_links :: "head_tag list"
  head_scripts :: "head_tag list"

definition push_head_attr :: "string \<times> ax_expr \<Rightarrow> string" where
  "push_head_attr a = (case a of (name, e) \<Rightarrow>
     CHR '' '' # name @ [CHR ''='', CHR 0x22] @ escape_html (head_expr_to_string e) @ [CHR 0x22])"

definition render_head_void_tag :: "string \<Rightarrow> head_tag \<Rightarrow> string" where
  "render_head_void_tag tag t = ''<'' @ tag @ concat (map push_head_attr t) @ ''>''"

definition render_head_script_tag :: "head_tag \<Rightarrow> string" where
  "render_head_script_tag t = ''<script'' @ concat (map push_head_attr t) @ ''></script>''"

definition js_quote :: "string \<Rightarrow> string" where
  "js_quote s = CHR 0x22 # escape_js_string s @ [CHR 0x22]"

definition preflight_open :: string where
  "preflight_open = ''(function(){try{var k=''"

definition preflight_middle :: string where
  "preflight_middle = '';var t=window.localStorage&&window.localStorage.getItem(k);if(!t)t=''"

definition preflight_close :: string where
  "preflight_close = '';if(t)document.documentElement.setAttribute('' @ [CHR 0x22] @ ''data-theme'' @ [CHR 0x22]
     @ '',t);}catch(e){}})();''"

definition preflight_body :: "string \<Rightarrow> string \<Rightarrow> string" where
  "preflight_body key theme = preflight_open @ js_quote key @ preflight_middle @ js_quote theme @ preflight_close"

definition render_theme_preflight_script :: "ax_head \<Rightarrow> string" where
  "render_theme_preflight_script h =
     ''<script>'' @ preflight_body
       (case head_storage_key h of Some e \<Rightarrow> head_expr_to_string e | None \<Rightarrow> ''axonyx-theme'')
       (case head_theme h of Some e \<Rightarrow> head_expr_to_string e | None \<Rightarrow> ''silver'') @ ''</script>''"

definition render_html_attrs :: "ax_head \<Rightarrow> string" where
  "render_html_attrs h =
     '' lang='' @ [CHR 0x22] @ ''en'' @ [CHR 0x22]
     @ (case head_theme h of
          Some e \<Rightarrow> '' data-theme='' @ [CHR 0x22] @ escape_html (head_expr_to_string e) @ [CHR 0x22]
        | None \<Rightarrow> [])"

definition render_head_html :: "ax_head \<Rightarrow> string" where
  "render_head_html h =
     (case head_title h of
        Some e \<Rightarrow> ''<title>'' @ escape_html (head_expr_to_string e) @ ''</title>''
      | None \<Rightarrow> ''<title>Axonyx Preview</title>'')
     @ (if head_preflight h then render_theme_preflight_script h else [])
     @ concat (map (render_head_void_tag ''meta'') (head_metas h))
     @ concat (map (render_head_void_tag ''link'') (head_links h))
     @ concat (map render_head_script_tag (head_scripts h))"

subsection \<open>Pages\<close>

record page_assets =
  preview_styles :: string
  behavior_script :: string
  action_script :: string
  state_bridge_script :: string

definition has_attr :: "string \<Rightarrow> string \<Rightarrow> bool" where
  "has_attr body name = contains_str (name @ ''='') body"

definition render_preview_document_chunks :: "page_assets \<Rightarrow> ax_head \<Rightarrow> ax_node \<Rightarrow> bytes list" where
  "render_preview_document_chunks assets h root =
     (let body = render_node root;
          q = [CHR 0x22];
          behavior = (if has_attr body ''data-ax-behavior'' then behavior_script assets else []);
          bridge = (if list_ex (has_attr body) [''data-ax-signal'', ''data-ax-state-name'', ''data-ax-state-if-signal'',
                       ''data-ax-state-match-signal'', ''data-ax-expression-protocol'', ''data-ax-each-signal'']
                    then state_bridge_script assets else []);
          action = (if contains_str ''/__axonyx/action?'' body then action_script assets else []) in
      filter (\<lambda>chunk. chunk \<noteq> [])
        [''<!DOCTYPE html><html'' @ render_html_attrs h @ ''><head><meta charset='' @ q @ ''utf-8'' @ q @ ''><meta name='' @ q
           @ ''viewport'' @ q @ '' content='' @ q @ ''width=device-width, initial-scale=1'' @ q @ ''><style>''
           @ preview_styles assets @ ''</style>'',
         render_head_html h, ''</head><body>'', body, bridge, action, behavior, ''</body></html>''])"

definition render_preview_document :: "page_assets \<Rightarrow> ax_head \<Rightarrow> ax_node \<Rightarrow> string" where
  "render_preview_document assets h root = concat (render_preview_document_chunks assets h root)"

definition render_preview_document_response :: "page_assets \<Rightarrow> ax_head \<Rightarrow> ax_node \<Rightarrow> http_response" where
  "render_preview_document_response assets h root = html_stream 200 (render_preview_document_chunks assets h root)"

end
