(* ===== verification/Html_Correct.thy ===== *)
theory Html_Correct
  imports Html_Render
begin

section \<open>Rendered HTML read back\<close>

text \<open>
  A tokenizer of the HTML syntax the renderer emits (start tags with quoted attributes, end tags,
  comments, character references) and what it reads from rendered nodes and heads. Elements whose
  content the browser does not tokenize (script, style) are left out of the nodes: the renderer escapes
  their text as it does everywhere.
\<close>


subsection \<open>Escaping, character by character\<close>

lemma split_once_str_single: "split_once_str [c] s = split_once c s"
  by (induction s) auto

lemma replace_single: "replace_str [c] r s = concat (map (\<lambda>x. if x = c then r else [x]) s)"
proof (induction "[c]" r s rule: replace_str.induct)
  case (1 r s)
  show ?case
  proof (cases "split_once c s")
    case None
    then have "c \<notin> set s" by (simp add: split_once_None)
    then have "concat (map (\<lambda>x. if x = c then r else [x]) s) = s" by (induction s) auto
    with None show ?thesis by (subst replace_str.simps) (simp add: split_once_str_single)
  next
    case (Some p)
    then obtain a b where ab: "split_once c s = Some (a, b)" "s = a @ c # b" "c \<notin> set a"
      by (cases p) (simp add: split_once_Some)
    then have "concat (map (\<lambda>x. if x = c then r else [x]) a) = a" by (induction a arbitrary: s) auto
    with 1 ab show ?thesis by (subst replace_str.simps) (simp add: split_once_str_single)
  qed
qed

definition html_char :: "char \<Rightarrow> string" where
  "html_char c = (if c = CHR ''&'' then ''&amp;'' else if c = CHR ''<'' then ''&lt;'' else if c = CHR ''>'' then ''&gt;''
     else if c = CHR 0x22 then ''&quot;'' else [c])"

definition js_char :: "char \<Rightarrow> string" where
  "js_char c = (if c = CHR 0x5C then [CHR 0x5C, CHR 0x5C] else if c = CHR 0x22 then [CHR 0x5C, CHR 0x22]
     else if c = CHR 0x0A then [CHR 0x5C, CHR ''n''] else if c = CHR 0x0D then [CHR 0x5C, CHR ''r'']
     else if c = CHR ''<'' then CHR 0x5C # ''u003c'' else [c])"

lemma escape_html_chars: "escape_html s = concat (map html_char s)"
  unfolding escape_html_def replace_single by (induction s) (auto simp: html_char_def)

lemma escape_js_chars: "escape_js_string s = concat (map js_char s)"
  unfolding escape_js_string_def replace_single by (induction s) (auto simp: js_char_def)

subsection \<open>Reading HTML\<close>

datatype html_token =
    TokOpen string "(string \<times> string) list"
  | TokClose string
  | TokChar char
  | TokComment string

definition name_char :: "char \<Rightarrow> bool" where
  "name_char c = (is_alphanumeric c \<or> c \<in> {CHR ''-'', CHR ''_'', CHR '':''})"

definition valid_name :: "string \<Rightarrow> bool" where
  "valid_name n = (n \<noteq> [] \<and> is_alphanumeric (hd n) \<and> list_all name_char n)"

definition html_entity :: "string \<Rightarrow> (char \<times> string) option" where
  "html_entity s =
     (case strip_prefix ''amp;'' s of Some r \<Rightarrow> Some (CHR ''&'', r) | None \<Rightarrow>
     (case strip_prefix ''lt;'' s of Some r \<Rightarrow> Some (CHR ''<'', r) | None \<Rightarrow>
     (case strip_prefix ''gt;'' s of Some r \<Rightarrow> Some (CHR ''>'', r) | None \<Rightarrow>
     (case strip_prefix ''quot;'' s of Some r \<Rightarrow> Some (CHR 0x22, r) | None \<Rightarrow> None))))"

lemma html_entity_length: "html_entity s = Some (c, r) \<Longrightarrow> length r < length s"
  by (auto simp: html_entity_def strip_prefix_Some split: option.splits)

function decode_text :: "string \<Rightarrow> string" where
  "decode_text [] = []"
| "decode_text (c # s) =
     (case (if c = CHR ''&'' then html_entity s else None) of
        Some (x, r) \<Rightarrow> x # decode_text r
      | None \<Rightarrow> c # decode_text s)"
  by pat_completeness auto
termination
  by (relation "measure length") (auto dest: html_entity_length split: if_splits)

declare decode_text.simps(2) [simp del]

lemma length_dropped: "dropWhile P s = r \<Longrightarrow> length r \<le> length s"
  using length_dropWhile_le by blast

function read_attrs :: "string \<Rightarrow> ((string \<times> string) list \<times> string) option" where
  "read_attrs s =
     (case s of
        c # r \<Rightarrow>
          if c = CHR ''>'' then Some ([], r)
          else if c = CHR '' '' \<and> takeWhile name_char r \<noteq> [] then
            (case strip_prefix [CHR ''='', CHR 0x22] (dropWhile name_char r) of
               None \<Rightarrow> None
             | Some v \<Rightarrow>
                 (case split_once (CHR 0x22) v of
                    None \<Rightarrow> None
                  | Some (body, rest) \<Rightarrow>
                      map_option (\<lambda>(attrs, r'). ((takeWhile name_char r, decode_text body) # attrs, r')) (read_attrs rest)))
          else None
      | [] \<Rightarrow> None)"
  by pat_completeness auto
termination
  by (relation "measure length") (auto simp: strip_prefix_Some split_once_Some dest!: length_dropped)

declare read_attrs.simps [simp del]

lemma read_attrs_length: "read_attrs s = Some (attrs, r) \<Longrightarrow> length r < length s"
proof (induction s arbitrary: attrs rule: read_attrs.induct)
  case (1 s)
  from 1(2) obtain c t where s: "s = c # t" by (cases s) (auto simp: read_attrs.simps)
  have "length (dropWhile name_char t) \<le> length t" by (rule length_dropWhile_le)
  with 1 s show ?case
    by (subst (asm) (2) read_attrs.simps)
      (fastforce simp: strip_prefix_Some split_once_Some split: if_splits option.splits)
qed

function read_html :: "string \<Rightarrow> html_token list option" where
  "read_html [] = Some []"
| "read_html (c # s) =
     (if c \<noteq> CHR ''<'' then
        (case (if c = CHR ''&'' then html_entity s else None) of
           Some (x, r) \<Rightarrow> map_option ((#) (TokChar x)) (read_html r)
         | None \<Rightarrow> map_option ((#) (TokChar c)) (read_html s))
      else case strip_prefix ''!--'' s of
        Some r \<Rightarrow>
          (case split_once_str ''-->'' r of
             Some (body, r') \<Rightarrow> map_option ((#) (TokComment body)) (read_html r')
           | None \<Rightarrow> None)
      | None \<Rightarrow>
          (case strip_prefix ''/'' s of
             Some r \<Rightarrow>
               (case strip_prefix ''>'' (dropWhile name_char r) of
                  Some r' \<Rightarrow> if valid_name (takeWhile name_char r)
                             then map_option ((#) (TokClose (takeWhile name_char r))) (read_html r') else None
                | None \<Rightarrow> None)
           | None \<Rightarrow>
               (case read_attrs (dropWhile name_char s) of
                  Some (attrs, r') \<Rightarrow> if valid_name (takeWhile name_char s)
                             then map_option ((#) (TokOpen (takeWhile name_char s) attrs)) (read_html r') else None
                | None \<Rightarrow> None)))"
  by pat_completeness auto
termination
  by (relation "measure length")
    (auto simp: strip_prefix_Some le_imp_less_Suc
      dest!: split_once_str_Some length_dropped read_attrs_length less_le_trans [OF _ length_dropWhile_le]
      dest: html_entity_length split: if_splits)

declare read_html.simps(2) [simp del]

subsection \<open>Reading a rendered node\<close>

lemma html_char_read: "read_html (html_char c @ s) = map_option ((#) (TokChar c)) (read_html s)"
  by (auto simp: html_char_def read_html.simps(2) html_entity_def)

lemma text_read: "read_html (escape_html t @ s) = map_option ((@) (map TokChar t)) (read_html s)"
  by (induction t) (auto simp: escape_html_chars html_char_read option.map_comp comp_def option.map_ident)

lemma decode_escape: "decode_text (escape_html t) = t"
proof -
  have "decode_text (html_char c @ s) = c # decode_text s" for c s
    by (auto simp: html_char_def decode_text.simps(2) html_entity_def)
  then show ?thesis by (induction t) (auto simp: escape_html_chars)
qed

lemma escape_no_quote: "CHR 0x22 \<notin> set (escape_html t)" "CHR ''<'' \<notin> set (escape_html t)"
  by (auto simp: escape_html_chars html_char_def split: if_splits)

fun node_tokens :: "html_token list \<Rightarrow> ax_node \<Rightarrow> html_token list" where
  "node_tokens mt (NodeText t) = map TokChar t"
| "node_tokens mt (NodeRaw html) = []"
| "node_tokens mt (NodeElement tag attrs cs) =
     TokOpen tag (map (\<lambda>a. (attr_name a, attr_value a)) attrs) # (if action_form tag attrs then mt else [])
     @ concat (map (node_tokens mt) cs) @ [TokClose tag]"

fun node_ok :: "ax_node \<Rightarrow> bool" where
  "node_ok (NodeText t) = True"
| "node_ok (NodeRaw html) = False"
| "node_ok (NodeElement tag attrs cs) =
     (valid_name tag \<and> tag \<notin> {''script'', ''style''} \<and> list_all (\<lambda>a. valid_name (attr_name a)) attrs \<and> list_all node_ok cs)"

lemma take_name:
  "list_all name_char n \<Longrightarrow> s = [] \<or> \<not> name_char (hd s) \<Longrightarrow> takeWhile name_char (n @ s) = n \<and> dropWhile name_char (n @ s) = s"
  by (induction n) (auto simp: takeWhile_eq_Nil_iff dropWhile_eq_self_iff)

lemma not_name_char: "\<not> name_char (CHR ''='')" "\<not> name_char (CHR ''>'')" "\<not> name_char (CHR '' '')" "\<not> name_char (CHR ''/'')" "\<not> name_char (CHR ''!'')"
  by (simp_all add: name_char_def is_alphanumeric_def is_digit_def code_def)

lemma read_push_attr:
  assumes "valid_name (attr_name a)"
  shows "read_attrs (push_attr a @ s) = map_option (\<lambda>(attrs, r). ((attr_name a, attr_value a) # attrs, r)) (read_attrs s)"
proof -
  let ?v = "escape_html (attr_value a) @ CHR 0x22 # s"
  have n: "takeWhile name_char (attr_name a @ CHR ''='' # CHR 0x22 # ?v) = attr_name a"
      "dropWhile name_char (attr_name a @ CHR ''='' # CHR 0x22 # ?v) = CHR ''='' # CHR 0x22 # ?v"
    using take_name [of "attr_name a" "CHR ''='' # CHR 0x22 # ?v"] assms by (simp_all add: valid_name_def not_name_char)
  have "split_once (CHR 0x22) ?v = Some (escape_html (attr_value a), s)"
    using escape_no_quote by (simp add: split_once_Some)
  with n assms show ?thesis
    by (subst read_attrs.simps) (simp add: push_attr_def decode_escape valid_name_def)
qed

lemma read_push_attrs:
  "list_all (\<lambda>a. valid_name (attr_name a)) attrs \<Longrightarrow>
   read_attrs (concat (map push_attr attrs) @ CHR ''>'' # s) = Some (map (\<lambda>a. (attr_name a, attr_value a)) attrs, s)"
proof (induction attrs)
  case Nil
  then show ?case by (simp add: read_attrs.simps)
qed (simp add: read_push_attr)

lemma read_open:
  assumes "valid_name tag" and "list_all (\<lambda>a. valid_name (attr_name a)) attrs"
  shows "read_html (CHR ''<'' # tag @ concat (map push_attr attrs) @ CHR ''>'' # s)
    = map_option ((#) (TokOpen tag (map (\<lambda>a. (attr_name a, attr_value a)) attrs))) (read_html s)"
proof -
  let ?r = "concat (map push_attr attrs) @ CHR ''>'' # s"
  have "?r = [] \<or> \<not> name_char (hd ?r)" by (cases attrs) (simp_all add: push_attr_def not_name_char)
  with assms(1) have "takeWhile name_char (tag @ ?r) = tag \<and> dropWhile name_char (tag @ ?r) = ?r"
    by (intro take_name) (simp_all add: valid_name_def)
  moreover obtain c t where "tag = c # t" "is_alphanumeric c" using assms(1) by (cases tag) (auto simp: valid_name_def)
  moreover from this have "c \<noteq> CHR ''!''" "c \<noteq> CHR ''/''" by (auto simp: is_alphanumeric_def is_digit_def code_def)
  ultimately show ?thesis
    using assms read_push_attrs [OF assms(2), of s] by (simp add: read_html.simps(2))
qed

lemma read_close:
  assumes "valid_name tag"
  shows "read_html (''</'' @ tag @ CHR ''>'' # s) = map_option ((#) (TokClose tag)) (read_html s)"
  using assms take_name [of tag "CHR ''>'' # s"] by (simp add: read_html.simps(2) valid_name_def not_name_char)

lemma map_option_prefix: "map_option ((@) []) x = x" "(@) (a @ b) = (\<lambda>x. a @ b @ x)" "(@) (u # b) = (\<lambda>x. u # b @ x)"
  by (cases x) (simp_all add: fun_eq_iff)

lemma read_rendered:
  assumes "\<And>s. read_html (m @ s) = map_option ((@) mt) (read_html s)"
  shows "node_ok n \<Longrightarrow> read_html (render_marked m n @ s) = map_option ((@) (node_tokens mt n)) (read_html s)"
proof (induction n arbitrary: s)
  case (NodeElement tag attrs cs)
  have cs: "read_html (concat (map (render_marked m) cs) @ t) = map_option ((@) (concat (map (node_tokens mt) cs))) (read_html t)" for t
    using NodeElement by (induction cs) (auto simp: option.map_comp comp_def map_option_prefix option.map_ident)
  have mk: "read_html ((if action_form tag attrs then m else []) @ t)
      = map_option ((@) (if action_form tag attrs then mt else [])) (read_html t)" for t
    using assms by (simp add: map_option_prefix)
  from NodeElement.prems show ?case
    using read_open [of tag attrs "(if action_form tag attrs then m else []) @ concat (map (render_marked m) cs) @ ''</'' @ tag @ CHR ''>'' # s"]
    by (simp add: mk cs read_close [simplified] option.map_comp comp_def map_option_prefix)
qed (simp_all add: text_read)


subsection \<open>Placing the token field\<close>

definition clean :: "string \<Rightarrow> bool" where
  "clean s = (\<forall>a b. s = a @ CHR ''<'' # b \<longrightarrow> b \<noteq> [] \<and> hd b \<noteq> CHR ''!'')"

lemma clean_Nil: "clean []"
  by (simp add: clean_def)

lemma clean_Cons: "clean (c # s) \<longleftrightarrow> clean s \<and> (c = CHR ''<'' \<longrightarrow> s \<noteq> [] \<and> hd s \<noteq> CHR ''!'')"
  unfolding clean_def by (auto simp: Cons_eq_append_conv)

lemma clean_append: "clean a \<Longrightarrow> clean b \<Longrightarrow> clean (a @ b)"
  by (induction a) (auto simp: clean_Cons hd_append)

lemma clean_without: "CHR ''<'' \<notin> set s \<Longrightarrow> clean s"
  by (induction s) (auto simp: clean_Nil clean_Cons)

lemma split_marker_clean:
  "clean c \<Longrightarrow> split_once_str form_marker (c @ s) = map_option (\<lambda>(a, b). (c @ a, b)) (split_once_str form_marker s)"
proof (induction c)
  case (Cons x c)
  then have "strip_prefix form_marker (x # c @ s) = None"
    by (cases c) (auto simp: form_marker_def clean_Cons)
  with Cons show ?case by (cases "split_once_str form_marker s") (auto simp: clean_Cons)
qed (cases "split_once_str form_marker s"; simp)

lemma form_marker_not_Nil: "form_marker \<noteq> []"
  by (simp add: form_marker_def)

lemma replace_marker_clean: "clean c \<Longrightarrow> replace_str form_marker r (c @ s) = c @ replace_str form_marker r s"
  using form_marker_not_Nil
  by (subst (1 2) replace_str.simps) (auto simp: split_marker_clean split: option.splits)

lemma replace_marker: "replace_str form_marker r (form_marker @ s) = r @ replace_str form_marker r s"
proof -
  have "split_once_str form_marker (form_marker @ s) = Some ([], s)" by (simp add: form_marker_def)
  then show ?thesis using form_marker_not_Nil by (subst replace_str.simps) simp
qed

lemma replace_marker_Nil [simp]: "replace_str form_marker r [] = []"
  by (subst replace_str.simps) (simp add: form_marker_def)

lemma valid_name_clean: "valid_name n \<Longrightarrow> CHR ''<'' \<notin> set n \<and> hd n \<noteq> CHR ''!'' \<and> n \<noteq> []"
  by (auto simp: valid_name_def list_all_iff name_char_def is_alphanumeric_def is_digit_def code_def)

lemma push_attr_clean: "valid_name (attr_name a) \<Longrightarrow> CHR ''<'' \<notin> set (push_attr a)"
  using valid_name_clean [of "attr_name a"] escape_no_quote(2) [of "attr_value a"] by (auto simp: push_attr_def)

lemma open_tag_clean:
  assumes "valid_name tag" and "list_all (\<lambda>a. valid_name (attr_name a)) attrs"
  shows "clean (CHR ''<'' # tag @ concat (map push_attr attrs) @ ''>'')" and "clean (''</'' @ tag @ ''>'')"
proof -
  have "CHR ''<'' \<notin> set (tag @ concat (map push_attr attrs) @ ''>'')"
    using valid_name_clean [OF assms(1)] assms(2) push_attr_clean by (auto simp: list_all_iff)
  then show "clean (CHR ''<'' # tag @ concat (map push_attr attrs) @ ''>'')"
    using valid_name_clean [OF assms(1)] by (auto simp: clean_Cons hd_append intro: clean_without)
  show "clean (''</'' @ tag @ ''>'')"
    using valid_name_clean [OF assms(1)] by (auto simp: clean_Cons intro: clean_without)
qed

lemma replace_rendered:
  "node_ok n \<Longrightarrow> replace_str form_marker r (render_marked form_marker n @ s) = render_marked r n @ replace_str form_marker r s"
proof (induction n arbitrary: s)
  case (NodeText t)
  then show ?case using escape_no_quote(2) by (simp add: replace_marker_clean clean_without)
next
  case (NodeElement tag attrs cs)
  have cs: "replace_str form_marker r (concat (map (render_marked form_marker) cs) @ t)
      = concat (map (render_marked r) cs) @ replace_str form_marker r t" for t
    using NodeElement by (induction cs) auto
  have mk: "replace_str form_marker r ((if action_form tag attrs then form_marker else []) @ t)
      = (if action_form tag attrs then r else []) @ replace_str form_marker r t" for t
    by (simp add: replace_marker)
  from NodeElement.prems have ok: "valid_name tag" "list_all (\<lambda>a. valid_name (attr_name a)) attrs" by simp_all
  have "replace_str form_marker r (render_marked form_marker (NodeElement tag attrs cs) @ s)
      = replace_str form_marker r ((CHR ''<'' # tag @ concat (map push_attr attrs) @ ''>'')
          @ (if action_form tag attrs then form_marker else []) @ concat (map (render_marked form_marker) cs)
          @ (''</'' @ tag @ ''>'') @ s)" by simp
  also have "\<dots> = (CHR ''<'' # tag @ concat (map push_attr attrs) @ ''>'')
          @ (if action_form tag attrs then r else []) @ concat (map (render_marked r) cs)
          @ (''</'' @ tag @ ''>'') @ replace_str form_marker r s"
    by (simp only: replace_marker_clean [OF open_tag_clean(1) [OF ok]] replace_marker_clean [OF open_tag_clean(2) [OF ok]] mk cs)
  finally show ?case by simp
qed simp

text \<open>A rendered page reads back: the HTML of a tree of named elements and texts is read as exactly the
  elements, attributes and characters of the tree, so no text and no attribute value can become markup,
  and the token marker appears exactly in the forms that post to an action.\<close>

theorem rendered_text_is_data:
  assumes "node_ok n"
  shows "read_html (render_node n) = Some (node_tokens [TokComment ''axonyx:csrf-field''] n)"
proof -
  have "read_html (form_marker @ s) = map_option ((@) [TokComment ''axonyx:csrf-field'']) (read_html s)" for s
    by (simp add: form_marker_def read_html.simps(2) map_option_prefix)
  from read_rendered [OF this assms, of "[]"] show ?thesis by (simp add: render_node_def)
qed


definition demo_form :: ax_node where
  "demo_form = NodeElement ''form'' [attr ''method'' ''post'', attr ''action'' ''/__axonyx/action?name=a'']
     [NodeElement ''p'' [attr ''title'' [CHR 0x22, CHR ''>'']] [NodeText ''<b> & <!--axonyx:csrf-field-->'']]"

lemma demo_form_ok: "node_ok demo_form"
  by (simp add: demo_form_def attr_def valid_name_def name_char_def is_alphanumeric_def is_digit_def code_def)

lemma rendered_text_is_data_witness:
  "read_html (render_node demo_form) = Some (node_tokens [TokComment ''axonyx:csrf-field''] demo_form)"
  by (rule rendered_text_is_data [OF demo_form_ok])


subsection \<open>The head as data\<close>

definition head_attrs :: "head_tag \<Rightarrow> (string \<times> string) list" where
  "head_attrs t = map (\<lambda>(name, e). (name, head_expr_to_string e)) t"

definition head_tokens :: "ax_head \<Rightarrow> html_token list" where
  "head_tokens h =
     TokOpen ''title'' [] # map TokChar (case head_title h of Some e \<Rightarrow> head_expr_to_string e | None \<Rightarrow> ''Axonyx Preview'') @ [TokClose ''title'']
     @ map (\<lambda>t. TokOpen ''meta'' (head_attrs t)) (head_metas h) @ map (\<lambda>t. TokOpen ''link'' (head_attrs t)) (head_links h)
     @ concat (map (\<lambda>t. [TokOpen ''script'' (head_attrs t), TokClose ''script'']) (head_scripts h))"

fun read_js :: "string \<Rightarrow> (string \<times> string) option" where
  "read_js [] = None"
| "read_js (c # s) =
     (if c = CHR 0x22 then Some ([], s)
      else if c \<in> {CHR 0x0A, CHR 0x0D} then None
      else if c \<noteq> CHR 0x5C then map_option (\<lambda>(v, r). (c # v, r)) (read_js s)
      else case s of
        e # s1 \<Rightarrow>
          if e = CHR 0x5C \<or> e = CHR 0x22 then map_option (\<lambda>(v, r). (e # v, r)) (read_js s1)
          else if e = CHR ''n'' then map_option (\<lambda>(v, r). (CHR 0x0A # v, r)) (read_js s1)
          else if e = CHR ''r'' then map_option (\<lambda>(v, r). (CHR 0x0D # v, r)) (read_js s1)
          else (case s1 of
            z1 # z2 # z3 # c3 # s2 \<Rightarrow>
              if e = CHR ''u'' \<and> [z1, z2, z3, c3] = ''003c'' then map_option (\<lambda>(v, r). (CHR ''<'' # v, r)) (read_js s2) else None
          | _ \<Rightarrow> None)
      | [] \<Rightarrow> None)"

lemma read_js_escape: "read_js (escape_js_string v @ CHR 0x22 # s) = Some (v, s)"
proof -
  have "read_js (js_char c @ t) = map_option (\<lambda>(v, r). (c # v, r)) (read_js t)" for c t
    by (simp add: js_char_def)
  then show ?thesis by (induction v) (simp_all add: escape_js_chars)
qed

lemma escape_js_no_tag: "CHR ''<'' \<notin> set (escape_js_string v)"
  by (auto simp: escape_js_chars js_char_def split: if_splits)

definition named_attrs :: "head_tag list \<Rightarrow> bool" where
  "named_attrs ts = list_all (list_all (\<lambda>(name, e). valid_name name)) ts"

lemma read_head_tag:
  assumes "valid_name tag" and "list_all (\<lambda>(name, e). valid_name name) t"
  shows "read_html (CHR ''<'' # tag @ concat (map push_head_attr t) @ CHR ''>'' # s)
    = map_option ((#) (TokOpen tag (head_attrs t))) (read_html s)"
proof -
  let ?as = "map (\<lambda>(name, e). attr name (head_expr_to_string e)) t"
  have "map push_head_attr t = map push_attr ?as"
    by (induction t) (auto simp: push_head_attr_def push_attr_def attr_def)
  moreover have "head_attrs t = map (\<lambda>a. (attr_name a, attr_value a)) ?as"
    by (induction t) (auto simp: head_attrs_def attr_def)
  moreover have "list_all (\<lambda>a. valid_name (attr_name a)) ?as" using assms(2) by (induction t) (auto simp: attr_def)
  ultimately show ?thesis using read_open [OF assms(1), of ?as s] by (simp only:)
qed

lemma valid_tags: "valid_name ''title''" "valid_name ''meta''" "valid_name ''link''" "valid_name ''script''"
  by (simp_all add: valid_name_def name_char_def is_alphanumeric_def is_digit_def code_def)

lemma read_void_tags:
  "named_attrs ts \<Longrightarrow> valid_name tag \<Longrightarrow>
   read_html (concat (map (render_head_void_tag tag) ts) @ s) = map_option ((@) (map (\<lambda>t. TokOpen tag (head_attrs t)) ts)) (read_html s)"
proof (induction ts)
  case (Cons t ts)
  have "read_html (render_head_void_tag tag t @ s) = map_option ((#) (TokOpen tag (head_attrs t))) (read_html s)" for s
    using Cons.prems by (simp add: render_head_void_tag_def read_head_tag named_attrs_def)
  with Cons show ?case by (cases "read_html s") (simp_all add: named_attrs_def)
qed (simp add: map_option_prefix)

lemma read_scripts:
  "named_attrs ts \<Longrightarrow> read_html (concat (map render_head_script_tag ts))
     = Some (concat (map (\<lambda>t. [TokOpen ''script'' (head_attrs t), TokClose ''script'']) ts))"
proof (induction ts)
  case (Cons t ts)
  have "read_html (render_head_script_tag t @ s)
      = map_option (\<lambda>x. TokOpen ''script'' (head_attrs t) # TokClose ''script'' # x) (read_html s)" for s
    using Cons.prems read_head_tag [of "''script''" t "''</script>'' @ s"] read_close [of "''script''" s]
    by (simp add: render_head_script_tag_def named_attrs_def valid_tags option.map_comp comp_def)
  with Cons show ?case by (simp add: named_attrs_def)
qed simp

lemma read_title: "read_html ((''<title>'' @ escape_html t @ ''</title>'') @ s)
    = map_option ((@) (TokOpen ''title'' [] # map TokChar t @ [TokClose ''title''])) (read_html s)"
  using read_open [of "''title''" "[]" "escape_html t @ ''</title>'' @ s"] read_close [of "''title''" s]
  by (simp add: valid_tags text_read option.map_comp comp_def map_option_prefix)

text \<open>The head of a page reads back as its title, its meta and link elements and its scripts: the values of the
  page cannot become markup. The inline script that restores the theme contains no tag, and each of its two
  string literals is read by the browser as exactly the value it was made from.\<close>

theorem head_values_are_data:
  assumes "named_attrs (head_metas h)" and "named_attrs (head_links h)" and "named_attrs (head_scripts h)"
    and "\<not> head_preflight h"
  shows "read_html (render_head_html h) = Some (head_tokens h)
    \<and> CHR ''<'' \<notin> set (preflight_body key theme)
    \<and> (\<exists>before between after. preflight_body key theme = before @ CHR 0x22 # between
        \<and> read_js between = Some (key, after)
        \<and> (\<exists>middle rest. after = middle @ CHR 0x22 # escape_js_string theme @ CHR 0x22 # rest
            \<and> read_js (escape_js_string theme @ CHR 0x22 # rest) = Some (theme, rest)))"
proof -
  have "''Axonyx Preview'' = escape_html ''Axonyx Preview''"
    by (simp add: escape_html_chars html_char_def)
  then obtain t where t: "render_head_html h = (''<title>'' @ escape_html t @ ''</title>'')
        @ concat (map (render_head_void_tag ''meta'') (head_metas h)) @ concat (map (render_head_void_tag ''link'') (head_links h))
        @ concat (map render_head_script_tag (head_scripts h))"
      and k: "t = (case head_title h of Some e \<Rightarrow> head_expr_to_string e | None \<Rightarrow> ''Axonyx Preview'')"
    using assms(4) by (cases "head_title h") (auto simp: render_head_html_def)
  have "read_html (render_head_html h) = Some (head_tokens h)"
    unfolding t append_assoc read_title [unfolded append_assoc] read_void_tags [OF assms(1) valid_tags(2)]
      read_void_tags [OF assms(2) valid_tags(3)] read_scripts [OF assms(3)]
    by (simp add: head_tokens_def k)
  moreover have "CHR ''<'' \<notin> set (preflight_body key theme)"
    using escape_js_no_tag by (simp add: preflight_body_def js_quote_def preflight_open_def preflight_middle_def preflight_close_def)
  moreover obtain before middle rest where b: "preflight_body key theme
      = before @ CHR 0x22 # escape_js_string key @ CHR 0x22 # middle @ CHR 0x22 # escape_js_string theme @ CHR 0x22 # rest"
    by (simp add: preflight_body_def js_quote_def)
  ultimately show ?thesis using read_js_escape by blast
qed

definition demo_head :: ax_head where
  "demo_head = \<lparr> head_title = Some (ExString ''</title><script>''), head_theme = None, head_storage_key = None, head_preflight = False,
     head_metas = [[(''name'', ExString ''a''), (''content'', ExString [CHR 0x22, CHR ''>''])]], head_links = [], head_scripts = [] \<rparr>"

lemma head_values_are_data_witness: "read_html (render_head_html demo_head) = Some (head_tokens demo_head)"
proof -
  have "named_attrs (head_metas demo_head)" "named_attrs (head_links demo_head)" "named_attrs (head_scripts demo_head)" "\<not> head_preflight demo_head"
    by (simp_all add: demo_head_def named_attrs_def valid_name_def name_char_def is_alphanumeric_def is_digit_def code_def)
  from head_values_are_data [OF this] show ?thesis by blast
qed

end
