(* ===== verification/Form_Correct.thy ===== *)
theory Form_Correct
  imports Form_Result
begin

section \<open>What a refused form shows again\<close>

text \<open>
  Theorems about \<open>Form_Result\<close>: what is kept of a request does not depend on the values of secret
  controls, what a page shows depends only on the controls its forms opted in, only forms of the
  refused action are touched, and the filled page is still data for the HTML reader of
  \<open>Html_Correct\<close>.
\<close>

subsection \<open>Opted-in names\<close>

fun retained_in :: "ax_node \<Rightarrow> string set" where
  "retained_in (NodeElement tag attrs cs) =
     (if tag = ''form'' then set (retained_names attrs) else {}) \<union> (\<Union>c \<in> set cs. retained_in c)"
| "retained_in n = {}"

fun has_form_of :: "form_result \<Rightarrow> ax_node \<Rightarrow> bool" where
  "has_form_of fr (NodeElement tag attrs cs) = ((tag = ''form'' \<and> posts_to fr attrs) \<or> list_ex (has_form_of fr) cs)"
| "has_form_of fr n = False"

lemma retained_names_safe: "n \<in> set (retained_names attrs) \<Longrightarrow> safe_replay_name n"
  by (auto simp: retained_names_def split: option.splits dest: in_set_takeD)

lemma retained_in_safe: "n \<in> retained_in node \<Longrightarrow> safe_replay_name n"
  by (induction node) (auto simp: retained_names_safe split: if_splits)

lemma retained_select: "retained_in (select_option v n) \<subseteq> retained_in n"
  by (induction n) auto

lemma retained_filled:
  assumes "c \<in> set (snd (filled fr tag attrs cs matching allowed))"
  shows "retained_in c \<subseteq> retained_in (NodeElement tag attrs cs)"
  using filled_children [of fr tag attrs cs matching allowed] assms retained_select
  by (fastforce simp: select_options_def)

definition agree_on :: "string set \<Rightarrow> (string, string) bmap \<Rightarrow> (string, string) bmap \<Rightarrow> bool" where
  "agree_on names s t = (\<forall>n \<in> names. bm_get s n = bm_get t n)"

lemma replay_control_agree:
  "agree_on (set allowed) s t \<Longrightarrow> replay_control tag attrs cs allowed s = replay_control tag attrs cs allowed t"
  by (cases "attr_find ''name'' attrs") (auto simp: replay_control_def agree_on_def Let_def)

lemma filled_agree:
  assumes "agree_on (set allowed) s t"
  shows "filled (fr\<lparr> fr_submitted := Some s \<rparr>) tag attrs cs matching allowed
    = filled (fr\<lparr> fr_submitted := Some t \<rparr>) tag attrs cs matching allowed"
  using replay_control_agree [OF assms] by (simp add: filled_def fill_element_def show_error_def mark_invalid_def)

lemma element_scope_submitted: "element_scope (fr\<lparr> fr_submitted := x \<rparr>) = element_scope fr"
  by (intro ext) (simp add: element_scope_def posts_to_def split: option.split)

lemma apply_node_agree:
  assumes "agree_on (set allowed \<union> retained_in n) s t"
  shows "apply_node (fr\<lparr> fr_submitted := Some s \<rparr>) matching allowed n
    = apply_node (fr\<lparr> fr_submitted := Some t \<rparr>) matching allowed n"
  using assms
proof (induction "node_height n" arbitrary: n matching allowed rule: less_induct)
  case less
  show ?case
  proof (cases n)
    case (NodeElement tag attrs cs)
    obtain m a where scope: "element_scope fr tag attrs matching allowed = (m, a)" by force
    then have sub: "set a \<subseteq> set allowed \<union> retained_in n"
      by (auto simp: NodeElement element_scope_def split: if_splits)
    obtain attrs' cs' where f: "filled (fr\<lparr> fr_submitted := Some t \<rparr>) tag attrs cs m a = (attrs', cs')" by force
    have eq: "filled (fr\<lparr> fr_submitted := Some s \<rparr>) tag attrs cs m a = (attrs', cs')"
    proof -
      have "agree_on (set a) s t" using sub less.prems by (auto simp: agree_on_def)
      from filled_agree [OF this] f show ?thesis by simp
    qed
    have "apply_node (fr\<lparr> fr_submitted := Some s \<rparr>) m a c = apply_node (fr\<lparr> fr_submitted := Some t \<rparr>) m a c"
      if c: "c \<in> set cs'" for c
    proof (rule less.hyps)
      from c f show "node_height c < node_height n" using filled_height NodeElement by (metis snd_conv)
      have "retained_in c \<subseteq> retained_in n" using retained_filled c f NodeElement by (metis snd_conv)
      then show "agree_on (set a \<union> retained_in c) s t" using less.prems sub by (auto simp: agree_on_def)
    qed
    then show ?thesis by (simp add: NodeElement element_scope_submitted scope f eq)
  qed simp_all
qed

subsection \<open>Other forms, and the tree\<close>

lemma apply_node_idle:
  "\<not> has_form_of fr n \<Longrightarrow> apply_node fr False allowed n = n"
proof (induction n arbitrary: allowed)
  case (NodeElement tag attrs cs)
  then have "element_scope fr tag attrs False allowed = (False, if tag = ''form'' then retained_names attrs else allowed)"
    by (auto simp: element_scope_def)
  with NodeElement show ?case by (auto simp: filled_def list_ex_iff intro!: map_idI)
qed auto

lemma list_all_set_attr: "list_all P (set_attr name v attrs) \<longleftrightarrow> list_all P (drop_attr name attrs) \<and> P (attr name v)"
  by (simp add: set_attr_def)

lemma list_all_drop_attr: "list_all P attrs \<Longrightarrow> list_all P (drop_attr name attrs)"
  by (auto simp: drop_attr_def list_all_iff)

lemma replay_names:
  "valid_name ''checked''" "valid_name ''value''" "valid_name ''selected''" "valid_name ''data-ax-retained''"
  "valid_name ''aria-live''" "valid_name ''aria-invalid''" "valid_name ''option''" "valid_name ''optgroup''"
  by (simp_all add: valid_name_def name_char_def is_alphanumeric_def is_digit_def code_def)

lemmas names_kept = list_all_set_attr list_all_drop_attr replay_names attr_def

lemma select_option_ok: "node_ok n \<Longrightarrow> node_ok (select_option v n)"
proof (induction n)
  case (NodeElement tag attrs cs)
  then have "list_all node_ok (map (select_option v) cs)" by (simp add: list_all_iff)
  with NodeElement.prems show ?case by (simp add: names_kept)
qed auto

definition parts_ok :: "ax_attribute list \<times> ax_node list \<Rightarrow> bool" where
  "parts_ok p = (list_all (\<lambda>a. valid_name (attr_name a)) (fst p) \<and> list_all node_ok (snd p))"

lemma replay_input_ok:
  "list_all (\<lambda>a. valid_name (attr_name a)) attrs \<Longrightarrow> list_all (\<lambda>a. valid_name (attr_name a)) (replay_input attrs v)"
  by (simp add: replay_input_def Let_def names_kept split: option.split)

lemma select_options_ok: "list_all node_ok cs \<Longrightarrow> list_all node_ok (select_options cs v)"
  by (induction cs) (simp_all add: select_options_def select_option_ok)

lemma replay_control_ok: "parts_ok (attrs, cs) \<Longrightarrow> parts_ok (replay_control tag attrs cs allowed s)"
  by (simp add: parts_ok_def replay_control_def Let_def replay_input_ok select_options_ok names_kept split: option.split)

lemma filled_ok: "parts_ok (attrs, cs) \<Longrightarrow> parts_ok (filled fr tag attrs cs matching allowed)"
proof -
  assume a: "parts_ok (attrs, cs)"
  let ?p = "case fr_submitted fr of Some submitted \<Rightarrow> replay_control tag attrs cs allowed submitted | None \<Rightarrow> (attrs, cs)"
  have "parts_ok ?p" using a replay_control_ok by (auto split: option.splits)
  then have "parts_ok (show_error fr (fst ?p) (snd ?p))"
    by (auto simp: show_error_def parts_ok_def names_kept split: option.splits)
  with a show ?thesis
    by (auto simp: filled_def fill_element_def split_def Let_def mark_invalid_def parts_ok_def names_kept)
qed

lemma apply_node_ok: "node_ok n \<Longrightarrow> node_ok (apply_node fr matching allowed n)"
proof (induction "node_height n" arbitrary: n matching allowed rule: less_induct)
  case less
  show ?case
  proof (cases n)
    case (NodeElement tag attrs cs)
    obtain m a where scope: "element_scope fr tag attrs matching allowed = (m, a)" by force
    obtain attrs' cs' where f: "filled fr tag attrs cs m a = (attrs', cs')" by force
    have p: "parts_ok (attrs', cs')"
      using filled_ok [of attrs cs fr tag m a] less.prems f by (simp add: NodeElement parts_ok_def)
    have "node_ok (apply_node fr m a c)" if c: "c \<in> set cs'" for c
    proof (rule less.hyps)
      from c f show "node_height c < node_height n" using filled_height NodeElement by (metis snd_conv)
      from c p show "node_ok c" by (simp add: parts_ok_def list_all_iff)
    qed
    with less.prems p show ?thesis by (simp add: NodeElement scope f parts_ok_def list_all_iff)
  qed (use less.prems in simp_all)
qed

subsection \<open>The values that are kept\<close>

definition same_but_secrets :: "string \<Rightarrow> string \<Rightarrow> bool" where
  "same_but_secrets p q =
     (p = q \<or> p \<noteq> [] \<and> q \<noteq> [] \<and> fst (replay_pair p) = fst (replay_pair q) \<and> \<not> safe_replay_name (url_decode (fst (replay_pair p))))"

lemma replay_values_same:
  "list_all2 same_but_secrets ps qs \<Longrightarrow> replay_values i ps m = replay_values i qs m"
proof (induction ps qs arbitrary: i m rule: list_all2_induct)
  case (Cons p ps q qs)
  then show ?case by (auto simp: same_but_secrets_def split_def Let_def)
qed simp

lemma replay_values_safe:
  "replay_values i ps m = Some s \<Longrightarrow> (\<And>n. bm_get m n \<noteq> None \<Longrightarrow> safe_replay_name n) \<Longrightarrow> bm_get s n \<noteq> None \<Longrightarrow> safe_replay_name n"
proof (induction ps arbitrary: i m)
  case (Cons p ps)
  obtain a v where p: "replay_pair p = (a, v)" by force
  show ?case
  proof (cases "safe_replay_name (url_decode a)")
    case True
    with Cons.prems(1) p have "replay_values (i + 1) ps (bm_insert (url_decode a) (url_decode v) m) = Some s"
      by (simp add: Let_def split: if_splits)
    then show ?thesis
    proof (rule Cons.IH [OF _ _ Cons.prems(3)])
      fix k assume "bm_get (bm_insert (url_decode a) (url_decode v) m) k \<noteq> None"
      with True Cons.prems(2) [of k] show "safe_replay_name k" by (cases "k = url_decode a") auto
    qed
  next
    case False
    with Cons.prems(1) p have "replay_values (i + 1) ps m = Some s" by (simp add: Let_def split: if_splits)
    then show ?thesis by (rule Cons.IH [OF _ Cons.prems(2,3)])
  qed
qed simp

lemma split_join_pairs:
  assumes "ps \<noteq> []" and "\<And>p. p \<in> set ps \<Longrightarrow> c \<notin> set p"
  shows "split_on c (join_with [c] ps) = ps"
  using assms by (induction "[c]" ps rule: join_with.induct) (simp_all add: split_on_absent split_on_append)

lemma filter_same:
  "list_all2 same_but_secrets ps qs \<Longrightarrow> list_all2 same_but_secrets (filter (\<lambda>p. p \<noteq> []) ps) (filter (\<lambda>p. p \<noteq> []) qs)"
  by (induction ps qs rule: list_all2_induct) (auto simp: same_but_secrets_def)

definition form_pairs :: "string list \<Rightarrow> bool" where
  "form_pairs ps = (ps \<noteq> [] \<and> list_all (\<lambda>p. CHR ''&'' \<notin> set p) ps \<and> utf8_ok (join_with ''&'' ps)
     \<and> length (join_with ''&'' ps) \<le> max_replay_body_bytes)"

lemma form_pairs_split: "form_pairs ps \<Longrightarrow> split_on (CHR ''&'') (join_with ''&'' ps) = ps"
  by (auto simp: form_pairs_def list_all_iff intro!: split_join_pairs)

lemma same_request_values:
  assumes "form_pairs ps" "form_pairs qs" "list_all2 same_but_secrets ps qs"
  shows "with_request_values (r\<lparr> req_body := join_with ''&'' ps \<rparr>) fr = with_request_values (r\<lparr> req_body := join_with ''&'' qs \<rparr>) fr"
proof -
  have "form_body (r\<lparr> req_body := join_with ''&'' ps \<rparr>) = form_body (r\<lparr> req_body := join_with ''&'' qs \<rparr>)"
    using assms(1,2) by (simp add: form_body_def form_pairs_def header_value_def)
  then show ?thesis
    using assms(1,2) replay_values_same [OF filter_same [OF assms(3)], of 0 "[]"]
    by (simp add: with_request_values_def form_pairs_split form_pairs_def)
qed

text \<open>C31. Two submissions of a form that differ only in the values of controls whose names are not
  safe to replay (a password, a token, the hidden fields of the framework) give the same page: no
  such value reaches what is shown after a refused action.\<close>

theorem secrets_never_replayed:
  assumes "form_pairs ps" "form_pairs qs" "list_all2 same_but_secrets ps qs"
  shows "apply_to_node (with_request_values (r\<lparr> req_body := join_with ''&'' ps \<rparr>) fr) n
    = apply_to_node (with_request_values (r\<lparr> req_body := join_with ''&'' qs \<rparr>) fr) n"
  by (simp only: same_request_values [OF assms])

text \<open>What a page shows of a submission depends only on the values of the names its forms list for
  retention, and these names are safe to replay; a page without a form of the refused action is not
  changed; and a filled page is still read back from its HTML as exactly its own elements,
  attributes and characters, so that replayed values stay data.\<close>

theorem replay_confined:
  assumes "agree_on (retained_in n) s t" and "node_ok n"
  shows "apply_to_node (fr\<lparr> fr_submitted := Some s \<rparr>) n = apply_to_node (fr\<lparr> fr_submitted := Some t \<rparr>) n
    \<and> (\<forall>x \<in> retained_in n. safe_replay_name x)
    \<and> (has_form_of fr n \<or> apply_to_node fr n = n)
    \<and> read_html (render_node (apply_to_node fr n))
        = Some (node_tokens [TokComment ''axonyx:csrf-field''] (apply_to_node fr n))"
  using apply_node_agree [of "[]" n s t fr False] assms apply_node_idle [of fr n "[]"] retained_in_safe
    rendered_text_is_data [OF apply_node_ok [OF assms(2)], of fr False "[]"]
  by (auto simp: apply_to_node_def)

text \<open>The request that re-reads a page after a mutation is a GET without a body, an upload or any
  header of the payload or its token, in any letter case, and answers every other header lookup as the
  mutation request did, its cookies included.\<close>

theorem page_read_drops_payload:
  assumes "bm_ok (req_headers r)"
  shows "req_method (page_read_request r target) = ''GET'' \<and> req_target (page_read_request r target) = target
    \<and> req_body (page_read_request r target) = [] \<and> req_multipart (page_read_request r target) = None
    \<and> header_value (page_read_request r target) name
        = (if list_ex (eq_ignore_case name) payload_headers then None else header_value r name)"
proof -
  let ?keep = "\<lambda>h. \<not> list_ex (eq_ignore_case h) payload_headers"
  have same: "eq_ignore_case h name \<Longrightarrow> ?keep h = ?keep name" for h
    by (simp add: eq_ignore_case_def [abs_def])
  have find: "List.find (\<lambda>(h, _). eq_ignore_case h name) (filter (\<lambda>(h, _). ?keep h) hs)
      = (if ?keep name then List.find (\<lambda>(h, _). eq_ignore_case h name) hs else None)" for hs :: "(string, string) bmap"
  proof (induction hs)
    case (Cons p hs)
    then show ?case using same [of "fst p"] by (cases p; cases "eq_ignore_case (fst p) name") simp_all
  qed simp
  have "bm_ok (filter (\<lambda>(h, _). ?keep h) (req_headers r))"
    using assms unfolding bm_ok_def by (intro conjI sorted_filter distinct_map_filter) simp_all
  then have hs: "req_headers (page_read_request r target) = filter (\<lambda>(h, _). ?keep h) (req_headers r)"
    by (simp add: page_read_request_def bm_of_list_sorted)
  have "header_value (page_read_request r target) name = (if ?keep name then header_value r name else None)"
    unfolding header_value_def find_header_def hs find by simp
  then show ?thesis by (simp add: page_read_request_def http_request_new_def)
qed

subsection \<open>Instances\<close>

definition demo_result :: form_result where
  "demo_result = \<lparr> fr_action = ''Save'', fr_route = ''/'', fr_status = 422,
     fr_fields = [(''title'', ''Title is required'')], fr_submitted = None \<rparr>"

definition demo_save_request :: http_request where
  "demo_save_request = (http_request_new ''POST'' ''/__axonyx/action?name=Save'')
     \<lparr> req_headers := [(''Content-Type'', ''application/x-www-form-urlencoded''), (''Cookie'', ''a=b''), (''X-Axonyx-CSRF'', ''t'')] \<rparr>"

definition demo_save_form :: ax_node where
  "demo_save_form = NodeElement ''form''
     [attr ''action'' ''/__axonyx/action?name=Save'', attr ''data-ax-retain-fields'' ''title,password'']
     [NodeElement ''input'' [attr ''name'' ''title''] [], NodeElement ''input'' [attr ''name'' ''password''] []]"

lemma demo_pairs:
  "form_pairs [''title=a+b'', ''password=x'']" "form_pairs [''title=a+b'', ''password=other'']"
  "list_all2 same_but_secrets [''title=a+b'', ''password=x''] [''title=a+b'', ''password=other'']"
proof -
  have "\<not> safe_replay_name (url_decode ''password'')" by code_simp
  then show "list_all2 same_but_secrets [''title=a+b'', ''password=x''] [''title=a+b'', ''password=other'']"
    by (simp add: same_but_secrets_def replay_pair_def)
qed (simp_all add: form_pairs_def max_replay_body_bytes_def utf8_ok_ascii is_ascii_def code_def)

theorem secrets_never_replayed_witness:
  "apply_to_node (with_request_values (demo_save_request\<lparr> req_body := join_with ''&'' [''title=a+b'', ''password=x''] \<rparr>) demo_result) demo_save_form
    = apply_to_node (with_request_values (demo_save_request\<lparr> req_body := join_with ''&'' [''title=a+b'', ''password=other''] \<rparr>) demo_result) demo_save_form"
  by (rule secrets_never_replayed [OF demo_pairs])

theorem replay_confined_witness:
  "apply_to_node (demo_result\<lparr> fr_submitted := Some [(''title'', ''a'')] \<rparr>) demo_save_form
    = apply_to_node (demo_result\<lparr> fr_submitted := Some [(''password'', ''x''), (''title'', ''a'')] \<rparr>) demo_save_form"
proof -
  have "\<not> safe_replay_name ''password''" by code_simp
  then have "''password'' \<notin> retained_in demo_save_form" using retained_in_safe by blast
  then have "agree_on (retained_in demo_save_form) [(''title'', ''a'')] [(''password'', ''x''), (''title'', ''a'')]"
    by (auto simp: agree_on_def bm_get_def)
  moreover have "node_ok demo_save_form"
    by (simp add: demo_save_form_def attr_def valid_name_def name_char_def is_alphanumeric_def is_digit_def code_def)
  ultimately show ?thesis using replay_confined by blast
qed

theorem page_read_drops_payload_witness:
  "header_value (page_read_request demo_save_request ''/'') ''x-axonyx-CSRF'' = None
    \<and> header_value (page_read_request demo_save_request ''/'') ''cookie'' = Some ''a=b''"
proof -
  have "bm_ok (req_headers demo_save_request)" by code_simp
  note reads = page_read_drops_payload [OF this, of "''/''"]
  have "list_ex (eq_ignore_case ''x-axonyx-CSRF'') payload_headers" "\<not> list_ex (eq_ignore_case ''cookie'') payload_headers"
    "header_value demo_save_request ''cookie'' = Some ''a=b''" by code_simp+
  with reads [of "''x-axonyx-CSRF''"] reads [of "''cookie''"] show ?thesis by simp
qed

end
