(* ===== verification/Query_Plan.thy ===== *)
theory Query_Plan
  imports Ax_Expr
begin

section \<open>Query specifications and their lowering\<close>

text \<open>
  \<open>axonyx-core/src/ax_query_ast.rs\<close>, the specification of a query and its builder, and the
  part of \<open>ax_backend_lowering.rs\<close> that lowers a query: the plan, with every expression
  rendered to Rust source by \<open>render_expr\<close>. Rust's \<open>Debug\<close> forms of strings and floats are
  written out; the Unicode tables that decide which non-ASCII characters \<open>Debug\<close> prints as they
  are is the argument \<open>printable\<close>.
\<close>

subsection \<open>Query specifications\<close>

datatype query_source =
    QsStream string
  | QsContentCollection string
  | QsRawSql string "ax_expr list"

datatype query_mode = QmMany | QmFirst

datatype query_filter_op = FoEq | FoNe | FoIn | FoNotIn | FoIsNull | FoIsNotNull

datatype query_direction = DirAsc | DirDesc

record query_filter =
  qf_field :: string
  qf_op :: query_filter_op
  qf_value :: ax_expr

record query_order =
  qo_field :: string
  qo_direction :: query_direction

record query_join_column =
  jc_source :: string
  jc_target :: string

record query_join =
  qj_collection :: string
  qj_columns :: "query_join_column list"

record query_spec =
  qs_source :: query_source
  qs_joins :: "query_join list"
  qs_filters :: "query_filter list"
  qs_orders :: "query_order list"
  qs_limit :: "nat option"
  qs_offset :: "nat option"
  qs_mode :: query_mode

definition query_new :: "query_source \<Rightarrow> query_spec" where
  "query_new source = \<lparr> qs_source = source, qs_joins = [], qs_filters = [], qs_orders = [], qs_limit = None,
     qs_offset = None, qs_mode = QmMany \<rparr>"

definition query_with_join :: "query_join \<Rightarrow> query_spec \<Rightarrow> query_spec" where
  "query_with_join j q = q\<lparr> qs_joins := qs_joins q @ [j] \<rparr>"

definition query_with_filter :: "query_filter \<Rightarrow> query_spec \<Rightarrow> query_spec" where
  "query_with_filter f q = q\<lparr> qs_filters := qs_filters q @ [f] \<rparr>"

definition query_with_order :: "query_order \<Rightarrow> query_spec \<Rightarrow> query_spec" where
  "query_with_order d q = q\<lparr> qs_orders := qs_orders q @ [d] \<rparr>"

definition query_with_limit :: "nat \<Rightarrow> query_spec \<Rightarrow> query_spec" where
  "query_with_limit n q = q\<lparr> qs_limit := Some n \<rparr>"

definition query_with_offset :: "nat \<Rightarrow> query_spec \<Rightarrow> query_spec" where
  "query_with_offset n q = q\<lparr> qs_offset := Some n \<rparr>"

definition query_first :: "query_spec \<Rightarrow> query_spec" where
  "query_first q = q\<lparr> qs_mode := QmFirst,
     qs_limit := (case qs_limit q of Some n \<Rightarrow> Some n | None \<Rightarrow> Some 1) \<rparr>"

subsection \<open>Rust source of an expression\<close>

text \<open>\<open>Debug\<close> of a string: quoted, with the escapes of \<open>char::escape_debug\<close>.\<close>

definition unicode_escape :: "nat \<Rightarrow> string" where
  "unicode_escape n = CHR 0x5C # CHR ''u'' # CHR 0x7B # show_hex n @ [CHR 0x7D]"

definition debug_chunk :: "(nat \<Rightarrow> bool) \<Rightarrow> nat option \<times> string \<Rightarrow> string" where
  "debug_chunk printable p =
     (case p of (cp, raw) \<Rightarrow>
        let n = (case cp of Some n \<Rightarrow> n | None \<Rightarrow> 65533) in
        if n = 0 then [CHR 0x5C, CHR ''0'']
        else if n = 9 then [CHR 0x5C, CHR ''t'']
        else if n = 13 then [CHR 0x5C, CHR ''r'']
        else if n = 10 then [CHR 0x5C, CHR ''n'']
        else if n = 92 then [CHR 0x5C, CHR 0x5C]
        else if n = 34 then [CHR 0x5C, CHR 0x22]
        else if n < 128 then (if 32 \<le> n \<and> n < 127 then raw else unicode_escape n)
        else if printable n then raw else unicode_escape n)"

definition debug_str :: "(nat \<Rightarrow> bool) \<Rightarrow> string \<Rightarrow> string" where
  "debug_str printable s = CHR 0x22 # concat (map (debug_chunk printable) (utf8_split s)) @ [CHR 0x22]"

text \<open>\<open>Debug\<close> of a finite \<open>f64\<close>: as \<open>Display\<close> with at least one decimal, and with an
  exponent from \<open>1e16\<close> on and below \<open>1e-4\<close>.\<close>

definition debug_f64 :: "f64 \<Rightarrow> string" where
  "debug_f64 b =
     (let plain = show_f64 b in
      if is_nan b \<or> is_inf b then plain
      else if f64_is_zero b then plain @ ''.0''
      else case shortest_digits b [1..<18] of (c, e) \<Rightarrow>
        (case strip_zeros 17 c e of (c', e') \<Rightarrow>
           let ds = show_nat c'; p = int (length ds) + e' in
           if 17 \<le> p \<or> p \<le> -4 then
             (if f64_sign b then ''-'' else []) @ take 1 ds
               @ (if length ds = 1 then [] else ''.'' @ drop 1 ds) @ ''e'' @ show_int (p - 1)
           else if CHR ''.'' \<in> set plain then plain else plain @ ''.0''))"

fun expr_member_path :: "ax_expr \<Rightarrow> string list option" where
  "expr_member_path (ExIdentifier name) = Some [name]"
| "expr_member_path (ExMember object property) = map_option (\<lambda>p. p @ [property]) (expr_member_path object)"
| "expr_member_path (ExOptionalMember object property) = map_option (\<lambda>p. p @ [property]) (expr_member_path object)"
| "expr_member_path _ = None"

definition env_access :: "(nat \<Rightarrow> bool) \<Rightarrow> string \<Rightarrow> string \<Rightarrow> string" where
  "env_access printable accessor key = ''runtime.env().'' @ accessor @ ''('' @ debug_str printable key @ '')?''"

definition try_render_runtime_env :: "(nat \<Rightarrow> bool) \<Rightarrow> ax_expr \<Rightarrow> string option" where
  "try_render_runtime_env printable e =
     (case expr_member_path e of
        Some [a, key] \<Rightarrow> if a = ''env'' then Some (env_access printable ''value'' key) else None
      | Some [a, b, c, key] \<Rightarrow>
          if a = ''Runtime'' \<and> b = ''Env'' \<and> c = ''public'' then Some (env_access printable ''public'' key)
          else if a = ''Runtime'' \<and> b = ''Env'' \<and> c = ''secret'' then Some (env_access printable ''secret'' key)
          else None
      | _ \<Rightarrow> None)"

definition try_render_auth :: "ax_expr \<Rightarrow> string option" where
  "try_render_auth e =
     (case expr_member_path e of
        Some [a, b] \<Rightarrow>
          if a = ''Auth'' \<and> b \<in> {''bearer'', ''session'', ''signedSession'', ''subject''}
          then Some (''Auth.'' @ b) else None
      | _ \<Rightarrow> None)"

fun render_unary_op :: "ax_unary_op \<Rightarrow> string" where
  "render_unary_op OpNot = ''!''"
| "render_unary_op OpNeg = ''-''"

fun render_binary_op :: "ax_binary_op \<Rightarrow> string" where
  "render_binary_op OpAdd = ''+''"
| "render_binary_op OpSub = ''-''"
| "render_binary_op OpMul = ''*''"
| "render_binary_op OpDiv = ''/''"
| "render_binary_op OpRem = ''%''"
| "render_binary_op OpEq = ''==''"
| "render_binary_op OpNe = ''!=''"
| "render_binary_op OpGt = ''>''"
| "render_binary_op OpGe = ''>=''"
| "render_binary_op OpLt = ''<''"
| "render_binary_op OpLe = ''<=''"
| "render_binary_op OpIn = ''in''"
| "render_binary_op OpAnd = ''&&''"
| "render_binary_op OpOr = ''||''"
| "render_binary_op OpFallback = ''??''"

definition index_object_needs_grouping :: "ax_expr \<Rightarrow> bool" where
  "index_object_needs_grouping e = (case e of ExBinary _ _ _ \<Rightarrow> True | ExUnary _ _ \<Rightarrow> True | _ \<Rightarrow> False)"

text \<open>The rendering of a node from the renderings of its parts: the body of \<open>render_expr\<close> after
  the two special forms. \<open>l\<close> and \<open>r\<close> are the operands of a binary expression.\<close>

definition render_null_test :: "ax_binary_op \<Rightarrow> string \<Rightarrow> string" where
  "render_null_test op operand =
     (if op = OpNe then ''(!__ax_is_null(&('' @ operand @ ''))?)''
      else ''__ax_is_null(&('' @ operand @ ''))?'')"

definition render_binary :: "ax_binary_op \<Rightarrow> ax_expr \<Rightarrow> ax_expr \<Rightarrow> string \<Rightarrow> string \<Rightarrow> string" where
  "render_binary op left right l r =
     (if op \<in> {OpEq, OpNe} \<and> right = ExIdentifier ''null'' then render_null_test op l
      else if op \<in> {OpEq, OpNe} \<and> left = ExIdentifier ''null'' then render_null_test op r
      else if op = OpAdd then ''__ax_add(&('' @ l @ ''), &('' @ r @ ''))''
      else if op = OpFallback then ''('' @ l @ '').unwrap_or('' @ r @ '')''
      else if op = OpIn then ''contains('' @ r @ '', '' @ l @ '')''
      else ''('' @ l @ '' '' @ render_binary_op op @ '' '' @ r @ '')'')"

function (sequential) render_expr :: "(nat \<Rightarrow> bool) \<Rightarrow> ax_expr \<Rightarrow> string" where
  "render_expr pr e =
     (case try_render_runtime_env pr e of
        Some s \<Rightarrow> s
      | None \<Rightarrow>
      (case try_render_auth e of
         Some s \<Rightarrow> s
       | None \<Rightarrow>
       (case e of
          ExString v \<Rightarrow> debug_str pr v @ ''.to_string()''
        | ExNumber v \<Rightarrow> show_int (sint v)
        | ExFloat v \<Rightarrow> debug_f64 v @ ''_f64''
        | ExBool v \<Rightarrow> (if v then ''true'' else ''false'')
        | ExList items \<Rightarrow> ''vec!['' @ join_with '', '' (map (render_expr pr) items) @ '']''
        | ExObject fs \<Rightarrow> ''json!('' @ [CHR 0x7B]
            @ join_with '', '' (map (\<lambda>(name, v). debug_str pr name @ '': '' @ render_expr pr v) fs) @ [CHR 0x7D] @ '')''
        | ExIdentifier name \<Rightarrow> (if name = ''null'' then ''serde_json::Value::Null'' else name)
        | ExUnary op a \<Rightarrow> ''('' @ render_unary_op op @ render_expr pr a @ '')''
        | ExBinary op a b \<Rightarrow> render_binary op a b (render_expr pr a) (render_expr pr b)
        | ExIndex object index \<Rightarrow>
            (let v = render_expr pr object in
             (if index_object_needs_grouping object then ''('' @ v @ '')'' else v)
             @ ''['' @ render_expr pr index @ '']'')
        | ExMember object property \<Rightarrow>
            (if property = ''length'' then ''__ax_length(&('' @ render_expr pr object @ ''))?''
             else render_expr pr object @ ''.'' @ property)
        | ExOptionalMember object property \<Rightarrow>
            ''__ax_optional_member('' @ render_expr pr object @ '', '' @ debug_str pr property @ '')''
        | ExCall path args \<Rightarrow>
            (let rendered = join_with '', '' (map (render_expr pr) args) in
             if path = [''list''] then ''vec!['' @ rendered @ '']''
             else join_with ''::'' path @ ''('' @ rendered @ '')''))))"
  by pat_completeness auto
termination
  by (relation "measure (\<lambda>(pr, e). size e)")
    (auto dest: size_list_estimation' size_field_less simp: less_Suc_eq_le)

declare render_expr.simps [simp del]

subsection \<open>Plans\<close>

record query_filter_plan =
  fp_field :: string
  fp_op :: query_filter_op
  fp_value :: string

datatype query_source_plan =
    SpStream string
  | SpContentCollection string
  | SpRawSql string "string list"

record query_plan =
  qp_source :: query_source_plan
  qp_joins :: "query_join list"
  qp_filters :: "query_filter_plan list"
  qp_orders :: "query_order list"
  qp_limit :: "nat option"
  qp_offset :: "nat option"
  qp_mode :: query_mode

record assignment_plan =
  ap_name :: string
  ap_value :: string

definition lower_assignments :: "(nat \<Rightarrow> bool) \<Rightarrow> (string \<times> ax_expr) list \<Rightarrow> assignment_plan list" where
  "lower_assignments pr fs = map (\<lambda>(name, v). \<lparr> ap_name = name, ap_value = render_expr pr v \<rparr>) fs"

fun lower_source :: "(nat \<Rightarrow> bool) \<Rightarrow> query_source \<Rightarrow> query_source_plan" where
  "lower_source pr (QsStream c) = SpStream c"
| "lower_source pr (QsContentCollection c) = SpContentCollection c"
| "lower_source pr (QsRawSql sql params) = SpRawSql sql (map (render_expr pr) params)"

definition lower_filter :: "(nat \<Rightarrow> bool) \<Rightarrow> query_filter \<Rightarrow> query_filter_plan" where
  "lower_filter pr f = \<lparr> fp_field = qf_field f, fp_op = qf_op f, fp_value = render_expr pr (qf_value f) \<rparr>"

definition lower_query :: "(nat \<Rightarrow> bool) \<Rightarrow> query_spec \<Rightarrow> query_plan" where
  "lower_query pr q = \<lparr> qp_source = lower_source pr (qs_source q), qp_joins = qs_joins q,
     qp_filters = map (lower_filter pr) (qs_filters q), qp_orders = qs_orders q, qp_limit = qs_limit q,
     qp_offset = qs_offset q, qp_mode = qs_mode q \<rparr>"

end
