(* ===== verification/Login_Throttle.thy ===== *)
theory Login_Throttle
  imports Http "HOL-Library.AList"
begin

section \<open>Admission control before a login\<close>

text \<open>
  \<open>axonyx-runtime/src/login_throttle.rs\<close>. The buckets are a map from key digests to the start
  of a window and the attempts in it, kept as the list of its entries (the \<open>HashMap\<close> is only
  read by key and through the minimum of its values). Instants and durations are natural
  numbers, subtraction saturates as in the source. The hash \<open>digest\<close> is an argument; a poisoned
  lock is the flag \<open>throttle_poisoned\<close>.
\<close>

definition max_key_bytes :: nat where
  "max_key_bytes = 1024"

definition account_key :: "(bytes \<Rightarrow> bytes) \<Rightarrow> string \<Rightarrow> string" where
  "account_key digest email = ''account:'' @ hex_encode (digest (to_lower email))"

datatype throttle_error = InvalidConfiguration | InvalidKey | Limited nat | Unavailable

record bucket =
  bucket_start :: nat
  bucket_attempts :: nat

record login_throttle =
  throttle_attempts :: nat
  throttle_window :: nat
  throttle_max_keys :: nat
  throttle_buckets :: "(bytes \<times> bucket) list"
  throttle_poisoned :: bool

definition throttle_new :: "nat \<Rightarrow> nat \<Rightarrow> nat \<Rightarrow> throttle_error + login_throttle" where
  "throttle_new attempts window max_keys =
     (if attempts = 0 \<or> window = 0 \<or> max_keys = 0 then Inl InvalidConfiguration
      else Inr \<lparr> throttle_attempts = attempts, throttle_window = window, throttle_max_keys = max_keys,
                 throttle_buckets = [], throttle_poisoned = False \<rparr>)"

definition retry_after :: "nat \<Rightarrow> nat \<Rightarrow> bucket \<Rightarrow> nat" where
  "retry_after window now b = window - (now - bucket_start b)"

definition min_retry :: "nat \<Rightarrow> nat \<Rightarrow> (bytes \<times> bucket) list \<Rightarrow> nat" where
  "min_retry window now bs =
     (case map (\<lambda>(k, b). retry_after window now b) bs of [] \<Rightarrow> window | r # rs \<Rightarrow> foldl min r rs)"

definition acquire_at :: "(bytes \<Rightarrow> bytes) \<Rightarrow> string \<Rightarrow> nat \<Rightarrow> login_throttle \<Rightarrow> (throttle_error + unit) \<times> login_throttle" where
  "acquire_at digest key now t =
     (if key = [] \<or> max_key_bytes < length key then (Inl InvalidKey, t)
      else if throttle_poisoned t then (Inl Unavailable, t)
      else
        let d = digest key;
            live = filter (\<lambda>(k, b). now - bucket_start b < throttle_window t) (throttle_buckets t);
            t' = t\<lparr> throttle_buckets := live \<rparr>
        in case map_of live d of
             Some b \<Rightarrow>
               if throttle_attempts t \<le> bucket_attempts b then (Inl (Limited (retry_after (throttle_window t) now b)), t')
               else (Inr (), t\<lparr> throttle_buckets :=
                       AList.update d (b\<lparr> bucket_attempts := bucket_attempts b + 1 \<rparr>) live \<rparr>)
           | None \<Rightarrow>
               if throttle_max_keys t \<le> length live then (Inl (Limited (min_retry (throttle_window t) now live)), t')
               else (Inr (), t\<lparr> throttle_buckets := (d, \<lparr> bucket_start = now, bucket_attempts = 1 \<rparr>) # live \<rparr>))"

text \<open>A sequence of attempts, each with its key and its time.\<close>

fun acquire_all :: "(bytes \<Rightarrow> bytes) \<Rightarrow> (string \<times> nat) list \<Rightarrow> login_throttle \<Rightarrow> (throttle_error + unit) list \<times> login_throttle" where
  "acquire_all digest [] t = ([], t)"
| "acquire_all digest ((key, now) # rs) t =
     (case acquire_at digest key now t of
        (r, t1) \<Rightarrow> (case acquire_all digest rs t1 of (out, t2) \<Rightarrow> (r # out, t2)))"

definition admitted :: "(bytes \<Rightarrow> bytes) \<Rightarrow> bytes \<Rightarrow> (string \<times> nat) list \<Rightarrow> (throttle_error + unit) list \<Rightarrow> nat" where
  "admitted digest d rs out = length (filter (\<lambda>((key, now), r). digest key = d \<and> r = Inr ()) (zip rs out))"

subsection \<open>The state stays bounded\<close>

definition throttle_ok :: "login_throttle \<Rightarrow> bool" where
  "throttle_ok t =
     (0 < throttle_attempts t \<and> 0 < throttle_window t \<and> 0 < throttle_max_keys t
      \<and> distinct (map fst (throttle_buckets t)) \<and> length (throttle_buckets t) \<le> throttle_max_keys t
      \<and> (\<forall>(d, b) \<in> set (throttle_buckets t). 1 \<le> bucket_attempts b \<and> bucket_attempts b \<le> throttle_attempts t))"

abbreviation same_limits :: "login_throttle \<Rightarrow> login_throttle \<Rightarrow> bool" where
  "same_limits t t' \<equiv> throttle_attempts t' = throttle_attempts t \<and> throttle_window t' = throttle_window t
     \<and> throttle_max_keys t' = throttle_max_keys t"

definition live_buckets :: "nat \<Rightarrow> login_throttle \<Rightarrow> (bytes \<times> bucket) list" where
  "live_buckets now t = filter (\<lambda>(k, b). now - bucket_start b < throttle_window t) (throttle_buckets t)"

definition refused_key :: "string \<Rightarrow> login_throttle \<Rightarrow> bool" where
  "refused_key key t = (key = [] \<or> max_key_bytes < length key \<or> throttle_poisoned t)"

lemma acquire_refused: "refused_key key t \<Longrightarrow> \<exists>e. (e = InvalidKey \<or> e = Unavailable) \<and> acquire_at digest key now t = (Inl e, t)"
  by (auto simp: refused_key_def acquire_at_def)

lemma acquire_not_refused:
  "\<not> refused_key key t \<Longrightarrow> acquire_at digest key now t =
     (case map_of (live_buckets now t) (digest key) of
        Some b \<Rightarrow>
          if throttle_attempts t \<le> bucket_attempts b
          then (Inl (Limited (retry_after (throttle_window t) now b)), t\<lparr> throttle_buckets := live_buckets now t \<rparr>)
          else (Inr (), t\<lparr> throttle_buckets :=
                 AList.update (digest key) (b\<lparr> bucket_attempts := bucket_attempts b + 1 \<rparr>) (live_buckets now t) \<rparr>)
      | None \<Rightarrow>
          if throttle_max_keys t \<le> length (live_buckets now t)
          then (Inl (Limited (min_retry (throttle_window t) now (live_buckets now t))),
                t\<lparr> throttle_buckets := live_buckets now t \<rparr>)
          else (Inr (), t\<lparr> throttle_buckets :=
                 (digest key, \<lparr> bucket_start = now, bucket_attempts = 1 \<rparr>) # live_buckets now t \<rparr>))"
  unfolding refused_key_def acquire_at_def live_buckets_def Let_def by simp

lemma acquire_at_cases:
  obtains (refused) e where "acquire_at digest key now t = (Inl e, t)" "e = InvalidKey \<or> e = Unavailable" "refused_key key t"
  | (limited) b where "\<not> refused_key key t" "map_of (live_buckets now t) (digest key) = Some b" "throttle_attempts t \<le> bucket_attempts b"
      "acquire_at digest key now t
         = (Inl (Limited (retry_after (throttle_window t) now b)), t\<lparr> throttle_buckets := live_buckets now t \<rparr>)"
  | (counted) b where "\<not> refused_key key t" "map_of (live_buckets now t) (digest key) = Some b" "bucket_attempts b < throttle_attempts t"
      "acquire_at digest key now t = (Inr (), t\<lparr> throttle_buckets :=
         AList.update (digest key) (b\<lparr> bucket_attempts := bucket_attempts b + 1 \<rparr>) (live_buckets now t) \<rparr>)"
  | (full) "\<not> refused_key key t" "map_of (live_buckets now t) (digest key) = None" "throttle_max_keys t \<le> length (live_buckets now t)"
      "acquire_at digest key now t = (Inl (Limited (min_retry (throttle_window t) now (live_buckets now t))),
         t\<lparr> throttle_buckets := live_buckets now t \<rparr>)"
  | (opened) "\<not> refused_key key t" "map_of (live_buckets now t) (digest key) = None" "length (live_buckets now t) < throttle_max_keys t"
      "acquire_at digest key now t = (Inr (), t\<lparr> throttle_buckets :=
         (digest key, \<lparr> bucket_start = now, bucket_attempts = 1 \<rparr>) # live_buckets now t \<rparr>)"
proof (cases "refused_key key t")
  case True
  then show ?thesis using acquire_refused [of key t digest now] refused by blast
next
  case False
  note eq = acquire_not_refused [OF False, of digest now]
  show ?thesis
  proof (cases "map_of (live_buckets now t) (digest key)")
    case None
    then show ?thesis using eq False full opened by (cases "throttle_max_keys t \<le> length (live_buckets now t)") simp_all
  next
    case (Some b)
    then show ?thesis using eq False limited [of b] counted [of b]
      by (cases "throttle_attempts t \<le> bucket_attempts b") simp_all
  qed
qed

lemma live_subset: "set (live_buckets now t) \<subseteq> set (throttle_buckets t)"
  by (auto simp: live_buckets_def)

lemma live_ok:
  assumes "throttle_ok t"
  shows "distinct (map fst (live_buckets now t))" and "length (live_buckets now t) \<le> throttle_max_keys t"
    and "(d, b) \<in> set (live_buckets now t) \<Longrightarrow> 1 \<le> bucket_attempts b \<and> bucket_attempts b \<le> throttle_attempts t"
proof -
  show "distinct (map fst (live_buckets now t))" using assms by (simp add: live_buckets_def throttle_ok_def distinct_map_filter)
  show "length (live_buckets now t) \<le> throttle_max_keys t"
    using assms le_trans [OF length_filter_le] by (auto simp: live_buckets_def throttle_ok_def)
  show "(d, b) \<in> set (live_buckets now t) \<Longrightarrow> 1 \<le> bucket_attempts b \<and> bucket_attempts b \<le> throttle_attempts t"
    using assms live_subset by (fastforce simp: throttle_ok_def)
qed

lemma set_update: "set (AList.update k v al) \<subseteq> insert (k, v) (set al)"
  by (induction al) auto

lemma length_update_Some: "map_of al k \<noteq> None \<Longrightarrow> length (AList.update k v al) = length al"
  by (induction al) auto

lemma acquire_at_ok:
  assumes "throttle_ok t"
  shows "throttle_ok (snd (acquire_at digest key now t)) \<and> same_limits t (snd (acquire_at digest key now t))"
proof (cases rule: acquire_at_cases [of digest key now t])
  case (counted b)
  let ?al = "AList.update (digest key) (b\<lparr> bucket_attempts := bucket_attempts b + 1 \<rparr>) (live_buckets now t)"
  have "\<forall>(d, c) \<in> set ?al. 1 \<le> bucket_attempts c \<and> bucket_attempts c \<le> throttle_attempts t"
    using set_update [of "digest key" _ "live_buckets now t"] live_ok(3) [OF assms] counted(3) by fastforce
  with counted live_ok(1,2) [OF assms, of now] assms distinct_update [of "live_buckets now t"] show ?thesis
    by (simp add: throttle_ok_def length_update_Some)
next
  case opened
  then have "digest key \<notin> fst ` set (live_buckets now t)" by (simp add: map_of_eq_None_iff)
  with opened live_ok [OF assms] assms show ?thesis
    by (fastforce simp: throttle_ok_def)
qed (use assms live_ok [OF assms] in \<open>fastforce simp: throttle_ok_def\<close>)+

lemma acquire_all_ok: "throttle_ok t \<Longrightarrow> throttle_ok (snd (acquire_all digest rs t)) \<and> same_limits t (snd (acquire_all digest rs t))"
proof (induction digest rs t rule: acquire_all.induct)
  case (2 digest key now rs t)
  with acquire_at_ok [OF 2(2), of digest key now] show ?case by (auto split: prod.split)
qed simp

subsection \<open>The budget of a window\<close>

text \<open>What is left for a digest in the window from \<open>T\<close>: a bucket opened before \<open>T\<close> may still run out
  and be replaced.\<close>

definition left :: "nat \<Rightarrow> bucket option \<Rightarrow> nat \<Rightarrow> nat" where
  "left attempts b T =
     (case b of
        None \<Rightarrow> attempts
      | Some b \<Rightarrow> (attempts - bucket_attempts b) + (if T \<le> bucket_start b then 0 else attempts))"

definition room :: "login_throttle \<Rightarrow> bytes \<Rightarrow> nat \<Rightarrow> nat" where
  "room t d T = left (throttle_attempts t) (map_of (throttle_buckets t) d) T"

lemma map_of_filter_snd:
  "distinct (map fst bs) \<Longrightarrow> map_of (filter (\<lambda>(k, b). P b) bs) d =
     (case map_of bs d of Some b \<Rightarrow> if P b then Some b else None | None \<Rightarrow> None)"
proof (induction bs)
  case (Cons p bs)
  have "map_of bs d = None" if "fst p = d" using Cons.prems that by (auto simp: map_of_eq_None_iff)
  with Cons show ?case by (cases p) (auto split: option.splits)
qed simp

lemma map_of_live:
  "throttle_ok t \<Longrightarrow> map_of (live_buckets now t) d =
    (case map_of (throttle_buckets t) d of
       Some b \<Rightarrow> if now - bucket_start b < throttle_window t then Some b else None | None \<Rightarrow> None)"
  unfolding live_buckets_def throttle_ok_def
  using map_of_filter_snd [of "throttle_buckets t" "\<lambda>b. now - bucket_start b < throttle_window t"] by blast

lemma room_live:
  assumes "throttle_ok t" and "T \<le> now" and "now < T + throttle_window t"
  shows "room (t\<lparr> throttle_buckets := live_buckets now t \<rparr>) d T \<le> room t d T"
  using assms(2,3) by (auto simp: room_def left_def map_of_live [OF assms(1)] split: option.split)

lemma acquire_room:
  assumes ok: "throttle_ok t" and now: "T \<le> now" "now < T + throttle_window t"
  shows "of_bool (digest key = d \<and> fst (acquire_at digest key now t) = Inr ()) + room (snd (acquire_at digest key now t)) d T \<le> room t d T"
proof (cases rule: acquire_at_cases [of digest key now t])
  case (counted b)
  note L = room_live [OF ok now, of d]
  show ?thesis
  proof (cases "digest key = d")
    case True
    with counted(2) have "map_of (throttle_buckets t) d = Some b"
      by (auto simp: map_of_live [OF ok] split: option.splits if_splits)
    with True counted(3,4) show ?thesis by (auto simp: room_def left_def update_conv')
  next
    case False
    with counted L show ?thesis by (simp add: room_def update_conv')
  qed
next
  case opened
  note L = room_live [OF ok now, of d]
  have "1 \<le> throttle_attempts t" using ok by (simp add: throttle_ok_def)
  with opened L now show ?thesis by (auto simp: room_def left_def)
qed (use room_live [OF ok now, of d] in simp_all)

lemma admitted_room:
  assumes "throttle_ok t" and "\<forall>(key, now) \<in> set rs. T \<le> now \<and> now < T + throttle_window t"
  shows "admitted digest d rs (fst (acquire_all digest rs t)) \<le> room t d T"
  using assms
proof (induction digest rs t rule: acquire_all.induct)
  case (2 digest key now rs t)
  obtain r t1 where a: "acquire_at digest key now t = (r, t1)" by force
  with acquire_at_ok [OF 2(2), of digest key now] have t1: "throttle_ok t1" "throttle_window t1 = throttle_window t" by simp_all
  obtain out t2 where rs: "acquire_all digest rs t1 = (out, t2)" by force
  have "admitted digest d rs out \<le> room t1 d T" using 2(1) [OF a [symmetric]] t1 2(3) rs by simp
  moreover have "of_bool (digest key = d \<and> r = Inr ()) + room t1 d T \<le> room t d T"
    using acquire_room [OF 2(2), of T now digest key d] 2(3) a by simp
  ultimately show ?case using a rs by (auto simp: admitted_def)
qed (simp add: admitted_def)

text \<open>C20. The throttle is bounded: whatever attempts arrive, it never holds more than the configured
  number of buckets, and no account is admitted more than twice the configured number of attempts
  within one window; if its bucket is fresh or absent when the window begins, not more than the
  configured number.\<close>

theorem throttle_bounds:
  assumes "throttle_new attempts window max_keys = Inr t0" and "t = snd (acquire_all digest earlier t0)"
    and "\<forall>(key, now) \<in> set rs. T \<le> now \<and> now < T + window"
  shows "length (throttle_buckets (snd (acquire_all digest rs t))) \<le> max_keys
    \<and> admitted digest d rs (fst (acquire_all digest rs t)) \<le> 2 * attempts
    \<and> ((\<forall>b. map_of (throttle_buckets t) d = Some b \<longrightarrow> T \<le> bucket_start b)
        \<longrightarrow> admitted digest d rs (fst (acquire_all digest rs t)) \<le> attempts)"
proof -
  from assms(1) have t0: "throttle_ok t0" and lim: "throttle_attempts t0 = attempts" "throttle_window t0 = window"
      "throttle_max_keys t0 = max_keys"
    by (auto simp: throttle_new_def throttle_ok_def split: if_splits)
  from acquire_all_ok [OF t0, of digest earlier] assms(2) lim
  have t: "throttle_ok t" and l: "throttle_attempts t = attempts" "throttle_window t = window" "throttle_max_keys t = max_keys"
    by simp_all
  have "admitted digest d rs (fst (acquire_all digest rs t)) \<le> room t d T"
    using assms(3) by (intro admitted_room [OF t]) (simp add: l)
  moreover have "room t d T \<le> 2 * attempts" by (auto simp: room_def left_def l split: option.split)
  moreover have "room t d T \<le> attempts" if "\<forall>b. map_of (throttle_buckets t) d = Some b \<longrightarrow> T \<le> bucket_start b"
    using that by (auto simp: room_def left_def l split: option.split)
  moreover have "length (throttle_buckets (snd (acquire_all digest rs t))) \<le> max_keys"
    using acquire_all_ok [OF t, of digest rs] by (auto simp: throttle_ok_def l)
  ultimately show ?thesis by fastforce
qed

lemma throttle_bounds_witness:
  "admitted id ''ada'' [(''ada'', 1), (''ada'', 2)]
     (fst (acquire_all id [(''ada'', 1), (''ada'', 2)]
        \<lparr> throttle_attempts = 1, throttle_window = 10, throttle_max_keys = 5, throttle_buckets = [], throttle_poisoned = False \<rparr>)) \<le> 1"
  using throttle_bounds [of 1 10 5 "\<lparr> throttle_attempts = 1, throttle_window = 10, throttle_max_keys = 5, throttle_buckets = [],
      throttle_poisoned = False \<rparr>" _ id "[]" "[(''ada'', 1), (''ada'', 2)]" 0 "''ada''"]
  by (simp add: throttle_new_def)

subsection \<open>The advertised delay\<close>

lemma foldl_min: "foldl min r rs = (Min (insert r (set rs)) :: nat)"
proof (induction rs arbitrary: r)
  case (Cons x rs)
  have "Min (insert (min r x) (set rs)) = Min (insert r (insert x (set rs)))"
    by (cases "rs = []") (simp_all add: min.assoc)
  with Cons show ?case by simp
qed simp

lemma min_retry_Min:
  "bs \<noteq> [] \<Longrightarrow> min_retry window now bs = Min ((\<lambda>(k, b). retry_after window now b) ` set bs)"
  by (cases bs) (simp_all add: min_retry_def foldl_min)

text \<open>A bucket that is live at \<open>now\<close> is dropped exactly at the end of its window.\<close>

lemma live_until:
  "bucket_start b \<le> now \<Longrightarrow> now - bucket_start b < window \<Longrightarrow>
   0 < retry_after window now b \<and> retry_after window now b \<le> window
   \<and> (now + q - bucket_start b < window \<longleftrightarrow> q < retry_after window now b)"
  by (auto simp: retry_after_def)

text \<open>The advertised delay is honest: a limited attempt is told a delay between 1 and the window, the
  same attempt is refused again at any time before the delay is over, and admitted once it is
  over.\<close>

theorem retry_after_honest:
  assumes "throttle_ok t" and "\<forall>(d, b) \<in> set (throttle_buckets t). bucket_start b \<le> now"
    and "acquire_at digest key now t = (Inl (Limited r), t')"
  shows "0 < r \<and> r \<le> throttle_window t
    \<and> (\<forall>q < r. \<exists>r'. fst (acquire_at digest key (now + q) t') = Inl (Limited r'))
    \<and> fst (acquire_at digest key (now + r) t') = Inr ()"
proof -
  have live: "0 < retry_after (throttle_window t) now b \<and> retry_after (throttle_window t) now b \<le> throttle_window t
      \<and> (now + q - bucket_start b < throttle_window t \<longleftrightarrow> q < retry_after (throttle_window t) now b)"
    if "(d, b) \<in> set (live_buckets now t)" for d b q
    using that assms(2) by (intro live_until) (auto simp: live_buckets_def)
  have attempts: "0 < throttle_attempts t" using assms(1) by (simp add: throttle_ok_def)
  let ?live = "live_buckets now t"
  have later: "live_buckets (now + q) (t\<lparr> throttle_buckets := ?live \<rparr>)
      = filter (\<lambda>(k, b). q < retry_after (throttle_window t) now b) ?live" for q
    unfolding live_buckets_def [of "now + q"] using live by (auto intro!: filter_cong)
  have dropped: "length (filter (\<lambda>(k, b). r < retry_after (throttle_window t) now b) ?live) < throttle_max_keys t"
    if "(d, b) \<in> set ?live" "r = retry_after (throttle_window t) now b" for d b
    using that length_filter_less [of "(d, b)" ?live "\<lambda>(k, b). r < retry_after (throttle_window t) now b"]
      live_ok(2) [OF assms(1), of now] by simp
  show ?thesis
  proof (cases rule: acquire_at_cases [of digest key now t])
    case (limited b)
    then have t': "t' = t\<lparr> throttle_buckets := ?live \<rparr>" and r: "r = retry_after (throttle_window t) now b"
      using assms(3) by simp_all
    from limited(1) have refused: "\<not> refused_key key t'" by (simp add: t' refused_key_def)
    from limited(2) have b: "(digest key, b) \<in> set ?live" by (rule map_of_SomeD)
    have "map_of (filter (\<lambda>(k, b). q < retry_after (throttle_window t) now b) ?live) (digest key) = (if q < r then Some b else None)" for q
      using limited(2) r map_of_filter_snd [OF live_ok(1) [OF assms(1)], of "\<lambda>b. q < retry_after (throttle_window t) now b"] by simp
    with acquire_not_refused [OF refused] limited(3) dropped [OF b r] live [OF b] r show ?thesis by (simp add: t' later)
  next
    case full
    then have t': "t' = t\<lparr> throttle_buckets := ?live \<rparr>" and r: "r = min_retry (throttle_window t) now ?live"
      using assms(3) by simp_all
    from full(1) have refused: "\<not> refused_key key t'" by (simp add: t' refused_key_def)
    from full(3) assms(1) have "?live \<noteq> []" by (auto simp: throttle_ok_def)
    with r have rmin: "r = Min ((\<lambda>(k, b). retry_after (throttle_window t) now b) ` set ?live)" by (simp add: min_retry_Min)
    moreover from \<open>?live \<noteq> []\<close>
    have "Min ((\<lambda>(k, b). retry_after (throttle_window t) now b) ` set ?live) \<in> (\<lambda>(k, b). retry_after (throttle_window t) now b) ` set ?live"
      by (intro Min_in) simp_all
    ultimately obtain d b where b: "(d, b) \<in> set ?live" "r = retry_after (throttle_window t) now b"
      by (metis (no_types, lifting) case_prod_beta imageE prod.collapse)
    have "r \<le> retry_after (throttle_window t) now c" if "(k, c) \<in> set ?live" for k c
      unfolding rmin using that by (intro Min_le) force+
    then have "filter (\<lambda>(k, b). q < retry_after (throttle_window t) now b) ?live = ?live" if "q < r" for q
      using that by (fastforce simp: filter_id_conv intro: less_le_trans)
    moreover have "map_of (filter (\<lambda>(k, b). r < retry_after (throttle_window t) now b) ?live) (digest key) = None"
      using full(2) by (auto simp: map_of_eq_None_iff)
    ultimately show ?thesis
      using acquire_not_refused [OF refused] full(2,3) dropped [OF b] live [OF b(1)] b(2) by (auto simp: t' later)
  qed (use assms(3) in auto)
qed

lemma retry_after_honest_witness:
  "\<exists>t'. acquire_at id ''ada'' 5 \<lparr> throttle_attempts = 1, throttle_window = 10, throttle_max_keys = 5,
        throttle_buckets = [(''ada'', \<lparr> bucket_start = 3, bucket_attempts = 1 \<rparr>)], throttle_poisoned = False \<rparr> = (Inl (Limited 8), t')
     \<and> fst (acquire_at id ''ada'' 13 t') = Inr ()"
proof -
  let ?t = "\<lparr> throttle_attempts = 1, throttle_window = 10, throttle_max_keys = 5,
        throttle_buckets = [(''ada'', \<lparr> bucket_start = 3, bucket_attempts = 1 \<rparr>)], throttle_poisoned = False \<rparr>"
  have a: "acquire_at id ''ada'' 5 ?t = (Inl (Limited 8), ?t)"
    by (simp add: acquire_at_def max_key_bytes_def retry_after_def)
  from retry_after_honest [OF _ _ a] have "fst (acquire_at id ''ada'' (5 + 8) ?t) = Inr ()" by (simp add: throttle_ok_def)
  with a show ?thesis by simp
qed

end
