(* ===== verification/Preview_Store.thy ===== *)
theory Preview_Store
  imports Query_Plan Login_Throttle
begin

section \<open>The preview store\<close>

text \<open>
  \<open>axonyx-runtime/src/lib.rs\<close>: the in-memory collections of the preview runtime, the query plan
  executed over them, mutations and transactions. The expressions of a plan are evaluated by an
  argument, the function from the text of an expression to its value or its failure, so that what is
  proved holds for any of them. Values are compared with the equality of \<open>AxValue\<close>.
\<close>

subsection \<open>Collections\<close>

record preview_store =
  ps_collections :: "(string, ax_value list) bmap"
  ps_throttles :: "(string, login_throttle) bmap"

definition text_record :: "(string \<times> string) list \<Rightarrow> ax_value" where
  "text_record kvs = AvRecord (bm_of_list (map (\<lambda>(k, v). (k, AvString v)) kvs))"

definition sample_items :: "string \<Rightarrow> ax_value list" where
  "sample_items collection =
     (if collection = ''posts'' then
        [text_record [(''id'', ''1''), (''title'', ''Hello Axonyx''),
           (''excerpt'', ''A fast page rendered from .ax with almost no JavaScript.''), (''slug'', ''hello-axonyx''),
           (''status'', ''published''), (''created_at'', ''2026-04-18'')],
         text_record [(''id'', ''2''), (''title'', ''Docs Without Bloat''),
           (''excerpt'', ''Author docs pages directly and keep the runtime tiny.''), (''slug'', ''docs-without-bloat''),
           (''status'', ''published''), (''created_at'', ''2026-04-17'')],
         text_record [(''id'', ''3''), (''title'', ''Draft Preview''),
           (''excerpt'', ''A hidden draft entry to prove where filters work.''), (''slug'', ''draft-preview''),
           (''status'', ''draft''), (''created_at'', ''2026-04-16'')]]
      else if collection = ''users'' then
        [text_record [(''id'', ''1''), (''name'', ''Ana''), (''role'', ''editor'')],
         text_record [(''id'', ''2''), (''name'', ''Luka''), (''role'', ''author'')]]
      else
        [text_record [(''id'', ''1''), (''title'', collection @ '' item 1''),
           (''excerpt'', ''Preview data is coming from Axonyx runtime samples.'')],
         text_record [(''id'', ''2''), (''title'', collection @ '' item 2''),
           (''excerpt'', ''Connect a real adapter later without changing page syntax.'')]])"

definition preview_store_default :: preview_store where
  "preview_store_default = \<lparr> ps_collections = bm_of_list [(''posts'', sample_items ''posts''), (''users'', sample_items ''users'')], ps_throttles = [] \<rparr>"

definition with_collection :: "string \<Rightarrow> ax_value list \<Rightarrow> preview_store \<Rightarrow> preview_store" where
  "with_collection c items s = s\<lparr> ps_collections := bm_insert c items (ps_collections s) \<rparr>"

definition collection_items :: "preview_store \<Rightarrow> string \<Rightarrow> ax_value list" where
  "collection_items s c = (case bm_get (ps_collections s) c of Some items \<Rightarrow> items | None \<Rightarrow> sample_items c)"

definition ensure_collection :: "string \<Rightarrow> preview_store \<Rightarrow> preview_store" where
  "ensure_collection c s =
     (if bm_get (ps_collections s) c = None then with_collection c (sample_items c) s else s)"

definition change_collection :: "string \<Rightarrow> (ax_value list \<Rightarrow> ax_value list) \<Rightarrow> preview_store \<Rightarrow> preview_store" where
  "change_collection c f s =
     (let s' = ensure_collection c s in with_collection c (f (collection_items s' c)) s')"

subsection \<open>Records and filters\<close>

record preview_filter =
  pf_field :: string
  pf_op :: query_filter_op
  pf_value :: ax_value

fun preview_record_field :: "ax_value \<Rightarrow> string \<Rightarrow> ax_value option" where
  "preview_record_field (AvRecord fs) field = bm_get fs field"
| "preview_record_field v field = None"

definition is_null_field :: "ax_value option \<Rightarrow> bool" where
  "is_null_field v = (v = None \<or> v = Some AvNull)"

fun preview_record_matches :: "ax_value \<Rightarrow> string \<Rightarrow> query_filter_op \<Rightarrow> ax_value \<Rightarrow> bool" where
  "preview_record_matches item field FoIsNull expected = is_null_field (preview_record_field item field)"
| "preview_record_matches item field FoIsNotNull expected = (\<not> is_null_field (preview_record_field item field))"
| "preview_record_matches item field op expected =
     (case preview_record_field item field of
        None \<Rightarrow> False
      | Some v \<Rightarrow>
          (case op of
             FoEq \<Rightarrow> ax_value_eq v expected
           | FoNe \<Rightarrow> \<not> ax_value_eq v expected
           | FoIn \<Rightarrow> (case expected of AvList items \<Rightarrow> list_ex (\<lambda>i. ax_value_eq i v) items | _ \<Rightarrow> False)
           | _ \<Rightarrow> (case expected of AvList items \<Rightarrow> \<not> list_ex (\<lambda>i. ax_value_eq i v) items | _ \<Rightarrow> False)))"

definition preview_record_matches_all :: "ax_value \<Rightarrow> preview_filter list \<Rightarrow> bool" where
  "preview_record_matches_all item filters = list_all (\<lambda>f. preview_record_matches item (pf_field f) (pf_op f) (pf_value f)) filters"

fun apply_preview_fields :: "(string, ax_value) bmap \<Rightarrow> ax_value \<Rightarrow> ax_value" where
  "apply_preview_fields flds (AvRecord r) = AvRecord (foldl (\<lambda>m (k, v). bm_insert k v m) r flds)"
| "apply_preview_fields flds v = v"

definition assign_preview_id :: "nat \<Rightarrow> (string, ax_value) bmap \<Rightarrow> (string, ax_value) bmap" where
  "assign_preview_id existing r =
     (if bm_get r ''id'' \<noteq> None then r else bm_insert ''id'' (AvString (show_nat (existing + 1))) r)"

definition preview_insert :: "string \<Rightarrow> (string, ax_value) bmap \<Rightarrow> preview_store \<Rightarrow> preview_store" where
  "preview_insert c flds s =
     change_collection c (\<lambda>items. items @ [AvRecord (assign_preview_id (length (collection_items s c)) flds)]) s"

definition preview_update :: "string \<Rightarrow> (string, ax_value) bmap \<Rightarrow> preview_filter list \<Rightarrow> preview_store \<Rightarrow> preview_store" where
  "preview_update c flds filters s =
     change_collection c (map (\<lambda>i. if preview_record_matches_all i filters then apply_preview_fields flds i else i)) s"

definition preview_delete :: "string \<Rightarrow> preview_filter list \<Rightarrow> preview_store \<Rightarrow> preview_store" where
  "preview_delete c filters s = change_collection c (filter (\<lambda>i. \<not> preview_record_matches_all i filters)) s"

subsection \<open>Evaluated plans\<close>

type_synonym scope = "(string, ax_value) bmap"
type_synonym 'e evaluator = "scope \<Rightarrow> string \<Rightarrow> 'e + ax_value"

definition eval_preview_fields :: "'e evaluator \<Rightarrow> scope \<Rightarrow> assignment_plan list \<Rightarrow> 'e + (string, ax_value) bmap" where
  "eval_preview_fields ev sc flds =
     and_then (try_map (\<lambda>f. and_then (ev sc (ap_value f)) (\<lambda>v. Inr (ap_name f, v))) flds) (\<lambda>kvs. Inr (bm_of_list kvs))"

definition eval_preview_filters :: "'e evaluator \<Rightarrow> scope \<Rightarrow> query_filter_plan list \<Rightarrow> 'e + preview_filter list" where
  "eval_preview_filters ev sc filters =
     try_map (\<lambda>f. and_then (ev sc (fp_value f))
        (\<lambda>v. Inr \<lparr> pf_field = fp_field f, pf_op = fp_op f, pf_value = v \<rparr>)) filters"

datatype transaction_operation_plan =
    TpInsert string "assignment_plan list"
  | TpUpdate string "assignment_plan list" "query_filter_plan list"
  | TpDelete string "query_filter_plan list"

datatype prepared_operation =
    PrInsert string "(string, ax_value) bmap"
  | PrUpdate string "(string, ax_value) bmap" "preview_filter list"
  | PrDelete string "preview_filter list"

fun prepare_operation :: "'e evaluator \<Rightarrow> scope \<Rightarrow> transaction_operation_plan \<Rightarrow> 'e + prepared_operation" where
  "prepare_operation ev sc (TpInsert c flds) =
     and_then (eval_preview_fields ev sc flds) (\<lambda>fs. Inr (PrInsert c fs))"
| "prepare_operation ev sc (TpUpdate c flds filters) =
     and_then (eval_preview_fields ev sc flds) (\<lambda>fs.
     and_then (eval_preview_filters ev sc filters) (\<lambda>ps. Inr (PrUpdate c fs ps)))"
| "prepare_operation ev sc (TpDelete c filters) =
     and_then (eval_preview_filters ev sc filters) (\<lambda>ps. Inr (PrDelete c ps))"

fun apply_operation :: "prepared_operation \<Rightarrow> preview_store \<Rightarrow> preview_store" where
  "apply_operation (PrInsert c fs) s = preview_insert c fs s"
| "apply_operation (PrUpdate c fs ps) s = preview_update c fs ps s"
| "apply_operation (PrDelete c ps) s = preview_delete c ps s"

fun transaction_collection :: "transaction_operation_plan \<Rightarrow> string" where
  "transaction_collection (TpInsert c flds) = c"
| "transaction_collection (TpUpdate c flds filters) = c"
| "transaction_collection (TpDelete c filters) = c"

subsection \<open>Queries\<close>

type_synonym preview_row = "ax_value \<times> scope"

definition join_matches :: "query_join_column list \<Rightarrow> ax_value \<Rightarrow> ax_value \<Rightarrow> bool" where
  "join_matches columns item target =
     list_all (\<lambda>c. case (preview_record_field item (jc_source c), preview_record_field target (jc_target c)) of
        (Some a, Some b) \<Rightarrow> a \<noteq> AvNull \<and> b \<noteq> AvNull \<and> ax_value_eq a b
      | _ \<Rightarrow> False) columns"

definition join_row :: "preview_store \<Rightarrow> query_join \<Rightarrow> preview_row \<Rightarrow> preview_row option" where
  "join_row s j row =
     map_option (\<lambda>target. (fst row, bm_insert (qj_collection j) target (snd row)))
       (List.find (join_matches (qj_columns j) (fst row)) (collection_items s (qj_collection j)))"

definition join_rows :: "preview_store \<Rightarrow> query_join list \<Rightarrow> preview_row list \<Rightarrow> preview_row list" where
  "join_rows s joins rows = foldl (\<lambda>rs j. List.map_filter (join_row s j) rs) rows joins"

definition query_record_field :: "string \<Rightarrow> preview_row \<Rightarrow> string \<Rightarrow> ax_value option" where
  "query_record_field source row field =
     (case split_once (CHR ''.'') field of
        None \<Rightarrow> preview_record_field (fst row) field
      | Some (qualifier, name) \<Rightarrow>
          if qualifier = source then preview_record_field (fst row) name
          else Option.bind (bm_get (snd row) qualifier) (\<lambda>r. preview_record_field r name))"

fun query_record_matches :: "string \<Rightarrow> preview_row \<Rightarrow> string \<Rightarrow> query_filter_op \<Rightarrow> ax_value \<Rightarrow> bool" where
  "query_record_matches source row field FoIsNull expected = is_null_field (query_record_field source row field)"
| "query_record_matches source row field FoIsNotNull expected = (\<not> is_null_field (query_record_field source row field))"
| "query_record_matches source row field FoEq expected =
     (case query_record_field source row field of Some v \<Rightarrow> ax_value_eq v expected | None \<Rightarrow> False)"
| "query_record_matches source row field FoNe expected =
     (case query_record_field source row field of Some v \<Rightarrow> \<not> ax_value_eq v expected | None \<Rightarrow> False)"
| "query_record_matches source row field FoIn expected =
     (case (query_record_field source row field, expected) of
        (Some v, AvList items) \<Rightarrow> list_ex (\<lambda>i. ax_value_eq i v) items | _ \<Rightarrow> False)"
| "query_record_matches source row field FoNotIn expected =
     (case (query_record_field source row field, expected) of
        (Some v, AvList items) \<Rightarrow> \<not> list_ex (\<lambda>i. ax_value_eq i v) items | _ \<Rightarrow> False)"

fun filter_rows :: "'e evaluator \<Rightarrow> scope \<Rightarrow> string \<Rightarrow> query_filter_plan list \<Rightarrow> preview_row list \<Rightarrow> 'e + preview_row list" where
  "filter_rows ev sc source [] rows = Inr rows"
| "filter_rows ev sc source (f # fs) rows =
     and_then (ev sc (fp_value f)) (\<lambda>expected.
       filter_rows ev sc source fs (filter (\<lambda>r. query_record_matches source r (fp_field f) (fp_op f) expected) rows))"

definition order_key :: "string \<Rightarrow> query_order \<Rightarrow> preview_row \<Rightarrow> string" where
  "order_key source ord row =
     (case query_record_field source row (qo_field ord) of Some v \<Rightarrow> as_string v | None \<Rightarrow> [])"

definition sort_rows :: "string \<Rightarrow> query_order \<Rightarrow> preview_row list \<Rightarrow> preview_row list" where
  "sort_rows source ord rows =
     (case qo_direction ord of
        DirAsc \<Rightarrow> sort_key (order_key source ord) rows
      | DirDesc \<Rightarrow> rev (sort_key (order_key source ord) (rev rows)))"

definition order_rows :: "string \<Rightarrow> query_order list \<Rightarrow> preview_row list \<Rightarrow> preview_row list" where
  "order_rows source orders rows = foldl (\<lambda>rs ord. sort_rows source ord rs) rows (rev orders)"

definition page_rows :: "nat option \<Rightarrow> nat option \<Rightarrow> 'a list \<Rightarrow> 'a list" where
  "page_rows offset limit rows =
     (let rs = (case offset of Some n \<Rightarrow> drop n rows | None \<Rightarrow> rows) in
      case limit of Some n \<Rightarrow> take n rs | None \<Rightarrow> rs)"

fun apply_query_mode :: "query_mode \<Rightarrow> ax_value list \<Rightarrow> ax_value" where
  "apply_query_mode QmMany items = AvList items"
| "apply_query_mode QmFirst items = (case items of i # _ \<Rightarrow> i | [] \<Rightarrow> AvNull)"

definition query_rows :: "'e evaluator \<Rightarrow> scope \<Rightarrow> preview_store \<Rightarrow> string \<Rightarrow> query_plan \<Rightarrow> 'e + preview_row list" where
  "query_rows ev sc s c q =
     (let rows = join_rows s (qp_joins q) (map (\<lambda>i. (i, [])) (collection_items s c)) in
      and_then (filter_rows ev sc c (qp_filters q) rows) (\<lambda>rs.
        Inr (page_rows (qp_offset q) (qp_limit q) (order_rows c (qp_orders q) rs))))"

definition eval_preview_query :: "'e evaluator \<Rightarrow> scope \<Rightarrow> preview_store \<Rightarrow> query_plan \<Rightarrow> 'e + ax_value" where
  "eval_preview_query ev sc s q =
     (case qp_source q of
        SpRawSql sql params \<Rightarrow> Inr (AvList [])
      | SpStream c \<Rightarrow> and_then (query_rows ev sc s c q) (\<lambda>rs. Inr (apply_query_mode (qp_mode q) (map fst rs)))
      | SpContentCollection c \<Rightarrow> and_then (query_rows ev sc s c q) (\<lambda>rs. Inr (apply_query_mode (qp_mode q) (map fst rs))))"

end
