(* ===== verification/Sql.thy ===== *)
theory Sql
  imports Query_Plan
begin

section \<open>SQL from query and mutation plans\<close>

text \<open>
  \<open>axonyx-core/src/ax_sql.rs\<close>: the compilers of query, insert, update and delete plans to
  SQL text with numbered parameters. The parameter list the source grows in place is passed in
  and returned. A value is the Rust source of an expression; a list filter takes its elements
  from the text of a list literal. Strings are bytes, and as every character the splitter looks
  for is ASCII it scans bytes.
\<close>

subsection \<open>Dialects, parameters and errors\<close>

datatype sql_dialect = Postgres | MySql | Sqlite

record sql_param =
  param_index :: nat
  param_value :: string

record sql_query =
  sql_text :: string
  sql_params :: "sql_param list"

datatype sql_error =
    EmptyCollection
  | RawSqlRuntimeOnly
  | InvalidIdentifier string
  | AmbiguousJoinCollection string
  | EmptyJoinColumns string
  | DuplicateJoinColumns string
  | UnknownQueryQualifier string string
  | EmptyMutationFields
  | EmptyDeleteFilters
  | NonLiteralListFilter

datatype filter_context = QueryContext | MutationContext

fun quote_ident :: "sql_dialect \<Rightarrow> string \<Rightarrow> string" where
  "quote_ident MySql ident = CHR 0x60 # ident @ [CHR 0x60]"
| "quote_ident d ident = CHR 0x22 # ident @ [CHR 0x22]"

fun placeholder :: "sql_dialect \<Rightarrow> nat \<Rightarrow> string" where
  "placeholder Postgres i = CHR 0x24 # show_nat i"
| "placeholder d i = ''?''"

definition push_sql_param :: "sql_param list \<Rightarrow> string \<Rightarrow> sql_dialect \<Rightarrow> string \<times> sql_param list" where
  "push_sql_param params v d =
     (placeholder d (length params + 1), params @ [\<lparr> param_index = length params + 1, param_value = v \<rparr>])"

definition ident_char :: "char \<Rightarrow> bool" where
  "ident_char c = (is_alphanumeric c \<or> c = CHR ''_'')"

definition validate_ident :: "string \<Rightarrow> sql_error + unit" where
  "validate_ident ident =
     (if trim ident = [] then Inl EmptyCollection
      else if list_all ident_char (trim ident) then Inr ()
      else Inl (InvalidIdentifier ident))"

subsection \<open>Elements of a list literal\<close>

text \<open>\<open>split_top_level\<close>: \<open>acc\<close> is the current piece, reversed; the delimiter counts outside of
  strings and brackets.\<close>

record scan_state =
  scan_depth :: nat
  scan_string :: "char option"
  scan_escaped :: bool

definition scan_start :: scan_state where
  "scan_start = \<lparr> scan_depth = 0, scan_string = None, scan_escaped = False \<rparr>"

definition is_opening :: "char \<Rightarrow> bool" where
  "is_opening c = (c = CHR ''('' \<or> c = CHR ''['' \<or> c = CHR 0x7B)"

definition is_closing :: "char \<Rightarrow> bool" where
  "is_closing c = (c = CHR '')'' \<or> c = CHR '']'' \<or> c = CHR 0x7D)"

definition is_quote :: "char \<Rightarrow> bool" where
  "is_quote c = (c = CHR 0x22 \<or> c = CHR 0x27)"

definition scan_char :: "scan_state \<Rightarrow> char \<Rightarrow> scan_state" where
  "scan_char st c =
     (case scan_string st of
        Some q \<Rightarrow>
          (if scan_escaped st then st\<lparr> scan_escaped := False \<rparr>
           else if c = CHR 0x5C then st\<lparr> scan_escaped := True \<rparr>
           else if c = q then st\<lparr> scan_string := None \<rparr>
           else st)
      | None \<Rightarrow>
          (if is_quote c then st\<lparr> scan_string := Some c, scan_escaped := False \<rparr>
           else if is_opening c then st\<lparr> scan_depth := scan_depth st + 1 \<rparr>
           else if is_closing c then st\<lparr> scan_depth := scan_depth st - 1 \<rparr>
           else st))"

definition at_delimiter :: "char \<Rightarrow> scan_state \<Rightarrow> char \<Rightarrow> bool" where
  "at_delimiter delim st c =
     (scan_string st = None \<and> \<not> is_quote c \<and> \<not> is_opening c \<and> \<not> is_closing c \<and> c = delim \<and> scan_depth st = 0)"

fun split_from :: "char \<Rightarrow> scan_state \<Rightarrow> string \<Rightarrow> string \<Rightarrow> string list" where
  "split_from delim st acc [] = [trim (rev acc)]"
| "split_from delim st acc (c # cs) =
     (if at_delimiter delim st c then trim (rev acc) # split_from delim st [] cs
      else split_from delim (scan_char st c) (c # acc) cs)"

definition split_top_level :: "string \<Rightarrow> char \<Rightarrow> string list" where
  "split_top_level input delim = split_from delim scan_start [] input"

definition list_inner :: "string \<Rightarrow> string option" where
  "list_inner source =
     (case do { v \<leftarrow> strip_prefix ''vec!['' source; strip_suffix '']'' v } of
        Some v \<Rightarrow> Some v
      | None \<Rightarrow> do { v \<leftarrow> strip_prefix ''['' source; strip_suffix '']'' v })"

definition filter_list_values :: "string \<Rightarrow> string list option" where
  "filter_list_values v = do {
     inner \<leftarrow> list_inner (trim v);
     Some (if trim inner = [] then [] else map trim (split_top_level inner (CHR '',''))) }"

subsection \<open>Filters and fields\<close>

fun push_sql_params :: "sql_param list \<Rightarrow> string list \<Rightarrow> sql_dialect \<Rightarrow> string list \<times> sql_param list" where
  "push_sql_params ps [] d = ([], ps)"
| "push_sql_params ps (v # vs) d =
     (case push_sql_param ps v d of (p, ps1) \<Rightarrow>
        (case push_sql_params ps1 vs d of (marks, ps2) \<Rightarrow> (p # marks, ps2)))"

definition compile_list_filter :: "query_filter_op \<Rightarrow> string \<Rightarrow> string \<Rightarrow> sql_dialect \<Rightarrow> sql_param list \<Rightarrow> filter_context
    \<Rightarrow> sql_error + (string \<times> sql_param list)" where
  "compile_list_filter op v field d ps context =
     (case filter_list_values v of
        None \<Rightarrow> Inl NonLiteralListFilter
      | Some vs \<Rightarrow>
          if vs = [] then
            Inr (if op = FoNotIn \<and> context = QueryContext then ''1 = 1'' else ''1 = 0'', ps)
          else
            (case push_sql_params ps vs d of (marks, ps') \<Rightarrow>
               Inr (field @ '' '' @ (if op = FoIn then ''in'' else ''not in'') @ '' (''
                     @ join_with '', '' marks @ '')'', ps')))"

definition compile_filter_clause_with_field :: "query_filter_plan \<Rightarrow> string \<Rightarrow> sql_dialect \<Rightarrow> sql_param list
    \<Rightarrow> filter_context \<Rightarrow> sql_error + (string \<times> sql_param list)" where
  "compile_filter_clause_with_field f field d ps context =
     (case fp_op f of
        FoEq \<Rightarrow> (case push_sql_param ps (fp_value f) d of (p, ps') \<Rightarrow> Inr (field @ '' = '' @ p, ps'))
      | FoNe \<Rightarrow> (case push_sql_param ps (fp_value f) d of (p, ps') \<Rightarrow> Inr (field @ '' != '' @ p, ps'))
      | FoIn \<Rightarrow> compile_list_filter FoIn (fp_value f) field d ps context
      | FoNotIn \<Rightarrow> compile_list_filter FoNotIn (fp_value f) field d ps context
      | FoIsNull \<Rightarrow> Inr (field @ '' is null'', ps)
      | FoIsNotNull \<Rightarrow> Inr (field @ '' is not null'', ps))"

definition compile_filter_clause :: "query_filter_plan \<Rightarrow> sql_dialect \<Rightarrow> sql_param list \<Rightarrow> filter_context
    \<Rightarrow> sql_error + (string \<times> sql_param list)" where
  "compile_filter_clause f d ps context =
     and_then (validate_ident (fp_field f)) (\<lambda>_.
       compile_filter_clause_with_field f (quote_ident d (fp_field f)) d ps context)"

fun compile_filters :: "(query_filter_plan \<Rightarrow> sql_param list \<Rightarrow> sql_error + (string \<times> sql_param list))
    \<Rightarrow> query_filter_plan list \<Rightarrow> sql_param list \<Rightarrow> sql_error + (string list \<times> sql_param list)" where
  "compile_filters clause [] ps = Inr ([], ps)"
| "compile_filters clause (f # fs) ps =
     and_then (clause f ps) (\<lambda>(c, ps1).
     and_then (compile_filters clause fs ps1) (\<lambda>(cs, ps2). Inr (c # cs, ps2)))"

definition qualified_ident :: "sql_dialect \<Rightarrow> string \<Rightarrow> string \<Rightarrow> string" where
  "qualified_ident d qualifier column = quote_ident d qualifier @ ''.'' @ quote_ident d column"

definition compile_query_field :: "string \<Rightarrow> string \<Rightarrow> string list \<Rightarrow> bool \<Rightarrow> sql_dialect \<Rightarrow> sql_error + string" where
  "compile_query_field field source qualifiers qualify_source d =
     (case split_once (CHR ''.'') field of
        Some (qualifier, column) \<Rightarrow>
          and_then (validate_ident qualifier) (\<lambda>_.
          and_then (validate_ident column) (\<lambda>_.
            if qualifier \<notin> set qualifiers then Inl (UnknownQueryQualifier field qualifier)
            else Inr (qualified_ident d qualifier column)))
      | None \<Rightarrow>
          and_then (validate_ident field) (\<lambda>_.
            Inr (if qualify_source then qualified_ident d source field else quote_ident d field)))"

subsection \<open>Queries\<close>

fun check_join_columns :: "string \<Rightarrow> query_join_column list \<Rightarrow> string list \<Rightarrow> string list \<Rightarrow> sql_error + unit" where
  "check_join_columns collection [] sources targets = Inr ()"
| "check_join_columns collection (c # cs) sources targets =
     and_then (validate_ident (jc_source c)) (\<lambda>_.
     and_then (validate_ident (jc_target c)) (\<lambda>_.
       if jc_source c \<in> set sources \<or> jc_target c \<in> set targets then Inl (DuplicateJoinColumns collection)
       else check_join_columns collection cs (jc_source c # sources) (jc_target c # targets)))"

fun check_joins :: "query_join list \<Rightarrow> string list \<Rightarrow> sql_error + string list" where
  "check_joins [] qualifiers = Inr qualifiers"
| "check_joins (j # js) qualifiers =
     and_then (validate_ident (qj_collection j)) (\<lambda>_.
       if qj_collection j \<in> set qualifiers then Inl (AmbiguousJoinCollection (qj_collection j))
       else if qj_columns j = [] then Inl (EmptyJoinColumns (qj_collection j))
       else
         and_then (check_join_columns (qj_collection j) (qj_columns j) [] []) (\<lambda>_.
           check_joins js (qj_collection j # qualifiers)))"

definition join_clause :: "sql_dialect \<Rightarrow> string \<Rightarrow> query_join \<Rightarrow> string" where
  "join_clause d collection j =
     '' inner join '' @ quote_ident d (qj_collection j) @ '' on ''
     @ join_with '' and '' (map (\<lambda>c. qualified_ident d collection (jc_source c) @ '' = ''
         @ qualified_ident d (qj_collection j) (jc_target c)) (qj_columns j))"

fun order_direction_name :: "query_direction \<Rightarrow> string" where
  "order_direction_name DirAsc = ''asc''"
| "order_direction_name DirDesc = ''desc''"

fun source_collection :: "query_source_plan \<Rightarrow> sql_error + string" where
  "source_collection (SpStream c) = Inr c"
| "source_collection (SpContentCollection c) = Inr c"
| "source_collection (SpRawSql sql ps) = Inl RawSqlRuntimeOnly"

definition query_head :: "sql_dialect \<Rightarrow> string \<Rightarrow> query_join list \<Rightarrow> string" where
  "query_head d collection joins =
     (if joins = [] then ''select * from '' @ quote_ident d collection
      else ''select '' @ quote_ident d collection @ ''.* from '' @ quote_ident d collection)
     @ concat (map (join_clause d collection) joins)"

definition optional_clause :: "string \<Rightarrow> string \<Rightarrow> string list \<Rightarrow> string" where
  "optional_clause keyword sep cs = (if cs = [] then [] else keyword @ join_with sep cs)"

definition count_clause :: "string \<Rightarrow> nat option \<Rightarrow> string" where
  "count_clause keyword n = (case n of Some k \<Rightarrow> keyword @ show_nat k | None \<Rightarrow> [])"

definition compile_order :: "(string \<Rightarrow> sql_error + string) \<Rightarrow> sql_dialect \<Rightarrow> query_order \<Rightarrow> sql_error + string" where
  "compile_order field d ord =
     and_then (field (qo_field ord)) (\<lambda>name. Inr (name @ '' '' @ order_direction_name (qo_direction ord)))"

definition compile_query_filter :: "(string \<Rightarrow> sql_error + string) \<Rightarrow> sql_dialect \<Rightarrow> query_filter_plan
    \<Rightarrow> sql_param list \<Rightarrow> sql_error + (string \<times> sql_param list)" where
  "compile_query_filter field d f ps =
     and_then (field (fp_field f)) (\<lambda>name. compile_filter_clause_with_field f name d ps QueryContext)"

definition compile_query_plan_to_sql :: "query_plan \<Rightarrow> sql_dialect \<Rightarrow> sql_error + sql_query" where
  "compile_query_plan_to_sql q d =
     and_then (source_collection (qp_source q)) (\<lambda>collection.
     and_then (validate_ident collection) (\<lambda>_.
     and_then (check_joins (qp_joins q) [collection]) (\<lambda>qualifiers.
       let field = (\<lambda>f. compile_query_field f collection qualifiers (qp_joins q \<noteq> []) d) in
       and_then (compile_filters (compile_query_filter field d) (qp_filters q) []) (\<lambda>(clauses, params).
       and_then (try_map (compile_order field d) (qp_orders q)) (\<lambda>orders.
         Inr \<lparr> sql_text = query_head d collection (qp_joins q)
                 @ optional_clause '' where '' '' and '' clauses
                 @ optional_clause '' order by '' '', '' orders
                 @ count_clause '' limit '' (qp_limit q)
                 @ count_clause '' offset '' (qp_offset q),
               sql_params = params \<rparr>)))))"

subsection \<open>Mutations\<close>

text \<open>The assignments of an insert or an update: the quoted columns, their placeholders and the
  parameters.\<close>

fun compile_assignments :: "sql_dialect \<Rightarrow> assignment_plan list \<Rightarrow> sql_param list
    \<Rightarrow> sql_error + ((string \<times> string) list \<times> sql_param list)" where
  "compile_assignments d [] ps = Inr ([], ps)"
| "compile_assignments d (f # fs) ps =
     and_then (validate_ident (ap_name f)) (\<lambda>_.
       case push_sql_param ps (ap_value f) d of (p, ps1) \<Rightarrow>
         and_then (compile_assignments d fs ps1) (\<lambda>(cs, ps2). Inr ((quote_ident d (ap_name f), p) # cs, ps2)))"

definition compile_insert_plan_to_sql :: "string \<Rightarrow> assignment_plan list \<Rightarrow> sql_dialect \<Rightarrow> sql_error + sql_query" where
  "compile_insert_plan_to_sql collection fs d =
     and_then (validate_ident collection) (\<lambda>_.
       if fs = [] then Inl EmptyMutationFields
       else and_then (compile_assignments d fs []) (\<lambda>(cs, ps).
         Inr \<lparr> sql_text = ''insert into '' @ quote_ident d collection @ '' ('' @ join_with '', '' (map fst cs)
                 @ '') values ('' @ join_with '', '' (map snd cs) @ '')'',
               sql_params = ps \<rparr>))"

definition mutation_filters :: "sql_dialect \<Rightarrow> query_filter_plan list \<Rightarrow> sql_param list
    \<Rightarrow> sql_error + (string list \<times> sql_param list)" where
  "mutation_filters d fs ps = compile_filters (\<lambda>f ps. compile_filter_clause f d ps MutationContext) fs ps"

definition compile_update_plan_to_sql :: "string \<Rightarrow> assignment_plan list \<Rightarrow> query_filter_plan list \<Rightarrow> sql_dialect
    \<Rightarrow> sql_error + sql_query" where
  "compile_update_plan_to_sql collection fs filters d =
     and_then (validate_ident collection) (\<lambda>_.
       if fs = [] then Inl EmptyMutationFields
       else and_then (compile_assignments d fs []) (\<lambda>(cs, ps).
         and_then (mutation_filters d filters ps) (\<lambda>(clauses, ps').
           Inr \<lparr> sql_text = ''update '' @ quote_ident d collection @ '' set ''
                   @ join_with '', '' (map (\<lambda>(column, p). column @ '' = '' @ p) cs)
                   @ optional_clause '' where '' '' and '' clauses,
                 sql_params = ps' \<rparr>)))"

definition compile_delete_plan_to_sql :: "string \<Rightarrow> query_filter_plan list \<Rightarrow> sql_dialect \<Rightarrow> sql_error + sql_query" where
  "compile_delete_plan_to_sql collection filters d =
     and_then (validate_ident collection) (\<lambda>_.
       if filters = [] then Inl EmptyDeleteFilters
       else and_then (mutation_filters d filters []) (\<lambda>(clauses, ps).
         Inr \<lparr> sql_text = ''delete from '' @ quote_ident d collection @ '' where '' @ join_with '' and '' clauses,
               sql_params = ps \<rparr>))"

end
