(* ===== verification/Plan_Steps.thy ===== *)
theory Plan_Steps
  imports Preview_Store Sql Ax_Types
begin

section \<open>Steps of lowered handlers\<close>

text \<open>
  The plans of \<open>axonyx-core/src/ax_backend_lowering.rs\<close>: the steps of a handler, the values they
  bind, what they return, and the search for \<open>Auth.subject\<close> that decides whether a handler loads
  the session; and the \<open>Login.throttle\<close> hooks of \<open>ax_backend_codegen.rs\<close>. The Rust
  expressions of a plan are texts. The tokeniser \<open>proc_macro2\<close> is the argument \<open>tokens\<close>; its
  token trees are a datatype.
\<close>

subsection \<open>Plans\<close>

datatype return_plan =
    RpPublicResponse "string list"
  | RpPrivateResponse "string list"
  | RpExpr string
  | RpJson string
  | RpRedirect string "nat option"
  | RpNoContent
  | RpNotFound
  | RpForbidden
  | RpOk

datatype value_plan =
    VpExpr string
  | VpCall "string list" "string list"
  | VpQuery query_plan
  | VpStorageSave string string

datatype hook_phase = HookBefore | HookAfter

datatype step_plan =
    StLet string value_plan
  | StTransaction "transaction_operation_plan list"
  | StInsert string "assignment_plan list"
  | StUpdate string "assignment_plan list" "query_filter_plan list"
  | StDelete string "query_filter_plan list"
  | StRevalidate string bool
  | StPatch string string
  | StHook hook_phase string
  | StHeader string string
  | StCookie string string
  | StClearCookie string
  | StSessionCreate string string
  | StSessionDestroy
  | StSessionRefresh
  | StRequire string "return_plan option"
  | StReturn return_plan
  | StSend string string

record field_plan =
  fd_name :: string
  fd_rust_ty :: string
  fd_optional :: bool
  fd_default :: "string option"

datatype handler_kind =
    HkRoute string string "string option" "field_plan list"
  | HkLoader "string option" "field_plan list"
  | HkAction "string option" "field_plan list"
  | HkJob

record handler_plan =
  hp_name :: string
  hp_kind :: handler_kind
  hp_steps :: "step_plan list"

subsection \<open>Uses of the session subject\<close>

datatype token_tree = TtGroup "token_tree list" | TtIdent string | TtPunct char | TtLiteral string

definition is_punct :: "char \<Rightarrow> token_tree option \<Rightarrow> bool" where
  "is_punct c t = (t = Some (TtPunct c))"

definition token_at :: "token_tree list \<Rightarrow> nat \<Rightarrow> token_tree option" where
  "token_at ts i = (if i < length ts then Some (ts ! i) else None)"

definition subject_at :: "token_tree list \<Rightarrow> nat \<Rightarrow> bool" where
  "subject_at ts i =
     (if (0 < i \<and> is_punct (CHR ''.'') (token_at ts (i - 1)))
         \<or> (1 < i \<and> is_punct (CHR '':'') (token_at ts (i - 1)) \<and> is_punct (CHR '':'') (token_at ts (i - 2))) then False
      else token_at ts i = Some (TtIdent ''Auth'') \<and> is_punct (CHR ''.'') (token_at ts (i + 1))
           \<and> token_at ts (i + 2) = Some (TtIdent ''subject''))"

lemma size_group_less: "TtGroup us \<in> set ts \<Longrightarrow> size_list size us < size_list size ts"
  by (induction ts) auto

function contains_subject :: "token_tree list \<Rightarrow> bool" where
  "contains_subject ts =
     (list_ex (\<lambda>i. subject_at ts i) [0..<length ts]
      \<or> list_ex (\<lambda>t. case t of TtGroup us \<Rightarrow> contains_subject us | _ \<Rightarrow> False) ts)"
  by pat_completeness auto
termination
  by (relation "measure (size_list size)") (auto simp: size_group_less)

declare contains_subject.simps [simp del]


definition expr_uses_auth_subject :: "(string \<Rightarrow> token_tree list option) \<Rightarrow> string \<Rightarrow> bool" where
  "expr_uses_auth_subject tokens e = (case tokens e of Some ts \<Rightarrow> contains_subject ts | None \<Rightarrow> False)"

definition assignments_use_subject :: "(string \<Rightarrow> token_tree list option) \<Rightarrow> assignment_plan list \<Rightarrow> bool" where
  "assignments_use_subject tokens fs = list_ex (\<lambda>f. expr_uses_auth_subject tokens (ap_value f)) fs"

definition filters_use_subject :: "(string \<Rightarrow> token_tree list option) \<Rightarrow> query_filter_plan list \<Rightarrow> bool" where
  "filters_use_subject tokens fs = list_ex (\<lambda>f. expr_uses_auth_subject tokens (fp_value f)) fs"

fun value_uses_auth_subject :: "(string \<Rightarrow> token_tree list option) \<Rightarrow> value_plan \<Rightarrow> bool" where
  "value_uses_auth_subject tokens (VpExpr e) = expr_uses_auth_subject tokens e"
| "value_uses_auth_subject tokens (VpCall path args) = list_ex (expr_uses_auth_subject tokens) args"
| "value_uses_auth_subject tokens (VpQuery q) =
     ((case qp_source q of SpRawSql sql params \<Rightarrow> list_ex (expr_uses_auth_subject tokens) params | _ \<Rightarrow> False)
      \<or> filters_use_subject tokens (qp_filters q))"
| "value_uses_auth_subject tokens (VpStorageSave capability input) = False"

fun operation_uses_auth_subject :: "(string \<Rightarrow> token_tree list option) \<Rightarrow> transaction_operation_plan \<Rightarrow> bool" where
  "operation_uses_auth_subject tokens (TpInsert c flds) = assignments_use_subject tokens flds"
| "operation_uses_auth_subject tokens (TpUpdate c flds filters) =
     (assignments_use_subject tokens flds \<or> filters_use_subject tokens filters)"
| "operation_uses_auth_subject tokens (TpDelete c filters) = filters_use_subject tokens filters"

fun return_uses_auth_subject :: "(string \<Rightarrow> token_tree list option) \<Rightarrow> return_plan \<Rightarrow> bool" where
  "return_uses_auth_subject tokens (RpPrivateResponse args) = True"
| "return_uses_auth_subject tokens (RpPublicResponse args) = list_ex (expr_uses_auth_subject tokens) args"
| "return_uses_auth_subject tokens (RpExpr e) = expr_uses_auth_subject tokens e"
| "return_uses_auth_subject tokens (RpJson e) = expr_uses_auth_subject tokens e"
| "return_uses_auth_subject tokens (RpRedirect target status) = expr_uses_auth_subject tokens target"
| "return_uses_auth_subject tokens _ = False"

fun step_uses_auth_subject :: "(string \<Rightarrow> token_tree list option) \<Rightarrow> step_plan \<Rightarrow> bool" where
  "step_uses_auth_subject tokens (StLet b v) = value_uses_auth_subject tokens v"
| "step_uses_auth_subject tokens (StTransaction ops) = list_ex (operation_uses_auth_subject tokens) ops"
| "step_uses_auth_subject tokens (StInsert c flds) = assignments_use_subject tokens flds"
| "step_uses_auth_subject tokens (StUpdate c flds filters) =
     (assignments_use_subject tokens flds \<or> filters_use_subject tokens filters)"
| "step_uses_auth_subject tokens (StDelete c filters) = filters_use_subject tokens filters"
| "step_uses_auth_subject tokens (StRevalidate target literal) = expr_uses_auth_subject tokens target"
| "step_uses_auth_subject tokens (StPatch signal v) = (expr_uses_auth_subject tokens signal \<or> expr_uses_auth_subject tokens v)"
| "step_uses_auth_subject tokens (StHook phase v) = expr_uses_auth_subject tokens v"
| "step_uses_auth_subject tokens (StHeader name v) = (expr_uses_auth_subject tokens name \<or> expr_uses_auth_subject tokens v)"
| "step_uses_auth_subject tokens (StCookie name v) = (expr_uses_auth_subject tokens name \<or> expr_uses_auth_subject tokens v)"
| "step_uses_auth_subject tokens (StClearCookie name) = expr_uses_auth_subject tokens name"
| "step_uses_auth_subject tokens (StSessionCreate s d) = (expr_uses_auth_subject tokens s \<or> expr_uses_auth_subject tokens d)"
| "step_uses_auth_subject tokens StSessionDestroy = False"
| "step_uses_auth_subject tokens StSessionRefresh = False"
| "step_uses_auth_subject tokens (StRequire v fallback) =
     (expr_uses_auth_subject tokens v \<or> (case fallback of Some r \<Rightarrow> return_uses_auth_subject tokens r | None \<Rightarrow> False))"
| "step_uses_auth_subject tokens (StReturn r) = return_uses_auth_subject tokens r"
| "step_uses_auth_subject tokens (StSend target payload) = expr_uses_auth_subject tokens payload"

subsection \<open>Throttle hooks\<close>

text \<open>\<open>split_codegen_args\<close> scans like the splitter of \<open>ax_sql.rs\<close>: strings with escapes, brackets,
  and commas outside of them.\<close>

record login_throttle_hook =
  lth_key :: string
  lth_attempts :: nat
  lth_seconds :: nat

definition split_codegen_args :: "string \<Rightarrow> string list" where
  "split_codegen_args input = split_top_level input (CHR '','')"

definition split_codegen_binary_args :: "string \<Rightarrow> (string \<times> string) option" where
  "split_codegen_binary_args input =
     (case split_codegen_args input of
        first # _ # _ \<Rightarrow> do {
          r1 \<leftarrow> strip_prefix first (trim_start input);
          r2 \<leftarrow> strip_prefix '','' (trim_start r1);
          (if first \<noteq> [] \<and> trim r2 \<noteq> [] then Some (first, trim r2) else None) }
      | _ \<Rightarrow> None)"

definition parse_login_throttle_hook :: "string \<Rightarrow> unit + login_throttle_hook option" where
  "parse_login_throttle_hook source =
     (let c = trim source in
      if starts_with ''Login.throttle'' c then Inl ()
      else if \<not> starts_with ''Login::throttle'' c then Inr None
      else ok_or () (do {
        r \<leftarrow> strip_prefix ''Login::throttle('' c;
        inner \<leftarrow> strip_suffix '')'' r;
        (key, rest) \<leftarrow> split_codegen_binary_args inner;
        (a, s) \<leftarrow> split_codegen_binary_args rest;
        attempts \<leftarrow> parse_unsigned 32 (trim a);
        seconds \<leftarrow> parse_unsigned 64 (trim s);
        (if trim key = [] \<or> \<not> (1 \<le> attempts \<and> attempts \<le> 1000) \<or> \<not> (1 \<le> seconds \<and> seconds \<le> 86400) then None
         else Some (Some \<lparr> lth_key = trim key, lth_attempts = attempts, lth_seconds = seconds \<rparr>)) }))"

definition takes_throttle :: "handler_kind \<Rightarrow> bool" where
  "takes_throttle k = (case k of HkRoute m path r i \<Rightarrow> True | HkAction r i \<Rightarrow> True | _ \<Rightarrow> False)"

definition is_before_hook :: "step_plan \<Rightarrow> bool" where
  "is_before_hook st = (case st of StHook HookBefore e \<Rightarrow> True | _ \<Rightarrow> False)"

fun validate_throttle_from :: "handler_kind \<Rightarrow> step_plan list \<Rightarrow> string list \<Rightarrow> step_plan list \<Rightarrow> unit + unit" where
  "validate_throttle_from k done' seen [] = Inr ()"
| "validate_throttle_from k done' seen (StHook phase e # rest) =
     and_then (parse_login_throttle_hook e) (\<lambda>hook.
       case hook of
         None \<Rightarrow> validate_throttle_from k (done' @ [StHook phase e]) seen rest
       | Some h \<Rightarrow>
           if phase \<noteq> HookBefore \<or> \<not> takes_throttle k \<or> e \<in> set seen \<or> \<not> list_all is_before_hook done' then Inl ()
           else validate_throttle_from k (done' @ [StHook phase e]) (e # seen) rest)"
| "validate_throttle_from k done' seen (st # rest) = validate_throttle_from k (done' @ [st]) seen rest"

definition validate_login_throttle_hooks :: "handler_plan \<Rightarrow> unit + unit" where
  "validate_login_throttle_hooks h = validate_throttle_from (hp_kind h) [] [] (hp_steps h)"

end
