(* ===== verification/Validation.thy ===== *)
theory Validation
  imports Http
begin

section \<open>Input checks\<close>

text \<open>
  \<open>axonyx-runtime/src/validation.rs\<close>, the checks of \<open>password.rs\<close> and the answer of
  \<open>login_throttle.rs\<close> to a limited login. The Argon2 library is the record \<open>argon2\<close> of the
  functions the source calls; serialised JSON bodies are arguments. A JSON object is the list of
  its entries, each with its string content if it is a string.
\<close>

subsection \<open>Error pages\<close>

definition replace_char :: "char \<Rightarrow> string \<Rightarrow> string \<Rightarrow> string" where
  "replace_char c r s = concat (map (\<lambda>x. if x = c then r else [x]) s)"

definition escape :: "string \<Rightarrow> string" where
  "escape v = replace_char (CHR 0x27) ''&#39;'' (replace_char (CHR 0x22) ''&quot;'' (replace_char (CHR 0x3E) ''&gt;''
     (replace_char (CHR 0x3C) ''&lt;'' (replace_char (CHR 0x26) ''&amp;'' v))))"

definition safe_route :: "string \<Rightarrow> string" where
  "safe_route route =
     (if starts_with ''/'' route \<and> \<not> starts_with ''//'' route \<and> CHR 0x5C \<notin> set route \<and> CHR 0x25 \<notin> set route
         \<and> \<not> list_ex is_control (chars route)
      then route else ''/'')"

definition error_item :: "string \<times> string option \<Rightarrow> string" where
  "error_item entry =
     (case entry of
        (field, Some message) \<Rightarrow> ''<li><strong>'' @ escape (take_chars 128 field) @ ''</strong>: ''
                                   @ escape (take_chars 512 message) @ ''</li>''
      | (field, None) \<Rightarrow> [])"

definition quoted :: "string \<Rightarrow> string" where
  "quoted s = CHR 0x22 # s @ [CHR 0x22]"

definition error_page :: "string \<Rightarrow> string \<Rightarrow> string" where
  "error_page items route =
     ''<!doctype html><html lang='' @ quoted ''en'' @ ''><head><meta charset='' @ quoted ''utf-8''
     @ ''><meta name='' @ quoted ''viewport'' @ '' content='' @ quoted ''width=device-width,initial-scale=1''
     @ ''><title>Check your input</title></head><body><main><h1>Check your input</h1><p>The form could not be submitted.''
     @ '' Correct the fields and try again.</p><ul>'' @ items @ ''</ul><a href='' @ quoted (escape route)
     @ ''>Return to the form</a></main></body></html>''"

definition html_error_response :: "(string \<times> string option) list option \<Rightarrow> string \<Rightarrow> http_response" where
  "html_error_response object route =
     (let items = (case object of Some fs \<Rightarrow> concat (map error_item (take 32 fs)) | None \<Rightarrow> []) in
      with_header ''Referrer-Policy'' ''no-referrer''
        (with_header ''X-Content-Type-Options'' ''nosniff''
          (with_header ''Content-Security-Policy''
             (''default-src '' @ [CHR 0x27] @ ''none'' @ [CHR 0x27] @ ''; base-uri '' @ [CHR 0x27] @ ''none'' @ [CHR 0x27]
              @ ''; frame-ancestors '' @ [CHR 0x27] @ ''none'' @ [CHR 0x27] @ ''; form-action '' @ [CHR 0x27] @ ''self'' @ [CHR 0x27])
            (with_no_store (response_html 422 (error_page items (safe_route route)))))))"

subsection \<open>Accepted media types\<close>

text \<open>\<open>str::parse::<f32>\<close> followed by \<open>0 < q <= 1\<close>. A decimal \<open>n\<close> times ten to the power \<open>e\<close> rounds to
  a positive number if it is above half of the least subnormal, \<open>2\<close> to the power \<open>-150\<close>, and to at
  most 1 if it is at most \<open>1\<close> plus \<open>2\<close> to the power \<open>-24\<close>; ties go to the even neighbour.\<close>

definition parse_exponent :: "string \<Rightarrow> int option" where
  "parse_exponent s =
     (case s of
        c # cs \<Rightarrow>
          if c = CHR ''-'' then map_option (\<lambda>n. - int n) (parse_digits cs)
          else if c = CHR ''+'' then map_option int (parse_digits cs)
          else map_option int (parse_digits s)
      | [] \<Rightarrow> None)"

text \<open>An unsigned decimal with its exponent, digits on at least one side of the point.\<close>

definition parse_decimal :: "string \<Rightarrow> (nat \<times> int) option" where
  "parse_decimal s =
     (let whole = takeWhile is_digit s; r = dropWhile is_digit s;
          (frac, r1) = (case r of c # cs \<Rightarrow> if c = CHR ''.'' then (takeWhile is_digit cs, dropWhile is_digit cs) else ([], r)
                        | [] \<Rightarrow> ([], [])) in
      if whole = [] \<and> frac = [] then None
      else
        (case r1 of
           [] \<Rightarrow> Some (digits_value (whole @ frac), - int (length frac))
         | c # cs \<Rightarrow>
             if c = CHR ''e'' \<or> c = CHR ''E''
             then map_option (\<lambda>e. (digits_value (whole @ frac), e - int (length frac))) (parse_exponent cs)
             else None))"

definition in_unit_f32 :: "nat \<times> int \<Rightarrow> bool" where
  "in_unit_f32 ne =
     (case ne of (n, e) \<Rightarrow>
        if 0 \<le> e then n * 10 ^ nat e = 1
        else 10 ^ nat (- e) < n * 2 ^ 150 \<and> n * 2 ^ 24 \<le> (2 ^ 24 + 1) * 10 ^ nat (- e))"

definition positive_quality :: "string \<Rightarrow> bool" where
  "positive_quality s =
     (case s of
        c # cs \<Rightarrow>
          if c = CHR ''-'' then False
          else (case parse_decimal (if c = CHR ''+'' then cs else s) of Some ne \<Rightarrow> in_unit_f32 ne | None \<Rightarrow> False)
      | [] \<Rightarrow> False)"

definition accepts_part :: "string \<Rightarrow> bool" where
  "accepts_part part =
     (case split_once (CHR ''='') (trim part) of
        None \<Rightarrow> True
      | Some (name, v) \<Rightarrow> \<not> eq_ignore_case (trim name) ''q'' \<or> positive_quality (trim v))"

definition accepts_html_entry :: "string \<Rightarrow> bool" where
  "accepts_html_entry entry =
     (case split_on (CHR '';'') (trim entry) of
        media # parts \<Rightarrow> eq_ignore_case (trim media) ''text/html'' \<and> list_all accepts_part parts
      | [] \<Rightarrow> False)"

definition wants_html_error :: "http_request \<Rightarrow> bool" where
  "wants_html_error r =
     (let accept = (case header_value r ''Accept'' of Some a \<Rightarrow> a | None \<Rightarrow> []) in
      if contains_str ''application/ax-'' accept \<or> contains_str ''application/json'' accept then False
      else list_ex accepts_html_entry (split_on (CHR '','') accept))"

subsection \<open>Registration\<close>

definition local_char :: "char \<Rightarrow> bool" where
  "local_char c = (is_alphanumeric c \<or> c \<in> set (''.!#$%&'' @ [CHR 0x27] @ ''*+-/=?^_'' @ [CHR 0x60] @ ''{|}~''))"

definition valid_label :: "string \<Rightarrow> bool" where
  "valid_label l =
     (l \<noteq> [] \<and> length l \<le> 63 \<and> \<not> starts_with ''-'' l \<and> \<not> ends_with ''-'' l
      \<and> list_all (\<lambda>c. is_alphanumeric c \<or> c = CHR ''-'') l)"

definition email :: "string \<Rightarrow> bool" where
  "email v =
     (if \<not> is_ascii v \<or> 254 < length v then False
      else (case split_once (CHR ''@'') v of
              None \<Rightarrow> False
            | Some (name, domain) \<Rightarrow>
                name \<noteq> [] \<and> length name \<le> 64 \<and> \<not> starts_with ''.'' name \<and> \<not> ends_with ''.'' name
                \<and> \<not> contains_str ''..'' name \<and> list_all local_char name
                \<and> contains_str ''.'' domain \<and> list_all valid_label (split_on (CHR ''.'') domain)))"

definition max_password_bytes :: nat where
  "max_password_bytes = 1024"

definition acceptable_password :: "string \<Rightarrow> bool" where
  "acceptable_password v = (length v \<le> max_password_bytes \<and> 15 \<le> length (chars v))"

subsection \<open>Passwords\<close>

datatype password_error = InvalidPasswordLength | InvalidHash | RandomnessUnavailable | HashingFailed

datatype verify_outcome = VerifyOk | VerifyWrong | VerifyError

text \<open>What the source uses of a parsed PHC string \<open>'h\<close> and of the Argon2 engine.\<close>

record 'h argon2 =
  phc_parse :: "string \<Rightarrow> 'h option"
  phc_costs :: "'h \<Rightarrow> (nat \<times> nat \<times> nat) option"
  phc_salt :: "'h \<Rightarrow> bytes option option"
  phc_algorithm :: "'h \<Rightarrow> string"
  phc_version :: "'h \<Rightarrow> nat option"
  phc_param_count :: "'h \<Rightarrow> nat"
  phc_output_length :: "'h \<Rightarrow> nat option"
  engine_verify :: "string \<Rightarrow> 'h \<Rightarrow> verify_outcome"
  engine_hash :: "string \<Rightarrow> bytes \<Rightarrow> string option"
  encode_salt :: "bytes \<Rightarrow> bytes option"

definition validate_password :: "string \<Rightarrow> password_error + unit" where
  "validate_password p =
     (if p = [] \<or> max_password_bytes < length p then Inl InvalidPasswordLength else Inr ())"

definition password_hash :: "'h argon2 \<Rightarrow> bytes option \<Rightarrow> string \<Rightarrow> password_error + string" where
  "password_hash a random p =
     and_then (validate_password p) (\<lambda>_.
     and_then (ok_or RandomnessUnavailable random) (\<lambda>salt_bytes.
     and_then (ok_or HashingFailed (encode_salt a salt_bytes)) (\<lambda>salt.
       ok_or HashingFailed (engine_hash a p salt))))"

definition password_verify :: "'h argon2 \<Rightarrow> string \<Rightarrow> string \<Rightarrow> password_error + bool" where
  "password_verify a p encoded =
     and_then (validate_password p) (\<lambda>_.
       if 512 < length encoded then Inl InvalidHash
       else
         and_then (ok_or InvalidHash (phc_parse a encoded)) (\<lambda>h.
         and_then (ok_or InvalidHash (phc_costs a h)) (\<lambda>(m, t, p').
         and_then (ok_or InvalidHash (phc_salt a h)) (\<lambda>encoded_salt.
         and_then (ok_or InvalidHash encoded_salt) (\<lambda>salt.
           if phc_algorithm a h \<noteq> ''argon2id'' \<or> phc_version a h \<noteq> Some 19 \<or> m \<noteq> 19456 \<or> t \<noteq> 2 \<or> p' \<noteq> 1
              \<or> phc_param_count a h \<noteq> 3 \<or> length salt \<noteq> 16 \<or> phc_output_length a h \<noteq> Some 32
           then Inl InvalidHash
           else (case engine_verify a p h of
                   VerifyOk \<Rightarrow> Inr True | VerifyWrong \<Rightarrow> Inr False | VerifyError \<Rightarrow> Inl InvalidHash))))))"

definition dummy_hash :: string where
  "dummy_hash = ''$argon2id$v=19$m=19456,t=2,p=1$AAAAAAAAAAAAAAAAAAAAAA$AAAAAAAAAAAAAAAAAAAAAAAAAAAAAAAAAAAAAAAAAAA''"

definition verify_optional :: "'h argon2 \<Rightarrow> string \<Rightarrow> string option \<Rightarrow> password_error + bool" where
  "verify_optional a p encoded =
     and_then (password_verify a p (case encoded of Some e \<Rightarrow> e | None \<Rightarrow> dummy_hash)) (\<lambda>verified.
       Inr (encoded \<noteq> None \<and> verified))"

subsection \<open>Limited logins\<close>

definition limited_page :: string where
  "limited_page =
     ''<!doctype html><html lang='' @ quoted ''en''
     @ ''><head><title>Too many requests</title></head><body><main><h1>Too many requests</h1>''
     @ ''<p>Please wait before trying again.</p></main></body></html>''"

text \<open>\<open>json\<close> serialises the error value with the clamped number of seconds.\<close>

definition action_response :: "(nat \<Rightarrow> bytes option) \<Rightarrow> http_request \<Rightarrow> nat \<Rightarrow> http_response" where
  "action_response json r requested =
     (let seconds = max 1 (min requested 86400);
          response =
            (if wants_html_error r then response_html 429 limited_page
             else with_header ''Content-Type'' ''application/ax-error+json; charset=utf-8''
                    (case json seconds of
                       Some body \<Rightarrow> response_json 429 body
                     | None \<Rightarrow> response_text 500 ''Internal Server Error''))
      in with_no_store (with_header ''Retry-After'' (show_nat seconds) response))"

end
