(* ===== verification/Preview_Runtime.thy ===== *)
theory Preview_Runtime
  imports Plan_Steps Json_Contract Session_Manager Validation Form_Result
begin

section \<open>The preview runtime\<close>

text \<open>
  \<open>axonyx-runtime/src/lib.rs\<close>: what the handlers of an application run on in the preview
  server. The backend runtime of the application is the record \<open>preview_runtime\<close> of the operations
  its trait object has, each a step on a state of its own; the store of the preview is used where no
  runtime is configured. Expressions are evaluated by two functions of the environment, with and without the
  functions of the application, default values by a third (an empty scope and the process
  environment). Clock, random numbers and UUIDs are read from the runtime's state.
\<close>

subsection \<open>Failures and effects\<close>

datatype preview_error =
    PvRuntime string
  | PvAccessDenied nat
  | PvNotFound
  | PvPageRedirect string nat
  | PvInvalidInput string

fun rt_error_text :: "rt_error \<Rightarrow> string" where
  "rt_error_text RtNotFound = ''resource not found''"
| "rt_error_text RtUnauthorized = ''authentication required''"
| "rt_error_text RtForbidden = ''access forbidden''"
| "rt_error_text (RtPageRedirect location status) = ''page query redirect''"
| "rt_error_text (RtInvalidInput field) = ''invalid request input `'' @ field @ ''`''"
| "rt_error_text (RtMessage message) = ''runtime operation failed: '' @ message"
| "rt_error_text (RtDatabase e) = ''runtime database operation failed: '' @ dbe_code e @ '': '' @ dbe_message e"

definition preview_error_of :: "rt_error \<Rightarrow> preview_error" where
  "preview_error_of e =
     (case e of
        RtPageRedirect location status \<Rightarrow> PvPageRedirect location status
      | RtNotFound \<Rightarrow> PvNotFound
      | RtInvalidInput field \<Rightarrow> PvInvalidInput field
      | _ \<Rightarrow> (case access_denial_status e of Some status \<Rightarrow> PvAccessDenied status | None \<Rightarrow> PvRuntime (rt_error_text e)))"

type_synonym 'w pv_state = "preview_store \<times> 'w"
type_synonym ('w, 'a) pv = "'w pv_state \<Rightarrow> (preview_error + 'a) \<times> 'w pv_state"

definition pv_return :: "'a \<Rightarrow> ('w, 'a) pv" where
  "pv_return x s = (Inr x, s)"

definition pv_lift :: "preview_error + 'a \<Rightarrow> ('w, 'a) pv" where
  "pv_lift r s = (r, s)"

definition pv_fail :: "string \<Rightarrow> ('w, 'a) pv" where
  "pv_fail message = pv_lift (Inl (PvRuntime message))"

definition pv_then :: "('w, 'a) pv \<Rightarrow> ('a \<Rightarrow> ('w, 'b) pv) \<Rightarrow> ('w, 'b) pv" where
  "pv_then m f s = (case m s of (Inl e, s') \<Rightarrow> (Inl e, s') | (Inr x, s') \<Rightarrow> f x s')"

fun pv_map :: "('a \<Rightarrow> ('w, 'b) pv) \<Rightarrow> 'a list \<Rightarrow> ('w, 'b list) pv" where
  "pv_map f [] = pv_return []"
| "pv_map f (x # xs) = pv_then (f x) (\<lambda>y. pv_then (pv_map f xs) (\<lambda>ys. pv_return (y # ys)))"

text \<open>An operation of the runtime works on the runtime's state only, one of the store on the store only.\<close>

definition pv_world :: "('w \<Rightarrow> (rt_error + 'a) \<times> 'w) \<Rightarrow> ('w, 'a) pv" where
  "pv_world m s = (case m (snd s) of (r, w) \<Rightarrow> (map_err preview_error_of r, (fst s, w)))"

definition pv_get :: "('w, preview_store) pv" where
  "pv_get s = (Inr (fst s), s)"

definition pv_modify :: "(preview_store \<Rightarrow> preview_store) \<Rightarrow> ('w, unit) pv" where
  "pv_modify f s = (Inr (), (f (fst s), snd s))"

subsection \<open>Requests to the backend runtime\<close>

record request_filter =
  rf_field :: string
  rf_op :: query_filter_op
  rf_value :: json_value

record query_request =
  qr_collection :: string
  qr_joins :: "query_join list"
  qr_filters :: "request_filter list"
  qr_orders :: "query_order list"
  qr_limit :: "nat option"
  qr_offset :: "nat option"
  qr_mode :: query_mode

datatype runtime_operation =
    RoInsert string "(string, json_value) bmap"
  | RoUpdate string "(string, json_value) bmap" "request_filter list"
  | RoDelete string "request_filter list"

record stored_file =
  sf_id :: string
  sf_storage :: string
  sf_file_name :: string
  sf_content_type :: "string option"
  sf_size :: nat

record 'w preview_runtime =
  rt_load :: "query_request \<Rightarrow> 'w \<Rightarrow> (rt_error + json_value) \<times> 'w"
  rt_raw_query :: "string \<Rightarrow> json_value list \<Rightarrow> 'w \<Rightarrow> (rt_error + json_value) \<times> 'w"
  rt_mutate :: "runtime_operation \<Rightarrow> 'w \<Rightarrow> (rt_error + json_value) \<times> 'w"
  rt_transaction :: "runtime_operation list \<Rightarrow> 'w \<Rightarrow> (rt_error + json_value list) \<times> 'w"
  rt_revalidate :: "string \<Rightarrow> 'w \<Rightarrow> (rt_error + unit) \<times> 'w"
  rt_native_call :: "string \<Rightarrow> json_value \<Rightarrow> 'w \<Rightarrow> (rt_error + json_value) \<times> 'w"
  rt_create_session :: "string \<Rightarrow> (string, json_value) bmap \<Rightarrow> 'w \<Rightarrow> (rt_error + json_value ax_session \<times> ax_cookie) \<times> 'w"
  rt_load_session :: "http_request \<Rightarrow> 'w \<Rightarrow> (rt_error + json_value ax_session option) \<times> 'w"
  rt_refresh_session :: "http_request \<Rightarrow> 'w \<Rightarrow> (rt_error + (json_value ax_session \<times> ax_cookie) option) \<times> 'w"
  rt_destroy_session :: "http_request \<Rightarrow> 'w \<Rightarrow> (rt_error + ax_cookie) \<times> 'w"

record ('w, 'h) preview_env =
  pe_eval :: "scope \<Rightarrow> string \<Rightarrow> preview_error + ax_value"
  pe_eval_plain :: "scope \<Rightarrow> string \<Rightarrow> preview_error + ax_value"
  pe_eval_default :: "string \<Rightarrow> preview_error + ax_value"
  pe_runtime :: "'w preview_runtime option"
  pe_storage :: "(string \<Rightarrow> ax_incoming_file \<Rightarrow> 'w \<Rightarrow> (rt_error + stored_file) \<times> 'w) option"
  pe_secret :: "string \<Rightarrow> rt_error + string"
  pe_mac :: "string \<Rightarrow> bytes \<Rightarrow> bytes"
  pe_tokens :: "string \<Rightarrow> token_tree list option"
  pe_numbers :: json_numbers
  pe_parse_json :: "bytes \<Rightarrow> json_value option"
  pe_json_text :: "json_value \<Rightarrow> string"
  pe_digest :: "bytes \<Rightarrow> bytes"
  pe_argon2 :: "'h argon2"
  pe_clock :: "'w \<Rightarrow> nat"
  pe_salt :: "'w \<Rightarrow> bytes option \<times> 'w"
  pe_uuid :: "'w \<Rightarrow> string \<times> 'w"
  pe_types :: data_context

definition with_runtime :: "('w, 'h) preview_env \<Rightarrow> string \<Rightarrow> ('w preview_runtime \<Rightarrow> ('w, 'a) pv) \<Rightarrow> ('w, 'a) pv" where
  "with_runtime e message f = (case pe_runtime e of Some rt \<Rightarrow> f rt | None \<Rightarrow> pv_fail message)"

subsection \<open>JSON\<close>

text \<open>\<open>serde_json\<close> has a number for every finite float, so the last branch of the float case does not
  occur for an \<open>AxFloat\<close>.\<close>

fun preview_value_to_json :: "json_numbers \<Rightarrow> ax_value \<Rightarrow> json_value" where
  "preview_value_to_json num AvNull = JNull"
| "preview_value_to_json num (AvString s) = JString s"
| "preview_value_to_json num (AvNumber i) = JNumber (of_i64 num (sint i))"
| "preview_value_to_json num (AvFloat f) = (case of_f64 num f of Some n \<Rightarrow> JNumber n | None \<Rightarrow> JNull)"
| "preview_value_to_json num (AvBool b) = JBool b"
| "preview_value_to_json num (AvRecord fs) = JObject (map (\<lambda>p. (fst p, preview_value_to_json num (snd p))) fs)"
| "preview_value_to_json num (AvList vs) = JArray (map (preview_value_to_json num) vs)"

fun preview_json_to_value :: "json_numbers \<Rightarrow> json_value \<Rightarrow> ax_value" where
  "preview_json_to_value num JNull = AvNull"
| "preview_json_to_value num (JBool b) = AvBool b"
| "preview_json_to_value num (JNumber n) =
     (case as_i64 num n of Some i \<Rightarrow> AvNumber (word_of_int i) | None \<Rightarrow> AvString n)"
| "preview_json_to_value num (JString s) = AvString s"
| "preview_json_to_value num (JArray vs) = AvList (map (preview_json_to_value num) vs)"
| "preview_json_to_value num (JObject fs) = AvRecord (map (\<lambda>p. (fst p, preview_json_to_value num (snd p))) fs)"

text \<open>\<open>Number::is_f64\<close>: neither of the integer readings.\<close>

definition json_is_f64 :: "json_numbers \<Rightarrow> string \<Rightarrow> bool" where
  "json_is_f64 num n = (as_i64 num n = None \<and> as_u64 num n = None)"

fun preview_record_json_to_value :: "json_numbers \<Rightarrow> json_value \<Rightarrow> ax_value" where
  "preview_record_json_to_value num (JNumber n) =
     (case (if json_is_f64 num n then Option.bind (as_f64 num n) ax_float_new else None) of
        Some f \<Rightarrow> AvFloat f | None \<Rightarrow> preview_json_to_value num (JNumber n))"
| "preview_record_json_to_value num (JArray vs) = AvList (map (preview_record_json_to_value num) vs)"
| "preview_record_json_to_value num (JObject fs) = AvRecord (map (\<lambda>p. (fst p, preview_record_json_to_value num (snd p))) fs)"
| "preview_record_json_to_value num JNull = AvNull"
| "preview_record_json_to_value num (JBool b) = AvBool b"
| "preview_record_json_to_value num (JString s) = AvString s"

definition fields_to_json :: "json_numbers \<Rightarrow> (string, ax_value) bmap \<Rightarrow> (string, json_value) bmap" where
  "fields_to_json num fs = map (\<lambda>(k, v). (k, preview_value_to_json num v)) fs"

definition filters_to_runtime :: "json_numbers \<Rightarrow> preview_filter list \<Rightarrow> request_filter list" where
  "filters_to_runtime num fs =
     map (\<lambda>f. \<lparr> rf_field = pf_field f, rf_op = pf_op f, rf_value = preview_value_to_json num (pf_value f) \<rparr>) fs"

fun operation_to_runtime :: "json_numbers \<Rightarrow> prepared_operation \<Rightarrow> runtime_operation" where
  "operation_to_runtime num (PrInsert c fs) = RoInsert c (fields_to_json num fs)"
| "operation_to_runtime num (PrUpdate c fs ps) = RoUpdate c (fields_to_json num fs) (filters_to_runtime num ps)"
| "operation_to_runtime num (PrDelete c ps) = RoDelete c (filters_to_runtime num ps)"

end
