(* ===== verification/Preview_Route.thy ===== *)
theory Preview_Route
  imports Preview_Runtime
begin

section \<open>Requests to the preview server\<close>

text \<open>
  \<open>axonyx-runtime/src/lib.rs\<close>: the path of a request, the choice of a route, what a handler sees of
  the request (its query, its parameters, the request and the identity), and the input of a handler,
  read from the request and converted to the declared types.
\<close>

subsection \<open>Paths\<close>

definition path_segments :: "string \<Rightarrow> string list" where
  "path_segments path = filter (\<lambda>s. s \<noteq> []) (split_on (CHR ''/'') (dropWhile (\<lambda>c. c = CHR ''/'') path))"

definition path_of_target :: "string \<Rightarrow> string" where
  "path_of_target target = takeWhile (\<lambda>c. c \<noteq> CHR 0x3F \<and> c \<noteq> CHR 0x23) target"

definition unsafe_segment :: "string \<Rightarrow> bool" where
  "unsafe_segment s = (s = ''.'' \<or> s = ''..'' \<or> CHR 0x5C \<in> set s)"

definition normalize_preview_request_path :: "string \<Rightarrow> preview_error + string" where
  "normalize_preview_request_path target =
     (let raw = trim (path_of_target target);
          raw_path = (if raw = [] then ''/'' else raw);
          segments = path_segments raw_path in
      if list_ex unsafe_segment segments then Inl (PvRuntime (''invalid route path `'' @ target @ ''`''))
      else if segments = [] then Inr ''/''
      else Inr (''/'' @ join_with ''/'' segments))"

definition normalize_preview_method :: "string \<Rightarrow> string" where
  "normalize_preview_method m = to_upper (trim m)"

definition url_encode_char :: "char \<Rightarrow> string" where
  "url_encode_char c =
     (if is_alphanumeric c \<or> c \<in> {CHR ''-'', CHR ''_'', CHR ''.'', CHR 0x7E} then [c]
      else CHR 0x25 # map upper_char [nibble_char (code c div 16), nibble_char (code c mod 16)])"

definition url_encode :: "string \<Rightarrow> string" where
  "url_encode s = concat (map url_encode_char s)"

definition preview_action_endpoint_path :: "string \<Rightarrow> string \<Rightarrow> string" where
  "preview_action_endpoint_path path action = ''/__axonyx/action?path='' @ url_encode path @ ''&name='' @ url_encode action"

subsection \<open>The route of a request\<close>

fun match_segments :: "string list \<Rightarrow> string list \<Rightarrow> (string, ax_value) bmap \<Rightarrow> nat \<Rightarrow> ((string, ax_value) bmap \<times> nat) option" where
  "match_segments (p # ps) (r # rs) params statics =
     (case strip_prefix '':'' p of
        Some name \<Rightarrow> if name = [] then None else match_segments ps rs (bm_insert name (AvString r) params) statics
      | None \<Rightarrow> if p \<noteq> r then None else match_segments ps rs params (statics + 1))"
| "match_segments ps rs params statics = Some (params, statics)"

definition match_preview_route_pattern :: "string \<Rightarrow> string \<Rightarrow> ((string, ax_value) bmap \<times> nat) option" where
  "match_preview_route_pattern pattern path =
     (let ps = path_segments pattern; rs = path_segments path in
      if length ps \<noteq> length rs then None else match_segments ps rs [] 0)"

record route_match =
  rm_handler :: handler_plan
  rm_params :: "(string, ax_value) bmap"

text \<open>The score is the pair of the static segments and of \<open>usize::MAX\<close> less the length of the pattern; the
  tuples are compared lexicographically.\<close>

definition usize_max :: nat where
  "usize_max = 2 ^ 64 - 1"

definition score_le :: "nat \<times> nat \<Rightarrow> nat \<times> nat \<Rightarrow> bool" where
  "score_le a b = (fst a < fst b \<or> fst a = fst b \<and> snd a \<le> snd b)"

definition route_candidate :: "string \<Rightarrow> string \<Rightarrow> handler_plan \<Rightarrow> ((nat \<times> nat) \<times> route_match) option" where
  "route_candidate m path h =
     (case hp_kind h of
        HkRoute rmeth pattern returns input \<Rightarrow>
          if normalize_preview_method rmeth \<noteq> m then None
          else map_option (\<lambda>(params, statics).
                 ((statics, usize_max - length (path_segments pattern)), \<lparr> rm_handler = h, rm_params = params \<rparr>))
                 (match_preview_route_pattern pattern path)
      | _ \<Rightarrow> None)"

fun best_route :: "string \<Rightarrow> string \<Rightarrow> handler_plan list \<Rightarrow> ((nat \<times> nat) \<times> route_match) option \<Rightarrow> route_match option" where
  "best_route m path [] best = map_option snd best"
| "best_route m path (h # hs) best =
     (case route_candidate m path h of
        None \<Rightarrow> best_route m path hs best
      | Some (score, r) \<Rightarrow>
          if (case best of Some (current, _) \<Rightarrow> score_le score current | None \<Rightarrow> False) then best_route m path hs best
          else best_route m path hs (Some (score, r)))"

definition match_preview_route :: "handler_plan list \<Rightarrow> string \<Rightarrow> string \<Rightarrow> route_match option" where
  "match_preview_route routes m path = best_route (normalize_preview_method m) path routes None"

subsection \<open>What a handler sees of a request\<close>

definition text_fields :: "(string, string) bmap \<Rightarrow> ax_value" where
  "text_fields kvs = AvRecord (map (\<lambda>(k, v). (k, AvString v)) kvs)"

definition build_preview_query_record :: "(string, string) bmap \<Rightarrow> ax_value" where
  "build_preview_query_record query = text_fields query"

definition normalize_preview_header_key :: "string \<Rightarrow> string" where
  "normalize_preview_header_key key =
     concat (map (\<lambda>(ch, bs). if list_all is_alphanumeric bs then bs else ''_'') (utf8_split (to_lower (trim key))))"

definition parse_preview_cookie_fields :: "string \<Rightarrow> (string, string) bmap" where
  "parse_preview_cookie_fields cookies =
     bm_of_list (List.map_filter (\<lambda>pair. map_option (\<lambda>(k, v). (trim k, trim v)) (split_once (CHR ''='') (trim pair)))
       (split_on (CHR '';'') cookies))"

definition build_preview_request_record :: "('w, 'h) preview_env \<Rightarrow> http_request \<Rightarrow> ax_value" where
  "build_preview_request_record e r =
     (let cookies = (case header_value r ''Cookie'' of Some c \<Rightarrow> parse_preview_cookie_fields c | None \<Rightarrow> []);
          json = (case pe_parse_json e (req_body r) of
                    Some v \<Rightarrow> preview_json_to_value (pe_numbers e) v | None \<Rightarrow> AvNull) in
      AvRecord (bm_of_list
        [(''method'', AvString (req_method r)), (''target'', AvString (req_target r)),
         (''body'', AvString (body_text_lossy r)),
         (''headers'', text_fields (bm_of_list (map (\<lambda>(k, v). (normalize_preview_header_key k, v)) (req_headers r)))),
         (''cookies'', text_fields cookies),
         (''form'', text_fields (parse_urlencoded_fields (body_text_lossy r))),
         (''json'', json)]))"

definition or_empty :: "string option \<Rightarrow> string" where
  "or_empty v = (case v of Some s \<Rightarrow> s | None \<Rightarrow> [])"

definition build_preview_auth_record :: "('w, 'h) preview_env \<Rightarrow> http_request \<Rightarrow> json_value ax_session option \<Rightarrow> ax_value" where
  "build_preview_auth_record e r session =
     (let signed = (case pe_secret e ''session_key'' of
                      Inr secret \<Rightarrow> or_empty (signed_session (pe_mac e) r secret) | Inl _ \<Rightarrow> []) in
      text_record
        [(''bearer'', or_empty (bearer_token r)), (''session'', or_empty (auth_session r)),
         (''signedSession'', signed), (''subject'', or_empty (map_option session_subject session))])"

definition build_preview_route_scope :: "string \<Rightarrow> (string, string) bmap \<Rightarrow> (string, string) bmap \<Rightarrow> scope" where
  "build_preview_route_scope target route_params query =
     (let params = text_fields route_params;
          raw = path_of_target target;
          path = (if raw = [] then ''/'' else raw);
          segments = filter (\<lambda>s. s \<noteq> []) (split_on (CHR ''/'') path);
          section1 = (case segments of s # _ \<Rightarrow> s | [] \<Rightarrow> []);
          subsection1 = (case segments of _ # s # _ \<Rightarrow> s | _ \<Rightarrow> []) in
      bm_of_list
        [(''params'', params), (''query'', build_preview_query_record query),
         (''route'', AvRecord (bm_of_list
            [(''path'', AvString path), (''section'', AvString section1), (''subsection'', AvString subsection1),
             (''params'', params)]))])"

subsection \<open>Inputs\<close>

text \<open>\<open>str::parse::<f64>\<close> followed by \<open>AxFloat::new\<close>: infinities and NaN, which \<open>parse\<close> also reads, are
  refused by the second.\<close>

definition f64_of_decimal :: "bool \<Rightarrow> nat \<times> int \<Rightarrow> f64" where
  "f64_of_decimal negative ne =
     (case ne of (n, ex) \<Rightarrow>
        f64_make negative
          (if 0 \<le> ex then round_mag (n * 10 ^ nat ex * f64_scale) 1 else round_mag (n * f64_scale) (10 ^ nat (- ex))))"

definition parse_ax_float :: "string \<Rightarrow> f64 option" where
  "parse_ax_float s =
     (case s of
        [] \<Rightarrow> None
      | c # cs \<Rightarrow>
          Option.bind (parse_decimal (if c = CHR ''-'' \<or> c = CHR ''+'' then cs else s))
            (\<lambda>ne. ax_float_new (f64_of_decimal (c = CHR ''-'') ne)))"

fun preview_value_type_name :: "ax_value \<Rightarrow> string" where
  "preview_value_type_name AvNull = ''Null''"
| "preview_value_type_name (AvString s) = ''String''"
| "preview_value_type_name (AvNumber i) = ''Number''"
| "preview_value_type_name (AvFloat f) = ''Float''"
| "preview_value_type_name (AvBool b) = ''Bool''"
| "preview_value_type_name (AvRecord fs) = ''Record''"
| "preview_value_type_name (AvList vs) = ''List''"

definition coerce_preview_loader_input_value :: "string \<Rightarrow> string \<Rightarrow> ax_value \<Rightarrow> preview_error + ax_value" where
  "coerce_preview_loader_input_value name ty v =
     (let wrong = Inl (PvRuntime (''loader input `'' @ name @ ''` expected '' @ ty @ '' but received '' @ preview_value_type_name v)) in
      case v of
        AvNull \<Rightarrow> Inr AvNull
      | AvString s \<Rightarrow> if ty = ''String'' then Inr v else wrong
      | AvNumber i \<Rightarrow>
          if ty = ''String'' then Inr (AvString (as_string v))
          else if ty = ''i64'' \<or> ty = ''u64'' then Inr v
          else if ty = ''f64'' then Inr (AvFloat (f64_of_i64 i))
          else wrong
      | AvFloat f \<Rightarrow>
          if ty = ''String'' then Inr (AvString (as_string v)) else if ty = ''f64'' then Inr v else wrong
      | AvBool b \<Rightarrow>
          if ty = ''String'' then Inr (AvString (as_string v)) else if ty = ''bool'' then Inr v else wrong
      | _ \<Rightarrow> wrong)"

definition coerce_default_value :: "string \<Rightarrow> string \<Rightarrow> ax_value \<Rightarrow> preview_error + ax_value" where
  "coerce_default_value name ty v =
     (let wrong = Inl (PvRuntime (''default value for input `'' @ name @ ''` does not match expected '' @ ty @ '': got ''
                         @ preview_value_type_name v)) in
      if ty = ''bool'' then (case v of AvBool b \<Rightarrow> Inr v | _ \<Rightarrow> wrong)
      else if ty = ''i64'' \<or> ty = ''u64'' then (case v of AvNumber i \<Rightarrow> Inr v | _ \<Rightarrow> wrong)
      else if ty = ''f64'' then
        (case v of AvNumber i \<Rightarrow> Inr (AvFloat (f64_of_i64 i)) | AvFloat f \<Rightarrow> Inr v | _ \<Rightarrow> wrong)
      else if ty = ''String'' then Inr (AvString (as_string v))
      else wrong)"

definition coerce_preview_default_input_value :: "('w, 'h) preview_env \<Rightarrow> string \<Rightarrow> string \<Rightarrow> string \<Rightarrow> preview_error + ax_value" where
  "coerce_preview_default_input_value e name ty dflt = and_then (pe_eval_default e dflt) (coerce_default_value name ty)"

definition coerce_preview_input_value :: "string \<Rightarrow> string \<Rightarrow> string \<Rightarrow> preview_error + ax_value" where
  "coerce_preview_input_value name ty v =
     (if ty = ''bool'' then Inr (AvBool (to_lower (trim v) \<in> {''true'', ''1'', ''on'', ''yes''}))
      else if ty = ''i64'' then
        (case parse_signed 64 (trim v) of
           Some i \<Rightarrow> Inr (AvNumber (word_of_int i))
         | None \<Rightarrow> Inl (PvRuntime (''input `'' @ name @ ''` expected i64 but received `'' @ v @ ''`'')))
      else if ty = ''u64'' then
        (case parse_unsigned 64 (trim v) of
           None \<Rightarrow> Inl (PvRuntime (''input `'' @ name @ ''` expected u64 but received `'' @ v @ ''`''))
         | Some n \<Rightarrow>
             if n < 2 ^ 63 then Inr (AvNumber (word_of_nat n))
             else Inl (PvRuntime (''input `'' @ name @ ''` exceeded Axonyx preview number range'')))
      else if ty = ''f64'' then
        (case parse_ax_float (trim v) of
           Some f \<Rightarrow> Inr (AvFloat f)
         | None \<Rightarrow> Inl (PvRuntime (''input `'' @ name @ ''` expected finite f64 but received `'' @ v @ ''`'')))
      else Inr (AvString v))"

definition input_text :: "('w, 'h) preview_env \<Rightarrow> (string, string) bmap \<Rightarrow> http_request option \<Rightarrow> string \<Rightarrow> string option" where
  "input_text e input_fields request name =
     (case bm_get input_fields name of
        Some v \<Rightarrow> Some v
      | None \<Rightarrow>
          (case request of
             None \<Rightarrow> None
           | Some r \<Rightarrow>
               (case form_value r name of
                  Some v \<Rightarrow> Some v
                | None \<Rightarrow> map_option (json_field_string (pe_json_text e)) (json_field_value (pe_parse_json e) r name))))"

text \<open>The value of one declared field; \<open>None\<close> is a file input, which is not part of the record.\<close>

definition preview_input_field ::
  "('w, 'h) preview_env \<Rightarrow> (string, string) bmap \<Rightarrow> http_request option \<Rightarrow> field_plan \<Rightarrow> preview_error + (string \<times> ax_value) option" where
  "preview_input_field e input_fields request f =
     (let name = fd_name f; ty = fd_rust_ty f; found = (\<lambda>v. Inr (Some (name, v))) in
      if \<not> fd_optional f \<and> fd_default f = None \<and> bm_get (ctx_records (pe_types e)) ty \<noteq> None then
        and_then (map_err preview_error_of
            (decode_record (pe_parse_json e) (pe_numbers e) request (bm_get input_fields name) name ty (pe_types e)))
          (\<lambda>v. found (preview_record_json_to_value (pe_numbers e) v))
      else if ty = ''AxIncomingFile'' then
        (if Option.bind request (\<lambda>r. incoming_file r name) = None then Inl (preview_error_of (RtInvalidInput name)) else Inr None)
      else
        (case input_text e input_fields request name of
           Some v \<Rightarrow> and_then (map_err (\<lambda>_. PvInvalidInput name) (coerce_preview_input_value name ty v)) found
         | None \<Rightarrow>
             (case fd_default f of
                Some d \<Rightarrow> and_then (coerce_preview_default_input_value e name ty d) found
              | None \<Rightarrow>
                  if fd_optional f then found AvNull
                  else if ty = ''bool'' then found (AvBool False)
                  else Inl (preview_error_of (RtInvalidInput name)))))"

definition build_preview_input_record ::
  "('w, 'h) preview_env \<Rightarrow> field_plan list \<Rightarrow> (string, string) bmap \<Rightarrow> http_request option \<Rightarrow> preview_error + ax_value" where
  "build_preview_input_record e input input_fields request =
     and_then (try_map (preview_input_field e input_fields request) input)
       (\<lambda>kvs. Inr (AvRecord (bm_of_list (List.map_filter id kvs))))"

definition build_preview_route_input_record :: "('w, 'h) preview_env \<Rightarrow> field_plan list \<Rightarrow> http_request \<Rightarrow> preview_error + ax_value" where
  "build_preview_route_input_record e input r = build_preview_input_record e input [] (Some r)"

fun loader_input_fields :: "('w, 'h) preview_env \<Rightarrow> field_plan list \<Rightarrow> ax_value list \<Rightarrow> preview_error + (string \<times> ax_value) list" where
  "loader_input_fields e [] args = Inr []"
| "loader_input_fields e (f # fs) (a # args) =
     and_then (coerce_preview_loader_input_value (fd_name f) (fd_rust_ty f) a) (\<lambda>v.
     and_then (loader_input_fields e fs args) (\<lambda>kvs. Inr ((fd_name f, v) # kvs)))"
| "loader_input_fields e (f # fs) [] =
     and_then
       (case fd_default f of
          Some d \<Rightarrow> coerce_preview_default_input_value e (fd_name f) (fd_rust_ty f) d
        | None \<Rightarrow>
            if fd_optional f then Inr AvNull
            else if fd_rust_ty f = ''bool'' then Inr (AvBool False)
            else Inl (PvRuntime (''missing required loader input `'' @ fd_name f @ ''`''))) (\<lambda>v.
     and_then (loader_input_fields e fs []) (\<lambda>kvs. Inr ((fd_name f, v) # kvs)))"

definition build_preview_loader_input_record :: "('w, 'h) preview_env \<Rightarrow> field_plan list \<Rightarrow> ax_value list \<Rightarrow> preview_error + ax_value" where
  "build_preview_loader_input_record e input args = and_then (loader_input_fields e input args) (\<lambda>kvs. Inr (AvRecord (bm_of_list kvs)))"

end
