(* ===== verification/Preview_Action.thy ===== *)
theory Preview_Action
  imports Preview_Route Native
begin

section \<open>Queries and actions of the preview server\<close>

text \<open>
  \<open>axonyx-runtime/src/lib.rs\<close>: the values a step binds, transactions, the execution of a query
  handler (a loader) and of an action. A handler is run step by step; a failure keeps the effects of
  the steps before it, as the source does.
\<close>

subsection \<open>Values\<close>

definition native_call_name :: "('w, 'h) preview_env \<Rightarrow> string list \<Rightarrow> string option" where
  "native_call_name e args =
     (case args of
        [name, _] \<Rightarrow>
          (let c = trim name; literal = (case strip_suffix ''.to_string()'' c of Some l \<Rightarrow> l | None \<Rightarrow> c) in
           case pe_parse_json e literal of
             Some (JString s) \<Rightarrow> if is_native_function_name s then Some s else None
           | _ \<Rightarrow> None)
      | _ \<Rightarrow> None)"

definition preview_call_expr :: "string list \<Rightarrow> string list \<Rightarrow> string" where
  "preview_call_expr path args = join_with ''::'' path @ ''('' @ join_with '', '' args @ '')''"

definition request_filter_of :: "('w, 'h) preview_env \<Rightarrow> scope \<Rightarrow> query_filter_plan \<Rightarrow> preview_error + request_filter" where
  "request_filter_of e sc f =
     and_then (pe_eval e sc (fp_value f)) (\<lambda>v.
       Inr \<lparr> rf_field = fp_field f, rf_op = fp_op f, rf_value = preview_value_to_json (pe_numbers e) v \<rparr>)"

definition preview_query_to_runtime_request :: "('w, 'h) preview_env \<Rightarrow> scope \<Rightarrow> string \<Rightarrow> query_plan \<Rightarrow> preview_error + query_request" where
  "preview_query_to_runtime_request e sc c q =
     and_then (try_map (request_filter_of e sc) (qp_filters q)) (\<lambda>fs.
       Inr \<lparr> qr_collection = c, qr_joins = qp_joins q, qr_filters = fs, qr_orders = qp_orders q,
             qr_limit = qp_limit q, qr_offset = qp_offset q, qr_mode = qp_mode q \<rparr>)"

definition eval_store_query :: "('w, 'h) preview_env \<Rightarrow> scope \<Rightarrow> query_plan \<Rightarrow> ('w, ax_value) pv" where
  "eval_store_query e sc q = pv_then pv_get (\<lambda>s. pv_lift (eval_preview_query (pe_eval e) sc s q))"

definition eval_query_with_runtime :: "('w, 'h) preview_env \<Rightarrow> scope \<Rightarrow> query_plan \<Rightarrow> ('w, ax_value) pv" where
  "eval_query_with_runtime e sc q =
     (case pe_runtime e of
        None \<Rightarrow> eval_store_query e sc q
      | Some rt \<Rightarrow>
          (case qp_source q of
             SpStream c \<Rightarrow>
               pv_then (pv_lift (preview_query_to_runtime_request e sc c q)) (\<lambda>r.
               pv_then (pv_world (rt_load rt r)) (\<lambda>v. pv_return (preview_json_to_value (pe_numbers e) v)))
           | SpRawSql sql params \<Rightarrow>
               pv_then (pv_lift (try_map (\<lambda>p. and_then (pe_eval e sc p) (\<lambda>v. Inr (preview_value_to_json (pe_numbers e) v))) params)) (\<lambda>ps.
               pv_then (pv_world (rt_raw_query rt sql ps)) (\<lambda>v. pv_return (preview_json_to_value (pe_numbers e) v)))
           | SpContentCollection c \<Rightarrow> eval_store_query e sc q))"

definition eval_verify_optional :: "('w, 'h) preview_env \<Rightarrow> scope \<Rightarrow> string list \<Rightarrow> preview_error + ax_value" where
  "eval_verify_optional e sc args =
     (let invalid = PvRuntime ''Password.verifyOptional requires (String password, optionalRecord?.stringField)'' in
      case args of
        [password, hash] \<Rightarrow>
          and_then (pe_eval e sc password) (\<lambda>p.
            case p of
              AvString p' \<Rightarrow>
                (case split_once_str ''?.'' hash of
                   None \<Rightarrow> Inl invalid
                 | Some (binding, field) \<Rightarrow>
                     and_then
                       (case bm_get sc binding of
                          Some AvNull \<Rightarrow> Inr None
                        | Some (AvRecord r) \<Rightarrow> (case bm_get r field of Some (AvString h) \<Rightarrow> Inr (Some h) | _ \<Rightarrow> Inl invalid)
                        | _ \<Rightarrow> Inl invalid)
                       (\<lambda>h. map_err (\<lambda>_. PvRuntime ''password verification failed'')
                              (and_then (verify_optional (pe_argon2 e) p' h) (\<lambda>b. Inr (AvBool b)))))
            | _ \<Rightarrow> Inl invalid)
      | _ \<Rightarrow> Inl invalid)"

definition eval_password_hash :: "('w, 'h) preview_env \<Rightarrow> scope \<Rightarrow> string list \<Rightarrow> ('w, ax_value) pv" where
  "eval_password_hash e sc args =
     (case args of
        [password] \<Rightarrow>
          pv_then (pv_lift (pe_eval e sc password)) (\<lambda>p.
            case p of
              AvString p' \<Rightarrow> (\<lambda>(s, w). case pe_salt e w of (salt, w') \<Rightarrow>
                 (case password_hash (pe_argon2 e) salt p' of
                    Inr h \<Rightarrow> (Inr (AvString h), (s, w'))
                  | Inl _ \<Rightarrow> (Inl (PvRuntime ''password hashing failed''), (s, w'))))
            | _ \<Rightarrow> pv_fail ''Password.hash requires String argument'')
      | _ \<Rightarrow> pv_fail ''Password.hash requires exactly one String argument'')"

definition eval_password_verify :: "('w, 'h) preview_env \<Rightarrow> scope \<Rightarrow> string list \<Rightarrow> preview_error + ax_value" where
  "eval_password_verify e sc args =
     (case args of
        [password, hash] \<Rightarrow>
          and_then (pe_eval e sc password) (\<lambda>p. and_then (pe_eval e sc hash) (\<lambda>h.
            case (p, h) of
              (AvString p', AvString h') \<Rightarrow>
                map_err (\<lambda>_. PvRuntime ''password verification failed'')
                  (and_then (password_verify (pe_argon2 e) p' h') (\<lambda>b. Inr (AvBool b)))
            | _ \<Rightarrow> Inl (PvRuntime ''Password.verify requires String arguments'')))
      | _ \<Rightarrow> Inl (PvRuntime ''Password.verify requires exactly two String arguments''))"

definition eval_native_call :: "('w, 'h) preview_env \<Rightarrow> scope \<Rightarrow> string list \<Rightarrow> ('w, ax_value) pv" where
  "eval_native_call e sc args =
     (case native_call_name e args of
        None \<Rightarrow> pv_fail ''Native.call requires a literal registered function name and one payload in a backend data binding''
      | Some name \<Rightarrow>
          with_runtime e ''native functions are unavailable for this backend runtime'' (\<lambda>rt.
            pv_then (pv_lift (pe_eval e sc (args ! 1))) (\<lambda>v. \<lambda>(s, w).
              case rt_native_call rt name (preview_value_to_json (pe_numbers e) v) w of
                (Inr j, w') \<Rightarrow> (Inr (preview_json_to_value (pe_numbers e) j), (s, w'))
              | (Inl err, w') \<Rightarrow> (Inl (PvRuntime (rt_error_text err)), (s, w')))))"

fun eval_preview_value :: "('w, 'h) preview_env \<Rightarrow> scope \<Rightarrow> value_plan \<Rightarrow> ('w, ax_value) pv" where
  "eval_preview_value e sc (VpExpr x) = pv_lift (pe_eval e sc x)"
| "eval_preview_value e sc (VpCall path args) =
     (if path = [''Native'', ''call''] then eval_native_call e sc args
      else if path = [''Password'', ''verifyOptional''] then pv_lift (eval_verify_optional e sc args)
      else if path = [''Uuid'', ''new''] then
        (if args \<noteq> [] then pv_fail ''Uuid.new requires no arguments''
         else (\<lambda>(s, w). case pe_uuid e w of (u, w') \<Rightarrow> (Inr (AvString u), (s, w'))))
      else if path = [''Password'', ''hash''] then eval_password_hash e sc args
      else if path = [''Password'', ''verify''] then pv_lift (eval_password_verify e sc args)
      else pv_lift (pe_eval e sc (preview_call_expr path args)))"
| "eval_preview_value e sc (VpQuery q) = eval_query_with_runtime e sc q"
| "eval_preview_value e sc (VpStorageSave capability input) = pv_fail ''Storage.save is only evaluated by an HTTP action runtime''"

definition ok_record :: ax_value where
  "ok_record = AvRecord [(''ok'', AvBool True)]"

fun eval_preview_return :: "('w, 'h) preview_env \<Rightarrow> scope \<Rightarrow> return_plan \<Rightarrow> preview_error + ax_value" where
  "eval_preview_return e sc (RpExpr x) = pe_eval e sc x"
| "eval_preview_return e sc (RpJson x) = pe_eval e sc x"
| "eval_preview_return e sc RpOk = Inr ok_record"
| "eval_preview_return e sc _ = Inl (PvRuntime ''HTTP response helpers are only supported in route blocks'')"

definition eval_preview_require_expr :: "preview_error evaluator \<Rightarrow> scope \<Rightarrow> string \<Rightarrow> preview_error + ax_value" where
  "eval_preview_require_expr ev sc x =
     (case ev sc x of
        Inr v \<Rightarrow> Inr v
      | Inl err \<Rightarrow> if starts_with ''request.'' (trim x) then Inr (AvString []) else Inl err)"

fun preview_require_passes :: "ax_value \<Rightarrow> bool" where
  "preview_require_passes AvNull = False"
| "preview_require_passes (AvBool b) = b"
| "preview_require_passes (AvString s) = (s \<noteq> [])"
| "preview_require_passes (AvNumber i) = True"
| "preview_require_passes (AvFloat f) = True"
| "preview_require_passes (AvRecord fs) = (fs \<noteq> [])"
| "preview_require_passes (AvList vs) = (vs \<noteq> [])"

subsection \<open>Transactions\<close>

definition execute_preview_transaction ::
  "('w, 'h) preview_env \<Rightarrow> preview_error evaluator \<Rightarrow> scope \<Rightarrow> transaction_operation_plan list \<Rightarrow> ('w, unit) pv" where
  "execute_preview_transaction e ev sc ops =
     (if ops = [] then pv_fail ''transaction requires at least one database operation''
      else
        pv_then (pv_lift (try_map (prepare_operation ev sc) ops)) (\<lambda>prepared.
          case pe_runtime e of
            Some rt \<Rightarrow>
              pv_then (pv_world (rt_transaction rt (map (operation_to_runtime (pe_numbers e)) prepared))) (\<lambda>_. pv_return ())
          | None \<Rightarrow> pv_modify (\<lambda>s. foldl (\<lambda>pending p. apply_operation p pending) s prepared)))"

text \<open>One mutation outside of a transaction.\<close>

definition execute_mutation :: "('w, 'h) preview_env \<Rightarrow> preview_error evaluator \<Rightarrow> scope \<Rightarrow> transaction_operation_plan \<Rightarrow> ('w, unit) pv" where
  "execute_mutation e ev sc op =
     pv_then (pv_lift (prepare_operation ev sc op)) (\<lambda>p.
       case pe_runtime e of
         Some rt \<Rightarrow> pv_then (pv_world (rt_mutate rt (operation_to_runtime (pe_numbers e) p))) (\<lambda>_. pv_return ())
       | None \<Rightarrow> pv_modify (apply_operation p))"

subsection \<open>Loaders\<close>

definition require_failure :: "('w, 'h) preview_env \<Rightarrow> scope \<Rightarrow> return_plan option \<Rightarrow> preview_error" where
  "require_failure e sc fallback =
     (case fallback of
        Some (RpRedirect target status) \<Rightarrow>
          (case pe_eval e sc target of
             Inl err \<Rightarrow> err
           | Inr v \<Rightarrow> preview_error_of (page_redirect (as_string v) (case status of Some n \<Rightarrow> n | None \<Rightarrow> 302)))
      | Some RpNotFound \<Rightarrow> preview_error_of RtNotFound
      | Some RpForbidden \<Rightarrow> preview_error_of RtForbidden
      | Some (RpExpr x) \<Rightarrow>
          if starts_with ''error('' (trim x) then preview_error_of RtUnauthorized else PvRuntime ''Loader requirement failed.''
      | Some (RpJson x) \<Rightarrow>
          if starts_with ''error('' (trim x) then preview_error_of RtUnauthorized else PvRuntime ''Loader requirement failed.''
      | _ \<Rightarrow> PvRuntime ''Loader requirement failed.'')"

fun run_loader_steps :: "('w, 'h) preview_env \<Rightarrow> step_plan list \<Rightarrow> scope \<Rightarrow> ('w, ax_value) pv" where
  "run_loader_steps e [] sc = pv_return AvNull"
| "run_loader_steps e (StLet binding v # rest) sc =
     pv_then (eval_preview_value e sc v) (\<lambda>x. run_loader_steps e rest (bm_insert binding x sc))"
| "run_loader_steps e (StReturn r # rest) sc = pv_lift (eval_preview_return e sc r)"
| "run_loader_steps e (StRequire x fallback # rest) sc =
     pv_then (pv_lift (eval_preview_require_expr (pe_eval e) sc x)) (\<lambda>v.
       if preview_require_passes v then run_loader_steps e rest sc
       else pv_lift (Inl (require_failure e sc fallback)))"
| "run_loader_steps e (_ # rest) sc = run_loader_steps e rest sc"

definition anonymous_auth :: ax_value where
  "anonymous_auth = AvRecord [(''subject'', AvNull)]"

definition execute_preview_loader :: "('w, 'h) preview_env \<Rightarrow> handler_plan \<Rightarrow> ax_value list \<Rightarrow> scope \<Rightarrow> ('w, ax_value) pv" where
  "execute_preview_loader e loader args initial =
     (let sc = (if bm_get initial ''Auth'' = None then bm_insert ''Auth'' anonymous_auth initial else initial) in
      case hp_kind loader of
        HkLoader returns input \<Rightarrow>
          (if length input < length args then
             pv_fail (''loader `'' @ hp_name loader @ ''` expected '' @ show_nat (length input)
                @ '' argument(s) but received '' @ show_nat (length args))
           else
             pv_then (pv_lift (if input = [] then Inr sc
                               else and_then (build_preview_loader_input_record e input args) (\<lambda>r. Inr (bm_insert ''input'' r sc))))
               (run_loader_steps e (hp_steps loader)))
      | _ \<Rightarrow> pv_fail (''handler `'' @ hp_name loader @ ''` is not a loader''))"

end
