(* ===== verification/Preview_Handlers.thy ===== *)
theory Preview_Handlers
  imports Preview_Action
begin

section \<open>Actions and routes of the preview server\<close>

text \<open>
  \<open>axonyx-runtime/src/lib.rs\<close>, \<open>execute_preview_action\<close> and \<open>execute_preview_route\<close>: the scope of a
  handler, its steps, its result with redirects, invalidations, state patches and cookies, and the
  response of a route with its headers, hooks and contract check. A throttle hook counts in the store
  and reads the clock in nanoseconds.
\<close>

subsection \<open>Results of actions\<close>

record preview_invalidation =
  inv_target :: string
  inv_query_key :: "string list"

record preview_state_patch =
  sp_op :: string
  sp_signal :: string
  sp_value :: ax_value
  sp_source :: "string option"

record preview_action_error =
  ae_message :: string
  ae_status :: nat
  ae_value :: ax_value

record preview_action_result =
  ar_redirect_to :: "string option"
  ar_value :: ax_value
  ar_patches :: "preview_state_patch list"
  ar_invalidations :: "preview_invalidation list"
  ar_cookies :: "ax_cookie list"
  ar_error :: "preview_action_error option"

definition normalize_preview_invalidation_target :: "string \<Rightarrow> string" where
  "normalize_preview_invalidation_target target =
     (let t = trim_chars [CHR ''/''] (trim_chars [CHR 0x22] (trim target)) in
      if t = [] then ''root'' else map (\<lambda>c. if c = CHR ''/'' then CHR ''.'' else c) t)"

definition invalidation_new :: "string \<Rightarrow> preview_invalidation" where
  "invalidation_new target = \<lparr> inv_target = target, inv_query_key = [normalize_preview_invalidation_target target] \<rparr>"

definition push_preview_auto_invalidation :: "preview_invalidation list \<Rightarrow> string \<Rightarrow> preview_invalidation list" where
  "push_preview_auto_invalidation invs target =
     (let i = invalidation_new target in
      if list_ex (\<lambda>x. inv_query_key x = inv_query_key i) invs then invs else invs @ [i])"

fun replace_first :: "('a \<Rightarrow> bool) \<Rightarrow> 'a \<Rightarrow> 'a list \<Rightarrow> 'a list option" where
  "replace_first p y [] = None"
| "replace_first p y (x # xs) = (if p x then Some (y # xs) else map_option ((#) x) (replace_first p y xs))"

definition push_preview_explicit_invalidation :: "preview_invalidation list \<Rightarrow> string \<Rightarrow> preview_invalidation list" where
  "push_preview_explicit_invalidation invs target =
     (let i = invalidation_new target in
      case replace_first (\<lambda>x. inv_query_key x = inv_query_key i) i invs of Some invs' \<Rightarrow> invs' | None \<Rightarrow> invs @ [i])"

definition is_preview_identifier :: "string \<Rightarrow> bool" where
  "is_preview_identifier s =
     (s \<noteq> [] \<and> \<not> is_digit (hd s) \<and> list_all (\<lambda>c. c = CHR ''_'' \<or> is_alphanumeric c) s)"

definition eval_preview_revalidation_target :: "('w, 'h) preview_env \<Rightarrow> scope \<Rightarrow> string \<Rightarrow> bool \<Rightarrow> preview_error + string" where
  "eval_preview_revalidation_target e sc x literal =
     (if literal \<and> is_preview_identifier (trim x) then Inr (trim x)
      else and_then (pe_eval e sc x) (\<lambda>v. Inr (as_string v)))"

definition patch_set :: "string \<Rightarrow> ax_value \<Rightarrow> preview_state_patch" where
  "patch_set signal v = \<lparr> sp_op = ''set'', sp_signal = signal, sp_value = v, sp_source = Some ''action'' \<rparr>"

definition forbidden_error :: preview_action_error where
  "forbidden_error = \<lparr> ae_message = ''forbidden'', ae_status = 403, ae_value = AvRecord [(''error'', AvString ''forbidden'')] \<rparr>"

definition validation_error :: "string \<Rightarrow> ax_value \<Rightarrow> preview_action_error" where
  "validation_error message v = \<lparr> ae_message = message, ae_status = 422, ae_value = v \<rparr>"

definition error_message_of :: "ax_value \<Rightarrow> string" where
  "error_message_of v =
     (case v of
        AvRecord fs \<Rightarrow>
          (case or_else (bm_get fs ''error'') (bm_get fs ''message'') of
             Some m \<Rightarrow> as_string m | None \<Rightarrow> ''Action requirement failed.'')
      | _ \<Rightarrow> as_string v)"

definition eval_preview_action_error_fallback ::
  "('w, 'h) preview_env \<Rightarrow> scope \<Rightarrow> return_plan option \<Rightarrow> preview_error + preview_action_error" where
  "eval_preview_action_error_fallback e sc fallback =
     (let failed = (\<lambda>v. Inr (validation_error (error_message_of v) v)) in
      case fallback of
        Some RpNotFound \<Rightarrow> Inr \<lparr> ae_message = ''Resource not found.'', ae_status = 404, ae_value = AvString ''not_found'' \<rparr>
      | Some RpForbidden \<Rightarrow> Inr forbidden_error
      | Some (RpPrivateResponse args) \<Rightarrow> Inl (PvRuntime ''private Binary routes require the compiled server'')
      | Some (RpPublicResponse args) \<Rightarrow> Inl (PvRuntime ''private Binary routes require the compiled server'')
      | Some (RpExpr x) \<Rightarrow> and_then (pe_eval e sc x) failed
      | Some (RpJson x) \<Rightarrow> and_then (pe_eval e sc x) failed
      | Some (RpRedirect target status) \<Rightarrow> and_then (pe_eval e sc target) (\<lambda>v. failed (AvString (as_string v)))
      | _ \<Rightarrow> failed (AvString ''Action requirement failed.''))"

subsection \<open>Throttle hooks\<close>

definition nanoseconds :: nat where
  "nanoseconds = 10 ^ 9"

definition fresh_throttle :: "login_throttle_hook \<Rightarrow> login_throttle" where
  "fresh_throttle h = \<lparr> throttle_attempts = lth_attempts h, throttle_window = lth_seconds h * nanoseconds,
     throttle_max_keys = 4096, throttle_buckets = [], throttle_poisoned = False \<rparr>"

definition try_acquire :: "('w, 'h) preview_env \<Rightarrow> string \<Rightarrow> login_throttle_hook \<Rightarrow> string \<Rightarrow> ('w, throttle_error + unit) pv" where
  "try_acquire e identity h key = (\<lambda>(s, w).
     let t = (case bm_get (ps_throttles s) identity of Some t \<Rightarrow> t | None \<Rightarrow> fresh_throttle h) in
     case acquire_at (pe_digest e) key (pe_clock e w) t of
       (r, t') \<Rightarrow> (Inr r, (s\<lparr> ps_throttles := bm_insert identity t' (ps_throttles s) \<rparr>, w)))"

definition retry_seconds :: "nat \<Rightarrow> nat" where
  "retry_seconds d = max 1 (d div nanoseconds + (if d mod nanoseconds \<noteq> 0 then 1 else 0))"

subsection \<open>Actions\<close>

record action_state =
  as_scope :: scope
  as_redirect :: "string option"
  as_value :: ax_value
  as_patches :: "preview_state_patch list"
  as_invalidations :: "preview_invalidation list"
  as_cookies :: "ax_cookie list"

definition action_result :: "action_state \<Rightarrow> preview_action_error option \<Rightarrow> preview_action_result" where
  "action_result a err =
     \<lparr> ar_redirect_to = as_redirect a, ar_value = as_value a, ar_patches = as_patches a,
       ar_invalidations = as_invalidations a, ar_cookies = as_cookies a, ar_error = err \<rparr>"

record ('w, 'h) action_context =
  ac_env :: "('w, 'h) preview_env"
  ac_name :: string
  ac_loaders :: "(string, handler_plan) bmap"
  ac_request :: "http_request option"

definition file_ref_json :: "stored_file \<Rightarrow> json_value" where
  "file_ref_json f = JObject
     [(''content_type'', case sf_content_type f of Some t \<Rightarrow> JString t | None \<Rightarrow> JNull), (''file_name'', JString (sf_file_name f)),
      (''id'', JString (sf_id f)), (''size'', JNumber (show_nat (sf_size f))), (''storage'', JString (sf_storage f))]"

text \<open>A query called from an action sees the identity and the request, not the input or the locals of the
  action.\<close>

definition query_call_scope :: "('w, 'h) action_context \<Rightarrow> scope \<Rightarrow> http_request \<Rightarrow> scope" where
  "query_call_scope c sc r =
     bm_of_list
       [(''Auth'', case bm_get sc ''Auth'' of Some v \<Rightarrow> v | None \<Rightarrow> AvNull), (''params'', AvRecord []),
        (''query'', text_fields (parse_preview_query_fields (req_target r))),
        (''request'', build_preview_request_record (ac_env c) r)]"

definition eval_action_value :: "('w, 'h) action_context \<Rightarrow> scope \<Rightarrow> value_plan \<Rightarrow> ('w, ax_value) pv" where
  "eval_action_value c sc v =
     (let e = ac_env c; plain = eval_preview_value e sc v in
      case v of
        VpCall path args \<Rightarrow>
          (case path of
             [name] \<Rightarrow>
               (case bm_get (ac_loaders c) name of
                  None \<Rightarrow> plain
                | Some loader \<Rightarrow>
                    (case ac_request c of
                       None \<Rightarrow> pv_fail ''action query calls require an HTTP request''
                     | Some r \<Rightarrow>
                         pv_then (pv_lift (try_map (pe_eval e sc) args)) (\<lambda>vs.
                           execute_preview_loader e loader vs (query_call_scope c sc r))))
           | _ \<Rightarrow> plain)
      | VpStorageSave capability input \<Rightarrow>
          (case ac_request c of
             None \<Rightarrow> pv_fail ''Storage.save requires an HTTP action request''
           | Some r \<Rightarrow>
               (case pe_storage e of
                  None \<Rightarrow> pv_fail ''Storage.save requires a configured storage runtime''
                | Some save \<Rightarrow>
                    (case incoming_file r input of
                       None \<Rightarrow> pv_fail (''missing required file input `'' @ input @ ''`'')
                     | Some file \<Rightarrow>
                         pv_then (pv_world (save capability file)) (\<lambda>f.
                           pv_return (preview_json_to_value (pe_numbers e) (file_ref_json f))))))
      | _ \<Rightarrow> plain)"

datatype action_outcome = AoNext action_state | AoStop preview_action_result

definition next_state :: "action_state \<Rightarrow> ('w, action_outcome) pv" where
  "next_state a = pv_return (AoNext a)"

definition need_request :: "('w, 'h) action_context \<Rightarrow> string \<Rightarrow> (http_request \<Rightarrow> ('w, 'a) pv) \<Rightarrow> ('w, 'a) pv" where
  "need_request c message f = (case ac_request c of Some r \<Rightarrow> f r | None \<Rightarrow> pv_fail message)"

definition session_data_object :: "json_value \<Rightarrow> preview_error + (string, json_value) bmap" where
  "session_data_object v =
     (case v of JObject fs \<Rightarrow> Inr fs | _ \<Rightarrow> Inl (PvRuntime ''Session.create data must be an object''))"

definition mutate_and_invalidate ::
  "('w, 'h) action_context \<Rightarrow> action_state \<Rightarrow> string \<Rightarrow> transaction_operation_plan \<Rightarrow> ('w, action_outcome) pv" where
  "mutate_and_invalidate c a collection op =
     pv_then (execute_mutation (ac_env c) (pe_eval (ac_env c)) (as_scope a) op) (\<lambda>_.
       next_state (a\<lparr> as_invalidations := push_preview_auto_invalidation (as_invalidations a) collection \<rparr>))"

definition action_throttle :: "('w, 'h) action_context \<Rightarrow> action_state \<Rightarrow> string \<Rightarrow> ('w, action_outcome) pv" where
  "action_throttle c a hook =
     (let e = ac_env c in
      case parse_login_throttle_hook hook of
        Inl _ \<Rightarrow> pv_fail ''invalid Login.throttle hook''
      | Inr None \<Rightarrow> next_state a
      | Inr (Some h) \<Rightarrow>
          pv_then (pv_lift (pe_eval_plain e (as_scope a) (lth_key h))) (\<lambda>key.
            case key of
              AvString k \<Rightarrow>
                pv_then (try_acquire e (''action:'' @ ac_name c @ '':'' @ hook) h k) (\<lambda>r.
                  case r of
                    Inr _ \<Rightarrow> next_state a
                  | Inl (Limited d) \<Rightarrow>
                      pv_return (AoStop ((action_result (a\<lparr> as_redirect := None \<rparr>) (Some
                        \<lparr> ae_message = ''Too many requests.'', ae_status = 429,
                          ae_value = AvRecord [(''retryAfter'', AvNumber (word_of_nat (retry_seconds d)))] \<rparr>))))
                  | Inl _ \<Rightarrow> pv_fail ''login throttle unavailable'')
            | _ \<Rightarrow> pv_fail ''login throttle key must be String''))"

fun action_step :: "('w, 'h) action_context \<Rightarrow> step_plan \<Rightarrow> action_state \<Rightarrow> ('w, action_outcome) pv" where
  "action_step c (StLet binding v) a =
     pv_then (eval_action_value c (as_scope a) v) (\<lambda>x. next_state (a\<lparr> as_scope := bm_insert binding x (as_scope a) \<rparr>))"
| "action_step c (StInsert collection flds) a = mutate_and_invalidate c a collection (TpInsert collection flds)"
| "action_step c (StUpdate collection flds filters) a = mutate_and_invalidate c a collection (TpUpdate collection flds filters)"
| "action_step c (StDelete collection filters) a = mutate_and_invalidate c a collection (TpDelete collection filters)"
| "action_step c (StTransaction ops) a =
     pv_then (execute_preview_transaction (ac_env c) (pe_eval (ac_env c)) (as_scope a) ops) (\<lambda>_.
       next_state (a\<lparr> as_invalidations :=
         foldl (\<lambda>invs op. push_preview_auto_invalidation invs (transaction_collection op)) (as_invalidations a) ops \<rparr>))"
| "action_step c (StRevalidate x literal) a =
     pv_then (pv_lift (eval_preview_revalidation_target (ac_env c) (as_scope a) x literal)) (\<lambda>target.
     pv_then (case pe_runtime (ac_env c) of Some rt \<Rightarrow> pv_world (rt_revalidate rt target) | None \<Rightarrow> pv_return ()) (\<lambda>_.
       next_state (a\<lparr> as_redirect := (if starts_with ''/'' target then Some target else as_redirect a),
         as_invalidations := push_preview_explicit_invalidation (as_invalidations a) target \<rparr>)))"
| "action_step c (StPatch signal v) a =
     pv_then (pv_lift (pe_eval (ac_env c) (as_scope a) signal)) (\<lambda>s.
     pv_then (pv_lift (pe_eval (ac_env c) (as_scope a) v)) (\<lambda>x.
       next_state (a\<lparr> as_patches := as_patches a @ [patch_set (as_string s) x] \<rparr>)))"
| "action_step c (StSessionCreate subject data) a =
     with_runtime (ac_env c) ''Session.create requires a configured backend runtime'' (\<lambda>rt.
     pv_then (pv_lift (pe_eval (ac_env c) (as_scope a) subject)) (\<lambda>s.
     pv_then (pv_lift (pe_eval (ac_env c) (as_scope a) data)) (\<lambda>d.
     pv_then (pv_lift (session_data_object (preview_value_to_json (pe_numbers (ac_env c)) d))) (\<lambda>fs.
     pv_then (pv_world (rt_create_session rt (as_string s) fs)) (\<lambda>(_, cookie).
       next_state (a\<lparr> as_cookies := as_cookies a @ [cookie] \<rparr>))))))"
| "action_step c StSessionDestroy a =
     with_runtime (ac_env c) ''Session.destroy requires a configured backend runtime'' (\<lambda>rt.
     need_request c ''Session.destroy requires an HTTP action request'' (\<lambda>r.
     pv_then (pv_world (rt_destroy_session rt r)) (\<lambda>cookie.
       next_state (a\<lparr> as_cookies := as_cookies a @ [cookie] \<rparr>))))"
| "action_step c StSessionRefresh a =
     with_runtime (ac_env c) ''Session.refresh requires a configured backend runtime'' (\<lambda>rt.
     need_request c ''Session.refresh requires an HTTP action request'' (\<lambda>r.
     pv_then (pv_world (rt_refresh_session rt r)) (\<lambda>found.
       case found of
         None \<Rightarrow> pv_fail ''Session.refresh requires an active session''
       | Some (_, cookie) \<Rightarrow> next_state (a\<lparr> as_cookies := as_cookies a @ [cookie] \<rparr>))))"
| "action_step c (StRequire x fallback) a =
     pv_then (pv_lift (eval_preview_require_expr (pe_eval (ac_env c)) (as_scope a) x)) (\<lambda>v.
       if preview_require_passes v then next_state a
       else pv_then (pv_lift (eval_preview_action_error_fallback (ac_env c) (as_scope a) fallback)) (\<lambda>err.
              pv_return (AoStop (action_result a (Some err)))))"
| "action_step c (StReturn r) a =
     pv_then (pv_lift (eval_preview_return (ac_env c) (as_scope a) r)) (\<lambda>v. next_state (a\<lparr> as_value := v \<rparr>))"
| "action_step c (StCookie name v) a =
     pv_then (pv_lift (pe_eval (ac_env c) (as_scope a) name)) (\<lambda>n.
     pv_then (pv_lift (pe_eval (ac_env c) (as_scope a) v)) (\<lambda>x.
       next_state (a\<lparr> as_cookies := as_cookies a @ [(cookie_new (as_string n) (as_string x))\<lparr> cookie_path := Some ''/'' \<rparr>] \<rparr>)))"
| "action_step c (StClearCookie name) a =
     pv_then (pv_lift (pe_eval (ac_env c) (as_scope a) name)) (\<lambda>n.
       next_state (a\<lparr> as_cookies := as_cookies a
         @ [(cookie_new (as_string n) [])\<lparr> cookie_path := Some ''/'', cookie_max_age := Some 0 \<rparr>] \<rparr>))"
| "action_step c (StHook phase hook) a = action_throttle c a hook"
| "action_step c (StHeader name v) a = next_state a"
| "action_step c (StSend target payload) a = next_state a"

fun run_action_steps :: "('w, 'h) action_context \<Rightarrow> step_plan list \<Rightarrow> action_state \<Rightarrow> ('w, preview_action_result) pv" where
  "run_action_steps c [] a = pv_return (action_result a None)"
| "run_action_steps c (st # rest) a =
     pv_then (action_step c st a) (\<lambda>out.
       case out of AoNext a' \<Rightarrow> run_action_steps c rest a' | AoStop r \<Rightarrow> pv_return r)"

definition query_uses_auth :: "('w, 'h) preview_env \<Rightarrow> (string, handler_plan) bmap \<Rightarrow> step_plan \<Rightarrow> bool" where
  "query_uses_auth e loaders st =
     (case st of
        StLet b (VpCall [name] args) \<Rightarrow>
          (case bm_get loaders name of
             Some q \<Rightarrow> list_ex (step_uses_auth_subject (pe_tokens e)) (hp_steps q) | None \<Rightarrow> False)
      | _ \<Rightarrow> False)"

text \<open>The session is loaded only if a step, or a query it calls, uses its subject.\<close>

definition action_session ::
  "('w, 'h) preview_env \<Rightarrow> (string, handler_plan) bmap \<Rightarrow> handler_plan \<Rightarrow> http_request \<Rightarrow> ('w, json_value ax_session option) pv" where
  "action_session e loaders h r =
     (if list_ex (query_uses_auth e loaders) (hp_steps h) \<or> list_ex (step_uses_auth_subject (pe_tokens e)) (hp_steps h)
      then with_runtime e ''Auth.subject requires a configured backend runtime'' (\<lambda>rt. pv_world (rt_load_session rt r))
      else pv_return None)"

definition action_start :: "scope \<Rightarrow> action_state" where
  "action_start sc = \<lparr> as_scope = sc, as_redirect = None, as_value = ok_record, as_patches = [], as_invalidations = [],
     as_cookies = [] \<rparr>"

definition execute_preview_action ::
  "('w, 'h) preview_env \<Rightarrow> (string, handler_plan) bmap \<Rightarrow> (string, handler_plan) bmap \<Rightarrow> string \<Rightarrow> (string, string) bmap
    \<Rightarrow> http_request option \<Rightarrow> ('w, preview_action_result) pv" where
  "execute_preview_action e actions loaders name input_fields request =
     (case bm_get actions name of
        None \<Rightarrow> pv_fail (''action `'' @ name @ ''` was not found for this route'')
      | Some h \<Rightarrow>
          (case hp_kind h of
             HkAction returns input \<Rightarrow>
               pv_then (pv_lift (map_err (\<lambda>_. PvRuntime ''invalid Login.throttle hook'') (validate_login_throttle_hooks h))) (\<lambda>_.
               pv_then (pv_lift (build_preview_input_record e input input_fields request)) (\<lambda>inp.
               pv_then
                 (case request of
                    None \<Rightarrow> pv_return [(''input'', inp)]
                  | Some r \<Rightarrow>
                      pv_then (action_session e loaders h r) (\<lambda>session.
                        pv_return (bm_insert ''Auth'' (build_preview_auth_record e r session) [(''input'', inp)])))
                 (\<lambda>sc. run_action_steps
                    \<lparr> ac_env = e, ac_name = hp_name h, ac_loaders = loaders, ac_request = request \<rparr> (hp_steps h) (action_start sc))))
           | _ \<Rightarrow> pv_fail (''handler `'' @ name @ ''` is not an action'')))"

end
