(* ===== verification/Preview_Responses.thy ===== *)
theory Preview_Responses
  imports Preview_Handlers
begin

section \<open>Routes of the preview server\<close>

text \<open>
  \<open>axonyx-runtime/src/lib.rs\<close>, \<open>execute_preview_route\<close>: the response of an API route, with the
  headers and cookies its steps set, the hooks before and after it and the check of its declared
  contract; and the splitter of call arguments.
\<close>

subsection \<open>Arguments of calls\<close>

record arg_scan =
  ag_depth :: nat
  ag_string :: "char option"

definition arg_step :: "arg_scan \<Rightarrow> char \<Rightarrow> arg_scan" where
  "arg_step st c =
     (case ag_string st of
        Some q \<Rightarrow> if c = q then st\<lparr> ag_string := None \<rparr> else st
      | None \<Rightarrow>
          if is_quote c then st\<lparr> ag_string := Some c \<rparr>
          else if is_opening c then st\<lparr> ag_depth := ag_depth st + 1 \<rparr>
          else if is_closing c then st\<lparr> ag_depth := ag_depth st - 1 \<rparr>
          else st)"

fun split_args_from :: "arg_scan \<Rightarrow> string \<Rightarrow> string \<Rightarrow> string list" where
  "split_args_from st acc [] = [trim (rev acc)]"
| "split_args_from st acc (c # cs) =
     (if ag_string st = None \<and> c = CHR '','' \<and> ag_depth st = 0 then trim (rev acc) # split_args_from st [] cs
      else split_args_from (arg_step st c) (c # acc) cs)"

definition split_preview_args :: "string \<Rightarrow> string list" where
  "split_preview_args input = split_args_from \<lparr> ag_depth = 0, ag_string = None \<rparr> [] input"

definition call_args_of :: "string \<Rightarrow> string list" where
  "call_args_of inner = (if trim inner = [] then [] else split_preview_args inner)"

definition parse_preview_call_args :: "string \<Rightarrow> string \<Rightarrow> string list option" where
  "parse_preview_call_args source name = do {
     r \<leftarrow> strip_prefix (name @ ''('') source;
     inner \<leftarrow> strip_suffix '')'' r;
     Some (call_args_of inner) }"

definition parse_preview_vec_args :: "string \<Rightarrow> string list option" where
  "parse_preview_vec_args source = do {
     r \<leftarrow> strip_prefix ''vec!['' source;
     inner \<leftarrow> strip_suffix '']'' r;
     Some (call_args_of inner) }"

subsection \<open>Responses\<close>

record preview_response =
  pr_status :: nat
  pr_content_type :: string
  pr_headers :: "(string, string) bmap"
  pr_set_cookies :: "string list"
  pr_body :: bytes

definition json_content_type :: string where
  "json_content_type = ''application/json; charset=utf-8''"

definition text_content_type :: string where
  "text_content_type = ''text/plain; charset=utf-8''"

definition preview_response_of :: "nat \<Rightarrow> string \<Rightarrow> bytes \<Rightarrow> preview_response" where
  "preview_response_of status content_type body =
     \<lparr> pr_status = status, pr_content_type = content_type, pr_headers = [], pr_set_cookies = [], pr_body = body \<rparr>"

definition render_preview_json_response :: "('w, 'h) preview_env \<Rightarrow> ax_value \<Rightarrow> preview_response" where
  "render_preview_json_response e v =
     preview_response_of 200 json_content_type (pe_json_text e (preview_value_to_json (pe_numbers e) v))"

definition json_word :: "string \<Rightarrow> string \<Rightarrow> string" where
  "json_word key v = CHR 0x7B # quoted key @ '':'' @ quoted v @ [CHR 0x7D]"

text \<open>The part of a returned plan that routes and refused requirements share.\<close>

definition render_plan_response ::
  "('w, 'h) preview_env \<Rightarrow> scope \<Rightarrow> return_plan \<Rightarrow> preview_error + preview_response" where
  "render_plan_response e sc plan =
     (case plan of
        RpPrivateResponse args \<Rightarrow> Inl (PvRuntime ''private Binary routes require the compiled server'')
      | RpPublicResponse args \<Rightarrow> Inl (PvRuntime ''private Binary routes require the compiled server'')
      | RpExpr x \<Rightarrow> and_then (pe_eval_plain e sc x) (\<lambda>v. Inr (render_preview_json_response e v))
      | RpJson x \<Rightarrow> and_then (pe_eval_plain e sc x) (\<lambda>v. Inr (render_preview_json_response e v))
      | RpRedirect target status \<Rightarrow>
          and_then (pe_eval_plain e sc target) (\<lambda>v.
            Inr ((preview_response_of (case status of Some n \<Rightarrow> n | None \<Rightarrow> 303) text_content_type [])
                   \<lparr> pr_headers := [(''Location'', as_string v)] \<rparr>))
      | RpNoContent \<Rightarrow> Inr (preview_response_of 204 text_content_type [])
      | RpNotFound \<Rightarrow> Inr (preview_response_of 404 text_content_type ''not found'')
      | RpForbidden \<Rightarrow> Inr (preview_response_of 403 json_content_type (json_word ''error'' ''forbidden''))
      | RpOk \<Rightarrow> Inr (render_preview_json_response e ok_record))"

definition apply_preview_response_metadata :: "preview_response \<Rightarrow> (string, string) bmap \<Rightarrow> string list \<Rightarrow> preview_response" where
  "apply_preview_response_metadata r headers cookies =
     r\<lparr> pr_headers := foldl (\<lambda>m (k, v). bm_insert k v m) (pr_headers r) headers, pr_set_cookies := pr_set_cookies r @ cookies \<rparr>"

definition render_preview_require_fallback ::
  "('w, 'h) preview_env \<Rightarrow> scope \<Rightarrow> return_plan option \<Rightarrow> preview_error + preview_response" where
  "render_preview_require_fallback e sc fallback =
     (case fallback of
        None \<Rightarrow>
          Inr ((render_preview_json_response e (AvRecord [(''error'', AvString ''unauthorized'')]))\<lparr> pr_status := 401 \<rparr>)
      | Some plan \<Rightarrow>
          and_then (render_plan_response e sc plan) (\<lambda>r.
            case plan of
              RpExpr x \<Rightarrow> Inr (r\<lparr> pr_status := (if parse_preview_call_args (trim x) ''invalid'' \<noteq> None then 422 else 401) \<rparr>)
            | RpJson x \<Rightarrow> Inr (r\<lparr> pr_status := (if parse_preview_call_args (trim x) ''invalid'' \<noteq> None then 422 else 401) \<rparr>)
            | _ \<Rightarrow> Inr r))"

definition contract_failure_response :: preview_response where
  "contract_failure_response =
     \<lparr> pr_status = 500, pr_content_type = json_content_type, pr_headers = [(''Cache-Control'', ''no-store'')], pr_set_cookies = [],
       pr_body = CHR 0x7B # quoted ''error'' @ '':'' @ quoted ''internal_server_error'' @ '','' @ quoted ''message'' @ '':''
         @ quoted ''API response did not satisfy its declared contract.'' @ [CHR 0x7D] \<rparr>"

definition validate_preview_api_response ::
  "('w, 'h) preview_env \<Rightarrow> bool \<Rightarrow> handler_plan \<Rightarrow> preview_response \<Rightarrow> preview_response" where
  "validate_preview_api_response e enabled h r =
     (case hp_kind h of
        HkRoute m path (Some contract) input \<Rightarrow>
          (if \<not> enabled then r
           else case validate_api_response_bytes (\<lambda>b. ok_or [] (pe_parse_json e b)) (pe_numbers e) (pr_status r) (pr_content_type r) (pr_body r)
                       contract (pe_types e) of
                  Inl _ \<Rightarrow> contract_failure_response
                | Inr _ \<Rightarrow> r)
      | _ \<Rightarrow> r)"

subsection \<open>Hooks\<close>

definition apply_preview_route_hook ::
  "('w, 'h) preview_env \<Rightarrow> scope \<Rightarrow> string \<Rightarrow> (string, string) bmap
    \<Rightarrow> preview_error + preview_response option \<times> (string, string) bmap" where
  "apply_preview_route_hook e sc hook headers =
     (let h = trim hook in
      if h = ''Security.headers'' then
        Inr (None, bm_insert ''Referrer-Policy'' ''strict-origin-when-cross-origin''
                     (bm_insert ''X-Content-Type-Options'' ''nosniff'' headers))
      else if h = ''Cache.noStore'' then Inr (None, bm_insert ''Cache-Control'' ''no-store'' headers)
      else if h \<in> {''Auth.session'', ''Auth.bearer'', ''Auth.signedSession'', ''Auth.subject''} then
        and_then (eval_preview_require_expr (pe_eval_plain e) sc hook) (\<lambda>v.
          if preview_require_passes v then Inr (None, headers)
          else and_then (render_preview_require_fallback e sc None) (\<lambda>r. Inr (Some r, headers)))
      else Inr (None, headers))"

fun apply_preview_route_after_hooks ::
  "('w, 'h) preview_env \<Rightarrow> scope \<Rightarrow> string list \<Rightarrow> (string, string) bmap \<Rightarrow> preview_error + (string, string) bmap" where
  "apply_preview_route_after_hooks e sc [] headers = Inr headers"
| "apply_preview_route_after_hooks e sc (h # hs) headers =
     and_then (apply_preview_route_hook e sc h headers) (\<lambda>(_, headers'). apply_preview_route_after_hooks e sc hs headers')"

subsection \<open>Route handlers\<close>

record route_state =
  rs_scope :: scope
  rs_headers :: "(string, string) bmap"
  rs_cookies :: "string list"
  rs_after :: "string list"

datatype route_outcome = RoNext route_state | RoStop preview_response

record ('w, 'h) preview_route_context =
  rc_env :: "('w, 'h) preview_env"
  rc_handler :: handler_plan
  rc_loaders :: "(string, handler_plan) bmap"
  rc_request :: http_request
  rc_validate :: bool

definition route_next :: "route_state \<Rightarrow> ('w, route_outcome) pv" where
  "route_next s = pv_return (RoNext s)"

text \<open>A response that leaves the route: the after hooks set headers, then headers and cookies are added and the
  contract is checked.\<close>

definition finish_route :: "('w, 'h) preview_route_context \<Rightarrow> route_state \<Rightarrow> preview_response \<Rightarrow> preview_error + preview_response" where
  "finish_route c s r =
     and_then (apply_preview_route_after_hooks (rc_env c) (rs_scope s) (rs_after s) (rs_headers s)) (\<lambda>headers.
       Inr (validate_preview_api_response (rc_env c) (rc_validate c) (rc_handler c)
              (apply_preview_response_metadata r headers (rs_cookies s))))"

text \<open>\<open>Return\<close> runs the after hooks before it evaluates the returned expression.\<close>

definition return_route :: "('w, 'h) preview_route_context \<Rightarrow> route_state \<Rightarrow> return_plan \<Rightarrow> preview_error + preview_response" where
  "return_route c s plan =
     and_then (apply_preview_route_after_hooks (rc_env c) (rs_scope s) (rs_after s) (rs_headers s)) (\<lambda>headers.
     and_then (render_plan_response (rc_env c) (rs_scope s) plan) (\<lambda>r.
       Inr (validate_preview_api_response (rc_env c) (rc_validate c) (rc_handler c)
              (apply_preview_response_metadata r headers (rs_cookies s)))))"

definition eval_preview_route_value :: "('w, 'h) preview_env \<Rightarrow> (string, handler_plan) bmap \<Rightarrow> scope \<Rightarrow> value_plan \<Rightarrow> ('w, ax_value) pv" where
  "eval_preview_route_value e loaders sc v =
     (case v of
        VpCall [name] args \<Rightarrow>
          (case bm_get loaders name of
             None \<Rightarrow> eval_preview_value e sc v
           | Some loader \<Rightarrow>
               pv_then (pv_lift (try_map (pe_eval e sc) args)) (\<lambda>vs. execute_preview_loader e loader vs sc))
      | _ \<Rightarrow> eval_preview_value e sc v)"

definition throttled_response :: "('w, 'h) preview_env \<Rightarrow> nat \<Rightarrow> preview_response" where
  "throttled_response e d =
     (let r = render_preview_json_response e (AvRecord [(''error'', AvString ''too many requests'')]) in
      r\<lparr> pr_status := 429,
         pr_headers := bm_insert ''Cache-Control'' ''no-store'' (bm_insert ''Retry-After'' (show_nat (retry_seconds d)) (pr_headers r)) \<rparr>)"

definition route_before_hook :: "('w, 'h) preview_route_context \<Rightarrow> route_state \<Rightarrow> string \<Rightarrow> ('w, route_outcome) pv" where
  "route_before_hook c s hook =
     (let e = rc_env c in
      case parse_login_throttle_hook hook of
        Inl _ \<Rightarrow> pv_fail ''invalid Login.throttle hook''
      | Inr (Some h) \<Rightarrow>
          pv_then (pv_lift (pe_eval_plain e (rs_scope s) (lth_key h))) (\<lambda>key.
            case key of
              AvString k \<Rightarrow>
                pv_then (try_acquire e (hp_name (rc_handler c) @ '':'' @ hook) h k) (\<lambda>r.
                  case r of
                    Inr _ \<Rightarrow> route_next s
                  | Inl (Limited d) \<Rightarrow>
                      pv_return (RoStop (apply_preview_response_metadata (throttled_response e d) (rs_headers s) (rs_cookies s)))
                  | Inl _ \<Rightarrow> pv_fail ''login throttle unavailable'')
            | _ \<Rightarrow> pv_fail ''login throttle key must be String'')
      | Inr None \<Rightarrow>
          pv_then (pv_lift (apply_preview_route_hook e (rs_scope s) hook (rs_headers s))) (\<lambda>(stop, headers).
            let s' = s\<lparr> rs_headers := headers \<rparr> in
            case stop of
              None \<Rightarrow> route_next s'
            | Some r \<Rightarrow> pv_then (pv_lift (finish_route c s' r)) (\<lambda>r'. pv_return (RoStop r'))))"

definition route_after_hook :: "route_state \<Rightarrow> string \<Rightarrow> ('w, route_outcome) pv" where
  "route_after_hook s hook =
     (case parse_login_throttle_hook hook of
        Inl _ \<Rightarrow> pv_fail ''invalid Login.throttle hook''
      | Inr (Some h) \<Rightarrow> pv_fail ''Login.throttle requires a before hook''
      | Inr None \<Rightarrow> route_next (s\<lparr> rs_after := rs_after s @ [hook] \<rparr>))"

definition route_mutation :: "('w, 'h) preview_route_context \<Rightarrow> route_state \<Rightarrow> transaction_operation_plan \<Rightarrow> ('w, route_outcome) pv" where
  "route_mutation c s op =
     pv_then (execute_mutation (rc_env c) (pe_eval_plain (rc_env c)) (rs_scope s) op) (\<lambda>_. route_next s)"

definition add_cookie :: "ax_cookie \<Rightarrow> route_state \<Rightarrow> route_state" where
  "add_cookie k s = s\<lparr> rs_cookies := rs_cookies s @ [cookie_render k] \<rparr>"

fun route_step :: "('w, 'h) preview_route_context \<Rightarrow> step_plan \<Rightarrow> route_state \<Rightarrow> ('w, route_outcome) pv" where
  "route_step c (StLet binding v) s =
     pv_then (eval_preview_route_value (rc_env c) (rc_loaders c) (rs_scope s) v) (\<lambda>x.
       route_next (s\<lparr> rs_scope := bm_insert binding x (rs_scope s) \<rparr>))"
| "route_step c (StInsert collection flds) s = route_mutation c s (TpInsert collection flds)"
| "route_step c (StUpdate collection flds filters) s = route_mutation c s (TpUpdate collection flds filters)"
| "route_step c (StDelete collection filters) s = route_mutation c s (TpDelete collection filters)"
| "route_step c (StTransaction ops) s =
     pv_then (execute_preview_transaction (rc_env c) (pe_eval_plain (rc_env c)) (rs_scope s) ops) (\<lambda>_. route_next s)"
| "route_step c (StHook HookBefore hook) s = route_before_hook c s hook"
| "route_step c (StHook HookAfter hook) s = route_after_hook s hook"
| "route_step c (StHeader name v) s =
     pv_then (pv_lift (pe_eval_plain (rc_env c) (rs_scope s) name)) (\<lambda>n.
     pv_then (pv_lift (pe_eval_plain (rc_env c) (rs_scope s) v)) (\<lambda>x.
       route_next (s\<lparr> rs_headers := bm_insert (as_string n) (as_string x) (rs_headers s) \<rparr>)))"
| "route_step c (StCookie name v) s =
     pv_then (pv_lift (pe_eval_plain (rc_env c) (rs_scope s) name)) (\<lambda>n.
     pv_then (pv_lift (pe_eval_plain (rc_env c) (rs_scope s) v)) (\<lambda>x.
       route_next (add_cookie ((cookie_new (as_string n) (as_string x))\<lparr> cookie_path := Some ''/'' \<rparr>) s)))"
| "route_step c (StClearCookie name) s =
     pv_then (pv_lift (pe_eval_plain (rc_env c) (rs_scope s) name)) (\<lambda>n.
       route_next (add_cookie ((cookie_new (as_string n) [])\<lparr> cookie_path := Some ''/'', cookie_max_age := Some 0 \<rparr>) s))"
| "route_step c (StSessionCreate subject data) s =
     with_runtime (rc_env c) ''Session.create requires a configured backend runtime'' (\<lambda>rt.
     pv_then (pv_lift (pe_eval_plain (rc_env c) (rs_scope s) subject)) (\<lambda>sub.
     pv_then (pv_lift (pe_eval_plain (rc_env c) (rs_scope s) data)) (\<lambda>d.
     pv_then (pv_lift (session_data_object (preview_value_to_json (pe_numbers (rc_env c)) d))) (\<lambda>fs.
     pv_then (pv_world (rt_create_session rt (as_string sub) fs)) (\<lambda>(_, cookie). route_next (add_cookie cookie s))))))"
| "route_step c StSessionDestroy s =
     with_runtime (rc_env c) ''Session.destroy requires a configured backend runtime'' (\<lambda>rt.
     pv_then (pv_world (rt_destroy_session rt (rc_request c))) (\<lambda>cookie. route_next (add_cookie cookie s)))"
| "route_step c StSessionRefresh s =
     with_runtime (rc_env c) ''Session.refresh requires a configured backend runtime'' (\<lambda>rt.
     pv_then (pv_world (rt_refresh_session rt (rc_request c))) (\<lambda>found.
       case found of
         None \<Rightarrow> pv_fail ''Session.refresh requires an active session''
       | Some (_, cookie) \<Rightarrow> route_next (add_cookie cookie s)))"
| "route_step c (StRequire x fallback) s =
     pv_then (pv_lift (eval_preview_require_expr (pe_eval_plain (rc_env c)) (rs_scope s) x)) (\<lambda>v.
       if preview_require_passes v then route_next s
       else pv_then (pv_lift (render_preview_require_fallback (rc_env c) (rs_scope s) fallback)) (\<lambda>r.
            pv_then (pv_lift (finish_route c s r)) (\<lambda>r'. pv_return (RoStop r'))))"
| "route_step c (StReturn plan) s = pv_then (pv_lift (return_route c s plan)) (\<lambda>r. pv_return (RoStop r))"
| "route_step c (StRevalidate x literal) s = route_next s"
| "route_step c (StPatch signal v) s = route_next s"
| "route_step c (StSend target payload) s = route_next s"

fun run_route_steps :: "('w, 'h) preview_route_context \<Rightarrow> step_plan list \<Rightarrow> route_state \<Rightarrow> ('w, preview_response) pv" where
  "run_route_steps c [] s = pv_lift (finish_route c s (render_preview_json_response (rc_env c) AvNull))"
| "run_route_steps c (st # rest) s =
     pv_then (route_step c st s) (\<lambda>out.
       case out of RoNext s' \<Rightarrow> run_route_steps c rest s' | RoStop r \<Rightarrow> pv_return r)"

definition route_session :: "('w, 'h) preview_env \<Rightarrow> handler_plan \<Rightarrow> http_request \<Rightarrow> ('w, json_value ax_session option) pv" where
  "route_session e h r =
     (if list_ex (step_uses_auth_subject (pe_tokens e)) (hp_steps h)
      then with_runtime e ''Auth.subject requires a configured backend runtime'' (\<lambda>rt. pv_world (rt_load_session rt r))
      else pv_return None)"

definition route_input :: "('w, 'h) preview_env \<Rightarrow> handler_plan \<Rightarrow> http_request \<Rightarrow> scope \<Rightarrow> preview_error + scope" where
  "route_input e h r sc =
     (case hp_kind h of
        HkRoute m path returns input \<Rightarrow>
          (if input = [] then Inr sc
           else and_then (build_preview_route_input_record e input r) (\<lambda>inp. Inr (bm_insert ''input'' inp sc)))
      | _ \<Rightarrow> Inr sc)"

definition returns_binary :: "handler_plan \<Rightarrow> bool" where
  "returns_binary h = (case hp_kind h of HkRoute m path (Some contract) input \<Rightarrow> contract = ''Binary'' | _ \<Rightarrow> False)"

definition execute_preview_route ::
  "('w, 'h) preview_env \<Rightarrow> handler_plan list \<Rightarrow> (string, handler_plan) bmap \<Rightarrow> http_request \<Rightarrow> string
    \<Rightarrow> (string, string) bmap \<Rightarrow> bool \<Rightarrow> ('w, preview_response option) pv" where
  "execute_preview_route e routes loaders r path query validate =
     (case match_preview_route routes (req_method r) path of
        None \<Rightarrow> pv_return None
      | Some found \<Rightarrow>
          (let h = rm_handler found in
           pv_then (pv_lift (map_err (\<lambda>_. PvRuntime ''invalid Login.throttle hook'') (validate_login_throttle_hooks h))) (\<lambda>_.
           if returns_binary h then pv_fail ''private Binary routes require the compiled server''
           else
             pv_then (route_session e h r) (\<lambda>session.
             pv_then (pv_lift (route_input e h r (bm_of_list
                [(''params'', AvRecord (rm_params found)), (''query'', build_preview_query_record query),
                 (''request'', build_preview_request_record e r), (''Auth'', build_preview_auth_record e r session)]))) (\<lambda>sc.
             pv_then (run_route_steps
                \<lparr> rc_env = e, rc_handler = h, rc_loaders = loaders, rc_request = r, rc_validate = validate \<rparr> (hp_steps h)
                \<lparr> rs_scope = sc, rs_headers = [], rs_cookies = [], rs_after = [] \<rparr>) (\<lambda>response.
             pv_return (Some response)))))))"

end
