(* ===== verification/Preview_Correct.thy ===== *)
theory Preview_Correct
  imports Preview_Responses
begin

section \<open>Correctness of the preview server\<close>

text \<open>
  Theorems about the preview store, its queries and transactions, the choice of a route and the
  execution of actions and routes.
\<close>

subsection \<open>Stable sorting by several keys\<close>

definition key_le :: "query_direction \<Rightarrow> string \<Rightarrow> string \<Rightarrow> bool" where
  "key_le d a b = (case d of DirAsc \<Rightarrow> a \<le> b | DirDesc \<Rightarrow> b \<le> a)"

fun order_le :: "string \<Rightarrow> query_order list \<Rightarrow> preview_row \<Rightarrow> preview_row \<Rightarrow> bool" where
  "order_le c [] a b = True"
| "order_le c (ord # os) a b =
     (if order_key c ord a = order_key c ord b then order_le c os a b
      else key_le (qo_direction ord) (order_key c ord a) (order_key c ord b))"

definition row_keys :: "string \<Rightarrow> query_order list \<Rightarrow> preview_row \<Rightarrow> string list" where
  "row_keys c orders r = map (\<lambda>ord. order_key c ord r) orders"

lemma sort_rows_sorted: "sorted_wrt (\<lambda>a b. key_le (qo_direction ord) (order_key c ord a) (order_key c ord b)) (sort_rows c ord rows)"
proof (cases "qo_direction ord")
  case DirAsc
  then show ?thesis using sorted_sort_key [of "order_key c ord" rows]
    by (simp add: sort_rows_def key_le_def sorted_map)
next
  case DirDesc
  then show ?thesis using sorted_sort_key [of "order_key c ord" "rev rows"]
    by (simp add: sort_rows_def key_le_def sorted_map sorted_wrt_rev)
qed

lemma sort_rows_stable: "filter (\<lambda>r. order_key c ord r = k) (sort_rows c ord rows) = filter (\<lambda>r. order_key c ord r = k) rows"
  by (cases "qo_direction ord") (simp_all add: sort_rows_def sort_key_stable rev_filter [symmetric])

lemma filter_conj: "filter (\<lambda>x. P x \<and> Q x) xs = filter Q (filter P xs)"
  by (induction xs) auto

lemma sort_rows_stable_on:
  "filter (\<lambda>r. order_key c ord r = k \<and> Q r) (sort_rows c ord rows) = filter (\<lambda>r. order_key c ord r = k \<and> Q r) rows"
  by (simp only: filter_conj [of "\<lambda>r. order_key c ord r = k" Q] sort_rows_stable)

lemma sorted_wrt_by_classes:
  assumes "sorted_wrt R xs" and "\<And>k. sorted_wrt Q (filter (\<lambda>x. f x = k) xs)"
  shows "sorted_wrt (\<lambda>a b. R a b \<and> (f a = f b \<longrightarrow> Q a b)) xs"
  using assms
proof (induction xs)
  case (Cons x xs)
  have "sorted_wrt Q (filter (\<lambda>y. f y = k) xs)" for k
    using Cons.prems(2) [of k] by (auto split: if_splits)
  with Cons have "sorted_wrt (\<lambda>a b. R a b \<and> (f a = f b \<longrightarrow> Q a b)) xs" by simp
  moreover have "R x y \<and> (f x = f y \<longrightarrow> Q x y)" if "y \<in> set xs" for y
    using Cons.prems(1) Cons.prems(2) [of "f x"] that by auto
  ultimately show ?case by simp
qed simp

lemma order_rows_Cons: "order_rows c (ord # os) rows = sort_rows c ord (order_rows c os rows)"
  by (simp add: order_rows_def)

lemma order_rows_stable:
  "filter (\<lambda>r. row_keys c orders r = ks \<and> Q r) (order_rows c orders rows) = filter (\<lambda>r. row_keys c orders r = ks \<and> Q r) rows"
proof (induction orders arbitrary: ks Q)
  case (Cons ord os)
  show ?case
  proof (cases ks)
    case (Cons k ks')
    have "(\<lambda>r. row_keys c (ord # os) r = ks \<and> Q r) = (\<lambda>r. order_key c ord r = k \<and> (row_keys c os r = ks' \<and> Q r))"
      by (auto simp: row_keys_def Cons)
    moreover have "filter (\<lambda>r. order_key c ord r = k \<and> (row_keys c os r = ks' \<and> Q r)) (order_rows c os rows)
        = filter (\<lambda>r. order_key c ord r = k \<and> (row_keys c os r = ks' \<and> Q r)) rows"
      using Cons.IH [of ks' "\<lambda>r. order_key c ord r = k \<and> Q r"] by (simp add: conj_left_commute)
    ultimately show ?thesis by (simp add: order_rows_Cons sort_rows_stable_on)
  qed (simp add: row_keys_def)
qed (simp add: order_rows_def)

lemma order_rows_sorted: "sorted_wrt (order_le c orders) (order_rows c orders rows)"
proof (induction orders)
  case (Cons ord os)
  let ?xs = "sort_rows c ord (order_rows c os rows)"
  have "sorted_wrt (order_le c os) (filter (\<lambda>r. order_key c ord r = k) ?xs)" for k
    using sorted_wrt_filter [OF Cons.IH] by (simp add: sort_rows_stable)
  from sorted_wrt_by_classes [OF sort_rows_sorted this]
  have "sorted_wrt (\<lambda>a b. key_le (qo_direction ord) (order_key c ord a) (order_key c ord b)
      \<and> (order_key c ord a = order_key c ord b \<longrightarrow> order_le c os a b)) ?xs" .
  then show ?case unfolding order_rows_Cons
    by (rule sorted_wrt_mono_rel [rotated]) (auto)
qed (simp add: order_rows_def)

subsection \<open>Queries\<close>

fun row_passes :: "string \<Rightarrow> query_filter_plan list \<Rightarrow> ax_value list \<Rightarrow> preview_row \<Rightarrow> bool" where
  "row_passes c (f # fs) (v # vs) r = (query_record_matches c r (fp_field f) (fp_op f) v \<and> row_passes c fs vs r)"
| "row_passes c fs vs r = True"

lemma filter_rows_result:
  "filter_rows ev sc c fs rows =
     (case try_map (\<lambda>f. ev sc (fp_value f)) fs of Inl e \<Rightarrow> Inl e | Inr vs \<Rightarrow> Inr (filter (row_passes c fs vs) rows))"
proof (induction fs arbitrary: rows)
  case (Cons f fs)
  show ?case
  proof (cases "ev sc (fp_value f)")
    case (Inr v)
    with Cons [of "filter (\<lambda>r. query_record_matches c r (fp_field f) (fp_op f) v) rows"] show ?thesis
      by (cases "try_map (\<lambda>f. ev sc (fp_value f)) fs") (auto intro: filter_cong)
  qed simp
qed simp

text \<open>C32. The rows of a query are the joined records that pass every filter, each evaluated once in the
  scope of the handler; they are sorted lexicographically by the order clauses, records that tie in all
  of them keep the order of the collection, and the offset and the limit cut this list.\<close>

theorem query_rows_exact:
  assumes "query_rows ev sc s c q = Inr rs"
  shows "\<exists>vs sorted_rows. try_map (\<lambda>f. ev sc (fp_value f)) (qp_filters q) = Inr vs
    \<and> rs = page_rows (qp_offset q) (qp_limit q) sorted_rows
    \<and> sorted_wrt (order_le c (qp_orders q)) sorted_rows
    \<and> (\<forall>ks. filter (\<lambda>r. row_keys c (qp_orders q) r = ks) sorted_rows
        = filter (\<lambda>r. row_keys c (qp_orders q) r = ks \<and> row_passes c (qp_filters q) vs r)
            (join_rows s (qp_joins q) (map (\<lambda>i. (i, [])) (collection_items s c))))"
proof -
  let ?rows = "join_rows s (qp_joins q) (map (\<lambda>i. (i, [])) (collection_items s c))"
  obtain vs where vs: "try_map (\<lambda>f. ev sc (fp_value f)) (qp_filters q) = Inr vs"
    using assms by (cases "try_map (\<lambda>f. ev sc (fp_value f)) (qp_filters q)") (auto simp: query_rows_def filter_rows_result Let_def)
  let ?all = "order_rows c (qp_orders q) (filter (row_passes c (qp_filters q) vs) ?rows)"
  have "rs = page_rows (qp_offset q) (qp_limit q) ?all"
    using assms by (simp add: query_rows_def filter_rows_result vs Let_def)
  moreover have "filter (\<lambda>r. row_keys c (qp_orders q) r = ks) ?all
      = filter (\<lambda>r. row_keys c (qp_orders q) r = ks \<and> row_passes c (qp_filters q) vs r) ?rows" for ks
    using order_rows_stable [of c "qp_orders q" ks "\<lambda>_. True"] by (simp add: conj_commute)
  ultimately show ?thesis using vs order_rows_sorted by blast
qed

subsection \<open>Loops over steps\<close>

lemma pv_then_Inr: "pv_then m f st = (Inr y, st') \<longleftrightarrow> (\<exists>x st1. m st = (Inr x, st1) \<and> f x st1 = (Inr y, st'))"
  by (simp add: pv_then_def split: prod.split sum.split)

lemma pv_lift_Inr: "pv_lift r st = (Inr y, st') \<longleftrightarrow> r = Inr y \<and> st' = st"
  by (auto simp: pv_lift_def)

lemma pv_return_Inr: "pv_return x st = (Inr y, st') \<longleftrightarrow> x = y \<and> st' = st"
  by (auto simp: pv_return_def)

lemma pv_fail_Inr: "pv_fail m st = (Inr y, st') \<longleftrightarrow> False"
  by (simp add: pv_fail_def pv_lift_def)

text \<open>The steps of a prefix: the state after it, or the result at which it stopped.\<close>

fun loop_prefix :: "('p \<Rightarrow> 's \<Rightarrow> ('w, 'o) pv) \<Rightarrow> ('o \<Rightarrow> 's + 'r) \<Rightarrow> 'p list \<Rightarrow> 's \<Rightarrow> ('w, 's + 'r) pv" where
  "loop_prefix step view [] s = pv_return (Inl s)"
| "loop_prefix step view (p # ps) s =
     pv_then (step p s) (\<lambda>out. case view out of Inl s' \<Rightarrow> loop_prefix step view ps s' | Inr r \<Rightarrow> pv_return (Inr r))"

text \<open>What the loops over the steps of actions and of routes share: each step yields the next state or a
  result that ends the loop, and the end of the steps yields a result.\<close>

locale handler_loop =
  fixes step :: "'p \<Rightarrow> 's \<Rightarrow> ('w, 'o) pv" and view :: "'o \<Rightarrow> 's + 'r"
    and finish :: "'s \<Rightarrow> ('w, 'r) pv" and run :: "'p list \<Rightarrow> 's \<Rightarrow> ('w, 'r) pv"
  assumes run_Nil: "run [] s = finish s"
    and run_Cons: "run (p # ps) s = pv_then (step p s) (\<lambda>out. case view out of Inl s' \<Rightarrow> run ps s' | Inr r \<Rightarrow> pv_return r)"
begin

lemma run_after_prefix: "loop_prefix step view pre s st = (Inr (Inl s'), st') \<Longrightarrow> run (pre @ post) s st = run post s' st'"
proof (induction pre arbitrary: s st)
  case (Cons p pre)
  from Cons.prems obtain out st1 where step: "step p s st = (Inr out, st1)"
    and rest: "(case view out of Inl s' \<Rightarrow> loop_prefix step view pre s' | Inr r \<Rightarrow> pv_return (Inr r)) st1 = (Inr (Inl s'), st')"
    by (auto simp: pv_then_Inr)
  then obtain s1 where "view out = Inl s1" "loop_prefix step view pre s1 st1 = (Inr (Inl s'), st')"
    by (cases "view out") (auto simp: pv_return_Inr)
  then show ?case using Cons.IH step by (simp add: run_Cons pv_then_def)
qed (simp add: pv_return_Inr)

lemma run_invariant:
  assumes "run ps s st = (Inr r, st')" and "I ps s"
    and "\<And>p ps s st out st'. I (p # ps) s \<Longrightarrow> step p s st = (Inr out, st') \<Longrightarrow> (case view out of Inl s' \<Rightarrow> I ps s' | Inr r \<Rightarrow> Q r)"
    and "\<And>s st r st'. I [] s \<Longrightarrow> finish s st = (Inr r, st') \<Longrightarrow> Q r"
  shows "Q r"
  using assms(1,2)
proof (induction ps arbitrary: s st)
  case Nil
  then show ?case using assms(4) by (simp add: run_Nil)
next
  case (Cons p ps)
  from Cons.prems(1) obtain out st1 where step: "step p s st = (Inr out, st1)"
    and rest: "(case view out of Inl s' \<Rightarrow> run ps s' | Inr r \<Rightarrow> pv_return r) st1 = (Inr r, st')"
    by (auto simp: run_Cons pv_then_Inr)
  from assms(3) [OF Cons.prems(2) step] rest Cons.IH show ?case
    by (cases "view out") (auto simp: pv_return_Inr)
qed

end

definition action_view :: "action_outcome \<Rightarrow> action_state + preview_action_result" where
  "action_view out = (case out of AoNext a \<Rightarrow> Inl a | AoStop r \<Rightarrow> Inr r)"

definition route_view :: "route_outcome \<Rightarrow> route_state + preview_response" where
  "route_view out = (case out of RoNext s \<Rightarrow> Inl s | RoStop r \<Rightarrow> Inr r)"

lemma case_action_view: "(case action_view out of Inl a \<Rightarrow> f a | Inr r \<Rightarrow> g r) = (case out of AoNext a \<Rightarrow> f a | AoStop r \<Rightarrow> g r)"
  by (simp add: action_view_def split: action_outcome.split)

lemma case_route_view: "(case route_view out of Inl s \<Rightarrow> f s | Inr r \<Rightarrow> g r) = (case out of RoNext s \<Rightarrow> f s | RoStop r \<Rightarrow> g r)"
  by (simp add: route_view_def split: route_outcome.split)

interpretation action_loop: handler_loop "action_step c" action_view "\<lambda>a. pv_return (action_result a None)" "run_action_steps c"
  for c :: "('w, 'h) action_context"
  by unfold_locales (simp_all add: case_action_view)

interpretation route_loop: handler_loop "route_step c" route_view
    "\<lambda>s. pv_lift (finish_route c s (render_preview_json_response (rc_env c) AvNull))" "run_route_steps c"
  for c :: "('w, 'h) preview_route_context"
  by unfold_locales (simp_all add: case_route_view)

subsection \<open>Effects\<close>

named_theorems keeps_intro

definition keeps_data :: "('w, 'a) pv \<Rightarrow> bool" where
  "keeps_data m = (\<forall>s. ps_collections (fst (snd (m s))) = ps_collections (fst s))"

lemma keeps_return [keeps_intro]: "keeps_data (pv_return x)"
  by (simp add: keeps_data_def pv_return_def)

lemma keeps_lift [keeps_intro]: "keeps_data (pv_lift r)"
  by (simp add: keeps_data_def pv_lift_def)

lemma keeps_fail [keeps_intro]: "keeps_data (pv_fail m)"
  by (simp add: pv_fail_def keeps_lift)

lemma keeps_then [keeps_intro]: "keeps_data m \<Longrightarrow> (\<And>x. keeps_data (f x)) \<Longrightarrow> keeps_data (pv_then m f)"
  unfolding keeps_data_def pv_then_def by (auto split: prod.split sum.split) (metis fst_conv snd_conv)+

lemma keeps_world [keeps_intro]: "keeps_data (pv_world m)"
  by (simp add: keeps_data_def pv_world_def split: prod.split)

lemma keeps_get [keeps_intro]: "keeps_data pv_get"
  by (simp add: keeps_data_def pv_get_def)

lemma keeps_case_option [keeps_intro]:
  "keeps_data a \<Longrightarrow> (\<And>x. keeps_data (b x)) \<Longrightarrow> keeps_data (case v of None \<Rightarrow> a | Some x \<Rightarrow> b x)"
  by (cases v) auto

lemma keeps_case_value [keeps_intro]:
  "(\<And>x. keeps_data (f x)) \<Longrightarrow> keeps_data g \<Longrightarrow> keeps_data (case v of AvString x \<Rightarrow> f x | _ \<Rightarrow> g)"
  by (cases v) auto

lemma keeps_case_source [keeps_intro]:
  "(\<And>c. keeps_data (f c)) \<Longrightarrow> (\<And>c. keeps_data (g c)) \<Longrightarrow> (\<And>sql ps. keeps_data (h sql ps))
    \<Longrightarrow> keeps_data (case q of SpStream c \<Rightarrow> f c | SpContentCollection c \<Rightarrow> g c | SpRawSql sql ps \<Rightarrow> h sql ps)"
  by (cases q) auto

lemma keeps_case_kind [keeps_intro]:
  "(\<And>r i. keeps_data (f r i)) \<Longrightarrow> keeps_data g \<Longrightarrow> keeps_data (case k of HkLoader r i \<Rightarrow> f r i | _ \<Rightarrow> g)"
  by (cases k) auto

lemma keeps_if [keeps_intro]: "keeps_data a \<Longrightarrow> keeps_data b \<Longrightarrow> keeps_data (if p then a else b)"
  by simp

lemma keeps_with_runtime [keeps_intro]: "(\<And>rt. keeps_data (f rt)) \<Longrightarrow> keeps_data (with_runtime e m f)"
  unfolding with_runtime_def by (intro keeps_intro)

lemma keeps_store_query [keeps_intro]: "keeps_data (eval_store_query e sc q)"
  unfolding eval_store_query_def by (intro keeps_intro)

lemma keeps_query [keeps_intro]: "keeps_data (eval_query_with_runtime e sc q)"
  unfolding eval_query_with_runtime_def by (intro keeps_intro)

lemma keeps_native [keeps_intro]: "keeps_data (eval_native_call e sc args)"
proof -
  have "keeps_data (\<lambda>(s, w). case rt_native_call rt name j w of
      (Inr j, w') \<Rightarrow> (Inr (preview_json_to_value (pe_numbers e) j), (s, w'))
    | (Inl err, w') \<Rightarrow> (Inl (PvRuntime (rt_error_text err)), (s, w')))" for rt :: "'a preview_runtime" and name j
    by (simp add: keeps_data_def split: prod.split sum.split)
  then show ?thesis unfolding eval_native_call_def by (intro keeps_intro)
qed

lemma keeps_hash [keeps_intro]: "keeps_data (eval_password_hash e sc args)"
proof -
  have "keeps_data (\<lambda>(s, w). case pe_salt e w of (salt, w') \<Rightarrow>
      (case password_hash (pe_argon2 e) salt p of
         Inr h \<Rightarrow> (Inr (AvString h), (s, w')) | Inl _ \<Rightarrow> (Inl (PvRuntime ''password hashing failed''), (s, w'))))" for p
    by (simp add: keeps_data_def split: prod.split sum.split)
  then show ?thesis unfolding eval_password_hash_def by (auto split: list.split intro!: keeps_intro)
qed

lemma keeps_value [keeps_intro]: "keeps_data (eval_preview_value e sc v)"
proof (cases v)
  case (VpCall path args)
  have "keeps_data (\<lambda>(s, w). case pe_uuid e w of (u, w') \<Rightarrow> (Inr (AvString u), (s, w')))"
    by (simp add: keeps_data_def split: prod.split)
  then show ?thesis unfolding VpCall eval_preview_value.simps by (intro keeps_intro)
qed (simp_all, (intro keeps_intro)+)

lemma keeps_loader_steps [keeps_intro]: "keeps_data (run_loader_steps e steps sc)"
proof (induction steps arbitrary: sc)
  case (Cons st steps)
  then show ?case by (cases st) (simp_all, (intro keeps_intro Cons.IH)+)
qed (simp add: keeps_return)

lemma keeps_loader [keeps_intro]: "keeps_data (execute_preview_loader e loader args sc)"
  unfolding execute_preview_loader_def Let_def by (intro keeps_intro)

context handler_loop begin

lemma keeps_run:
  assumes "\<And>p s. keeps_data (step p s)" "\<And>s. keeps_data (finish s)"
  shows "keeps_data (run ps s)"
proof (induction ps arbitrary: s)
  case (Cons p ps)
  have "keeps_data (case view out of Inl s' \<Rightarrow> run ps s' | Inr r \<Rightarrow> pv_return r)" for out
    using Cons.IH by (cases "view out") (simp_all add: keeps_return)
  then show ?case unfolding run_Cons by (intro keeps_then assms)
qed (simp add: run_Nil assms)

end

lemma keeps_mutation:
  assumes "pe_runtime e = Some rt"
  shows "keeps_data (execute_mutation e ev sc op)" "keeps_data (execute_preview_transaction e ev sc ops)"
  unfolding execute_mutation_def execute_preview_transaction_def assms option.case by (intro keeps_intro)+

lemma keeps_need_request [keeps_intro]: "(\<And>r. keeps_data (f r)) \<Longrightarrow> keeps_data (need_request c m f)"
  unfolding need_request_def by (intro keeps_intro)

lemma keeps_action_value [keeps_intro]: "keeps_data (eval_action_value c sc v)"
proof (cases v)
  case (VpCall path args)
  show ?thesis
  proof (cases "\<exists>name. path = [name]")
    case True
    then show ?thesis unfolding VpCall eval_action_value_def Let_def by (auto simp only: value_plan.case list.case intro!: keeps_intro)
  next
    case False
    then have "eval_action_value c sc v = eval_preview_value (ac_env c) sc v"
      by (auto simp: VpCall eval_action_value_def Let_def simp del: eval_preview_value.simps split: list.split)
    then show ?thesis by (simp only: keeps_value)
  qed
next
  case (VpStorageSave capability input)
  show ?thesis unfolding VpStorageSave eval_action_value_def Let_def value_plan.case by (intro keeps_intro)
qed (simp_all add: eval_action_value_def keeps_value del: eval_preview_value.simps)

lemma keeps_route_value [keeps_intro]: "keeps_data (eval_preview_route_value e loaders sc v)"
proof (cases v)
  case (VpCall path args)
  show ?thesis
  proof (cases "\<exists>name. path = [name]")
    case True
    then show ?thesis unfolding VpCall eval_preview_route_value_def by (auto simp only: value_plan.case list.case intro!: keeps_intro)
  next
    case False
    then have "eval_preview_route_value e loaders sc v = eval_preview_value e sc v"
      by (auto simp: VpCall eval_preview_route_value_def simp del: eval_preview_value.simps split: list.split)
    then show ?thesis by (simp only: keeps_value)
  qed
qed (simp_all add: eval_preview_route_value_def keeps_value del: eval_preview_value.simps)

lemma keeps_try_acquire [keeps_intro]: "keeps_data (try_acquire e identity h key)"
  by (simp add: keeps_data_def try_acquire_def Let_def split: prod.split)

lemma keeps_case_hook [keeps_intro]:
  "keeps_data f \<Longrightarrow> keeps_data g \<Longrightarrow> (\<And>h. keeps_data (k h)) \<Longrightarrow> keeps_data (case x of Inl _ \<Rightarrow> f | Inr None \<Rightarrow> g | Inr (Some h) \<Rightarrow> k h)"
  by (auto split: sum.split option.split)

lemma keeps_case_acquired [keeps_intro]:
  "keeps_data f \<Longrightarrow> (\<And>d. keeps_data (g d)) \<Longrightarrow> keeps_data k
    \<Longrightarrow> keeps_data (case r of Inr _ \<Rightarrow> f | Inl (Limited d) \<Rightarrow> g d | Inl _ \<Rightarrow> k)"
  by (cases r) (auto split: throttle_error.split)

lemma keeps_next [keeps_intro]: "keeps_data (next_state a)" "keeps_data (route_next s)"
  by (simp_all add: next_state_def route_next_def keeps_return)

lemma keeps_case_pair [keeps_intro]: "(\<And>x y. keeps_data (f x y)) \<Longrightarrow> keeps_data (case p of (x, y) \<Rightarrow> f x y)"
  by (cases p) simp

lemma keeps_action_throttle [keeps_intro]: "keeps_data (action_throttle c a hook)"
  unfolding action_throttle_def Let_def by (intro keeps_intro)

lemma keeps_action_step:
  assumes "pe_runtime (ac_env c) = Some rt"
  shows "keeps_data (action_step c st a)"
  unfolding mutate_and_invalidate_def
  by (cases st) (simp_all only: action_step.simps mutate_and_invalidate_def, (intro keeps_intro keeps_mutation [OF assms])+)

lemma keeps_route_hook [keeps_intro]: "keeps_data (route_before_hook c s hook)" "keeps_data (route_after_hook s hook)"
  unfolding route_before_hook_def route_after_hook_def Let_def by (intro keeps_intro)+

lemma keeps_route_step:
  assumes "pe_runtime (rc_env c) = Some rt"
  shows "keeps_data (route_step c st s)"
proof (cases st)
  case (StHook phase hook)
  then show ?thesis by (cases phase) (simp_all add: keeps_route_hook)
qed (simp_all only: route_step.simps route_mutation_def, (intro keeps_intro keeps_mutation [OF assms])+)

text \<open>Where a backend runtime is configured, the collections of the preview store are never written:
  every insert, update, delete and transaction of an action or a route goes to the runtime, and
  queries change neither.\<close>

theorem runtime_owns_data:
  assumes "pe_runtime e = Some rt"
  shows "ps_collections (fst (snd (execute_preview_action e actions loaders name inp request st))) = ps_collections (fst st)
    \<and> ps_collections (fst (snd (execute_preview_route e routes loaders r path query validate st))) = ps_collections (fst st)"
proof -
  have session: "keeps_data (action_session e loaders h r)" "keeps_data (route_session e h r)" for h r
    unfolding action_session_def route_session_def by (intro keeps_intro)+
  have "keeps_data (execute_preview_action e actions loaders name inp request)"
  proof (cases "bm_get actions name")
    case (Some h)
    show ?thesis
    proof (cases "hp_kind h")
      case (HkAction returns input)
      show ?thesis unfolding execute_preview_action_def Some option.case HkAction handler_kind.case
        by (intro keeps_intro session action_loop.keeps_run keeps_action_step) (simp add: assms)
    qed (simp_all add: execute_preview_action_def Some keeps_fail)
  qed (simp add: execute_preview_action_def keeps_fail)
  moreover have "keeps_data (execute_preview_route e routes loaders r path query validate)"
    unfolding execute_preview_route_def Let_def
    by (intro keeps_intro session route_loop.keeps_run keeps_route_step) (simp add: assms)
  ultimately show ?thesis unfolding keeps_data_def by blast
qed

lemma map_err_Inr: "map_err f x = Inr y \<longleftrightarrow> x = Inr y"
  by (cases x) auto

text \<open>C33. A transaction is all or nothing: if evaluating any of its operations fails, or it is empty, or the
  runtime refuses it, the store is as before and without a runtime nothing has happened at all; if it succeeds, all its
  operations have been applied in order to the store, or handed to the runtime in one call.\<close>

theorem transaction_atomic:
  "case execute_preview_transaction e ev sc ops (s, w) of
     (Inl err, s', w') \<Rightarrow> s' = s \<and> (case pe_runtime e of None \<Rightarrow> w' = w | Some rt \<Rightarrow> True)
   | (Inr _, s', w') \<Rightarrow>
       (case try_map (prepare_operation ev sc) ops of
          Inl _ \<Rightarrow> False
        | Inr prepared \<Rightarrow>
            ops \<noteq> [] \<and> length prepared = length ops
            \<and> (case pe_runtime e of
                 None \<Rightarrow> s' = foldl (\<lambda>pending p. apply_operation p pending) s prepared \<and> w' = w
               | Some rt \<Rightarrow> s' = s
                   \<and> (\<exists>vs. rt_transaction rt (map (operation_to_runtime (pe_numbers e)) prepared) w = (Inr vs, w'))))"
proof (cases "ops = []")
  case False
  show ?thesis
  proof (cases "try_map (prepare_operation ev sc) ops")
    case (Inr prepared)
    then have "length prepared = length ops" by (rule try_map_length)
    then show ?thesis using False Inr
      by (auto simp: map_err_Inr execute_preview_transaction_def pv_then_def pv_lift_def pv_modify_def pv_world_def pv_return_def
          split: option.split prod.split sum.split)
  qed (use False in \<open>simp add: execute_preview_transaction_def pv_then_def pv_lift_def split: option.split\<close>)
qed (simp add: execute_preview_transaction_def pv_fail_def pv_lift_def split: option.split)

lemma preview_id_reused:
  "map (\<lambda>i. preview_record_field i ''id'')
     (collection_items (preview_insert ''users'' []
        (preview_delete ''users'' [\<lparr> pf_field = ''id'', pf_op = FoEq, pf_value = AvString ''1'' \<rparr>] preview_store_default)) ''users'')
    = [Some (AvString ''2''), Some (AvString ''2'')]"
  by code_simp

subsection \<open>An environment to test with\<close>

definition demo_numbers :: json_numbers where
  "demo_numbers = \<lparr> as_i64 = parse_signed 64, as_u64 = parse_unsigned 64, as_f64 = (\<lambda>_. None), of_i64 = show_int, of_f64 = (\<lambda>_. None) \<rparr>"

definition demo_argon2 :: "unit argon2" where
  "demo_argon2 = \<lparr> phc_parse = (\<lambda>_. None), phc_costs = (\<lambda>_. None), phc_salt = (\<lambda>_. None), phc_algorithm = (\<lambda>_. []),
     phc_version = (\<lambda>_. None), phc_param_count = (\<lambda>_. 0), phc_output_length = (\<lambda>_. None), engine_verify = (\<lambda>_ _. VerifyError),
     engine_hash = (\<lambda>_ _. None), encode_salt = (\<lambda>_. None) \<rparr>"

definition demo_value :: "scope \<Rightarrow> string \<Rightarrow> preview_error + ax_value" where
  "demo_value sc x =
     (case bm_get sc x of
        Some v \<Rightarrow> Inr v
      | None \<Rightarrow> if x = ''no'' then Inr (AvBool False) else if x = [] then Inl (PvRuntime ''empty'') else Inr (AvString x))"

text \<open>A runtime that counts its mutations.\<close>

definition demo_backend :: "nat preview_runtime" where
  "demo_backend = \<lparr> rt_load = (\<lambda>_ w. (Inr (JArray []), w)), rt_raw_query = (\<lambda>_ _ w. (Inr (JArray []), w)),
     rt_mutate = (\<lambda>_ w. (Inr JNull, w + 1)), rt_transaction = (\<lambda>ops w. (Inr [], w + length ops)),
     rt_revalidate = (\<lambda>_ w. (Inr (), w)), rt_native_call = (\<lambda>_ v w. (Inr v, w)),
     rt_create_session = (\<lambda>_ _ w. (Inl RtForbidden, w)), rt_load_session = (\<lambda>_ w. (Inr None, w)),
     rt_refresh_session = (\<lambda>_ w. (Inr None, w)), rt_destroy_session = (\<lambda>_ w. (Inl RtForbidden, w)) \<rparr>"

definition demo_env :: "nat preview_runtime option \<Rightarrow> (nat, unit) preview_env" where
  "demo_env rt = \<lparr> pe_eval = demo_value, pe_eval_plain = demo_value, pe_eval_default = demo_value [], pe_runtime = rt, pe_storage = None,
     pe_secret = (\<lambda>_. Inl RtForbidden), pe_mac = (\<lambda>_ b. b), pe_tokens = (\<lambda>_. None), pe_numbers = demo_numbers,
     pe_parse_json = (\<lambda>b. if b = ''null'' then Some JNull else None), pe_json_text = (\<lambda>v. case v of JNull \<Rightarrow> ''null'' | JString s \<Rightarrow> quoted s | _ \<Rightarrow> []),
     pe_digest = id, pe_argon2 = demo_argon2, pe_clock = id, pe_salt = (\<lambda>w. (None, w)), pe_uuid = (\<lambda>w. (show_nat w, w + 1)),
     pe_types = empty_context \<rparr>"

definition demo_insert :: step_plan where
  "demo_insert = StInsert ''posts'' [\<lparr> ap_name = ''title'', ap_value = ''New'' \<rparr>]"

definition demo_action :: handler_plan where
  "demo_action = \<lparr> hp_name = ''save'', hp_kind = HkAction None [], hp_steps = [demo_insert, StRequire ''no'' None, demo_insert] \<rparr>"

definition demo_visit :: http_request where
  "demo_visit = \<lparr> req_method = ''GET'', req_target = ''/posts'', req_headers = [], req_body = [], req_multipart = None \<rparr>"

definition demo_users :: query_plan where
  "demo_users = \<lparr> qp_source = SpStream ''users'', qp_joins = [], qp_filters = [\<lparr> fp_field = ''role'', fp_op = FoNe, fp_value = ''admin'' \<rparr>],
     qp_orders = [\<lparr> qo_field = ''name'', qo_direction = DirDesc \<rparr>], qp_limit = Some 1, qp_offset = None, qp_mode = QmMany \<rparr>"

lemma demo_users_rows:
  "query_rows demo_value [] preview_store_default ''users'' demo_users
    = Inr [(text_record [(''id'', ''2''), (''name'', ''Luka''), (''role'', ''author'')], [])]"
  by code_simp

theorem query_rows_exact_witness:
  "\<exists>vs sorted_rows. try_map (\<lambda>f. demo_value [] (fp_value f)) (qp_filters demo_users) = Inr vs
    \<and> [(text_record [(''id'', ''2''), (''name'', ''Luka''), (''role'', ''author'')], [])]
        = page_rows (qp_offset demo_users) (qp_limit demo_users) sorted_rows
    \<and> sorted_wrt (order_le ''users'' (qp_orders demo_users)) sorted_rows
    \<and> (\<forall>ks. filter (\<lambda>r. row_keys ''users'' (qp_orders demo_users) r = ks) sorted_rows
        = filter (\<lambda>r. row_keys ''users'' (qp_orders demo_users) r = ks \<and> row_passes ''users'' (qp_filters demo_users) vs r)
            (join_rows preview_store_default (qp_joins demo_users) (map (\<lambda>i. (i, [])) (collection_items preview_store_default ''users''))))"
  by (rule query_rows_exact [OF demo_users_rows])

theorem runtime_owns_data_witness:
  "ps_collections (fst (snd (execute_preview_action (demo_env (Some demo_backend)) [(''save'', demo_action)] [] ''save'' [] None
       (preview_store_default, 0)))) = ps_collections preview_store_default
    \<and> snd (snd (execute_preview_action (demo_env (Some demo_backend)) [(''save'', demo_action)] [] ''save'' [] None
       (preview_store_default, 0))) = 1"
proof
  show "ps_collections (fst (snd (execute_preview_action (demo_env (Some demo_backend)) [(''save'', demo_action)] [] ''save'' [] None
       (preview_store_default, 0)))) = ps_collections preview_store_default"
    using runtime_owns_data [of "demo_env (Some demo_backend)" demo_backend "[(''save'', demo_action)]" "[]" "''save''" "[]" None
      "(preview_store_default, 0)" "[]" demo_visit "[]" "[]" False] by (simp add: demo_env_def)
  show "snd (snd (execute_preview_action (demo_env (Some demo_backend)) [(''save'', demo_action)] [] ''save'' [] None
       (preview_store_default, 0))) = 1"
    by (simp add: execute_preview_action_def demo_action_def demo_insert_def demo_env_def bm_get_def validate_login_throttle_hooks_def
      pv_then_def pv_lift_def pv_return_def build_preview_input_record_def bm_of_list_def mutate_and_invalidate_def execute_mutation_def
      eval_preview_fields_def demo_value_def pv_world_def demo_backend_def next_state_def eval_preview_require_expr_def
      eval_preview_action_error_fallback_def Let_def validation_error_def action_start_def)
qed

lemma preview_null_is_not_other:
  "query_rows demo_value [] \<lparr> ps_collections = [(''users'', [AvRecord [(''name'', AvString ''Ana''), (''role'', AvNull)]])], ps_throttles = [] \<rparr>
      ''users'' demo_users = Inr [(AvRecord [(''name'', AvString ''Ana''), (''role'', AvNull)], [])]"
  by (simp add: query_rows_def demo_users_def collection_items_def bm_get_def join_rows_def demo_value_def query_record_field_def
    order_rows_def sort_rows_def page_rows_def Let_def split_once.simps)

lemma preview_args_ignore_escapes:
  "split_preview_args [CHR 0x22, CHR 0x5C, CHR 0x22, CHR '','', CHR 0x22, CHR '','', CHR ''x'']
    = [[CHR 0x22, CHR 0x5C, CHR 0x22], [CHR 0x22, CHR '','', CHR ''x'']]"
proof -
  have "trim [CHR 0x22, CHR 0x5C, CHR 0x22] = [CHR 0x22, CHR 0x5C, CHR 0x22]"
    "trim [CHR 0x22, CHR '','', CHR ''x''] = [CHR 0x22, CHR '','', CHR ''x'']"
    by (rule trim_solid; simp add: space_byte_def code_def is_whitespace_def)+
  then show ?thesis
    by (simp add: split_preview_args_def arg_step_def is_quote_def is_opening_def is_closing_def)
qed

end
