(* ===== verification/Preview_Flow.thy ===== *)
theory Preview_Flow
  imports Preview_Correct
begin

section \<open>Control flow of the preview server\<close>

text \<open>
  Theorems about the order in which a handler runs (what a refused requirement and a throttled request
  leave out), what a successful action invalidates, which route answers a request and
  which paths reach a route.
\<close>

subsection \<open>Refused requirements\<close>

text \<open>C34. A refused requirement ends an action or a route: whatever steps follow it, an action answers with the error
  of its fallback together with what the steps before it produced, a route with the response of the
  fallback, and store and runtime are in the state these steps left.\<close>

theorem refused_requirement_stops:
  fixes c :: "('w, 'h) action_context" and d :: "('w, 'h) preview_route_context"
  assumes "loop_prefix (action_step c) action_view pre a st = (Inr (Inl a'), st')"
    and "eval_preview_require_expr (pe_eval (ac_env c)) (as_scope a') x = Inr v" and "\<not> preview_require_passes v"
    and "loop_prefix (route_step d) route_view pre' s st = (Inr (Inl s'), st'')"
    and "eval_preview_require_expr (pe_eval_plain (rc_env d)) (rs_scope s') x = Inr w" and "\<not> preview_require_passes w"
  shows "run_action_steps c (pre @ StRequire x fallback # post) a st
      = (case eval_preview_action_error_fallback (ac_env c) (as_scope a') fallback of
           Inl err \<Rightarrow> (Inl err, st')
         | Inr err \<Rightarrow> (Inr (action_result a' (Some err)), st'))
    \<and> run_route_steps d (pre' @ StRequire x fallback # post) s st
      = (and_then (render_preview_require_fallback (rc_env d) (rs_scope s') fallback) (finish_route d s'), st'')"
proof
  show "run_action_steps c (pre @ StRequire x fallback # post) a st
      = (case eval_preview_action_error_fallback (ac_env c) (as_scope a') fallback of
           Inl err \<Rightarrow> (Inl err, st')
         | Inr err \<Rightarrow> (Inr (action_result a' (Some err)), st'))"
    by (simp add: action_loop.run_after_prefix [OF assms(1)] assms(2,3) pv_then_def pv_lift_def pv_return_def split: sum.split)
  show "run_route_steps d (pre' @ StRequire x fallback # post) s st
      = (and_then (render_preview_require_fallback (rc_env d) (rs_scope s') fallback) (finish_route d s'), st'')"
    by (cases "render_preview_require_fallback (rc_env d) (rs_scope s') fallback")
      (simp_all add: route_loop.run_after_prefix [OF assms(4)] assms(5,6) pv_then_def pv_lift_def pv_return_def split: sum.split)
qed

subsection \<open>Invalidations\<close>

definition inv_keys :: "preview_invalidation list \<Rightarrow> string list list" where
  "inv_keys invs = map inv_query_key invs"

fun step_collections :: "step_plan \<Rightarrow> string list" where
  "step_collections (StInsert collection flds) = [collection]"
| "step_collections (StUpdate collection flds filters) = [collection]"
| "step_collections (StDelete collection filters) = [collection]"
| "step_collections (StTransaction ops) = map transaction_collection ops"
| "step_collections _ = []"

definition collection_keys :: "string list \<Rightarrow> string list set" where
  "collection_keys cs = (\<lambda>collection. [normalize_preview_invalidation_target collection]) ` set cs"

lemma auto_invalidation:
  "set (inv_keys (push_preview_auto_invalidation invs t)) = insert [normalize_preview_invalidation_target t] (set (inv_keys invs))"
  "distinct (inv_keys invs) \<Longrightarrow> distinct (inv_keys (push_preview_auto_invalidation invs t))"
  by (auto simp: push_preview_auto_invalidation_def inv_keys_def invalidation_new_def Let_def list_ex_iff intro: rev_image_eqI)

lemma auto_invalidations:
  "set (inv_keys (foldl (\<lambda>invs op. push_preview_auto_invalidation invs (f op)) invs ops)) = collection_keys (map f ops) \<union> set (inv_keys invs)"
  "distinct (inv_keys invs) \<Longrightarrow> distinct (inv_keys (foldl (\<lambda>invs op. push_preview_auto_invalidation invs (f op)) invs ops))"
  by (induction ops arbitrary: invs) (auto simp: auto_invalidation collection_keys_def)

lemma replace_first_keys:
  "replace_first (\<lambda>x. f x = f y) y xs = Some ys \<Longrightarrow> map f ys = map f xs \<and> f y \<in> set (map f xs)"
  by (induction xs arbitrary: ys) (auto split: if_splits)

lemma replace_first_None: "replace_first p y xs = None \<longleftrightarrow> (\<forall>x\<in>set xs. \<not> p x)"
  by (induction xs) auto

lemma explicit_invalidation:
  "set (inv_keys (push_preview_explicit_invalidation invs t)) = insert [normalize_preview_invalidation_target t] (set (inv_keys invs))"
  "distinct (inv_keys invs) \<Longrightarrow> distinct (inv_keys (push_preview_explicit_invalidation invs t))"
proof -
  let ?i = "invalidation_new t"
  have key: "inv_query_key ?i = [normalize_preview_invalidation_target t]" by (simp add: invalidation_new_def)
  have "inv_keys (push_preview_explicit_invalidation invs t)
      = (if inv_query_key ?i \<in> set (inv_keys invs) then inv_keys invs else inv_keys invs @ [inv_query_key ?i])"
  proof (cases "replace_first (\<lambda>x. inv_query_key x = inv_query_key ?i) ?i invs")
    case None
    then have "inv_query_key ?i \<notin> set (inv_keys invs)" by (auto simp: replace_first_None inv_keys_def)
    then show ?thesis unfolding push_preview_explicit_invalidation_def Let_def None option.case by (simp add: inv_keys_def)
  next
    case (Some invs')
    from replace_first_keys [OF Some] Some show ?thesis
      by (simp only: push_preview_explicit_invalidation_def Let_def inv_keys_def option.case if_True simp_thms)
  qed
  then show "set (inv_keys (push_preview_explicit_invalidation invs t)) = insert [normalize_preview_invalidation_target t] (set (inv_keys invs))"
    and "distinct (inv_keys invs) \<Longrightarrow> distinct (inv_keys (push_preview_explicit_invalidation invs t))"
    by (auto simp: key)
qed

definition tracks :: "string list \<Rightarrow> action_state \<Rightarrow> action_state \<Rightarrow> bool" where
  "tracks cs a a' = (set (inv_keys (as_invalidations a)) \<union> collection_keys cs \<subseteq> set (inv_keys (as_invalidations a'))
     \<and> (distinct (inv_keys (as_invalidations a)) \<longrightarrow> distinct (inv_keys (as_invalidations a'))))"

lemma tracks_trans: "tracks cs a b \<Longrightarrow> tracks ds b d \<Longrightarrow> tracks (cs @ ds) a d"
  by (auto simp: tracks_def collection_keys_def)

lemma tracks_same: "as_invalidations a' = as_invalidations a \<Longrightarrow> tracks [] a a'"
  by (simp add: tracks_def collection_keys_def)

lemma next_state_Inr: "next_state a st = (Inr out, st') \<longleftrightarrow> out = AoNext a \<and> st' = st"
  by (auto simp: next_state_def pv_return_def)

lemma with_runtime_Inr: "with_runtime e m f st = (Inr y, st') \<longleftrightarrow> (\<exists>rt. pe_runtime e = Some rt \<and> f rt st = (Inr y, st'))"
  by (simp add: with_runtime_def pv_fail_Inr split: option.split)

lemma need_request_Inr: "need_request c m f st = (Inr y, st') \<longleftrightarrow> (\<exists>r. ac_request c = Some r \<and> f r st = (Inr y, st'))"
  by (simp add: need_request_def pv_fail_Inr split: option.split)

lemmas pv_Inr = pv_then_Inr pv_lift_Inr pv_return_Inr pv_fail_Inr next_state_Inr with_runtime_Inr need_request_Inr

lemma throttle_outcome:
  assumes "action_throttle c a hook st = (Inr out, st')"
  shows "out = AoNext a \<or> (\<exists>r. out = AoStop r \<and> ar_error r \<noteq> None)"
proof -
  obtain parsed where parsed: "parse_login_throttle_hook hook = Inr parsed"
    using assms by (cases "parse_login_throttle_hook hook") (auto simp: action_throttle_def Let_def pv_Inr)
  show ?thesis
  proof (cases parsed)
    case None
    then show ?thesis using assms parsed by (simp add: action_throttle_def Let_def pv_Inr)
  next
    case (Some h)
    obtain key st1 where rest: "(case key of
        AvString k \<Rightarrow> pv_then (try_acquire (ac_env c) (''action:'' @ ac_name c @ '':'' @ hook) h k) (\<lambda>r. case r of
            Inr _ \<Rightarrow> next_state a
          | Inl (Limited d) \<Rightarrow> pv_return (AoStop (action_result (a\<lparr> as_redirect := None \<rparr>) (Some
              \<lparr> ae_message = ''Too many requests.'', ae_status = 429,
                ae_value = AvRecord [(''retryAfter'', AvNumber (word_of_nat (retry_seconds d)))] \<rparr>)))
          | Inl _ \<Rightarrow> pv_fail ''login throttle unavailable'')
      | _ \<Rightarrow> pv_fail ''login throttle key must be String'') st1 = (Inr out, st')"
      using assms unfolding action_throttle_def Let_def parsed Some sum.case option.case pv_then_Inr [of "pv_lift r" for r] by blast
    have "\<exists>k. key = AvString k" using rest by (cases key) (simp_all add: pv_fail_Inr)
    then obtain k where key: "key = AvString k" ..
    obtain r :: "throttle_error + unit" and st2 where "(case r of
            Inr _ \<Rightarrow> next_state a
          | Inl (Limited d) \<Rightarrow> pv_return (AoStop (action_result (a\<lparr> as_redirect := None \<rparr>) (Some
              \<lparr> ae_message = ''Too many requests.'', ae_status = 429,
                ae_value = AvRecord [(''retryAfter'', AvNumber (word_of_nat (retry_seconds d)))] \<rparr>)))
          | Inl _ \<Rightarrow> pv_fail ''login throttle unavailable'') st2 = (Inr out, st')"
      using rest unfolding key ax_value.case pv_then_Inr by blast
    then show ?thesis
      by (cases r) (auto simp: pv_Inr action_result_def split: throttle_error.splits)
  qed
qed

lemma throttle_tracks: "action_throttle c a hook st = (Inr (AoNext a'), st') \<Longrightarrow> a' = a"
  using throttle_outcome by fastforce

lemma step_stops: "action_step c p a st = (Inr (AoStop r), st') \<Longrightarrow> ar_error r \<noteq> None"
proof (cases p)
  case (StHook phase hook)
  then show "action_step c p a st = (Inr (AoStop r), st') \<Longrightarrow> ar_error r \<noteq> None"
    using throttle_outcome [of c a hook st "AoStop r" st'] by simp
qed (auto simp: pv_Inr mutate_and_invalidate_def action_result_def split: if_splits option.splits)

lemma step_tracks:
  assumes "action_step c st a s = (Inr (AoNext a'), s')"
  shows "tracks (step_collections st) a a'"
proof (cases st)
  case (StHook phase hook)
  then show ?thesis using assms throttle_tracks [of c a hook s a' s'] by (simp add: tracks_same)
next
  case (StTransaction ops)
  then show ?thesis using assms by (auto simp: pv_Inr tracks_def auto_invalidations)
next
  case (StRequire x fallback)
  then show ?thesis using assms by (auto simp: pv_Inr intro!: tracks_same split: if_splits)
next
  case (StRevalidate x literal)
  then show ?thesis using assms by (auto simp: pv_Inr tracks_def collection_keys_def explicit_invalidation)
next
  case (StSessionRefresh)
  then show ?thesis using assms by (auto simp: pv_Inr intro!: tracks_same split: option.splits)
qed (use assms in \<open>auto simp: pv_Inr mutate_and_invalidate_def tracks_def collection_keys_def auto_invalidation\<close>)

text \<open>C35. An action that ends without an error has invalidated every collection one of its steps writes to,
  in a transaction or outside of one, so that no cached query of it is served afterwards; each key is listed once.\<close>

theorem successful_action_invalidates:
  assumes "run_action_steps c steps a st = (Inr r, st')" and "ar_error r = None"
    and "distinct (inv_keys (as_invalidations a))"
  shows "collection_keys (concat (map step_collections steps)) \<subseteq> set (inv_keys (ar_invalidations r))
    \<and> distinct (inv_keys (ar_invalidations r))"
proof -
  let ?keys = "\<lambda>steps. collection_keys (concat (map step_collections steps))"
  let ?I = "\<lambda>rest a'. ?keys steps \<subseteq> set (inv_keys (as_invalidations a')) \<union> ?keys rest \<and> distinct (inv_keys (as_invalidations a'))"
  let ?Q = "\<lambda>r. ar_error r \<noteq> None \<or> ?keys steps \<subseteq> set (inv_keys (ar_invalidations r)) \<and> distinct (inv_keys (ar_invalidations r))"
  have "?Q r"
  proof (rule action_loop.run_invariant [OF assms(1), of ?I ?Q])
    show "?I steps a" using assms(3) by simp
    show "case action_view out of Inl a' \<Rightarrow> ?I ps a' | Inr r \<Rightarrow> ?Q r"
      if "?I (p # ps) b" "action_step c p b st1 = (Inr out, st2)" for p ps b st1 out st2
    proof (cases out)
      case (AoNext b')
      then have "tracks (step_collections p) b b'" using that(2) by (simp add: step_tracks)
      moreover have "?keys (p # ps) = collection_keys (step_collections p) \<union> ?keys ps"
        by (auto simp: collection_keys_def)
      ultimately show ?thesis using that(1) AoNext unfolding tracks_def action_view_def by simp blast
    next
      case (AoStop r')
      then show ?thesis using that(2) step_stops [of c p b st1 r' st2] by (simp add: action_view_def)
    qed
    show "?Q r'" if "?I [] b" "pv_return (action_result b None) st1 = (Inr r', st2)" for b st1 r' st2
    proof -
      have "?keys [] = {}" by (simp add: collection_keys_def)
      with that(1) have "?keys steps \<subseteq> set (inv_keys (as_invalidations b)) \<and> distinct (inv_keys (as_invalidations b))" by simp
      moreover from that(2) have "ar_invalidations r' = as_invalidations b" by (auto simp: pv_return_Inr action_result_def)
      ultimately show ?thesis by simp
    qed
  qed
  then show ?thesis using assms(2) by simp
qed

subsection \<open>The route of a request\<close>

lemma score_le_trans: "score_le a b \<Longrightarrow> score_le b c \<Longrightarrow> score_le a c"
  by (auto simp: score_le_def)

lemma score_le_refl [simp]: "score_le a a"
  by (simp add: score_le_def)

lemma score_less_le: "\<not> score_le a b \<Longrightarrow> score_le b a"
  by (auto simp: score_le_def)

definition beats :: "string \<Rightarrow> string \<Rightarrow> nat \<times> nat \<Rightarrow> handler_plan \<Rightarrow> bool" where
  "beats m path score h = (case route_candidate m path h of None \<Rightarrow> True | Some (other, _) \<Rightarrow> \<not> score_le score other)"

definition at_least :: "string \<Rightarrow> string \<Rightarrow> nat \<times> nat \<Rightarrow> handler_plan \<Rightarrow> bool" where
  "at_least m path score h = (case route_candidate m path h of None \<Rightarrow> True | Some (other, _) \<Rightarrow> score_le other score)"

lemma winner_intro:
  "hs = pre @ h # post \<Longrightarrow> route_candidate m path h = Some (score, r)
    \<Longrightarrow> case best of Some (current, _) \<Rightarrow> \<not> score_le score current | None \<Rightarrow> True
    \<Longrightarrow> list_all (beats m path score) pre \<Longrightarrow> list_all (at_least m path score) post
    \<Longrightarrow> \<exists>pre h post score. hs = pre @ h # post \<and> route_candidate m path h = Some (score, r)
          \<and> (case best of Some (current, _) \<Rightarrow> \<not> score_le score current | None \<Rightarrow> True)
          \<and> list_all (beats m path score) pre \<and> list_all (at_least m path score) post"
  by blast

lemma best_route_Some:
  "best_route m path hs best = Some r \<Longrightarrow>
     (\<exists>score. best = Some (score, r) \<and> list_all (at_least m path score) hs)
     \<or> (\<exists>pre h post score. hs = pre @ h # post \<and> route_candidate m path h = Some (score, r)
          \<and> (case best of Some (current, _) \<Rightarrow> \<not> score_le score current | None \<Rightarrow> True)
          \<and> list_all (beats m path score) pre \<and> list_all (at_least m path score) post)"
proof (induction hs arbitrary: best)
  case (Cons h hs)
  show ?case
  proof (cases "route_candidate m path h")
    case None
    with Cons.prems have "best_route m path hs best = Some r" by simp
    from Cons.IH [OF this] show ?thesis
    proof (elim disjE exE conjE)
      fix score assume "best = Some (score, r)" "list_all (at_least m path score) hs"
      moreover have "at_least m path score h" by (simp add: at_least_def None)
      ultimately show ?thesis by simp
    next
      fix pre h' post score
      assume "hs = pre @ h' # post" "route_candidate m path h' = Some (score, r)"
        "case best of Some (current, _) \<Rightarrow> \<not> score_le score current | None \<Rightarrow> True"
        "list_all (beats m path score) pre" "list_all (at_least m path score) post"
      moreover have "beats m path score h" by (simp add: beats_def None)
      ultimately show ?thesis by (intro disjI2 winner_intro [of _ "h # pre" h' post]) auto
    qed
  next
    case (Some sr)
    obtain score0 r0 where sr: "sr = (score0, r0)" by (cases sr)
    show ?thesis
    proof (cases "case best of Some (current, _) \<Rightarrow> score_le score0 current | None \<Rightarrow> False")
      case True
      then obtain current b where best: "best = Some (current, b)" "score_le score0 current" by (auto split: option.splits)
      then have "best_route m path hs best = Some r" using Cons.prems Some sr by simp
      from Cons.IH [OF this] show ?thesis
      proof (elim disjE exE conjE)
        fix score assume "best = Some (score, r)" "list_all (at_least m path score) hs"
        moreover have "at_least m path score h" using Some sr best calculation by (simp add: at_least_def)
        ultimately show ?thesis by simp
      next
        fix pre h' post score
        assume rest: "hs = pre @ h' # post" "route_candidate m path h' = Some (score, r)"
          "case best of Some (current, _) \<Rightarrow> \<not> score_le score current | None \<Rightarrow> True"
          "list_all (beats m path score) pre" "list_all (at_least m path score) post"
        then have "\<not> score_le score score0" using best score_le_trans [of score score0 current] by auto
        then have "beats m path score h" by (simp add: beats_def Some sr)
        with rest show ?thesis by (intro disjI2 winner_intro [of _ "h # pre" h' post]) auto
      qed
    next
      case False
      then have "best_route m path hs (Some (score0, r0)) = Some r" using Cons.prems Some sr by simp
      from Cons.IH [OF this] show ?thesis
      proof (elim disjE exE conjE)
        fix score assume "Some (score0, r0) = Some (score, r)" "list_all (at_least m path score) hs"
        then show ?thesis using Some sr False
          by (intro disjI2 winner_intro [of _ "[]" h hs]) (auto split: option.splits)
      next
        fix pre h' post score
        assume rest: "hs = pre @ h' # post" "route_candidate m path h' = Some (score, r)"
          "case Some (score0, r0) of Some (current, _) \<Rightarrow> \<not> score_le score current | None \<Rightarrow> True"
          "list_all (beats m path score) pre" "list_all (at_least m path score) post"
        then have "case best of Some (current, _) \<Rightarrow> \<not> score_le score current | None \<Rightarrow> True"
          using False score_le_trans [OF _ score_less_le, of score _ score0]
          by (cases best) (auto dest: score_le_trans score_less_le)
        moreover have "beats m path score h" using rest(3) by (simp add: beats_def Some sr)
        ultimately show ?thesis using rest by (intro disjI2 winner_intro [of _ "h # pre" h' post]) auto
      qed
    qed
  qed
qed simp

lemma best_route_None: "best_route m path hs best = None \<longleftrightarrow> best = None \<and> list_all (\<lambda>h. route_candidate m path h = None) hs"
  by (induction hs arbitrary: best) (auto split: option.splits)

lemma candidate_handler: "route_candidate m path h = Some (score, r) \<Longrightarrow> rm_handler r = h"
  by (auto simp: route_candidate_def split: handler_kind.splits if_splits)

text \<open>The route that answers a request is one whose method and pattern match; no matching route is more
  specific, in its static segments, and of those as specific it is the first in the order of declaration. A request goes
  unanswered only if no route matches.\<close>

theorem best_route_wins:
  "case match_preview_route routes m path of
     None \<Rightarrow> list_all (\<lambda>h. route_candidate (normalize_preview_method m) path h = None) routes
   | Some r \<Rightarrow>
       (\<exists>pre post score. routes = pre @ rm_handler r # post
          \<and> route_candidate (normalize_preview_method m) path (rm_handler r) = Some (score, r)
          \<and> list_all (beats (normalize_preview_method m) path score) pre
          \<and> list_all (at_least (normalize_preview_method m) path score) post)"
proof (cases "match_preview_route routes m path")
  case None
  then have "list_all (\<lambda>h. route_candidate (normalize_preview_method m) path h = None) routes"
    by (simp add: match_preview_route_def best_route_None)
  then show ?thesis by (simp add: None)
next
  case (Some r)
  then have "best_route (normalize_preview_method m) path routes None = Some r" by (simp add: match_preview_route_def)
  from best_route_Some [OF this] show ?thesis using Some candidate_handler by fastforce
qed

subsection \<open>Safe paths\<close>

lemma split_on_join_with:
  "ps \<noteq> [] \<Longrightarrow> list_all (\<lambda>p. d \<notin> set p) ps \<Longrightarrow> split_on d (join_with [d] ps) = ps"
proof (induction "[d]" ps rule: join_with.induct)
  case (3 p q ps)
  have "split_on d (p @ [d] @ join_with [d] (q # ps)) = p # split_on d (join_with [d] (q # ps))"
    using 3(3) by (simp add: split_on_append)
  then show ?case using 3 by simp
qed (simp_all add: split_on_absent)

lemma path_segments_parts: "s \<in> set (path_segments p) \<Longrightarrow> s \<noteq> [] \<and> CHR ''/'' \<notin> set s \<and> set s \<subseteq> set p"
  using split_on_pieces [of s "CHR ''/''" "dropWhile (\<lambda>c. c = CHR ''/'') p"] set_dropWhileD [of _ "\<lambda>c. c = CHR ''/''" p]
  by (auto simp: path_segments_def)

lemma path_segments_join:
  assumes "segs \<noteq> []" and "\<And>s. s \<in> set segs \<Longrightarrow> s \<noteq> [] \<and> CHR ''/'' \<notin> set s"
  shows "path_segments (''/'' @ join_with ''/'' segs) = segs"
proof -
  have "join_with ''/'' segs \<noteq> [] \<and> hd (join_with ''/'' segs) \<noteq> CHR ''/''"
  proof (cases segs)
    case (Cons x xs)
    with assms(2) [of x] obtain y ys where "x = y # ys" "y \<noteq> CHR ''/''" by (cases x) auto
    then show ?thesis using Cons by (cases xs) auto
  qed (use assms in simp)
  then have "dropWhile (\<lambda>c. c = CHR ''/'') (''/'' @ join_with ''/'' segs) = join_with ''/'' segs"
    by (cases "join_with ''/'' segs") simp_all
  moreover have "split_on (CHR ''/'') (join_with ''/'' segs) = segs"
    using assms by (intro split_on_join_with) (auto simp: list_all_iff)
  ultimately show ?thesis using assms(2) by (simp add: path_segments_def filter_id_conv)
qed

text \<open>C36. A request path that is accepted is absolute and canonical: it has the segments the target has, in their order
  and without empty ones, none of them is a step to the current or the parent directory or contains a
  backslash, and query and fragment are gone.\<close>

theorem normalized_path_safe:
  assumes "normalize_preview_request_path target = Inr p"
  shows "(\<exists>rest. p = CHR ''/'' # rest)
    \<and> path_segments p = path_segments (trim (path_of_target target))
    \<and> list_all (\<lambda>s. s \<noteq> [] \<and> s \<noteq> ''.'' \<and> s \<noteq> ''..'' \<and> CHR 0x5C \<notin> set s) (path_segments p)
    \<and> p = ''/'' @ join_with ''/'' (path_segments p)
    \<and> CHR 0x3F \<notin> set p \<and> CHR 0x23 \<notin> set p"
proof -
  define raw where "raw = trim (path_of_target target)"
  define segs where "segs = path_segments (if raw = [] then ''/'' else raw)"
  have segs: "segs = path_segments raw" by (simp add: segs_def path_segments_def)
  have safe: "\<not> list_ex unsafe_segment segs" and p: "p = ''/'' @ join_with ''/'' segs"
    using assms by (auto simp: normalize_preview_request_path_def Let_def raw_def [symmetric] segs_def [symmetric] split: if_splits)
  have parts: "s \<noteq> [] \<and> CHR ''/'' \<notin> set s \<and> set s \<subseteq> set raw" if "s \<in> set segs" for s
    using path_segments_parts that segs by simp
  have same: "path_segments p = segs"
  proof (cases "segs = []")
    case True
    then show ?thesis by (simp add: p path_segments_def)
  next
    case False
    then show ?thesis unfolding p by (rule path_segments_join) (use parts in blast)
  qed
  obtain a b where "path_of_target target = a @ raw @ b" using trim_decomp [of "path_of_target target"] raw_def by blast
  then have "set raw \<subseteq> set (path_of_target target)" by auto
  moreover have "\<forall>c \<in> set (path_of_target target). c \<noteq> CHR 0x3F \<and> c \<noteq> CHR 0x23"
    unfolding path_of_target_def by (auto dest!: set_takeWhileD)
  ultimately have marks: "CHR 0x3F \<notin> set raw" "CHR 0x23 \<notin> set raw" by blast+
  have "CHR 0x3F \<notin> set (join_with ''/'' segs) \<and> CHR 0x23 \<notin> set (join_with ''/'' segs)"
    using set_join_with [of "''/''" segs] parts marks by (auto simp: subset_iff)
  then have "CHR 0x3F \<notin> set p \<and> CHR 0x23 \<notin> set p" by (simp add: p)
  moreover have "list_all (\<lambda>s. s \<noteq> [] \<and> s \<noteq> ''.'' \<and> s \<noteq> ''..'' \<and> CHR 0x5C \<notin> set s) segs"
    using safe parts by (auto simp: list_all_iff list_ex_iff unsafe_segment_def)
  ultimately show ?thesis using p same segs by (simp add: raw_def)
qed

subsection \<open>Declared contracts\<close>

definition meets_contract :: "('w, 'h) preview_env \<Rightarrow> string \<Rightarrow> preview_response \<Rightarrow> bool" where
  "meets_contract e contract r =
     (validate_api_response_bytes (\<lambda>b. ok_or [] (pe_parse_json e b)) (pe_numbers e) (pr_status r) (pr_content_type r) (pr_body r)
        contract (pe_types e) = Inr ())"

definition contract_kept :: "('w, 'h) preview_env \<Rightarrow> string \<Rightarrow> preview_response \<Rightarrow> bool" where
  "contract_kept e contract r = (meets_contract e contract r \<or> r = contract_failure_response \<or> pr_status r = 429)"

lemma validated_response:
  assumes "hp_kind h = HkRoute m path (Some contract) input"
  shows "contract_kept e contract (validate_preview_api_response e True h r)"
  by (auto simp: contract_kept_def meets_contract_def validate_preview_api_response_def assms split: sum.split)

lemma finish_keeps:
  assumes "hp_kind (rc_handler c) = HkRoute m path (Some contract) input" "rc_validate c"
  shows "finish_route c s r = Inr r' \<Longrightarrow> contract_kept (rc_env c) contract r'"
    and "return_route c s plan = Inr r' \<Longrightarrow> contract_kept (rc_env c) contract r'"
  using validated_response [OF assms(1)] assms(2) by (auto simp: finish_route_def return_route_def and_then_Inr_iff)

lemma route_next_Inr: "route_next s st = (Inr out, st') \<longleftrightarrow> out = RoNext s \<and> st' = st"
  by (auto simp: route_next_def pv_return_def)

lemma metadata_status: "pr_status (apply_preview_response_metadata r hs cs) = pr_status r"
  by (simp add: apply_preview_response_metadata_def)

lemma throttled_status: "pr_status (throttled_response e d) = 429"
  by (simp add: throttled_response_def Let_def)

lemma before_hook_keeps:
  assumes contract: "hp_kind (rc_handler c) = HkRoute m path (Some contract) input" "rc_validate c"
    and stop: "route_before_hook c s hook st = (Inr (RoStop r), st')"
  shows "contract_kept (rc_env c) contract r"
proof -
  obtain parsed where parsed: "parse_login_throttle_hook hook = Inr parsed"
    using stop by (cases "parse_login_throttle_hook hook") (auto simp: route_before_hook_def Let_def pv_Inr)
  show ?thesis
  proof (cases parsed)
    case None
    then show ?thesis using stop parsed finish_keeps(1) [OF contract]
      by (auto simp: route_before_hook_def Let_def pv_Inr route_next_Inr split: option.splits)
  next
    case (Some h)
    obtain key st1 where rest: "(case key of
        AvString k \<Rightarrow> pv_then (try_acquire (rc_env c) (hp_name (rc_handler c) @ '':'' @ hook) h k) (\<lambda>r. case r of
            Inr _ \<Rightarrow> route_next s
          | Inl (Limited d) \<Rightarrow> pv_return (RoStop (apply_preview_response_metadata (throttled_response (rc_env c) d) (rs_headers s) (rs_cookies s)))
          | Inl _ \<Rightarrow> pv_fail ''login throttle unavailable'')
      | _ \<Rightarrow> pv_fail ''login throttle key must be String'') st1 = (Inr (RoStop r), st')"
      using stop unfolding route_before_hook_def Let_def parsed Some sum.case option.case pv_then_Inr [of "pv_lift r" for r] by blast
    have "\<exists>k. key = AvString k" using rest by (cases key) (simp_all add: pv_fail_Inr)
    then obtain k where key: "key = AvString k" ..
    obtain q :: "throttle_error + unit" and st2 where "(case q of
            Inr _ \<Rightarrow> route_next s
          | Inl (Limited d) \<Rightarrow> pv_return (RoStop (apply_preview_response_metadata (throttled_response (rc_env c) d) (rs_headers s) (rs_cookies s)))
          | Inl _ \<Rightarrow> pv_fail ''login throttle unavailable'') st2 = (Inr (RoStop r), st')"
      using rest unfolding key ax_value.case pv_then_Inr by blast
    then show ?thesis
      by (cases q) (auto simp: pv_Inr route_next_Inr contract_kept_def metadata_status throttled_status split: throttle_error.splits)
  qed
qed

lemma route_step_keeps:
  assumes contract: "hp_kind (rc_handler c) = HkRoute m path (Some contract) input" "rc_validate c"
    and stop: "route_step c p s st = (Inr (RoStop r), st')"
  shows "contract_kept (rc_env c) contract r"
proof (cases p)
  case (StHook phase hook)
  then show ?thesis using stop before_hook_keeps [OF contract]
    by (cases phase) (auto simp: route_after_hook_def pv_Inr route_next_Inr split: sum.splits option.splits)
next
  case (StRequire x fallback)
  then show ?thesis using stop finish_keeps(1) [OF contract] by (auto simp: pv_Inr route_next_Inr split: if_splits)
next
  case (StReturn plan)
  then show ?thesis using stop finish_keeps(2) [OF contract] by (auto simp: pv_Inr)
qed (use stop in \<open>auto simp: pv_Inr route_next_Inr route_mutation_def split: option.splits\<close>)

text \<open>C37. Where contracts are checked and the route declares one, every response that leaves the route meets it, status,
  content type and body, unless it is the fixed 500 response that replaces one that does not
  or the response 429 of a throttle.\<close>

theorem route_contract_kept:
  assumes "execute_preview_route e routes loaders r path query True st = (Inr (Some response), st')"
    and "match_preview_route routes (req_method r) path = Some found"
    and "hp_kind (rm_handler found) = HkRoute m pattern (Some contract) input"
  shows "meets_contract e contract response \<or> response = contract_failure_response \<or> pr_status response = 429"
proof -
  from assms obtain sc st1 st2 where "run_route_steps
      \<lparr> rc_env = e, rc_handler = rm_handler found, rc_loaders = loaders, rc_request = r, rc_validate = True \<rparr> (hp_steps (rm_handler found))
      \<lparr> rs_scope = sc, rs_headers = [], rs_cookies = [], rs_after = [] \<rparr> st1 = (Inr response, st2)"
    by (auto simp: execute_preview_route_def Let_def pv_Inr split: if_splits)
  then have "contract_kept e contract response"
  proof (rule route_loop.run_invariant [where I = "\<lambda>_ _. True" and Q = "contract_kept e contract"])
    let ?c = "\<lparr> rc_env = e, rc_handler = rm_handler found, rc_loaders = loaders, rc_request = r, rc_validate = True \<rparr>"
    show "case route_view out of Inl s' \<Rightarrow> True | Inr q \<Rightarrow> contract_kept e contract q"
      if "route_step ?c p s st1 = (Inr out, st2)" for p s st1 out st2
      using route_step_keeps [of ?c m pattern contract input p s st1 _ st2] that assms(3)
      by (cases out) (simp_all add: route_view_def)
    show "contract_kept e contract q"
      if "pv_lift (finish_route ?c s (render_preview_json_response (rc_env ?c) AvNull)) st1 = (Inr q, st2)" for s st1 q st2
      using finish_keeps(1) [of ?c m pattern contract input] that assms(3) by (auto simp: pv_lift_Inr)
  qed simp
  then show ?thesis by (simp add: contract_kept_def)
qed

subsection \<open>Examples\<close>

definition demo_context :: "(nat, unit) action_context" where
  "demo_context = \<lparr> ac_env = demo_env (Some demo_backend), ac_name = ''save'', ac_loaders = [], ac_request = None \<rparr>"

definition demo_done :: action_state where
  "demo_done = (action_start [])\<lparr> as_invalidations := [invalidation_new ''posts''] \<rparr>"

lemma demo_insert_runs:
  "action_step demo_context demo_insert (action_start []) (preview_store_default, 0) = (Inr (AoNext demo_done), (preview_store_default, 1))"
  by (simp add: demo_insert_def demo_context_def demo_env_def mutate_and_invalidate_def execute_mutation_def pv_then_def pv_lift_def
    eval_preview_fields_def demo_value_def bm_get_def pv_world_def demo_backend_def pv_return_def next_state_def demo_done_def
    action_start_def push_preview_auto_invalidation_def Let_def bm_of_list_def)

definition demo_route_context :: "(nat, unit) preview_route_context" where
  "demo_route_context = \<lparr> rc_env = demo_env (Some demo_backend), rc_handler = \<lparr> hp_name = ''save'', hp_kind = HkJob, hp_steps = [] \<rparr>,
     rc_loaders = [], rc_request = demo_visit, rc_validate = False \<rparr>"

definition demo_route_start :: route_state where
  "demo_route_start = \<lparr> rs_scope = [], rs_headers = [], rs_cookies = [], rs_after = [] \<rparr>"

lemma demo_route_insert_runs:
  "route_step demo_route_context demo_insert demo_route_start (preview_store_default, 0)
     = (Inr (RoNext demo_route_start), (preview_store_default, 1))"
  by (simp add: demo_insert_def demo_route_context_def demo_env_def route_mutation_def execute_mutation_def pv_then_def pv_lift_def
    eval_preview_fields_def demo_value_def bm_get_def pv_world_def demo_backend_def pv_return_def route_next_def
    demo_route_start_def Let_def bm_of_list_def)

theorem refused_requirement_stops_witness:
  "run_action_steps demo_context [demo_insert, StRequire ''no'' (Some RpForbidden), demo_insert] (action_start []) (preview_store_default, 0)
     = (Inr (action_result demo_done (Some forbidden_error)), (preview_store_default, 1))
   \<and> snd (run_route_steps demo_route_context [demo_insert, StRequire ''no'' (Some RpForbidden), demo_insert] demo_route_start
       (preview_store_default, 0)) = (preview_store_default, 1)"
proof -
  have "loop_prefix (action_step demo_context) action_view [demo_insert] (action_start []) (preview_store_default, 0)
      = (Inr (Inl demo_done), (preview_store_default, 1))"
    by (simp add: demo_insert_runs pv_then_def pv_return_def action_view_def)
  moreover have "eval_preview_require_expr (pe_eval (ac_env demo_context)) (as_scope demo_done) ''no'' = Inr (AvBool False)"
    by (simp add: demo_context_def demo_env_def eval_preview_require_expr_def demo_value_def demo_done_def action_start_def bm_get_def)
  moreover have "loop_prefix (route_step demo_route_context) route_view [demo_insert] demo_route_start (preview_store_default, 0)
      = (Inr (Inl demo_route_start), (preview_store_default, 1))"
    by (simp add: demo_route_insert_runs pv_then_def pv_return_def route_view_def)
  moreover have "eval_preview_require_expr (pe_eval_plain (rc_env demo_route_context)) (rs_scope demo_route_start) ''no'' = Inr (AvBool False)"
    by (simp add: demo_route_context_def demo_env_def eval_preview_require_expr_def demo_value_def demo_route_start_def bm_get_def)
  ultimately show ?thesis
    using refused_requirement_stops [of demo_context "[demo_insert]" "action_start []" "(preview_store_default, 0)" demo_done
      "(preview_store_default, 1)" "''no''" "AvBool False" demo_route_context "[demo_insert]" demo_route_start demo_route_start
      "(preview_store_default, 1)" "AvBool False" "Some RpForbidden" "[demo_insert]"]
    by (simp add: eval_preview_action_error_fallback_def Let_def del: run_action_steps.simps run_route_steps.simps)
qed

lemma demo_action_succeeds:
  "run_action_steps demo_context [demo_insert] (action_start []) (preview_store_default, 0)
     = (Inr (action_result demo_done None), (preview_store_default, 1))"
  by (simp add: demo_insert_runs pv_then_def pv_return_def)

theorem successful_action_invalidates_witness:
  "collection_keys [''posts''] \<subseteq> set (inv_keys (ar_invalidations (action_result demo_done None)))
    \<and> distinct (inv_keys (ar_invalidations (action_result demo_done None)))"
  using successful_action_invalidates [OF demo_action_succeeds]
  by (simp add: action_result_def action_start_def inv_keys_def demo_insert_def)

lemma demo_path: "trim ''/posts'' = ''/posts''"
  by (rule trim_solid) (simp add: space_byte_def code_def is_whitespace_def)

lemma demo_path_normal: "normalize_preview_request_path ''/posts?draft=1'' = Inr ''/posts''"
  by (simp add: normalize_preview_request_path_def path_of_target_def demo_path path_segments_def unsafe_segment_def)

theorem normalized_path_safe_witness:
  "path_segments ''/posts'' = path_segments (trim (path_of_target ''/posts?draft=1''))"
  using normalized_path_safe [OF demo_path_normal] by blast

definition demo_page_route :: handler_plan where
  "demo_page_route = \<lparr> hp_name = ''show'', hp_kind = HkRoute ''GET'' ''/posts'' (Some ''String'') [], hp_steps = [StReturn RpNotFound] \<rparr>"

lemma demo_page_route_found:
  "match_preview_route [demo_page_route] (req_method demo_visit) ''/posts'' = Some \<lparr> rm_handler = demo_page_route, rm_params = [] \<rparr>"
proof -
  have "trim ''GET'' = ''GET''" by (rule trim_solid) (simp add: space_byte_def code_def is_whitespace_def)
  then have m: "normalize_preview_method ''GET'' = ''GET''"
    by (simp add: normalize_preview_method_def to_upper_def upper_char_def code_def)
  show ?thesis
    by (simp add: match_preview_route_def demo_visit_def demo_page_route_def route_candidate_def m match_preview_route_pattern_def
      path_segments_def)
qed

lemma demo_page_route_runs:
  "execute_preview_route (demo_env None) [demo_page_route] [] demo_visit ''/posts'' [] True (preview_store_default, 0)
     = (Inr (Some (preview_response_of 404 text_content_type ''not found'')), (preview_store_default, 0))"
proof -
  have "trim ''String'' = ''String''" by (rule trim_solid) (simp add: space_byte_def code_def is_whitespace_def)
  then have "validate_preview_api_response (demo_env None) True demo_page_route (preview_response_of 404 text_content_type ''not found'')
      = preview_response_of 404 text_content_type ''not found''"
    by (simp add: validate_preview_api_response_def demo_page_route_def validate_api_response_bytes_def preview_response_of_def is_success_def)
  then show ?thesis unfolding execute_preview_route_def demo_page_route_found option.case
    by (simp add: Let_def pv_then_def pv_lift_def pv_return_def validate_login_throttle_hooks_def returns_binary_def route_session_def
      route_input_def demo_page_route_def return_route_def render_plan_response_def apply_preview_response_metadata_def preview_response_of_def)
qed

theorem route_contract_kept_witness:
  "meets_contract (demo_env None) ''String'' (preview_response_of 404 text_content_type ''not found'')"
  using route_contract_kept [OF demo_page_route_runs demo_page_route_found]
  by (auto simp: demo_page_route_def preview_response_of_def contract_failure_response_def)

end
