(* ===== verification/Storage.thy ===== *)
theory Storage
  imports Preview_Runtime
begin

section \<open>Storage capabilities\<close>

text \<open>
  \<open>axonyx-runtime/src/storage.rs\<close>: named directories to which uploads are written under the
  hash of their content. The directory (\<open>cap_std::fs::Dir\<close>) is a record of operations on a state
  of its own, each of which can fail; \<open>dir_laws\<close> says what is relied on where a theorem needs
  it. The digest SHA-256 is an argument. Paths are those of Unix.
\<close>

subsection \<open>Names and paths\<close>

datatype storage_access = StRead | StWrite | StReadWrite

definition can_read :: "storage_access \<Rightarrow> bool" where
  "can_read a = (a = StRead \<or> a = StReadWrite)"

definition can_write :: "storage_access \<Rightarrow> bool" where
  "can_write a = (a = StWrite \<or> a = StReadWrite)"

datatype storage_error =
    InvalidCapabilityName
  | InvalidFileLimit
  | StorageDenied string
  | DuplicateCapability string
  | UnknownCapability string
  | InvalidFileName
  | InvalidContentType
  | FileTooLarge nat nat
  | StorageMismatch
  | InvalidFileId
  | IntegrityMismatch
  | StorageIo string string

fun storage_error_text :: "storage_error \<Rightarrow> string" where
  "storage_error_text InvalidCapabilityName = ''storage capability name is invalid''"
| "storage_error_text InvalidFileLimit = ''storage file limit must be greater than zero''"
| "storage_error_text (StorageDenied operation) = ''storage capability does not allow `'' @ operation @ ''`''"
| "storage_error_text (DuplicateCapability name) = ''storage capability `'' @ name @ ''` is already registered''"
| "storage_error_text (UnknownCapability name) = ''storage capability `'' @ name @ ''` is not registered''"
| "storage_error_text InvalidFileName = ''storage file name is invalid''"
| "storage_error_text InvalidContentType = ''storage content type metadata is invalid''"
| "storage_error_text (FileTooLarge limit actual) =
     ''storage file exceeds the '' @ show_nat limit @ '' byte limit ('' @ show_nat actual @ '' bytes received)''"
| "storage_error_text StorageMismatch = ''file reference belongs to a different storage capability''"
| "storage_error_text InvalidFileId = ''file reference id is invalid''"
| "storage_error_text IntegrityMismatch = ''stored file does not match its reference''"
| "storage_error_text (StorageIo operation cause) = ''storage operation `'' @ operation @ ''` failed''"

definition max_capability_name_bytes :: nat where
  "max_capability_name_bytes = 64"

definition max_file_name_bytes :: nat where
  "max_file_name_bytes = 255"

definition max_content_type_bytes :: nat where
  "max_content_type_bytes = 255"

text \<open>\<open>Path::components\<close>: empty segments and segments \<open>.\<close> are dropped, except a leading \<open>.\<close>.\<close>

datatype path_component = RootDir | CurDir | ParentDir | NormalComponent string

definition component_of :: "string \<Rightarrow> path_component" where
  "component_of s = (if s = ''..'' then ParentDir else NormalComponent s)"

definition path_components :: "string \<Rightarrow> path_component list" where
  "path_components s =
     (let parts = split_on (CHR ''/'') s in
      (if starts_with ''/'' s then [RootDir] else if hd parts = ''.'' then [CurDir] else [])
      @ map component_of (filter (\<lambda>p. p \<noteq> [] \<and> p \<noteq> ''.'') parts))"

fun is_normal :: "path_component \<Rightarrow> bool" where
  "is_normal (NormalComponent s) = True"
| "is_normal _ = False"

definition validate_capability_name :: "string \<Rightarrow> storage_error + unit" where
  "validate_capability_name s =
     (if s = [] \<or> max_capability_name_bytes < length s
         \<or> \<not> list_all (\<lambda>c. is_alphanumeric c \<or> c \<in> {CHR ''-'', CHR ''_'', CHR ''.''}) s
      then Inl InvalidCapabilityName else Inr ())"

definition validate_file_name :: "string \<Rightarrow> storage_error + unit" where
  "validate_file_name s =
     (let cs = path_components s in
      if s = [] \<or> max_file_name_bytes < length s \<or> list_ex is_control (chars s) \<or> starts_with ''/'' s
         \<or> length cs \<noteq> 1 \<or> \<not> is_normal (hd cs)
      then Inl InvalidFileName else Inr ())"

definition validate_content_type :: "string option \<Rightarrow> storage_error + unit" where
  "validate_content_type v =
     (case v of
        Some s \<Rightarrow> if s = [] \<or> max_content_type_bytes < length s \<or> list_ex is_control (chars s) then Inl InvalidContentType else Inr ()
      | None \<Rightarrow> Inr ())"

definition validate_file_id :: "string \<Rightarrow> storage_error + unit" where
  "validate_file_id s =
     (if length s \<noteq> 64 \<or> \<not> list_all (\<lambda>c. is_digit c \<or> CHR ''a'' \<le> c \<and> c \<le> CHR ''f'') s then Inl InvalidFileId else Inr ())"

text \<open>The joined path, and its parent.\<close>

definition object_parent :: "string \<Rightarrow> string" where
  "object_parent i = join_with ''/'' [''objects'', take 2 i, i]"

definition object_path :: "string \<Rightarrow> string \<Rightarrow> storage_error + string" where
  "object_path i name =
     and_then (validate_file_id i) (\<lambda>_.
     and_then (validate_file_name name) (\<lambda>_. Inr (object_parent i @ ''/'' @ name)))"

definition sha256_hex :: "(bytes \<Rightarrow> bytes) \<Rightarrow> bytes \<Rightarrow> string" where
  "sha256_hex sha bs = hex_encode (sha bs)"

subsection \<open>Capabilities\<close>

record 'w object_dir =
  od_create_dir_all :: "string \<Rightarrow> 'w \<Rightarrow> (string + unit) \<times> 'w"
  od_try_exists :: "string \<Rightarrow> 'w \<Rightarrow> (string + bool) \<times> 'w"
  od_read :: "string \<Rightarrow> 'w \<Rightarrow> (string + bytes) \<times> 'w"
  od_write :: "string \<Rightarrow> bytes \<Rightarrow> 'w \<Rightarrow> (string + unit) \<times> 'w"

record 'w capability_storage =
  cs_name :: string
  cs_root :: "'w object_dir"
  cs_max_file_bytes :: nat
  cs_access :: storage_access

type_synonym ('w, 'a) storage_step = "'w \<Rightarrow> (storage_error + 'a) \<times> 'w"

definition io :: "string \<Rightarrow> ('w \<Rightarrow> (string + 'a) \<times> 'w) \<Rightarrow> ('w, 'a) storage_step" where
  "io operation m w = (case m w of (r, w') \<Rightarrow> (map_err (StorageIo operation) r, w'))"

definition st_then :: "('w, 'a) storage_step \<Rightarrow> ('a \<Rightarrow> ('w, 'b) storage_step) \<Rightarrow> ('w, 'b) storage_step" where
  "st_then m f w = (case m w of (Inl e, w') \<Rightarrow> (Inl e, w') | (Inr x, w') \<Rightarrow> f x w')"

definition st_lift :: "storage_error + 'a \<Rightarrow> ('w, 'a) storage_step" where
  "st_lift r w = (r, w)"

definition open_with_access ::
  "(string \<Rightarrow> 'w \<Rightarrow> (string + unit) \<times> 'w) \<Rightarrow> (string \<Rightarrow> 'w \<Rightarrow> (string + 'w object_dir) \<times> 'w) \<Rightarrow> string \<Rightarrow> string \<Rightarrow> nat
    \<Rightarrow> storage_access \<Rightarrow> ('w, 'w capability_storage) storage_step" where
  "open_with_access create_dir_all open_dir name root limit access =
     st_then (st_lift (validate_capability_name name)) (\<lambda>_.
       if limit = 0 then st_lift (Inl InvalidFileLimit)
       else
         st_then (io ''open-root'' (create_dir_all root)) (\<lambda>_.
         st_then (io ''open-root'' (open_dir root)) (\<lambda>d.
           st_lift (Inr \<lparr> cs_name = name, cs_root = d, cs_max_file_bytes = limit, cs_access = access \<rparr>))))"

definition storage_open ::
  "(string \<Rightarrow> 'w \<Rightarrow> (string + unit) \<times> 'w) \<Rightarrow> (string \<Rightarrow> 'w \<Rightarrow> (string + 'w object_dir) \<times> 'w) \<Rightarrow> string \<Rightarrow> string \<Rightarrow> nat
    \<Rightarrow> ('w, 'w capability_storage) storage_step" where
  "storage_open create_dir_all open_dir name root limit = open_with_access create_dir_all open_dir name root limit StReadWrite"

definition storage_store_bytes ::
  "(bytes \<Rightarrow> bytes) \<Rightarrow> 'w capability_storage \<Rightarrow> string \<Rightarrow> string option \<Rightarrow> bytes \<Rightarrow> ('w, stored_file) storage_step" where
  "storage_store_bytes sha s name ct bs =
     (if \<not> can_write (cs_access s) then st_lift (Inl (StorageDenied ''write''))
      else
        st_then (st_lift (validate_file_name name)) (\<lambda>_.
        st_then (st_lift (validate_content_type ct)) (\<lambda>_.
          if cs_max_file_bytes s < length bs then st_lift (Inl (FileTooLarge (cs_max_file_bytes s) (length bs)))
          else
            let i = sha256_hex sha bs in
            st_then (st_lift (object_path i name)) (\<lambda>path.
            st_then (io ''create-object-directory'' (od_create_dir_all (cs_root s) (object_parent i))) (\<lambda>_.
            st_then (io ''inspect-object'' (od_try_exists (cs_root s) path)) (\<lambda>exists.
            st_then
              (if exists then
                 st_then (io ''read-existing-object'' (od_read (cs_root s) path)) (\<lambda>existing.
                   st_lift (if existing \<noteq> bs then Inl IntegrityMismatch else Inr ()))
               else io ''write-object'' (od_write (cs_root s) path bs)) (\<lambda>_.
              st_lift (Inr \<lparr> sf_id = i, sf_storage = cs_name s, sf_file_name = name, sf_content_type = ct, sf_size = length bs \<rparr>))))))))"

definition storage_store :: "(bytes \<Rightarrow> bytes) \<Rightarrow> 'w capability_storage \<Rightarrow> ax_incoming_file \<Rightarrow> ('w, stored_file) storage_step" where
  "storage_store sha s f = storage_store_bytes sha s (file_name f) (file_content_type f) (file_bytes f)"

definition validate_ref :: "'w capability_storage \<Rightarrow> stored_file \<Rightarrow> storage_error + unit" where
  "validate_ref s r =
     (if sf_storage r \<noteq> cs_name s then Inl StorageMismatch
      else
        and_then (validate_file_id (sf_id r)) (\<lambda>_.
        and_then (validate_file_name (sf_file_name r)) (\<lambda>_.
          validate_content_type (sf_content_type r))))"

definition storage_read :: "(bytes \<Rightarrow> bytes) \<Rightarrow> 'w capability_storage \<Rightarrow> stored_file \<Rightarrow> ('w, bytes) storage_step" where
  "storage_read sha s r =
     (if \<not> can_read (cs_access s) then st_lift (Inl (StorageDenied ''read''))
      else
        st_then (st_lift (validate_ref s r)) (\<lambda>_.
        st_then (st_lift (object_path (sf_id r) (sf_file_name r))) (\<lambda>path.
        st_then (io ''read-object'' (od_read (cs_root s) path)) (\<lambda>bs.
          st_lift (if length bs \<noteq> sf_size r \<or> sha256_hex sha bs \<noteq> sf_id r then Inl IntegrityMismatch else Inr bs)))))"

subsection \<open>The registry\<close>

type_synonym 'w storage_registry = "(string, 'w capability_storage) bmap"

definition registry_register :: "'w storage_registry \<Rightarrow> 'w capability_storage \<Rightarrow> storage_error + 'w storage_registry" where
  "registry_register reg s =
     (if bm_get reg (cs_name s) \<noteq> None then Inl (DuplicateCapability (cs_name s)) else Inr (bm_insert (cs_name s) s reg))"

definition registry_get :: "'w storage_registry \<Rightarrow> string \<Rightarrow> storage_error + 'w capability_storage" where
  "registry_get reg name = ok_or (UnknownCapability name) (bm_get reg name)"

definition save_file :: "(bytes \<Rightarrow> bytes) \<Rightarrow> 'w storage_registry \<Rightarrow> string \<Rightarrow> ax_incoming_file \<Rightarrow> 'w \<Rightarrow> (rt_error + stored_file) \<times> 'w" where
  "save_file sha reg capability f w =
     (case st_then (st_lift (registry_get reg capability)) (\<lambda>s. storage_store sha s f) w of
        (r, w') \<Rightarrow> (map_err (\<lambda>e. RtMessage (storage_error_text e)) r, w'))"

end
