(* ===== verification/Storage_Correct.thy ===== *)
theory Storage_Correct
  imports Storage Preview_Flow
begin

section \<open>Correctness of storage\<close>

text \<open>
  Theorems about storage capabilities: what a read returns, and that stored files stay readable.
  The second rests on \<open>dir_laws\<close>, the documented behaviour of the directory operations.
\<close>

subsection \<open>Paths of objects\<close>

lemma file_name_normal:
  assumes "validate_file_name name = Inr ()"
  shows "\<exists>n. path_components name = [NormalComponent n] \<and> n \<noteq> [] \<and> n \<noteq> ''.'' \<and> n \<noteq> ''..'' \<and> CHR ''/'' \<notin> set n"
proof -
  let ?cs = "path_components name"
  have one: "length ?cs = 1" "is_normal (hd ?cs)" "\<not> starts_with ''/'' name"
    using assms by (auto simp: validate_file_name_def Let_def split: if_splits)
  then obtain n where n: "?cs = [NormalComponent n]"
    by (cases ?cs) (auto elim: is_normal.elims)
  then have "NormalComponent n \<in> set ?cs" by simp
  then have "n \<in> set (split_on (CHR ''/'') name)" "n \<noteq> []" "n \<noteq> ''.''" "n \<noteq> ''..''"
    by (auto simp: path_components_def Let_def component_of_def split: if_splits)
  then show ?thesis using n split_on_pieces by blast
qed

lemma file_id_plain: "validate_file_id i = Inr () \<Longrightarrow> list_all (\<lambda>c. is_digit c \<or> CHR ''a'' \<le> c \<and> c \<le> CHR ''f'') i \<and> length i = 64"
  by (simp add: validate_file_id_def split: if_splits)

lemma hex_not_slash: "is_digit c \<or> CHR ''a'' \<le> c \<and> c \<le> CHR ''f'' \<Longrightarrow> c \<noteq> CHR ''/'' \<and> c \<noteq> CHR ''.''"
  by (auto simp: is_digit_def less_eq_char_def code_def)

lemma object_components:
  assumes "object_path i name = Inr path"
  shows "path_components path = [NormalComponent ''objects'', NormalComponent (take 2 i), NormalComponent i] @ path_components name
    \<and> path = object_parent i @ ''/'' @ name"
proof -
  have i: "validate_file_id i = Inr ()" and name: "validate_file_name name = Inr ()" and path: "path = object_parent i @ ''/'' @ name"
    using assms by (auto simp: object_path_def and_then_Inr_iff)
  have len: "length i = 64" and hex: "list_all (\<lambda>c. c \<noteq> CHR ''/'' \<and> c \<noteq> CHR ''.'') i"
    using file_id_plain [OF i] hex_not_slash by (auto simp: list_all_iff)
  obtain a b is' where i': "i = a # b # is'" using len by (cases i; cases "tl i") auto
  have "CHR ''/'' \<notin> set i" "CHR ''/'' \<notin> set (take 2 i)" using hex by (auto simp: list_all_iff i')
  moreover have "path = ''objects'' @ CHR ''/'' # (take 2 i @ CHR ''/'' # (i @ CHR ''/'' # name))" by (simp add: path object_parent_def)
  ultimately have split: "split_on (CHR ''/'') path = [''objects'', take 2 i, i] @ split_on (CHR ''/'') name"
    by (simp only: split_on_append append_Cons append_Nil) (simp add: split_on_append)
  have "path_components name = map component_of (filter (\<lambda>p. p \<noteq> [] \<and> p \<noteq> ''.'') (split_on (CHR ''/'') name))"
    using name file_name_normal [OF name] by (auto simp: path_components_def Let_def validate_file_name_def split: if_splits)
  moreover have "component_of i = NormalComponent i" "component_of (take 2 i) = NormalComponent (take 2 i)"
    using hex by (auto simp: component_of_def i')
  moreover have "i \<noteq> ''.''" "take 2 i \<noteq> ''.''" "i \<noteq> []" "take 2 i \<noteq> []" using hex by (auto simp: i')
  moreover have "\<not> starts_with ''/'' path" by (simp add: path object_parent_def starts_with_def)
  ultimately have "path_components path = [NormalComponent ''objects'', NormalComponent (take 2 i), NormalComponent i] @ path_components name"
    by (simp add: path_components_def [of path] Let_def split component_of_def [of "''objects''"])
  then show ?thesis using path by simp
qed

subsection \<open>Reading\<close>

lemma st_then_Inr: "st_then m f w = (Inr y, w') \<longleftrightarrow> (\<exists>x w1. m w = (Inr x, w1) \<and> f x w1 = (Inr y, w'))"
  by (simp add: st_then_def split: prod.split sum.split)

lemma st_lift_Inr: "st_lift r w = (Inr y, w') \<longleftrightarrow> r = Inr y \<and> w' = w"
  by (auto simp: st_lift_def)

lemma io_Inr: "io operation m w = (Inr y, w') \<longleftrightarrow> m w = (Inr y, w')"
  by (auto simp: io_def map_err_Inr split: prod.split)

lemma st_then_Inr_step: "m w = (Inr x, w1) \<Longrightarrow> st_then m f w = f x w1"
  by (simp add: st_then_def)

lemma st_then_Inl: "m w = (Inl e, w1) \<Longrightarrow> st_then m f w = (Inl e, w1)"
  by (simp add: st_then_def)

lemmas storage_Inr = st_then_Inr st_lift_Inr io_Inr

text \<open>C38. Whatever is in the directory, a read returns only bytes that have the size and the hash of the reference; the
  reference belongs to the capability, the capability may read, and what is opened is a single file name under
  the directory of the hash, so that no reference leaves the storage.\<close>

theorem read_integrity:
  assumes "storage_read sha s r w = (Inr bs, w')"
  shows "length bs = sf_size r \<and> sha256_hex sha bs = sf_id r \<and> sf_storage r = cs_name s \<and> can_read (cs_access s)
    \<and> (\<exists>path n. od_read (cs_root s) path w = (Inr bs, w')
        \<and> path_components path = [NormalComponent ''objects'', NormalComponent (take 2 (sf_id r)), NormalComponent (sf_id r), NormalComponent n]
        \<and> n \<noteq> ''..'' \<and> CHR ''/'' \<notin> set n)"
proof -
  from assms obtain path where ref: "validate_ref s r = Inr ()" and path: "object_path (sf_id r) (sf_file_name r) = Inr path"
    and read: "od_read (cs_root s) path w = (Inr bs, w')" "length bs = sf_size r" "sha256_hex sha bs = sf_id r" "can_read (cs_access s)"
    by (auto simp: storage_read_def storage_Inr split: if_splits)
  have "validate_file_name (sf_file_name r) = Inr ()" "sf_storage r = cs_name s"
    using ref by (auto simp: validate_ref_def and_then_Inr_iff split: if_splits)
  then obtain n where "path_components (sf_file_name r) = [NormalComponent n]" "n \<noteq> ''..''" "CHR ''/'' \<notin> set n"
    using file_name_normal by blast
  then have "path_components path = [NormalComponent ''objects'', NormalComponent (take 2 (sf_id r)), NormalComponent (sf_id r), NormalComponent n]
      \<and> n \<noteq> ''..'' \<and> CHR ''/'' \<notin> set n"
    using conjunct1 [OF object_components [OF path]] by simp
  then show ?thesis using read \<open>sf_storage r = cs_name s\<close> by blast
qed

subsection \<open>Storing\<close>

definition dir_laws :: "'w object_dir \<Rightarrow> ('w \<Rightarrow> path_component list \<Rightarrow> bytes option) \<Rightarrow> bool" where
  "dir_laws d content =
     (\<forall>p bs w.
        content (snd (od_create_dir_all d p w)) = content w
      \<and> content (snd (od_try_exists d p w)) = content w
      \<and> (case fst (od_try_exists d p w) of Inr b \<Rightarrow> b \<or> content w (path_components p) = None | Inl _ \<Rightarrow> True)
      \<and> content (snd (od_read d p w)) = content w
      \<and> (case fst (od_read d p w) of Inr found \<Rightarrow> content w (path_components p) = Some found | Inl _ \<Rightarrow> True)
      \<and> (\<forall>q. q = path_components p \<or> content (snd (od_write d p bs w)) q = content w q)
      \<and> (case fst (od_write d p bs w) of Inr _ \<Rightarrow> content (snd (od_write d p bs w)) (path_components p) = Some bs | Inl _ \<Rightarrow> True))"

lemma create_law: "dir_laws d content \<Longrightarrow> od_create_dir_all d p w = (r, w') \<Longrightarrow> content w' = content w"
  unfolding dir_laws_def by (metis snd_conv)

lemma exists_law:
  assumes "dir_laws d content" "od_try_exists d p w = (r, w')"
  shows "content w' = content w" "r = Inr False \<Longrightarrow> content w (path_components p) = None"
proof -
  have "content (snd (od_try_exists d p w)) = content w
      \<and> (case fst (od_try_exists d p w) of Inr b \<Rightarrow> b \<or> content w (path_components p) = None | Inl _ \<Rightarrow> True)"
    using assms(1) unfolding dir_laws_def by blast
  then show "content w' = content w" "r = Inr False \<Longrightarrow> content w (path_components p) = None" using assms(2) by auto
qed

lemma read_law:
  assumes "dir_laws d content" "od_read d p w = (r, w')"
  shows "content w' = content w" "r = Inr found \<Longrightarrow> content w (path_components p) = Some found"
proof -
  have "content (snd (od_read d p w)) = content w
      \<and> (case fst (od_read d p w) of Inr found \<Rightarrow> content w (path_components p) = Some found | Inl _ \<Rightarrow> True)"
    using assms(1) unfolding dir_laws_def by blast
  then show "content w' = content w" "r = Inr found \<Longrightarrow> content w (path_components p) = Some found" using assms(2) by auto
qed

lemma write_law:
  assumes "dir_laws d content" "od_write d p bs w = (r, w')"
  shows "q \<noteq> path_components p \<Longrightarrow> content w' q = content w q" "r = Inr x \<Longrightarrow> content w' (path_components p) = Some bs"
proof -
  have "(\<forall>q. q = path_components p \<or> content (snd (od_write d p bs w)) q = content w q)
      \<and> (case fst (od_write d p bs w) of Inr _ \<Rightarrow> content (snd (od_write d p bs w)) (path_components p) = Some bs | Inl _ \<Rightarrow> True)"
    using assms(1) unfolding dir_laws_def by blast
  then show "q \<noteq> path_components p \<Longrightarrow> content w' q = content w q" "r = Inr x \<Longrightarrow> content w' (path_components p) = Some bs"
    using assms(2) by auto
qed

text \<open>A store never changes an object that is there.\<close>

definition keeps_object :: "('w \<Rightarrow> path_component list \<Rightarrow> bytes option) \<Rightarrow> path_component list \<Rightarrow> bytes \<Rightarrow> ('w, 'a) storage_step \<Rightarrow> bool" where
  "keeps_object content q old m = (\<forall>w. content w q = Some old \<longrightarrow> content (snd (m w)) q = Some old)"

lemma keeps_object_then:
  "keeps_object content q old m \<Longrightarrow> (\<And>x. keeps_object content q old (f x)) \<Longrightarrow> keeps_object content q old (st_then m f)"
  unfolding keeps_object_def st_then_def by (auto split: prod.split sum.split)

lemma keeps_object_lift: "keeps_object content q old (st_lift r)"
  by (simp add: keeps_object_def st_lift_def)

lemma keeps_object_if: "keeps_object content q old a \<Longrightarrow> keeps_object content q old b \<Longrightarrow> keeps_object content q old (if p then a else b)"
  by simp

lemma keeps_object_io:
  "(\<And>w r w'. m w = (r, w') \<Longrightarrow> content w' = content w) \<Longrightarrow> keeps_object content q old (io operation m)"
  unfolding keeps_object_def io_def by (auto split: prod.split)

lemmas keeps_object_intro = keeps_object_then keeps_object_lift keeps_object_if

lemma keeps_object_write:
  assumes laws: "dir_laws d content"
  shows "keeps_object content q old (st_then (io ''inspect-object'' (od_try_exists d path)) (\<lambda>exists.
      st_then (if exists then st_then (io ''read-existing-object'' (od_read d path)) (\<lambda>existing.
                 st_lift (if existing \<noteq> bs then Inl IntegrityMismatch else Inr ()))
               else io ''write-object'' (od_write d path bs)) (\<lambda>_. st_lift r)))"
proof -
  have read: "keeps_object content q old (st_then (io ''read-existing-object'' (od_read d path)) (\<lambda>existing.
                 st_lift (if existing \<noteq> bs then Inl IntegrityMismatch else Inr ())))"
    by (intro keeps_object_intro keeps_object_io) (erule read_law(1) [OF laws])
  have "content (snd (st_then (if exists then st_then (io ''read-existing-object'' (od_read d path)) (\<lambda>existing.
                 st_lift (if existing \<noteq> bs then Inl IntegrityMismatch else Inr ()))
               else io ''write-object'' (od_write d path bs)) (\<lambda>_. st_lift r) w1)) q = Some old"
    if w: "content w q = Some old" and ex: "od_try_exists d path w = (Inr exists, w1)" for w w1 exists
  proof (cases exists)
    case True
    have "keeps_object content q old (st_then (st_then (io ''read-existing-object'' (od_read d path)) (\<lambda>existing.
                 st_lift (if existing \<noteq> bs then Inl IntegrityMismatch else Inr ()))) (\<lambda>_. st_lift r))"
      by (rule keeps_object_then [OF read keeps_object_lift])
    then show ?thesis using True w exists_law(1) [OF laws ex] by (simp add: keeps_object_def)
  next
    case False
    then have "q \<noteq> path_components path" using exists_law(2) [OF laws ex] w by auto
    then have "content (snd (od_write d path bs w1)) q = Some old"
      using write_law(1) [OF laws, of path bs w1 _ _ q] w exists_law(1) [OF laws ex] by (metis prod.collapse)
    then show ?thesis using False by (auto simp: st_then_def io_def st_lift_def split: prod.split sum.split)
  qed
  moreover have "content w1 q = Some old" if "content w q = Some old" "od_try_exists d path w = (x, w1)" for w w1 x
    using exists_law(1) [OF laws that(2)] that(1) by simp
  ultimately show ?thesis
    unfolding keeps_object_def
  proof (intro allI impI)
    fix w
    assume after: "\<And>w exists w1. content w q = Some old \<Longrightarrow> od_try_exists d path w = (Inr exists, w1)
        \<Longrightarrow> content (snd (st_then (if exists then st_then (io ''read-existing-object'' (od_read d path)) (\<lambda>existing.
                 st_lift (if existing \<noteq> bs then Inl IntegrityMismatch else Inr ()))
               else io ''write-object'' (od_write d path bs)) (\<lambda>_. st_lift r) w1)) q = Some old"
      and same: "\<And>w x w1. content w q = Some old \<Longrightarrow> od_try_exists d path w = (x, w1) \<Longrightarrow> content w1 q = Some old"
      and w: "content w q = Some old"
    obtain x w1 where ex: "od_try_exists d path w = (x, w1)" by force
    show "content (snd (st_then (io ''inspect-object'' (od_try_exists d path)) (\<lambda>exists.
      st_then (if exists then st_then (io ''read-existing-object'' (od_read d path)) (\<lambda>existing.
                 st_lift (if existing \<noteq> bs then Inl IntegrityMismatch else Inr ()))
               else io ''write-object'' (od_write d path bs)) (\<lambda>_. st_lift r)) w)) q = Some old"
    proof (cases x)
      case (Inl err)
      then show ?thesis using same [OF w ex] ex by (simp add: st_then_Inl [of _ _ "StorageIo ''inspect-object'' err" w1] io_def)
    next
      case (Inr b)
      then have "io ''inspect-object'' (od_try_exists d path) w = (Inr b, w1)" using ex by (simp add: io_Inr)
      then show ?thesis using after [OF w] ex Inr by (simp only: st_then_Inr_step)
    qed
  qed
qed

lemma store_keeps:
  assumes laws: "dir_laws (cs_root s) content"
  shows "keeps_object content q old (storage_store_bytes sha s name ct bs)"
  unfolding storage_store_bytes_def Let_def
  by (intro keeps_object_intro keeps_object_write [OF laws] keeps_object_io create_law [OF laws])

definition store_all :: "(bytes \<Rightarrow> bytes) \<Rightarrow> 'w capability_storage \<Rightarrow> ax_incoming_file list \<Rightarrow> 'w \<Rightarrow> 'w" where
  "store_all sha s fs w = foldl (\<lambda>w f. snd (storage_store sha s f w)) w fs"

lemma store_all_keeps:
  "dir_laws (cs_root s) content \<Longrightarrow> content w q = Some old \<Longrightarrow> content (store_all sha s fs w) q = Some old"
proof (induction fs arbitrary: w)
  case (Cons f fs)
  then have "content (snd (storage_store sha s f w)) q = Some old"
    using store_keeps unfolding storage_store_def keeps_object_def by blast
  with Cons show ?case by (simp add: store_all_def)
qed (simp add: store_all_def)

lemma stored_object:
  assumes laws: "dir_laws (cs_root s) content" and stored: "storage_store_bytes sha s name ct bs w = (Inr r, w')"
  shows "validate_ref s r = Inr () \<and> sf_size r = length bs \<and> sf_id r = sha256_hex sha bs
    \<and> (\<exists>path. object_path (sf_id r) (sf_file_name r) = Inr path \<and> content w' (path_components path) = Some bs)"
proof -
  let ?i = "sha256_hex sha bs"
  from stored obtain path w1 exists w2 where
    name: "validate_file_name name = Inr ()" and ct: "validate_content_type ct = Inr ()" and path: "object_path ?i name = Inr path"
    and ex: "od_try_exists (cs_root s) path w1 = (Inr exists, w2)"
    and put: "(if exists then st_then (io ''read-existing-object'' (od_read (cs_root s) path)) (\<lambda>existing.
                 st_lift (if existing \<noteq> bs then Inl IntegrityMismatch else Inr ()))
               else io ''write-object'' (od_write (cs_root s) path bs)) w2 = (Inr (), w')"
    and r: "r = \<lparr> sf_id = ?i, sf_storage = cs_name s, sf_file_name = name, sf_content_type = ct, sf_size = length bs \<rparr>"
    by (auto simp: storage_store_bytes_def Let_def storage_Inr split: if_split_asm)
  have "content w' (path_components path) = Some bs"
  proof (cases exists)
    case True
    then obtain existing where "od_read (cs_root s) path w2 = (Inr existing, w')" "existing = bs"
      using put by (auto simp: storage_Inr split: if_splits)
    then show ?thesis using read_law [OF laws] by metis
  next
    case False
    then show ?thesis using put write_law(2) [OF laws] by (auto simp: io_Inr)
  qed
  moreover have "validate_ref s r = Inr ()"
    using path name ct by (auto simp: validate_ref_def r object_path_def and_then_Inr_iff)
  ultimately show ?thesis using path by (simp add: r)
qed

text \<open>C39. A file that has been stored stays: after any later stores through the capability, of the same or other
  files, successful or failing, reading its reference gives its bytes or the failure of the directory
  to read, never a mismatch.\<close>

theorem stored_file_stays:
  assumes "dir_laws (cs_root s) content" and "storage_store sha s f w = (Inr r, w')" and "can_read (cs_access s)"
  shows "case fst (storage_read sha s r (store_all sha s later w')) of
      Inr bs \<Rightarrow> bs = file_bytes f
    | Inl err \<Rightarrow> (\<exists>cause. err = StorageIo ''read-object'' cause)"
proof -
  from stored_object [OF assms(1) assms(2) [unfolded storage_store_def]]
  obtain path where ref: "validate_ref s r = Inr ()" "sf_size r = length (file_bytes f)" "sf_id r = sha256_hex sha (file_bytes f)"
    and path: "object_path (sf_id r) (sf_file_name r) = Inr path" and there: "content w' (path_components path) = Some (file_bytes f)"
    by blast
  let ?w = "store_all sha s later w'"
  have still: "content ?w (path_components path) = Some (file_bytes f)" by (rule store_all_keeps [OF assms(1) there])
  obtain res w2 where res: "od_read (cs_root s) path ?w = (res, w2)" by force
  show ?thesis
  proof (cases res)
    case (Inl cause)
    then show ?thesis using ref path res assms(3) by (simp add: storage_read_def st_then_def st_lift_def io_def)
  next
    case (Inr bs)
    then have "bs = file_bytes f" using read_law(2) [OF assms(1) res] still by auto
    then show ?thesis using ref path res assms(3) Inr by (simp add: storage_read_def st_then_def st_lift_def io_def)
  qed
qed

text \<open>Objects are not written atomically: what an interrupted write leaves keeps the file from ever being stored.\<close>

lemma partial_object_blocks:
  assumes "dir_laws (cs_root s) content" and "object_path (sha256_hex sha bs) name = Inr path"
    and "content w (path_components path) = Some part" and "part \<noteq> bs"
  shows "\<exists>err. fst (storage_store_bytes sha s name ct bs w) = Inl err"
proof (rule ccontr)
  assume "\<not> (\<exists>err. fst (storage_store_bytes sha s name ct bs w) = Inl err)"
  then obtain r w' where ok: "storage_store_bytes sha s name ct bs w = (Inr r, w')"
    by (cases "storage_store_bytes sha s name ct bs w"; cases "fst (storage_store_bytes sha s name ct bs w)") auto
  then have name: "sf_file_name r = name"
    by (auto simp: storage_store_bytes_def Let_def storage_Inr split: if_split_asm)
  have "content w' (path_components path) = Some part"
    using store_keeps [OF assms(1)] assms(3) ok unfolding keeps_object_def by (metis snd_conv)
  moreover have "content w' (path_components path) = Some bs"
    using stored_object [OF assms(1) ok] assms(2) name by auto
  ultimately show False using assms(4) by simp
qed

subsection \<open>An example\<close>

text \<open>A directory in memory.\<close>

definition demo_dir :: "(path_component list \<Rightarrow> bytes option) object_dir" where
  "demo_dir = \<lparr> od_create_dir_all = (\<lambda>p w. (Inr (), w)), od_try_exists = (\<lambda>p w. (Inr (w (path_components p) \<noteq> None), w)),
     od_read = (\<lambda>p w. (case w (path_components p) of Some bs \<Rightarrow> Inr bs | None \<Rightarrow> Inl ''not found'', w)),
     od_write = (\<lambda>p bs w. (Inr (), w(path_components p \<mapsto> bs))) \<rparr>"

lemma demo_dir_laws: "dir_laws demo_dir (\<lambda>w. w)"
  by (simp add: dir_laws_def demo_dir_def split: option.split)

definition demo_storage :: "(path_component list \<Rightarrow> bytes option) capability_storage" where
  "demo_storage = \<lparr> cs_name = ''uploads'', cs_root = demo_dir, cs_max_file_bytes = 10, cs_access = StReadWrite \<rparr>"

definition demo_file :: ax_incoming_file where
  "demo_file = \<lparr> file_field_name = ''photo'', file_name = ''a.png'', file_content_type = None, file_bytes = ''data'' \<rparr>"

definition demo_sha :: "bytes \<Rightarrow> bytes" where
  "demo_sha bs = replicate 32 (CHR 0xAB)"

definition demo_id :: string where
  "demo_id = sha256_hex demo_sha ''data''"

lemma demo_id_valid: "validate_file_id demo_id = Inr ()"
  by code_simp

lemma demo_path_valid: "validate_file_name ''a.png'' = Inr ()"
  by (simp add: validate_file_name_def path_components_def Let_def component_of_def max_file_name_bytes_def starts_with_def
      chars_ascii is_control_def code_def)

lemma demo_stores:
  "\<exists>w'. storage_store demo_sha demo_storage demo_file (\<lambda>_. None)
     = (Inr \<lparr> sf_id = demo_id, sf_storage = ''uploads'', sf_file_name = ''a.png'', sf_content_type = None, sf_size = 4 \<rparr>, w')"
  by (simp add: storage_store_def storage_store_bytes_def demo_storage_def demo_file_def can_write_def st_then_def st_lift_def
      demo_path_valid validate_content_type_def demo_id_def [symmetric] object_path_def demo_id_valid io_def demo_dir_def Let_def)

theorem stored_file_stays_witness:
  "\<exists>w'. storage_store demo_sha demo_storage demo_file (\<lambda>_. None)
      = (Inr \<lparr> sf_id = demo_id, sf_storage = ''uploads'', sf_file_name = ''a.png'', sf_content_type = None, sf_size = 4 \<rparr>, w')
    \<and> (case fst (storage_read demo_sha demo_storage
          \<lparr> sf_id = demo_id, sf_storage = ''uploads'', sf_file_name = ''a.png'', sf_content_type = None, sf_size = 4 \<rparr>
          (store_all demo_sha demo_storage [demo_file, demo_file] w')) of
        Inr bs \<Rightarrow> bs = file_bytes demo_file | Inl err \<Rightarrow> (\<exists>cause. err = StorageIo ''read-object'' cause))"
proof -
  obtain w' where w': "storage_store demo_sha demo_storage demo_file (\<lambda>_. None)
      = (Inr \<lparr> sf_id = demo_id, sf_storage = ''uploads'', sf_file_name = ''a.png'', sf_content_type = None, sf_size = 4 \<rparr>, w')"
    using demo_stores by blast
  have "dir_laws (cs_root demo_storage) (\<lambda>w. w)" "can_read (cs_access demo_storage)" "file_bytes demo_file = ''data''"
    by (simp_all add: demo_storage_def demo_dir_laws can_read_def demo_file_def)
  with stored_file_stays [OF _ w', of "\<lambda>w. w" "[demo_file, demo_file]"] w' show ?thesis by auto
qed

theorem read_integrity_witness:
  "sha256_hex demo_sha ''data'' = demo_id \<and> length ''data'' = 4"
proof -
  let ?r = "\<lparr> sf_id = demo_id, sf_storage = ''uploads'', sf_file_name = ''a.png'', sf_content_type = None, sf_size = 4 \<rparr>"
  have "storage_read demo_sha demo_storage ?r (\<lambda>_. Some ''data'') = (Inr ''data'', \<lambda>_. Some ''data'')"
    by (simp add: storage_read_def demo_storage_def can_read_def st_then_def st_lift_def validate_ref_def demo_id_valid demo_path_valid
        validate_content_type_def object_path_def io_def demo_dir_def demo_id_def [symmetric])
  from read_integrity [OF this] show ?thesis by simp
qed

end
