(* ===== verification/Preview_Expr.thy ===== *)
theory Preview_Expr
  imports Preview_Responses
begin

section \<open>Expressions of the preview server\<close>

text \<open>
  \<open>axonyx-runtime/src/lib.rs\<close>, \<open>eval_preview_expr\<close>: the preview evaluates the Rust text of a lowered
  expression. \<open>syn\<close> parses it and prints the parts of a tree, both are arguments (\<open>rust_syntax\<close>); the
  evaluator reads a text, prints the operands of its tree and evaluates their texts in turn, or, for
  texts whose tree it does not handle, works on the text itself. The functions of an application may
  call each other without end, where the program overflows its stack: the evaluator takes a fuel, and
  \<open>None\<close> is its end.
\<close>

subsection \<open>Trees and texts\<close>

datatype rust_member = MemberNamed string | MemberIndex nat

datatype rust_binop = BoAnd | BoOr | BoEq | BoNe | BoLt | BoLe | BoGt | BoGe | BoOther

text \<open>\<open>RePath\<close> has a flag for a qualified self and one for a path without generic arguments and leading
  colons; \<open>ReMethod\<close> has the text of its generic arguments; \<open>ReVec\<close> is a \<open>vec!\<close> whose elements parse.\<close>

datatype rust_expr =
    ReField rust_expr rust_member
  | ReTry rust_expr
  | ReIndex rust_expr rust_expr
  | ReParen rust_expr
  | ReBinary rust_binop rust_expr rust_expr
  | ReNot rust_expr
  | RePath bool bool "string list"
  | ReCall rust_expr "rust_expr list"
  | ReMethod rust_expr string string "rust_expr list"
  | ReReference rust_expr
  | ReVec "rust_expr list"
  | ReOther string

record rust_syntax =
  rx_parse :: "string \<Rightarrow> rust_expr option"
  rx_text :: "rust_expr \<Rightarrow> string"
  rx_lit_str :: "string \<Rightarrow> string option"
  rx_digest :: "bytes \<Rightarrow> bytes"
  rx_process_env :: ax_env

fun member_text :: "rust_member \<Rightarrow> string" where
  "member_text (MemberNamed name) = name"
| "member_text (MemberIndex n) = show_nat n"

fun preview_rust_expr_source :: "rust_syntax \<Rightarrow> rust_expr \<Rightarrow> string" where
  "preview_rust_expr_source px (RePath qself simple segments) =
     (if \<not> qself then join_with ''::'' segments else rx_text px (RePath qself simple segments))"
| "preview_rust_expr_source px (ReField base m) = preview_rust_expr_source px base @ ''.'' @ member_text m"
| "preview_rust_expr_source px (ReCall f args) =
     preview_rust_expr_source px f @ ''('' @ join_with '','' (map (preview_rust_expr_source px) args) @ '')''"
| "preview_rust_expr_source px (ReMethod receiver method turbofish args) =
     preview_rust_expr_source px receiver @ ''.'' @ method @ turbofish
       @ ''('' @ join_with '','' (map (preview_rust_expr_source px) args) @ '')''"
| "preview_rust_expr_source px (ReTry e) = preview_rust_expr_source px e @ ''?''"
| "preview_rust_expr_source px (ReParen e) = ''('' @ preview_rust_expr_source px e @ '')''"
| "preview_rust_expr_source px (ReReference e) = ''&('' @ preview_rust_expr_source px e @ '')''"
| "preview_rust_expr_source px (ReVec items) = ''vec!['' @ join_with '','' (map (preview_rust_expr_source px) items) @ '']''"
| "preview_rust_expr_source px e = rx_text px e"

fun preview_scoped_member_base :: "rust_expr \<Rightarrow> scope \<Rightarrow> bool" where
  "preview_scoped_member_base (RePath qself simple segments) sc =
     (case segments of [name] \<Rightarrow> simple \<and> bm_get sc name \<noteq> None | _ \<Rightarrow> False)"
| "preview_scoped_member_base (ReField base m) sc = preview_scoped_member_base base sc"
| "preview_scoped_member_base (ReIndex e i) sc = preview_scoped_member_base e sc"
| "preview_scoped_member_base (ReParen e) sc = preview_scoped_member_base e sc"
| "preview_scoped_member_base _ sc = False"

definition lookup_preview_scope :: "scope \<Rightarrow> string \<Rightarrow> ax_value option" where
  "lookup_preview_scope sc text =
     (case map trim (split_on (CHR ''.'') text) of
        [] \<Rightarrow> None
      | first # parts \<Rightarrow>
          foldl (\<lambda>v part. case v of Some (AvRecord fs) \<Rightarrow> bm_get fs part | _ \<Rightarrow> None) (bm_get sc first) parts)"

function parse_preview_string :: "rust_syntax \<Rightarrow> string \<Rightarrow> string option" where
  "parse_preview_string px text =
     (case strip_suffix ''.to_string()'' text of
        Some v \<Rightarrow> parse_preview_string px (trim v)
      | None \<Rightarrow>
          if starts_with [CHR 0x22] text then rx_lit_str px text
          else if starts_with [CHR 0x27] text \<and> ends_with [CHR 0x27] text \<and> 2 \<le> length text
          then Some (butlast (tl text))
          else None)"
  by pat_completeness auto
termination
  by (relation "measure (\<lambda>(px, text). length text)")
    (auto simp: strip_suffix_Some intro: le_less_trans [OF length_trim])

declare parse_preview_string.simps [simp del]

definition parse_preview_env_call :: "string \<Rightarrow> string \<Rightarrow> string option" where
  "parse_preview_env_call text namespace = do {
     r \<leftarrow> strip_prefix (''runtime.env().'' @ namespace @ ''('' @ [CHR 0x22]) text;
     strip_suffix (CHR 0x22 # '')?'') r }"

fun object_field_from :: "arg_scan \<Rightarrow> string \<Rightarrow> string \<Rightarrow> (string \<times> string) option" where
  "object_field_from st acc [] = None"
| "object_field_from st acc (c # cs) =
     (if ag_string st = None \<and> c = CHR '':'' \<and> ag_depth st = 0 then Some (rev acc, cs)
      else object_field_from (arg_step st c) (c # acc) cs)"

definition split_preview_object_field :: "string \<Rightarrow> (string \<times> string) option" where
  "split_preview_object_field input = object_field_from \<lparr> ag_depth = 0, ag_string = None \<rparr> [] input"

definition parse_preview_json_object :: "rust_syntax \<Rightarrow> string \<Rightarrow> (string \<times> string) list option" where
  "parse_preview_json_object px text = do {
     r \<leftarrow> strip_prefix (''json!('' @ [CHR 0x7B]) text;
     inner \<leftarrow> strip_suffix (CHR 0x7D # '')'') r;
     if trim inner = [] then Some []
     else opt_map (\<lambda>field. do {
            (key, v) \<leftarrow> split_preview_object_field field;
            name \<leftarrow> parse_preview_string px (trim key);
            Some (name, trim v) }) (split_preview_args inner) }"

definition parse_preview_named_call :: "string \<Rightarrow> (string \<times> string list) option" where
  "parse_preview_named_call text =
     (case split_once (CHR ''('') text of
        None \<Rightarrow> None
      | Some (before, after) \<Rightarrow>
          if \<not> is_preview_identifier (trim before) \<or> \<not> ends_with '')'' text then None
          else Some (trim before, call_args_of (butlast after)))"

subsection \<open>Results with fuel\<close>

type_synonym 'a fueled = "(preview_error + 'a) option"
type_synonym expr_evaluator = "scope \<Rightarrow> string \<Rightarrow> ax_value fueled"

definition fl_ok :: "'a \<Rightarrow> 'a fueled" where
  "fl_ok x = Some (Inr x)"

definition fl_fail :: "string \<Rightarrow> 'a fueled" where
  "fl_fail message = Some (Inl (PvRuntime message))"

definition fl_then :: "'a fueled \<Rightarrow> ('a \<Rightarrow> 'b fueled) \<Rightarrow> 'b fueled" where
  "fl_then m f = (case m of None \<Rightarrow> None | Some (Inl e) \<Rightarrow> Some (Inl e) | Some (Inr x) \<Rightarrow> f x)"

fun fl_map :: "('a \<Rightarrow> 'b fueled) \<Rightarrow> 'a list \<Rightarrow> 'b list fueled" where
  "fl_map f [] = fl_ok []"
| "fl_map f (x # xs) = fl_then (f x) (\<lambda>y. fl_then (fl_map f xs) (\<lambda>ys. fl_ok (y # ys)))"

subsection \<open>Trees the evaluator handles\<close>

definition preview_ordering :: "ax_value \<Rightarrow> ax_value \<Rightarrow> ordering option" where
  "preview_ordering a b =
     (case (a, b) of
        (AvString x, AvString y) \<Rightarrow> Some (str_ordering x y)
      | (AvNumber x, AvNumber y) \<Rightarrow> Some (int_cmp (sint x) (sint y))
      | (AvFloat x, AvFloat y) \<Rightarrow> f64_cmp x y
      | _ \<Rightarrow> None)"

definition invalid_binary :: "'a fueled" where
  "invalid_binary = fl_fail ''unsupported preview binary operator or operand types''"

definition compare_values :: "rust_binop \<Rightarrow> ax_value \<Rightarrow> ax_value \<Rightarrow> ax_value fueled" where
  "compare_values op a b =
     (case op of
        BoEq \<Rightarrow> fl_ok (AvBool (ax_value_eq a b))
      | BoNe \<Rightarrow> fl_ok (AvBool (\<not> ax_value_eq a b))
      | BoLt \<Rightarrow> (case preview_ordering a b of Some c \<Rightarrow> fl_ok (AvBool (c = Less)) | None \<Rightarrow> invalid_binary)
      | BoLe \<Rightarrow> (case preview_ordering a b of Some c \<Rightarrow> fl_ok (AvBool (c \<noteq> Greater)) | None \<Rightarrow> invalid_binary)
      | BoGt \<Rightarrow> (case preview_ordering a b of Some c \<Rightarrow> fl_ok (AvBool (c = Greater)) | None \<Rightarrow> invalid_binary)
      | BoGe \<Rightarrow> (case preview_ordering a b of Some c \<Rightarrow> fl_ok (AvBool (c \<noteq> Less)) | None \<Rightarrow> invalid_binary)
      | _ \<Rightarrow> invalid_binary)"

definition eval_preview_binary :: "expr_evaluator \<Rightarrow> rust_syntax \<Rightarrow> scope \<Rightarrow> rust_binop \<Rightarrow> rust_expr \<Rightarrow> rust_expr \<Rightarrow> ax_value fueled" where
  "eval_preview_binary ev px sc op a b =
     fl_then (ev sc (preview_rust_expr_source px a)) (\<lambda>x.
       if op = BoAnd \<or> op = BoOr then
         (case x of
            AvBool p \<Rightarrow>
              if p = (op = BoOr) then fl_ok (AvBool p)
              else fl_then (ev sc (preview_rust_expr_source px b)) (\<lambda>y.
                     case y of AvBool q \<Rightarrow> fl_ok (AvBool q) | _ \<Rightarrow> invalid_binary)
          | _ \<Rightarrow> invalid_binary)
       else fl_then (ev sc (preview_rust_expr_source px b)) (\<lambda>y. compare_values op x y))"

definition preview_index :: "ax_value \<Rightarrow> ax_value \<Rightarrow> ax_value fueled" where
  "preview_index v i =
     (let wrong = fl_fail ''index expects a record key or nonnegative list index'' in
      case (v, i) of
        (AvRecord fs, AvString key) \<Rightarrow> fl_ok (record_get fs key)
      | (AvList items, AvNumber n) \<Rightarrow>
          if 0 \<le> sint n then fl_ok (if nat (sint n) < length items then items ! nat (sint n) else AvNull) else wrong
      | _ \<Rightarrow> wrong)"

definition null_or_length_call :: "rust_expr \<Rightarrow> bool" where
  "null_or_length_call e =
     (case e of ReCall (RePath qself simple [name]) args \<Rightarrow> simple \<and> name \<in> {''__ax_length'', ''__ax_is_null''} | _ \<Rightarrow> False)"

text \<open>\<open>None\<close>: the tree is not handled, the text is.\<close>

definition eval_parsed :: "expr_evaluator \<Rightarrow> rust_syntax \<Rightarrow> scope \<Rightarrow> rust_expr \<Rightarrow> ax_value fueled option" where
  "eval_parsed ev px sc t =
     (case t of
        ReField base m \<Rightarrow>
          if \<not> preview_scoped_member_base base sc then None
          else Some (fl_then (ev sc (preview_rust_expr_source px base)) (\<lambda>v.
                 case m of
                   MemberIndex n \<Rightarrow> fl_fail ''record member expects a field name''
                 | MemberNamed name \<Rightarrow>
                     (case v of
                        AvRecord fs \<Rightarrow> fl_ok (record_get fs name)
                      | AvNull \<Rightarrow> fl_ok AvNull
                      | _ \<Rightarrow> fl_fail ''member access expects a record'')))
      | ReTry e \<Rightarrow> if null_or_length_call e then Some (ev sc (preview_rust_expr_source px e)) else None
      | ReIndex e i \<Rightarrow>
          Some (fl_then (ev sc (preview_rust_expr_source px e)) (\<lambda>v.
                fl_then (ev sc (preview_rust_expr_source px i)) (preview_index v)))
      | ReParen e \<Rightarrow> Some (ev sc (preview_rust_expr_source px e))
      | ReBinary op a b \<Rightarrow> Some (eval_preview_binary ev px sc op a b)
      | ReNot e \<Rightarrow>
          Some (fl_then (ev sc (preview_rust_expr_source px e)) (\<lambda>v.
            case v of AvBool b \<Rightarrow> fl_ok (AvBool (\<not> b)) | _ \<Rightarrow> fl_fail ''logical negation expects a Bool''))
      | _ \<Rightarrow> None)"

subsection \<open>Texts the evaluator handles\<close>

definition one_arg :: "expr_evaluator \<Rightarrow> scope \<Rightarrow> string \<Rightarrow> string list \<Rightarrow> (ax_value \<Rightarrow> ax_value fueled) \<Rightarrow> ax_value fueled" where
  "one_arg ev sc message args f = (case args of [a] \<Rightarrow> fl_then (ev sc a) f | _ \<Rightarrow> fl_fail message)"

definition utf16_length :: "string \<Rightarrow> nat" where
  "utf16_length s = sum_list (map (\<lambda>n. if n < 0x10000 then 1 else 2) (chars s))"

text \<open>\<open>i64::try_from\<close> of a length.\<close>

definition length_value :: "nat \<Rightarrow> ax_value fueled" where
  "length_value n = (if n < 2 ^ 63 then fl_ok (AvNumber (word_of_nat n)) else fl_fail ''length exceeds Int range'')"

fun eval_failure_text :: "eval_failure \<Rightarrow> string" where
  "eval_failure_text (Raised (UnknownIdentifier name)) = ''unknown identifier `'' @ name @ ''`''"
| "eval_failure_text (Raised (UnknownMember property)) = ''unknown member `'' @ property @ ''` on current value''"
| "eval_failure_text (Raised (UnsupportedCall path)) = ''unsupported call `'' @ path @ ''`''"
| "eval_failure_text (Raised (UnsupportedExpression message)) = ''unsupported expression: '' @ message"
| "eval_failure_text (Raised EachRequiresList) = ''`each` requires a list source''"
| "eval_failure_text (Raised InvalidEachKey) = ''`each` key must resolve to a string, number, float, or boolean''"
| "eval_failure_text (Raised (DuplicateEachKey key)) = ''duplicate `each` key `'' @ key @ ''`''"
| "eval_failure_text (Raised (ImportedComponentParse import_path message)) =
     ''failed to parse imported component from `'' @ import_path @ ''`: '' @ message"
| "eval_failure_text (Raised (InvalidComponentPropLiteral cmpt prop v expected)) =
     ''invalid value `'' @ v @ ''` for `'' @ cmpt @ ''.'' @ prop @ ''`; expected one of '' @ expected"
| "eval_failure_text (Panicked message) = message"
| "eval_failure_text Diverges = []"

definition eval_null_and_length :: "expr_evaluator \<Rightarrow> scope \<Rightarrow> string \<Rightarrow> ax_value fueled option" where
  "eval_null_and_length ev sc text =
     (case parse_preview_call_args text ''__ax_is_null'' of
        Some args \<Rightarrow> Some (one_arg ev sc ''null predicate expects one value'' args (\<lambda>v. fl_ok (AvBool (v = AvNull))))
      | None \<Rightarrow>
          map_option (\<lambda>args. one_arg ev sc ''length expects one value'' args (\<lambda>v.
              case v of
                AvString s \<Rightarrow> length_value (utf16_length s)
              | AvList items \<Rightarrow> length_value (length items)
              | _ \<Rightarrow> fl_fail ''length expects String or List''))
            (parse_preview_call_args text ''__ax_length''))"

definition eval_reference :: "expr_evaluator \<Rightarrow> scope \<Rightarrow> string \<Rightarrow> ax_value fueled option" where
  "eval_reference ev sc text =
     map_option (ev sc) (Option.bind (strip_prefix ''&('' text) (strip_suffix '')''))"

definition eval_addition :: "expr_evaluator \<Rightarrow> scope \<Rightarrow> string \<Rightarrow> ax_value fueled option" where
  "eval_addition ev sc text =
     map_option (\<lambda>args.
         case args of
           [a, b] \<Rightarrow>
             fl_then (ev sc a) (\<lambda>x. fl_then (ev sc b) (\<lambda>y.
               case add_values x y of Inr v \<Rightarrow> fl_ok v | Inl failure \<Rightarrow> fl_fail (eval_failure_text failure)))
         | _ \<Rightarrow> fl_fail ''invalid lowered addition'')
       (parse_preview_call_args text ''__ax_add'')"

definition eval_literal :: "string \<Rightarrow> ax_value option" where
  "eval_literal text =
     (if text = ''true'' then Some (AvBool True)
      else if text = ''false'' then Some (AvBool False)
      else case parse_signed 64 text of
             Some i \<Rightarrow> Some (AvNumber (word_of_int i))
           | None \<Rightarrow> map_option AvFloat (Option.bind (strip_suffix ''_f64'' text) parse_ax_float))"

definition eval_env_call :: "ax_env \<Rightarrow> string \<Rightarrow> ax_value fueled option" where
  "eval_env_call env text =
     (let found = (\<lambda>r. Some (map_err preview_error_of (and_then r (\<lambda>s. Inr (AvString s))))) in
      case parse_preview_env_call text ''public'' of
        Some key \<Rightarrow> Some (found (ax_env_public env key))
      | None \<Rightarrow>
          (case parse_preview_env_call text ''secret'' of
             Some key \<Rightarrow> Some (found (ax_env_secret env key))
           | None \<Rightarrow> map_option (\<lambda>key. found (ax_env_value env key)) (parse_preview_env_call text ''value'')))"

definition eval_collection :: "expr_evaluator \<Rightarrow> rust_syntax \<Rightarrow> scope \<Rightarrow> string \<Rightarrow> ax_value fueled option" where
  "eval_collection ev px sc text =
     (let items = (\<lambda>args. fl_then (fl_map (ev sc) args) (\<lambda>vs. fl_ok (AvList vs))) in
      case parse_preview_call_args text ''list'' of
        Some args \<Rightarrow> Some (items args)
      | None \<Rightarrow>
          (case parse_preview_vec_args text of
             Some args \<Rightarrow> Some (items args)
           | None \<Rightarrow>
               map_option (\<lambda>fs. fl_then (fl_map (\<lambda>(key, v). fl_then (ev sc v) (\<lambda>x. fl_ok (key, x))) fs) (\<lambda>kvs.
                     fl_ok (AvRecord (bm_of_list kvs))))
                 (parse_preview_json_object px text)))"

definition eval_contains :: "expr_evaluator \<Rightarrow> scope \<Rightarrow> string \<Rightarrow> ax_value fueled option" where
  "eval_contains ev sc text =
     map_option (\<lambda>args.
         case args of
           [options, needle] \<Rightarrow>
             fl_then (ev sc options) (\<lambda>os. fl_then (ev sc needle) (\<lambda>x.
               case os of
                 AvList items \<Rightarrow> fl_ok (AvBool (list_ex (\<lambda>i. ax_value_eq i x) items))
               | _ \<Rightarrow> fl_ok (AvBool False)))
         | _ \<Rightarrow> fl_fail ''contains(list, value) expects exactly two arguments'')
       (parse_preview_call_args text ''contains'')"

definition string_arg :: "expr_evaluator \<Rightarrow> scope \<Rightarrow> string \<Rightarrow> string list \<Rightarrow> (string \<Rightarrow> ax_value) \<Rightarrow> ax_value fueled" where
  "string_arg ev sc message args f =
     one_arg ev sc message args (\<lambda>v. case v of AvString s \<Rightarrow> fl_ok (f s) | _ \<Rightarrow> fl_fail message)"

definition either_call :: "string \<Rightarrow> string \<Rightarrow> string \<Rightarrow> string list option" where
  "either_call text a b = or_else (parse_preview_call_args text a) (parse_preview_call_args text b)"

definition eval_builtin :: "expr_evaluator \<Rightarrow> rust_syntax \<Rightarrow> scope \<Rightarrow> string \<Rightarrow> ax_value fueled option" where
  "eval_builtin ev px sc text =
     (case either_call text ''Login.accountKey'' ''Login::accountKey'' of
        Some args \<Rightarrow> Some (string_arg ev sc ''Login.accountKey expects one String argument'' args (\<lambda>s. AvString (account_key (rx_digest px) s)))
      | None \<Rightarrow>
      (case either_call text ''Validate.email'' ''Validate::email'' of
         Some args \<Rightarrow> Some (string_arg ev sc ''Validation expects one String argument'' args (\<lambda>s. AvBool (email s)))
       | None \<Rightarrow>
       (case either_call text ''Validate::password'' ''Validate.password'' of
          Some args \<Rightarrow> Some (string_arg ev sc ''Validation expects one String argument'' args (\<lambda>s. AvBool (acceptable_password s)))
        | None \<Rightarrow>
        (case parse_preview_call_args text ''invalid'' of
           Some args \<Rightarrow> Some (one_arg ev sc ''invalid(fields) expects exactly one argument'' args (\<lambda>v.
             fl_ok (AvRecord (bm_of_list [(''error'', AvString ''invalid_input''), (''message'', AvString ''Invalid input.''), (''fields'', v)]))))
         | None \<Rightarrow>
             map_option (\<lambda>args. one_arg ev sc ''error(message) expects exactly one argument'' args (\<lambda>v. fl_ok (AvRecord [(''error'', v)])))
               (parse_preview_call_args text ''error'')))))"

subsection \<open>Functions\<close>

record function_plan =
  fn_name :: string
  fn_rust_fn :: string
  fn_returns :: "string option"
  fn_input :: "field_plan list"
  fn_steps :: "step_plan list"
  fn_exported :: bool

definition coerce_preview_function_input_value :: "field_plan \<Rightarrow> ax_value \<Rightarrow> ax_value fueled" where
  "coerce_preview_function_input_value f v =
     (let ty = fd_rust_ty f;
          other = (if v = AvNull \<and> fd_optional f then fl_ok AvNull
                   else fl_fail (''function input `'' @ fd_name f @ ''` expected '' @ ty @ '' but received '' @ preview_value_type_name v)) in
      case v of
        AvString s \<Rightarrow> if ty = ''String'' then fl_ok v else other
      | AvNumber i \<Rightarrow>
          if ty = ''String'' then fl_ok (AvString (as_string v))
          else if ty = ''i64'' \<or> ty = ''u64'' then fl_ok v
          else if ty = ''f64'' then fl_ok (AvFloat (f64_of_i64 i)) else other
      | AvFloat x \<Rightarrow> if ty = ''String'' then fl_ok (AvString (as_string v)) else if ty = ''f64'' then fl_ok v else other
      | AvBool b \<Rightarrow> if ty = ''String'' then fl_ok (AvString (as_string v)) else if ty = ''bool'' then fl_ok v else other
      | _ \<Rightarrow> other)"

text \<open>\<open>dflt\<close> evaluates the default of an input: in the empty scope and the environment of the process.\<close>

fun bind_preview_function_inputs ::
  "(field_plan \<Rightarrow> string \<Rightarrow> ax_value fueled) \<Rightarrow> field_plan list \<Rightarrow> ax_value list \<Rightarrow> scope \<Rightarrow> scope fueled" where
  "bind_preview_function_inputs dflt [] args sc = fl_ok sc"
| "bind_preview_function_inputs dflt (f # fs) (a # args) sc =
     fl_then (coerce_preview_function_input_value f a) (\<lambda>v.
       bind_preview_function_inputs dflt fs args (bm_insert (fd_name f) v sc))"
| "bind_preview_function_inputs dflt (f # fs) [] sc =
     fl_then
       (case fd_default f of
          Some d \<Rightarrow> dflt f d
        | None \<Rightarrow> if fd_optional f then fl_ok AvNull else fl_fail (''missing required function input `'' @ fd_name f @ ''`''))
       (\<lambda>v. bind_preview_function_inputs dflt fs [] (bm_insert (fd_name f) v sc))"

fun return_of_plan :: "(string \<Rightarrow> ax_value fueled) \<Rightarrow> return_plan \<Rightarrow> ax_value fueled" where
  "return_of_plan ev (RpExpr x) = ev x"
| "return_of_plan ev (RpJson x) = ev x"
| "return_of_plan ev RpOk = fl_ok ok_record"
| "return_of_plan ev _ = fl_fail ''HTTP response helpers are only supported in route blocks''"

fun run_function_steps :: "expr_evaluator \<Rightarrow> string \<Rightarrow> step_plan list \<Rightarrow> scope \<Rightarrow> ax_value fueled" where
  "run_function_steps ev name [] sc = fl_ok AvNull"
| "run_function_steps ev name (StLet binding v # rest) sc =
     (case v of
        VpExpr x \<Rightarrow> fl_then (ev sc x) (\<lambda>y. run_function_steps ev name rest (bm_insert binding y sc))
      | VpCall path args \<Rightarrow> fl_then (ev sc (preview_call_expr path args)) (\<lambda>y. run_function_steps ev name rest (bm_insert binding y sc))
      | VpQuery q \<Rightarrow>
          fl_fail (''function `'' @ name @ ''` cannot use query-backed data binding `'' @ binding @ ''` in preview yet'')
      | VpStorageSave capability input \<Rightarrow> fl_fail (''function `'' @ name @ ''` cannot call Storage.save''))"
| "run_function_steps ev name (StReturn r # rest) sc = return_of_plan (ev sc) r"
| "run_function_steps ev name (_ # rest) sc = fl_fail (''function `'' @ name @ ''` only supports data and return steps in preview'')"

definition execute_preview_function ::
  "expr_evaluator \<Rightarrow> (field_plan \<Rightarrow> string \<Rightarrow> ax_value fueled) \<Rightarrow> function_plan \<Rightarrow> ax_value list \<Rightarrow> scope \<Rightarrow> ax_value fueled" where
  "execute_preview_function ev dflt f args sc =
     (if length (fn_input f) < length args then
        fl_fail (''function `'' @ fn_name f @ ''` expected '' @ show_nat (length (fn_input f)) @ '' argument(s) but received ''
          @ show_nat (length args))
      else fl_then (bind_preview_function_inputs dflt (fn_input f) args sc) (run_function_steps ev (fn_name f) (fn_steps f)))"

subsection \<open>The evaluator\<close>

type_synonym preview_functions = "(string, function_plan) bmap"

definition eval_scope_or_call ::
  "expr_evaluator \<Rightarrow> (field_plan \<Rightarrow> string \<Rightarrow> ax_value fueled) \<Rightarrow> preview_functions \<Rightarrow> scope \<Rightarrow> string \<Rightarrow> ax_value fueled" where
  "eval_scope_or_call ev dflt fns sc text =
     (case lookup_preview_scope sc text of
        Some v \<Rightarrow> fl_ok v
      | None \<Rightarrow>
          (let unsupported = fl_fail (''preview loader expression `'' @ text @ ''` is not supported yet'') in
           case parse_preview_named_call text of
             None \<Rightarrow> unsupported
           | Some (name, args) \<Rightarrow>
               (case bm_get fns name of
                  None \<Rightarrow> unsupported
                | Some f \<Rightarrow> fl_then (fl_map (ev sc) args) (\<lambda>vs. execute_preview_function ev dflt f vs sc))))"

definition eval_text ::
  "expr_evaluator \<Rightarrow> (field_plan \<Rightarrow> string \<Rightarrow> ax_value fueled) \<Rightarrow> rust_syntax \<Rightarrow> ax_env \<Rightarrow> preview_functions \<Rightarrow> scope
    \<Rightarrow> string \<Rightarrow> ax_value fueled" where
  "eval_text ev dflt px env fns sc text =
     (case parse_preview_string px text of
        Some s \<Rightarrow> fl_ok (AvString s)
      | None \<Rightarrow>
     if text = ''serde_json::Value::Null'' then fl_ok AvNull
     else case eval_null_and_length ev sc text of Some r \<Rightarrow> r | None \<Rightarrow>
     (case eval_reference ev sc text of Some r \<Rightarrow> r | None \<Rightarrow>
     (case eval_addition ev sc text of Some r \<Rightarrow> r | None \<Rightarrow>
     (case eval_literal text of Some v \<Rightarrow> fl_ok v | None \<Rightarrow>
     (case eval_env_call env text of Some r \<Rightarrow> r | None \<Rightarrow>
     (case eval_collection ev px sc text of Some r \<Rightarrow> r | None \<Rightarrow>
     (case eval_contains ev sc text of Some r \<Rightarrow> r | None \<Rightarrow>
     (case eval_builtin ev px sc text of Some r \<Rightarrow> r | None \<Rightarrow>
       eval_scope_or_call ev dflt fns sc text))))))))"

definition eval_preview_step ::
  "expr_evaluator \<Rightarrow> (field_plan \<Rightarrow> string \<Rightarrow> ax_value fueled) \<Rightarrow> rust_syntax \<Rightarrow> ax_env \<Rightarrow> preview_functions \<Rightarrow> expr_evaluator" where
  "eval_preview_step ev dflt px env fns sc text =
     (let t = trim text in
      case Option.bind (rx_parse px t) (eval_parsed ev px sc) of
        Some r \<Rightarrow> r
      | None \<Rightarrow> eval_text ev dflt px env fns sc t)"

definition default_input :: "(string \<Rightarrow> ax_value fueled) \<Rightarrow> field_plan \<Rightarrow> string \<Rightarrow> ax_value fueled" where
  "default_input ev f d = fl_then (ev d) (\<lambda>v. Some (coerce_default_value (fd_name f) (fd_rust_ty f) v))"

fun eval_preview_expr :: "rust_syntax \<Rightarrow> nat \<Rightarrow> ax_env \<Rightarrow> preview_functions \<Rightarrow> expr_evaluator" where
  "eval_preview_expr px 0 env fns sc text = None"
| "eval_preview_expr px (Suc n) env fns sc text =
     eval_preview_step (eval_preview_expr px n env fns) (default_input (eval_preview_expr px n (rx_process_env px) [] [])) px env fns sc text"

end
