(* ===== verification/Preview_Expr_Correct.thy ===== *)
theory Preview_Expr_Correct
  imports Preview_Expr Preview_Flow Json_Correct
begin

section \<open>Correctness of preview expressions\<close>

text \<open>
  More fuel never changes a result, and on the logical expressions of requirements and filters the
  preview agrees with the evaluator of pages on the source of the expression.
\<close>

subsection \<open>Fuel\<close>

definition flat_le :: "'a fueled \<Rightarrow> 'a fueled \<Rightarrow> bool" where
  "flat_le a b = (a = None \<or> b = a)"

definition ev_le :: "expr_evaluator \<Rightarrow> expr_evaluator \<Rightarrow> bool" where
  "ev_le ev ev' = (\<forall>sc x. flat_le (ev sc x) (ev' sc x))"

named_theorems flat_intro

lemma flat_le_refl [flat_intro]: "flat_le a a"
  by (simp add: flat_le_def)

lemma flat_le_ev: "ev_le ev ev' \<Longrightarrow> flat_le (ev sc x) (ev' sc x)"
  by (simp add: ev_le_def)

lemma flat_le_then [flat_intro]: "flat_le m m' \<Longrightarrow> (\<And>x. flat_le (f x) (f' x)) \<Longrightarrow> flat_le (fl_then m f) (fl_then m' f')"
  by (auto simp: flat_le_def fl_then_def split: option.split sum.split)

lemma flat_le_map [flat_intro]: "(\<And>x. flat_le (f x) (f' x)) \<Longrightarrow> flat_le (fl_map f xs) (fl_map f' xs)"
proof (induction xs)
  case (Cons x xs)
  then show ?case unfolding fl_map.simps by (intro flat_intro) auto
qed (simp add: flat_le_refl)

lemma flat_le_if [flat_intro]: "flat_le a a' \<Longrightarrow> flat_le b b' \<Longrightarrow> flat_le (if p then a else b) (if p then a' else b')"
  by simp

lemma flat_le_option [flat_intro]:
  "flat_le a a' \<Longrightarrow> (\<And>x. flat_le (f x) (f' x)) \<Longrightarrow> flat_le (case v of None \<Rightarrow> a | Some x \<Rightarrow> f x) (case v of None \<Rightarrow> a' | Some x \<Rightarrow> f' x)"
  by (cases v) auto

lemma flat_le_pair [flat_intro]: "(\<And>x y. flat_le (f x y) (f' x y)) \<Longrightarrow> flat_le (case p of (x, y) \<Rightarrow> f x y) (case p of (x, y) \<Rightarrow> f' x y)"
  by (cases p) auto

lemma flat_le_bool_value [flat_intro]:
  "(\<And>b. flat_le (f b) (f' b)) \<Longrightarrow> flat_le g g' \<Longrightarrow> flat_le (case v of AvBool b \<Rightarrow> f b | _ \<Rightarrow> g) (case v of AvBool b \<Rightarrow> f' b | _ \<Rightarrow> g')"
  by (cases v) auto

definition opt_le :: "'a fueled option \<Rightarrow> 'a fueled option \<Rightarrow> bool" where
  "opt_le a b = (case (a, b) of (None, None) \<Rightarrow> True | (Some x, Some y) \<Rightarrow> flat_le x y | _ \<Rightarrow> False)"

lemma opt_le_refl [flat_intro]: "opt_le a a"
  by (simp add: opt_le_def flat_le_refl split: option.split)

lemma opt_le_Some [flat_intro]: "flat_le a b \<Longrightarrow> opt_le (Some a) (Some b)"
  by (simp add: opt_le_def)

lemma opt_le_map [flat_intro]: "(\<And>x. flat_le (f x) (f' x)) \<Longrightarrow> opt_le (map_option f v) (map_option f' v)"
  by (cases v) (simp_all add: opt_le_def)

lemma opt_le_if [flat_intro]: "opt_le a a' \<Longrightarrow> opt_le b b' \<Longrightarrow> opt_le (if p then a else b) (if p then a' else b')"
  by simp

lemma opt_le_option [flat_intro]:
  "opt_le a a' \<Longrightarrow> (\<And>x. opt_le (f x) (f' x)) \<Longrightarrow> opt_le (case v of None \<Rightarrow> a | Some x \<Rightarrow> f x) (case v of None \<Rightarrow> a' | Some x \<Rightarrow> f' x)"
  by (cases v) auto

lemma opt_le_bind [flat_intro]: "(\<And>x. opt_le (f x) (f' x)) \<Longrightarrow> opt_le (Option.bind v f) (Option.bind v f')"
  by (cases v) (auto simp: opt_le_def)

lemma flat_le_handled [flat_intro]:
  "opt_le a a' \<Longrightarrow> flat_le b b' \<Longrightarrow> flat_le (case a of Some r \<Rightarrow> r | None \<Rightarrow> b) (case a' of Some r \<Rightarrow> r | None \<Rightarrow> b')"
  by (auto simp: opt_le_def split: option.splits)

lemma flat_le_two [flat_intro]:
  "(\<And>a b. flat_le (f a b) (f' a b)) \<Longrightarrow> flat_le g g'
    \<Longrightarrow> flat_le (case args of [a, b] \<Rightarrow> f a b | _ \<Rightarrow> g) (case args of [a, b] \<Rightarrow> f' a b | _ \<Rightarrow> g')"
  by (auto split: list.split)

lemma flat_le_one_arg [flat_intro]: "ev_le ev ev' \<Longrightarrow> flat_le (one_arg ev sc m args f) (one_arg ev' sc m args f)"
proof -
  assume ev: "ev_le ev ev'"
  then show ?thesis unfolding one_arg_def by (auto split: list.split intro!: flat_le_then flat_le_ev [OF ev] flat_le_refl)
qed

lemma flat_le_string_arg [flat_intro]: "ev_le ev ev' \<Longrightarrow> flat_le (string_arg ev sc m args f) (string_arg ev' sc m args f)"
  unfolding string_arg_def by (intro flat_intro)

lemma opt_le_groups [flat_intro]:
  assumes "ev_le ev ev'"
  shows "opt_le (eval_null_and_length ev sc text) (eval_null_and_length ev' sc text)"
    and "opt_le (eval_reference ev sc text) (eval_reference ev' sc text)"
    and "opt_le (eval_addition ev sc text) (eval_addition ev' sc text)"
    and "opt_le (eval_collection ev px sc text) (eval_collection ev' px sc text)"
    and "opt_le (eval_contains ev sc text) (eval_contains ev' sc text)"
    and "opt_le (eval_builtin ev px sc text) (eval_builtin ev' px sc text)"
  unfolding eval_null_and_length_def eval_reference_def eval_addition_def eval_collection_def eval_contains_def eval_builtin_def Let_def
  by (intro flat_intro assms flat_le_ev [OF assms])+

lemma opt_le_parsed [flat_intro]:
  assumes "ev_le ev ev'"
  shows "opt_le (eval_parsed ev px sc t) (eval_parsed ev' px sc t)"
proof (cases t)
  case (ReBinary op a b)
  show ?thesis unfolding ReBinary eval_parsed_def eval_preview_binary_def rust_expr.case
    by (intro flat_intro flat_le_ev [OF assms])
qed (simp_all only: eval_parsed_def rust_expr.case, (intro flat_intro flat_le_ev [OF assms])+)

lemma flat_le_return [flat_intro]: "(\<And>x. flat_le (ev x) (ev' x)) \<Longrightarrow> flat_le (return_of_plan ev r) (return_of_plan ev' r)"
  by (cases r) (simp_all add: flat_le_refl)

lemma flat_le_steps [flat_intro]:
  assumes "ev_le ev ev'"
  shows "flat_le (run_function_steps ev name steps sc) (run_function_steps ev' name steps sc)"
proof (induction steps arbitrary: sc)
  case (Cons st steps)
  show ?case
  proof (cases st)
    case (StLet binding v)
    then show ?thesis by (cases v) (simp_all only: run_function_steps.simps value_plan.case, (intro flat_intro flat_le_ev [OF assms] Cons.IH)+)
  next
    case (StReturn r)
    then show ?thesis unfolding StReturn run_function_steps.simps by (intro flat_intro flat_le_ev [OF assms])
  qed (simp_all add: flat_le_refl)
qed (simp add: flat_le_refl)

lemma flat_le_inputs [flat_intro]:
  assumes "\<And>f d. flat_le (dflt f d) (dflt' f d)"
  shows "flat_le (bind_preview_function_inputs dflt fs args sc) (bind_preview_function_inputs dflt' fs args sc)"
proof (induction fs arbitrary: args sc)
  case (Cons f fs)
  show ?case by (cases args) (simp_all only: bind_preview_function_inputs.simps, (intro flat_intro assms Cons.IH)+)
qed (simp add: flat_le_refl)

lemma flat_le_function [flat_intro]:
  assumes "ev_le ev ev'" "\<And>f d. flat_le (dflt f d) (dflt' f d)"
  shows "flat_le (execute_preview_function ev dflt f vs sc) (execute_preview_function ev' dflt' f vs sc)"
  unfolding execute_preview_function_def by (intro flat_intro assms)

lemma flat_le_step:
  assumes "ev_le ev ev'" "\<And>f d. flat_le (dflt f d) (dflt' f d)"
  shows "flat_le (eval_preview_step ev dflt px env fns sc text) (eval_preview_step ev' dflt' px env fns sc text)"
  unfolding eval_preview_step_def eval_text_def eval_scope_or_call_def Let_def by (intro flat_intro assms flat_le_ev [OF assms(1)])

lemma eval_preview_le: "ev_le (eval_preview_expr px n env fns) (eval_preview_expr px (Suc n) env fns)"
proof (induction n arbitrary: env fns)
  case (Suc n)
  have "flat_le (default_input (eval_preview_expr px n (rx_process_env px) [] []) f d)
      (default_input (eval_preview_expr px (Suc n) (rx_process_env px) [] []) f d)" for f d
    unfolding default_input_def by (intro flat_le_then flat_le_ev [OF Suc.IH] flat_le_refl)
  then have "flat_le (eval_preview_step (eval_preview_expr px n env fns) (default_input (eval_preview_expr px n (rx_process_env px) [] [])) px env fns sc x)
      (eval_preview_step (eval_preview_expr px (Suc n) env fns) (default_input (eval_preview_expr px (Suc n) (rx_process_env px) [] [])) px env fns sc x)" for sc x
    by (rule flat_le_step [OF Suc.IH])
  then show ?case by (simp only: ev_le_def eval_preview_expr.simps(2) simp_thms)
qed (simp add: ev_le_def flat_le_def)

text \<open>The result of an expression does not depend on the fuel: once there is enough of it, more gives the
  same value or error.\<close>

theorem preview_fuel_irrelevant:
  assumes "eval_preview_expr px n env fns sc text = Some r" and "n \<le> k"
  shows "eval_preview_expr px k env fns sc text = Some r"
  using assms(2,1)
proof (induction k rule: dec_induct)
  case (step k)
  then have "eval_preview_expr px k env fns sc text = Some r" by blast
  moreover have "flat_le (eval_preview_expr px k env fns sc text) (eval_preview_expr px (Suc k) env fns sc text)"
    by (rule flat_le_ev [OF eval_preview_le])
  ultimately show ?case unfolding flat_le_def by simp
qed simp

subsection \<open>Leaves\<close>

definition word_text :: "string \<Rightarrow> bool" where
  "word_text s = (s \<noteq> [] \<and> list_all (\<lambda>c. c = CHR ''_'' \<or> is_alphanumeric c) s)"

lemma word_without: "word_text s \<Longrightarrow> c \<noteq> CHR ''_'' \<Longrightarrow> \<not> is_alphanumeric c \<Longrightarrow> c \<notin> set s"
  by (auto simp: word_text_def list_all_iff)

lemma word_absent:
  assumes "word_text s"
  shows "CHR ''('' \<notin> set s" "CHR '')'' \<notin> set s" "CHR ''['' \<notin> set s" "CHR ''.'' \<notin> set s" "CHR '':'' \<notin> set s"
    "CHR ''&'' \<notin> set s" "CHR 0x22 \<notin> set s" "CHR 0x27 \<notin> set s"
  by (rule word_without [OF assms]; simp add: is_alphanumeric_def is_digit_def code_def)+

lemma word_char: "c = CHR ''_'' \<or> is_alphanumeric c \<Longrightarrow> \<not> space_byte c"
  by (auto simp: is_alphanumeric_def is_digit_def code_def space_byte_def is_whitespace_def)

lemma word_trim: "word_text s \<Longrightarrow> trim s = s"
  using word_char by (intro trim_solid) (simp add: word_text_def list_all_iff)

lemma prefix_absent: "c \<in> set p \<Longrightarrow> c \<notin> set s \<Longrightarrow> strip_prefix p s = None"
  by (cases "strip_prefix p s") (auto simp: strip_prefix_Some)

lemma suffix_absent: "c \<in> set p \<Longrightarrow> c \<notin> set s \<Longrightarrow> strip_suffix p s = None"
  by (cases "strip_suffix p s") (auto simp: strip_suffix_Some)

lemma word_calls:
  assumes "word_text s"
  shows "parse_preview_call_args s name = None" "parse_preview_vec_args s = None" "parse_preview_json_object px s = None"
    "parse_preview_env_call s name = None" "parse_preview_named_call s = None" "parse_preview_string px s = None"
proof -
  note absent = word_absent [OF assms]
  show "parse_preview_call_args s name = None"
    using prefix_absent [of "CHR ''(''" "name @ ''(''" s] absent by (simp add: parse_preview_call_args_def)
  show "parse_preview_vec_args s = None"
    using prefix_absent [of "CHR ''[''" "''vec![''" s] absent by (simp add: parse_preview_vec_args_def)
  show "parse_preview_json_object px s = None"
    using prefix_absent [of "CHR ''(''" "''json!('' @ [CHR 0x7B]" s] absent by (simp add: parse_preview_json_object_def)
  show "parse_preview_env_call s name = None"
    using prefix_absent [of "CHR ''(''" "''runtime.env().'' @ name @ ''('' @ [CHR 0x22]" s] absent by (simp add: parse_preview_env_call_def)
  show "parse_preview_named_call s = None"
    using absent(1) by (simp add: parse_preview_named_call_def iffD2 [OF split_once_None])
  have "\<not> starts_with [CHR 0x22] s" "\<not> starts_with [CHR 0x27] s"
    using absent by (auto simp: starts_with_iff)
  then show "parse_preview_string px s = None"
    using suffix_absent [of "CHR ''.''" "''.to_string()''" s] absent by (subst parse_preview_string.simps) simp
qed

lemma word_text_value:
  assumes "word_text s"
  shows "eval_text ev dflt px env fns sc s =
    (case eval_literal s of Some v \<Rightarrow> fl_ok v
     | None \<Rightarrow> (case bm_get sc s of Some v \<Rightarrow> fl_ok v
                | None \<Rightarrow> fl_fail (''preview loader expression `'' @ s @ ''` is not supported yet'')))"
proof -
  note calls = word_calls [OF assms] and absent = word_absent [OF assms]
  have "s \<noteq> ''serde_json::Value::Null''" using absent by auto
  moreover have "eval_reference ev sc s = None"
    using prefix_absent [of "CHR ''&''" "''&(''" s] absent by (simp add: eval_reference_def)
  moreover have "lookup_preview_scope sc s = bm_get sc s"
    using absent by (simp add: lookup_preview_scope_def split_on_absent word_trim [OF assms])
  ultimately show ?thesis
    by (simp add: eval_text_def calls eval_null_and_length_def eval_addition_def eval_env_call_def eval_collection_def Let_def
        eval_contains_def eval_builtin_def either_call_def or_else_def eval_scope_or_call_def split: option.split)
qed

definition logic_name :: "string \<Rightarrow> bool" where
  "logic_name s = (is_preview_identifier s \<and> s \<notin> {''true'', ''false'', ''null'', ''env'', ''Runtime''})"

lemma logic_name_word: "logic_name s \<Longrightarrow> word_text s"
  by (simp add: logic_name_def is_preview_identifier_def word_text_def)

lemma logic_name_literal:
  assumes "logic_name s"
  shows "eval_literal s = None"
proof -
  obtain c cs where s: "s = c # cs" and digit: "\<not> is_digit c" and word: "c = CHR ''_'' \<or> is_alphanumeric c"
    using assms by (cases s) (auto simp: logic_name_def is_preview_identifier_def)
  have sign: "c \<noteq> CHR ''-''" "c \<noteq> CHR ''+''" "c \<noteq> CHR ''.''"
    using word by (auto simp: is_alphanumeric_def is_digit_def code_def)
  have "parse_signed 64 s = None" by (simp add: s parse_signed_def sign parse_digits_def digit)
  moreover have "parse_ax_float v = None" if "strip_suffix ''_f64'' s = Some v" for v
  proof (cases v)
    case (Cons d ds)
    then have "d = c" using that s by (simp add: strip_suffix_Some)
    then have "parse_decimal v = None" using Cons digit sign by (simp add: parse_decimal_def)
    then show ?thesis using Cons \<open>d = c\<close> sign by (simp add: parse_ax_float_def)
  qed (simp add: parse_ax_float_def)
  then have "Option.bind (strip_suffix ''_f64'' s) parse_ax_float = None" by (cases "strip_suffix ''_f64'' s") auto
  ultimately show ?thesis using assms by (simp add: eval_literal_def logic_name_def)
qed

lemma number_word: "0 \<le> i \<Longrightarrow> word_text (show_int i)"
  using show_nat_digits [of "nat i"] by (auto simp: show_int_def word_text_def list_all_iff is_alphanumeric_def)

lemma number_literal: "0 \<le> sint (v :: i64) \<Longrightarrow> eval_literal (show_int (sint v)) = Some (AvNumber v)"
proof -
  assume pos: "0 \<le> sint v"
  have "sint v < 2 ^ 63" using sint_less [of v] by simp
  then have "parse_signed 64 (show_int (sint v)) = Some (sint v)" using pos by (intro parse_signed_show) auto
  moreover have "show_int (sint v) \<noteq> ''true''" "show_int (sint v) \<noteq> ''false''"
    using pos show_nat_digits [of "nat (sint v)"] by (auto simp: show_int_def is_digit_def code_def)
  ultimately show ?thesis by (simp add: eval_literal_def)
qed

subsection \<open>Logical expressions\<close>

text \<open>The expressions of requirements and filters that compare and combine names, members, elements, numbers and
  truth values, and the tree of their lowered text.\<close>

fun rooted :: "ax_expr \<Rightarrow> bool" where
  "rooted (ExIdentifier x) = logic_name x"
| "rooted (ExMember e p) = (rooted e \<and> p \<noteq> ''length'')"
| "rooted (ExIndex e i) = rooted e"
| "rooted _ = False"

fun logic_op :: "ax_binary_op \<Rightarrow> rust_binop option" where
  "logic_op OpAnd = Some BoAnd"
| "logic_op OpOr = Some BoOr"
| "logic_op OpEq = Some BoEq"
| "logic_op OpNe = Some BoNe"
| "logic_op OpLt = Some BoLt"
| "logic_op OpLe = Some BoLe"
| "logic_op OpGt = Some BoGt"
| "logic_op OpGe = Some BoGe"
| "logic_op _ = None"

fun logic_expr :: "ax_expr \<Rightarrow> bool" where
  "logic_expr (ExIdentifier x) = logic_name x"
| "logic_expr (ExNumber v) = (0 \<le> sint v)"
| "logic_expr (ExBool b) = True"
| "logic_expr (ExMember e p) = (rooted (ExMember e p) \<and> logic_expr e)"
| "logic_expr (ExIndex e i) = (rooted e \<and> logic_expr e \<and> logic_expr i)"
| "logic_expr (ExUnary op e) = (op = OpNot \<and> logic_expr e)"
| "logic_expr (ExBinary op a b) = (logic_op op \<noteq> None \<and> logic_expr a \<and> logic_expr b)"
| "logic_expr _ = False"

fun rust_tree :: "ax_expr \<Rightarrow> rust_expr" where
  "rust_tree (ExIdentifier x) = RePath False True [x]"
| "rust_tree (ExNumber v) = ReOther (show_int (sint v))"
| "rust_tree (ExBool b) = ReOther (if b then ''true'' else ''false'')"
| "rust_tree (ExMember e p) = ReField (rust_tree e) (MemberNamed p)"
| "rust_tree (ExIndex e i) = ReIndex (rust_tree e) (rust_tree i)"
| "rust_tree (ExUnary op e) = ReParen (ReNot (rust_tree e))"
| "rust_tree (ExBinary op a b) = ReParen (ReBinary (the (logic_op op)) (rust_tree a) (rust_tree b))"
| "rust_tree _ = ReOther []"

fun rust_parts :: "rust_expr \<Rightarrow> rust_expr list" where
  "rust_parts (ReField e m) = ReField e m # rust_parts e"
| "rust_parts (ReIndex e i) = ReIndex e i # rust_parts e @ rust_parts i"
| "rust_parts (ReParen e) = ReParen e # rust_parts e"
| "rust_parts (ReNot e) = ReNot e # rust_parts e"
| "rust_parts (ReBinary op a b) = ReBinary op a b # rust_parts a @ rust_parts b"
| "rust_parts t = [t]"

text \<open>What is relied on of \<open>syn\<close>: a tree it prints parses back, and a literal is printed as it is.\<close>

definition prints_back :: "rust_syntax \<Rightarrow> rust_expr \<Rightarrow> bool" where
  "prints_back px t = (rx_parse px (trim (preview_rust_expr_source px t)) = Some t
     \<and> (case t of ReOther s \<Rightarrow> rx_text px t = s | _ \<Rightarrow> True))"

definition agrees :: "ax_value fueled \<Rightarrow> ax_value \<Rightarrow> bool" where
  "agrees r v = (r = Some (Inr v) \<or> (\<exists>message. r = Some (Inl (PvRuntime message))))"

lemma agrees_fail [simp]: "agrees (fl_fail m) v"
  by (simp add: agrees_def fl_fail_def)

lemma agrees_ok [simp]: "agrees (fl_ok w) v \<longleftrightarrow> w = v"
  by (simp add: agrees_def fl_ok_def)

lemma agrees_invalid [simp]: "agrees invalid_binary v"
  by (simp add: invalid_binary_def)

lemma agrees_then: "agrees m v \<Longrightarrow> agrees (f v) w \<Longrightarrow> agrees (fl_then m f) w"
  by (auto simp: agrees_def fl_then_def)

lemma compare_agrees:
  "eval_compare_binary a b f name = Inr v \<Longrightarrow>
     agrees (case preview_ordering a b of Some c \<Rightarrow> fl_ok (AvBool (f c)) | None \<Rightarrow> invalid_binary) v"
  by (cases a; cases b)
    (auto simp: eval_compare_binary_def preview_ordering_def compare_floats_def unsupported_def split: option.splits)

lemma binary_agrees:
  assumes "eval_binary_expr ck op a b = Inr v" "logic_op op = Some rop" "op \<noteq> OpAnd" "op \<noteq> OpOr"
  shows "agrees (compare_values rop a b) v"
  using assms by (cases op) (auto simp: eval_binary_expr_def compare_values_def dest!: compare_agrees)

lemma index_agrees: "eval_index_expr a b = Inr v \<Longrightarrow> agrees (preview_index a b) v"
  by (auto simp: eval_index_expr_def preview_index_def unsupported_def Let_def split: ax_value.splits if_splits)

lemma scoped_base:
  "rooted e \<Longrightarrow> eval_expr ck fns res k sc e = Inr v \<Longrightarrow> preview_scoped_member_base (rust_tree e) sc"
proof (induction e arbitrary: v)
  case (ExIdentifier x)
  then show ?case by (cases "bm_get sc x") (auto simp: logic_name_def)
qed (auto simp: and_then_Inr_iff)

lemma step_parsed:
  "rx_parse px (trim text) = Some t \<Longrightarrow> eval_parsed (eval_preview_expr px n env fns) px sc t = Some r
    \<Longrightarrow> eval_preview_expr px (Suc n) env fns sc text = r"
  by (simp add: eval_preview_step_def Let_def)

lemma step_word:
  "word_text text \<Longrightarrow> rx_parse px text = Some t \<Longrightarrow> eval_parsed (eval_preview_expr px n env fns) px sc t = None
    \<Longrightarrow> eval_preview_expr px (Suc n) env fns sc text =
      (case eval_literal text of Some v \<Rightarrow> fl_ok v
       | None \<Rightarrow> (case bm_get sc text of Some v \<Rightarrow> fl_ok v
                  | None \<Rightarrow> fl_fail (''preview loader expression `'' @ text @ ''` is not supported yet'')))"
  by (simp add: eval_preview_step_def Let_def word_trim word_text_value)

lemma parts_head: "t \<in> set (rust_parts t)"
  by (cases t) auto

lemma parts_back: "list_all (prints_back px) (rust_parts t) \<Longrightarrow> rx_parse px (trim (preview_rust_expr_source px t)) = Some t"
  using parts_head [of t] by (auto simp: list_all_iff prints_back_def)

text \<open>A leaf is evaluated from its text.\<close>

fun leaf_text :: "ax_expr \<Rightarrow> string option" where
  "leaf_text (ExIdentifier x) = Some x"
| "leaf_text (ExNumber v) = Some (show_int (sint v))"
| "leaf_text (ExBool b) = Some (if b then ''true'' else ''false'')"
| "leaf_text _ = None"

definition reads_as :: "rust_syntax \<Rightarrow> string \<Rightarrow> ax_expr \<Rightarrow> bool" where
  "reads_as px text e = (rx_parse px (trim text) = Some (rust_tree e)
     \<and> (case leaf_text e of Some s \<Rightarrow> text = s | None \<Rightarrow> True))"

lemma source_reads:
  "logic_expr e \<Longrightarrow> list_all (prints_back px) (rust_parts (rust_tree e)) \<Longrightarrow> reads_as px (preview_rust_expr_source px (rust_tree e)) e"
  using parts_back [of px "rust_tree e"]
  by (cases e) (auto simp: reads_as_def prints_back_def list_all_iff split: if_splits)

lemma leaf_agrees:
  assumes "logic_expr e" "leaf_text e = Some s" "reads_as px text e" "eval_expr ck pf res k sc e = Inr v"
  shows "agrees (eval_preview_expr px (Suc n) env fns sc text) v"
proof -
  have same: "text = s" and parse: "rx_parse px (trim s) = Some (rust_tree e)" using assms(2,3) by (auto simp: reads_as_def)
  have word: "word_text s"
  proof (cases e)
    case (ExBool b)
    then show ?thesis using assms(2) by (cases b) (auto simp: word_text_def is_alphanumeric_def code_def)
  qed (use assms(1,2) logic_name_word number_word in auto)
  have none: "eval_parsed (eval_preview_expr px n env fns) px sc (rust_tree e) = None"
    using assms(2) by (cases e) (auto simp: eval_parsed_def)
  have step: "eval_preview_expr px (Suc n) env fns sc text =
      (case eval_literal s of Some v \<Rightarrow> fl_ok v
       | None \<Rightarrow> (case bm_get sc s of Some v \<Rightarrow> fl_ok v
                  | None \<Rightarrow> fl_fail (''preview loader expression `'' @ s @ ''` is not supported yet'')))"
    unfolding same by (rule step_word [OF word _ none]) (use parse word_trim [OF word] in simp)
  show ?thesis
  proof (cases e)
    case (ExIdentifier x)
    then show ?thesis using assms step logic_name_literal [of x] by (cases "bm_get sc x") (auto simp: logic_name_def)
  next
    case (ExNumber w)
    then show ?thesis using assms step number_literal [of w] by simp
  next
    case (ExBool b)
    then show ?thesis using assms step by (cases b) (auto simp: eval_literal_def simp del: eval_preview_expr.simps)
  qed (use assms(2) in simp_all)
qed

lemma reads_tree: "reads_as px text e \<Longrightarrow> rx_parse px (trim text) = Some (rust_tree e)"
  by (simp add: reads_as_def)

lemma parts_all:
  "list_all (prints_back px) (rust_parts (ReField e m)) \<Longrightarrow> list_all (prints_back px) (rust_parts e)"
  "list_all (prints_back px) (rust_parts (ReIndex e i)) \<Longrightarrow> list_all (prints_back px) (rust_parts e) \<and> list_all (prints_back px) (rust_parts i)"
  "list_all (prints_back px) (rust_parts (ReParen (ReNot e))) \<Longrightarrow> list_all (prints_back px) (rust_parts e)"
  "list_all (prints_back px) (rust_parts (ReParen (ReBinary op e f)))
    \<Longrightarrow> list_all (prints_back px) (rust_parts e) \<and> list_all (prints_back px) (rust_parts f)"
  by auto

lemma binary_step_agrees:
  assumes rop: "logic_op op = Some rop" and x: "eval_expr ck pf res k sc a = Inr x"
    and left: "agrees (ev sc (preview_rust_expr_source px ta)) x"
    and right: "\<And>y. eval_expr ck pf res k sc b = Inr y \<Longrightarrow> agrees (ev sc (preview_rust_expr_source px tb)) y"
    and whole: "eval_expr ck pf res k sc (ExBinary op a b) = Inr v"
  shows "agrees (eval_preview_binary ev px sc rop ta tb) v"
proof (cases "op = OpAnd \<or> op = OpOr")
  let ?right = "fl_then (ev sc (preview_rust_expr_source px tb)) (\<lambda>y. case y of AvBool q \<Rightarrow> fl_ok (AvBool q) | _ \<Rightarrow> invalid_binary)"
  case True
  then have bool: "rop = BoAnd \<or> rop = BoOr" "rop = BoOr \<longleftrightarrow> op = OpOr" using rop by auto
  have "agrees (case x of AvBool p \<Rightarrow> if p = (rop = BoOr) then fl_ok (AvBool p) else ?right | _ \<Rightarrow> invalid_binary) v"
  proof (cases x)
    case (AvBool p)
    show ?thesis
    proof (cases "p = (rop = BoOr)")
      case same: True
      then show ?thesis using whole x True AvBool bool by (auto split: if_splits)
    next
      case False
      then obtain y where y: "eval_expr ck pf res k sc b = Inr y" and v: "v = AvBool (is_truthy y)"
        using whole x True AvBool bool by (auto simp: and_then_Inr_iff split: if_splits)
      have "agrees ?right v" by (rule agrees_then [OF right [OF y]]) (simp add: v split: ax_value.split)
      then show ?thesis using AvBool False by simp
    qed
  qed simp_all
  then show ?thesis unfolding eval_preview_binary_def if_P [OF bool(1)] by (rule agrees_then [OF left])
next
  case False
  then obtain y where y: "eval_expr ck pf res k sc b = Inr y" and v: "eval_binary_expr ck op x y = Inr v"
    using whole x rop by (cases op) (auto simp: and_then_Inr_iff)
  have "\<not> (rop = BoAnd \<or> rop = BoOr)" using False rop by (cases op) auto
  then show ?thesis unfolding eval_preview_binary_def
    using binary_agrees [OF v rop] False by (simp only: if_False) (blast intro: agrees_then [OF left] agrees_then [OF right [OF y]])
qed

lemma source_agrees:
  assumes "\<And>src v m. reads_as px src e \<Longrightarrow> eval_expr ck pf res k sc e = Inr v \<Longrightarrow> 2 * size e < m
      \<Longrightarrow> agrees (eval_preview_expr px m env fns sc src) v"
    and "logic_expr e" "list_all (prints_back px) (rust_parts (rust_tree e))" "eval_expr ck pf res k sc e = Inr v" "2 * size e < m"
  shows "agrees (eval_preview_expr px m env fns sc (preview_rust_expr_source px (rust_tree e))) v"
  by (rule assms(1) [OF source_reads [OF assms(2,3)] assms(4,5)])

lemma logic_agrees:
  "logic_expr e \<Longrightarrow> list_all (prints_back px) (rust_parts (rust_tree e)) \<Longrightarrow> reads_as px src e
    \<Longrightarrow> eval_expr ck pf res k sc e = Inr v \<Longrightarrow> 2 * size e < m \<Longrightarrow> agrees (eval_preview_expr px m env fns sc src) v"
proof (induction e arbitrary: src v m)
  case (ExMember e p)
  then obtain n where m: "m = Suc n" and n: "2 * size e < n" by (cases m) auto
  let ?ev = "eval_preview_expr px n env fns"
  let ?s = "preview_rust_expr_source px (rust_tree e)"
  obtain x where x: "eval_expr ck pf res k sc e = Inr x"
    and member: "(case x of AvRecord flds \<Rightarrow> Inr (record_get flds p) | _ \<Rightarrow> Inl (Raised (UnknownMember p))) = Inr v"
    using ExMember.prems(4) by (auto simp: and_then_Inr_iff)
  then obtain fs where e: "eval_expr ck pf res k sc e = Inr (AvRecord fs)" and v: "v = record_get fs p" by (cases x) auto
  have scoped: "preview_scoped_member_base (rust_tree e) sc" using scoped_base [OF _ e] ExMember.prems(1) by simp
  have parts: "logic_expr e" "list_all (prints_back px) (rust_parts (rust_tree e))" using ExMember.prems(1,2) by simp_all
  have "agrees (?ev sc ?s) (AvRecord fs)"
    by (rule source_agrees [OF ExMember.IH [OF parts] parts e n])
  then have "agrees (fl_then (?ev sc ?s) (\<lambda>w. case w of AvRecord fs \<Rightarrow> fl_ok (record_get fs p) | AvNull \<Rightarrow> fl_ok AvNull
      | _ \<Rightarrow> fl_fail ''member access expects a record'')) v"
    by (rule agrees_then) (simp add: v)
  then show ?case unfolding m
    by (subst step_parsed [OF reads_tree [OF ExMember.prems(3)]]) (simp_all add: eval_parsed_def scoped)
next
  case (ExIndex e i)
  then obtain n where m: "m = Suc n" and n: "2 * size e < n" "2 * size i < n" by (cases m) auto
  let ?ev = "eval_preview_expr px n env fns"
  let ?a = "preview_rust_expr_source px (rust_tree e)" and ?b = "preview_rust_expr_source px (rust_tree i)"
  from ExIndex.prems(4) obtain a b where a: "eval_expr ck pf res k sc e = Inr a" and b: "eval_expr ck pf res k sc i = Inr b"
    and v: "eval_index_expr a b = Inr v" by (auto simp: and_then_Inr_iff)
  have e: "logic_expr e" "list_all (prints_back px) (rust_parts (rust_tree e))"
    and i: "logic_expr i" "list_all (prints_back px) (rust_parts (rust_tree i))" using ExIndex.prems(1,2) by simp_all
  have "agrees (?ev sc ?a) a" by (rule source_agrees [OF ExIndex.IH(1) [OF e] e a n(1)])
  moreover have "agrees (?ev sc ?b) b" by (rule source_agrees [OF ExIndex.IH(2) [OF i] i b n(2)])
  ultimately have "agrees (fl_then (?ev sc ?a) (\<lambda>x. fl_then (?ev sc ?b) (preview_index x))) v"
    using index_agrees [OF v] by (blast intro: agrees_then)
  then show ?case unfolding m
    by (subst step_parsed [OF reads_tree [OF ExIndex.prems(3)]]) (simp_all add: eval_parsed_def)
next
  case (ExUnary op e)
  then obtain n where m: "m = Suc (Suc n)" and n: "2 * size e < n" by (cases m; cases "m - 1") auto
  let ?ev = "eval_preview_expr px n env fns"
  let ?s = "preview_rust_expr_source px (rust_tree e)" and ?inner = "preview_rust_expr_source px (ReNot (rust_tree e))"
  from ExUnary.prems obtain a where op: "op = OpNot" and a: "eval_expr ck pf res k sc e = Inr a" and v: "v = AvBool (\<not> is_truthy a)"
    by (auto simp: and_then_Inr_iff eval_unary_expr_def)
  have parts: "logic_expr e" "list_all (prints_back px) (rust_parts (rust_tree e))"
    and inner: "rx_parse px (trim ?inner) = Some (ReNot (rust_tree e))"
    using ExUnary.prems(1,2) parts_back [of px "ReNot (rust_tree e)"] by simp_all
  have "agrees (?ev sc ?s) a" by (rule source_agrees [OF ExUnary.IH [OF parts] parts a n])
  then have "agrees (fl_then (?ev sc ?s) (\<lambda>x. case x of AvBool b \<Rightarrow> fl_ok (AvBool (\<not> b)) | _ \<Rightarrow> fl_fail ''logical negation expects a Bool'')) v"
    by (rule agrees_then) (simp add: v split: ax_value.split)
  then have "agrees (eval_preview_expr px (Suc n) env fns sc ?inner) v"
    by (subst step_parsed [OF inner]) (simp_all add: eval_parsed_def)
  then show ?case unfolding m
    by (subst step_parsed [OF reads_tree [OF ExUnary.prems(3)]]) (simp_all add: eval_parsed_def del: preview_rust_expr_source.simps)
next
  case (ExBinary op a b)
  then obtain n where m: "m = Suc (Suc n)" and n: "2 * size a < n" "2 * size b < n" by (cases m; cases "m - 1") auto
  let ?ev = "eval_preview_expr px n env fns"
  let ?a = "preview_rust_expr_source px (rust_tree a)" and ?b = "preview_rust_expr_source px (rust_tree b)"
  from ExBinary.prems(1) obtain rop where rop: "logic_op op = Some rop" by auto
  let ?t = "ReBinary rop (rust_tree a) (rust_tree b)"
  let ?inner = "preview_rust_expr_source px ?t"
  have pa: "logic_expr a" "list_all (prints_back px) (rust_parts (rust_tree a))"
    and pb: "logic_expr b" "list_all (prints_back px) (rust_parts (rust_tree b))"
    and inner: "rx_parse px (trim ?inner) = Some ?t"
    using ExBinary.prems(1,2) parts_back [of px ?t] rop by simp_all
  obtain x where x: "eval_expr ck pf res k sc a = Inr x" using ExBinary.prems(4) by (auto simp: and_then_Inr_iff)
  have left: "agrees (?ev sc ?a) x" by (rule source_agrees [OF ExBinary.IH(1) [OF pa] pa x n(1)])
  have right: "agrees (?ev sc ?b) y" if "eval_expr ck pf res k sc b = Inr y" for y
    by (rule source_agrees [OF ExBinary.IH(2) [OF pb] pb that n(2)])
  have "agrees (eval_preview_binary ?ev px sc rop (rust_tree a) (rust_tree b)) v"
    by (rule binary_step_agrees [of op rop ck pf res k sc a x ?ev px "rust_tree a" b "rust_tree b" v, OF rop x left right ExBinary.prems(4)])
  then have "agrees (eval_preview_expr px (Suc n) env fns sc ?inner) v"
    by (subst step_parsed [OF inner]) (simp_all add: eval_parsed_def)
  then show ?case unfolding m using rop
    by (subst step_parsed [OF reads_tree [OF ExBinary.prems(3)]]) (simp_all add: eval_parsed_def del: preview_rust_expr_source.simps)
next
  case (ExIdentifier x)
  then obtain n where "m = Suc n" by (cases m) auto
  then show ?case using leaf_agrees [OF ExIdentifier.prems(1) _ ExIdentifier.prems(3,4)] by (simp del: eval_preview_expr.simps)
next
  case (ExNumber x)
  then obtain n where "m = Suc n" by (cases m) auto
  then show ?case using leaf_agrees [OF ExNumber.prems(1) _ ExNumber.prems(3,4)] by (simp del: eval_preview_expr.simps)
next
  case (ExBool x)
  then obtain n where "m = Suc n" by (cases m) auto
  then show ?case using leaf_agrees [OF ExBool.prems(1) _ ExBool.prems(3,4)] by (simp del: eval_preview_expr.simps)
qed simp_all

lemma render_reads:
  assumes "logic_expr e" "rx_parse px (trim (render_expr pr e)) = Some (rust_tree e)"
  shows "reads_as px (render_expr pr e) e"
proof (cases e)
  case (ExIdentifier x)
  then show ?thesis using assms
    by (simp add: reads_as_def render_expr.simps [of pr "ExIdentifier x"] try_render_runtime_env_def try_render_auth_def logic_name_def)
next
  case (ExNumber v)
  then show ?thesis using assms
    by (simp add: reads_as_def render_expr.simps [of pr "ExNumber v"] try_render_runtime_env_def try_render_auth_def)
next
  case (ExBool b)
  then show ?thesis using assms
    by (simp add: reads_as_def render_expr.simps [of pr "ExBool b"] try_render_runtime_env_def try_render_auth_def)
qed (use assms in \<open>simp_all add: reads_as_def\<close>)

text \<open>C40. On a logical expression that has a value the preview, evaluating the lowered text with the fuel of twice its
  size, ends, and gives this value or refuses the expression; it never gives another value. Of \<open>syn\<close>
  only that the printed parts of this expression parse back is used.\<close>

theorem preview_agrees_with_pages:
  assumes "logic_expr e" and "eval_expr ck pf res k sc e = Inr v" and "2 * size e < m"
    and "rx_parse px (trim (render_expr pr e)) = Some (rust_tree e)" and "list_all (prints_back px) (rust_parts (rust_tree e))"
  shows "eval_preview_expr px m env fns sc (render_expr pr e) = Some (Inr v)
    \<or> (\<exists>message. eval_preview_expr px m env fns sc (render_expr pr e) = Some (Inl (PvRuntime message)))"
  using logic_agrees [OF assms(1,5) render_reads [OF assms(1,4)] assms(2,3)] unfolding agrees_def .

text \<open>A negative number is printed with a space after its sign, and this text is not a number.\<close>

lemma negative_number_refused:
  assumes "rx_parse px ''- 1'' = Some (ReOther ''- 1'')"
  shows "eval_preview_expr px (Suc n) env [] [] ''- 1'' = fl_fail ''preview loader expression `- 1` is not supported yet''"
proof -
  have trim1: "trim ''- 1'' = ''- 1''" by (rule trim_solid) (simp add: space_byte_def is_whitespace_def code_def)
  have calls: "parse_preview_call_args ''- 1'' name = None" for name
    using prefix_absent [of "CHR ''(''" "name @ ''(''" "''- 1''"] by (simp add: parse_preview_call_args_def)
  have envs: "parse_preview_env_call ''- 1'' name = None" for name
    by (simp add: parse_preview_env_call_def)
  have string: "parse_preview_string px ''- 1'' = None"
    by (subst parse_preview_string.simps) (simp add: strip_suffix_def starts_with_def)
  show ?thesis using assms
    by (simp add: eval_preview_step_def trim1 Let_def eval_parsed_def eval_text_def string eval_null_and_length_def calls eval_reference_def
        eval_addition_def eval_literal_def parse_signed_def parse_digits_def is_digit_def code_def strip_suffix_def eval_env_call_def envs
        eval_collection_def parse_preview_vec_args_def parse_preview_json_object_def eval_contains_def eval_builtin_def either_call_def
        or_else_def eval_scope_or_call_def lookup_preview_scope_def parse_preview_named_call_def bm_get_def)
qed

subsection \<open>An example\<close>

definition demo_requirement :: ax_expr where
  "demo_requirement = ExBinary OpAnd (ExIdentifier ''ready'') (ExBinary OpGt (ExMember (ExIdentifier ''user'') ''age'') (ExNumber 17))"

definition demo_text :: "rust_expr \<Rightarrow> string" where
  "demo_text t = (case t of ReOther s \<Rightarrow> s | ReBinary BoGt a b \<Rightarrow> ''user.age > 17'' | _ \<Rightarrow> ''ready && (user.age > 17)'')"

definition demo_syntax :: rust_syntax where
  "demo_syntax = \<lparr> rx_parse = map_of
       [(''ready'', RePath False True [''ready'']), (''user'', RePath False True [''user'']),
        (''user.age'', rust_tree (ExMember (ExIdentifier ''user'') ''age'')), (''17'', ReOther ''17''),
        (''user.age > 17'', ReBinary BoGt (rust_tree (ExMember (ExIdentifier ''user'') ''age'')) (ReOther ''17'')),
        (''(user.age > 17)'', rust_tree (ExBinary OpGt (ExMember (ExIdentifier ''user'') ''age'') (ExNumber 17))),
        (''ready && (user.age > 17)'', ReBinary BoAnd (RePath False True [''ready''])
           (rust_tree (ExBinary OpGt (ExMember (ExIdentifier ''user'') ''age'') (ExNumber 17)))),
        (''(ready && (user.age > 17))'', rust_tree demo_requirement)],
     rx_text = demo_text, rx_lit_str = (\<lambda>_. None), rx_digest = id, rx_process_env = \<lparr> env_public = [], env_secret = [] \<rparr> \<rparr>"

definition demo_scope :: scope where
  "demo_scope = [(''ready'', AvBool True), (''user'', AvRecord [(''age'', AvNumber 30)])]"

lemma demo_seventeen: "show_int 17 = ''17''"
  by code_simp

lemma demo_logic: "logic_expr demo_requirement"
  by (simp add: demo_requirement_def demo_seventeen logic_name_def is_preview_identifier_def is_alphanumeric_def is_digit_def code_def)

lemma demo_trims:
  "trim ''ready'' = ''ready''" "trim ''user'' = ''user''" "trim ''user.age'' = ''user.age''" "trim ''17'' = ''17''"
  "trim ''user.age > 17'' = ''user.age > 17''" "trim ''(user.age > 17)'' = ''(user.age > 17)''"
  "trim ''ready && (user.age > 17)'' = ''ready && (user.age > 17)''"
  "trim ''(ready && (user.age > 17))'' = ''(ready && (user.age > 17))''"
  by (rule trim_solid, simp add: space_byte_def is_whitespace_def code_def)+

lemma demo_render: "render_expr pr demo_requirement = ''(ready && (user.age > 17))''"
  by (simp add: demo_requirement_def render_expr.simps try_render_runtime_env_def try_render_auth_def render_binary_def demo_seventeen)

lemma demo_value_of:
  "eval_expr False [] (\<lambda>_ _. None) 0 demo_scope demo_requirement = Inr (AvBool True)"
  by (simp add: demo_requirement_def demo_scope_def bm_get_def eval_binary_expr_def eval_compare_binary_def record_get_def int_cmp_def)

theorem preview_agrees_with_pages_witness:
  "eval_preview_expr demo_syntax 30 \<lparr> env_public = [], env_secret = [] \<rparr> [] demo_scope ''(ready && (user.age > 17))'' = Some (Inr (AvBool True))
    \<or> (\<exists>message. eval_preview_expr demo_syntax 30 \<lparr> env_public = [], env_secret = [] \<rparr> [] demo_scope ''(ready && (user.age > 17))''
        = Some (Inl (PvRuntime message)))"
proof -
  have size: "2 * size demo_requirement < 30" by (simp add: demo_requirement_def)
  have parse: "rx_parse demo_syntax (trim (render_expr (\<lambda>_. True) demo_requirement)) = Some (rust_tree demo_requirement)"
    by (simp add: demo_render demo_trims demo_syntax_def)
  have parts: "list_all (prints_back demo_syntax) (rust_parts (rust_tree demo_requirement))"
    by (simp add: demo_requirement_def prints_back_def demo_seventeen)
       (simp add: demo_syntax_def demo_text_def demo_trims demo_seventeen demo_requirement_def)
  show ?thesis
    using preview_agrees_with_pages [OF demo_logic demo_value_of size parse parts] unfolding demo_render .
qed

theorem preview_fuel_irrelevant_witness:
  "eval_preview_expr demo_syntax 9 \<lparr> env_public = [], env_secret = [] \<rparr> [] demo_scope ''ready'' = Some (Inr (AvBool True))"
proof (rule preview_fuel_irrelevant [of _ 1])
  have "word_text ''ready''" by (simp add: word_text_def is_alphanumeric_def is_digit_def code_def)
  then have "eval_preview_expr demo_syntax (Suc 0) \<lparr> env_public = [], env_secret = [] \<rparr> [] demo_scope ''ready'' =
      (case eval_literal ''ready'' of Some v \<Rightarrow> fl_ok v
       | None \<Rightarrow> (case bm_get demo_scope ''ready'' of Some v \<Rightarrow> fl_ok v
                  | None \<Rightarrow> fl_fail (''preview loader expression `'' @ ''ready'' @ ''` is not supported yet'')))"
    by (rule step_word [of _ _ "RePath False True [''ready'']"]) (simp_all add: demo_syntax_def eval_parsed_def)
  moreover have "eval_literal ''ready'' = None"
    by (rule logic_name_literal) (simp add: logic_name_def is_preview_identifier_def is_alphanumeric_def is_digit_def code_def)
  ultimately show "eval_preview_expr demo_syntax 1 \<lparr> env_public = [], env_secret = [] \<rparr> [] demo_scope ''ready'' = Some (Inr (AvBool True))"
    by (simp add: demo_scope_def bm_get_def fl_ok_def del: eval_preview_expr.simps)
qed simp

end
