(* ===== verification/Page_Tree.thy ===== *)
theory Page_Tree
  imports Html_Correct Json_Contract
begin

section \<open>Pages and the attributes of their elements\<close>

text \<open>
  The page tree of \<open>axonyx-core/src/ax_ast.rs\<close> (\<open>AxDocument\<close>, \<open>AxStatement\<close>, \<open>AxComponent\<close>)
  and the parts of \<open>axonyx-core/src/ax_lowering.rs\<close> that do not recurse: properties and style, the
  attributes of the built-in components, and the paths by which the browser updates the items of a keyed
  list. An \<open>AxProp\<close> is a pair. The scope is the ordered map of the source; \<open>bmap\<close> keeps its order.
\<close>

subsection \<open>Documents\<close>

record ax_style =
  style_recipe :: "ax_expr option"
  style_class :: "ax_expr option"

record each_state_binding =
  each_signal :: string
  each_ty :: string
  each_initial :: string

datatype ax_statement =
    SmData string ax_expr
  | SmEach string ax_expr "ax_expr option" "each_state_binding option" "ax_statement list" "ax_statement list"
  | SmIf ax_expr "ax_statement list" "ax_statement list"
  | SmMatch ax_expr "(string \<times> ax_statement list) list" "ax_statement list option"
  | SmText ax_expr
  | SmComponent ax_component
  | SmPipeline ax_expr "pipeline_stage list"
and ax_component =
    AxComponent (component_name: string) (component_props: "(string \<times> ax_expr) list")
      (component_style: ax_style) (component_body: markup_body)
and markup_body = BodyEmpty | BodyInline ax_expr | BodyBlock "ax_statement list"
and pipeline_stage = StageComponent ax_component | StageEach string

record import_binding =
  imported_name :: string
  local_name :: string

record ax_import =
  import_bindings :: "import_binding list"
  import_source :: string

record component_state =
  state_name :: string
  state_ty :: string
  state_initial :: ax_expr
  state_signal :: string

record component_def =
  cd_name :: string
  cd_params :: "ax_param list"
  cd_states :: "component_state list"
  cd_body :: "ax_statement list"

record ax_page =
  page_name :: string
  page_params :: "ax_param list"
  page_body :: "ax_statement list"

record ax_document =
  doc_imports :: "ax_import list"
  doc_functions :: "ax_function list"
  doc_components :: "component_def list"
  doc_head :: ax_head
  doc_page :: ax_page

type_synonym page_scope = "(string, ax_value) bmap"

text \<open>What a page is lowered with: the build setting and the fuel of \<open>eval_expr\<close>, the data resolver and the
  import resolver of the application, the parser of documents and the printer of \<open>serde_json\<close>.\<close>

record page_env =
  pg_checks :: bool
  pg_fuel :: nat
  pg_resolver :: "string list \<Rightarrow> ax_value list \<Rightarrow> ax_value option"
  pg_import_source :: "string \<Rightarrow> string option"
  pg_parse :: "string \<Rightarrow> string + ax_document"
  pg_json_text :: "json_value \<Rightarrow> string"

record lowering_sources =
  src_functions :: "ax_function list"
  src_imports :: "ax_import list"
  src_components :: "component_def list"

definition page_eval :: "page_env \<Rightarrow> ax_function list \<Rightarrow> page_scope \<Rightarrow> ax_expr \<Rightarrow> eval_result" where
  "page_eval env functions scope e = eval_expr (pg_checks env) functions (pg_resolver env) (pg_fuel env) scope e"

definition document_sources :: "ax_document \<Rightarrow> lowering_sources" where
  "document_sources d = \<lparr> src_functions = doc_functions d, src_imports = doc_imports d, src_components = doc_components d \<rparr>"

subsection \<open>Names the lowering keeps in the scope\<close>

definition ax_render_path :: string where "ax_render_path = ''__ax_render_path''"

definition component_instance_key :: string where "component_instance_key = ''__ax_component_instance_path''"

definition each_render_binding :: string where "each_render_binding = ''__ax_each_render_binding''"

definition each_param_prefix :: string where "each_param_prefix = ''__ax_each_render_param:''"

definition each_unsupported_key :: string where "each_unsupported_key = ''__ax_each_render_unsupported''"

definition scope_text :: "page_scope \<Rightarrow> string \<Rightarrow> string option" where
  "scope_text scope key = map_option as_string (bm_get scope key)"

definition render_path :: "page_scope \<Rightarrow> string" where
  "render_path scope =
     (case scope_text scope ax_render_path of
        Some path \<Rightarrow> if path \<noteq> [] then path else ''0''
      | None \<Rightarrow> ''0'')"

definition component_instance_path :: "page_scope \<Rightarrow> string option" where
  "component_instance_path scope =
     (case scope_text scope component_instance_key of
        Some path \<Rightarrow> if path \<noteq> [] then Some path else None
      | None \<Rightarrow> None)"

text \<open>A marker of a state signal becomes the signal of this instance of the component.\<close>

definition materialize_component_state_signal :: "ax_value \<Rightarrow> page_scope \<Rightarrow> ax_value" where
  "materialize_component_state_signal v scope =
     (case v of
        AvString signal \<Rightarrow>
          (case strip_prefix ''__ax_component_state__:'' signal of
             None \<Rightarrow> v
           | Some rest \<Rightarrow>
               (case split_on (CHR '':'') rest of
                  [cmpt, state, index] \<Rightarrow>
                    AvString (''component:'' @ cmpt @ '':''
                      @ (case component_instance_path scope of Some path \<Rightarrow> path | None \<Rightarrow> render_path scope)
                      @ '':'' @ state @ '':'' @ index)
                | _ \<Rightarrow> v))
      | _ \<Rightarrow> v)"

subsection \<open>Paths into the items of a keyed list\<close>

fun member_path :: "ax_expr \<Rightarrow> (string \<times> string list) option" where
  "member_path (ExIdentifier name) = Some (name, [])"
| "member_path (ExMember obj property) = map_option (\<lambda>(root, parts). (root, parts @ [property])) (member_path obj)"
| "member_path (ExOptionalMember obj property) = map_option (\<lambda>(root, parts). (root, parts @ [property])) (member_path obj)"
| "member_path _ = None"

definition each_key_path :: "ax_expr \<Rightarrow> string \<Rightarrow> string option" where
  "each_key_path e binding =
     (case member_path e of
        Some (root, parts) \<Rightarrow> if root = binding then Some (join_with ''.'' parts) else None
      | None \<Rightarrow> None)"

definition each_render_path :: "ax_expr \<Rightarrow> page_scope \<Rightarrow> string option" where
  "each_render_path e scope =
     (case (member_path e, scope_text scope each_render_binding) of
        (Some (root, parts), Some binding) \<Rightarrow>
          if root = binding then Some (join_with ''.'' parts)
          else map_option (\<lambda>inherited.
              let suffix = join_with ''.'' parts in
              if inherited = [] then suffix
              else if suffix = [] then inherited
              else inherited @ ''.'' @ suffix)
            (scope_text scope (each_param_prefix @ root))
      | _ \<Rightarrow> None)"

fun expr_references_each_item :: "page_scope \<Rightarrow> ax_expr \<Rightarrow> bool" where
  "expr_references_each_item scope (ExIdentifier name) =
     (scope_text scope each_render_binding = Some name \<or> bm_get scope (each_param_prefix @ name) \<noteq> None)"
| "expr_references_each_item scope (ExList es) = list_ex (expr_references_each_item scope) es"
| "expr_references_each_item scope (ExObject fs) = list_ex (\<lambda>(k, e). expr_references_each_item scope e) fs"
| "expr_references_each_item scope (ExUnary op e) = expr_references_each_item scope e"
| "expr_references_each_item scope (ExBinary op a b) = (expr_references_each_item scope a \<or> expr_references_each_item scope b)"
| "expr_references_each_item scope (ExIndex a i) = (expr_references_each_item scope a \<or> expr_references_each_item scope i)"
| "expr_references_each_item scope (ExMember a property) = expr_references_each_item scope a"
| "expr_references_each_item scope (ExOptionalMember a property) = expr_references_each_item scope a"
| "expr_references_each_item scope (ExCall path args) = list_ex (expr_references_each_item scope) args"
| "expr_references_each_item scope _ = False"

definition mark_each_render_unsupported :: "page_scope \<Rightarrow> page_scope" where
  "mark_each_render_unsupported scope =
     (if bm_get scope each_render_binding \<noteq> None then bm_insert each_unsupported_key (AvBool True) scope else scope)"

definition mark_if_references :: "ax_expr \<Rightarrow> page_scope \<Rightarrow> page_scope" where
  "mark_if_references e scope =
     (if expr_references_each_item scope e then mark_each_render_unsupported scope else scope)"

definition each_render_scope_is_supported :: "page_scope \<Rightarrow> bool" where
  "each_render_scope_is_supported scope = (bm_get scope each_unsupported_key \<noteq> Some (AvBool True))"

text \<open>What the browser can render again for a new item: no raw HTML, no list in a list, no state and no behaviour.\<close>

fun each_render_template_is_safe :: "ax_node \<Rightarrow> bool" where
  "each_render_template_is_safe (NodeText t) = True"
| "each_render_template_is_safe (NodeRaw html) = False"
| "each_render_template_is_safe (NodeElement tag attrs cs) =
     (tag \<notin> {''template'', ''ax-each-render-unsupported''}
      \<and> list_all (\<lambda>a. attr_name a \<notin> {''data-ax-signal'', ''data-ax-state-name'', ''data-ax-behavior'', ''data-ax-expression-protocol''}
          \<and> \<not> starts_with ''data-ax-on-'' (attr_name a) \<and> \<not> starts_with ''data-ax-state-'' (attr_name a)) attrs
      \<and> list_all each_render_template_is_safe cs)"

definition each_value_node :: "string \<Rightarrow> string \<Rightarrow> ax_node" where
  "each_value_node path v =
     element_with_attrs ''ax-each-value''
       [attr ''style'' ''display: contents'', attr ''data-ax-each-render-target'' ''text'', attr ''data-ax-each-render-path'' path]
       [NodeText v]"

definition lower_each_render_text :: "page_env \<Rightarrow> ax_function list \<Rightarrow> ax_expr \<Rightarrow> page_scope \<Rightarrow> eval_failure + (ax_node \<times> page_scope)" where
  "lower_each_render_text env functions e scope =
     and_then (page_eval env functions scope e) (\<lambda>v.
       case each_render_path e scope of
         None \<Rightarrow> Inr (NodeText (as_string v), mark_if_references e scope)
       | Some path \<Rightarrow> Inr (each_value_node path (as_string v), scope))"

subsection \<open>Keys\<close>

definition each_key_identity :: "ax_value \<Rightarrow> eval_failure + (string \<times> string)" where
  "each_key_identity v =
     (let key = (\<lambda>kind. Inr (kind @ '':'' @ as_string v, as_string v)) in
      case v of
        AvString s \<Rightarrow> key ''string''
      | AvNumber i \<Rightarrow> key ''number''
      | AvFloat f \<Rightarrow> key ''float''
      | AvBool b \<Rightarrow> key ''bool''
      | _ \<Rightarrow> Inl (Raised InvalidEachKey))"

text \<open>FNV-1a over the bytes of the key, as sixteen hexadecimal digits.\<close>

unbundle bit_operations_syntax

definition stable_key_word :: "string \<Rightarrow> 64 word" where
  "stable_key_word key = foldl (\<lambda>hash c. (hash XOR word_of_nat (code c)) * 0x100000001b3) 0xcbf29ce484222325 key"

definition stable_key_hash :: "string \<Rightarrow> string" where
  "stable_key_hash key =
     (let digits = show_hex (unat (stable_key_word key)) in replicate (16 - length digits) (CHR ''0'') @ digits)"

end
