(* ===== verification/Page_Elements.thy ===== *)
theory Page_Elements
  imports Page_Tree
begin

section \<open>The element of a component\<close>

text \<open>
  \<open>axonyx-core/src/ax_lowering.rs\<close>: the properties of a component (\<open>eval_props\<close>, \<open>prop_string\<close>,
  \<open>prop_bool\<close>), its style, and \<open>lower_component_node\<close>, one definition per arm of its match. An arm takes
  the attributes of the style and the properties and gives the element; a function of the source
  that removes properties from the map gives the map that is left. \<open>attach_each_render_attributes\<close>
  adds what the browser needs to render an item of a keyed list again.
\<close>

subsection \<open>Properties\<close>

type_synonym prop_map = "(string, ax_value) bmap"

definition eval_props :: "page_env \<Rightarrow> ax_function list \<Rightarrow> ax_component \<Rightarrow> page_scope \<Rightarrow> eval_failure + prop_map" where
  "eval_props env functions cmpt scope =
     and_then (try_map (\<lambda>(name, e). and_then (page_eval env functions scope e)
         (\<lambda>v. Inr (name, materialize_component_state_signal v scope))) (component_props cmpt))
       (\<lambda>kvs. Inr (bm_of_list kvs))"

definition style_attr :: "page_env \<Rightarrow> ax_function list \<Rightarrow> page_scope \<Rightarrow> string \<Rightarrow> ax_expr option \<Rightarrow> eval_failure + ax_attribute list" where
  "style_attr env functions scope name e =
     (case e of
        None \<Rightarrow> Inr []
      | Some e \<Rightarrow> and_then (page_eval env functions scope e) (\<lambda>v. Inr [attr name (as_string v)]))"

definition style_attrs :: "page_env \<Rightarrow> ax_function list \<Rightarrow> ax_style \<Rightarrow> page_scope \<Rightarrow> eval_failure + ax_attribute list" where
  "style_attrs env functions style scope =
     and_then (style_attr env functions scope ''data-recipe'' (style_recipe style)) (\<lambda>recipe.
       and_then (style_attr env functions scope ''class'' (style_class style)) (\<lambda>cls. Inr (recipe @ cls)))"

fun take_prop :: "prop_map \<Rightarrow> string list \<Rightarrow> ax_value option \<times> prop_map" where
  "take_prop props [] = (None, props)"
| "take_prop props (name # names) =
     (case bm_get props name of
        Some v \<Rightarrow> (Some v, bm_remove name props)
      | None \<Rightarrow> take_prop props names)"

definition prop_string :: "prop_map \<Rightarrow> string list \<Rightarrow> string option \<times> prop_map" where
  "prop_string props names = (case take_prop props names of (v, rest) \<Rightarrow> (map_option as_string v, rest))"

definition prop_flag :: "ax_value \<Rightarrow> bool" where
  "prop_flag v = (case v of AvString s \<Rightarrow> s \<in> {''true'', ''1'', ''yes'', ''on''} | _ \<Rightarrow> is_truthy v)"

definition prop_bool :: "prop_map \<Rightarrow> string list \<Rightarrow> bool option \<times> prop_map" where
  "prop_bool props names = (case take_prop props names of (v, rest) \<Rightarrow> (map_option prop_flag v, rest))"

definition is_html_boolean_attr :: "string \<Rightarrow> bool" where
  "is_html_boolean_attr name =
     (name \<in> {''disabled'', ''checked'', ''selected'', ''hidden'', ''required'', ''readonly'', ''multiple'', ''open''})"

definition is_ascii_lowercase :: "char \<Rightarrow> bool" where
  "is_ascii_lowercase c = (CHR ''a'' \<le> c \<and> c \<le> CHR ''z'')"

definition is_native_html_tag :: "string \<Rightarrow> bool" where
  "is_native_html_tag name =
     (case name of
        [] \<Rightarrow> False
      | c # rest \<Rightarrow> is_ascii_lowercase c \<and> list_all (\<lambda>ch. is_ascii_lowercase ch \<or> is_digit ch \<or> ch = CHR ''-'') rest)"

text \<open>A property that is not an attribute of HTML by its name becomes a \<open>data-\<close> attribute.\<close>

definition remaining_name :: "string \<Rightarrow> string" where
  "remaining_name name =
     (if starts_with ''data-'' name \<or> starts_with ''aria-'' name \<or> name \<in> {''id'', ''role'', ''title'', ''tabindex''}
      then name else ''data-'' @ name)"

definition push_remaining_props :: "ax_attribute list \<Rightarrow> prop_map \<Rightarrow> ax_attribute list" where
  "push_remaining_props attrs props = attrs @ map (\<lambda>(name, v). attr (remaining_name name) (as_string v)) props"

definition push_native_props :: "ax_attribute list \<Rightarrow> prop_map \<Rightarrow> ax_attribute list" where
  "push_native_props attrs props =
     attrs @ map (\<lambda>(name, v). attr name (as_string v))
       (filter (\<lambda>(name, v). \<not> (is_html_boolean_attr name \<and> (v = AvBool False \<or> v = AvNull))) props)"

fun push_mapped_props :: "(string \<times> string) list \<Rightarrow> ax_attribute list \<Rightarrow> prop_map \<Rightarrow> ax_attribute list \<times> prop_map" where
  "push_mapped_props [] attrs props = (attrs, props)"
| "push_mapped_props ((prop, name) # mappings) attrs props =
     (case bm_get props prop of
        Some v \<Rightarrow> push_mapped_props mappings (attrs @ [attr name (as_string v)]) (bm_remove prop props)
      | None \<Rightarrow> push_mapped_props mappings attrs props)"

definition push_behavior_props :: "ax_attribute list \<Rightarrow> prop_map \<Rightarrow> ax_attribute list \<times> prop_map" where
  "push_behavior_props =
     push_mapped_props [(''behavior'', ''data-ax-behavior''), (''behavior_target'', ''data-ax-behavior-target''),
       (''behaviorTarget'', ''data-ax-behavior-target''), (''behavior_action'', ''data-ax-behavior-action''),
       (''behaviorAction'', ''data-ax-behavior-action''), (''behavior_value'', ''data-ax-behavior-value''),
       (''behaviorValue'', ''data-ax-behavior-value'')]"

definition push_selected_native_props :: "ax_attribute list \<Rightarrow> prop_map \<Rightarrow> string list \<Rightarrow> ax_attribute list \<times> prop_map" where
  "push_selected_native_props attrs props names = push_mapped_props (map (\<lambda>name. (name, name)) names) attrs props"

fun prepend_class_attr :: "ax_attribute list \<Rightarrow> string \<Rightarrow> ax_attribute list option" where
  "prepend_class_attr [] cls = None"
| "prepend_class_attr (a # attrs) cls =
     (if attr_name a = ''class'' then
        Some (attr ''class'' (if attr_value a = [] then cls else cls @ '' '' @ attr_value a) # attrs)
      else map_option ((#) a) (prepend_class_attr attrs cls))"

definition with_class :: "string \<Rightarrow> ax_attribute list \<Rightarrow> ax_attribute list" where
  "with_class cls attrs = (case prepend_class_attr attrs cls of Some out \<Rightarrow> out | None \<Rightarrow> attr ''class'' cls # attrs)"

text \<open>\<open>attrs.insert(attrs.len().min(n), a)\<close>.\<close>

definition insert_attr :: "nat \<Rightarrow> ax_attribute \<Rightarrow> ax_attribute list \<Rightarrow> ax_attribute list" where
  "insert_attr n a attrs = take n attrs @ a # drop n attrs"

subsection \<open>Imports and components by name\<close>

definition resolve_import :: "ax_import list \<Rightarrow> string \<Rightarrow> (import_binding \<times> string) option" where
  "resolve_import imports local =
     List.find (\<lambda>(binding, source). local_name binding = local)
       (concat (map (\<lambda>i. map (\<lambda>b. (b, import_source i)) (rev (import_bindings i))) (rev imports)))"

definition resolve_component :: "component_def list \<Rightarrow> string \<Rightarrow> component_def option" where
  "resolve_component components local = List.find (\<lambda>c. cd_name c = local) (rev components)"

subsection \<open>The arms\<close>

text \<open>How most arms end: behaviours, the properties that are left, the element.\<close>

definition finish_element :: "string \<Rightarrow> ax_attribute list \<Rightarrow> prop_map \<Rightarrow> ax_node list \<Rightarrow> ax_node" where
  "finish_element tag attrs props cs =
     (case push_behavior_props attrs props of (attrs', props') \<Rightarrow>
        element_with_attrs tag (push_remaining_props attrs' props') cs)"

definition import_element :: "string \<Rightarrow> import_binding \<Rightarrow> string \<Rightarrow> ax_attribute list \<Rightarrow> prop_map \<Rightarrow> ax_node list \<Rightarrow> ax_node" where
  "import_element name binding source attrs props cs =
     finish_element ''div''
       (attr ''data-component'' name # attrs
        @ [attr ''data-import-source'' source, attr ''data-import-name'' (imported_name binding),
           attr ''data-import-local'' (local_name binding)]) props cs"

definition contents_element :: "string \<Rightarrow> ax_attribute list \<Rightarrow> prop_map \<Rightarrow> ax_node list \<Rightarrow> ax_node" where
  "contents_element tag attrs props cs =
     element_with_attrs tag (push_remaining_props (attrs @ [attr ''style'' ''display: contents'']) props) cs"

definition branch_visibility :: "bool \<Rightarrow> ax_attribute list" where
  "branch_visibility initially_hidden =
     (if initially_hidden then [attr ''style'' ''display: none'', attr ''hidden'' ''true'']
      else [attr ''style'' ''display: contents''])"

definition state_if_branch :: "bool \<Rightarrow> ax_attribute list \<Rightarrow> prop_map \<Rightarrow> ax_node list \<Rightarrow> ax_node" where
  "state_if_branch is_then attrs props cs =
     (case prop_bool props [''hidden''] of (hidden, props') \<Rightarrow>
        element_with_attrs ''ax-state-branch''
          (push_native_props (attrs @ attr ''data-ax-state-if-branch'' (if is_then then ''then'' else ''else'')
             # branch_visibility (hidden = Some True)) props') cs)"

definition state_match_branch :: "bool \<Rightarrow> ax_attribute list \<Rightarrow> prop_map \<Rightarrow> ax_node list \<Rightarrow> ax_node" where
  "state_match_branch is_case attrs props cs =
     (case prop_bool props [''hidden''] of (hidden, props1) \<Rightarrow>
      case (if is_case then prop_string props1 [''case''] else (None, props1)) of (v, props2) \<Rightarrow>
        element_with_attrs ''ax-state-match-branch''
          (push_native_props (attrs @ attr ''data-ax-state-match-branch'' (if is_case then ''case'' else ''default'')
             # (case v of Some v \<Rightarrow> [attr ''data-ax-state-match-value'' v] | None \<Rightarrow> [])
             @ branch_visibility (hidden = Some True)) props2) cs)"

definition or_default :: "string option \<Rightarrow> string \<Rightarrow> string" where
  "or_default v d = (case v of Some s \<Rightarrow> s | None \<Rightarrow> d)"

definition container_element :: "ax_attribute list \<Rightarrow> prop_map \<Rightarrow> ax_node list \<Rightarrow> ax_node" where
  "container_element attrs props cs =
     (case prop_string props [''max'', ''max_width''] of (v, props') \<Rightarrow>
        finish_element ''div'' (insert_attr 1 (attr ''data-max'' (or_default v ''xl'')) (with_class ''ax-container'' attrs)) props' cs)"

definition grid_element :: "ax_attribute list \<Rightarrow> prop_map \<Rightarrow> ax_node list \<Rightarrow> ax_node" where
  "grid_element attrs props cs =
     (case prop_string props [''cols''] of (cols, props1) \<Rightarrow>
      case prop_string props1 [''gap''] of (gap, props2) \<Rightarrow>
        finish_element ''div''
          (insert_attr 2 (attr ''data-gap'' (or_default gap ''md''))
            (insert_attr 1 (attr ''data-cols'' (or_default cols ''1'')) (with_class ''ax-grid'' attrs))) props2 cs)"

fun component_prop_expr :: "ax_component \<Rightarrow> string list \<Rightarrow> ax_expr option" where
  "component_prop_expr cmpt [] = None"
| "component_prop_expr cmpt (name # names) =
     (case List.find (\<lambda>p. fst p = name) (component_props cmpt) of
        Some p \<Rightarrow> Some (snd p)
      | None \<Rightarrow> component_prop_expr cmpt names)"

definition card_element :: "ax_component \<Rightarrow> page_scope \<Rightarrow> ax_attribute list \<Rightarrow> prop_map \<Rightarrow> ax_node list \<Rightarrow> ax_node" where
  "card_element cmpt scope attrs props cs =
     (case prop_string props [''title''] of (title, props') \<Rightarrow>
        finish_element ''article'' (with_class ''ax-card'' attrs) props'
          ((case title of
              None \<Rightarrow> []
            | Some t \<Rightarrow>
                [element_with_attrs ''h2'' [attr ''class'' ''ax-card__title'']
                  [case Option.bind (component_prop_expr cmpt [''title'']) (\<lambda>e. each_render_path e scope) of
                     Some path \<Rightarrow> each_value_node path t
                   | None \<Rightarrow> NodeText t]]) @ cs))"

definition copy_element :: "ax_attribute list \<Rightarrow> prop_map \<Rightarrow> ax_node list \<Rightarrow> ax_node" where
  "copy_element attrs props cs =
     (case prop_string props [''as'', ''tag''] of (tag, props') \<Rightarrow>
        finish_element (or_default tag ''p'') (with_class ''ax-copy'' attrs) props' cs)"

definition html_element :: "ax_attribute list \<Rightarrow> prop_map \<Rightarrow> ax_node list \<Rightarrow> ax_node" where
  "html_element attrs props cs =
     (case prop_string props [''content'', ''html''] of (content, props') \<Rightarrow>
        finish_element ''div'' (with_class ''ax-html'' attrs) props'
          [NodeRaw (or_default content
             (concat (map (\<lambda>c. case c of NodeText v \<Rightarrow> v | NodeRaw v \<Rightarrow> v | NodeElement _ _ _ \<Rightarrow> []) cs)))])"

definition button_element :: "ax_attribute list \<Rightarrow> prop_map \<Rightarrow> ax_node list \<Rightarrow> ax_node" where
  "button_element attrs props cs =
     (case push_selected_native_props (with_class ''ax-button'' attrs) props [''type'', ''name'', ''value'', ''form''] of
        (attrs', props') \<Rightarrow> finish_element ''button'' attrs' props' cs)"

text \<open>The action: given, or the address the resolver knows for the name of an action.\<close>

definition form_action :: "page_env \<Rightarrow> prop_map \<Rightarrow> string option \<times> prop_map" where
  "form_action env props =
     (case prop_string props [''action''] of
        (Some action, props1) \<Rightarrow> (Some action, props1)
      | (None, props1) \<Rightarrow>
          (case prop_string props1 [''name'', ''actionName''] of
             (Some name, props2) \<Rightarrow> (map_option as_string (pg_resolver env [''action''] [AvString name]), props2)
           | (None, props2) \<Rightarrow> (None, props2)))"

definition patch_field :: ax_node where
  "patch_field = element_with_attrs ''input'' [attr ''type'' ''hidden'', attr ''name'' ''__ax_patch'', attr ''value'' ''1''] []"

definition action_form_element :: "page_env \<Rightarrow> ax_attribute list \<Rightarrow> prop_map \<Rightarrow> ax_node list \<Rightarrow> ax_node" where
  "action_form_element env attrs props cs =
     (case prop_string props [''method''] of (form_method, props1) \<Rightarrow>
      case form_action env props1 of (action, props2) \<Rightarrow>
      case prop_bool props2 [''patch''] of (patch, props3) \<Rightarrow>
        finish_element ''form''
          (with_class ''ax-form'' attrs @ attr ''method'' (or_default form_method ''post'')
             # (case action of Some a \<Rightarrow> [attr ''action'' a] | None \<Rightarrow> [])) props3
          ((if patch = Some False then [] else [patch_field]) @ cs))"

definition action_status_element :: "ax_attribute list \<Rightarrow> prop_map \<Rightarrow> ax_node list \<Rightarrow> ax_node" where
  "action_status_element attrs props cs =
     (case prop_string props [''state'', ''when''] of (state, props') \<Rightarrow>
        finish_element ''p'' (with_class ''ax-action-status'' attrs @ [attr ''data-state'' (or_default state ''pending'')]) props' cs)"

definition action_progress_element :: "ax_attribute list \<Rightarrow> prop_map \<Rightarrow> ax_node list \<Rightarrow> ax_node" where
  "action_progress_element attrs props cs =
     finish_element ''progress''
       (with_class ''ax-action-progress'' attrs
        @ [attr ''data-ax-action-progress'' ''true'', attr ''max'' ''100'', attr ''value'' ''0'', attr ''hidden'' ''true'',
           attr ''aria-hidden'' ''true'']) props cs"

definition native_element :: "string \<Rightarrow> ax_attribute list \<Rightarrow> prop_map \<Rightarrow> ax_node list \<Rightarrow> ax_node" where
  "native_element tag attrs props cs =
     (case push_behavior_props attrs props of (attrs', props') \<Rightarrow>
        element_with_attrs tag (push_native_props attrs' props') cs)"

definition component_element :: "page_env \<Rightarrow> ax_import list \<Rightarrow> ax_component \<Rightarrow> page_scope
    \<Rightarrow> ax_attribute list \<Rightarrow> prop_map \<Rightarrow> ax_node list \<Rightarrow> ax_node" where
  "component_element env imports cmpt scope attrs props cs =
     (let name = component_name cmpt in
      case resolve_import imports name of
        Some (binding, source) \<Rightarrow> import_element name binding source attrs props cs
      | None \<Rightarrow>
          if name = ''__AxStateIf'' then contents_element ''ax-state-if'' attrs props cs
          else if name = ''__AxStateIfThen'' \<or> name = ''__AxStateIfElse'' then
            state_if_branch (name = ''__AxStateIfThen'') attrs props cs
          else if name = ''__AxStateMatch'' then contents_element ''ax-state-match'' attrs props cs
          else if name = ''__AxStateMatchCase'' \<or> name = ''__AxStateMatchDefault'' then
            state_match_branch (name = ''__AxStateMatchCase'') attrs props cs
          else if name = ''__AxReactiveText'' then contents_element ''ax-expression'' attrs props cs
          else if name = ''Container'' then container_element attrs props cs
          else if name = ''Grid'' then grid_element attrs props cs
          else if name = ''Card'' then card_element cmpt scope attrs props cs
          else if name = ''Copy'' then copy_element attrs props cs
          else if name = ''Html'' then html_element attrs props cs
          else if name = ''Button'' then button_element attrs props cs
          else if name = ''ActionForm'' then action_form_element env attrs props cs
          else if name = ''ActionStatus'' then action_status_element attrs props cs
          else if name = ''ActionProgress'' then action_progress_element attrs props cs
          else if is_native_html_tag name then native_element name attrs props cs
          else finish_element ''div'' (attr ''data-component'' name # attrs) props cs)"

end
