(* ===== verification/Page_Lower.thy ===== *)
theory Page_Lower
  imports Page_Elements
begin

section \<open>Lowering a page to nodes\<close>

text \<open>
  \<open>axonyx-core/src/ax_lowering.rs\<close>: \<open>lower_document\<close> and the functions below it. They call each other
  through \<open>lower_statements\<close>, which every nested body goes through. Here each of them takes that function as the
  argument \<open>rec\<close>, and \<open>lower_statements\<close> ties the knot with one unit of fuel for each level of nesting; a
  component that contains itself recurses without end in the source and answers \<open>Diverges\<close> here. A mutable scope is
  returned updated. The body of a slot carries the sources of the page that wrote it.
\<close>

datatype slot_context = SlotContext (slot_body: "ax_statement list") (slot_sources: lowering_sources) (slot_parent: "slot_context option")

type_synonym lowered_nodes = "eval_failure + (ax_node list \<times> page_scope)"

type_synonym lower_rec = "lowering_sources \<Rightarrow> slot_context option \<Rightarrow> ax_statement list \<Rightarrow> page_scope \<Rightarrow> lowered_nodes"

text \<open>A body lowered in a copy of the scope, which is dropped.\<close>

definition lower_nested :: "lower_rec \<Rightarrow> lowering_sources \<Rightarrow> slot_context option \<Rightarrow> ax_statement list \<Rightarrow> page_scope
    \<Rightarrow> eval_failure + ax_node list" where
  "lower_nested rec srcs slot body scope = and_then (rec srcs slot body scope) (\<lambda>(nodes, nested). Inr nodes)"

subsection \<open>Attributes the browser renders again\<close>

definition each_render_attribute_target :: "string \<Rightarrow> string \<Rightarrow> string option" where
  "each_render_attribute_target cmpt prop =
     (if prop \<in> {''behavior'', ''behavior_target'', ''behaviorTarget'', ''behavior_action'', ''behaviorAction'', ''behavior_value'',
         ''behaviorValue'', ''html'', ''content'', ''as'', ''tag''} then None
      else if cmpt = ''Card'' \<and> prop = ''title'' then None
      else Some
       (if cmpt = ''Container'' \<and> prop \<in> {''max'', ''max_width''} then ''data-max''
        else if cmpt = ''Grid'' \<and> prop = ''cols'' then ''data-cols''
        else if cmpt = ''Grid'' \<and> prop = ''gap'' then ''data-gap''
        else if is_native_html_tag cmpt then prop
        else if cmpt = ''Button'' \<and> prop \<in> {''type'', ''name'', ''value'', ''form''} then prop
        else if starts_with ''data-'' prop \<or> starts_with ''aria-'' prop then prop
        else if prop \<in> {''id'', ''role'', ''tabindex''} then prop
        else ''data-'' @ prop))"

definition unsafe_target :: "string \<Rightarrow> bool" where
  "unsafe_target target =
     (target \<in> {''href'', ''src'', ''action'', ''formaction'', ''style''} \<or> starts_with ''on'' (to_lower target))"

definition render_binding :: "string \<Rightarrow> string \<Rightarrow> string \<Rightarrow> json_value" where
  "render_binding target path mode =
     JObject (bm_of_list [(''target'', JString target), (''path'', JString path), (''mode'', JString mode)])"

definition bind_prop :: "string \<Rightarrow> ax_attribute list \<Rightarrow> string \<times> ax_expr \<Rightarrow> json_value list \<times> page_scope \<Rightarrow> json_value list \<times> page_scope" where
  "bind_prop cmpt attrs prop acc =
     (case (prop, acc) of ((name, e), (bindings, scope)) \<Rightarrow>
        case each_render_path e scope of
          None \<Rightarrow> (bindings, mark_if_references e scope)
        | Some path \<Rightarrow>
            (case each_render_attribute_target cmpt name of
               None \<Rightarrow> (bindings, if cmpt = ''Card'' \<and> name = ''title'' then scope else mark_each_render_unsupported scope)
             | Some target \<Rightarrow>
                 if unsafe_target target then (bindings, mark_each_render_unsupported scope)
                 else if \<not> is_html_boolean_attr target \<and> \<not> list_ex (\<lambda>a. attr_name a = target) attrs
                 then (bindings, mark_each_render_unsupported scope)
                 else (bindings @ [render_binding target path (if is_html_boolean_attr target then ''boolean'' else ''attribute'')], scope)))"

definition bind_style :: "ax_style \<Rightarrow> json_value list \<times> page_scope \<Rightarrow> json_value list \<times> page_scope" where
  "bind_style style acc =
     (case acc of (bindings, scope) \<Rightarrow>
        let scope1 = (case style_class style of Some e \<Rightarrow> mark_if_references e scope | None \<Rightarrow> scope) in
        case style_recipe style of
          None \<Rightarrow> (bindings, scope1)
        | Some e \<Rightarrow>
            (case each_render_path e scope1 of
               Some path \<Rightarrow> (bindings @ [render_binding ''data-recipe'' path ''attribute''], scope1)
             | None \<Rightarrow> (bindings, mark_if_references e scope1)))"

fun attach_each_render_attributes :: "page_env \<Rightarrow> ax_component \<Rightarrow> ax_node \<Rightarrow> page_scope \<Rightarrow> ax_node \<times> page_scope" where
  "attach_each_render_attributes env cmpt (NodeElement tag attrs cs) scope =
     (case bind_style (component_style cmpt)
        (foldl (\<lambda>acc prop. bind_prop (component_name cmpt) attrs prop acc) ([], scope) (component_props cmpt)) of
        (bindings, scope') \<Rightarrow>
          (NodeElement tag
             (if bindings = [] then attrs else attrs @ [attr ''data-ax-each-render-attrs'' (pg_json_text env (JArray bindings))]) cs,
           scope'))"
| "attach_each_render_attributes env cmpt node scope = (node, scope)"

subsection \<open>Components\<close>

definition lower_component_children :: "page_env \<Rightarrow> lower_rec \<Rightarrow> lowering_sources \<Rightarrow> slot_context option \<Rightarrow> ax_component
    \<Rightarrow> page_scope \<Rightarrow> lowered_nodes" where
  "lower_component_children env rec srcs slot cmpt scope =
     (case component_body cmpt of
        BodyEmpty \<Rightarrow> Inr ([], scope)
      | BodyInline e \<Rightarrow>
          and_then (lower_each_render_text env (src_functions srcs) e scope) (\<lambda>(node, scope'). Inr ([node], scope'))
      | BodyBlock body \<Rightarrow> and_then (lower_nested rec srcs slot body scope) (\<lambda>nodes. Inr (nodes, scope)))"

definition lower_component_node :: "page_env \<Rightarrow> lower_rec \<Rightarrow> lowering_sources \<Rightarrow> slot_context option \<Rightarrow> ax_component
    \<Rightarrow> page_scope \<Rightarrow> lowered_nodes" where
  "lower_component_node env rec srcs slot cmpt scope =
     and_then (lower_component_children env rec srcs slot cmpt scope) (\<lambda>(cs, scope').
     and_then (eval_props env (src_functions srcs) cmpt scope') (\<lambda>props.
     and_then (style_attrs env (src_functions srcs) (component_style cmpt) scope') (\<lambda>attrs.
       case attach_each_render_attributes env cmpt (component_element env (src_imports srcs) cmpt scope' attrs props cs) scope' of
         (node, scope'') \<Rightarrow> Inr ([node], scope''))))"

definition component_passthrough_attrs :: "prop_map \<Rightarrow> component_def \<Rightarrow> ax_attribute list" where
  "component_passthrough_attrs props def =
     map (\<lambda>(name, v). attr name (as_string v))
       (filter (\<lambda>(name, v). \<not> list_ex (\<lambda>p. param_name p = name) (cd_params def)
          \<and> (starts_with ''data-'' name \<or> starts_with ''aria-'' name
             \<or> name \<in> {''id'', ''role'', ''title'', ''tabindex'', ''style''})) props)"

definition propagate_each_render_params :: "ax_component \<Rightarrow> page_scope \<Rightarrow> page_scope \<Rightarrow> page_scope" where
  "propagate_each_render_params cmpt source target =
     foldl (\<lambda>scope (name, e). case each_render_path e source of
         Some path \<Rightarrow> bm_insert (each_param_prefix @ name) (AvString path) scope
       | None \<Rightarrow> scope) target (component_props cmpt)"

definition literal_text :: "ax_value \<Rightarrow> string" where
  "literal_text v = (if v = AvNull then ''null'' else as_string v)"

text \<open>\<open>matches!(&value, AxValue::String(value) if literal_values.contains(value))\<close>, where there are literals.\<close>

definition literal_allowed :: "ax_param \<Rightarrow> ax_value \<Rightarrow> bool" where
  "literal_allowed param v =
     (param_literal_values param = [] \<or> (case v of AvString s \<Rightarrow> s \<in> set (param_literal_values param) | _ \<Rightarrow> False))"

definition quote_literal :: "string \<Rightarrow> string" where
  "quote_literal s = CHR 0x22 # s @ [CHR 0x22]"

fun bind_component_params :: "page_env \<Rightarrow> ax_function list \<Rightarrow> string \<Rightarrow> prop_map \<Rightarrow> ax_param list \<Rightarrow> page_scope
    \<Rightarrow> eval_failure + page_scope" where
  "bind_component_params env functions name props [] scope = Inr scope"
| "bind_component_params env functions name props (param # params) scope =
     and_then
       (case bm_get props (param_name param) of
          Some v \<Rightarrow> Inr v
        | None \<Rightarrow> (case param_default param of Some d \<Rightarrow> page_eval env functions scope d | None \<Rightarrow> Inr AvNull))
       (\<lambda>v. if literal_allowed param v
            then bind_component_params env functions name props params (bm_insert (param_name param) v scope)
            else Inl (Raised (InvalidComponentPropLiteral name (param_name param) (literal_text v)
              (join_with '', '' (map quote_literal (param_literal_values param))))))"

fun bind_component_states :: "page_env \<Rightarrow> ax_function list \<Rightarrow> component_state list \<Rightarrow> page_scope \<Rightarrow> eval_failure + page_scope" where
  "bind_component_states env functions [] scope = Inr scope"
| "bind_component_states env functions (s # states) scope =
     and_then (page_eval env functions scope (state_initial s))
       (\<lambda>v. bind_component_states env functions states (bm_insert (state_name s) v scope))"

text \<open>Class and style are appended to what the element has; any other attribute replaces it.\<close>

fun extend_attr :: "ax_attribute list \<Rightarrow> string \<Rightarrow> string \<Rightarrow> ax_attribute list option" where
  "extend_attr [] name v = None"
| "extend_attr (a # attrs) name v =
     (if attr_name a = name then
        Some ((if trim v = [] then a else attr name (attr_value a @ (if name = ''style'' then '';'' else '' '') @ v)) # attrs)
      else map_option ((#) a) (extend_attr attrs name v))"

definition apply_attr :: "ax_attribute list \<Rightarrow> ax_attribute \<Rightarrow> ax_attribute list" where
  "apply_attr attrs a =
     (case (if attr_name a \<in> {''class'', ''style''} then extend_attr attrs (attr_name a) (attr_value a) else None) of
        Some attrs' \<Rightarrow> attrs'
      | None \<Rightarrow> filter (\<lambda>b. attr_name b \<noteq> attr_name a) attrs @ [a])"

definition apply_attrs_to_first_element :: "ax_node list \<Rightarrow> ax_attribute list \<Rightarrow> ax_node list" where
  "apply_attrs_to_first_element nodes incoming =
     (case nodes of
        NodeElement tag attrs cs # rest \<Rightarrow> NodeElement tag (foldl apply_attr attrs incoming) cs # rest
      | _ \<Rightarrow> nodes)"

definition component_children_to_statements :: "ax_component \<Rightarrow> ax_statement list" where
  "component_children_to_statements cmpt =
     (case component_body cmpt of BodyEmpty \<Rightarrow> [] | BodyInline e \<Rightarrow> [SmText e] | BodyBlock body \<Rightarrow> body)"

text \<open>The scope of a local component: its instance path, the paths of its parameters, parameters and states.\<close>

definition component_scope :: "page_env \<Rightarrow> ax_function list \<Rightarrow> ax_component \<Rightarrow> component_def \<Rightarrow> prop_map \<Rightarrow> page_scope
    \<Rightarrow> eval_failure + page_scope" where
  "component_scope env functions cmpt def props scope =
     and_then (bind_component_params env functions (cd_name def) props (cd_params def)
         (propagate_each_render_params cmpt scope (bm_insert component_instance_key (AvString (render_path scope)) scope)))
       (bind_component_states env functions (cd_states def))"

definition lower_local_component_nodes :: "page_env \<Rightarrow> lower_rec \<Rightarrow> lowering_sources \<Rightarrow> lowering_sources \<Rightarrow> slot_context option
    \<Rightarrow> ax_component \<Rightarrow> component_def \<Rightarrow> page_scope \<Rightarrow> eval_failure + ax_node list" where
  "lower_local_component_nodes env rec srcs slot_srcs slot cmpt def scope =
     and_then (eval_props env (src_functions srcs) cmpt scope) (\<lambda>props.
     and_then (style_attrs env (src_functions srcs) (component_style cmpt) scope) (\<lambda>style.
     and_then (component_scope env (src_functions srcs) cmpt def props scope) (\<lambda>inner.
     and_then (lower_nested rec srcs (Some (SlotContext (component_children_to_statements cmpt) slot_srcs slot)) (cd_body def) inner)
       (\<lambda>nodes. Inr (apply_attrs_to_first_element nodes (component_passthrough_attrs props def @ style))))))"

subsection \<open>Imports\<close>

definition module_source :: "string \<Rightarrow> string option" where
  "module_source source =
     (let lines = str_lines source;
          in_prefix = (\<lambda>line. trim_start line = [] \<or> starts_with ''use '' (trim_start line) \<or> starts_with ''import '' (trim_start line));
          nl = [CHR 0x0A] in
      if \<not> list_ex (\<lambda>line. starts_with ''component '' (trim_start line)) lines then None
      else Some ((if takeWhile in_prefix lines = [] then [] else join_with nl (takeWhile in_prefix lines) @ nl @ nl)
        @ ''page ComponentModule'' @ nl @ nl @ join_with nl (dropWhile in_prefix lines)))"

definition parse_component_only_import_document :: "page_env \<Rightarrow> string \<Rightarrow> ax_document option" where
  "parse_component_only_import_document env source =
     (case module_source source of
        None \<Rightarrow> None
      | Some synthetic \<Rightarrow> (case pg_parse env synthetic of Inr d \<Rightarrow> Some d | Inl message \<Rightarrow> None))"

definition imported_component :: "ax_document \<Rightarrow> import_binding \<Rightarrow> component_def option" where
  "imported_component d binding =
     (case resolve_component (doc_components d) (imported_name binding) of
        Some def \<Rightarrow> Some def
      | None \<Rightarrow> resolve_component (doc_components d) (local_name binding))"

fun apply_params_to_scope :: "page_env \<Rightarrow> ax_function list \<Rightarrow> ax_param list \<Rightarrow> page_scope \<Rightarrow> eval_failure + page_scope" where
  "apply_params_to_scope env functions [] scope = Inr scope"
| "apply_params_to_scope env functions (param # params) scope =
     (if bm_get scope (param_name param) \<noteq> None then apply_params_to_scope env functions params scope
      else and_then (case param_default param of Some d \<Rightarrow> page_eval env functions scope d | None \<Rightarrow> Inr AvNull)
        (\<lambda>v. apply_params_to_scope env functions params (bm_insert (param_name param) v scope)))"

definition insert_style_value :: "page_env \<Rightarrow> ax_function list \<Rightarrow> page_scope \<Rightarrow> string \<Rightarrow> ax_expr option \<Rightarrow> page_scope
    \<Rightarrow> eval_failure + page_scope" where
  "insert_style_value env functions scope name e target =
     (case e of
        None \<Rightarrow> Inr target
      | Some e \<Rightarrow> and_then (page_eval env functions scope e) (\<lambda>v. Inr (bm_insert name v target)))"

definition imported_page_scope :: "page_env \<Rightarrow> ax_function list \<Rightarrow> ax_component \<Rightarrow> ax_document \<Rightarrow> page_scope \<Rightarrow> eval_failure + page_scope" where
  "imported_page_scope env functions cmpt d scope =
     and_then (apply_params_to_scope env functions (page_params (doc_page d)) (propagate_each_render_params cmpt scope scope)) (\<lambda>s1.
     and_then (eval_props env functions cmpt scope) (\<lambda>props.
     and_then (insert_style_value env functions scope ''class'' (style_class (component_style cmpt))
         (foldl (\<lambda>s (name, v). bm_insert name v s) s1 props)) (\<lambda>s2.
       insert_style_value env functions scope ''recipe'' (style_recipe (component_style cmpt)) s2)))"

definition lower_imported_component_nodes :: "page_env \<Rightarrow> lower_rec \<Rightarrow> lowering_sources \<Rightarrow> slot_context option \<Rightarrow> ax_component
    \<Rightarrow> import_binding \<Rightarrow> string \<Rightarrow> page_scope \<Rightarrow> string \<Rightarrow> eval_failure + ax_node list" where
  "lower_imported_component_nodes env rec srcs slot cmpt binding path scope source =
     (case pg_parse env source of
        Inl message \<Rightarrow>
          (case Option.bind (parse_component_only_import_document env source)
               (\<lambda>d. map_option (Pair d) (imported_component d binding)) of
             Some (d, def) \<Rightarrow> lower_local_component_nodes env rec (document_sources d) srcs slot cmpt def scope
           | None \<Rightarrow> Inl (Raised (ImportedComponentParse path message)))
      | Inr d \<Rightarrow>
          (case imported_component d binding of
             Some def \<Rightarrow> lower_local_component_nodes env rec (document_sources d) srcs slot cmpt def scope
           | None \<Rightarrow>
               and_then (imported_page_scope env (src_functions srcs) cmpt d scope) (\<lambda>inner.
                 lower_nested rec (document_sources d)
                   (Some (SlotContext (component_children_to_statements cmpt) srcs slot)) (page_body (doc_page d)) inner)))"

subsection \<open>Slots\<close>

definition page_text :: "page_env \<Rightarrow> ax_function list \<Rightarrow> page_scope \<Rightarrow> ax_expr \<Rightarrow> eval_failure + string" where
  "page_text env functions scope e = and_then (page_eval env functions scope e) (\<lambda>v. Inr (as_string v))"

definition first_prop_text :: "page_env \<Rightarrow> ax_function list \<Rightarrow> page_scope \<Rightarrow> string list \<Rightarrow> ax_component \<Rightarrow> eval_failure + string option" where
  "first_prop_text env functions scope names cmpt =
     (case List.find (\<lambda>(name, e). name \<in> set names) (component_props cmpt) of
        None \<Rightarrow> Inr None
      | Some (name, e) \<Rightarrow> and_then (page_text env functions scope e) (\<lambda>t. Inr (Some t)))"

definition slot_name_expr :: "page_env \<Rightarrow> ax_function list \<Rightarrow> page_scope \<Rightarrow> ax_component \<Rightarrow> eval_failure + string option" where
  "slot_name_expr env functions scope cmpt = first_prop_text env functions scope [''name'', ''slot''] cmpt"

definition statement_slot_name :: "page_env \<Rightarrow> ax_function list \<Rightarrow> page_scope \<Rightarrow> ax_statement \<Rightarrow> eval_failure + string option" where
  "statement_slot_name env functions scope s =
     (case s of SmComponent cmpt \<Rightarrow> first_prop_text env functions scope [''slot''] cmpt | _ \<Rightarrow> Inr None)"

definition strip_slot_statement :: "ax_statement \<Rightarrow> ax_statement" where
  "strip_slot_statement s =
     (case s of
        SmComponent cmpt \<Rightarrow> SmComponent (AxComponent (component_name cmpt)
          (filter (\<lambda>p. fst p \<noteq> ''slot'') (component_props cmpt)) (component_style cmpt) (component_body cmpt))
      | _ \<Rightarrow> s)"

fun select_slot_statements :: "page_env \<Rightarrow> ax_function list \<Rightarrow> page_scope \<Rightarrow> string option \<Rightarrow> ax_statement list
    \<Rightarrow> eval_failure + ax_statement list" where
  "select_slot_statements env functions scope requested [] = Inr []"
| "select_slot_statements env functions scope requested (s # rest) =
     and_then (statement_slot_name env functions scope s) (\<lambda>name.
     and_then (select_slot_statements env functions scope requested rest) (\<lambda>selected.
       Inr (if name = requested then strip_slot_statement s # selected else selected)))"

definition lower_slot :: "page_env \<Rightarrow> lower_rec \<Rightarrow> slot_context option \<Rightarrow> ax_component \<Rightarrow> page_scope \<Rightarrow> eval_failure + ax_node list" where
  "lower_slot env rec slot cmpt scope =
     (case slot of
        None \<Rightarrow> Inr []
      | Some (SlotContext body srcs parent) \<Rightarrow>
          and_then (slot_name_expr env (src_functions srcs) scope cmpt) (\<lambda>requested.
          and_then (select_slot_statements env (src_functions srcs) scope requested body) (\<lambda>selected.
            lower_nested rec srcs parent selected scope)))"

definition lower_component_nodes :: "page_env \<Rightarrow> lower_rec \<Rightarrow> lowering_sources \<Rightarrow> slot_context option \<Rightarrow> ax_component
    \<Rightarrow> page_scope \<Rightarrow> lowered_nodes" where
  "lower_component_nodes env rec srcs slot cmpt scope =
     (let unscoped = (\<lambda>result. and_then result (\<lambda>nodes. Inr (nodes, scope))) in
      if component_name cmpt = ''Slot'' then unscoped (lower_slot env rec slot cmpt scope)
      else if component_name cmpt = ''Fragment'' then lower_component_children env rec srcs slot cmpt scope
      else case resolve_component (src_components srcs) (component_name cmpt) of
        Some def \<Rightarrow> unscoped (lower_local_component_nodes env rec srcs srcs slot cmpt def scope)
      | None \<Rightarrow>
          (case Option.bind (resolve_import (src_imports srcs) (component_name cmpt))
               (\<lambda>(binding, path). map_option (\<lambda>source. (binding, path, source)) (pg_import_source env path)) of
             Some (binding, path, source) \<Rightarrow>
               unscoped (lower_imported_component_nodes env rec srcs slot cmpt binding path scope source)
           | None \<Rightarrow> lower_component_node env rec srcs slot cmpt scope))"

subsection \<open>Lists\<close>

record each_progress =
  each_children :: "ax_node list"
  each_template :: "ax_node list option"
  each_keys :: "string list"
  each_kind :: "string option"

definition each_item_node :: "string \<Rightarrow> string \<Rightarrow> ax_node list \<Rightarrow> ax_node" where
  "each_item_node display identity cs =
     element_with_attrs ''ax-each-item''
       [attr ''style'' ''display: contents'', attr ''data-ax-each-key'' display, attr ''data-ax-each-key-id'' identity] cs"

text \<open>One item of a keyed list: its key must be of the kind of the keys before it, and new.\<close>

definition lower_keyed_item :: "page_env \<Rightarrow> lower_rec \<Rightarrow> lowering_sources \<Rightarrow> slot_context option \<Rightarrow> string \<Rightarrow> ax_expr
    \<Rightarrow> ax_statement list \<Rightarrow> string \<Rightarrow> page_scope \<Rightarrow> ax_value \<Rightarrow> each_progress \<Rightarrow> eval_failure + each_progress" where
  "lower_keyed_item env rec srcs slot binding key body path scope item st =
     (let nested = bm_insert each_render_binding (AvString binding) (bm_insert binding item scope) in
      and_then (page_eval env (src_functions srcs) nested key) (\<lambda>v.
      and_then (each_key_identity v) (\<lambda>(identity, display).
      and_then (ok_or (Raised InvalidEachKey) (map_option fst (split_once (CHR '':'') identity))) (\<lambda>kind.
        if each_kind st \<noteq> None \<and> each_kind st \<noteq> Some kind then Inl (Raised InvalidEachKey)
        else if identity \<in> set (each_keys st) then Inl (Raised (DuplicateEachKey display))
        else and_then (rec srcs slot body (bm_insert ax_render_path (AvString (path @ ''.key'' @ stable_key_hash identity)) nested))
          (\<lambda>(cs, nested').
            Inr \<lparr> each_children = each_children st @ [each_item_node display identity cs],
                  each_template = (if each_template st = None \<and> each_render_scope_is_supported nested'
                    \<and> list_all each_render_template_is_safe cs then Some cs else each_template st),
                  each_keys = each_keys st @ [identity], each_kind = Some kind \<rparr>)))))"

fun lower_keyed_items :: "page_env \<Rightarrow> lower_rec \<Rightarrow> lowering_sources \<Rightarrow> slot_context option \<Rightarrow> string \<Rightarrow> ax_expr
    \<Rightarrow> ax_statement list \<Rightarrow> string \<Rightarrow> page_scope \<Rightarrow> ax_value list \<Rightarrow> each_progress \<Rightarrow> eval_failure + each_progress" where
  "lower_keyed_items env rec srcs slot binding key body path scope [] st = Inr st"
| "lower_keyed_items env rec srcs slot binding key body path scope (item # items) st =
     and_then (lower_keyed_item env rec srcs slot binding key body path scope item st)
       (lower_keyed_items env rec srcs slot binding key body path scope items)"

definition each_start :: each_progress where
  "each_start = \<lparr> each_children = [], each_template = None, each_keys = [], each_kind = None \<rparr>"

definition each_empty_node :: "ax_node list \<Rightarrow> ax_node list" where
  "each_empty_node blank =
     (if blank = [] then [] else [element_with_attrs ''ax-each-empty'' [attr ''style'' ''display: contents''] blank])"

definition each_template_node :: "ax_node list option \<Rightarrow> ax_node list" where
  "each_template_node t =
     (case t of
        Some cs \<Rightarrow> [element_with_attrs ''template'' [attr ''data-ax-each-render-protocol'' ''ax-each-render/1''] cs]
      | None \<Rightarrow> [])"

fun is_template :: "ax_node \<Rightarrow> bool" where
  "is_template (NodeElement tag attrs cs) = (tag = ''template'')"
| "is_template _ = False"

definition each_attrs :: "string \<Rightarrow> ax_expr \<Rightarrow> each_state_binding option \<Rightarrow> string option \<Rightarrow> ax_node list \<Rightarrow> ax_attribute list" where
  "each_attrs binding key state kind children =
     [attr ''style'' ''display: contents'', attr ''data-ax-each-protocol'' ''ax-each/1'', attr ''data-ax-each-binding'' binding,
      attr ''data-ax-each-key-kind'' (or_default kind []),
      attr ''data-ax-each-key-path'' (or_default (each_key_path key binding) []),
      attr ''data-ax-each-render-status'' (if list_ex is_template children then ''ready'' else ''fallback'')]
     @ (case state of
          Some b \<Rightarrow> [attr ''data-ax-each-signal'' (each_signal b), attr ''data-ax-each-type'' (each_ty b),
            attr ''data-ax-each-initial'' (each_initial b)]
        | None \<Rightarrow> [])"

definition lower_keyed_each :: "page_env \<Rightarrow> lower_rec \<Rightarrow> lowering_sources \<Rightarrow> slot_context option \<Rightarrow> string \<Rightarrow> ax_expr
    \<Rightarrow> each_state_binding option \<Rightarrow> ax_statement list \<Rightarrow> ax_statement list \<Rightarrow> string \<Rightarrow> page_scope \<Rightarrow> ax_value list
    \<Rightarrow> eval_failure + ax_node" where
  "lower_keyed_each env rec srcs slot binding key state body empty_body path scope items =
     and_then
       (if items = [] then
          and_then (lower_nested rec srcs slot empty_body scope) (\<lambda>blank. Inr (each_start \<lparr> each_children := each_empty_node blank \<rparr>))
        else lower_keyed_items env rec srcs slot binding key body path scope items each_start)
       (\<lambda>st. let children = each_children st @ each_template_node (each_template st) in
          Inr (element_with_attrs ''ax-state-each'' (each_attrs binding key state (each_kind st) children) children))"

fun lower_plain_items :: "lower_rec \<Rightarrow> lowering_sources \<Rightarrow> slot_context option \<Rightarrow> string \<Rightarrow> ax_statement list \<Rightarrow> string
    \<Rightarrow> page_scope \<Rightarrow> nat \<Rightarrow> ax_value list \<Rightarrow> eval_failure + ax_node list" where
  "lower_plain_items rec srcs slot binding body path scope i [] = Inr []"
| "lower_plain_items rec srcs slot binding body path scope i (item # items) =
     and_then (lower_nested rec srcs slot body
         (bm_insert ax_render_path (AvString (path @ ''.each'' @ show_nat i)) (bm_insert binding item scope))) (\<lambda>nodes.
     and_then (lower_plain_items rec srcs slot binding body path scope (Suc i) items) (\<lambda>rest. Inr (nodes @ rest)))"

definition lower_each :: "page_env \<Rightarrow> lower_rec \<Rightarrow> lowering_sources \<Rightarrow> slot_context option \<Rightarrow> string \<Rightarrow> ax_expr option
    \<Rightarrow> each_state_binding option \<Rightarrow> ax_statement list \<Rightarrow> ax_statement list \<Rightarrow> string \<Rightarrow> page_scope \<Rightarrow> ax_value
    \<Rightarrow> eval_failure + ax_node list" where
  "lower_each env rec srcs slot binding key state body empty_body path scope source =
     (case source of
        AvList items \<Rightarrow>
          (case key of
             Some k \<Rightarrow> and_then (lower_keyed_each env rec srcs slot binding k state body empty_body path scope items)
               (\<lambda>node. Inr [node])
           | None \<Rightarrow>
               if items = [] then lower_nested rec srcs slot empty_body scope
               else lower_plain_items rec srcs slot binding body path scope 0 items)
      | _ \<Rightarrow> Inl (Raised EachRequiresList))"

subsection \<open>Pipelines\<close>

fun lower_stages :: "page_env \<Rightarrow> lower_rec \<Rightarrow> lowering_sources \<Rightarrow> slot_context option \<Rightarrow> page_scope \<Rightarrow> pipeline_stage list
    \<Rightarrow> eval_failure + ax_node list" where
  "lower_stages env rec srcs slot scope [] = Inr []"
| "lower_stages env rec srcs slot scope (StageEach binding # stages) =
     and_then (lower_stages env rec srcs slot scope stages) (\<lambda>rest.
       Inr (element_with_attrs ''div'' [attr ''data-stage'' ''each'', attr ''data-binding'' binding] [] # rest))"
| "lower_stages env rec srcs slot scope (StageComponent cmpt # stages) =
     and_then (lower_component_nodes env rec srcs slot cmpt scope) (\<lambda>(nodes, nested).
     and_then (lower_stages env rec srcs slot scope stages) (\<lambda>rest. Inr (nodes @ rest)))"

definition lower_pipeline :: "page_env \<Rightarrow> lower_rec \<Rightarrow> lowering_sources \<Rightarrow> slot_context option \<Rightarrow> ax_expr \<Rightarrow> pipeline_stage list
    \<Rightarrow> page_scope \<Rightarrow> eval_failure + ax_node" where
  "lower_pipeline env rec srcs slot source stages scope =
     and_then (page_eval env (src_functions srcs) scope source) (\<lambda>v.
     and_then (lower_stages env rec srcs slot scope stages) (\<lambda>nodes.
       Inr (element_with_attrs ''section''
         (attr ''data-ax-pipeline'' ''true''
           # (case v of AvList items \<Rightarrow> [attr ''data-items'' (show_nat (length items))] | _ \<Rightarrow> []))
         (NodeText (as_string v) # nodes))))"

subsection \<open>Statements\<close>

definition bind_data :: "string \<Rightarrow> ax_expr \<Rightarrow> ax_value \<Rightarrow> page_scope \<Rightarrow> page_scope" where
  "bind_data name e v scope =
     (let scope1 = bm_insert name v scope in
      case each_render_path e scope1 of
        Some path \<Rightarrow> bm_insert (each_param_prefix @ name) (AvString path) scope1
      | None \<Rightarrow> mark_if_references e scope1)"

definition match_body :: "(string \<times> ax_statement list) list \<Rightarrow> ax_statement list option \<Rightarrow> string \<Rightarrow> ax_statement list" where
  "match_body cases dflt v =
     (case List.find (\<lambda>(c, body). c = v) cases of
        Some (c, body) \<Rightarrow> body
      | None \<Rightarrow> (case dflt of Some body \<Rightarrow> body | None \<Rightarrow> []))"

definition lower_branch :: "lower_rec \<Rightarrow> lowering_sources \<Rightarrow> slot_context option \<Rightarrow> string \<Rightarrow> ax_statement list \<Rightarrow> page_scope
    \<Rightarrow> eval_failure + ax_node list" where
  "lower_branch rec srcs slot path body scope =
     (if body = [] then Inr [] else lower_nested rec srcs slot body (bm_insert ax_render_path (AvString path) scope))"

fun lower_statement :: "page_env \<Rightarrow> lower_rec \<Rightarrow> lowering_sources \<Rightarrow> slot_context option \<Rightarrow> string \<Rightarrow> ax_statement
    \<Rightarrow> page_scope \<Rightarrow> lowered_nodes" where
  "lower_statement env rec srcs slot path (SmData name e) scope =
     and_then (page_eval env (src_functions srcs) scope e) (\<lambda>v. Inr ([], bind_data name e v scope))"
| "lower_statement env rec srcs slot path (SmEach binding source key state body empty_body) scope =
     (let scope1 = mark_if_references source scope in
      and_then (page_eval env (src_functions srcs) scope1 source) (\<lambda>v.
      and_then (lower_each env rec srcs slot binding key state body empty_body path scope1 v) (\<lambda>nodes. Inr (nodes, scope1))))"
| "lower_statement env rec srcs slot path (SmIf condition body else_body) scope =
     (let scope1 = mark_if_references condition scope in
      and_then (page_eval env (src_functions srcs) scope1 condition) (\<lambda>v.
      and_then (lower_branch rec srcs slot (path @ ''.if'' @ (if is_truthy v then ''1'' else ''0''))
          (if is_truthy v then body else else_body) scope1) (\<lambda>nodes. Inr (nodes, scope1))))"
| "lower_statement env rec srcs slot path (SmMatch e cases dflt) scope =
     (let scope1 = mark_if_references e scope in
      and_then (page_text env (src_functions srcs) scope1 e) (\<lambda>v.
      and_then (lower_branch rec srcs slot (path @ ''.match'') (match_body cases dflt v) scope1) (\<lambda>nodes. Inr (nodes, scope1))))"
| "lower_statement env rec srcs slot path (SmText e) scope =
     and_then (lower_each_render_text env (src_functions srcs) e scope) (\<lambda>(node, scope1). Inr ([node], scope1))"
| "lower_statement env rec srcs slot path (SmComponent cmpt) scope = lower_component_nodes env rec srcs slot cmpt scope"
| "lower_statement env rec srcs slot path (SmPipeline source stages) scope =
     (let scope1 = mark_if_references source scope in
      and_then (lower_pipeline env rec srcs slot source stages scope1) (\<lambda>node. Inr ([node], scope1)))"

fun lower_sequence :: "page_env \<Rightarrow> lower_rec \<Rightarrow> lowering_sources \<Rightarrow> slot_context option \<Rightarrow> string \<Rightarrow> nat \<Rightarrow> ax_statement list
    \<Rightarrow> page_scope \<Rightarrow> lowered_nodes" where
  "lower_sequence env rec srcs slot parent i [] scope = Inr ([], scope)"
| "lower_sequence env rec srcs slot parent i (s # rest) scope =
     (let path = parent @ ''.'' @ show_nat i in
      and_then (lower_statement env rec srcs slot path s (bm_insert ax_render_path (AvString path) scope)) (\<lambda>(nodes, scope1).
      and_then (lower_sequence env rec srcs slot parent (Suc i) rest scope1) (\<lambda>(nodes', scope2). Inr (nodes @ nodes', scope2))))"

definition unsupported_node :: ax_node where
  "unsupported_node = element_with_attrs ''ax-each-render-unsupported'' [attr ''hidden'' ''true''] []"

definition lower_block :: "page_env \<Rightarrow> lower_rec \<Rightarrow> lower_rec" where
  "lower_block env rec srcs slot body scope =
     and_then (lower_sequence env rec srcs slot (render_path scope) 0 body scope) (\<lambda>(nodes, scope1).
       let scope2 = bm_insert ax_render_path (AvString (render_path scope)) scope1 in
       Inr (nodes @ (if each_render_scope_is_supported scope \<and> \<not> each_render_scope_is_supported scope2
              \<and> bm_get scope2 each_render_binding \<noteq> None then [unsupported_node] else []), scope2))"

fun lower_statements :: "page_env \<Rightarrow> nat \<Rightarrow> lower_rec" where
  "lower_statements env 0 srcs slot body scope = Inl Diverges"
| "lower_statements env (Suc n) srcs slot body scope = lower_block env (lower_statements env n) srcs slot body scope"

definition lower_document :: "page_env \<Rightarrow> nat \<Rightarrow> ax_document \<Rightarrow> page_scope \<Rightarrow> eval_failure + ax_node" where
  "lower_document env n d scope =
     and_then (apply_params_to_scope env (doc_functions d) (page_params (doc_page d))
         (bm_insert ax_render_path (AvString ''0'') scope)) (\<lambda>inner.
     and_then (lower_statements env n (document_sources d) None (page_body (doc_page d)) inner) (\<lambda>(children, _).
       Inr (element_with_attrs ''main'' [attr ''data-ax-page'' (page_name (doc_page d)), attr ''data-ax-root'' ''page''] children)))"

end
