(* ===== verification/Page_Correct.thy ===== *)
theory Page_Correct
  imports Page_Lower
begin

section \<open>What lowered pages keep\<close>

text \<open>
  What the theories on lowered pages share: the induction on the fuel of \<open>lower_statements\<close>, the names a lowering step
  leaves alone with lexical scoping as its consequence, and pages to test with.
\<close>

subsection \<open>Induction on the fuel\<close>

text \<open>What holds when there is no fuel, and of a block lowered by a function of which it holds, holds of
  \<open>lower_statements\<close>.\<close>

lemma lower_statements_contract:
  assumes "\<And>srcs slot body scope. P srcs slot body scope (Inl Diverges)"
    and "\<And>rec srcs slot body scope. (\<And>srcs slot body scope. P srcs slot body scope (rec srcs slot body scope))
      \<Longrightarrow> P srcs slot body scope (lower_block env rec srcs slot body scope)"
  shows "P srcs slot body scope (lower_statements env n srcs slot body scope)"
proof (induction n arbitrary: srcs slot body scope)
  case (Suc n)
  show ?case using assms(2) [of "lower_statements env n"] Suc by simp
qed (simp add: assms(1))

lemma lower_statements_Inr:
  "lower_statements env n srcs slot body scope = Inr r \<Longrightarrow> \<exists>rec. lower_block env rec srcs slot body scope = Inr r"
  by (cases n) auto

subsection \<open>Names of the scope\<close>

lemma found_member: "List.find Q xs = Some x \<Longrightarrow> x \<in> set xs \<and> Q x"
  by (induction xs) (auto split: if_splits)

definition internal_name :: "string \<Rightarrow> bool" where
  "internal_name name = starts_with ''__ax_'' name"

definition same_names :: "page_scope \<Rightarrow> page_scope \<Rightarrow> bool" where
  "same_names scope scope' = (\<forall>x. \<not> internal_name x \<longrightarrow> bm_get scope' x = bm_get scope x)"

named_theorems names_kept

lemma same_names_refl [simp]: "same_names scope scope"
  by (simp add: same_names_def)

lemma same_names_trans: "same_names a b \<Longrightarrow> same_names b c \<Longrightarrow> same_names a c"
  by (simp add: same_names_def)

lemma same_names_insert: "internal_name k \<Longrightarrow> same_names scope scope' \<Longrightarrow> same_names scope (bm_insert k v scope')"
  by (auto simp: same_names_def bm_get_insert)

lemma internal_names [simp]:
  "internal_name ax_render_path" "internal_name component_instance_key" "internal_name each_render_binding"
  "internal_name (each_param_prefix @ x)" "internal_name each_unsupported_key"
  by (simp_all add: internal_name_def starts_with_def ax_render_path_def component_instance_key_def each_render_binding_def
    each_param_prefix_def each_unsupported_key_def)

lemma mark_names [names_kept]: "same_names scope scope' \<Longrightarrow> same_names scope (mark_each_render_unsupported scope')"
  by (simp add: mark_each_render_unsupported_def same_names_insert)

lemma mark_if_names [names_kept]: "same_names scope scope' \<Longrightarrow> same_names scope (mark_if_references e scope')"
  by (simp add: mark_if_references_def names_kept)

lemma text_names: "lower_each_render_text env fns e scope = Inr (node, scope') \<Longrightarrow> same_names scope scope'"
  by (auto simp: lower_each_render_text_def and_then_Inr_iff names_kept split: option.splits)

lemma bind_prop_names: "same_names scope (snd acc) \<Longrightarrow> same_names scope (snd (bind_prop c attrs p acc))"
  by (cases p; cases acc) (simp add: bind_prop_def names_kept split: option.split)

lemma bind_props_names: "same_names scope (snd acc) \<Longrightarrow> same_names scope (snd (foldl (\<lambda>acc p. bind_prop c attrs p acc) acc ps))"
  by (induction ps arbitrary: acc) (simp_all add: bind_prop_names)

lemma bind_style_names: "same_names scope (snd acc) \<Longrightarrow> same_names scope (snd (bind_style style acc))"
  by (cases acc) (simp add: bind_style_def Let_def names_kept split: option.split)

lemma attach_names: "attach_each_render_attributes env cmpt node scope = (node', scope') \<Longrightarrow> same_names scope scope'"
proof (induction env cmpt node scope rule: attach_each_render_attributes.induct)
  case (1 env cmpt tag attrs cs scope)
  have "same_names scope (snd (bind_style (component_style cmpt)
      (foldl (\<lambda>acc prop. bind_prop (component_name cmpt) attrs prop acc) ([], scope) (component_props cmpt))))"
    by (intro bind_style_names bind_props_names) simp
  with 1 show ?case by (auto split: prod.splits)
qed auto

lemma children_names: "lower_component_children env rec srcs slot cmpt scope = Inr (nodes, scope') \<Longrightarrow> same_names scope scope'"
  by (auto simp: lower_component_children_def and_then_Inr_iff split: markup_body.splits prod.splits dest: text_names)

lemma lower_component_node_Inr:
  assumes "lower_component_node env rec srcs slot cmpt scope = Inr (nodes, scope')"
  obtains cs scope1 props attrs node where "lower_component_children env rec srcs slot cmpt scope = Inr (cs, scope1)"
    "eval_props env (src_functions srcs) cmpt scope1 = Inr props"
    "style_attrs env (src_functions srcs) (component_style cmpt) scope1 = Inr attrs"
    "attach_each_render_attributes env cmpt (component_element env (src_imports srcs) cmpt scope1 attrs props cs) scope1 = (node, scope')"
    "nodes = [node]"
proof -
  from assms obtain cs scope1 props attrs where 1: "lower_component_children env rec srcs slot cmpt scope = Inr (cs, scope1)"
      "eval_props env (src_functions srcs) cmpt scope1 = Inr props"
      "style_attrs env (src_functions srcs) (component_style cmpt) scope1 = Inr attrs"
    and out: "(case attach_each_render_attributes env cmpt (component_element env (src_imports srcs) cmpt scope1 attrs props cs) scope1 of
        (node, s) \<Rightarrow> Inr ([node], s)) = (Inr (nodes, scope') :: lowered_nodes)"
    by (auto simp: lower_component_node_def and_then_Inr_iff)
  obtain node s where at: "attach_each_render_attributes env cmpt
      (component_element env (src_imports srcs) cmpt scope1 attrs props cs) scope1 = (node, s)" by force
  with out have "nodes = [node]" "s = scope'" by simp_all
  with that 1 at show thesis by blast
qed

lemma node_names: "lower_component_node env rec srcs slot cmpt scope = Inr (nodes, scope') \<Longrightarrow> same_names scope scope'"
  by (elim lower_component_node_Inr) (blast dest: children_names attach_names intro: same_names_trans)

lemma component_names: "lower_component_nodes env rec srcs slot cmpt scope = Inr (nodes, scope') \<Longrightarrow> same_names scope scope'"
  by (auto simp: lower_component_nodes_def and_then_Inr_iff Let_def split: if_splits option.splits dest: children_names node_names)

fun data_names :: "ax_statement list \<Rightarrow> string set" where
  "data_names [] = {}"
| "data_names (SmData name e # rest) = insert name (data_names rest)"
| "data_names (s # rest) = data_names rest"

lemma statement_names:
  assumes "lower_statement env rec srcs slot path s scope = Inr (nodes, scope')" and "x \<notin> data_names [s]" and "\<not> internal_name x"
  shows "bm_get scope' x = bm_get scope x"
proof (cases s)
  case (SmData name e)
  with assms show ?thesis
    by (auto simp: bind_data_def Let_def and_then_Inr_iff mark_if_references_def mark_each_render_unsupported_def bm_get_insert
      split: option.splits if_splits)
next
  case (SmComponent cmpt)
  with assms show ?thesis by (auto dest!: component_names simp: same_names_def)
next
  case (SmText e)
  with assms show ?thesis by (auto dest!: text_names simp: same_names_def and_then_Inr_iff)
qed (use assms mark_if_names [OF same_names_refl, of scope] in \<open>auto simp: same_names_def and_then_Inr_iff Let_def\<close>)

lemma data_names_Cons: "data_names (s # rest) = data_names [s] \<union> data_names rest"
  by (cases s) auto

lemma sequence_names:
  "lower_sequence env rec srcs slot parent i body scope = Inr (nodes, scope') \<Longrightarrow> x \<notin> data_names body \<Longrightarrow> \<not> internal_name x
   \<Longrightarrow> bm_get scope' x = bm_get scope x"
proof (induction body arbitrary: i scope nodes)
  case (Cons s rest)
  have "x \<noteq> ax_render_path" using Cons.prems(3) by auto
  with Cons show ?case
    by (fastforce simp: and_then_Inr_iff Let_def data_names_Cons [of s rest] dest: statement_names)
qed simp

text \<open>C10. Lexical scoping: after a body is lowered, every name of the scope that none of its own \<open>let\<close> statements
  binds has the value it had before, whatever its lists, branches, components and slots bound, and the render
  path is that of the body again.\<close>

theorem nested_bodies_keep_scope:
  assumes "lower_statements env n srcs slot body scope = Inr (nodes, scope')"
  shows "(\<forall>x. x \<notin> data_names body \<and> \<not> internal_name x \<longrightarrow> bm_get scope' x = bm_get scope x)
    \<and> render_path scope' = render_path scope"
proof -
  from lower_statements_Inr [OF assms] obtain rec where block: "lower_block env rec srcs slot body scope = Inr (nodes, scope')" ..
  then obtain ns scope1 where seq: "lower_sequence env rec srcs slot (render_path scope) 0 body scope = Inr (ns, scope1)"
    and out: "scope' = bm_insert ax_render_path (AvString (render_path scope)) scope1"
    by (auto simp: lower_block_def and_then_Inr_iff Let_def)
  have "bm_get scope' x = bm_get scope x" if "x \<notin> data_names body" "\<not> internal_name x" for x
    using sequence_names [OF seq] internal_names(1) that by (auto simp: out bm_get_insert)
  moreover have "render_path scope \<noteq> []" by (auto simp: render_path_def split: option.split)
  then have "render_path scope' = render_path scope"
    by (simp add: out render_path_def [of "bm_insert _ _ _"] scope_text_def)
  ultimately show ?thesis by blast
qed

subsection \<open>A page to test with\<close>

definition demo_page_env :: page_env where
  "demo_page_env = \<lparr> pg_checks = True, pg_fuel = 4, pg_resolver = (\<lambda>path args. None), pg_import_source = (\<lambda>source. None),
     pg_parse = (\<lambda>source. Inl ''no parser''), pg_json_text = (\<lambda>j. ''[]'') \<rparr>"

definition no_style :: ax_style where
  "no_style = \<lparr> style_recipe = None, style_class = None \<rparr>"

definition no_sources :: lowering_sources where
  "no_sources = \<lparr> src_functions = [], src_imports = [], src_components = [] \<rparr>"

definition no_head :: ax_head where
  "no_head = \<lparr> head_title = None, head_theme = None, head_storage_key = None, head_preflight = False, head_metas = [], head_links = [],
     head_scripts = [] \<rparr>"

definition demo_document :: "ax_statement list \<Rightarrow> ax_document" where
  "demo_document body = \<lparr> doc_imports = [], doc_functions = [], doc_components = [], doc_head = no_head,
     doc_page = \<lparr> page_name = ''Home'', page_params = [], page_body = body \<rparr> \<rparr>"

definition box_component :: component_def where
  "box_component = \<lparr> cd_name = ''Box'', cd_params = [\<lparr> param_name = ''title'', param_ty = None, param_literal_values = [], param_default = None \<rparr>],
     cd_states = [], cd_body = [SmComponent (AxComponent ''Slot'' [] no_style BodyEmpty)] \<rparr>"

lemmas page_names = ax_render_path_def component_instance_key_def each_render_binding_def each_param_prefix_def each_unsupported_key_def

lemmas page_unfold = demo_page_env_def no_style_def no_sources_def page_eval_def lower_block_def Let_def lower_component_nodes_def
  resolve_component_def resolve_import_def lower_component_node_def lower_component_children_def lower_nested_def eval_props_def
  style_attrs_def style_attr_def lower_each_render_text_def each_render_path_def scope_text_def mark_if_references_def
  mark_each_render_unsupported_def each_render_scope_is_supported_def render_path_def bind_style_def bind_data_def
  materialize_component_state_signal_def page_names bm_get_def bm_remove_def bm_of_list_def lower_local_component_nodes_def
  component_scope_def propagate_each_render_params_def component_passthrough_attrs_def apply_attrs_to_first_element_def literal_allowed_def
  lower_slot_def slot_name_expr_def first_prop_text_def statement_slot_name_def component_children_to_statements_def starts_with_def

theorem nested_bodies_keep_scope_witness:
  "lower_statements demo_page_env 2 no_sources None [SmIf (ExBool True) [SmData ''x'' (ExNumber 2)] []] [(''x'', AvNumber 1)]
     = Inr ([], [(''__ax_render_path'', AvString ''0''), (''x'', AvNumber 1)])
   \<and> bm_get [(''__ax_render_path'', AvString ''0''), (''x'', AvNumber 1)] ''x'' = Some (AvNumber 1)"
proof -
  have run: "lower_statements demo_page_env 2 no_sources None [SmIf (ExBool True) [SmData ''x'' (ExNumber 2)] []] [(''x'', AvNumber 1)]
      = Inr ([], [(''__ax_render_path'', AvString ''0''), (''x'', AvNumber 1)])"
    by (simp add: numeral_2_eq_2 page_unfold lower_branch_def)
  have "''x'' \<notin> data_names [SmIf (ExBool True) [SmData ''x'' (ExNumber 2)] []] \<and> \<not> internal_name ''x''"
    by (simp add: internal_name_def starts_with_def)
  with nested_bodies_keep_scope [OF run] have "bm_get [(''__ax_render_path'', AvString ''0''), (''x'', AvNumber 1)] ''x''
      = bm_get [(''x'', AvNumber 1)] ''x''" by blast
  with run show ?thesis by (simp add: bm_get_def)
qed

end
