(* ===== verification/Page_Safe.thy ===== *)
theory Page_Safe
  imports Page_Correct
begin

section \<open>Pages in which data stays data\<close>

text \<open>
  A page is safe when it uses neither raw HTML nor a tag chosen by a value, leaves out script and style, and
  names its properties with the characters of HTML names. Every node a safe page is lowered to is
  a named element or a text, so its HTML reads back as that tree.
\<close>

subsection \<open>Safe pages\<close>

definition safe_props :: "string \<Rightarrow> (string \<times> ax_expr) list \<Rightarrow> bool" where
  "safe_props name props =
     (name \<notin> {''Html'', ''script'', ''style''} \<and> list_all (\<lambda>(prop, e). valid_name prop) props
      \<and> (name = ''Copy'' \<longrightarrow> list_all (\<lambda>(prop, e). prop \<noteq> ''as'' \<and> prop \<noteq> ''tag'') props))"

fun safe_statement :: "ax_statement \<Rightarrow> bool"
  and safe_component :: "ax_component \<Rightarrow> bool"
  and safe_body :: "markup_body \<Rightarrow> bool"
  and safe_stage :: "pipeline_stage \<Rightarrow> bool"
  and safe_cases :: "(string \<times> ax_statement list) list \<Rightarrow> bool" where
  "safe_statement (SmData name e) = True"
| "safe_statement (SmEach binding source key state body blank) = (list_all safe_statement body \<and> list_all safe_statement blank)"
| "safe_statement (SmIf e body els) = (list_all safe_statement body \<and> list_all safe_statement els)"
| "safe_statement (SmMatch e cases dflt) =
     (safe_cases cases \<and> (case dflt of Some body \<Rightarrow> list_all safe_statement body | None \<Rightarrow> True))"
| "safe_statement (SmText e) = True"
| "safe_statement (SmComponent cmpt) = safe_component cmpt"
| "safe_statement (SmPipeline e stages) = list_all safe_stage stages"
| "safe_component (AxComponent name props style body) = (safe_props name props \<and> safe_body body)"
| "safe_body BodyEmpty = True"
| "safe_body (BodyInline e) = True"
| "safe_body (BodyBlock body) = list_all safe_statement body"
| "safe_stage (StageComponent cmpt) = safe_component cmpt"
| "safe_stage (StageEach binding) = True"
| "safe_cases [] = True"
| "safe_cases ((c, body) # cases) = (list_all safe_statement body \<and> safe_cases cases)"

definition safe_sources :: "lowering_sources \<Rightarrow> bool" where
  "safe_sources srcs = list_all (\<lambda>c. list_all safe_statement (cd_body c)) (src_components srcs)"

definition safe_document :: "ax_document \<Rightarrow> bool" where
  "safe_document d = (safe_sources (document_sources d) \<and> list_all safe_statement (page_body (doc_page d)))"

fun safe_slot :: "slot_context option \<Rightarrow> bool" where
  "safe_slot None = True"
| "safe_slot (Some (SlotContext body srcs parent)) = (list_all safe_statement body \<and> safe_sources srcs \<and> safe_slot parent)"

text \<open>The documents the application imports are safe as well.\<close>

definition safe_imports :: "page_env \<Rightarrow> bool" where
  "safe_imports env = (\<forall>source d. pg_parse env source = Inr d \<longrightarrow> safe_document d)"

subsection \<open>Attributes\<close>

definition attrs_ok :: "ax_attribute list \<Rightarrow> bool" where
  "attrs_ok attrs = list_all (\<lambda>a. valid_name (attr_name a)) attrs"

definition props_ok :: "prop_map \<Rightarrow> bool" where
  "props_ok props = list_all (\<lambda>(name, v). valid_name name) props"

named_theorems page_safe

lemma attrs_ok_simps [simp]:
  "attrs_ok []" "attrs_ok (a # attrs) \<longleftrightarrow> valid_name (attr_name a) \<and> attrs_ok attrs"
  "attrs_ok (attrs @ attrs') \<longleftrightarrow> attrs_ok attrs \<and> attrs_ok attrs'"
  by (simp_all add: attrs_ok_def)

lemma attr_name_attr [simp]: "attr_name (attr name v) = name" "attr_value (attr name v) = v"
  by (simp_all add: attr_def)

lemma valid_literals [simp]:
  "valid_name (CHR ''d'' # s) \<longleftrightarrow> list_all name_char s" "valid_name ''class''" "valid_name ''style''" "valid_name ''method''"
  "valid_name ''action''" "valid_name ''type''" "valid_name ''name''" "valid_name ''value''" "valid_name ''hidden''"
  "valid_name ''max''" "valid_name ''aria-hidden''" "name_char (CHR ''-'')"
  by (simp_all add: valid_name_def name_char_def is_alphanumeric_def is_digit_def code_def)

lemma attrs_ok_subset: "attrs_ok attrs \<Longrightarrow> set attrs' \<subseteq> set attrs \<Longrightarrow> attrs_ok attrs'"
  by (auto simp: attrs_ok_def list_all_iff)

lemma props_ok_subset: "props_ok props \<Longrightarrow> set props' \<subseteq> set props \<Longrightarrow> props_ok props'"
  unfolding props_ok_def list_all_iff by blast

lemma props_ok_remove [page_safe]: "props_ok props \<Longrightarrow> props_ok (bm_remove name props)"
  by (erule props_ok_subset) (auto simp: bm_remove_def)

lemma take_prop_ok: "props_ok props \<Longrightarrow> props_ok (snd (take_prop props names))"
  by (induction names) (auto simp: page_safe split: option.split)

lemma prop_string_ok [page_safe]: "prop_string props names = (v, props') \<Longrightarrow> props_ok props \<Longrightarrow> props_ok props'"
  using take_prop_ok [of props names] by (auto simp: prop_string_def split: prod.splits)

lemma prop_bool_ok [page_safe]: "prop_bool props names = (v, props') \<Longrightarrow> props_ok props \<Longrightarrow> props_ok props'"
  using take_prop_ok [of props names] by (auto simp: prop_bool_def split: prod.splits)

lemma push_mapped_ok:
  "attrs_ok attrs \<Longrightarrow> props_ok props \<Longrightarrow> list_all (\<lambda>(p, n). valid_name n) ms \<Longrightarrow> push_mapped_props ms attrs props = (attrs', props')
   \<Longrightarrow> attrs_ok attrs' \<and> props_ok props'"
  by (induction ms attrs props rule: push_mapped_props.induct) (auto simp: page_safe split: option.splits)

lemma push_behavior_ok:
  assumes "push_behavior_props attrs props = (attrs', props')" and "attrs_ok attrs" and "props_ok props"
  shows "attrs_ok attrs' \<and> props_ok props'"
  using assms(1) unfolding push_behavior_props_def
  by (rule push_mapped_ok [OF assms(2,3), rotated]) (simp add: name_char_def is_alphanumeric_def is_digit_def code_def)

lemma remaining_name_valid: "valid_name name \<Longrightarrow> valid_name (remaining_name name)"
  by (auto simp: remaining_name_def valid_name_def name_char_def is_alphanumeric_def is_digit_def code_def)

lemma remaining_ok: "attrs_ok attrs \<Longrightarrow> props_ok props \<Longrightarrow> attrs_ok (push_remaining_props attrs props)"
  by (auto simp: push_remaining_props_def attrs_ok_def props_ok_def list_all_iff remaining_name_valid)

lemma native_ok: "attrs_ok attrs \<Longrightarrow> props_ok props \<Longrightarrow> attrs_ok (push_native_props attrs props)"
  by (auto simp: push_native_props_def attrs_ok_def props_ok_def list_all_iff)

lemma prepend_class_ok: "attrs_ok attrs \<Longrightarrow> prepend_class_attr attrs cls = Some attrs' \<Longrightarrow> attrs_ok attrs'"
  by (induction attrs arbitrary: attrs') (auto split: if_splits)

lemma with_class_ok [page_safe]: "attrs_ok attrs \<Longrightarrow> attrs_ok (with_class cls attrs)"
  by (auto simp: with_class_def dest: prepend_class_ok split: option.split)

lemma insert_attr_ok [page_safe]: "attrs_ok attrs \<Longrightarrow> valid_name (attr_name a) \<Longrightarrow> attrs_ok (insert_attr n a attrs)"
  by (auto simp: insert_attr_def intro: attrs_ok_subset dest: in_set_takeD in_set_dropD)

subsection \<open>Elements\<close>

definition safe_tag :: "string \<Rightarrow> bool" where
  "safe_tag tag = (valid_name tag \<and> tag \<notin> {''script'', ''style''})"

lemma node_ok_element [simp]:
  "node_ok (element_with_attrs tag attrs cs)
     \<longleftrightarrow> safe_tag tag \<and> attrs_ok attrs \<and> list_all node_ok cs"
  by (simp add: element_with_attrs_def attrs_ok_def safe_tag_def)

lemma finish_ok:
  "safe_tag tag \<Longrightarrow> attrs_ok attrs \<Longrightarrow> props_ok props \<Longrightarrow> list_all node_ok cs \<Longrightarrow> node_ok (finish_element tag attrs props cs)"
  by (auto simp: finish_element_def remaining_ok dest: push_behavior_ok split: prod.split)

lemma safe_tags [simp]:
  "safe_tag ''div''" "safe_tag ''ax-state-if''" "safe_tag ''ax-state-branch''" "safe_tag ''ax-state-match''"
  "safe_tag ''ax-state-match-branch''" "safe_tag ''ax-expression''" "safe_tag ''article''" "safe_tag ''p''" "safe_tag ''button''"
  "safe_tag ''form''" "safe_tag ''progress''" "safe_tag ''h2''" "safe_tag ''input''" "safe_tag ''ax-each-value''"
  "safe_tag ''ax-each-item''" "safe_tag ''ax-each-empty''" "safe_tag ''template''" "safe_tag ''ax-state-each''" "safe_tag ''section''"
  "safe_tag ''ax-each-render-unsupported''" "safe_tag ''main''"
  by (simp_all add: safe_tag_def valid_name_def name_char_def is_alphanumeric_def is_digit_def code_def)

lemmas name_chars = name_char_def is_alphanumeric_def is_digit_def code_def

lemma each_value_ok [simp]: "node_ok (each_value_node path v)"
  by (simp add: each_value_node_def name_chars)

lemma contents_ok: "safe_tag tag \<Longrightarrow> attrs_ok attrs \<Longrightarrow> props_ok props \<Longrightarrow> list_all node_ok cs \<Longrightarrow> node_ok (contents_element tag attrs props cs)"
  by (simp add: contents_element_def remaining_ok)

lemma visibility_ok [simp]: "attrs_ok (branch_visibility h)"
  by (simp add: branch_visibility_def)

lemma branches_ok:
  assumes "attrs_ok attrs" and "props_ok props" and "list_all node_ok cs"
  shows "node_ok (state_if_branch b attrs props cs)" and "node_ok (state_match_branch b attrs props cs)"
  using assms by (auto simp: state_if_branch_def state_match_branch_def name_chars page_safe
    split: prod.split option.split if_splits intro!: native_ok)

lemma layout_ok:
  assumes "attrs_ok attrs" and "props_ok props" and "list_all node_ok cs"
  shows "node_ok (container_element attrs props cs)" and "node_ok (grid_element attrs props cs)"
    and "node_ok (card_element cmpt scope attrs props cs)" and "node_ok (action_status_element attrs props cs)"
    and "node_ok (action_progress_element attrs props cs)" and "node_ok (import_element name binding source attrs props cs)"
  using assms by (auto simp: container_element_def grid_element_def card_element_def action_status_element_def
    action_progress_element_def import_element_def name_chars page_safe split: prod.split option.split intro!: finish_ok)

lemma take_prop_absent: "list_all (\<lambda>name. bm_get props name = None) names \<Longrightarrow> take_prop props names = (None, props)"
  by (induction names) auto

lemma copy_ok:
  assumes "attrs_ok attrs" and "props_ok props" and "list_all node_ok cs" and "bm_get props ''as'' = None" and "bm_get props ''tag'' = None"
  shows "node_ok (copy_element attrs props cs)"
  using assms by (simp add: copy_element_def prop_string_def take_prop_absent or_default_def finish_ok page_safe)

lemma button_ok:
  assumes "attrs_ok attrs" and "props_ok props" and "list_all node_ok cs"
  shows "node_ok (button_element attrs props cs)"
proof -
  obtain attrs' props' where out: "push_selected_native_props (with_class ''ax-button'' attrs) props [''type'', ''name'', ''value'', ''form''] = (attrs', props')"
    by force
  have "attrs_ok attrs' \<and> props_ok props'"
    using out unfolding push_selected_native_props_def
    by (rule push_mapped_ok [rotated 3]) (use assms in \<open>simp_all add: page_safe valid_name_def name_chars\<close>)
  with out assms show ?thesis by (simp add: button_element_def finish_ok)
qed

lemma form_ok:
  assumes "attrs_ok attrs" and "props_ok props" and "list_all node_ok cs"
  shows "node_ok (action_form_element env attrs props cs)"
  using assms by (auto simp: action_form_element_def form_action_def patch_field_def page_safe
    split: prod.splits option.splits intro!: finish_ok)

lemma native_tag_valid: "is_native_html_tag tag \<Longrightarrow> valid_name tag"
  by (auto simp: is_native_html_tag_def valid_name_def is_ascii_lowercase_def name_chars list_all_iff less_eq_char_def split: list.splits)

lemma native_element_ok:
  assumes "safe_tag tag" and "attrs_ok attrs" and "props_ok props" and "list_all node_ok cs"
  shows "node_ok (native_element tag attrs props cs)"
  using assms by (auto simp: native_element_def native_ok dest: push_behavior_ok split: prod.split)

lemma ok_if: "(b \<Longrightarrow> node_ok x) \<Longrightarrow> (\<not> b \<Longrightarrow> node_ok y) \<Longrightarrow> node_ok (if b then x else y)"
  by simp

lemma component_element_ok:
  assumes "safe_props (component_name cmpt) ps" and "fst ` set props \<subseteq> fst ` set ps" and "attrs_ok attrs" and "list_all node_ok cs"
  shows "node_ok (component_element env imports cmpt scope attrs props cs)"
proof -
  from assms(1,2) have props: "props_ok props"
    by (fastforce simp: safe_props_def props_ok_def list_all_iff)
  have copy: "bm_get props ''as'' = None \<and> bm_get props ''tag'' = None" if "component_name cmpt = ''Copy''"
    using assms(1,2) that by (fastforce simp: safe_props_def list_all_iff bm_get_None_iff)
  have native: "safe_tag (component_name cmpt)" if "is_native_html_tag (component_name cmpt)"
    using assms(1) native_tag_valid [OF that] by (simp add: safe_props_def safe_tag_def)
  have html: "component_name cmpt \<noteq> ''Html''" using assms(1) by (simp add: safe_props_def)
  show ?thesis
  proof (cases "resolve_import imports (component_name cmpt)")
    case (Some p)
    with assms(3,4) props show ?thesis by (cases p) (simp add: component_element_def layout_ok)
  next
    case None
    have other: "attrs_ok (attr ''data-component'' (component_name cmpt) # attrs)"
      using assms(3) by (simp add: name_chars)
    show ?thesis
      unfolding component_element_def Let_def None option.case
      by (intro ok_if contents_ok branches_ok layout_ok copy_ok button_ok form_ok native_element_ok finish_ok assms(3,4) props other
          safe_tags) (use copy native html in simp_all)
  qed
qed

subsection \<open>Lowering safe pages\<close>

definition yields_ok :: "lower_rec \<Rightarrow> bool" where
  "yields_ok rec = (\<forall>srcs slot body scope nodes scope'. safe_sources srcs \<longrightarrow> safe_slot slot \<longrightarrow> list_all safe_statement body
     \<longrightarrow> rec srcs slot body scope = Inr (nodes, scope') \<longrightarrow> list_all node_ok nodes)"

lemma yields_okD:
  "yields_ok rec \<Longrightarrow> rec srcs slot body scope = Inr (nodes, scope') \<Longrightarrow> safe_sources srcs \<Longrightarrow> safe_slot slot
    \<Longrightarrow> list_all safe_statement body \<Longrightarrow> list_all node_ok nodes"
  unfolding yields_ok_def by blast

lemma nested_ok:
  assumes "yields_ok rec" and "safe_sources srcs" and "safe_slot slot" and "list_all safe_statement body"
    and "lower_nested rec srcs slot body scope = Inr nodes"
  shows "list_all node_ok nodes"
  using assms unfolding lower_nested_def yields_ok_def and_then_Inr_iff by (auto split: prod.splits)

lemma text_node_ok: "lower_each_render_text env fns e scope = Inr (node, scope') \<Longrightarrow> node_ok node"
  by (auto simp: lower_each_render_text_def and_then_Inr_iff split: option.splits)

lemma attach_ok: "attach_each_render_attributes env cmpt node scope = (node', scope') \<Longrightarrow> node_ok node \<Longrightarrow> node_ok node'"
  by (cases node) (auto simp: name_chars split: prod.splits if_splits)

lemma eval_props_keys:
  assumes "eval_props env fns cmpt scope = Inr props"
  shows "fst ` set props \<subseteq> fst ` set (component_props cmpt)"
proof -
  from assms obtain kvs where kvs: "list_all2 (\<lambda>p q. (case p of (name, e) \<Rightarrow> and_then (page_eval env fns scope e)
        (\<lambda>v. Inr (name, materialize_component_state_signal v scope))) = Inr q) (component_props cmpt) kvs"
    and props: "props = bm_of_list kvs"
    by (auto simp: eval_props_def and_then_Inr_iff try_map_Inr)
  from kvs have "map fst kvs = map fst (component_props cmpt)"
    by (induction rule: list_all2_induct) (auto simp: and_then_Inr_iff)
  then have "fst ` set kvs = fst ` set (component_props cmpt)" by (metis list.set_map)
  moreover have "set props \<subseteq> set kvs" using bm_of_list_ok [of kvs] props by simp
  ultimately show ?thesis by blast
qed

lemma eval_props_ok:
  assumes "eval_props env fns cmpt scope = Inr props" and "safe_props name (component_props cmpt)"
  shows "props_ok props"
  using eval_props_keys [OF assms(1)] assms(2) by (fastforce simp: safe_props_def props_ok_def list_all_iff)

lemma style_attrs_ok: "style_attrs env fns style scope = Inr attrs \<Longrightarrow> attrs_ok attrs"
  by (auto simp: style_attrs_def style_attr_def and_then_Inr_iff name_chars split: option.splits)

lemma children_ok:
  assumes "yields_ok rec" and "safe_sources srcs" and "safe_slot slot" and "safe_component cmpt"
    and "lower_component_children env rec srcs slot cmpt scope = Inr (nodes, scope')"
  shows "list_all node_ok nodes"
  using assms by (cases cmpt; cases "component_body cmpt")
    (auto simp: lower_component_children_def and_then_Inr_iff dest: text_node_ok nested_ok)

lemma safe_component_props: "safe_component cmpt \<Longrightarrow> safe_props (component_name cmpt) (component_props cmpt)"
  by (cases cmpt) simp

lemma component_node_ok:
  assumes "yields_ok rec" and "safe_sources srcs" and "safe_slot slot" and "safe_component cmpt"
    and "lower_component_node env rec srcs slot cmpt scope = Inr (nodes, scope')"
  shows "list_all node_ok nodes"
  using assms(5)
proof (elim lower_component_node_Inr)
  fix cs scope1 props attrs node
  assume 1: "lower_component_children env rec srcs slot cmpt scope = Inr (cs, scope1)"
    "eval_props env (src_functions srcs) cmpt scope1 = Inr props"
    "style_attrs env (src_functions srcs) (component_style cmpt) scope1 = Inr attrs"
    "attach_each_render_attributes env cmpt (component_element env (src_imports srcs) cmpt scope1 attrs props cs) scope1 = (node, scope')"
    "nodes = [node]"
  have "node_ok (component_element env (src_imports srcs) cmpt scope1 attrs props cs)"
    by (intro component_element_ok [OF safe_component_props [OF assms(4)] eval_props_keys [OF 1(2)]] style_attrs_ok [OF 1(3)]
        children_ok [OF assms(1-4) 1(1)])
  with 1(4,5) show ?thesis by (simp add: attach_ok)
qed

lemma passthrough_ok: "props_ok props \<Longrightarrow> attrs_ok (component_passthrough_attrs props def)"
  by (auto simp: component_passthrough_attrs_def props_ok_def attrs_ok_def list_all_iff)

lemma extend_ok: "extend_attr attrs name v = Some attrs' \<Longrightarrow> valid_name name \<Longrightarrow> attrs_ok attrs \<Longrightarrow> attrs_ok attrs'"
  by (induction attrs name v arbitrary: attrs' rule: extend_attr.induct) (auto split: if_splits)

lemma apply_attr_ok: "attrs_ok attrs \<Longrightarrow> valid_name (attr_name a) \<Longrightarrow> attrs_ok (apply_attr attrs a)"
  by (auto simp: apply_attr_def attrs_ok_def [of "filter _ _"] attrs_ok_def [of attrs, unfolded list_all_iff] list_all_iff
    dest: extend_ok split: option.split if_splits)

lemma apply_attrs_ok: "attrs_ok attrs \<Longrightarrow> attrs_ok incoming \<Longrightarrow> attrs_ok (foldl apply_attr attrs incoming)"
  by (induction incoming arbitrary: attrs) (simp_all add: apply_attr_ok)

lemma first_element_ok: "list_all node_ok nodes \<Longrightarrow> attrs_ok incoming \<Longrightarrow> list_all node_ok (apply_attrs_to_first_element nodes incoming)"
  using apply_attrs_ok by (auto simp: apply_attrs_to_first_element_def attrs_ok_def split: list.split ax_node.split)

lemma children_statements_safe: "safe_component cmpt \<Longrightarrow> list_all safe_statement (component_children_to_statements cmpt)"
  by (cases cmpt; cases "component_body cmpt") (auto simp: component_children_to_statements_def)

lemma local_component_ok:
  assumes "yields_ok rec" and "safe_sources srcs" and "safe_sources slot_srcs" and "safe_slot slot" and "safe_component cmpt"
    and "list_all safe_statement (cd_body def)"
    and "lower_local_component_nodes env rec srcs slot_srcs slot cmpt def scope = Inr nodes"
  shows "list_all node_ok nodes"
proof -
  let ?slot = "Some (SlotContext (component_children_to_statements cmpt) slot_srcs slot)"
  from assms(7) obtain props style inner ns where 1: "eval_props env (src_functions srcs) cmpt scope = Inr props"
      "style_attrs env (src_functions srcs) (component_style cmpt) scope = Inr style"
      "lower_nested rec srcs ?slot (cd_body def) inner = Inr ns"
      "nodes = apply_attrs_to_first_element ns (component_passthrough_attrs props def @ style)"
    by (auto simp: lower_local_component_nodes_def and_then_Inr_iff)
  have "list_all node_ok ns"
    by (rule nested_ok [OF assms(1,2) _ assms(6) 1(3)]) (use assms children_statements_safe in simp)
  moreover have "attrs_ok (component_passthrough_attrs props def @ style)"
    using passthrough_ok [OF eval_props_ok [OF 1(1) safe_component_props [OF assms(5)]]] style_attrs_ok [OF 1(2)] by simp
  ultimately show ?thesis using 1(4) by (simp add: first_element_ok)
qed

lemma resolved_safe: "safe_sources srcs \<Longrightarrow> resolve_component (src_components srcs) name = Some def \<Longrightarrow> list_all safe_statement (cd_body def)"
  by (auto simp: safe_sources_def resolve_component_def list_all_iff dest!: found_member)

lemma imported_safe:
  assumes "safe_document d" and "imported_component d binding = Some def"
  shows "list_all safe_statement (cd_body def)"
  using assms resolved_safe [of "document_sources d"]
  by (auto simp: imported_component_def safe_document_def document_sources_def split: option.splits)

lemma imported_ok:
  assumes "yields_ok rec" and "safe_imports env" and "safe_sources srcs" and "safe_slot slot" and "safe_component cmpt"
    and "lower_imported_component_nodes env rec srcs slot cmpt binding path scope source = Inr nodes"
  shows "list_all node_ok nodes"
proof -
  let ?slot = "Some (SlotContext (component_children_to_statements cmpt) srcs slot)"
  have docs: "safe_document d" if "pg_parse env s = Inr d" for s d
    using assms(2) that by (auto simp: safe_imports_def)
  have local: "list_all node_ok nodes"
    if "safe_document d" "imported_component d binding = Some def"
      "lower_local_component_nodes env rec (document_sources d) srcs slot cmpt def scope = Inr nodes" for d def
    using local_component_ok [OF assms(1) _ assms(3,4,5) imported_safe [OF that(1,2)] that(3)] that(1) by (simp add: safe_document_def)
  show ?thesis
  proof (cases "pg_parse env source")
    case (Inl message)
    with assms(6) show ?thesis
      by (auto simp: lower_imported_component_nodes_def parse_component_only_import_document_def bind_eq_Some_conv
        split: option.splits sum.splits intro: local dest: docs)
  next
    case (Inr d)
    note d = docs [OF Inr]
    show ?thesis
    proof (cases "imported_component d binding")
      case None
      with Inr assms(6) obtain inner where
        "lower_nested rec (document_sources d) ?slot (page_body (doc_page d)) inner = Inr nodes"
        by (auto simp: lower_imported_component_nodes_def and_then_Inr_iff)
      from nested_ok [OF assms(1) _ _ _ this] show ?thesis
        using d assms(3,4) children_statements_safe [OF assms(5)] by (simp add: safe_document_def)
    next
      case (Some def)
      with Inr assms(6) show ?thesis using local [OF d] by (simp add: lower_imported_component_nodes_def)
    qed
  qed
qed

lemma strip_slot_safe: "safe_statement s \<Longrightarrow> safe_statement (strip_slot_statement s)"
proof (cases s)
  case (SmComponent cmpt)
  assume "safe_statement s"
  with SmComponent show ?thesis
    by (cases cmpt) (auto simp: strip_slot_statement_def safe_props_def list_all_iff)
qed (simp_all add: strip_slot_statement_def)

lemma selected_safe:
  "select_slot_statements env fns scope requested body = Inr selected \<Longrightarrow> list_all safe_statement body \<Longrightarrow> list_all safe_statement selected"
  by (induction body arbitrary: selected) (auto simp: and_then_Inr_iff strip_slot_safe split: if_splits)

lemma slot_ok:
  assumes "yields_ok rec" and "safe_slot slot" and "lower_slot env rec slot cmpt scope = Inr nodes"
  shows "list_all node_ok nodes"
  using assms by (auto simp: lower_slot_def and_then_Inr_iff split: option.splits slot_context.splits dest: selected_safe intro: nested_ok)

lemma component_nodes_ok:
  assumes "yields_ok rec" and "safe_imports env" and "safe_sources srcs" and "safe_slot slot" and "safe_component cmpt"
    and "lower_component_nodes env rec srcs slot cmpt scope = Inr (nodes, scope')"
  shows "list_all node_ok nodes"
  using assms(6) unfolding lower_component_nodes_def Let_def
  by (auto simp: and_then_Inr_iff split: if_splits option.splits prod.splits
    intro: slot_ok [OF assms(1,4)] children_ok [OF assms(1,3-5)] component_node_ok [OF assms(1,3-5)]
      local_component_ok [OF assms(1,3,3-5) resolved_safe [OF assms(3)]] imported_ok [OF assms(1-5)])

lemma keyed_item_ok:
  assumes "yields_ok rec" and "safe_sources srcs" and "safe_slot slot" and "list_all safe_statement body"
    and "lower_keyed_item env rec srcs slot binding key body path scope item st = Inr st'"
    and "list_all node_ok (each_children st) \<and> (\<forall>t. each_template st = Some t \<longrightarrow> list_all node_ok t)"
  shows "list_all node_ok (each_children st') \<and> (\<forall>t. each_template st' = Some t \<longrightarrow> list_all node_ok t)"
proof -
  from assms(5) obtain identity display kind inner cs nested where
    rec: "rec srcs slot body inner = Inr (cs, nested)"
    and st': "st' = \<lparr> each_children = each_children st @ [each_item_node display identity cs],
                  each_template = (if each_template st = None \<and> each_render_scope_is_supported nested
                    \<and> list_all each_render_template_is_safe cs then Some cs else each_template st),
                  each_keys = each_keys st @ [identity], each_kind = Some kind \<rparr>"
    by (fastforce simp: lower_keyed_item_def Let_def and_then_Inr_iff split: if_splits)
  have "list_all node_ok cs" by (rule yields_okD [OF assms(1) rec assms(2-4)])
  then have "node_ok (each_item_node display identity cs)" by (simp add: each_item_node_def name_chars)
  with \<open>list_all node_ok cs\<close> assms(6) show ?thesis by (simp add: st')
qed

lemma keyed_items_ok:
  assumes "yields_ok rec" and "safe_sources srcs" and "safe_slot slot" and "list_all safe_statement body"
  shows "lower_keyed_items env rec srcs slot binding key body path scope items st = Inr st'
    \<Longrightarrow> list_all node_ok (each_children st) \<and> (\<forall>t. each_template st = Some t \<longrightarrow> list_all node_ok t)
    \<Longrightarrow> list_all node_ok (each_children st') \<and> (\<forall>t. each_template st' = Some t \<longrightarrow> list_all node_ok t)"
proof (induction items arbitrary: st)
  case (Cons item items)
  then obtain st1 where "lower_keyed_item env rec srcs slot binding key body path scope item st = Inr st1"
    and "lower_keyed_items env rec srcs slot binding key body path scope items st1 = Inr st'"
    by (auto simp: and_then_Inr_iff)
  with Cons.IH keyed_item_ok [OF assms _ Cons.prems(2)] show ?case by blast
qed simp

lemma keyed_each_ok:
  assumes "yields_ok rec" and "safe_sources srcs" and "safe_slot slot" and "list_all safe_statement body" and "list_all safe_statement blank"
    and "lower_keyed_each env rec srcs slot binding key state body blank path scope items = Inr node"
  shows "node_ok node"
proof -
  from assms(6) obtain st where st: "(if items = [] then
          and_then (lower_nested rec srcs slot blank scope) (\<lambda>blank. Inr (each_start \<lparr> each_children := each_empty_node blank \<rparr>))
        else lower_keyed_items env rec srcs slot binding key body path scope items each_start) = Inr st"
    and node: "node = element_with_attrs ''ax-state-each'' (each_attrs binding key state (each_kind st)
        (each_children st @ each_template_node (each_template st))) (each_children st @ each_template_node (each_template st))"
    by (auto simp: lower_keyed_each_def and_then_Inr_iff Let_def)
  have "list_all node_ok (each_children st) \<and> (\<forall>t. each_template st = Some t \<longrightarrow> list_all node_ok t)"
  proof (cases "items = []")
    case True
    with st obtain ns where ns: "lower_nested rec srcs slot blank scope = Inr ns" and "st = each_start \<lparr> each_children := each_empty_node ns \<rparr>"
      by (auto simp: and_then_Inr_iff)
    moreover from nested_ok [OF assms(1-3,5) ns] have "list_all node_ok ns" .
    ultimately show ?thesis by (simp add: each_start_def each_empty_node_def)
  next
    case False
    with st keyed_items_ok [OF assms(1-4)] show ?thesis by (simp add: each_start_def)
  qed
  then show ?thesis
    by (auto simp: node each_attrs_def each_template_node_def name_chars split: option.split)
qed

lemma plain_items_ok:
  assumes "yields_ok rec" and "safe_sources srcs" and "safe_slot slot" and "list_all safe_statement body"
  shows "lower_plain_items rec srcs slot binding body path scope i items = Inr nodes \<Longrightarrow> list_all node_ok nodes"
  by (induction items arbitrary: i nodes) (auto simp: and_then_Inr_iff dest: nested_ok [OF assms])

lemma each_ok:
  assumes "yields_ok rec" and "safe_sources srcs" and "safe_slot slot" and "list_all safe_statement body" and "list_all safe_statement blank"
    and "lower_each env rec srcs slot binding key state body blank path scope v = Inr nodes"
  shows "list_all node_ok nodes"
  using assms(6) unfolding lower_each_def
  by (auto simp: and_then_Inr_iff split: ax_value.splits option.splits if_splits
    intro: nested_ok [OF assms(1-3,5)] plain_items_ok [OF assms(1-4)] keyed_each_ok [OF assms(1-5)])

lemma stages_ok:
  assumes "yields_ok rec" and "safe_imports env" and "safe_sources srcs" and "safe_slot slot"
  shows "lower_stages env rec srcs slot scope stages = Inr nodes \<Longrightarrow> list_all safe_stage stages \<Longrightarrow> list_all node_ok nodes"
proof (induction stages arbitrary: nodes)
  case (Cons s stages)
  then show ?case
    by (cases s) (auto simp: and_then_Inr_iff name_chars dest: component_nodes_ok [OF assms])
qed simp

lemma branch_ok:
  assumes "yields_ok rec" and "safe_sources srcs" and "safe_slot slot" and "list_all safe_statement body"
    and "lower_branch rec srcs slot path body scope = Inr nodes"
  shows "list_all node_ok nodes"
  using assms(5) by (auto simp: lower_branch_def split: if_splits intro: nested_ok [OF assms(1-4)])

lemma match_body_safe:
  "safe_cases cases \<Longrightarrow> (case dflt of Some body \<Rightarrow> list_all safe_statement body | None \<Rightarrow> True) \<Longrightarrow> list_all safe_statement (match_body cases dflt v)"
  by (induction cases rule: list.induct) (auto simp: match_body_def split: option.splits)

lemma statement_ok:
  assumes "yields_ok rec" and "safe_imports env" and "safe_sources srcs" and "safe_slot slot" and "safe_statement s"
    and "lower_statement env rec srcs slot path s scope = Inr (nodes, scope')"
  shows "list_all node_ok nodes"
proof (cases s)
  case (SmIf e body els)
  with assms show ?thesis
    by (auto simp: and_then_Inr_iff Let_def split: if_splits intro: branch_ok [OF assms(1,3,4)])
next
  case (SmMatch e cases dflt)
  with assms show ?thesis
    by (auto simp: and_then_Inr_iff Let_def intro!: branch_ok [OF assms(1,3,4) match_body_safe])
next
  case (SmEach binding source key state body blank)
  with assms show ?thesis
    by (auto simp: and_then_Inr_iff Let_def intro: each_ok [OF assms(1,3,4)])
next
  case (SmText e)
  with assms show ?thesis by (auto simp: and_then_Inr_iff dest: text_node_ok)
next
  case (SmComponent cmpt)
  with assms show ?thesis by (auto intro: component_nodes_ok [OF assms(1-4)])
next
  case (SmPipeline source stages)
  with assms show ?thesis
    by (auto simp: and_then_Inr_iff Let_def lower_pipeline_def name_chars dest: stages_ok [OF assms(1-4)] split: ax_value.split)
qed (use assms in \<open>auto simp: and_then_Inr_iff\<close>)

lemma sequence_ok:
  assumes "yields_ok rec" and "safe_imports env" and "safe_sources srcs" and "safe_slot slot"
  shows "lower_sequence env rec srcs slot parent i body scope = Inr (nodes, scope') \<Longrightarrow> list_all safe_statement body \<Longrightarrow> list_all node_ok nodes"
proof (induction body arbitrary: i scope nodes)
  case (Cons s rest)
  then show ?case by (fastforce simp: and_then_Inr_iff Let_def dest: statement_ok [OF assms])
qed simp

lemma lower_statements_ok:
  assumes "safe_imports env"
  shows "yields_ok (lower_statements env n)"
proof (induction n)
  case (Suc n)
  then show ?case
    unfolding yields_ok_def lower_statements.simps lower_block_def
    by (auto simp: and_then_Inr_iff Let_def unsupported_node_def dest!: sequence_ok [OF Suc assms] split: if_splits)
qed (simp add: yields_ok_def)

lemma safe_page_nodes:
  assumes "safe_document d" and "safe_imports env" and "lower_document env n d scope = Inr node"
  shows "node_ok node"
proof -
  from assms(3) obtain inner children s where
    rec: "lower_statements env n (document_sources d) None (page_body (doc_page d)) inner = Inr (children, s)"
    and node: "node = element_with_attrs ''main'' [attr ''data-ax-page'' (page_name (doc_page d)), attr ''data-ax-root'' ''page''] children"
    by (auto simp: lower_document_def and_then_Inr_iff)
  have "list_all node_ok children"
    using yields_okD [OF lower_statements_ok [OF assms(2)] rec] assms(1) by (simp add: safe_document_def)
  then show ?thesis by (simp add: node name_chars)
qed


definition hostile_scope :: page_scope where
  "hostile_scope = [(''name'', AvString ''</h2><script>'')]"

definition greeting_page :: ax_document where
  "greeting_page = demo_document [SmComponent (AxComponent ''Card'' [(''title'', ExIdentifier ''name'')] no_style (BodyInline (ExIdentifier ''name'')))]"

definition greeting_node :: ax_node where
  "greeting_node = NodeElement ''main'' [attr ''data-ax-page'' ''Home'', attr ''data-ax-root'' ''page'']
     [NodeElement ''article'' [attr ''class'' ''ax-card'']
       [NodeElement ''h2'' [attr ''class'' ''ax-card__title''] [NodeText ''</h2><script>''], NodeText ''</h2><script>'']]"

lemma greeting_lowers: "lower_document demo_page_env 2 greeting_page hostile_scope = Inr greeting_node"
  by (simp add: greeting_page_def hostile_scope_def greeting_node_def lower_document_def demo_document_def document_sources_def
    numeral_2_eq_2 page_unfold element_with_attrs_def component_element_def card_element_def prop_string_def with_class_def
    finish_element_def push_behavior_props_def push_remaining_props_def bind_prop_def split: prod.split)


end
