(* ===== verification/Value_Codec.thy ===== *)
theory Value_Codec
  imports Ax_Float
begin

section \<open>Typed value frames of the state executor\<close>

text \<open>
  The value codec of \<open>axonyx-state-wasm/src/lib.rs\<close>: \<open>ExprValue\<close>, the frame decoder
  \<open>decode_expr_value\<close>, the encoder \<open>encode_expr_value\<close> and the stand-alone frame
  validator \<open>validate_value_frame\<close>. A frame is \<open>A X 1 tag payload\<close>. The source
  recurses on \<open>depth\<close> up to \<open>AX_STATE_VALUE_MAX_DEPTH = 32\<close>; the model recurses on
  the remaining depth \<open>33 - depth\<close>, so that \<open>depth > 32\<close> is the case \<open>0\<close>. Cursors are
  \<open>usize\<close> of wasm32 (\<open>usize_add\<close> is \<open>checked_add\<close>).
\<close>

datatype expr_value =
    EvNull
  | EvString string
  | EvBool bool
  | EvFloat f64
  | EvInt i64
  | EvBytes bytes
  | EvList "expr_value list"
  | EvObject "(string \<times> expr_value) list"

definition value_max_depth :: nat where
  "value_max_depth = 32"

definition value_capacity :: nat where
  "value_capacity = 64 * 1024"

definition usize_limit :: nat where
  "usize_limit = 2 ^ 32"

definition usize_add :: "nat \<Rightarrow> nat \<Rightarrow> nat option" where
  "usize_add a b = (if a + b < usize_limit then Some (a + b) else None)"

definition take_bytes :: "bytes \<Rightarrow> nat \<Rightarrow> nat \<Rightarrow> (bytes \<times> nat) option" where
  "take_bytes bs cur len =
     (case usize_add cur len of
        None \<Rightarrow> None
      | Some fin \<Rightarrow> if fin \<le> length bs then Some (take len (drop cur bs), fin) else None)"

definition read_u32 :: "bytes \<Rightarrow> nat \<Rightarrow> (nat \<times> nat) option" where
  "read_u32 bs cur = do { (raw, cur') \<leftarrow> take_bytes bs cur 4; Some (le_value raw, cur') }"

definition u32_bytes :: "nat \<Rightarrow> bytes option" where
  "u32_bytes n = (if n < 2 ^ 32 then Some (le_bytes 4 n) else None)"

definition word_bytes :: "64 word \<Rightarrow> bytes" where
  "word_bytes w = le_bytes 8 (unat w)"

definition word_of_bytes :: "bytes \<Rightarrow> 64 word" where
  "word_of_bytes bs = word_of_nat (le_value bs)"

definition has_header :: "bytes \<Rightarrow> bool" where
  "has_header bs = (4 \<le> length bs \<and> take 3 bs = [CHR ''A'', CHR ''X'', CHR 0x01])"

definition header :: "nat \<Rightarrow> bytes" where
  "header tag = [CHR ''A'', CHR ''X'', CHR 0x01, char_of tag]"

subsection \<open>Decoding\<close>

fun decode_items :: "(bytes \<Rightarrow> ('a \<times> nat) option) \<Rightarrow> nat \<Rightarrow> bytes \<Rightarrow> nat \<Rightarrow> ('a list \<times> nat) option" where
  "decode_items dec 0 bs cur = Some ([], cur)"
| "decode_items dec (Suc n) bs cur = do {
     (v, used) \<leftarrow> dec (drop cur bs);
     cur' \<leftarrow> usize_add cur used;
     (vs, fin) \<leftarrow> decode_items dec n bs cur';
     Some (v # vs, fin) }"

fun decode_fields :: "(bytes \<Rightarrow> ('a \<times> nat) option) \<Rightarrow> nat \<Rightarrow> bytes \<Rightarrow> nat \<Rightarrow> (string \<times> 'a) list
    \<Rightarrow> ((string \<times> 'a) list \<times> nat) option" where
  "decode_fields dec 0 bs cur fields = Some (fields, cur)"
| "decode_fields dec (Suc n) bs cur fields = do {
     (key_length, c1) \<leftarrow> read_u32 bs cur;
     (key, c2) \<leftarrow> take_bytes bs c1 key_length;
     if \<not> utf8_ok key \<or> key \<in> fst ` set fields then None
     else do {
       (v, used) \<leftarrow> dec (drop c2 bs);
       c3 \<leftarrow> usize_add c2 used;
       decode_fields dec n bs c3 (fields @ [(key, v)]) } }"

definition decode_payload :: "(bytes \<Rightarrow> (expr_value \<times> nat) option) \<Rightarrow> bytes \<Rightarrow> (expr_value \<times> nat) option" where
  "decode_payload dec bs =
     (let tag = code (bs ! 3); cur = 4 in
      if tag = 0 then Some (EvNull, cur)
      else if tag = 1 then do {
        (len, c1) \<leftarrow> read_u32 bs cur;
        (s, c2) \<leftarrow> take_bytes bs c1 len;
        if utf8_ok s then Some (EvString s, c2) else None }
      else if tag = 2 then do {
        (raw, c1) \<leftarrow> take_bytes bs cur 1;
        if 1 < le_value raw then None else Some (EvBool (le_value raw = 1), c1) }
      else if tag = 3 then do {
        (raw, c1) \<leftarrow> take_bytes bs cur 8;
        if is_finite (word_of_bytes raw) then Some (EvFloat (word_of_bytes raw), c1) else None }
      else if tag = 4 then do {
        (raw, c1) \<leftarrow> take_bytes bs cur 8;
        Some (EvInt (word_of_bytes raw), c1) }
      else if tag = 5 then do {
        (len, c1) \<leftarrow> read_u32 bs cur;
        (s, c2) \<leftarrow> take_bytes bs c1 len;
        Some (EvBytes s, c2) }
      else if tag = 6 then do {
        (count, c1) \<leftarrow> read_u32 bs cur;
        if (length bs - c1) div 4 < count then None
        else do {
          (items, c2) \<leftarrow> decode_items dec count bs c1;
          Some (EvList items, c2) } }
      else if tag = 7 then do {
        (count, c1) \<leftarrow> read_u32 bs cur;
        if (length bs - c1) div 8 < count then None
        else do {
          (fields, c2) \<leftarrow> decode_fields dec count bs c1 [];
          Some (EvObject fields, c2) } }
      else None)"

primrec decode :: "nat \<Rightarrow> bytes \<Rightarrow> (expr_value \<times> nat) option" where
  "decode 0 bs = None"
| "decode (Suc k) bs = (if has_header bs then decode_payload (decode k) bs else None)"

definition decode_expr_value :: "bytes \<Rightarrow> nat \<Rightarrow> (expr_value \<times> nat) option" where
  "decode_expr_value bs depth = decode (Suc value_max_depth - depth) bs"

subsection \<open>Validation\<close>

fun validate_items :: "(bytes \<Rightarrow> nat option) \<Rightarrow> nat \<Rightarrow> bytes \<Rightarrow> nat \<Rightarrow> nat option" where
  "validate_items val 0 bs cur = Some cur"
| "validate_items val (Suc n) bs cur = do {
     used \<leftarrow> val (drop cur bs);
     cur' \<leftarrow> usize_add cur used;
     validate_items val n bs cur' }"

fun validate_fields :: "(bytes \<Rightarrow> nat option) \<Rightarrow> nat \<Rightarrow> bytes \<Rightarrow> nat \<Rightarrow> nat option" where
  "validate_fields val 0 bs cur = Some cur"
| "validate_fields val (Suc n) bs cur = do {
     (key_length, c1) \<leftarrow> read_u32 bs cur;
     (key, c2) \<leftarrow> take_bytes bs c1 key_length;
     if \<not> utf8_ok key then None
     else do {
       used \<leftarrow> val (drop c2 bs);
       c3 \<leftarrow> usize_add c2 used;
       validate_fields val n bs c3 } }"

definition validate_payload :: "(bytes \<Rightarrow> nat option) \<Rightarrow> bytes \<Rightarrow> nat option" where
  "validate_payload val bs =
     (let tag = code (bs ! 3); cur = 4 in
      if tag = 0 then Some cur
      else if tag = 1 then do {
        (len, c1) \<leftarrow> read_u32 bs cur;
        (s, c2) \<leftarrow> take_bytes bs c1 len;
        if utf8_ok s then Some c2 else None }
      else if tag = 2 then do {
        (raw, c1) \<leftarrow> take_bytes bs cur 1;
        if 1 < le_value raw then None else Some c1 }
      else if tag = 3 then do {
        (raw, c1) \<leftarrow> take_bytes bs cur 8;
        if is_finite (word_of_bytes raw) then Some c1 else None }
      else if tag = 4 then do { (raw, c1) \<leftarrow> take_bytes bs cur 8; Some c1 }
      else if tag = 5 then do {
        (len, c1) \<leftarrow> read_u32 bs cur;
        (s, c2) \<leftarrow> take_bytes bs c1 len;
        Some c2 }
      else if tag = 6 then do { (count, c1) \<leftarrow> read_u32 bs cur; validate_items val count bs c1 }
      else if tag = 7 then do { (count, c1) \<leftarrow> read_u32 bs cur; validate_fields val count bs c1 }
      else None)"

primrec validate :: "nat \<Rightarrow> bytes \<Rightarrow> nat option" where
  "validate 0 bs = None"
| "validate (Suc k) bs = (if has_header bs then validate_payload (validate k) bs else None)"

definition validate_value_frame :: "bytes \<Rightarrow> nat \<Rightarrow> nat option" where
  "validate_value_frame bs depth = validate (Suc value_max_depth - depth) bs"

subsection \<open>Encoding\<close>

fun encode_expr_value :: "nat \<Rightarrow> expr_value \<Rightarrow> bytes option"
  and encode_items :: "nat \<Rightarrow> expr_value list \<Rightarrow> bytes option"
  and encode_fields :: "nat \<Rightarrow> (string \<times> expr_value) list \<Rightarrow> bytes option" where
  "encode_expr_value d EvNull = (if value_max_depth < d then None else Some (header 0))"
| "encode_expr_value d (EvString s) =
     (if value_max_depth < d then None
      else do { n \<leftarrow> u32_bytes (length s); Some (header 1 @ n @ s) })"
| "encode_expr_value d (EvBool b) =
     (if value_max_depth < d then None else Some (header 2 @ [char_of (of_bool b :: nat)]))"
| "encode_expr_value d (EvFloat f) =
     (if value_max_depth < d \<or> \<not> is_finite f then None else Some (header 3 @ word_bytes f))"
| "encode_expr_value d (EvInt i) =
     (if value_max_depth < d then None else Some (header 4 @ word_bytes i))"
| "encode_expr_value d (EvBytes s) =
     (if value_max_depth < d then None
      else do { n \<leftarrow> u32_bytes (length s); Some (header 5 @ n @ s) })"
| "encode_expr_value d (EvList vs) =
     (if value_max_depth < d then None
      else do { n \<leftarrow> u32_bytes (length vs); es \<leftarrow> encode_items (Suc d) vs; Some (header 6 @ n @ es) })"
| "encode_expr_value d (EvObject fs) =
     (if value_max_depth < d then None
      else do { n \<leftarrow> u32_bytes (length fs); es \<leftarrow> encode_fields (Suc d) fs; Some (header 7 @ n @ es) })"
| "encode_items d [] = Some []"
| "encode_items d (v # vs) = do { e \<leftarrow> encode_expr_value d v; es \<leftarrow> encode_items d vs; Some (e @ es) }"
| "encode_fields d [] = Some []"
| "encode_fields d ((k, v) # fs) = do {
     n \<leftarrow> u32_bytes (length k);
     e \<leftarrow> encode_expr_value d v;
     es \<leftarrow> encode_fields d fs;
     Some (n @ k @ e @ es) }"

subsection \<open>Well-formed values\<close>

text \<open>What a Rust \<open>ExprValue\<close> that came out of a decoder satisfies.\<close>

fun value_ok :: "expr_value \<Rightarrow> bool" where
  "value_ok (EvString s) = utf8_ok s"
| "value_ok (EvFloat f) = is_finite f"
| "value_ok (EvList vs) = list_all value_ok vs"
| "value_ok (EvObject fs) =
     (distinct (map fst fs) \<and> list_all (\<lambda>(k, v). utf8_ok k \<and> value_ok v) fs)"
| "value_ok _ = True"

subsection \<open>Cursor lemmas\<close>

lemma usize_add_Some [codec_simps]: "usize_add a b = Some c \<longleftrightarrow> c = a + b \<and> c < usize_limit"
  by (auto simp: usize_add_def)

lemma take_bytes_Some [codec_simps]:
  "take_bytes bs cur n = Some (x, c) \<longleftrightarrow>
     c = cur + n \<and> c < usize_limit \<and> c \<le> length bs \<and> x = take n (drop cur bs)"
  by (auto simp: take_bytes_def usize_add_def)

lemma read_u32_Some [codec_simps]:
  "read_u32 bs cur = Some (n, c) \<longleftrightarrow>
     c = cur + 4 \<and> c < usize_limit \<and> c \<le> length bs \<and> n = le_value (take 4 (drop cur bs))"
  by (auto simp: read_u32_def bind_eq_Some_conv take_bytes_Some split: prod.splits)

lemma take_bytes_at:
  "length pre + length x < usize_limit \<Longrightarrow>
   take_bytes (pre @ x @ rest) (length pre) (length x) = Some (x, length pre + length x)"
  by (simp add: take_bytes_Some)

lemma u32_bytes_Some [codec_simps]: "u32_bytes n = Some b \<longleftrightarrow> n < 2 ^ 32 \<and> b = le_bytes 4 n"
  by (auto simp: u32_bytes_def)

lemma read_u32_at:
  "n < 2 ^ 32 \<Longrightarrow> length pre + 4 < usize_limit \<Longrightarrow>
   read_u32 (pre @ le_bytes 4 n @ rest) (length pre) = Some (n, length pre + 4)"
  by (simp add: read_u32_Some le_value_bytes)

lemma length_header [simp]: "length (header t) = 4"
  by (simp add: header_def)

lemma has_header_header [simp]: "has_header (header t @ r)"
  by (simp add: has_header_def header_def)

lemma header_tag [simp]: "t < 256 \<Longrightarrow> code ((header t @ r) ! 3) = t"
  by (simp add: header_def nth_append)

lemma has_header_decomp:
  assumes "has_header bs"
  shows "bs = header (code (bs ! 3)) @ drop 4 bs" and "4 \<le> length bs"
proof -
  from assms show len: "4 \<le> length bs" by (simp add: has_header_def)
  then have "bs = take 4 bs @ drop 4 bs" by simp
  also have "take 4 bs = take 3 bs @ [bs ! 3]"
    using len take_Suc_conv_app_nth [of 3 bs] by simp
  also have "\<dots> = header (code (bs ! 3))"
    using assms by (simp add: has_header_def header_def)
  finally show "bs = header (code (bs ! 3)) @ drop 4 bs" .
qed

lemma length_word_bytes [simp]: "length (word_bytes w) = 8"
  by (simp add: word_bytes_def)

lemma word_of_word_bytes [simp]: "word_of_bytes (word_bytes w) = w"
proof -
  have "unat w < 2 ^ LENGTH(64)" by (rule unsigned_less)
  then have "unat w < 256 ^ 8" by simp
  then have "le_value (le_bytes 8 (unat w)) = unat w" by (rule le_value_bytes)
  then show ?thesis by (simp add: word_of_bytes_def word_bytes_def)
qed

lemma word_bytes_of_bytes:
  assumes "length raw = 8" shows "word_bytes (word_of_bytes raw) = raw"
proof -
  have "le_value raw < 256 ^ 8" using le_value_less [of raw] assms by simp
  then have "unat (word_of_bytes raw) = le_value raw"
    by (simp add: word_of_bytes_def unat_of_nat)
  then show ?thesis using le_bytes_value [of raw] assms by (simp add: word_bytes_def)
qed

lemma decode_frame:
  "t < 256 \<Longrightarrow> decode (Suc k) (header t @ r) = decode_payload (decode k) (header t @ r)"
  by simp

lemmas frame_steps = decode_payload_def Let_def bind_eq_Some_conv codec_simps

subsection \<open>Decoding what was encoded\<close>

lemma encode_length_ge:
  "encode_expr_value d v = Some e \<Longrightarrow> d \<le> value_max_depth \<and> 4 \<le> length e"
  "encode_items d vs = Some es \<Longrightarrow> 4 * length vs \<le> length es"
  "encode_fields d fs = Some fe \<Longrightarrow> 8 * length fs \<le> length fe"
proof (induction d v and d vs and d fs arbitrary: e and es and fe
    rule: encode_expr_value_encode_items_encode_fields.induct)
  case (10 d v vs)
  then show ?case by (force simp: bind_eq_Some_conv)
next
  case (12 d k v fs)
  then show ?case by (force simp: bind_eq_Some_conv u32_bytes_Some)
qed (auto simp: bind_eq_Some_conv split: if_splits)

lemma decode_header:
  "d \<le> value_max_depth \<Longrightarrow> decode (Suc value_max_depth - d) (header t @ r)
     = decode_payload (decode (value_max_depth - d)) (header t @ r)"
  by (simp add: Suc_diff_le)

lemma le_value_bytes4 [simp]: "n < 2 ^ 32 \<Longrightarrow> le_value (le_bytes 4 n) = n"
  by (rule le_value_bytes) simp

lemma le_value_bytes4' [simp]: "n < 4294967296 \<Longrightarrow> le_value (le_bytes 4 n) = n"
  by (rule le_value_bytes) simp

lemma decode_encode:
  "encode_expr_value d v = Some e \<Longrightarrow> value_ok v \<Longrightarrow> length e < usize_limit \<Longrightarrow>
   decode (Suc value_max_depth - d) (e @ rest) = Some (v, length e)"
  "encode_items d vs = Some es \<Longrightarrow> list_all value_ok vs \<Longrightarrow> length pre + length es < usize_limit \<Longrightarrow>
   decode_items (decode (Suc value_max_depth - d)) (length vs) (pre @ es @ rest) (length pre)
     = Some (vs, length pre + length es)"
  "encode_fields d fs = Some fe \<Longrightarrow> list_all (\<lambda>(k, v). utf8_ok k \<and> value_ok v) fs \<Longrightarrow>
   distinct (map fst (acc @ fs)) \<Longrightarrow> length pre + length fe < usize_limit \<Longrightarrow>
   decode_fields (decode (Suc value_max_depth - d)) (length fs) (pre @ fe @ rest) (length pre) acc
     = Some (acc @ fs, length pre + length fe)"
proof (induction d v and d vs and d fs arbitrary: e rest and es pre rest and fe pre rest acc
    rule: encode_expr_value_encode_items_encode_fields.induct)
  case (7 d vs)
  then obtain es where d: "d \<le> value_max_depth" and es: "encode_items (Suc d) vs = Some es"
    and e: "e = header 6 @ le_bytes 4 (length vs) @ es" and n: "length vs < 2 ^ 32"
    by (auto simp: bind_eq_Some_conv u32_bytes_Some split: if_splits)
  let ?pre = "header 6 @ le_bytes 4 (length vs)"
  have "decode_items (decode (Suc value_max_depth - Suc d)) (length vs) (?pre @ es @ rest) (length ?pre)
      = Some (vs, length ?pre + length es)"
    by (rule "7.IH" [of "le_bytes 4 (length vs)"]) (use d n es e "7.prems" in \<open>auto simp: u32_bytes_Some\<close>)
  moreover have "length vs \<le> length es div 4"
    using encode_length_ge(2) [OF es] by simp
  ultimately show ?case
    using d n e "7.prems"(3)  
    by (simp add: frame_steps decode_header)
next
  case (8 d fs)
  then obtain es where d: "d \<le> value_max_depth" and es: "encode_fields (Suc d) fs = Some es"
    and e: "e = header 7 @ le_bytes 4 (length fs) @ es" and n: "length fs < 2 ^ 32"
    by (auto simp: bind_eq_Some_conv u32_bytes_Some split: if_splits)
  let ?pre = "header 7 @ le_bytes 4 (length fs)"
  have "decode_fields (decode (Suc value_max_depth - Suc d)) (length fs) (?pre @ es @ rest) (length ?pre) []
      = Some ([] @ fs, length ?pre + length es)"
    by (rule "8.IH" [of "le_bytes 4 (length fs)"]) (use d n es e "8.prems" in \<open>auto simp: u32_bytes_Some\<close>)
  moreover have "length fs \<le> length es div 8"
    using encode_length_ge(3) [OF es] by simp
  ultimately show ?case
    using d n e "8.prems"(3) 
    by (simp add: frame_steps decode_header)
next
  case (10 d v vs)
  then obtain e' es' where e': "encode_expr_value d v = Some e'" and es': "encode_items d vs = Some es'"
    and es: "es = e' @ es'" by (auto simp: bind_eq_Some_conv)
  have 1: "decode (Suc value_max_depth - d) (e' @ es' @ rest) = Some (v, length e')"
    using "10.IH"(1) [OF e'] "10.prems" es by simp
  have 2: "decode_items (decode (Suc value_max_depth - d)) (length vs) ((pre @ e') @ es' @ rest) (length (pre @ e'))
     = Some (vs, length (pre @ e') + length es')"
    using "10.IH"(2) [OF e' es', of "pre @ e'"] "10.prems" es by simp
  show ?case using 1 2 "10.prems"(3) es by (simp add: codec_simps bind_eq_Some_conv)
next
  case (12 d k v fs)
  then obtain e' es' where e': "encode_expr_value d v = Some e'" and es': "encode_fields d fs = Some es'"
    and es: "fe = le_bytes 4 (length k) @ k @ e' @ es'" and k: "length k < 2 ^ 32"
    by (auto simp: bind_eq_Some_conv u32_bytes_Some)
  let ?pre = "pre @ le_bytes 4 (length k) @ k @ e'"
  have 1: "decode (Suc value_max_depth - d) (e' @ es' @ rest) = Some (v, length e')"
    by (rule "12.IH"(1) [of "le_bytes 4 (length k)"]) (use k e' es "12.prems" in \<open>auto simp: u32_bytes_Some\<close>)
  have 2: "decode_fields (decode (Suc value_max_depth - d)) (length fs) (?pre @ es' @ rest) (length ?pre) (acc @ [(k, v)])
     = Some ((acc @ [(k, v)]) @ fs, length ?pre + length es')"
    by (rule "12.IH"(2) [of "le_bytes 4 (length k)"]) (use k e' es es' "12.prems" in \<open>auto simp: u32_bytes_Some\<close>)
  show ?case
    using 1 2 k "12.prems" es by (simp add: codec_simps bind_eq_Some_conv add.assoc)
qed (auto simp: frame_steps decode_header not_less simp del: decode.simps split: if_splits)

subsection \<open>Encoding what was decoded\<close>

definition seg :: "nat \<Rightarrow> nat \<Rightarrow> bytes \<Rightarrow> bytes" where
  "seg a b bs = take (b - a) (drop a bs)"

lemma seg_append: "a \<le> b \<Longrightarrow> b \<le> c \<Longrightarrow> seg a b bs @ seg b c bs = seg a c bs"
proof -
  assume ab: "a \<le> b" and bc: "b \<le> c"
  then have "take (c - a) (drop a bs) = take ((b - a) + (c - b)) (drop a bs)" by simp
  also have "\<dots> = take (b - a) (drop a bs) @ take (c - b) (drop (b - a) (drop a bs))" by (rule take_add)
  finally show ?thesis using ab bc by (simp add: seg_def)
qed

lemma length_seg: "a \<le> b \<Longrightarrow> b \<le> length bs \<Longrightarrow> length (seg a b bs) = b - a"
  by (simp add: seg_def)

lemma seg_eq_take: "take n (drop a bs) = seg a (a + n) bs"
  by (simp add: seg_def)

lemma frame_take: "has_header bs \<Longrightarrow> 4 \<le> n \<Longrightarrow> take n bs = header (code (bs ! 3)) @ seg 4 n bs"
  by (subst has_header_decomp(1) [of bs]) (auto simp: seg_def has_header_decomp(2))

lemma le_bytes_seg [simp]: "a + k \<le> length bs \<Longrightarrow> le_bytes k (le_value (seg a (a + k) bs)) = seg a (a + k) bs"
  using le_bytes_value [of "seg a (a + k) bs"] by (simp add: length_seg)

lemma le_value_seg4: "a + 4 \<le> length bs \<Longrightarrow> le_value (seg a (a + 4) bs) < 2 ^ 32"
  using le_value_less [of "seg a (a + 4) bs"] by (simp add: length_seg)

lemma read_block:
  assumes "read_u32 bs a = Some (len, c1)" and "take_bytes bs c1 len = Some (s, c2)"
  shows "c1 = a + 4" and "c2 = a + 4 + length s" and "c2 \<le> length bs" and "length s < 2 ^ 32"
    and "seg a c2 bs = le_bytes 4 (length s) @ s"
proof -
  from assms(1) have c1: "c1 = a + 4" "c1 \<le> length bs" and len: "len = le_value (seg a (a + 4) bs)"
    by (auto simp: read_u32_Some seg_eq_take)
  from assms(2) have c2: "c2 = c1 + len" "c2 \<le> length bs" and s: "s = seg c1 (c1 + len) bs"
    by (auto simp: take_bytes_Some seg_eq_take)
  have ls: "length s = len" using s c2 by (simp add: length_seg)
  show "c1 = a + 4" by (rule c1)
  show "c2 = a + 4 + length s" "c2 \<le> length bs" using c1 c2 ls by auto
  show "length s < 2 ^ 32" using ls len le_value_seg4 [of a bs] c1 by simp
  have "seg a c2 bs = seg a c1 bs @ seg c1 c2 bs" using c1 c2 by (simp add: seg_append)
  also have "seg a c1 bs = le_bytes 4 (length s)" using le_bytes_seg [of a 4 bs] c1 ls len by simp
  finally show "seg a c2 bs = le_bytes 4 (length s) @ s" using s c2 by simp
qed

lemma take_word:
  assumes "take_bytes bs a 8 = Some (raw, c)"
  shows "c = a + 8" "c \<le> length bs" "raw = seg a c bs" "word_bytes (word_of_bytes raw) = seg a c bs"
  using assms by (auto simp: take_bytes_Some seg_eq_take word_bytes_of_bytes length_seg)

lemma decode_items_canonical:
  assumes dec: "\<And>bs v n. dec bs = Some (v, n) \<Longrightarrow>
      n \<le> length bs \<and> value_ok v \<and> encode_expr_value d v = Some (take n bs)"
  shows "decode_items dec m bs cur = Some (vs, c) \<Longrightarrow> cur \<le> length bs \<Longrightarrow>
      cur \<le> c \<and> c \<le> length bs \<and> list_all value_ok vs \<and> length vs = m
      \<and> encode_items d vs = Some (seg cur c bs)"
proof (induction m arbitrary: cur vs)
  case 0
  then show ?case by (auto simp: seg_def)
next
  case (Suc m)
  from Suc.prems(1) obtain v used vs' where v: "dec (drop cur bs) = Some (v, used)"
    and rest: "decode_items dec m bs (cur + used) = Some (vs', c)" and vs: "vs = v # vs'"
    by (auto simp: bind_eq_Some_conv codec_simps)
  from dec [OF v] Suc.prems(2) have used: "cur + used \<le> length bs" by auto
  from Suc.IH [OF rest used] dec [OF v] show ?case
    by (auto simp: vs seg_eq_take seg_append bind_eq_Some_conv)
qed

lemma decode_fields_canonical:
  assumes dec: "\<And>bs v n. dec bs = Some (v, n) \<Longrightarrow>
      n \<le> length bs \<and> value_ok v \<and> encode_expr_value d v = Some (take n bs)"
  shows "decode_fields dec m bs cur acc = Some (fs, c) \<Longrightarrow> cur \<le> length bs \<Longrightarrow>
      distinct (map fst acc) \<Longrightarrow>
      cur \<le> c \<and> c \<le> length bs \<and> distinct (map fst fs)
      \<and> (\<exists>fs'. fs = acc @ fs' \<and> length fs' = m \<and> list_all (\<lambda>(k, v). utf8_ok k \<and> value_ok v) fs'
             \<and> encode_fields d fs' = Some (seg cur c bs))"
proof (induction m arbitrary: cur acc)
  case 0
  then show ?case by (auto simp: seg_def)
next
  case (Suc m)
  let ?kl = "le_value (seg cur (cur + 4) bs)"
  let ?c2 = "cur + 4 + ?kl"
  let ?key = "seg (cur + 4) ?c2 bs"
  from Suc.prems(1) obtain v used where c2: "?c2 \<le> length bs"
    and key: "utf8_ok ?key" "?key \<notin> fst ` set acc"
    and v: "dec (drop ?c2 bs) = Some (v, used)"
    and rest: "decode_fields dec m bs (?c2 + used) (acc @ [(?key, v)]) = Some (fs, c)"
    by (auto simp: bind_eq_Some_conv codec_simps seg_eq_take split: if_splits)
  from dec [OF v] c2 have used: "?c2 + used \<le> length bs" by auto
  from key Suc.prems(3) have acc': "distinct (map fst (acc @ [(?key, v)]))" by auto
  from Suc.IH [OF rest used acc'] obtain fs' where
    ih: "?c2 + used \<le> c" "c \<le> length bs" "distinct (map fst fs)" "fs = (acc @ [(?key, v)]) @ fs'"
      "length fs' = m" "list_all (\<lambda>(k, v). utf8_ok k \<and> value_ok v) fs'"
      "encode_fields d fs' = Some (seg (?c2 + used) c bs)" by blast
  have kl: "?kl < 2 ^ 32" using le_value_seg4 [of cur bs] c2 by simp
  have "encode_fields d ((?key, v) # fs')
      = Some (seg cur (cur + 4) bs @ ?key @ seg ?c2 (?c2 + used) bs @ seg (?c2 + used) c bs)"
    using dec [OF v] ih(7) kl c2 by (simp add: u32_bytes_def length_seg seg_eq_take)
  also have "seg cur (cur + 4) bs @ ?key @ seg ?c2 (?c2 + used) bs @ seg (?c2 + used) c bs
      = seg cur c bs"
    using ih(1) by (simp add: seg_append)
  finally show ?case using ih key dec [OF v] by auto
qed

lemma decode_payload_canonical:
  assumes dec: "\<And>bs v n. dec bs = Some (v, n) \<Longrightarrow>
      n \<le> length bs \<and> value_ok v \<and> encode_expr_value (Suc d) v = Some (take n bs)"
    and d: "d \<le> value_max_depth" and h: "has_header bs"
    and p: "decode_payload dec bs = Some (v, n)"
  shows "4 \<le> n \<and> n \<le> length bs \<and> value_ok v
      \<and> encode_expr_value d v = Some (header (code (bs ! 3)) @ seg 4 n bs)"
proof -
  have bl: "4 \<le> length bs" using has_header_decomp(2) [OF h] .
  have count: "c1 = 8 \<and> 8 \<le> length bs \<and> n < 2 ^ 32 \<and> le_bytes 4 n = seg 4 8 bs"
    if "read_u32 bs 4 = Some (n, c1)" for n c1
    using that le_value_seg4 [of 4 bs] le_bytes_seg [of 4 4 bs]
    by (auto simp: read_u32_Some seg_eq_take)
  have app: "8 \<le> c \<Longrightarrow> seg 4 8 bs @ seg 8 c bs = seg 4 c bs" for c by (rule seg_append) auto
  note pay = p [unfolded decode_payload_def Let_def]
  consider "code (bs ! 3) = 0" | "code (bs ! 3) = 1" | "code (bs ! 3) = 2" | "code (bs ! 3) = 3"
    | "code (bs ! 3) = 4" | "code (bs ! 3) = 5" | "code (bs ! 3) = 6" | "code (bs ! 3) = 7"
    using pay by (auto split: if_splits)
  then show ?thesis
  proof cases
    case 1
    with pay d bl show ?thesis by (simp add: seg_def)
  next
    case 2
    with pay obtain len c1 s where r: "read_u32 bs 4 = Some (len, c1)" "take_bytes bs c1 len = Some (s, n)"
      and v: "utf8_ok s" "v = EvString s" by (auto simp: bind_eq_Some_conv split: if_splits)
    from read_block [OF r] v d 2 show ?thesis by (simp add: u32_bytes_def)
  next
    case 3
    with pay obtain raw where r: "take_bytes bs 4 1 = Some (raw, n)" "le_value raw \<le> 1"
      and v: "v = EvBool (le_value raw = 1)" by (auto simp: bind_eq_Some_conv split: if_splits)
    from r(1) have raw: "raw = seg 4 5 bs" "n = 5" "5 \<le> length bs"
      by (auto simp: take_bytes_Some seg_eq_take)
    then have "length raw = 1" by (simp add: length_seg)
    then obtain c where c: "raw = [c]" by (auto simp: length_Suc_conv)
    with r(2) have "code c \<le> 1" by simp
    then have "of_bool (code c = 1) = code c" by (cases "code c = 0") auto
    then have "char_of (of_bool (code c = 1) :: nat) = c" by (simp only: char_of_code)
    moreover from raw c have "seg 4 5 bs = [c]" "n = 5" "5 \<le> length bs" by auto
    moreover from v c have "v = EvBool (code c = 1)" by simp
    ultimately show ?thesis using d 3 by simp
  next
    case 4
    with pay obtain raw where r: "take_bytes bs 4 8 = Some (raw, n)" "is_finite (word_of_bytes raw)"
      and v: "v = EvFloat (word_of_bytes raw)" by (auto simp: bind_eq_Some_conv split: if_splits)
    from take_word [OF r(1)] r(2) v d 4 show ?thesis by simp
  next
    case 5
    with pay obtain raw where r: "take_bytes bs 4 8 = Some (raw, n)"
      and v: "v = EvInt (word_of_bytes raw)" by (auto simp: bind_eq_Some_conv split: if_splits)
    from take_word [OF r] v d 5 show ?thesis by simp
  next
    case 6
    with pay obtain len c1 s where r: "read_u32 bs 4 = Some (len, c1)" "take_bytes bs c1 len = Some (s, n)"
      and v: "v = EvBytes s" by (auto simp: bind_eq_Some_conv split: if_splits)
    from read_block [OF r] v d 6 show ?thesis by (simp add: u32_bytes_def)
  next
    case 7
    with pay obtain m c1 items where r: "read_u32 bs 4 = Some (m, c1)"
      and it: "decode_items dec m bs c1 = Some (items, n)" and v: "v = EvList items"
      by (auto simp: bind_eq_Some_conv split: if_splits)
    note c = count [OF r]
    from decode_items_canonical [OF dec it] c have
      "8 \<le> n \<and> n \<le> length bs \<and> list_all value_ok items \<and> length items = m
        \<and> encode_items (Suc d) items = Some (seg 8 n bs)" by blast
    with c v d 7 app [of n] show ?thesis by (simp add: u32_bytes_def)
  next
    case 8
    with pay obtain m c1 fs where r: "read_u32 bs 4 = Some (m, c1)"
      and it: "decode_fields dec m bs c1 [] = Some (fs, n)" and v: "v = EvObject fs"
      by (auto simp: bind_eq_Some_conv split: if_splits)
    note c = count [OF r]
    from decode_fields_canonical [OF dec it] c have
      "8 \<le> n \<and> n \<le> length bs \<and> distinct (map fst fs) \<and> length fs = m
        \<and> list_all (\<lambda>(k, v). utf8_ok k \<and> value_ok v) fs \<and> encode_fields (Suc d) fs = Some (seg 8 n bs)"
      by auto
    with c v d 8 app [of n] show ?thesis by (simp add: u32_bytes_def)
  qed
qed

lemma decode_canonical:
  "decode k bs = Some (v, n) \<Longrightarrow> k \<le> value_max_depth + 1 \<Longrightarrow>
   n \<le> length bs \<and> value_ok v \<and> encode_expr_value (Suc value_max_depth - k) v = Some (take n bs)"
proof (induction k arbitrary: bs v n)
  case 0
  then show ?case by simp
next
  case (Suc k)
  then have h: "has_header bs" and p: "decode_payload (decode k) bs = Some (v, n)"
    by (auto split: if_splits)
  let ?d = "Suc value_max_depth - Suc k"
  have d: "Suc ?d = Suc value_max_depth - k" "?d \<le> value_max_depth" using Suc.prems(2) by auto
  have "4 \<le> n \<and> n \<le> length bs \<and> value_ok v
      \<and> encode_expr_value ?d v = Some (header (code (bs ! 3)) @ seg 4 n bs)"
    by (rule decode_payload_canonical [OF _ d(2) h p]) (use Suc d in auto)
  then show ?case using frame_take [OF h] by auto
qed

subsection \<open>The validator\<close>

lemma decode_items_validate:
  assumes "\<And>bs v n. dec bs = Some (v, n) \<Longrightarrow> val bs = Some n"
  shows "decode_items dec m bs cur = Some (vs, c) \<Longrightarrow> validate_items val m bs cur = Some c"
  by (induction m arbitrary: cur vs) (auto simp: bind_eq_Some_conv dest: assms)

lemma decode_fields_validate:
  assumes "\<And>bs v n. dec bs = Some (v, n) \<Longrightarrow> val bs = Some n"
  shows "decode_fields dec m bs cur acc = Some (fs, c) \<Longrightarrow> validate_fields val m bs cur = Some c"
  by (induction m arbitrary: cur acc) (fastforce simp: bind_eq_Some_conv dest: assms split: if_splits)+

lemma decode_validate: "decode k bs = Some (v, n) \<Longrightarrow> validate k bs = Some n"
proof (induction k arbitrary: bs v n)
  case (Suc k)
  then have h: "has_header bs" and p: "decode_payload (decode k) bs = Some (v, n)"
    by (auto split: if_splits)
  have items: "validate_items (validate k) m bs cur = Some c"
    if "decode_items (decode k) m bs cur = Some (vs, c)" for m cur vs c
    by (rule decode_items_validate [OF _ that]) (rule Suc.IH)
  have fields: "validate_fields (validate k) m bs cur = Some c"
    if "decode_fields (decode k) m bs cur [] = Some (fs, c)" for m cur fs c
    by (rule decode_fields_validate [OF _ that]) (rule Suc.IH)
  from p have "validate_payload (validate k) bs = Some n"
    unfolding decode_payload_def validate_payload_def Let_def
    by (auto simp: bind_eq_Some_conv split: if_splits dest: items fields)
  with h show ?case by simp
qed simp

lemma validate_consumed:
  assumes "\<And>bs n. val bs = Some n \<Longrightarrow> n \<le> length bs"
  shows "validate_items val m bs cur = Some c \<Longrightarrow> cur \<le> length bs \<Longrightarrow> c \<le> length bs"
    and "validate_fields val m bs cur = Some c \<Longrightarrow> cur \<le> length bs \<Longrightarrow> c \<le> length bs"
proof (induction m arbitrary: cur)
  case (Suc m)
  {
    case 1
    then show ?case using Suc.IH(1) by (fastforce simp: bind_eq_Some_conv codec_simps dest: assms)
  next
    case 2
    then show ?case using Suc.IH(2)
      by (fastforce simp: bind_eq_Some_conv codec_simps dest: assms split: if_splits)
  }
qed auto

lemma validate_bounded: "validate k bs = Some n \<Longrightarrow> n \<le> length bs"
proof (induction k arbitrary: bs n)
  case (Suc k)
  then have h: "has_header bs" and p: "validate_payload (validate k) bs = Some n"
    by (auto split: if_splits)
  have loops: "validate_items (validate k) m bs cur = Some c \<Longrightarrow> cur \<le> length bs \<Longrightarrow> c \<le> length bs"
    "validate_fields (validate k) m bs cur = Some c \<Longrightarrow> cur \<le> length bs \<Longrightarrow> c \<le> length bs" for m cur c
    by (rule validate_consumed [where val = "validate k"], rule Suc.IH, assumption+)+
  from p show ?case
    unfolding validate_payload_def Let_def
    using has_header_decomp(2) [OF h]
    by (auto simp: bind_eq_Some_conv codec_simps split: if_splits dest: loops)
qed simp

end
