(* ===== verification/State_Executor.thy ===== *)
theory State_Executor
  imports Value_Codec
begin

section \<open>The state executor: operations, expression machine, list rendering\<close>

text \<open>
  The exported functions of \<open>axonyx-state-wasm/src/lib.rs\<close> and what they call. The two
  static buffers are the record \<open>executor\<close>; an ABI call takes it and returns it with the
  \<open>u32\<close> result (\<open>state_error\<close> is \<open>u32::MAX\<close>). The expression machine
  (\<open>evaluate_expression_program\<close>) reads its program at a cursor; its \<open>Vec\<close> stack is a
  list with the top first. \<open>vm_run\<close> terminates because every instruction moves the cursor
  forward.
\<close>

record executor =
  string_buffer :: bytes
  value_buffer :: bytes

definition string_capacity :: nat where
  "string_capacity = 4096"

definition state_error :: nat where
  "state_error = 2 ^ 32 - 1"

definition executor_ok :: "executor \<Rightarrow> bool" where
  "executor_ok e = (length (string_buffer e) = string_capacity \<and> length (value_buffer e) = value_capacity)"

subsection \<open>Scalar state operations\<close>

text \<open>Operations: 0 set, 1 add, 2 sub, 3 toggle. Types: 0 string, 1 number, 2 bool, 3 value.\<close>

definition ax_state_supports_operation :: "nat \<Rightarrow> nat \<Rightarrow> nat" where
  "ax_state_supports_operation value_type operation =
     of_bool ((value_type = 0 \<and> operation = 0)
       \<or> (value_type = 1 \<and> (operation = 0 \<or> operation = 1 \<or> operation = 2))
       \<or> (value_type = 2 \<and> (operation = 0 \<or> operation = 3))
       \<or> (value_type = 3 \<and> operation = 0))"

definition ax_state_apply_number :: "nat \<Rightarrow> f64 \<Rightarrow> f64 \<Rightarrow> f64" where
  "ax_state_apply_number operation current operand =
     (if operation = 0 then operand
      else if operation = 1 then f64_add current operand
      else if operation = 2 then f64_sub current operand
      else f64_nan)"

definition ax_state_apply_bool :: "nat \<Rightarrow> nat \<Rightarrow> nat \<Rightarrow> nat" where
  "ax_state_apply_bool operation current operand =
     (if operation = 0 then of_bool (operand \<noteq> 0)
      else if operation = 3 then of_bool (current = 0)
      else state_error)"

definition ax_state_apply_string :: "executor \<Rightarrow> nat \<Rightarrow> nat \<Rightarrow> nat" where
  "ax_state_apply_string e operation operand_len =
     (if operation \<noteq> 0 \<or> string_capacity < operand_len then state_error
      else if \<not> utf8_ok (take operand_len (string_buffer e)) then state_error
      else operand_len)"

definition ax_state_apply_value :: "executor \<Rightarrow> nat \<Rightarrow> nat \<Rightarrow> nat" where
  "ax_state_apply_value e operation operand_len =
     (if operation \<noteq> 0 \<or> value_capacity < operand_len then state_error
      else case validate_value_frame (take operand_len (value_buffer e)) 0 of
        Some consumed \<Rightarrow> if consumed = operand_len then operand_len else state_error
      | None \<Rightarrow> state_error)"

subsection \<open>Value operations of the expression machine\<close>

fun value_eq :: "expr_value \<Rightarrow> expr_value \<Rightarrow> bool"
  and values_eq :: "expr_value list \<Rightarrow> expr_value list \<Rightarrow> bool"
  and fields_eq :: "(string \<times> expr_value) list \<Rightarrow> (string \<times> expr_value) list \<Rightarrow> bool" where
  "value_eq EvNull w = (case w of EvNull \<Rightarrow> True | _ \<Rightarrow> False)"
| "value_eq (EvString a) w = (case w of EvString b \<Rightarrow> a = b | _ \<Rightarrow> False)"
| "value_eq (EvBool a) w = (case w of EvBool b \<Rightarrow> a = b | _ \<Rightarrow> False)"
| "value_eq (EvFloat a) w = (case w of EvFloat b \<Rightarrow> f64_eq a b | _ \<Rightarrow> False)"
| "value_eq (EvInt a) w = (case w of EvInt b \<Rightarrow> a = b | _ \<Rightarrow> False)"
| "value_eq (EvBytes a) w = (case w of EvBytes b \<Rightarrow> a = b | _ \<Rightarrow> False)"
| "value_eq (EvList a) w = (case w of EvList b \<Rightarrow> values_eq a b | _ \<Rightarrow> False)"
| "value_eq (EvObject a) w = (case w of EvObject b \<Rightarrow> fields_eq a b | _ \<Rightarrow> False)"
| "values_eq [] ws = (ws = [])"
| "values_eq (v # vs) ws = (case ws of w # ws' \<Rightarrow> value_eq v w \<and> values_eq vs ws' | [] \<Rightarrow> False)"
| "fields_eq [] gs = (gs = [])"
| "fields_eq ((k, v) # fs) gs =
     (case gs of (l, w) # gs' \<Rightarrow> k = l \<and> value_eq v w \<and> fields_eq fs gs' | [] \<Rightarrow> False)"

definition expr_values_equal :: "expr_value \<Rightarrow> expr_value \<Rightarrow> bool" where
  "expr_values_equal left right =
     (case (left, right) of
        (EvInt a, EvFloat b) \<Rightarrow> f64_eq (f64_of_i64 a) b
      | (EvFloat a, EvInt b) \<Rightarrow> f64_eq a (f64_of_i64 b)
      | _ \<Rightarrow> value_eq left right)"

fun expr_truthy :: "expr_value \<Rightarrow> bool" where
  "expr_truthy EvNull = False"
| "expr_truthy (EvString s) = (s \<noteq> [])"
| "expr_truthy (EvBool b) = b"
| "expr_truthy (EvFloat f) = (\<not> f64_is_zero f)"
| "expr_truthy (EvInt i) = (i \<noteq> 0)"
| "expr_truthy (EvBytes s) = (s \<noteq> [])"
| "expr_truthy (EvList vs) = (vs \<noteq> [])"
| "expr_truthy (EvObject fs) = (fs \<noteq> [])"

definition str_cmp :: "string \<Rightarrow> string \<Rightarrow> ordering" where
  "str_cmp a b = (if a < b then Less else if a = b then Equal else Greater)"

definition expr_compare :: "expr_value \<Rightarrow> expr_value \<Rightarrow> ordering option" where
  "expr_compare left right =
     (case (left, right) of
        (EvInt a, EvInt b) \<Rightarrow> Some (int_cmp (sint a) (sint b))
      | (EvFloat a, EvFloat b) \<Rightarrow> f64_cmp a b
      | (EvInt a, EvFloat b) \<Rightarrow> f64_cmp (f64_of_i64 a) b
      | (EvFloat a, EvInt b) \<Rightarrow> f64_cmp a (f64_of_i64 b)
      | (EvString a, EvString b) \<Rightarrow> Some (str_cmp a b)
      | _ \<Rightarrow> None)"

definition finite_float :: "f64 \<Rightarrow> expr_value option" where
  "finite_float f = (if is_finite f then Some (EvFloat f) else None)"

fun expr_scalar :: "expr_value \<Rightarrow> string option" where
  "expr_scalar (EvString s) = Some s"
| "expr_scalar (EvInt i) = Some (show_int (sint i))"
| "expr_scalar (EvFloat f) = Some (if f64_is_zero f then ''0'' else show_f64 f)"
| "expr_scalar (EvBool b) = Some (if b then ''true'' else ''false'')"
| "expr_scalar _ = None"

fun is_string :: "expr_value \<Rightarrow> bool" where
  "is_string (EvString _) = True"
| "is_string _ = False"

definition concat_scalars :: "expr_value \<Rightarrow> expr_value \<Rightarrow> expr_value option" where
  "concat_scalars a b =
     (if is_string a \<or> is_string b then do {
        s \<leftarrow> expr_scalar a;
        t \<leftarrow> expr_scalar b;
        Some (EvString (s @ t)) }
      else None)"

definition expr_add :: "expr_value \<Rightarrow> expr_value \<Rightarrow> expr_value option" where
  "expr_add left right =
     (case (left, right) of
        (EvInt a, EvInt b) \<Rightarrow> map_option EvInt (checked_add a b)
      | (EvFloat a, EvFloat b) \<Rightarrow> finite_float (f64_add a b)
      | (EvInt a, EvFloat b) \<Rightarrow> finite_float (f64_add (f64_of_i64 a) b)
      | (EvFloat a, EvInt b) \<Rightarrow> finite_float (f64_add a (f64_of_i64 b))
      | _ \<Rightarrow> concat_scalars left right)"

fun number_is_zero :: "expr_value \<Rightarrow> bool" where
  "number_is_zero (EvInt i) = (i = 0)"
| "number_is_zero (EvFloat f) = f64_is_zero f"
| "number_is_zero _ = False"

definition expr_numeric :: "(i64 \<Rightarrow> i64 \<Rightarrow> i64 option) \<Rightarrow> (f64 \<Rightarrow> f64 \<Rightarrow> f64) \<Rightarrow> bool
    \<Rightarrow> expr_value \<Rightarrow> expr_value \<Rightarrow> expr_value option" where
  "expr_numeric int_op float_op reject_zero left right =
     (if reject_zero \<and> number_is_zero right then None
      else case (left, right) of
        (EvInt a, EvInt b) \<Rightarrow> map_option EvInt (int_op a b)
      | (EvFloat a, EvFloat b) \<Rightarrow> finite_float (float_op a b)
      | (EvInt a, EvFloat b) \<Rightarrow> finite_float (float_op (f64_of_i64 a) b)
      | (EvFloat a, EvInt b) \<Rightarrow> finite_float (float_op a (f64_of_i64 b))
      | _ \<Rightarrow> None)"

definition field_or_null :: "string \<Rightarrow> (string \<times> expr_value) list \<Rightarrow> expr_value" where
  "field_or_null name flds = (case map_of flds name of Some v \<Rightarrow> v | None \<Rightarrow> EvNull)"

definition expr_index :: "expr_value \<Rightarrow> expr_value \<Rightarrow> expr_value option" where
  "expr_index object index =
     (case (object, index) of
        (EvList items, EvInt i) \<Rightarrow>
          Some (if 0 \<le> sint i \<and> sint i < int usize_limit \<and> nat (sint i) < length items
                then items ! nat (sint i) else EvNull)
      | (EvObject flds, EvString key) \<Rightarrow> Some (field_or_null key flds)
      | _ \<Rightarrow> None)"

definition compare_with :: "(ordering \<Rightarrow> bool) \<Rightarrow> expr_value \<Rightarrow> expr_value \<Rightarrow> expr_value option" where
  "compare_with ok a b = map_option (\<lambda>c. EvBool (ok c)) (expr_compare a b)"

definition expr_member :: "bool \<Rightarrow> string \<Rightarrow> expr_value \<Rightarrow> expr_value option" where
  "expr_member optional property object =
     (case object of
        EvObject flds \<Rightarrow> Some (field_or_null property flds)
      | _ \<Rightarrow> if optional then Some EvNull else None)"

definition expr_not :: "expr_value \<Rightarrow> expr_value option" where
  "expr_not v = Some (EvBool (\<not> expr_truthy v))"

definition expr_neg :: "expr_value \<Rightarrow> expr_value option" where
  "expr_neg v =
     (case v of
        EvInt i \<Rightarrow> map_option EvInt (checked_neg i)
      | EvFloat f \<Rightarrow> finite_float (f64_neg f)
      | _ \<Rightarrow> None)"

definition evaluate_binary_opcode :: "nat \<Rightarrow> expr_value \<Rightarrow> expr_value \<Rightarrow> expr_value option" where
  "evaluate_binary_opcode opcode left right =
     (if opcode = 20 then expr_add left right
      else if opcode = 21 then expr_numeric checked_sub f64_sub False left right
      else if opcode = 22 then expr_numeric checked_mul f64_mul False left right
      else if opcode = 23 then expr_numeric checked_div f64_div True left right
      else if opcode = 24 then expr_numeric checked_rem f64_rem True left right
      else if opcode = 25 then Some (EvBool (expr_values_equal left right))
      else if opcode = 26 then Some (EvBool (\<not> expr_values_equal left right))
      else if opcode = 27 then compare_with (\<lambda>c. c = Greater) left right
      else if opcode = 28 then compare_with (\<lambda>c. c \<noteq> Less) left right
      else if opcode = 29 then compare_with (\<lambda>c. c = Less) left right
      else if opcode = 30 then compare_with (\<lambda>c. c \<noteq> Greater) left right
      else if opcode = 31 then
        (case right of
           EvList items \<Rightarrow> Some (EvBool (list_ex (expr_values_equal left) items))
         | _ \<Rightarrow> None)
      else if opcode = 32 then Some (EvBool (expr_truthy left \<and> expr_truthy right))
      else if opcode = 33 then Some (EvBool (expr_truthy left \<or> expr_truthy right))
      else if opcode = 34 then Some (if left = EvNull then right else left)
      else if opcode = 40 then expr_index left right
      else None)"

subsection \<open>The expression machine\<close>

definition expression_magic :: bytes where
  "expression_magic = [CHR ''A'', CHR ''X'', CHR ''E'', CHR 0x01]"

definition collection_max_items :: nat where
  "collection_max_items = 1024"

definition stack_max_values :: nat where
  "stack_max_values = 4096"

definition read_program_string :: "bytes \<Rightarrow> nat \<Rightarrow> (string \<times> nat) option" where
  "read_program_string p cur = do {
     (len, c1) \<leftarrow> read_u32 p cur;
     (s, c2) \<leftarrow> take_bytes p c1 len;
     if utf8_ok s then Some (s, c2) else None }"

definition read_program_u16 :: "bytes \<Rightarrow> nat \<Rightarrow> (nat \<times> nat) option" where
  "read_program_u16 p cur = do { (raw, c1) \<leftarrow> take_bytes p cur 2; Some (le_value raw, c1) }"

definition pop_expression_values :: "expr_value list \<Rightarrow> nat \<Rightarrow> (expr_value list \<times> expr_value list) option" where
  "pop_expression_values st count =
     (if count \<le> length st then Some (rev (take count st), drop count st) else None)"

fun read_keys :: "bytes \<Rightarrow> nat \<Rightarrow> nat \<Rightarrow> string list \<Rightarrow> (string list \<times> nat) option" where
  "read_keys p 0 cur keys = Some (keys, cur)"
| "read_keys p (Suc n) cur keys = do {
     (key, c1) \<leftarrow> read_program_string p cur;
     if key \<in> set keys then None else read_keys p n c1 (keys @ [key]) }"

definition vm_instruction :: "bytes \<Rightarrow> expr_value list \<Rightarrow> nat \<Rightarrow> nat \<Rightarrow> expr_value list
    \<Rightarrow> (nat \<times> expr_value list) option" where
  "vm_instruction p deps opcode cur st =
     (if opcode = 0 then do {
        (raw, c1) \<leftarrow> take_bytes p cur 2;
        if le_value raw < length deps then Some (c1, deps ! le_value raw # st) else None }
      else if opcode = 1 then Some (cur, EvNull # st)
      else if opcode = 2 then do { (s, c1) \<leftarrow> read_program_string p cur; Some (c1, EvString s # st) }
      else if opcode = 3 then do {
        (raw, c1) \<leftarrow> take_bytes p cur 1;
        if 1 < le_value raw then None else Some (c1, EvBool (le_value raw = 1) # st) }
      else if opcode = 4 then do {
        (raw, c1) \<leftarrow> take_bytes p cur 8;
        if is_finite (word_of_bytes raw) then Some (c1, EvFloat (word_of_bytes raw) # st) else None }
      else if opcode = 5 then do {
        (raw, c1) \<leftarrow> take_bytes p cur 8;
        Some (c1, EvInt (word_of_bytes raw) # st) }
      else if opcode = 10 then
        (case st of v # rest \<Rightarrow> do { w \<leftarrow> expr_not v; Some (cur, w # rest) } | [] \<Rightarrow> None)
      else if opcode = 11 then
        (case st of v # rest \<Rightarrow> do { w \<leftarrow> expr_neg v; Some (cur, w # rest) } | [] \<Rightarrow> None)
      else if 20 \<le> opcode \<and> opcode \<le> 34 \<or> opcode = 40 then
        (case st of right # left # rest \<Rightarrow> do {
             w \<leftarrow> evaluate_binary_opcode opcode left right; Some (cur, w # rest) }
         | _ \<Rightarrow> None)
      else if opcode = 41 \<or> opcode = 42 then do {
        (property, c1) \<leftarrow> read_program_string p cur;
        (case st of v # rest \<Rightarrow> do { w \<leftarrow> expr_member (opcode = 42) property v; Some (c1, w # rest) }
         | [] \<Rightarrow> None) }
      else if opcode = 50 then do {
        (count, c1) \<leftarrow> read_program_u16 p cur;
        if collection_max_items < count then None
        else do {
          (values, rest) \<leftarrow> pop_expression_values st count;
          Some (c1, EvList values # rest) } }
      else if opcode = 51 then do {
        (count, c1) \<leftarrow> read_program_u16 p cur;
        if collection_max_items < count then None
        else do {
          (keys, c2) \<leftarrow> read_keys p count c1 [];
          (values, rest) \<leftarrow> pop_expression_values st count;
          Some (c2, EvObject (zip keys values) # rest) } }
      else None)"

lemma read_keys_cursor: "read_keys p n cur keys = Some (ks, c) \<Longrightarrow> cur \<le> c"
  by (induction p n cur keys rule: read_keys.induct)
    (fastforce simp: bind_eq_Some_conv read_program_string_def codec_simps split: if_splits)+

lemma vm_instruction_cursor:
  "vm_instruction p deps opcode cur st = Some (cur', st') \<Longrightarrow> cur \<le> cur'"
  unfolding vm_instruction_def
  by (auto simp: bind_eq_Some_conv codec_simps read_program_string_def read_program_u16_def
      split: if_splits list.splits dest: read_keys_cursor)

function vm_run :: "bytes \<Rightarrow> expr_value list \<Rightarrow> nat \<Rightarrow> expr_value list \<Rightarrow> expr_value list option" where
  "vm_run p deps cur st =
     (if cur < length p then
        (case vm_instruction p deps (code (p ! cur)) (Suc cur) st of
           None \<Rightarrow> None
         | Some (cur', st') \<Rightarrow> if stack_max_values < length st' then None else vm_run p deps cur' st')
      else Some st)"
  by pat_completeness auto
termination
  by (relation "measure (\<lambda>(p, deps, cur, st). length p - cur)") (auto dest!: vm_instruction_cursor)

declare vm_run.simps [simp del]

definition evaluate_expression_program :: "bytes \<Rightarrow> expr_value list \<Rightarrow> expr_value option" where
  "evaluate_expression_program p deps =
     (if length p < 4 \<or> take 4 p \<noteq> expression_magic then None
      else case vm_run p deps 4 [] of Some [v] \<Rightarrow> Some v | _ \<Rightarrow> None)"

definition evaluate_expression_request :: "bytes \<Rightarrow> expr_value option" where
  "evaluate_expression_request request = do {
     (program_len, c1) \<leftarrow> read_u32 request 0;
     (program, c2) \<leftarrow> take_bytes request c1 program_len;
     (dependency_count, c3) \<leftarrow> read_u32 request c2;
     if (length request - c3) div 4 < dependency_count then None
     else do {
       (dependencies, c4) \<leftarrow> decode_items (\<lambda>bs. decode_expr_value bs 0) dependency_count request c3;
       if c4 \<noteq> length request then None
       else evaluate_expression_program program dependencies } }"

subsection \<open>Keyed list reconciliation and item rendering\<close>

definition reconcile_max_keys :: nat where
  "reconcile_max_keys = 4096"

definition render_max_paths :: nat where
  "render_max_paths = 256"

fun take_field :: "string \<Rightarrow> (string \<times> expr_value) list \<Rightarrow> (expr_value \<times> (string \<times> expr_value) list) option" where
  "take_field name [] = None"
| "take_field name ((k, v) # fs) =
     (if k = name then Some (v, fs)
      else map_option (\<lambda>(w, rest). (w, (k, v) # rest)) (take_field name fs))"

fun nonempty_string :: "expr_value \<Rightarrow> string option" where
  "nonempty_string (EvString s) = (if s = [] then None else Some s)"
| "nonempty_string _ = None"

fun any_string :: "expr_value \<Rightarrow> string option" where
  "any_string (EvString s) = Some s"
| "any_string _ = None"

definition take_string_list :: "(string \<times> expr_value) list \<Rightarrow> string
    \<Rightarrow> (string list \<times> (string \<times> expr_value) list) option" where
  "take_string_list flds name = do {
     (v, rest) \<leftarrow> take_field name flds;
     (case v of
        EvList values \<Rightarrow> do { ss \<leftarrow> opt_map nonempty_string values; Some (ss, rest) }
      | _ \<Rightarrow> None) }"

definition take_render_paths :: "(string \<times> expr_value) list
    \<Rightarrow> (string list \<times> (string \<times> expr_value) list) option" where
  "take_render_paths flds = do {
     (v, rest) \<leftarrow> take_field ''paths'' flds;
     (case v of
        EvList values \<Rightarrow> do { ss \<leftarrow> opt_map any_string values; Some (ss, rest) }
      | _ \<Rightarrow> None) }"

definition reconcile_key_request :: "expr_value \<Rightarrow> expr_value option" where
  "reconcile_key_request value =
     (case value of
        EvObject flds \<Rightarrow> do {
          (old, flds1) \<leftarrow> take_string_list flds ''old'';
          (next, flds2) \<leftarrow> take_string_list flds1 ''next'';
          if flds2 \<noteq> [] \<or> reconcile_max_keys < length old \<or> reconcile_max_keys < length next then None
          else if card (set old) \<noteq> length old \<or> card (set next) \<noteq> length next then None
          else
            let removed = map EvString (filter (\<lambda>k. k \<notin> set next) old);
                inserted = map EvString (filter (\<lambda>k. k \<notin> set old) next);
                order = map EvString (filter (\<lambda>k. k \<in> set old) next)
            in Some (EvObject [(''inserted'', EvList inserted), (''order'', EvList order),
                               (''removed'', EvList removed)]) }
      | _ \<Rightarrow> None)"

fun resolve_segments :: "nat \<Rightarrow> expr_value \<Rightarrow> string list \<Rightarrow> expr_value option" where
  "resolve_segments n v [] = Some v"
| "resolve_segments n v (part # parts) =
     (if part = [] \<or> value_max_depth < Suc n then None
      else case v of
        EvObject flds \<Rightarrow> do { w \<leftarrow> map_of flds part; resolve_segments (Suc n) w parts }
      | _ \<Rightarrow> None)"

definition resolve_each_path :: "expr_value \<Rightarrow> string \<Rightarrow> expr_value option" where
  "resolve_each_path item path =
     (if path = [] then Some item else resolve_segments 0 item (split_on (CHR ''.'') path))"

definition render_each_request :: "expr_value \<Rightarrow> expr_value option" where
  "render_each_request value =
     (case value of
        EvObject flds \<Rightarrow> do {
          (item, flds1) \<leftarrow> take_field ''item'' flds;
          (paths, flds2) \<leftarrow> take_render_paths flds1;
          if flds2 \<noteq> [] \<or> render_max_paths < length paths then None
          else map_option EvList (opt_map (resolve_each_path item) paths) }
      | _ \<Rightarrow> None)"

subsection \<open>Requests over the shared value buffer\<close>

definition write_value :: "executor \<Rightarrow> bytes \<Rightarrow> executor" where
  "write_value e bs = e\<lparr>value_buffer := bs @ drop (length bs) (value_buffer e)\<rparr>"

definition reply :: "executor \<Rightarrow> expr_value option \<Rightarrow> nat \<times> executor" where
  "reply e result =
     (case do { v \<leftarrow> result; encode_expr_value 0 v } of
        None \<Rightarrow> (state_error, e)
      | Some encoded \<Rightarrow>
          if value_capacity < length encoded then (state_error, e)
          else (length encoded, write_value e encoded))"

definition whole_value :: "bytes \<Rightarrow> expr_value option" where
  "whole_value request = do {
     (value, consumed) \<leftarrow> decode_expr_value request 0;
     if consumed = length request then Some value else None }"

definition ax_state_evaluate_expression :: "executor \<Rightarrow> nat \<Rightarrow> nat \<times> executor" where
  "ax_state_evaluate_expression e request_len =
     (if value_capacity < request_len then (state_error, e)
      else reply e (evaluate_expression_request (take request_len (value_buffer e))))"

definition ax_state_reconcile_keys :: "executor \<Rightarrow> nat \<Rightarrow> nat \<times> executor" where
  "ax_state_reconcile_keys e request_len =
     (if value_capacity < request_len then (state_error, e)
      else reply e (do { v \<leftarrow> whole_value (take request_len (value_buffer e)); reconcile_key_request v }))"

definition ax_state_render_each :: "executor \<Rightarrow> nat \<Rightarrow> nat \<times> executor" where
  "ax_state_render_each e request_len =
     (if value_capacity < request_len then (state_error, e)
      else reply e (do { v \<leftarrow> whole_value (take request_len (value_buffer e)); render_each_request v }))"

subsection \<open>Values stay well formed\<close>

lemma expr_scalar_ok: "expr_scalar v = Some s \<Longrightarrow> value_ok v \<Longrightarrow> utf8_ok s"
  by (cases v) (auto intro!: utf8_ok_ascii simp: code_def split: if_splits)

lemma finite_float_ok: "finite_float f = Some v \<Longrightarrow> value_ok v"
  by (auto simp: finite_float_def split: if_splits)

lemma concat_scalars_ok: "concat_scalars a b = Some v \<Longrightarrow> value_ok a \<Longrightarrow> value_ok b \<Longrightarrow> value_ok v"
  by (auto simp: concat_scalars_def bind_eq_Some_conv intro!: utf8_ok_append
      elim: expr_scalar_ok split: if_splits)

lemma field_or_null_ok:
  "list_all (\<lambda>(k, v). utf8_ok k \<and> value_ok v) fs \<Longrightarrow> value_ok (field_or_null name fs)"
  by (auto simp: field_or_null_def list_all_iff dest: map_of_SomeD split: option.splits)

lemma binary_ok:
  assumes "evaluate_binary_opcode opc a b = Some v" and "value_ok a" and "value_ok b"
  shows "value_ok v"
proof -
  have num: "expr_numeric f g z a b = Some v \<Longrightarrow> value_ok v" for f g z v
    by (auto simp: expr_numeric_def split: if_splits expr_value.splits intro: finite_float_ok)
  have add: "expr_add a b = Some v \<Longrightarrow> value_ok v" for v
    using assms(2,3)
    by (auto simp: expr_add_def split: expr_value.splits intro: finite_float_ok concat_scalars_ok)
  have idx: "expr_index a b = Some v \<Longrightarrow> value_ok v" for v
    using assms(2,3)
    by (auto simp: expr_index_def list_all_length split: expr_value.splits intro: field_or_null_ok [unfolded list_all_length])
  have cmp: "compare_with f a b = Some v \<Longrightarrow> value_ok v" for f v
    by (auto simp: compare_with_def)
  show ?thesis using assms(1)
    unfolding evaluate_binary_opcode_def
    using assms(2,3) by (auto split: if_splits expr_value.splits intro: num add idx cmp)
qed

lemma read_program_string_ok: "read_program_string p cur = Some (s, c) \<Longrightarrow> utf8_ok s"
  by (auto simp: read_program_string_def bind_eq_Some_conv split: if_splits)

lemma read_keys_ok:
  "read_keys p n cur keys = Some (ks, c) \<Longrightarrow> distinct keys \<Longrightarrow> list_all utf8_ok keys \<Longrightarrow>
   distinct ks \<and> list_all utf8_ok ks \<and> length ks = length keys + n"
proof (induction p n cur keys rule: read_keys.induct)
  case (2 p n cur keys)
  then show ?case
    by (fastforce simp: bind_eq_Some_conv dest: read_program_string_ok split: if_splits)
qed simp

lemma zip_fields_ok:
  assumes "distinct ks" "list_all utf8_ok ks" "list_all value_ok vs" "length ks = length vs"
  shows "value_ok (EvObject (zip ks vs))"
  using assms by (auto simp: list_all_iff dest: set_zip_leftD set_zip_rightD)

lemma vm_instruction_ok:
  assumes i: "vm_instruction p deps opc cur st = Some (cur', st')"
    and deps: "list_all value_ok deps" and st: "list_all value_ok st"
  shows "list_all value_ok st'"
proof -
  have not: "expr_not v = Some w \<Longrightarrow> value_ok w" for v w by (auto simp: expr_not_def)
  have neg: "expr_neg v = Some w \<Longrightarrow> value_ok w" for v w
    by (auto simp: expr_neg_def split: expr_value.splits intro: finite_float_ok)
  have mem: "expr_member o' s v = Some w \<Longrightarrow> value_ok v \<Longrightarrow> value_ok w" for o' s v w
    by (auto simp: expr_member_def split: expr_value.splits if_splits intro: field_or_null_ok)
  have pop: "list_all value_ok vs \<and> list_all value_ok rest \<and> length vs = n"
    if "pop_expression_values st n = Some (vs, rest)" for n vs rest
    using that st set_take_subset [of n st] set_drop_subset [of n st]
    by (auto simp: pop_expression_values_def list_all_iff split: if_splits)
  have dep: "i < length deps \<Longrightarrow> value_ok (deps ! i)" for i
    using deps by (simp add: list_all_length)
  have obj: "value_ok (EvObject (zip ks vs)) \<and> list_all value_ok rest"
    if "read_keys p n c [] = Some (ks, c')" "pop_expression_values st n = Some (vs, rest)" for n c ks c' vs rest
    using read_keys_ok [OF that(1)] pop [OF that(2)] zip_fields_ok [of ks vs] by simp
  note [simp del] = value_ok.simps(4)
  show ?thesis
  proof (cases "opc = 41 \<or> opc = 42")
    case True
    with i st obtain v rest s w where "st = v # rest" "expr_member (opc = 42) s v = Some w" "st' = w # rest"
      by (cases st) (auto simp: vm_instruction_def bind_eq_Some_conv)
    with st mem show ?thesis by auto
  next
    case False
    with i st show ?thesis
      unfolding vm_instruction_def
      by (auto simp: bind_eq_Some_conv dep intro: not neg binary_ok mem
        split: if_splits list.splits dest: read_program_string_ok pop obj)
  qed
qed

lemma vm_run_step:
  "cur < length p \<Longrightarrow> vm_run p deps cur st =
     (case vm_instruction p deps (code (p ! cur)) (Suc cur) st of
        None \<Rightarrow> None
      | Some (cur', st') \<Rightarrow> if stack_max_values < length st' then None else vm_run p deps cur' st')"
  by (subst vm_run.simps) simp

lemma vm_run_halt: "length p \<le> cur \<Longrightarrow> vm_run p deps cur st = Some st"
  by (subst vm_run.simps) simp

lemma vm_run_ok:
  assumes "vm_run p deps cur st = Some st'" and "list_all value_ok deps" and "list_all value_ok st"
    and "length st \<le> stack_max_values"
  shows "list_all value_ok st' \<and> length st' \<le> stack_max_values"
  using assms
proof (induction p deps cur st rule: vm_run.induct)
  case (1 p deps cur st)
  show ?case
  proof (cases "cur < length p")
    case True
    with 1(2) obtain cur1 st1 where i: "vm_instruction p deps (code (p ! cur)) (Suc cur) st = Some (cur1, st1)"
      and l: "length st1 \<le> stack_max_values" and r: "vm_run p deps cur1 st1 = Some st'"
      by (auto simp: vm_run_step split: option.splits if_splits)
    show ?thesis
      by (rule "1.IH" [OF True i refl _ r]) (use vm_instruction_ok [OF i] 1 l in auto)
  next
    case False
    with 1 show ?thesis by (simp add: vm_run_halt)
  qed
qed

lemma evaluate_program_ok:
  "evaluate_expression_program p deps = Some v \<Longrightarrow> list_all value_ok deps \<Longrightarrow> value_ok v"
  by (auto simp: evaluate_expression_program_def dest!: vm_run_ok split: if_splits option.splits list.splits)

lemma decode_expr_value_canonical:
  "decode_expr_value bs d = Some (v, n) \<Longrightarrow> d \<le> value_max_depth \<Longrightarrow>
   n \<le> length bs \<and> value_ok v \<and> encode_expr_value d v = Some (take n bs)"
  unfolding decode_expr_value_def by (drule decode_canonical) auto

lemma evaluate_request_ok: "evaluate_expression_request r = Some v \<Longrightarrow> value_ok v"
proof -
  assume "evaluate_expression_request r = Some v"
  then obtain n c deps c' p where d: "decode_items (\<lambda>bs. decode_expr_value bs 0) n r c = Some (deps, c')"
    and c: "c \<le> length r" and p: "evaluate_expression_program p deps = Some v"
    by (auto simp: evaluate_expression_request_def bind_eq_Some_conv read_u32_Some split: if_splits)
  have "list_all value_ok deps"
    using decode_items_canonical [where d = 0, OF _ d c] decode_expr_value_canonical [where d = 0] by blast
  with p show ?thesis by (rule evaluate_program_ok)
qed

lemma take_field_Some:
  "take_field name fs = Some (v, rest) \<Longrightarrow> \<exists>a b. fs = a @ (name, v) # b \<and> rest = a @ b \<and> name \<notin> fst ` set a"
proof (induction fs arbitrary: rest)
  case (Cons p fs)
  obtain k w where p: "p = (k, w)" by force
  show ?case
  proof (cases "k = name")
    case True
    with Cons.prems p show ?thesis by (intro exI [of _ "[]"] exI [of _ fs]) simp
  next
    case False
    with Cons.prems p obtain r where "take_field name fs = Some (v, r)" "rest = (k, w) # r" by auto
    note r = this
    from Cons.IH [OF r(1)] obtain a b where "fs = a @ (name, v) # b" "r = a @ b" "name \<notin> fst ` set a" by blast
    with r False p show ?thesis by (intro exI [of _ "(k, w) # a"] exI [of _ b]) simp
  qed
qed simp

lemma take_string_list_Some:
  "take_string_list fs name = Some (ss, rest) \<Longrightarrow>
   \<exists>a b. fs = a @ (name, EvList (map EvString ss)) # b \<and> rest = a @ b \<and> [] \<notin> set ss"
proof -
  assume a: "take_string_list fs name = Some (ss, rest)"
  then obtain w where w: "take_field name fs = Some (w, snd (the (take_field name fs)))"
    by (auto simp: take_string_list_def bind_eq_Some_conv)
  with a obtain vs where f: "take_field name fs = Some (EvList vs, rest)" and m: "opt_map nonempty_string vs = Some ss"
    by (cases w) (auto simp: take_string_list_def bind_eq_Some_conv)
  have ns: "nonempty_string v = Some s \<longleftrightarrow> v = EvString s \<and> s \<noteq> []" for v s
    by (cases v) auto
  from m have "vs = map EvString ss \<and> [] \<notin> set ss"
    unfolding opt_map_Some_iff ns by (induction rule: list_all2_induct) auto
  with take_field_Some [OF f] show ?thesis by blast
qed

lemma reconcile_Some:
  assumes "reconcile_key_request v = Some plan"
  obtains old new where "distinct old" "distinct new" "[] \<notin> set old" "[] \<notin> set new"
    "v = EvObject [(''old'', EvList (map EvString old)), (''next'', EvList (map EvString new))]
     \<or> v = EvObject [(''next'', EvList (map EvString new)), (''old'', EvList (map EvString old))]"
    "length old \<le> reconcile_max_keys" "length new \<le> reconcile_max_keys"
    "plan = EvObject
       [(''inserted'', EvList (map EvString (filter (\<lambda>k. k \<notin> set old) new))),
        (''order'', EvList (map EvString (filter (\<lambda>k. k \<in> set old) new))),
        (''removed'', EvList (map EvString (filter (\<lambda>k. k \<notin> set new) old)))]"
proof -
  from assms obtain fs old f1 new where v: "v = EvObject fs"
    and o1: "take_string_list fs ''old'' = Some (old, f1)"
    and o2: "take_string_list f1 ''next'' = Some (new, [])"
    and l: "length old \<le> reconcile_max_keys" "length new \<le> reconcile_max_keys"
    and d: "card (set old) = length old" "card (set new) = length new"
    and plan: "plan = EvObject
       [(''inserted'', EvList (map EvString (filter (\<lambda>k. k \<notin> set old) new))),
        (''order'', EvList (map EvString (filter (\<lambda>k. k \<in> set old) new))),
        (''removed'', EvList (map EvString (filter (\<lambda>k. k \<notin> set new) old)))]"
    by (auto simp: reconcile_key_request_def bind_eq_Some_conv Let_def split: expr_value.splits if_splits)
  from take_string_list_Some [OF o2] have f1: "f1 = [(''next'', EvList (map EvString new))]" and n: "[] \<notin> set new"
    by auto
  from take_string_list_Some [OF o1] f1 obtain a b where
    fs: "fs = a @ (''old'', EvList (map EvString old)) # b" "a @ b = [(''next'', EvList (map EvString new))]"
    and o: "[] \<notin> set old" by auto
  from fs have "fs = [(''old'', EvList (map EvString old)), (''next'', EvList (map EvString new))]
      \<or> fs = [(''next'', EvList (map EvString new)), (''old'', EvList (map EvString old))]"
    by (cases a) auto
  with that [of old new] v l d plan n o show thesis by (auto dest: card_distinct)
qed

subsection \<open>Replies\<close>

lemma value_capacity_less: "n \<le> value_capacity \<Longrightarrow> n < usize_limit"
  by (simp add: value_capacity_def usize_limit_def)

lemma filter_strings_ok: "list_all utf8_ok ss \<Longrightarrow> list_all value_ok (map EvString (filter P ss))"
  by (auto simp: list_all_iff)

lemma reconcile_ok: "reconcile_key_request v = Some w \<Longrightarrow> value_ok v \<Longrightarrow> value_ok w"
proof (erule reconcile_Some, goal_cases)
  case (1 old new)
  then have "list_all utf8_ok old" "list_all utf8_ok new" by (auto simp: list_all_iff)
  with 1(9) filter_strings_ok show ?case
    by (simp add: utf8_ok_ascii code_def)
qed

lemma resolve_segments_ok: "resolve_segments n v ps = Some w \<Longrightarrow> value_ok v \<Longrightarrow> value_ok w"
  by (induction n v ps rule: resolve_segments.induct)
    (auto simp: bind_eq_Some_conv list_all_iff dest!: map_of_SomeD split: if_splits expr_value.splits)

lemma resolve_each_path_ok: "resolve_each_path v p = Some w \<Longrightarrow> value_ok v \<Longrightarrow> value_ok w"
  by (auto simp: resolve_each_path_def resolve_segments_ok split: if_splits)

lemma render_Some:
  assumes "render_each_request v = Some w"
  obtains fs item paths vs where "v = EvObject fs" "(''item'', item) \<in> set fs" "length paths \<le> render_max_paths"
    "list_all2 (\<lambda>p v. resolve_each_path item p = Some v) paths vs" "w = EvList vs"
proof -
  from assms obtain fs item f1 paths f2 vs where v: "v = EvObject fs" and i: "take_field ''item'' fs = Some (item, f1)"
    and p: "take_render_paths f1 = Some (paths, f2)" and l: "length paths \<le> render_max_paths"
    and vs: "opt_map (resolve_each_path item) paths = Some vs" and w: "w = EvList vs"
    by (auto simp: render_each_request_def bind_eq_Some_conv split: expr_value.splits if_splits)
  from take_field_Some [OF i] have "(''item'', item) \<in> set fs" by auto
  with that v l vs w show thesis by (simp add: opt_map_Some_iff)
qed

lemma render_ok: "render_each_request v = Some w \<Longrightarrow> value_ok v \<Longrightarrow> value_ok w"
proof (erule render_Some, goal_cases)
  case (1 fs item paths vs)
  then have "value_ok item" by (auto simp: list_all_iff)
  with 1 show ?case
    by (auto simp: list_all2_conv_all_nth list_all_length intro: resolve_each_path_ok)
qed

lemma whole_value_ok: "whole_value r = Some v \<Longrightarrow> value_ok v"
  by (auto simp: whole_value_def bind_eq_Some_conv split: if_splits dest: decode_expr_value_canonical)

lemma reply_spec:
  assumes "executor_ok ex" and "\<And>v. m = Some v \<Longrightarrow> value_ok v" and "reply ex m = (n, ex')"
  shows "executor_ok ex' \<and> string_buffer ex' = string_buffer ex \<and>
    (if n = state_error then ex' = ex
     else n \<le> value_capacity \<and> drop n (value_buffer ex') = drop n (value_buffer ex) \<and>
       (\<exists>v. m = Some v \<and> decode_expr_value (take n (value_buffer ex')) 0 = Some (v, n)))"
proof (cases "do { v \<leftarrow> m; encode_expr_value 0 v }")
  case None
  with assms show ?thesis by (auto simp: reply_def)
next
  case (Some enc)
  then obtain v where v: "m = Some v" "encode_expr_value 0 v = Some enc" by (auto simp: bind_eq_Some_conv)
  show ?thesis
  proof (cases "value_capacity < length enc")
    case True
    with assms Some show ?thesis by (auto simp: reply_def)
  next
    case False
    with assms(3) Some have n: "n = length enc" "ex' = write_value ex enc" by (auto simp: reply_def)
    have "n \<noteq> state_error" using False n by (auto simp: value_capacity_def state_error_def)
    moreover have "decode_expr_value enc 0 = Some (v, length enc)"
      using decode_encode(1) [OF v(2) assms(2) [OF v(1)], of "[]"] False value_capacity_less [of "length enc"]
      by (simp add: decode_expr_value_def del: decode.simps)
    ultimately show ?thesis
      using assms(1) n v(1) False by (auto simp: write_value_def executor_ok_def)
  qed
qed

definition zero_executor :: executor where
  "zero_executor = \<lparr> string_buffer = replicate string_capacity (CHR 0x00),
     value_buffer = header 0 @ replicate (value_capacity - 4) (CHR 0x00) \<rparr>"

lemma zero_executor_ok: "executor_ok zero_executor"
  by (simp add: zero_executor_def executor_ok_def value_capacity_def)

lemma zero_executor_value: "ax_state_apply_value zero_executor 0 4 = 4"
proof -
  have "validate_value_frame (header 0) 0 = Some 4"
    by (simp add: validate_value_frame_def validate_payload_def has_header_def header_def)
  then show ?thesis by (simp add: ax_state_apply_value_def zero_executor_def value_capacity_def)
qed

end
