(* ===== verification/Reactive_Compile.thy ===== *)
theory Reactive_Compile
  imports Ax_Expr State_Executor
begin

section \<open>The compiler of reactive expressions\<close>

text \<open>
  \<open>compile_reactive_expression\<close> of \<open>axonyx-core/src/ax_parser_auto.rs\<close>: it inlines the
  pure functions of the page (\<open>expand_pure_reactive_expression\<close>), decides whether the
  result depends on component state, and emits the program that the state executor runs
  in the browser (\<open>vm_run\<close> of \<open>State_Executor\<close>).

  The inliner stops because every call pushes a function name on \<open>call_stack\<close> and every
  parameter a name on \<open>local_stack\<close>, and a name already there is an error; that is the
  measure of its \<open>termination\<close> proof. The compiler appends to \<open>program\<close> and
  \<open>dependencies\<close>, which are passed through as a pair. The error \<open>UnsupportedReactiveExpression\<close>
  carries the expression where the source carries its formatted text.
\<close>

record state_binding =
  binding_signal_id :: string
  binding_ty :: string
  binding_literals :: "string list option"
  binding_initial :: string

record conversion_bindings =
  bound_states :: "(string, state_binding) bmap"
  bound_functions :: "ax_function list"

record reactive_plan =
  plan_expression :: ax_expr
  plan_program :: bytes
  plan_signals :: "string list"
  plan_types :: "string list"
  plan_initials :: "string list"

datatype convert_error = UnsupportedReactiveExpression ax_expr string

subsection \<open>Inlining of pure functions\<close>

fun bind_pure_params :: "((string, ax_expr) bmap \<Rightarrow> ax_expr \<Rightarrow> string + ax_expr) \<Rightarrow> string \<Rightarrow> ax_param list
    \<Rightarrow> ax_expr list \<Rightarrow> (string, ax_expr) bmap \<Rightarrow> string + (string, ax_expr) bmap" where
  "bind_pure_params ex name [] args locals = Inr locals"
| "bind_pure_params ex name (param # params) args locals =
     and_then
       (case args of
          v # _ \<Rightarrow> Inr v
        | [] \<Rightarrow> (case param_default param of
             Some d \<Rightarrow> ex locals d
           | None \<Rightarrow> Inl (''pure function `'' @ name @ ''` is missing required argument `''
                            @ param_name param @ ''`'')))
       (\<lambda>v. bind_pure_params ex name params (tl args) (bm_insert (param_name param) v locals))"

lemma bind_pure_params_cong [fundef_cong]:
  assumes "name = name'" "params = params'" "args = args'" "locals = locals'"
    and "\<And>l d. ex l d = ex' l d"
  shows "bind_pure_params ex name params args locals = bind_pure_params ex' name' params' args' locals'"
proof -
  have "ex = ex'" using assms(5) by blast
  with assms show ?thesis by simp
qed

lemma and_then_cong [fundef_cong]:
  "m = m' \<Longrightarrow> (\<And>x. m' = Inr x \<Longrightarrow> f x = f' x) \<Longrightarrow> and_then m f = and_then m' f'"
  by (cases m') auto

function expand_pure :: "conversion_bindings \<Rightarrow> (string, ax_expr) bmap \<Rightarrow> string list \<Rightarrow> string list
    \<Rightarrow> ax_expr \<Rightarrow> string + ax_expr" where
  "expand_pure b locals ls cs (ExIdentifier name) =
     (case bm_get locals name of
        None \<Rightarrow> Inr (ExIdentifier name)
      | Some value \<Rightarrow>
          if name \<in> set ls then Inl (''pure function parameter `'' @ name @ ''` resolves recursively'')
          else expand_pure b locals (ls @ [name]) cs value)"
| "expand_pure b locals ls cs (ExUnary op e) =
     and_then (expand_pure b locals ls cs e) (\<lambda>e'. Inr (ExUnary op e'))"
| "expand_pure b locals ls cs (ExBinary op l r) =
     and_then (expand_pure b locals ls cs l) (\<lambda>l'.
       and_then (expand_pure b locals ls cs r) (\<lambda>r'. Inr (ExBinary op l' r')))"
| "expand_pure b locals ls cs (ExIndex obj index) =
     and_then (expand_pure b locals ls cs obj) (\<lambda>obj'.
       and_then (expand_pure b locals ls cs index) (\<lambda>index'. Inr (ExIndex obj' index')))"
| "expand_pure b locals ls cs (ExMember obj property) =
     and_then (expand_pure b locals ls cs obj) (\<lambda>obj'. Inr (ExMember obj' property))"
| "expand_pure b locals ls cs (ExOptionalMember obj property) =
     and_then (expand_pure b locals ls cs obj) (\<lambda>obj'. Inr (ExOptionalMember obj' property))"
| "expand_pure b locals ls cs (ExCall path args) =
     (case (case path of [name] \<Rightarrow> find_function (bound_functions b) name | _ \<Rightarrow> None) of
        None \<Rightarrow> Inl (''`'' @ join_with ''.'' path @ ''` is not a local pure function'')
      | Some function \<Rightarrow>
          (let name = hd path in
           if name \<in> set cs then
             Inl (''recursive pure function calls are not supported (`''
                    @ join_with '' -> '' (cs @ [name]) @ ''`)'')
           else if length (function_params function) < length args then
             Inl (''pure function `'' @ name @ ''` expects at most ''
                    @ show_nat (length (function_params function)) @ '' arguments, received ''
                    @ show_nat (length args))
           else
             and_then (try_map (\<lambda>arg. expand_pure b locals ls cs arg) args) (\<lambda>args'.
               and_then
                 (bind_pure_params (\<lambda>fl d. expand_pure b fl ls (cs @ [name]) d) name
                    (function_params function) args' [])
                 (\<lambda>fl. expand_pure b fl ls (cs @ [name]) (function_body function)))))"
| "expand_pure b locals ls cs (ExList items) =
     and_then (try_map (\<lambda>item. expand_pure b locals ls cs item) items) (\<lambda>items'. Inr (ExList items'))"
| "expand_pure b locals ls cs (ExObject flds) =
     and_then
       (try_map (\<lambda>(name, value). and_then (expand_pure b locals ls cs value) (\<lambda>value'. Inr (name, value'))) flds)
       (\<lambda>flds'. Inr (ExObject (bm_of_list flds')))"
| "expand_pure b locals ls cs (ExString s) = Inr (ExString s)"
| "expand_pure b locals ls cs (ExNumber i) = Inr (ExNumber i)"
| "expand_pure b locals ls cs (ExFloat f) = Inr (ExFloat f)"
| "expand_pure b locals ls cs (ExBool v) = Inr (ExBool v)"
  by pat_completeness auto

lemma find_function_Some:
  "find_function fns name = Some f \<Longrightarrow> f \<in> set fns \<and> function_name f = name"
  unfolding find_function_def find_Some_iff
  by (metis nth_mem set_rev)

definition names_left :: "string set \<Rightarrow> string list \<Rightarrow> nat" where
  "names_left names stack = card (names - set stack)"

lemma names_left_push: "finite names \<Longrightarrow> n \<in> names \<Longrightarrow> n \<notin> set stack \<Longrightarrow>
   names_left names (stack @ [n]) < names_left names stack"
  unfolding names_left_def by (rule psubset_card_mono) auto

lemma bm_get_key: "bm_get m k = Some v \<Longrightarrow> k \<in> fst ` set m"
  by (metis bm_get_None_iff option.distinct(1))

termination expand_pure
proof (relation "inv_image (less_than <*lex*> less_than <*lex*> less_than)
    (\<lambda>(b, locals, ls, cs, e). (names_left (function_name ` set (bound_functions b)) cs,
       names_left (fst ` set locals) ls, size e))", goal_cases)
  case 1
  then show ?case by auto
qed (auto simp: less_Suc_eq_le size_list_estimation' names_left_push bm_get_key
      dest!: find_function_Some dest: size_field_less split: list.splits option.splits intro!: names_left_push)

subsection \<open>Dependence on state\<close>

fun expression_references_state :: "ax_expr \<Rightarrow> (string, state_binding) bmap \<Rightarrow> bool" where
  "expression_references_state (ExIdentifier name) states = (bm_get states name \<noteq> None)"
| "expression_references_state (ExUnary op e) states = expression_references_state e states"
| "expression_references_state (ExBinary op l r) states =
     (expression_references_state l states \<or> expression_references_state r states)"
| "expression_references_state (ExIndex obj index) states =
     (expression_references_state obj states \<or> expression_references_state index states)"
| "expression_references_state (ExMember obj p) states = expression_references_state obj states"
| "expression_references_state (ExOptionalMember obj p) states = expression_references_state obj states"
| "expression_references_state (ExCall path args) states =
     list_ex (\<lambda>a. expression_references_state a states) args"
| "expression_references_state (ExList items) states =
     list_ex (\<lambda>a. expression_references_state a states) items"
| "expression_references_state (ExObject flds) states =
     list_ex (\<lambda>(k, v). expression_references_state v states) flds"
| "expression_references_state (ExString s) states = False"
| "expression_references_state (ExNumber i) states = False"
| "expression_references_state (ExFloat f) states = False"
| "expression_references_state (ExBool v) states = False"

subsection \<open>Code generation\<close>

definition op_byte :: "nat \<Rightarrow> char" where
  "op_byte n = char_of n"

definition unary_opcode :: "ax_unary_op \<Rightarrow> nat" where
  "unary_opcode op = (case op of OpNot \<Rightarrow> 10 | OpNeg \<Rightarrow> 11)"

definition binary_opcode :: "ax_binary_op \<Rightarrow> nat" where
  "binary_opcode op =
     (case op of OpAdd \<Rightarrow> 20 | OpSub \<Rightarrow> 21 | OpMul \<Rightarrow> 22 | OpDiv \<Rightarrow> 23 | OpRem \<Rightarrow> 24 | OpEq \<Rightarrow> 25
      | OpNe \<Rightarrow> 26 | OpGt \<Rightarrow> 27 | OpGe \<Rightarrow> 28 | OpLt \<Rightarrow> 29 | OpLe \<Rightarrow> 30 | OpIn \<Rightarrow> 31 | OpAnd \<Rightarrow> 32
      | OpOr \<Rightarrow> 33 | OpFallback \<Rightarrow> 34)"

definition reactive_collection_count :: "nat \<Rightarrow> string \<Rightarrow> string + nat" where
  "reactive_collection_count count kind =
     (if collection_max_items < count
      then Inl (''reactive '' @ kind @ '' literal exceeds the '' @ show_nat collection_max_items @ ''-item limit'')
      else if 65535 < count then Inl (''reactive '' @ kind @ '' literal has too many items'')
      else Inr count)"

definition push_program_string :: "bytes \<Rightarrow> string \<Rightarrow> string + bytes" where
  "push_program_string program s =
     (if length s < 2 ^ 32 then Inr (program @ le_bytes 4 (length s) @ s)
      else Inl ''reactive expression string is too large'')"

fun push_program_strings :: "bytes \<Rightarrow> string list \<Rightarrow> string + bytes" where
  "push_program_strings program [] = Inr program"
| "push_program_strings program (s # ss) =
     and_then (push_program_string program s) (\<lambda>program'. push_program_strings program' ss)"

fun position :: "'a \<Rightarrow> 'a list \<Rightarrow> nat option" where
  "position x [] = None"
| "position x (y # ys) = (if y = x then Some 0 else map_option Suc (position x ys))"

definition compile_dependency :: "conversion_bindings \<Rightarrow> string \<Rightarrow> string list \<times> bytes
    \<Rightarrow> string + string list \<times> bytes" where
  "compile_dependency b name st =
     (case st of (deps, program) \<Rightarrow>
        if bm_get (bound_states b) name = None then Inl (''`'' @ name @ ''` is not reactive state'')
        else
          let (index, deps') = (case position name deps of
                                  Some i \<Rightarrow> (i, deps)
                                | None \<Rightarrow> (length deps, deps @ [name]))
          in if 65535 < index then Inl ''reactive expression has too many dependencies''
             else Inr (deps', program @ [op_byte 0] @ le_bytes 2 index))"

fun compile_node :: "conversion_bindings \<Rightarrow> ax_expr \<Rightarrow> string list \<times> bytes \<Rightarrow> string + string list \<times> bytes"
  and compile_nodes :: "conversion_bindings \<Rightarrow> ax_expr list \<Rightarrow> string list \<times> bytes
    \<Rightarrow> string + string list \<times> bytes"
  and compile_fields :: "conversion_bindings \<Rightarrow> (string \<times> ax_expr) list \<Rightarrow> string list \<times> bytes
    \<Rightarrow> string + string list \<times> bytes" where
  "compile_node b (ExString s) (deps, program) =
     and_then (push_program_string (program @ [op_byte 2]) s) (\<lambda>p. Inr (deps, p))"
| "compile_node b (ExNumber i) (deps, program) = Inr (deps, program @ [op_byte 5] @ word_bytes i)"
| "compile_node b (ExFloat f) (deps, program) = Inr (deps, program @ [op_byte 4] @ word_bytes f)"
| "compile_node b (ExBool v) (deps, program) =
     Inr (deps, program @ [op_byte 3, char_of (of_bool v :: nat)])"
| "compile_node b (ExIdentifier name) st =
     (if name = ''null'' then Inr (fst st, snd st @ [op_byte 1]) else compile_dependency b name st)"
| "compile_node b (ExUnary op e) st =
     and_then (compile_node b e st) (\<lambda>(deps, p). Inr (deps, p @ [op_byte (unary_opcode op)]))"
| "compile_node b (ExBinary op l r) st =
     and_then (compile_node b l st) (\<lambda>st1. and_then (compile_node b r st1)
       (\<lambda>(deps, p). Inr (deps, p @ [op_byte (binary_opcode op)])))"
| "compile_node b (ExIndex obj index) st =
     and_then (compile_node b obj st) (\<lambda>st1. and_then (compile_node b index st1)
       (\<lambda>(deps, p). Inr (deps, p @ [op_byte 40])))"
| "compile_node b (ExMember obj property) st =
     and_then (compile_node b obj st) (\<lambda>(deps, p).
       and_then (push_program_string (p @ [op_byte 41]) property) (\<lambda>p'. Inr (deps, p')))"
| "compile_node b (ExOptionalMember obj property) st =
     and_then (compile_node b obj st) (\<lambda>(deps, p).
       and_then (push_program_string (p @ [op_byte 42]) property) (\<lambda>p'. Inr (deps, p')))"
| "compile_node b (ExCall path args) st =
     Inl (''pure function `'' @ join_with ''.'' path @ ''` could not be fully inlined'')"
| "compile_node b (ExList items) st =
     and_then (reactive_collection_count (length items) ''list'') (\<lambda>count.
       and_then (compile_nodes b items st) (\<lambda>(deps, p). Inr (deps, p @ [op_byte 50] @ le_bytes 2 count)))"
| "compile_node b (ExObject flds) st =
     and_then (reactive_collection_count (length flds) ''object'') (\<lambda>count.
       and_then (compile_fields b flds st) (\<lambda>(deps, p).
         and_then (push_program_strings (p @ [op_byte 51] @ le_bytes 2 count) (map fst flds))
           (\<lambda>p'. Inr (deps, p'))))"
| "compile_nodes b [] st = Inr st"
| "compile_nodes b (e # es) st = and_then (compile_node b e st) (\<lambda>st'. compile_nodes b es st')"
| "compile_fields b [] st = Inr st"
| "compile_fields b ((k, e) # fs) st = and_then (compile_node b e st) (\<lambda>st'. compile_fields b fs st')"

definition compile_reactive_expression :: "ax_expr \<Rightarrow> conversion_bindings \<Rightarrow> convert_error + reactive_plan option" where
  "compile_reactive_expression e b =
     (case expand_pure b [] [] [] e of
        Inl reason \<Rightarrow>
          if expression_references_state e (bound_states b)
          then Inl (UnsupportedReactiveExpression e reason)
          else Inr None
      | Inr expanded \<Rightarrow>
          if \<not> expression_references_state expanded (bound_states b) then Inr None
          else
            and_then
              (map_err (UnsupportedReactiveExpression e) (compile_node b expanded ([], expression_magic)))
              (\<lambda>(deps, program).
                 let bound = (\<lambda>name. the (bm_get (bound_states b) name)) in
                 Inr (Some \<lparr> plan_expression = expanded, plan_program = program,
                   plan_signals = map (binding_signal_id \<circ> bound) deps,
                   plan_types = map (binding_ty \<circ> bound) deps,
                   plan_initials = map (binding_initial \<circ> bound) deps \<rparr>)))"

subsection \<open>Hexadecimal programs\<close>

definition encode_hex :: "bytes \<Rightarrow> string" where
  "encode_hex bs = concat (map (\<lambda>c. [nibble_char (code c div 16), nibble_char (code c mod 16)]) bs)"

end
