(* ===== verification/Reactive_Correct.thy ===== *)
theory Reactive_Correct
  imports Reactive_Compile
begin

section \<open>Compiled reactive expressions compute what the expression means\<close>

text \<open>
  The specification of a reactive expression is \<open>expr_eval\<close>, by recursion on the tree and
  with the value operations of the executor. \<open>compile_correct\<close> shows, for code anywhere in
  a program and any stack below it, that running the code pushes the value of the
  expression, or fails where the expression has none. \<open>stack_need\<close> is the stack the code
  takes; the machine stops above \<open>stack_max_values\<close>. \<open>compiled_program_correct\<close> is the
  statement for a whole plan, \<open>evaluate_request_frame\<close> the one for the request that carries
  it, and \<open>expand_ok\<close>, \<open>expand_call_free\<close> are what inlining keeps.
\<close>

subsection \<open>Specification\<close>

definition unary_meaning :: "ax_unary_op \<Rightarrow> expr_value \<Rightarrow> expr_value option" where
  "unary_meaning op v = (case op of OpNot \<Rightarrow> expr_not v | OpNeg \<Rightarrow> expr_neg v)"

definition binary_meaning :: "ax_binary_op \<Rightarrow> expr_value \<Rightarrow> expr_value \<Rightarrow> expr_value option" where
  "binary_meaning op a b =
     (case op of
        OpAdd \<Rightarrow> expr_add a b
      | OpSub \<Rightarrow> expr_numeric checked_sub f64_sub False a b
      | OpMul \<Rightarrow> expr_numeric checked_mul f64_mul False a b
      | OpDiv \<Rightarrow> expr_numeric checked_div f64_div True a b
      | OpRem \<Rightarrow> expr_numeric checked_rem f64_rem True a b
      | OpEq \<Rightarrow> Some (EvBool (expr_values_equal a b))
      | OpNe \<Rightarrow> Some (EvBool (\<not> expr_values_equal a b))
      | OpGt \<Rightarrow> compare_with (\<lambda>c. c = Greater) a b
      | OpGe \<Rightarrow> compare_with (\<lambda>c. c \<noteq> Less) a b
      | OpLt \<Rightarrow> compare_with (\<lambda>c. c = Less) a b
      | OpLe \<Rightarrow> compare_with (\<lambda>c. c \<noteq> Greater) a b
      | OpIn \<Rightarrow> (case b of EvList items \<Rightarrow> Some (EvBool (list_ex (expr_values_equal a) items)) | _ \<Rightarrow> None)
      | OpAnd \<Rightarrow> Some (EvBool (expr_truthy a \<and> expr_truthy b))
      | OpOr \<Rightarrow> Some (EvBool (expr_truthy a \<or> expr_truthy b))
      | OpFallback \<Rightarrow> Some (if a = EvNull then b else a))"

fun expr_eval :: "(string \<Rightarrow> expr_value option) \<Rightarrow> ax_expr \<Rightarrow> expr_value option" where
  "expr_eval env (ExString s) = Some (EvString s)"
| "expr_eval env (ExNumber i) = Some (EvInt i)"
| "expr_eval env (ExFloat f) = Some (EvFloat f)"
| "expr_eval env (ExBool b) = Some (EvBool b)"
| "expr_eval env (ExIdentifier name) = (if name = ''null'' then Some EvNull else env name)"
| "expr_eval env (ExUnary op e) = do { v \<leftarrow> expr_eval env e; unary_meaning op v }"
| "expr_eval env (ExBinary op l r) = do {
     a \<leftarrow> expr_eval env l; b \<leftarrow> expr_eval env r; binary_meaning op a b }"
| "expr_eval env (ExIndex obj index) = do {
     a \<leftarrow> expr_eval env obj; b \<leftarrow> expr_eval env index; expr_index a b }"
| "expr_eval env (ExMember obj property) = do { v \<leftarrow> expr_eval env obj; expr_member False property v }"
| "expr_eval env (ExOptionalMember obj property) = do { v \<leftarrow> expr_eval env obj; expr_member True property v }"
| "expr_eval env (ExCall path args) = None"
| "expr_eval env (ExList items) = map_option EvList (opt_map (\<lambda>e. expr_eval env e) items)"
| "expr_eval env (ExObject flds) =
     map_option (\<lambda>vs. EvObject (zip (map fst flds) vs)) (opt_map (\<lambda>(k, e). expr_eval env e) flds)"

fun max_slots :: "nat list \<Rightarrow> nat" where
  "max_slots [] = 0"
| "max_slots (n # ns) = max n (Suc (max_slots ns))"

fun stack_need :: "ax_expr \<Rightarrow> nat" where
  "stack_need (ExUnary op e) = stack_need e"
| "stack_need (ExBinary op l r) = max (stack_need l) (Suc (stack_need r))"
| "stack_need (ExIndex l r) = max (stack_need l) (Suc (stack_need r))"
| "stack_need (ExMember e p) = stack_need e"
| "stack_need (ExOptionalMember e p) = stack_need e"
| "stack_need (ExList items) = max 1 (max_slots (map (\<lambda>e. stack_need e) items))"
| "stack_need (ExObject flds) = max 1 (max_slots (map (\<lambda>(k, e). stack_need e) flds))"
| "stack_need _ = 1"

fun expr_ok :: "ax_expr \<Rightarrow> bool" where
  "expr_ok (ExString s) = utf8_ok s"
| "expr_ok (ExFloat f) = (ax_float_new f = Some f)"
| "expr_ok (ExUnary op e) = expr_ok e"
| "expr_ok (ExBinary op l r) = (expr_ok l \<and> expr_ok r)"
| "expr_ok (ExIndex l r) = (expr_ok l \<and> expr_ok r)"
| "expr_ok (ExMember e p) = (expr_ok e \<and> utf8_ok p)"
| "expr_ok (ExOptionalMember e p) = (expr_ok e \<and> utf8_ok p)"
| "expr_ok (ExList items) = list_all (\<lambda>e. expr_ok e) items"
| "expr_ok (ExObject flds) = (bm_ok flds \<and> list_all (\<lambda>(k, e). utf8_ok k \<and> expr_ok e) flds)"
| "expr_ok (ExCall path args) = list_all (\<lambda>e. expr_ok e) args"
| "expr_ok _ = True"

subsection \<open>One instruction\<close>

lemma code_op_byte [simp]: "n < 256 \<Longrightarrow> code (op_byte n) = n"
  by (simp add: op_byte_def)

lemma vm_exec:
  assumes "p = pre @ op_byte k # rest" and "k < 256"
    and "vm_instruction p vals k (Suc (length pre)) st = Some (cur', st')"
    and "length st' \<le> stack_max_values"
  shows "vm_run p vals (length pre) st = vm_run p vals cur' st'"
proof -
  have "length pre < length p" and "p ! length pre = op_byte k" using assms(1) by auto
  with assms(2-) show ?thesis by (simp add: vm_run_step)
qed

lemma vm_exec_None:
  assumes "p = pre @ op_byte k # rest" and "k < 256"
    and "vm_instruction p vals k (Suc (length pre)) st = None"
  shows "vm_run p vals (length pre) st = None"
proof -
  have "length pre < length p" and "p ! length pre = op_byte k" using assms(1) by auto
  with assms(2-) show ?thesis by (simp add: vm_run_step)
qed

lemma take_bytes_here:
  "bs = pre @ x @ rest \<Longrightarrow> length bs < usize_limit \<Longrightarrow> n = length x \<Longrightarrow> c = length pre \<Longrightarrow>
   take_bytes bs c n = Some (x, c + n)"
  by (simp add: take_bytes_Some)

lemma read_program_string_here:
  assumes "bs = pre @ le_bytes 4 (length s) @ s @ rest" "length bs < usize_limit" "utf8_ok s"
    and "length s < 2 ^ 32" and "c = length pre"
  shows "read_program_string bs c = Some (s, c + 4 + length s)"
proof -
  have "read_u32 bs c = Some (length s, c + 4)"
    using assms read_u32_at [of "length s" pre "s @ rest"] by simp
  moreover have "take_bytes bs (c + 4) (length s) = Some (s, c + 4 + length s)"
    by (rule take_bytes_here [of bs "pre @ le_bytes 4 (length s)"]) (use assms in auto)
  ultimately show ?thesis using assms by (simp add: read_program_string_def)
qed

lemma le_value_bytes2 [simp]: "n \<le> 65535 \<Longrightarrow> le_value (le_bytes 2 n) = n"
  by (rule le_value_bytes) simp

lemma vm_push_word:
  assumes "p = pre @ [op_byte 5] @ word_bytes i @ post" "length p < usize_limit" "length st < stack_max_values"
  shows "vm_run p vals (length pre) st = vm_run p vals (length pre + 9) (EvInt i # st)"
proof -
  have "take_bytes p (Suc (length pre)) 8 = Some (word_bytes i, Suc (length pre) + 8)"
    by (rule take_bytes_here [of _ "pre @ [op_byte 5]"]) (use assms in auto)
  then show ?thesis
    by (intro vm_exec [where k = 5 and rest = "word_bytes i @ post"]) (use assms in \<open>auto simp: vm_instruction_def\<close>)
qed

lemma vm_push_float:
  assumes "p = pre @ [op_byte 4] @ word_bytes f @ post" "length p < usize_limit" "length st < stack_max_values"
    and "is_finite f"
  shows "vm_run p vals (length pre) st = vm_run p vals (length pre + 9) (EvFloat f # st)"
proof -
  have "take_bytes p (Suc (length pre)) 8 = Some (word_bytes f, Suc (length pre) + 8)"
    by (rule take_bytes_here [of _ "pre @ [op_byte 4]"]) (use assms in auto)
  then show ?thesis
    by (intro vm_exec [where k = 4 and rest = "word_bytes f @ post"]) (use assms in \<open>auto simp: vm_instruction_def\<close>)
qed

lemma vm_push_bool:
  assumes "p = pre @ [op_byte 3, char_of (of_bool v :: nat)] @ post" "length p < usize_limit"
    "length st < stack_max_values"
  shows "vm_run p vals (length pre) st = vm_run p vals (length pre + 2) (EvBool v # st)"
proof -
  have "take_bytes p (Suc (length pre)) 1 = Some ([char_of (of_bool v :: nat)], Suc (length pre) + 1)"
    by (rule take_bytes_here [of _ "pre @ [op_byte 3]"]) (use assms in auto)
  then show ?thesis
    by (intro vm_exec [where k = 3 and rest = "[char_of (of_bool v :: nat)] @ post"])
      (use assms in \<open>auto simp: vm_instruction_def\<close>)
qed

lemma vm_push_null:
  assumes "p = pre @ [op_byte 1] @ post" "length st < stack_max_values"
  shows "vm_run p vals (length pre) st = vm_run p vals (Suc (length pre)) (EvNull # st)"
  by (rule vm_exec [where k = 1 and rest = post]) (use assms in \<open>auto simp: vm_instruction_def\<close>)

lemma vm_push_string:
  assumes "p = pre @ [op_byte 2] @ le_bytes 4 (length s) @ s @ post" "length p < usize_limit"
    "length st < stack_max_values" "utf8_ok s" "length s < 2 ^ 32"
  shows "vm_run p vals (length pre) st = vm_run p vals (length pre + 5 + length s) (EvString s # st)"
proof -
  have "read_program_string p (Suc (length pre)) = Some (s, Suc (length pre) + 4 + length s)"
    by (rule read_program_string_here [of _ "pre @ [op_byte 2]"]) (use assms in auto)
  then show ?thesis
    by (intro vm_exec [where k = 2 and rest = "le_bytes 4 (length s) @ s @ post"])
      (use assms in \<open>auto simp: vm_instruction_def\<close>)
qed

lemma vm_push_dependency:
  assumes "p = pre @ [op_byte 0] @ le_bytes 2 i @ post" "length p < usize_limit"
    "length st < stack_max_values" "i \<le> 65535" "i < length vals"
  shows "vm_run p vals (length pre) st = vm_run p vals (length pre + 3) (vals ! i # st)"
proof -
  have "take_bytes p (Suc (length pre)) 2 = Some (le_bytes 2 i, Suc (length pre) + 2)"
    by (rule take_bytes_here [of _ "pre @ [op_byte 0]"]) (use assms in auto)
  then show ?thesis
    by (intro vm_exec [where k = 0 and rest = "le_bytes 2 i @ post"]) (use assms in \<open>auto simp: vm_instruction_def\<close>)
qed

lemma vm_unary:
  assumes "p = pre @ [op_byte (unary_opcode op)] @ post" "Suc (length st) \<le> stack_max_values"
  shows "vm_run p vals (length pre) (v # st) =
    (case unary_meaning op v of None \<Rightarrow> None | Some w \<Rightarrow> vm_run p vals (Suc (length pre)) (w # st))"
proof -
  have i: "vm_instruction p vals (unary_opcode op) (Suc (length pre)) (v # st)
      = map_option (\<lambda>w. (Suc (length pre), w # st)) (unary_meaning op v)"
    by (cases op) (auto simp: vm_instruction_def unary_meaning_def unary_opcode_def map_option_case split: option.splits)
  have k: "unary_opcode op < 256" by (cases op) (auto simp: unary_opcode_def)
  show ?thesis
  proof (cases "unary_meaning op v")
    case None
    with i show ?thesis using vm_exec_None [OF _ k] assms by simp
  next
    case (Some w)
    with i show ?thesis using vm_exec [OF _ k] assms by simp
  qed
qed

lemma vm_binary_code:
  assumes "p = pre @ [op_byte k] @ post" "Suc (length st) \<le> stack_max_values"
    and "20 \<le> k \<and> k \<le> 34 \<or> k = 40"
  shows "vm_run p vals (length pre) (b # a # st) =
    (case evaluate_binary_opcode k a b of None \<Rightarrow> None | Some w \<Rightarrow> vm_run p vals (Suc (length pre)) (w # st))"
proof -
  have i: "vm_instruction p vals k (Suc (length pre)) (b # a # st)
      = map_option (\<lambda>w. (Suc (length pre), w # st)) (evaluate_binary_opcode k a b)"
  proof -
    have "k \<noteq> 0 \<and> k \<noteq> 1 \<and> k \<noteq> 2 \<and> k \<noteq> 3 \<and> k \<noteq> 4 \<and> k \<noteq> 5 \<and> k \<noteq> 10 \<and> k \<noteq> 11"
      using assms(3) by auto
    then show ?thesis
      using assms(3) by (cases "evaluate_binary_opcode k a b") (simp_all add: vm_instruction_def)
  qed
  have k: "k < 256" using assms(3) by auto
  show ?thesis
  proof (cases "evaluate_binary_opcode k a b")
    case None
    with i show ?thesis using vm_exec_None [OF _ k] assms by simp
  next
    case (Some w)
    with i show ?thesis using vm_exec [OF _ k] assms by simp
  qed
qed

lemma binary_opcode_meaning: "evaluate_binary_opcode (binary_opcode op) a b = binary_meaning op a b"
  by (cases op) (simp_all add: evaluate_binary_opcode_def binary_opcode_def binary_meaning_def)

lemma binary_opcode_range: "20 \<le> binary_opcode op \<and> binary_opcode op \<le> 34"
  by (cases op) (simp_all add: binary_opcode_def)

lemma vm_member:
  assumes "p = pre @ [op_byte k] @ le_bytes 4 (length s) @ s @ post" "length p < usize_limit"
    "Suc (length st) \<le> stack_max_values" "utf8_ok s" "length s < 2 ^ 32" "k = 41 \<or> k = 42"
  shows "vm_run p vals (length pre) (v # st) =
    (case expr_member (k = 42) s v of None \<Rightarrow> None
     | Some w \<Rightarrow> vm_run p vals (length pre + 5 + length s) (w # st))"
proof -
  have "read_program_string p (Suc (length pre)) = Some (s, Suc (length pre) + 4 + length s)"
    by (rule read_program_string_here [of _ "pre @ [op_byte k]"]) (use assms in auto)
  then have i: "vm_instruction p vals k (Suc (length pre)) (v # st)
      = map_option (\<lambda>w. (length pre + 5 + length s, w # st)) (expr_member (k = 42) s v)"
    using assms(6) by (cases "expr_member (k = 42) s v"; elim disjE; simp add: vm_instruction_def)
  have k: "k < 256" using assms(6) by auto
  show ?thesis
  proof (cases "expr_member (k = 42) s v")
    case None
    with i show ?thesis using vm_exec_None [OF _ k] assms by simp
  next
    case (Some w)
    with i show ?thesis using vm_exec [OF _ k] assms by simp
  qed
qed

lemma vm_build_list:
  assumes "p = pre @ [op_byte 50] @ le_bytes 2 (length vs) @ post" "length p < usize_limit"
    "length vs \<le> collection_max_items" "Suc (length st) \<le> stack_max_values"
  shows "vm_run p vals (length pre) (rev vs @ st) = vm_run p vals (length pre + 3) (EvList vs # st)"
proof -
  have "take_bytes p (Suc (length pre)) 2 = Some (le_bytes 2 (length vs), Suc (length pre) + 2)"
    by (rule take_bytes_here [of _ "pre @ [op_byte 50]"]) (use assms in auto)
  then have "read_program_u16 p (Suc (length pre)) = Some (length vs, Suc (length pre) + 2)"
    using assms(3) by (simp add: read_program_u16_def collection_max_items_def)
  then show ?thesis
    by (intro vm_exec [where k = 50 and rest = "le_bytes 2 (length vs) @ post"])
      (use assms in \<open>auto simp: vm_instruction_def pop_expression_values_def\<close>)
qed


lemma push_program_string_Inr:
  "push_program_string p s = Inr q \<longleftrightarrow> length s < 2 ^ 32 \<and> q = p @ le_bytes 4 (length s) @ s"
  by (auto simp: push_program_string_def)

lemma push_program_strings_split: "push_program_strings p ss = Inr q \<Longrightarrow> \<exists>c. q = p @ c"
  by (induction p ss rule: push_program_strings.induct)
    (fastforce simp: and_then_Inr_iff push_program_string_Inr)+

lemma read_keys_here:
  "push_program_strings pre ss = Inr q \<Longrightarrow> p = q @ post \<Longrightarrow> length p < usize_limit \<Longrightarrow>
   distinct (acc @ ss) \<Longrightarrow> list_all utf8_ok ss \<Longrightarrow> c = length pre \<Longrightarrow>
   read_keys p (length ss) c acc = Some (acc @ ss, length q)"
proof (induction ss arbitrary: pre acc c)
  case (Cons s ss)
  let ?pre = "pre @ le_bytes 4 (length s) @ s"
  from Cons.prems(1) have l: "length s < 2 ^ 32" and q: "push_program_strings ?pre ss = Inr q"
    by (auto simp: and_then_Inr_iff push_program_string_Inr)
  from push_program_strings_split [OF q] obtain r where r: "q = ?pre @ r" by blast
  have "read_program_string p c = Some (s, c + 4 + length s)"
    by (rule read_program_string_here [of _ pre _ "r @ post"]) (use Cons.prems l r in auto)
  moreover have "read_keys p (length ss) (c + 4 + length s) (acc @ [s]) = Some ((acc @ [s]) @ ss, length q)"
    by (rule Cons.IH [OF q]) (use Cons.prems in auto)
  ultimately show ?case using Cons.prems(4) by simp
qed simp

lemma vm_build_object:
  assumes "push_program_strings (pre @ [op_byte 51] @ le_bytes 2 (length vs)) ks = Inr q"
    "p = q @ post" "length p < usize_limit" "length ks = length vs"
    "length vs \<le> collection_max_items" "Suc (length st) \<le> stack_max_values"
    "distinct ks" "list_all utf8_ok ks"
  shows "vm_run p vals (length pre) (rev vs @ st) = vm_run p vals (length q) (EvObject (zip ks vs) # st)"
proof -
  from push_program_strings_split [OF assms(1)] obtain r where
    q: "q = pre @ [op_byte 51] @ le_bytes 2 (length vs) @ r" by auto
  have "take_bytes p (Suc (length pre)) 2 = Some (le_bytes 2 (length vs), Suc (length pre) + 2)"
    by (rule take_bytes_here [of _ "pre @ [op_byte 51]" _ "r @ post"]) (use assms q in auto)
  then have "read_program_u16 p (Suc (length pre)) = Some (length vs, Suc (length pre) + 2)"
    using assms(5) by (simp add: read_program_u16_def collection_max_items_def)
  moreover have "read_keys p (length vs) (Suc (length pre) + 2) [] = Some ([] @ ks, length q)"
    unfolding assms(4) [symmetric]
    by (rule read_keys_here [OF assms(1,2)]) (use assms in auto)
  ultimately show ?thesis
    by (intro vm_exec [where k = 51 and rest = "le_bytes 2 (length vs) @ r @ post"])
      (use assms q in \<open>auto simp: vm_instruction_def pop_expression_values_def\<close>)
qed

subsection \<open>The compiler only appends\<close>

definition extends :: "string list \<times> bytes \<Rightarrow> string list \<times> bytes \<Rightarrow> bool" where
  "extends st st' = (\<exists>ds code. fst st' = fst st @ ds \<and> snd st' = snd st @ code)"

lemma extendsI: "extends (d, p) (d @ ds, p @ c)"
  by (auto simp: extends_def)

lemma extends_refl [simp]: "extends st st"
  by (auto simp: extends_def)

lemma extends_trans: "extends a b \<Longrightarrow> extends b c \<Longrightarrow> extends a c"
  by (auto simp: extends_def)

lemma extends_code: "extends st (d, p) \<Longrightarrow> extends st (d, p @ c)"
  by (auto simp: extends_def)

lemma compile_extends:
  "compile_node b e st = Inr st' \<Longrightarrow> extends st st'"
  "compile_nodes b es st = Inr st' \<Longrightarrow> extends st st'"
  "compile_fields b fs st = Inr st' \<Longrightarrow> extends st st'"
proof (induction b e st and b es st and b fs st arbitrary: st' and st' and st'
    rule: compile_node_compile_nodes_compile_fields.induct)
  case (5 b name st)
  then show ?case
    by (auto simp: compile_dependency_def extends_def split: if_splits option.splits prod.splits)
next
  case (13 b flds st)
  then obtain d p n where c: "compile_fields b flds st = Inr (d, p)" and
    k: "push_program_strings (p @ [op_byte 51] @ le_bytes 2 n) (map fst flds) = Inr (snd st')" "fst st' = d"
    and n: "reactive_collection_count (length flds) ''object'' = Inr n"
    by (auto simp: and_then_Inr_iff)
  from push_program_strings_split [OF k(1)] obtain r where "st' = (d, p @ [op_byte 51] @ le_bytes 2 n @ r)"
    using k(2) by (cases st') auto
  with "13.IH" [OF n c] show ?case using extends_code by blast
qed (force simp: and_then_Inr_iff push_program_string_Inr extends_def)+


subsection \<open>Compiled code computes the expression\<close>

lemma position_Some: "position x ds = Some i \<Longrightarrow> i < length ds \<and> ds ! i = x"
  by (induction x ds arbitrary: i rule: position.induct) (auto split: if_splits)

lemma extends_program: "extends (d, q) (D, p) \<Longrightarrow> \<exists>post. p = q @ post"
  by (auto simp: extends_def)

lemma reactive_collection_count_Inr:
  "reactive_collection_count n kind = Inr m \<longleftrightarrow> m = n \<and> n \<le> collection_max_items"
  by (auto simp: reactive_collection_count_def collection_max_items_def)

lemma compile_dependency_correct:
  assumes "compile_dependency b name st = Inr st'" and "extends st' (D, p)"
    and env: "\<And>i. i < length D \<Longrightarrow> env (D ! i) = Some (vals ! i)" and "length vals = length D"
    and "length p < usize_limit" and "length stk < stack_max_values"
  shows "\<exists>v. env name = Some v \<and> vm_run p vals (length (snd st)) stk = vm_run p vals (length (snd st')) (v # stk)"
proof -
  obtain d pre where st: "st = (d, pre)" by force
  from assms(1) obtain i d' where i: "i \<le> 65535" and st': "st' = (d', pre @ [op_byte 0] @ le_bytes 2 i)"
    and d': "i < length d'" "d' ! i = name"
  proof (cases "position name d")
    case None
    with assms(1) st that [of "length d" "d @ [name]"] show ?thesis
      by (auto simp: compile_dependency_def split: if_splits)
  next
    case (Some i)
    with assms(1) st that [of i d] position_Some [OF Some] show ?thesis
      by (auto simp: compile_dependency_def split: if_splits)
  qed
  from assms(2) st' obtain post where p: "p = pre @ [op_byte 0] @ le_bytes 2 i @ post"
    using extends_program by fastforce
  from assms(2) st' d' have D: "i < length D" "D ! i = name"
    by (auto simp: extends_def nth_append)
  have "vm_run p vals (length pre) stk = vm_run p vals (length pre + 3) (vals ! i # stk)"
    by (rule vm_push_dependency [OF p]) (use assms i D in auto)
  with env [OF D(1)] D(2) st st' show ?thesis by (auto simp: numeral_3_eq_3)
qed

lemma stack_need_pos: "1 \<le> stack_need e"
  by (induction e) auto

lemma compile_correct:
  assumes env: "\<And>i. i < length D \<Longrightarrow> env (D ! i) = Some (vals ! i)" and vals: "length vals = length D"
    and len: "length p < usize_limit"
  shows "compile_node b e st = Inr st' \<Longrightarrow> expr_ok e \<Longrightarrow> extends st' (D, p) \<Longrightarrow>
      length stk + stack_need e \<le> stack_max_values \<Longrightarrow>
      vm_run p vals (length (snd st)) stk =
        (case expr_eval env e of None \<Rightarrow> None | Some v \<Rightarrow> vm_run p vals (length (snd st')) (v # stk))"
    and "compile_nodes b es st = Inr st' \<Longrightarrow> list_all expr_ok es \<Longrightarrow> extends st' (D, p) \<Longrightarrow>
      length stk + max_slots (map stack_need es) \<le> stack_max_values \<Longrightarrow>
      vm_run p vals (length (snd st)) stk =
        (case opt_map (expr_eval env) es of None \<Rightarrow> None | Some vs \<Rightarrow> vm_run p vals (length (snd st')) (rev vs @ stk))"
    and "compile_fields b fs st = Inr st' \<Longrightarrow> list_all (\<lambda>(k, e). utf8_ok k \<and> expr_ok e) fs \<Longrightarrow> extends st' (D, p) \<Longrightarrow>
      length stk + max_slots (map (\<lambda>(k, e). stack_need e) fs) \<le> stack_max_values \<Longrightarrow>
      vm_run p vals (length (snd st)) stk =
        (case opt_map (\<lambda>(k, e). expr_eval env e) fs of None \<Rightarrow> None
         | Some vs \<Rightarrow> vm_run p vals (length (snd st')) (rev vs @ stk))"
proof (induction b e st and b es st and b fs st arbitrary: st' stk and st' stk and st' stk
    rule: compile_node_compile_nodes_compile_fields.induct)
  case (1 b s deps program)
  then have l: "length s < 2 ^ 32" and st': "st' = (deps, program @ [op_byte 2] @ le_bytes 4 (length s) @ s)"
    by (auto simp: and_then_Inr_iff push_program_string_Inr)
  with 1(3) extends_program obtain post where "p = program @ [op_byte 2] @ le_bytes 4 (length s) @ s @ post"
    by fastforce
  from vm_push_string [OF this len] 1 l st' show ?case by (simp add: add.assoc)
next
  case (2 b i deps program)
  then have st': "st' = (deps, program @ [op_byte 5] @ word_bytes i)" by simp
  with 2(3) extends_program obtain post where "p = program @ [op_byte 5] @ word_bytes i @ post"
    by fastforce
  from vm_push_word [OF this len] 2 st' show ?case by simp
next
  case (3 b f deps program)
  then have st': "st' = (deps, program @ [op_byte 4] @ word_bytes f)" by simp
  with 3(3) extends_program obtain post where "p = program @ [op_byte 4] @ word_bytes f @ post"
    by fastforce
  from vm_push_float [OF this len] 3 st' show ?case by (simp add: ax_float_new_def split: if_splits)
next
  case (4 b v deps program)
  then have st': "st' = (deps, program @ [op_byte 3, char_of (of_bool v :: nat)])" by simp
  with 4(3) extends_program obtain post where "p = program @ [op_byte 3, char_of (of_bool v :: nat)] @ post"
    by fastforce
  from vm_push_bool [OF this len] 4 st' show ?case by simp
next
  case (5 b name st)
  show ?case
  proof (cases "name = ''null''")
    case True
    with 5 have st': "st' = (fst st, snd st @ [op_byte 1])" by simp
    with 5(3) extends_program obtain post where "p = snd st @ [op_byte 1] @ post"
      by fastforce
    from vm_push_null [OF this] 5 st' True show ?thesis by simp
  next
    case False
    then have c: "compile_dependency b name st = Inr st'" using 5(1) by simp
    have "length stk < stack_max_values" using 5(4) by simp
    then obtain v where "env name = Some v"
      "vm_run p vals (length (snd st)) stk = vm_run p vals (length (snd st')) (v # stk)"
      using compile_dependency_correct [OF c 5(3), where env = env and vals = vals, OF env vals len] by blast
    with False show ?thesis by simp
  qed
next
  case (6 b op e st)
  then obtain d q where c: "compile_node b e st = Inr (d, q)" and st': "st' = (d, q @ [op_byte (unary_opcode op)])"
    by (auto simp: and_then_Inr_iff)
  with 6(4) have x: "extends (d, q) (D, p)" by (auto simp: extends_def)
  from 6(4) st' obtain post where p: "p = q @ [op_byte (unary_opcode op)] @ post" using extends_program by fastforce
  have r: "Suc (length stk) \<le> stack_max_values" using 6(5) stack_need_pos [of e] by simp
  from 6(1) [OF c _ x, of stk] 6(3,5) vm_unary [OF p r] st'
  show ?case by (auto split: option.splits)
next
  case (7 b op l r st)
  then obtain st1 d q where c: "compile_node b l st = Inr st1" "compile_node b r st1 = Inr (d, q)"
    and st': "st' = (d, q @ [op_byte (binary_opcode op)])" by (auto simp: and_then_Inr_iff)
  have x2: "extends (d, q) (D, p)" using 7(5) st' by (auto simp: extends_def)
  have x1: "extends st1 (D, p)" using compile_extends(1) [OF c(2)] x2 by (rule extends_trans)
  from 7(5) st' obtain post where p: "p = q @ [op_byte (binary_opcode op)] @ post" using extends_program by fastforce
  have k: "20 \<le> binary_opcode op \<and> binary_opcode op \<le> 34 \<or> binary_opcode op = 40"
    using binary_opcode_range by blast
  from 7(1) [OF c(1) _ x1, of stk] 7(2) [OF c _ x2, of "_ # stk"] 7(4,6) st'
    vm_binary_code [OF p _ k, of stk] stack_need_pos [of r]
  show ?case by (auto simp: binary_opcode_meaning split: option.splits)
next
  case (8 b obj index st)
  then obtain st1 d q where c: "compile_node b obj st = Inr st1" "compile_node b index st1 = Inr (d, q)"
    and st': "st' = (d, q @ [op_byte 40])" by (auto simp: and_then_Inr_iff)
  have x2: "extends (d, q) (D, p)" using 8(5) st' by (auto simp: extends_def)
  have x1: "extends st1 (D, p)" using compile_extends(1) [OF c(2)] x2 by (rule extends_trans)
  from 8(5) st' obtain post where p: "p = q @ [op_byte 40] @ post" using extends_program by fastforce
  have k: "evaluate_binary_opcode 40 a b = expr_index a b" for a b
    by (simp add: evaluate_binary_opcode_def)
  from 8(1) [OF c(1) _ x1, of stk] 8(2) [OF c _ x2, of "_ # stk"] 8(4,6) st'
    vm_binary_code [OF p, of stk] stack_need_pos [of index]
  show ?case by (auto simp: k split: option.splits)
next
  case (9 b obj property st)
  then obtain d q where c: "compile_node b obj st = Inr (d, q)" and l: "length property < 2 ^ 32"
    and st': "st' = (d, q @ [op_byte 41] @ le_bytes 4 (length property) @ property)"
    by (auto simp: and_then_Inr_iff push_program_string_Inr)
  have x: "extends (d, q) (D, p)" using 9(4) st' by (auto simp: extends_def)
  from 9(4) st' obtain post where p: "p = q @ [op_byte 41] @ le_bytes 4 (length property) @ property @ post"
    using extends_program by fastforce
  from 9(1) [OF c _ x, of stk] 9(3,5) st' l vm_member [OF p len, of stk] stack_need_pos [of obj]
  show ?case by (auto simp: add.assoc split: option.splits)
next
  case (10 b obj property st)
  then obtain d q where c: "compile_node b obj st = Inr (d, q)" and l: "length property < 2 ^ 32"
    and st': "st' = (d, q @ [op_byte 42] @ le_bytes 4 (length property) @ property)"
    by (auto simp: and_then_Inr_iff push_program_string_Inr)
  have x: "extends (d, q) (D, p)" using 10(4) st' by (auto simp: extends_def)
  from 10(4) st' obtain post where p: "p = q @ [op_byte 42] @ le_bytes 4 (length property) @ property @ post"
    using extends_program by fastforce
  from 10(1) [OF c _ x, of stk] 10(3,5) st' l vm_member [OF p len, of stk] stack_need_pos [of obj]
  show ?case by (auto simp: add.assoc split: option.splits)
next
  case (12 b items st)
  then obtain d q where n: "reactive_collection_count (length items) ''list'' = Inr (length items)"
    and c: "compile_nodes b items st = Inr (d, q)" and m: "length items \<le> collection_max_items"
    and st': "st' = (d, q @ [op_byte 50] @ le_bytes 2 (length items))"
    by (auto simp: and_then_Inr_iff reactive_collection_count_Inr)
  have x: "extends (d, q) (D, p)" using 12(4) st' by (auto simp: extends_def)
  from 12(4) st' obtain post where p: "p = q @ [op_byte 50] @ le_bytes 2 (length items) @ post"
    using extends_program by fastforce
  have ih: "vm_run p vals (length (snd st)) stk = (case opt_map (expr_eval env) items of None \<Rightarrow> None
      | Some vs \<Rightarrow> vm_run p vals (length q) (rev vs @ stk))"
    using 12(1) [OF n c _ x, of stk] 12(3,5) by (simp cong: option.case_cong)
  show ?case
  proof (cases "opt_map (expr_eval env) items")
    case None
    with ih show ?thesis by simp
  next
    case (Some vs)
    have "vm_run p vals (length q) (rev vs @ stk) = vm_run p vals (length q + 3) (EvList vs # stk)"
      by (rule vm_build_list) (use p opt_map_length [OF Some] len m 12(5) in auto)
    with ih Some st' show ?thesis by (simp add: numeral_3_eq_3)
  qed
next
  case (13 b flds st)
  then obtain d q where n: "reactive_collection_count (length flds) ''object'' = Inr (length flds)"
    and c: "compile_fields b flds st = Inr (d, q)" and m: "length flds \<le> collection_max_items"
    and k: "push_program_strings (q @ [op_byte 51] @ le_bytes 2 (length flds)) (map fst flds) = Inr (snd st')"
    and st': "fst st' = d"
    by (auto simp: and_then_Inr_iff reactive_collection_count_Inr)
  from push_program_strings_split [OF k] st' 13(4) have x: "extends (d, q) (D, p)"
    by (auto simp: extends_def)
  from 13(4) obtain post where p: "p = snd st' @ post" by (auto simp: extends_def)
  have ih: "vm_run p vals (length (snd st)) stk = (case opt_map (\<lambda>(k, e). expr_eval env e) flds of None \<Rightarrow> None
      | Some vs \<Rightarrow> vm_run p vals (length q) (rev vs @ stk))"
    using 13(1) [OF n c _ x, of stk] 13(3,5) by (simp cong: option.case_cong)
  show ?case
  proof (cases "opt_map (\<lambda>(k, e). expr_eval env e) flds")
    case None
    with ih show ?thesis by simp
  next
    case (Some vs)
    note l = opt_map_length [OF Some]
    have "vm_run p vals (length q) (rev vs @ stk)
        = vm_run p vals (length (snd st')) (EvObject (zip (map fst flds) vs) # stk)"
      by (rule vm_build_object [OF k [folded l] p len])
        (use l m 13(3,5) in \<open>auto simp: bm_ok_def list_all_iff\<close>)
    with ih Some show ?thesis by simp
  qed
next
  case (15 b e es st)
  then obtain st1 where c: "compile_node b e st = Inr st1" "compile_nodes b es st1 = Inr st'"
    by (auto simp: and_then_Inr_iff)
  have x1: "extends st1 (D, p)" using compile_extends(2) [OF c(2)] 15(5) by (rule extends_trans)
  from 15(1) [OF c(1) _ x1, of stk] 15(2) [OF c _ 15(5), of "_ # stk"] 15(4,6)
  show ?case by (auto split: option.splits)
next
  case (17 b k e fs st)
  then obtain st1 where c: "compile_node b e st = Inr st1" "compile_fields b fs st1 = Inr st'"
    by (auto simp: and_then_Inr_iff)
  have x1: "extends st1 (D, p)" using compile_extends(3) [OF c(2)] 17(5) by (rule extends_trans)
  from 17(1) [OF c(1) _ x1, of stk] 17(2) [OF c _ 17(5), of "_ # stk"] 17(4,6)
  show ?case by (auto split: option.splits)
qed simp_all


fun call_free :: "ax_expr \<Rightarrow> bool" where
  "call_free (ExUnary op e) = call_free e"
| "call_free (ExBinary op l r) = (call_free l \<and> call_free r)"
| "call_free (ExIndex l r) = (call_free l \<and> call_free r)"
| "call_free (ExMember e p) = call_free e"
| "call_free (ExOptionalMember e p) = call_free e"
| "call_free (ExList items) = list_all (\<lambda>e. call_free e) items"
| "call_free (ExObject flds) = list_all (\<lambda>(k, e). call_free e) flds"
| "call_free (ExCall path args) = False"
| "call_free _ = True"

definition function_ok :: "ax_function \<Rightarrow> bool" where
  "function_ok f = (expr_ok (function_body f)
     \<and> list_all (\<lambda>p. case param_default p of Some d \<Rightarrow> expr_ok d | None \<Rightarrow> True) (function_params f))"

lemma expand_call_free: "expand_pure b locals ls cs e = Inr e' \<Longrightarrow> call_free e'"
proof (induction b locals ls cs e arbitrary: e' rule: expand_pure.induct)
  case (7 b locals ls cs path args)
  then show ?case
    by (fastforce simp: and_then_Inr_iff Let_def split: option.splits if_splits list.splits)
next
  case (8 b locals ls cs items)
  then obtain items' where "try_map (expand_pure b locals ls cs) items = Inr items'" "e' = ExList items'"
    by (auto simp: and_then_Inr_iff)
  with 8 show ?case by (auto intro: try_map_list_all)
next
  case (9 b locals ls cs flds)
  then obtain flds' where t: "try_map (\<lambda>(name, value). and_then (expand_pure b locals ls cs value) (\<lambda>value'. Inr (name, value'))) flds
      = Inr flds'" and e': "e' = ExObject (bm_of_list flds')"
    by (auto simp: and_then_Inr_iff)
  have "list_all (\<lambda>(k, e). call_free e) flds'"
    by (rule try_map_list_all [OF t]) (use 9 in \<open>auto simp: and_then_Inr_iff split: prod.splits\<close>)
  with e' bm_of_list_ok [of flds'] show ?case by (auto simp: list_all_iff)
qed (auto simp: and_then_Inr_iff split: option.splits if_splits)

lemma bind_pure_params_ok:
  assumes "bind_pure_params ex name params args locals = Inr locals'"
    and "\<And>l d e. ex l d = Inr e \<Longrightarrow> list_all (expr_ok \<circ> snd) l \<Longrightarrow> expr_ok d \<Longrightarrow> expr_ok e"
    and "list_all (\<lambda>p. case param_default p of Some d \<Rightarrow> expr_ok d | None \<Rightarrow> True) params"
    and "list_all expr_ok args" and "list_all (expr_ok \<circ> snd) locals"
  shows "list_all (expr_ok \<circ> snd) locals'"
  using assms
proof (induction ex name params args locals rule: bind_pure_params.induct)
  case (2 ex name param params args locals)
  from 2(2) obtain v where d: "(case args of v # _ \<Rightarrow> Inr v
        | [] \<Rightarrow> (case param_default param of
             Some d \<Rightarrow> ex locals d
           | None \<Rightarrow> Inl (''pure function `'' @ name @ ''` is missing required argument `''
                            @ param_name param @ ''`''))) = Inr v"
    and r: "bind_pure_params ex name params (tl args) (bm_insert (param_name param) v locals) = Inr locals'"
    unfolding bind_pure_params.simps and_then_Inr_iff by blast
  have v: "expr_ok v"
    using d 2(3) [of locals] 2(4-6) by (auto split: list.splits option.splits)
  have l: "list_all (expr_ok \<circ> snd) (bm_insert (param_name param) v locals)"
    using 2(6) v set_bm_insert [of "param_name param" v locals] by (fastforce simp: list_all_iff)
  have "list_all expr_ok (tl args)" using 2(5) by (cases args) auto
  from 2(1) [OF r 2(3) _ this l] 2(4) show ?case by auto
qed simp

lemma expand_ok:
  "expand_pure b locals ls cs e = Inr e' \<Longrightarrow> expr_ok e \<Longrightarrow> list_all function_ok (bound_functions b) \<Longrightarrow>
   list_all (expr_ok \<circ> snd) locals \<Longrightarrow> expr_ok e'"
proof (induction b locals ls cs e arbitrary: e' rule: expand_pure.induct)
  case (1 b locals ls cs name)
  then show ?case
    by (auto simp: bm_get_def list_all_iff dest!: map_of_SomeD split: option.splits if_splits)
next
  case (7 b locals ls cs path args)
  from 7(4) obtain f name args' fl where f: "find_function (bound_functions b) name = Some f"
    and path: "path = [name]" and cs: "name \<notin> set cs" and l: "\<not> length (function_params f) < length args"
    and a: "try_map (expand_pure b locals ls cs) args = Inr args'"
    and bp: "bind_pure_params (\<lambda>fl d. expand_pure b fl ls (cs @ [name]) d) name (function_params f) args' [] = Inr fl"
    and body: "expand_pure b fl ls (cs @ [name]) (function_body f) = Inr e'"
    by (auto simp: and_then_Inr_iff Let_def split: option.splits if_splits list.splits)
  have fok: "function_ok f" using find_function_Some [OF f] 7(6) by (auto simp: list_all_iff)
  note ih = 7(1-3) [OF _ refl, of f, unfolded path list.case list.sel, OF f cs l]
  have aok: "list_all expr_ok args'"
    by (rule try_map_list_all [OF a]) (use ih(1) 7(5-7) in \<open>auto simp: list_all_iff\<close>)
  have "list_all (expr_ok \<circ> snd) fl"
  proof (rule bind_pure_params_ok [OF bp _ _ aok])
    show "expr_ok x" if "expand_pure b l ls (cs @ [name]) d = Inr x" "list_all (expr_ok \<circ> snd) l" "expr_ok d" for l d x
      using ih(2) [OF a that(1,3) 7(6) that(2)] .
  qed (use fok in \<open>simp_all add: function_ok_def\<close>)
  with ih(3) [OF a bp body] fok 7(6) show ?case by (simp add: function_ok_def comp_def)
next
  case (8 b locals ls cs items)
  then obtain items' where t: "try_map (expand_pure b locals ls cs) items = Inr items'" and e': "e' = ExList items'"
    by (auto simp: and_then_Inr_iff)
  have "list_all expr_ok items'"
    by (rule try_map_list_all [OF t]) (use 8 in \<open>auto simp: list_all_iff\<close>)
  with e' show ?case by simp
next
  case (9 b locals ls cs flds)
  then obtain flds' where t: "try_map (\<lambda>(name, value). and_then (expand_pure b locals ls cs value) (\<lambda>value'. Inr (name, value'))) flds
      = Inr flds'" and e': "e' = ExObject (bm_of_list flds')"
    by (auto simp: and_then_Inr_iff)
  have "list_all (\<lambda>(k, e). utf8_ok k \<and> expr_ok e) flds'"
    by (rule try_map_list_all [OF t]) (use 9 in \<open>fastforce simp: and_then_Inr_iff list_all_iff split: prod.splits\<close>)
  with e' bm_of_list_ok [of flds'] show ?case by (auto simp: list_all_iff)
qed (auto simp: and_then_Inr_iff split: option.splits if_splits)

lemma compile_bound:
  "compile_node b e st = Inr st' \<Longrightarrow> \<forall>n \<in> set (fst st). bm_get (bound_states b) n \<noteq> None \<Longrightarrow>
     \<forall>n \<in> set (fst st'). bm_get (bound_states b) n \<noteq> None"
  "compile_nodes b es st = Inr st' \<Longrightarrow> \<forall>n \<in> set (fst st). bm_get (bound_states b) n \<noteq> None \<Longrightarrow>
     \<forall>n \<in> set (fst st'). bm_get (bound_states b) n \<noteq> None"
  "compile_fields b fs st = Inr st' \<Longrightarrow> \<forall>n \<in> set (fst st). bm_get (bound_states b) n \<noteq> None \<Longrightarrow>
     \<forall>n \<in> set (fst st'). bm_get (bound_states b) n \<noteq> None"
proof (induction b e st and b es st and b fs st arbitrary: st' and st' and st'
    rule: compile_node_compile_nodes_compile_fields.induct)
  case (5 b name st)
  then show ?case
    by (auto simp: compile_dependency_def split: if_splits option.splits prod.splits)
qed (fastforce simp: and_then_Inr_iff)+

definition inputs_ok :: "ax_expr \<Rightarrow> conversion_bindings \<Rightarrow> bool" where
  "inputs_ok e b = (expr_ok e \<and> list_all function_ok (bound_functions b))"

definition state_env :: "conversion_bindings \<Rightarrow> (string \<Rightarrow> 'a) \<Rightarrow> string \<Rightarrow> 'a option" where
  "state_env b sig name = map_option (sig \<circ> binding_signal_id) (bm_get (bound_states b) name)"

lemma compile_reactive_Some:
  assumes "compile_reactive_expression e b = Inr (Some plan)"
  obtains D where "expand_pure b [] [] [] e = Inr (plan_expression plan)"
    "compile_node b (plan_expression plan) ([], expression_magic) = Inr (D, plan_program plan)"
    "plan_signals plan = map (\<lambda>n. binding_signal_id (the (bm_get (bound_states b) n))) D"
    "expression_references_state (plan_expression plan) (bound_states b)"
proof -
  from assms obtain x D p where "expand_pure b [] [] [] e = Inr x"
    "compile_node b x ([], expression_magic) = Inr (D, p)" "plan_expression plan = x" "plan_program plan = p"
    "plan_signals plan = map (\<lambda>n. binding_signal_id (the (bm_get (bound_states b) n))) D"
    "expression_references_state x (bound_states b)"
    unfolding compile_reactive_expression_def
    by (auto simp: and_then_Inr_iff Let_def comp_def split: sum.splits if_splits elim!: map_err.elims)
  with that show thesis by metis
qed

lemma compiled_program_correct:
  assumes "compile_reactive_expression e b = Inr (Some plan)" and "inputs_ok e b"
    and "length (plan_program plan) < usize_limit" and "stack_need (plan_expression plan) \<le> stack_max_values"
  shows "evaluate_expression_program (plan_program plan) (map sig (plan_signals plan))
       = expr_eval (state_env b sig) (plan_expression plan)"
proof -
  let ?x = "plan_expression plan" and ?p = "plan_program plan"
  from assms(1) obtain D where x: "expand_pure b [] [] [] e = Inr ?x"
    and c: "compile_node b ?x ([], expression_magic) = Inr (D, ?p)"
    and s: "plan_signals plan = map (\<lambda>n. binding_signal_id (the (bm_get (bound_states b) n))) D"
    by (rule compile_reactive_Some)
  have bound: "\<forall>n \<in> set D. bm_get (bound_states b) n \<noteq> None" using compile_bound(1) [OF c] by simp
  have env: "state_env b sig (D ! i) = Some (map sig (plan_signals plan) ! i)" if "i < length D" for i
  proof -
    from nth_mem [OF that] bound obtain z where "bm_get (bound_states b) (D ! i) = Some z" by blast
    with that show ?thesis by (simp add: s state_env_def)
  qed
  have ok: "expr_ok ?x" using expand_ok [OF x] assms(2) by (simp add: inputs_ok_def)
  have m4: "length expression_magic = 4" by (simp add: expression_magic_def)
  have "vm_run ?p (map sig (plan_signals plan)) 4 [] = (case expr_eval (state_env b sig) ?x of None \<Rightarrow> None
      | Some v \<Rightarrow> vm_run ?p (map sig (plan_signals plan)) (length ?p) [v])"
    using compile_correct(1) [where env = "state_env b sig" and D = D and p = ?p and stk = "[]", OF env _ assms(3) c ok] assms(4)
    by (simp add: s m4 cong: option.case_cong)
  moreover from compile_extends(1) [OF c] have "4 \<le> length ?p" "take 4 ?p = expression_magic"
    by (auto simp: extends_def expression_magic_def)
  ultimately show ?thesis
    by (auto simp: evaluate_expression_program_def vm_run_halt split: option.splits)
qed


subsection \<open>The request frame\<close>

definition request_frame :: "bytes \<Rightarrow> expr_value list \<Rightarrow> bytes option" where
  "request_frame p vs = do {
     es \<leftarrow> encode_items 0 vs;
     Some (le_bytes 4 (length p) @ p @ le_bytes 4 (length vs) @ es) }"

lemma evaluate_request_frame:
  assumes "request_frame p vs = Some r" and "list_all value_ok vs" and "length r < usize_limit"
  shows "evaluate_expression_request r = evaluate_expression_program p vs"
proof -
  from assms(1) obtain es where es: "encode_items 0 vs = Some es"
    and r: "r = le_bytes 4 (length p) @ p @ le_bytes 4 (length vs) @ es"
    by (auto simp: request_frame_def bind_eq_Some_conv)
  let ?pre = "le_bytes 4 (length p) @ p @ le_bytes 4 (length vs)"
  have ul: "usize_limit = 2 ^ 32" by (simp add: usize_limit_def)
  note lv = encode_length_ge(2) [OF es]
  have lens: "length p < 2 ^ 32" "length vs < 2 ^ 32" using r assms(3) lv by (auto simp: ul)
  have 1: "read_u32 r 0 = Some (length p, 4)"
    using read_u32_at [of "length p" "[]" "p @ le_bytes 4 (length vs) @ es"] lens r by (simp add: ul)
  have 2: "take_bytes r 4 (length p) = Some (p, 4 + length p)"
    by (rule take_bytes_here [of _ "le_bytes 4 (length p)"]) (use r assms(3) in auto)
  have 3: "read_u32 r (4 + length p) = Some (length vs, 8 + length p)"
    using read_u32_at [of "length vs" "le_bytes 4 (length p) @ p" es] lens r assms(3) by simp
  have 4: "decode_items (\<lambda>bs. decode_expr_value bs 0) (length vs) r (8 + length p) = Some (vs, length r)"
  proof -
    have "(\<lambda>bs. decode_expr_value bs 0) = decode (Suc value_max_depth - 0)"
      by (rule ext) (simp only: decode_expr_value_def)
    then show ?thesis
      using decode_encode(2) [OF es assms(2), of ?pre "[]"] assms(3)
      by (simp add: r add.commute add.left_commute del: decode.simps)
  qed
  have 5: "\<not> (length r - (8 + length p)) div 4 < length vs"
    using lv by (simp add: r)
  show ?thesis by (simp add: evaluate_expression_request_def 1 2 3 4 5)
qed

subsection \<open>When compilation succeeds\<close>

fun within_limits :: "conversion_bindings \<Rightarrow> ax_expr \<Rightarrow> bool" where
  "within_limits b (ExString s) = (length s < 2 ^ 32)"
| "within_limits b (ExIdentifier name) = (name = ''null'' \<or> bm_get (bound_states b) name \<noteq> None)"
| "within_limits b (ExUnary op e) = within_limits b e"
| "within_limits b (ExBinary op l r) = (within_limits b l \<and> within_limits b r)"
| "within_limits b (ExIndex l r) = (within_limits b l \<and> within_limits b r)"
| "within_limits b (ExMember e p) = (within_limits b e \<and> length p < 2 ^ 32)"
| "within_limits b (ExOptionalMember e p) = (within_limits b e \<and> length p < 2 ^ 32)"
| "within_limits b (ExList items) = (length items \<le> collection_max_items \<and> list_all (\<lambda>e. within_limits b e) items)"
| "within_limits b (ExObject flds) =
     (length flds \<le> collection_max_items \<and> list_all (\<lambda>(k, e). length k < 2 ^ 32 \<and> within_limits b e) flds)"
| "within_limits b (ExCall path args) = False"
| "within_limits b _ = True"

definition deps_ok :: "conversion_bindings \<Rightarrow> string list \<times> bytes \<Rightarrow> bool" where
  "deps_ok b st = (distinct (fst st) \<and> set (fst st) \<subseteq> fst ` set (bound_states b))"

lemma position_None: "position x ds = None \<Longrightarrow> x \<notin> set ds"
  by (induction x ds rule: position.induct) (auto split: if_splits)

lemma compile_dependency_total:
  assumes "deps_ok b st" and "bm_get (bound_states b) name \<noteq> None" and "length (bound_states b) \<le> 65536"
  shows "\<exists>st'. compile_dependency b name st = Inr st' \<and> deps_ok b st'"
proof -
  obtain d p where st: "st = (d, p)" by force
  have bound: "length ds \<le> 65536" if "deps_ok b (ds, q)" for ds q
  proof -
    have "length ds = card (set ds)" using that by (simp add: deps_ok_def distinct_card)
    also have "\<dots> \<le> card (fst ` set (bound_states b))" using that by (intro card_mono) (auto simp: deps_ok_def)
    also have "\<dots> \<le> length (bound_states b)" by (metis card_image_le card_length finite_set le_trans)
    finally show ?thesis using assms(3) by simp
  qed
  show ?thesis
  proof (cases "position name d")
    case None
    have "deps_ok b (d @ [name], p)"
      using assms(1,2) position_None [OF None] st by (auto simp: deps_ok_def bm_get_None_iff)
    with bound [OF this] None assms(2) st show ?thesis
      by (auto simp: compile_dependency_def deps_ok_def)
  next
    case (Some i)
    with position_Some [OF Some] bound [of d p] assms st show ?thesis
      by (auto simp: compile_dependency_def deps_ok_def)
  qed
qed

lemma push_program_strings_total: "list_all (\<lambda>s. length s < 2 ^ 32) ss \<Longrightarrow> \<exists>q. push_program_strings p ss = Inr q"
  by (induction ss arbitrary: p) (auto simp: push_program_string_def)

lemma compile_total:
  assumes "length (bound_states b) \<le> 65536"
  shows "within_limits b e \<Longrightarrow> deps_ok b st \<Longrightarrow> \<exists>st'. compile_node b e st = Inr st' \<and> deps_ok b st'"
    and "list_all (within_limits b) es \<Longrightarrow> deps_ok b st \<Longrightarrow> \<exists>st'. compile_nodes b es st = Inr st' \<and> deps_ok b st'"
    and "list_all (\<lambda>(k, e). length k < 2 ^ 32 \<and> within_limits b e) fs \<Longrightarrow> deps_ok b st \<Longrightarrow>
      \<exists>st'. compile_fields b fs st = Inr st' \<and> deps_ok b st'"
  using assms
proof (induction b e st and b es st and b fs st rule: compile_node_compile_nodes_compile_fields.induct)
  case (5 b name st)
  then show ?case
    using compile_dependency_total [of b st name] by (cases "name = ''null''") (auto simp: deps_ok_def)
next
  case (13 b flds st)
  then have n: "reactive_collection_count (length flds) ''object'' = Inr (length flds)"
    by (simp add: reactive_collection_count_Inr)
  from "13.IH" [OF n] 13 obtain d p where c: "compile_fields b flds st = Inr (d, p)" "deps_ok b (d, p)" by auto
  have "list_all (\<lambda>s. length s < 2 ^ 32) (map fst flds)" using 13 by (auto simp: list_all_iff)
  from push_program_strings_total [OF this, of "p @ [op_byte 51] @ le_bytes 2 (length flds)"] c n show ?case
    by (auto simp: deps_ok_def)
next
  case (6 b op e st)
  then obtain d p where "compile_node b e st = Inr (d, p)" "deps_ok b (d, p)" by auto
  then show ?case by (simp add: deps_ok_def)
next
  case (7 b op l r st)
  then obtain st1 where c: "compile_node b l st = Inr st1" "deps_ok b st1" by auto
  moreover from "7.IH"(2) [OF c(1)] c 7 obtain d p where "compile_node b r st1 = Inr (d, p)" "deps_ok b (d, p)" by auto
  ultimately show ?case by (simp add: deps_ok_def)
next
  case (8 b l r st)
  then obtain st1 where c: "compile_node b l st = Inr st1" "deps_ok b st1" by auto
  moreover from "8.IH"(2) [OF c(1)] c 8 obtain d p where "compile_node b r st1 = Inr (d, p)" "deps_ok b (d, p)" by auto
  ultimately show ?case by (simp add: deps_ok_def)
next
  case (9 b e pr st)
  then obtain d p where "compile_node b e st = Inr (d, p)" "deps_ok b (d, p)" by auto
  with 9 show ?case by (simp add: deps_ok_def push_program_string_def)
next
  case (10 b e pr st)
  then obtain d p where "compile_node b e st = Inr (d, p)" "deps_ok b (d, p)" by auto
  with 10 show ?case by (simp add: deps_ok_def push_program_string_def)
next
  case (12 b items st)
  then have n: "reactive_collection_count (length items) ''list'' = Inr (length items)"
    by (simp add: reactive_collection_count_Inr)
  from "12.IH" [OF n] 12 obtain d p where "compile_nodes b items st = Inr (d, p)" "deps_ok b (d, p)" by auto
  with n show ?case by (simp add: deps_ok_def)
next
  case (15 b e es st)
  then obtain st1 where c: "compile_node b e st = Inr st1" "deps_ok b st1" by auto
  with "15.IH"(2) [OF c(1)] 15 show ?case by simp
next
  case (17 b k e fs st)
  then obtain st1 where c: "compile_node b e st = Inr st1" "deps_ok b st1" by auto
  with "17.IH"(2) [OF c(1)] 17 show ?case by simp
qed (auto simp: push_program_string_def deps_ok_def)

end
