(* ===== verification/Hydration.thy ===== *)
theory Hydration
  imports Reactive_Correct
begin

section \<open>The server's rendering and the browser's evaluation agree\<close>

text \<open>
  A reactive expression is evaluated twice: by \<open>eval_expr\<close> when the server renders the page
  and by the state executor when the browser takes over. \<open>to_server\<close> reads a value of the
  browser as a value of the server: the two differ in the sign of a float zero, which
  \<open>AxFloat::new\<close> drops (\<open>ax_float_norm\<close>; the first lemmas show that no operation but that
  sign depends on it), and in byte strings, which the server does not have (\<open>plain\<close>).
  \<open>server_agrees\<close>: where the browser gets a value, the server gets the same one, for
  expressions that do not compare an integer with a float by \<open>==\<close>, \<open>!=\<close> or \<open>in\<close>
  (\<open>equality_uniform\<close>), where the two sides do differ.
\<close>

subsection \<open>Float zeros\<close>

lemma round_mag_0 [simp]: "round_mag 0 q = 0"
  by (simp add: round_mag_def round_half_even_def bit_length.simps)

lemma norm_zero [simp]: "f64_is_zero (ax_float_norm b) = f64_is_zero b"
  by (simp add: ax_float_norm_def f64_is_zero_def f64_mag_make)

lemma norm_idem [simp]: "ax_float_norm (ax_float_norm b) = ax_float_norm b"
  by (simp add: ax_float_norm_def)

lemma norm_nonzero: "\<not> f64_is_zero b \<Longrightarrow> ax_float_norm b = b"
  by (simp add: ax_float_norm_def)

lemma norm_of_zero: "f64_is_zero b \<Longrightarrow> ax_float_norm b = f64_make False 0"
  by (simp add: ax_float_norm_def)

lemma zero_make [simp]: "f64_is_zero (f64_make s 0)"
  by (simp add: f64_is_zero_def f64_mag_make)

lemma norm_mag [simp]: "f64_mag (ax_float_norm b) = f64_mag b"
  by (simp add: ax_float_norm_def f64_is_zero_def f64_mag_make)

lemma norm_finite [simp]: "is_finite (ax_float_norm b) = is_finite b"
  "is_nan (ax_float_norm b) = is_nan b" "is_inf (ax_float_norm b) = is_inf b"
  by (simp_all add: is_finite_def is_nan_def is_inf_def)

lemma norm_units [simp]: "f64_units (ax_float_norm b) = f64_units b"
  by (simp add: f64_units_def)

lemma units_zero: "f64_is_zero b \<Longrightarrow> f64_units b = 0"
  by (simp add: f64_is_zero_def f64_units_def)

lemma norm_int [simp]: "f64_int (ax_float_norm b) = f64_int b"
  by (cases "f64_is_zero b") (simp_all add: norm_nonzero f64_int_def units_zero)

lemma norm_key [simp]: "f64_key (ax_float_norm b) = f64_key b"
  by (cases "f64_is_zero b") (simp_all add: norm_nonzero f64_key_def f64_is_zero_def)

lemma norm_cmp [simp]: "f64_cmp (ax_float_norm a) b = f64_cmp a b" "f64_cmp a (ax_float_norm b) = f64_cmp a b"
  by (simp_all add: f64_cmp_def)

lemma norm_eq [simp]: "f64_eq (ax_float_norm a) b = f64_eq a b" "f64_eq a (ax_float_norm b) = f64_eq a b"
  by (simp_all add: f64_eq_def)

lemma inf_not_zero: "is_inf b \<Longrightarrow> \<not> f64_is_zero b"
  by (simp add: is_inf_def f64_is_zero_def inf_mag_def)

lemma norm_add: "ax_float_norm (f64_add (ax_float_norm a) (ax_float_norm b)) = ax_float_norm (f64_add a b)"
proof -
  have "is_inf x \<Longrightarrow> f64_sign (ax_float_norm x) = f64_sign x" for x
    by (simp add: norm_nonzero inf_not_zero)
  then show ?thesis
    by (auto simp: f64_add_def Let_def norm_of_zero)
qed

lemma norm_make_0 [simp]: "ax_float_norm (f64_make s 0) = f64_make False 0"
  by (simp add: norm_of_zero)

lemma zero_finite: "f64_is_zero b \<Longrightarrow> \<not> is_nan b \<and> \<not> is_inf b"
  by (simp add: f64_is_zero_def is_nan_def is_inf_def inf_mag_def)

lemma norm_neg: "ax_float_norm (f64_neg (ax_float_norm b)) = ax_float_norm (f64_neg b)"
  using norm_mag [of b] by (cases "f64_is_zero b") (simp_all add: norm_nonzero f64_neg_def f64_is_zero_def)

lemma norm_sub: "ax_float_norm (f64_sub (ax_float_norm a) (ax_float_norm b)) = ax_float_norm (f64_sub a b)"
proof -
  have "ax_float_norm (f64_sub (ax_float_norm a) (ax_float_norm b))
      = ax_float_norm (f64_add (ax_float_norm (ax_float_norm a)) (ax_float_norm (f64_neg (ax_float_norm b))))"
    unfolding f64_sub_def by (rule norm_add [symmetric])
  also have "\<dots> = ax_float_norm (f64_add (ax_float_norm a) (ax_float_norm (f64_neg b)))"
    by (simp add: norm_neg)
  also have "\<dots> = ax_float_norm (f64_sub a b)"
    unfolding f64_sub_def by (rule norm_add)
  finally show ?thesis .
qed

lemma norm_mul: "ax_float_norm (f64_mul (ax_float_norm a) (ax_float_norm b)) = ax_float_norm (f64_mul a b)"
proof (cases "f64_is_zero a \<or> f64_is_zero b")
  case True
  then show ?thesis by (auto simp: f64_mul_def Let_def norm_of_zero units_zero)
next
  case False
  then show ?thesis by (simp add: norm_nonzero)
qed

lemma norm_div_left: "ax_float_norm (f64_div (ax_float_norm a) b) = ax_float_norm (f64_div a b)"
proof (cases "f64_is_zero a")
  case True
  with zero_finite [OF True] show ?thesis by (simp add: f64_div_def Let_def units_zero)
qed (simp add: norm_nonzero)

lemma norm_rem_left: "ax_float_norm (f64_rem (ax_float_norm a) b) = ax_float_norm (f64_rem a b)"
proof (cases "f64_is_zero a")
  case True
  with zero_finite [OF True] show ?thesis by (simp add: f64_rem_def units_zero)
qed (simp add: norm_nonzero)

subsection \<open>Browser values as server values\<close>

fun to_server :: "expr_value \<Rightarrow> ax_value" where
  "to_server EvNull = AvNull"
| "to_server (EvString s) = AvString s"
| "to_server (EvBool b) = AvBool b"
| "to_server (EvFloat f) = AvFloat (ax_float_norm f)"
| "to_server (EvInt i) = AvNumber i"
| "to_server (EvBytes s) = AvNull"
| "to_server (EvList vs) = AvList (map (\<lambda>v. to_server v) vs)"
| "to_server (EvObject fs) = AvRecord (map (\<lambda>(k, v). (k, to_server v)) fs)"

fun plain :: "expr_value \<Rightarrow> bool" where
  "plain (EvFloat f) = is_finite f"
| "plain (EvBytes s) = False"
| "plain (EvList vs) = (length vs < usize_limit \<and> list_all (\<lambda>v. plain v) vs)"
| "plain (EvObject fs) = (bm_ok fs \<and> list_all (\<lambda>(k, v). plain v) fs)"
| "plain _ = True"

definition mixed_numeric :: "expr_value \<Rightarrow> expr_value \<Rightarrow> bool" where
  "mixed_numeric a b =
     (case (a, b) of (EvInt _, EvFloat _) \<Rightarrow> True | (EvFloat _, EvInt _) \<Rightarrow> True | _ \<Rightarrow> False)"

definition comparison_uniform :: "ax_binary_op \<Rightarrow> expr_value option \<Rightarrow> expr_value option \<Rightarrow> bool" where
  "comparison_uniform op l r =
     (case (l, r) of
        (Some a, Some b) \<Rightarrow>
          (if op = OpEq \<or> op = OpNe then \<not> mixed_numeric a b
           else if op = OpIn then (case b of EvList items \<Rightarrow> list_all (\<lambda>v. \<not> mixed_numeric a v) items | _ \<Rightarrow> True)
           else True)
      | _ \<Rightarrow> True)"

fun equality_uniform :: "(string \<Rightarrow> expr_value option) \<Rightarrow> ax_expr \<Rightarrow> bool" where
  "equality_uniform env (ExUnary op e) = equality_uniform env e"
| "equality_uniform env (ExBinary op l r) =
     (equality_uniform env l \<and> equality_uniform env r
      \<and> comparison_uniform op (expr_eval env l) (expr_eval env r))"
| "equality_uniform env (ExIndex l r) = (equality_uniform env l \<and> equality_uniform env r)"
| "equality_uniform env (ExMember e p) = equality_uniform env e"
| "equality_uniform env (ExOptionalMember e p) = equality_uniform env e"
| "equality_uniform env (ExList items) = list_all (\<lambda>e. equality_uniform env e) items"
| "equality_uniform env (ExObject flds) = list_all (\<lambda>(k, e). equality_uniform env e) flds"
| "equality_uniform env _ = True"

fun literals_small :: "ax_expr \<Rightarrow> bool" where
  "literals_small (ExUnary op e) = literals_small e"
| "literals_small (ExBinary op l r) = (literals_small l \<and> literals_small r)"
| "literals_small (ExIndex l r) = (literals_small l \<and> literals_small r)"
| "literals_small (ExMember e p) = literals_small e"
| "literals_small (ExOptionalMember e p) = literals_small e"
| "literals_small (ExList items) = (length items \<le> collection_max_items \<and> list_all (\<lambda>e. literals_small e) items)"
| "literals_small (ExObject flds) = (length flds \<le> collection_max_items \<and> list_all (\<lambda>(k, e). literals_small e) flds)"
| "literals_small _ = True"

lemma compile_literals_small:
  "compile_node b e st = Inr st' \<Longrightarrow> literals_small e"
  "compile_nodes b es st = Inr st' \<Longrightarrow> list_all literals_small es"
  "compile_fields b fs st = Inr st' \<Longrightarrow> list_all (\<lambda>(k, e). literals_small e) fs"
  by (induction b e st and b es st and b fs st arbitrary: st' and st' and st'
      rule: compile_node_compile_nodes_compile_fields.induct)
    (fastforce simp: and_then_Inr_iff reactive_collection_count_Inr)+

lemma value_eq_sym:
  "value_eq a b = value_eq b a" "values_eq as bs = values_eq bs as" "fields_eq fs gs = fields_eq gs fs"
proof (induction a b and as bs and fs gs rule: value_eq_values_eq_fields_eq.induct)
  case (9 ws)
  then show ?case by (cases ws) auto
next
  case (11 gs)
  then show ?case by (cases gs) auto
qed (auto simp: f64_eq_sym split: expr_value.splits list.splits)

lemma to_server_eq:
  "plain a \<Longrightarrow> plain b \<Longrightarrow> ax_value_eq (to_server a) (to_server b) = value_eq a b"
  "list_all plain as \<Longrightarrow> list_all plain bs \<Longrightarrow> ax_values_eq (map to_server as) (map to_server bs) = values_eq as bs"
  "list_all (\<lambda>(k, v). plain v) fs \<Longrightarrow> list_all (\<lambda>(k, v). plain v) gs \<Longrightarrow>
     ax_fields_eq (map (\<lambda>(k, v). (k, to_server v)) fs) (map (\<lambda>(k, v). (k, to_server v)) gs) = fields_eq fs gs"
proof (induction a b and as bs and fs gs rule: value_eq_values_eq_fields_eq.induct)
qed (auto split: expr_value.splits list.splits)


subsection \<open>The operations agree\<close>

lemma finite_float_server:
  assumes "finite_float r = Some v" and "ax_float_norm r' = ax_float_norm r"
  shows "finite_float_value r' operator = Inr (to_server v)"
proof -
  from assms(1) have f: "is_finite r" "v = EvFloat r" by (auto simp: finite_float_def split: if_splits)
  then have "is_finite r'" using norm_finite(1) [of r'] norm_finite(1) [of r] assms(2) by simp
  with f assms(2) show ?thesis
    by (simp add: finite_float_value_def ax_float_new_def)
qed

lemma finite_float_plain: "finite_float r = Some v \<Longrightarrow> plain v"
  by (auto simp: finite_float_def split: if_splits)

lemma norm_op_cong:
  "ax_float_norm a' = ax_float_norm a \<Longrightarrow> ax_float_norm b' = ax_float_norm b \<Longrightarrow>
     ax_float_norm (f64_add a' b') = ax_float_norm (f64_add a b)"
  "ax_float_norm a' = ax_float_norm a \<Longrightarrow> ax_float_norm b' = ax_float_norm b \<Longrightarrow>
     ax_float_norm (f64_sub a' b') = ax_float_norm (f64_sub a b)"
  "ax_float_norm a' = ax_float_norm a \<Longrightarrow> ax_float_norm b' = ax_float_norm b \<Longrightarrow>
     ax_float_norm (f64_mul a' b') = ax_float_norm (f64_mul a b)"
  by (metis norm_add, metis norm_sub, metis norm_mul)

lemma norm_same: "ax_float_norm y' = ax_float_norm y \<Longrightarrow> \<not> f64_is_zero y \<or> y' = y \<Longrightarrow> y' = y"
  by (metis norm_nonzero norm_zero)

lemma norm_div_cong:
  "ax_float_norm a' = ax_float_norm a \<Longrightarrow> ax_float_norm b' = ax_float_norm b \<Longrightarrow> \<not> f64_is_zero b \<or> b' = b \<Longrightarrow>
     ax_float_norm (f64_div a' b') = ax_float_norm (f64_div a b)"
  "ax_float_norm a' = ax_float_norm a \<Longrightarrow> ax_float_norm b' = ax_float_norm b \<Longrightarrow> \<not> f64_is_zero b \<or> b' = b \<Longrightarrow>
     ax_float_norm (f64_rem a' b') = ax_float_norm (f64_rem a b)"
  by (metis norm_div_left norm_same, metis norm_rem_left norm_same)

lemma ax_scalar_server: "expr_scalar v = Some s \<Longrightarrow> ax_scalar (to_server v) = Some s"
  by (cases v) (auto simp: ax_float_norm_def)

lemma is_av_string_server [simp]: "is_av_string (to_server v) = is_string v"
  by (cases v) auto

lemma add_server:
  assumes "expr_add a b = Some v"
  shows "add_values (to_server a) (to_server b) = Inr (to_server v) \<and> plain v"
  using assms
  by (cases a; cases b)
    (auto simp: expr_add_def add_values_def concat_scalars_def norm_nonzero
      intro!: finite_float_server norm_op_cong dest: finite_float_plain split: if_splits)

lemma compare_server:
  "compare_with ok a b = Some v \<Longrightarrow>
   eval_compare_binary (to_server a) (to_server b) ok m = Inr (to_server v) \<and> plain v"
  by (cases a; cases b)
    (auto simp: compare_with_def expr_compare_def eval_compare_binary_def compare_floats_def str_cmp_def str_ordering_def)

lemma truthy_server: "plain v \<Longrightarrow> is_truthy (to_server v) = expr_truthy v"
  by (cases v) auto


lemma numeric_server:
  assumes e: "expr_numeric f g z a b = Some v"
    and int: "\<And>i j k. f i j = Some k \<Longrightarrow> h i j = Inr k"
    and float: "\<And>x y x' y'. ax_float_norm x' = ax_float_norm x \<Longrightarrow> ax_float_norm y' = ax_float_norm y \<Longrightarrow>
        z \<longrightarrow> \<not> f64_is_zero y \<or> y' = y \<Longrightarrow> ax_float_norm (g x' y') = ax_float_norm (g x y)"
  shows "eval_numeric_binary (to_server a) (to_server b) h g m z = Inr (to_server v) \<and> plain v"
  using e
  by (cases a; cases b)
    (auto simp: expr_numeric_def eval_numeric_binary_def int
      intro!: finite_float_server float dest: finite_float_plain split: if_splits)


lemma equal_server:
  assumes "plain a" "plain b" "\<not> mixed_numeric a b"
  shows "ax_value_eq (to_server a) (to_server b) = expr_values_equal a b"
    and "ax_value_eq (to_server b) (to_server a) = expr_values_equal a b"
proof -
  have "expr_values_equal a b = value_eq a b"
    using assms(3) by (cases a; cases b) (auto simp: expr_values_equal_def mixed_numeric_def)
  with assms to_server_eq(1) value_eq_sym(1) show
    "ax_value_eq (to_server a) (to_server b) = expr_values_equal a b"
    "ax_value_eq (to_server b) (to_server a) = expr_values_equal a b" by metis+
qed

lemma in_server:
  assumes "plain a" "list_all plain items" "list_all (\<lambda>v. \<not> mixed_numeric a v) items"
  shows "list_ex (\<lambda>item. ax_value_eq item (to_server a)) (map to_server items) = list_ex (expr_values_equal a) items"
  using assms by (auto simp: list_ex_iff list_all_iff equal_server)

lemma plain_int_op_exact: "exact a b = Some c \<Longrightarrow> plain_int_op ck exact w m a b = Inr c"
  by (simp add: plain_int_op_def)

lemma binary_server:
  assumes v: "binary_meaning op a b = Some v" and p: "plain a" "plain b"
    and u: "comparison_uniform op (Some a) (Some b)" and op: "op \<notin> {OpAnd, OpOr, OpFallback}"
  shows "eval_binary_expr ck op (to_server a) (to_server b) = Inr (to_server v) \<and> plain v"
proof (cases op)
  case OpSub
  with v have e: "expr_numeric checked_sub f64_sub False a b = Some v" by (simp add: binary_meaning_def)
  show ?thesis unfolding OpSub eval_binary_expr_def ax_binary_op.case
    by (rule numeric_server [OF e]) (auto intro: plain_int_op_exact norm_op_cong)
next
  case OpMul
  with v have e: "expr_numeric checked_mul f64_mul False a b = Some v" by (simp add: binary_meaning_def)
  show ?thesis unfolding OpMul eval_binary_expr_def ax_binary_op.case
    by (rule numeric_server [OF e]) (auto intro: plain_int_op_exact norm_op_cong)
next
  case OpDiv
  with v have e: "expr_numeric checked_div f64_div True a b = Some v" by (simp add: binary_meaning_def)
  show ?thesis unfolding OpDiv eval_binary_expr_def ax_binary_op.case
    by (rule numeric_server [OF e]) (auto intro: norm_div_cong)
next
  case OpRem
  with v have e: "expr_numeric checked_rem f64_rem True a b = Some v" by (simp add: binary_meaning_def)
  show ?thesis unfolding OpRem eval_binary_expr_def ax_binary_op.case
    by (rule numeric_server [OF e]) (auto intro: norm_div_cong)
next
  case OpIn
  with v obtain items where b: "b = EvList items" and v': "v = EvBool (list_ex (expr_values_equal a) items)"
    by (auto simp: binary_meaning_def split: expr_value.splits)
  with p u OpIn in_server [of a items] show ?thesis
    by (simp add: eval_binary_expr_def comparison_uniform_def)
qed (use v p u op in \<open>auto simp: eval_binary_expr_def binary_meaning_def comparison_uniform_def equal_server
      intro: add_server [THEN conjunct1] compare_server [THEN conjunct1]
      dest: add_server [THEN conjunct2] compare_server [THEN conjunct2]\<close>)

lemma field_server:
  "record_get (map (\<lambda>(k, v). (k, to_server v)) fs) name = to_server (field_or_null name fs)"
  by (simp add: record_get_def bm_get_def field_or_null_def map_of_map split: option.splits)

lemma field_plain: "list_all (\<lambda>(k, v). plain v) fs \<Longrightarrow> plain (field_or_null name fs)"
  by (auto simp: field_or_null_def list_all_iff dest: map_of_SomeD split: option.splits)

lemma index_server:
  "expr_index a b = Some v \<Longrightarrow> plain a \<Longrightarrow> plain b \<Longrightarrow>
   eval_index_expr (to_server a) (to_server b) = Inr (to_server v) \<and> plain v"
  by (cases a; cases b)
    (auto simp: expr_index_def eval_index_expr_def field_server list_all_length intro: field_plain [unfolded list_all_length])

lemma unary_server:
  "unary_meaning op a = Some v \<Longrightarrow> plain a \<Longrightarrow> eval_unary_expr ck op (to_server a) = Inr (to_server v) \<and> plain v"
  by (cases op; cases a)
    (auto simp: unary_meaning_def eval_unary_expr_def expr_not_def expr_neg_def truthy_server
      finite_float_def ax_float_new_def norm_neg split: if_splits option.splits)


subsection \<open>Rendering on the server and evaluating in the browser agree\<close>

lemma try_map_server:
  assumes "opt_map f xs = Some vs"
    and "\<And>x v. x \<in> set xs \<Longrightarrow> f x = Some v \<Longrightarrow> g x = Inr (h v) \<and> plain v"
  shows "try_map g xs = Inr (map h vs) \<and> list_all plain vs"
  using assms
proof (induction xs arbitrary: vs)
  case (Cons x xs)
  then obtain v vs' where "vs = v # vs'" "f x = Some v" "opt_map f xs = Some vs'"
    by (auto simp: opt_map_Cons_Some simp del: opt_map.simps)
  moreover have "try_map g xs = Inr (map h vs') \<and> list_all plain vs'"
    by (rule Cons.IH [OF calculation(3)]) (rule Cons.prems(2), auto)
  ultimately show ?case using Cons.prems(2) [of x v] by simp
qed simp

lemma bm_ok_zip: "bm_ok m \<Longrightarrow> length vs = length m \<Longrightarrow> bm_ok (zip (map fst m) vs)"
  by (simp add: bm_ok_def)

lemma server_agrees:
  assumes env: "\<And>name v. env name = Some v \<Longrightarrow> plain v \<and> bm_get scope name = Some (to_server v)"
  shows "expr_eval env e = Some v \<Longrightarrow> call_free e \<Longrightarrow> expr_ok e \<Longrightarrow> literals_small e \<Longrightarrow>
    equality_uniform env e \<Longrightarrow> eval_expr ck fns res n scope e = Inr (to_server v) \<and> plain v"
proof (induction e arbitrary: v)
  case (ExFloat f)
  then show ?case by (auto simp: ax_float_new_def split: if_splits)
next
  case (ExList items)
  then obtain vs where vs: "opt_map (expr_eval env) items = Some vs" and v: "v = EvList vs" by auto
  have "try_map (eval_expr ck fns res n scope) items = Inr (map to_server vs) \<and> list_all plain vs"
    by (rule try_map_server [OF vs]) (use ExList in \<open>auto simp: list_all_iff\<close>)
  with v opt_map_length [OF vs] ExList.prems(4) show ?case
    by (simp add: collection_max_items_def usize_limit_def)
next
  case (ExObject flds)
  then obtain vs where vs: "opt_map (\<lambda>(k, e). expr_eval env e) flds = Some vs"
    and v: "v = EvObject (zip (map fst flds) vs)" by auto
  let ?g = "\<lambda>(name, e). and_then (eval_expr ck fns res n scope e) (\<lambda>v. Inr (name, v))"
  have t: "list_all plain vs \<and> try_map ?g flds = Inr (zip (map fst flds) (map to_server vs))"
    using vs ExObject.IH ExObject.prems(2-5)
  proof (induction flds arbitrary: vs)
    case (Cons p flds)
    obtain k e where p: "p = (k, e)" by force
    from Cons.prems(1) p obtain w ws where w: "vs = w # ws" "expr_eval env e = Some w"
      and ws: "opt_map (\<lambda>(k, e). expr_eval env e) flds = Some ws"
      by (auto simp: opt_map_Cons_Some simp del: opt_map.simps)
    have "eval_expr ck fns res n scope e = Inr (to_server w) \<and> plain w"
      by (rule Cons.prems(2) [of p e]) (use w p Cons.prems in auto)
    moreover have "list_all plain ws \<and> try_map ?g flds = Inr (zip (map fst flds) (map to_server ws))"
      by (rule Cons.IH [OF ws]) (use Cons.prems in \<open>auto simp: bm_ok_def\<close>)
    ultimately show ?case using p w by simp
  qed simp
  have ok: "bm_ok flds" using ExObject.prems(3) by simp
  note l = opt_map_length [OF vs]
  have m: "map (\<lambda>(k, v). (k, to_server v)) (zip (map fst flds) vs) = zip (map fst flds) (map to_server vs)"
    by (simp add: zip_map2)
  have b: "bm_of_list (zip (map fst flds) (map to_server vs)) = zip (map fst flds) (map to_server vs)"
    by (rule bm_of_list_sorted) (use ok l in \<open>simp add: bm_ok_zip\<close>)
  have "list_all (\<lambda>(k, v). plain v) (zip (map fst flds) vs)"
    using t by (auto simp: list_all_iff dest: set_zip_rightD)
  with t m b v bm_ok_zip [OF ok l] show ?case by simp
next
  case (ExIdentifier name)
  then show ?case using env by (auto split: if_splits)
next
  case (ExUnary op e)
  then show ?case using unary_server by (fastforce simp: bind_eq_Some_conv)
next
  case (ExBinary op l r)
  then obtain a b where l: "expr_eval env l = Some a" and r: "expr_eval env r = Some b"
    and v: "binary_meaning op a b = Some v" by (auto simp: bind_eq_Some_conv)
  have a: "eval_expr ck fns res n scope l = Inr (to_server a) \<and> plain a"
    by (rule ExBinary.IH(1)) (use l ExBinary.prems in auto)
  have b: "eval_expr ck fns res n scope r = Inr (to_server b) \<and> plain b"
    by (rule ExBinary.IH(2)) (use r ExBinary.prems in auto)
  show ?case
  proof (cases "op \<in> {OpAnd, OpOr, OpFallback}")
    case True
    have null: "to_server x = AvNull \<longleftrightarrow> x = EvNull" if "plain x" for x using that by (cases x) auto
    from True v a b null [of a] show ?thesis
      by (auto simp: binary_meaning_def truthy_server)
  next
    case False
    have u: "comparison_uniform op (Some a) (Some b)" using ExBinary.prems(5) l r by simp
    from binary_server [OF v _ _ u False] a b have
      "eval_binary_expr ck op (to_server a) (to_server b) = Inr (to_server v) \<and> plain v" by blast
    with False a b show ?thesis by simp
  qed
next
  case (ExIndex obj index)
  then show ?case using index_server by (fastforce simp: bind_eq_Some_conv)
next
  case (ExMember obj p)
  then obtain w where w: "expr_eval env obj = Some w" "expr_member False p w = Some v"
    by (auto simp: bind_eq_Some_conv)
  have "eval_expr ck fns res n scope obj = Inr (to_server w) \<and> plain w"
    by (rule ExMember.IH) (use w ExMember.prems in auto)
  with w(2) show ?case
    by (cases w) (auto simp: expr_member_def field_server field_plain)
next
  case (ExOptionalMember obj p)
  then obtain w where w: "expr_eval env obj = Some w" "expr_member True p w = Some v"
    by (auto simp: bind_eq_Some_conv)
  have "eval_expr ck fns res n scope obj = Inr (to_server w) \<and> plain w"
    by (rule ExOptionalMember.IH) (use w ExOptionalMember.prems in auto)
  with w(2) show ?case
    by (cases w) (auto simp: expr_member_def field_server field_plain)
qed auto

end
