(* ===== verification/Page_Each.thy ===== *)
theory Page_Each
  imports Page_Correct Hydration
begin

section \<open>Lists of a page and the browser\<close>

text \<open>
  The items of a keyed list carry one distinct key each, of one kind, in the order of the list. An update path of an item, which
  the state executor of the browser resolves in the value of the item, reads what the server rendered, as long
  as no name of the path was bound again; the last lemmas show what happens when one was.
\<close>

subsection \<open>Keys\<close>

definition item_key :: "page_env \<Rightarrow> ax_function list \<Rightarrow> string \<Rightarrow> ax_expr \<Rightarrow> page_scope \<Rightarrow> ax_value \<Rightarrow> eval_failure + (string \<times> string)" where
  "item_key env functions binding key scope item =
     and_then (page_eval env functions (bm_insert each_render_binding (AvString binding) (bm_insert binding item scope)) key) each_key_identity"

definition key_kind :: "string \<Rightarrow> string option" where
  "key_kind identity = map_option fst (split_once (CHR '':'') identity)"

fun item_id :: "ax_node \<Rightarrow> string option" where
  "item_id (NodeElement tag attrs cs) =
     (if tag = ''ax-each-item'' then map_of (map (\<lambda>a. (attr_name a, attr_value a)) attrs) ''data-ax-each-key-id'' else None)"
| "item_id _ = None"

definition progress_ok :: "each_progress \<Rightarrow> bool" where
  "progress_ok st = (distinct (each_keys st) \<and> map item_id (each_children st) = map Some (each_keys st)
     \<and> list_all (\<lambda>k. each_kind st \<noteq> None \<and> key_kind k = each_kind st) (each_keys st)
     \<and> (case each_template st of Some t \<Rightarrow> list_all each_render_template_is_safe t | None \<Rightarrow> True))"

lemma item_id_each [simp]: "item_id (each_item_node display identity cs) = Some identity"
  by (simp add: each_item_node_def element_with_attrs_def attr_def)

lemma keyed_item_progress:
  assumes "lower_keyed_item env rec srcs slot binding key body path scope item st = Inr st'" and "progress_ok st"
  shows "\<exists>identity display. item_key env (src_functions srcs) binding key scope item = Inr (identity, display)
    \<and> each_keys st' = each_keys st @ [identity] \<and> progress_ok st'"
proof -
  from assms(1) obtain v identity display kind inner cs nested where
    key: "page_eval env (src_functions srcs) (bm_insert each_render_binding (AvString binding) (bm_insert binding item scope)) key = Inr v"
      "each_key_identity v = Inr (identity, display)"
    and kind: "ok_or (Raised InvalidEachKey) (map_option fst (split_once (CHR '':'') identity)) = Inr kind"
      "each_kind st = None \<or> each_kind st = Some kind" "identity \<notin> set (each_keys st)"
    and st': "st' = \<lparr> each_children = each_children st @ [each_item_node display identity cs],
                  each_template = (if each_template st = None \<and> each_render_scope_is_supported nested
                    \<and> list_all each_render_template_is_safe cs then Some cs else each_template st),
                  each_keys = each_keys st @ [identity], each_kind = Some kind \<rparr>"
    by (fastforce simp: lower_keyed_item_def Let_def and_then_Inr_iff split: if_splits)
  from kind(1) have k: "key_kind identity = Some kind" by (auto simp: ok_or_def key_kind_def split: option.splits)
  have "list_all (\<lambda>k. key_kind k = Some kind) (each_keys st)"
    using kind(2) assms(2) k by (auto simp: progress_ok_def list_all_iff key_kind_def)
  with assms(2) kind(3) k have "progress_ok st'"
    by (auto simp: st' progress_ok_def split: option.splits)
  then show ?thesis using key by (auto simp: item_key_def st')
qed

lemma keyed_items_progress:
  "lower_keyed_items env rec srcs slot binding key body path scope items st = Inr st' \<Longrightarrow> progress_ok st
   \<Longrightarrow> \<exists>ids. try_map (item_key env (src_functions srcs) binding key scope) items = Inr ids
     \<and> each_keys st' = each_keys st @ map fst ids \<and> progress_ok st'"
proof (induction items arbitrary: st)
  case (Cons item items)
  then obtain st1 where item: "lower_keyed_item env rec srcs slot binding key body path scope item st = Inr st1"
    and rest: "lower_keyed_items env rec srcs slot binding key body path scope items st1 = Inr st'"
    by (auto simp: and_then_Inr_iff)
  from keyed_item_progress [OF item Cons.prems(2)] Cons.IH [OF rest] show ?case by fastforce
qed simp

lemma empty_ids: "map item_id (each_empty_node ns) = map (\<lambda>_. None) (each_empty_node ns)"
  "map item_id (each_template_node t) = map (\<lambda>_. None) (each_template_node t)"
  by (auto simp: each_empty_node_def each_template_node_def element_with_attrs_def split: option.split)

lemma lower_each_keyed:
  assumes "lower_each env rec srcs slot binding (Some key) state body blank path scope v = Inr nodes"
  obtains items node where "v = AvList items" "nodes = [node]"
    "lower_keyed_each env rec srcs slot binding key state body blank path scope items = Inr node"
  using assms by (cases v) (auto simp: lower_each_def and_then_Inr_iff)

text \<open>An element whose first children are the items with these keys, followed by none.\<close>

definition owns_items :: "string list \<Rightarrow> ax_node \<Rightarrow> bool" where
  "owns_items keys node = (\<exists>attrs kids tail. node = NodeElement ''ax-state-each'' attrs (kids @ tail)
     \<and> map item_id kids = map Some keys \<and> map item_id tail = map (\<lambda>_. None) tail)"

lemma keyed_each_owned:
  assumes "lower_keyed_each env rec srcs slot binding key state body blank path scope items = Inr node"
  shows "\<exists>ids. try_map (item_key env (src_functions srcs) binding key scope) items = Inr ids
    \<and> distinct (map fst ids) \<and> (\<exists>kind. list_all (\<lambda>k. key_kind (fst k) = Some kind) ids) \<and> owns_items (map fst ids) node"
proof -
  from assms obtain st where st: "(if items = [] then
          and_then (lower_nested rec srcs slot blank scope) (\<lambda>blank. Inr (each_start \<lparr> each_children := each_empty_node blank \<rparr>))
        else lower_keyed_items env rec srcs slot binding key body path scope items each_start) = Inr st"
    and node: "node = NodeElement ''ax-state-each'' (each_attrs binding key state (each_kind st)
        (each_children st @ each_template_node (each_template st))) (each_children st @ each_template_node (each_template st))"
    by (auto simp: lower_keyed_each_def and_then_Inr_iff Let_def element_with_attrs_def)
  show ?thesis
  proof (cases "items = []")
    case True
    with st obtain ns where ns: "each_children st = each_empty_node ns" by (auto simp: and_then_Inr_iff each_start_def)
    have "owns_items [] node"
      unfolding owns_items_def node ns
      by (rule exI, rule exI [of _ "[]"], rule exI [of _ "each_empty_node ns @ each_template_node (each_template st)"]) (simp add: empty_ids)
    with True show ?thesis by simp
  next
    case False
    with st have "lower_keyed_items env rec srcs slot binding key body path scope items each_start = Inr st" by simp
    moreover have "progress_ok each_start" by (simp add: progress_ok_def each_start_def)
    ultimately obtain ids where ids: "try_map (item_key env (src_functions srcs) binding key scope) items = Inr ids"
        "each_keys st = map fst ids" and ok: "progress_ok st"
      using keyed_items_progress by (fastforce simp: each_start_def)
    from ok ids(2) have "map item_id (each_children st) = map Some (map fst ids)" and dist: "distinct (map fst ids)"
      by (simp_all add: progress_ok_def)
    then have "owns_items (map fst ids) node"
      unfolding owns_items_def node
      by (intro exI [of _ "each_children st"] exI [of _ "each_template_node (each_template st)"] exI) (simp add: empty_ids)
    moreover have "\<exists>kind. list_all (\<lambda>k. key_kind (fst k) = Some kind) ids"
      using ok ids(2) by (cases "each_kind st") (auto simp: progress_ok_def list_all_iff)
    ultimately show ?thesis using ids(1) dist by blast
  qed
qed

text \<open>C8. The items of a keyed list are told apart: when a list with a key is lowered, the key of every item
  evaluates, the keys are pairwise distinct and of one kind, and the list is one element whose items carry
  them in order; a list with a key twice, or with keys of two kinds, is not lowered.\<close>

theorem keyed_items_owned:
  assumes "lower_statement env rec srcs slot path (SmEach binding source (Some key) state body blank) scope = Inr (nodes, scope')"
  shows "\<exists>items ids kind node. page_eval env (src_functions srcs) scope' source = Inr (AvList items)
    \<and> try_map (item_key env (src_functions srcs) binding key scope') items = Inr ids
    \<and> distinct (map fst ids) \<and> list_all (\<lambda>k. key_kind (fst k) = Some kind) ids
    \<and> nodes = [node] \<and> owns_items (map fst ids) node"
proof -
  let ?scope = "mark_if_references source scope"
  from assms obtain v where v: "page_eval env (src_functions srcs) ?scope source = Inr v" "scope' = ?scope"
    and "lower_each env rec srcs slot binding (Some key) state body blank path ?scope v = Inr nodes"
    by (auto simp: and_then_Inr_iff Let_def)
  then obtain items node where src: "page_eval env (src_functions srcs) ?scope source = Inr (AvList items)"
    and each: "lower_keyed_each env rec srcs slot binding key state body blank path ?scope items = Inr node"
    and nodes: "nodes = [node]" "scope' = ?scope"
    by (elim lower_each_keyed) simp
  from keyed_each_owned [OF each] src nodes show ?thesis by blast
qed

definition numbered_list :: ax_statement where
  "numbered_list = SmEach ''n'' (ExIdentifier ''ns'') (Some (ExIdentifier ''n'')) None [] []"

lemma demo_list_lowers:
  "\<exists>node. lower_statement demo_page_env (lower_statements demo_page_env 1) no_sources None ''0'' numbered_list
      [(''ns'', AvList [AvString ''a'', AvString ''b''])] = Inr ([node], [(''ns'', AvList [AvString ''a'', AvString ''b''])])"
  by (simp add: numbered_list_def page_unfold lower_each_def lower_keyed_each_def lower_keyed_item_def each_start_def each_key_identity_def
    ok_or_def)

theorem keyed_items_owned_witness:
  "\<exists>node. lower_statement demo_page_env (lower_statements demo_page_env 1) no_sources None ''0'' numbered_list
      [(''ns'', AvList [AvString ''a'', AvString ''b''])] = Inr ([node], [(''ns'', AvList [AvString ''a'', AvString ''b''])])
     \<and> owns_items [''string:a'', ''string:b''] node"
proof -
  let ?scope = "[(''ns'', AvList [AvString ''a'', AvString ''b''])]"
  from demo_list_lowers obtain node where
    run: "lower_statement demo_page_env (lower_statements demo_page_env 1) no_sources None ''0'' numbered_list ?scope = Inr ([node], ?scope)" ..
  have "page_eval demo_page_env (src_functions no_sources) ?scope (ExIdentifier ''ns'') = Inr (AvList [AvString ''a'', AvString ''b''])"
    "try_map (item_key demo_page_env (src_functions no_sources) ''n'' (ExIdentifier ''n'') ?scope) [AvString ''a'', AvString ''b'']
      = Inr [(''string:a'', ''a''), (''string:b'', ''b'')]"
    by (simp_all add: page_unfold item_key_def each_key_identity_def)
  with keyed_items_owned [OF run [unfolded numbered_list_def]] run show ?thesis by auto
qed

subsection \<open>Update paths\<close>

definition path_part :: "string \<Rightarrow> bool" where
  "path_part p = (p \<noteq> [] \<and> CHR ''.'' \<notin> set p)"

text \<open>Expressions whose members are plain names.\<close>

definition plain_path :: "ax_expr \<Rightarrow> bool" where
  "plain_path e = (case member_path e of Some (root, parts) \<Rightarrow> root \<noteq> ''null'' \<and> list_all path_part parts | None \<Rightarrow> True)"

definition base_path :: "page_scope \<Rightarrow> string \<Rightarrow> string option" where
  "base_path scope root =
     (case scope_text scope each_render_binding of
        None \<Rightarrow> None
      | Some binding \<Rightarrow> if root = binding then Some [] else scope_text scope (each_param_prefix @ root))"

definition combine_path :: "string \<Rightarrow> string \<Rightarrow> string" where
  "combine_path a b = (if a = [] then b else if b = [] then a else a @ ''.'' @ b)"

lemma each_render_path_base:
  "each_render_path e scope = (case member_path e of
      Some (root, parts) \<Rightarrow> map_option (\<lambda>b. combine_path b (join_with ''.'' parts)) (base_path scope root)
    | None \<Rightarrow> None)"
  by (auto simp: each_render_path_def base_path_def combine_path_def Let_def split: option.split)

lemma split_on_middle: "split_on d (a @ d # b) = split_on d a @ split_on d b"
proof (induction a)
  case (Cons c a)
  obtain p ps where "split_on d a = p # ps" using split_on_not_Nil [of d a] by (cases "split_on d a") auto
  with Cons show ?case by simp
qed simp

lemma resolve_append:
  "resolve_segments n v (xs @ ys) = Option.bind (resolve_segments n v xs) (\<lambda>w. resolve_segments (n + length xs) w ys)"
  by (induction n v xs rule: resolve_segments.induct) (auto split: expr_value.split Option.bind_split)

lemma split_parts: "list_all path_part parts \<Longrightarrow> parts \<noteq> [] \<Longrightarrow> split_on (CHR ''.'') (join_with ''.'' parts) = parts"
  by (induction "''.''" parts rule: join_with.induct) (simp_all add: path_part_def split_on_absent split_on_append)

lemma join_parts_Nil: "list_all path_part parts \<Longrightarrow> join_with ''.'' parts = [] \<longleftrightarrow> parts = []"
  by (cases parts rule: remdups_adj.cases) (simp_all add: path_part_def)

lemma resolve_combined:
  assumes "resolve_each_path item (combine_path b (join_with ''.'' parts)) = Some w" and "list_all path_part parts"
  shows "\<exists>u n. resolve_each_path item b = Some u \<and> resolve_segments n u parts = Some w"
proof (cases "parts = []")
  case True
  with assms(1) show ?thesis by (auto simp: combine_path_def split: if_splits)
next
  case False
  note split = split_parts [OF assms(2) False]
  have join: "join_with ''.'' parts \<noteq> []" using join_parts_Nil [OF assms(2)] False by simp
  show ?thesis
  proof (cases "b = []")
    case True
    with assms(1) join split show ?thesis by (auto simp: combine_path_def resolve_each_path_def)
  next
    case False
    with assms(1) join split show ?thesis
      by (auto simp: combine_path_def resolve_each_path_def split_on_middle resolve_append bind_eq_Some_conv)
  qed
qed

lemma member_value:
  assumes "bm_get scope root = Some (to_server u)" and "root \<noteq> ''null''"
  shows "member_path e = Some (root, parts) \<Longrightarrow> resolve_segments n u parts = Some w \<Longrightarrow> page_eval env fns scope e = Inr (to_server w)"
proof (induction e arbitrary: parts w)
  case (ExIdentifier name)
  with assms show ?case by (simp add: page_eval_def)
next
  case (ExMember obj property)
  then obtain ps x where path: "member_path obj = Some (root, ps)" and parts: "parts = ps @ [property]"
    and x: "resolve_segments n u ps = Some x" "resolve_segments (n + length ps) x [property] = Some w"
    by (auto simp: resolve_append bind_eq_Some_conv)
  then obtain fs where "x = EvObject fs" "map_of fs property = Some w"
    by (auto split: expr_value.splits if_splits simp: bind_eq_Some_conv)
  with ExMember.IH [OF path x(1)] show ?case
    by (simp add: page_eval_def record_get_def bm_get_def map_of_map)
next
  case (ExOptionalMember obj property)
  then obtain ps x where path: "member_path obj = Some (root, ps)" and parts: "parts = ps @ [property]"
    and x: "resolve_segments n u ps = Some x" "resolve_segments (n + length ps) x [property] = Some w"
    by (auto simp: resolve_append bind_eq_Some_conv)
  then obtain fs where "x = EvObject fs" "map_of fs property = Some w"
    by (auto split: expr_value.splits if_splits simp: bind_eq_Some_conv)
  with ExOptionalMember.IH [OF path x(1)] show ?case
    by (simp add: page_eval_def record_get_def bm_get_def map_of_map)
qed simp_all

text \<open>A scope agrees with an item: what a path of a name resolves to in the item is what the name holds.\<close>

definition faithful_scope :: "expr_value \<Rightarrow> page_scope \<Rightarrow> bool" where
  "faithful_scope item scope = (\<forall>root p. base_path scope root = Some p
     \<longrightarrow> (\<exists>v. bm_get scope root = Some v \<and> (\<forall>w. resolve_each_path item p = Some w \<longrightarrow> v = to_server w)))"

lemma faithful_eval:
  assumes "faithful_scope item scope" and "plain_path e" and "each_render_path e scope = Some path" and "resolve_each_path item path = Some w"
  shows "page_eval env fns scope e = Inr (to_server w)"
proof -
  from assms(3) obtain root parts b where e: "member_path e = Some (root, parts)" and b: "base_path scope root = Some b"
    and path: "path = combine_path b (join_with ''.'' parts)"
    by (auto simp: each_render_path_base split: option.splits)
  from assms(2) e have parts: "root \<noteq> ''null''" "list_all path_part parts" by (simp_all add: plain_path_def)
  from resolve_combined [OF assms(4) [unfolded path] parts(2)] obtain u n where
    u: "resolve_each_path item b = Some u" "resolve_segments n u parts = Some w" by blast
  from assms(1) b u(1) have "bm_get scope root = Some (to_server u)" by (auto simp: faithful_scope_def)
  from member_value [OF this parts(1) e u(2)] show ?thesis .
qed

text \<open>The scopes in which the body of an item is lowered, as long as no name is bound twice.\<close>

inductive item_scope :: "page_env \<Rightarrow> ax_function list \<Rightarrow> expr_value \<Rightarrow> page_scope \<Rightarrow> bool" for env fns item where
  item_start: "(\<And>x. bm_get scope (each_param_prefix @ x) = None) \<Longrightarrow> \<not> internal_name binding
    \<Longrightarrow> item_scope env fns item (bm_insert each_render_binding (AvString binding) (bm_insert binding (to_server item) scope))"
| item_path: "item_scope env fns item scope \<Longrightarrow> item_scope env fns item (bm_insert ax_render_path v scope)"
| item_mark: "item_scope env fns item scope \<Longrightarrow> item_scope env fns item (mark_if_references e scope)"
| item_let: "item_scope env fns item scope \<Longrightarrow> page_eval env fns scope e = Inr v \<Longrightarrow> plain_path e \<Longrightarrow> \<not> internal_name name
    \<Longrightarrow> bm_get scope name = None \<Longrightarrow> item_scope env fns item (bind_data name e v scope)"

lemma key_names [simp]:
  "each_param_prefix @ x \<noteq> each_render_binding" "each_param_prefix @ x \<noteq> ax_render_path" "each_param_prefix @ x \<noteq> each_unsupported_key"
  "each_render_binding \<noteq> each_param_prefix @ x" "each_render_binding \<noteq> ax_render_path" "each_render_binding \<noteq> each_unsupported_key"
  "ax_render_path \<noteq> each_render_binding"
  by (simp_all add: page_names)

lemma external_name: "\<not> internal_name name \<Longrightarrow> name \<noteq> each_render_binding \<and> name \<noteq> each_param_prefix @ x \<and> name \<noteq> ax_render_path
    \<and> name \<noteq> each_unsupported_key"
  using internal_names by metis

lemma resolve_root [simp]: "resolve_each_path item [] = Some item"
  by (simp add: resolve_each_path_def)

lemma scope_text_insert: "scope_text (bm_insert k v scope) x = (if x = k then Some (as_string v) else scope_text scope x)"
  by (simp add: scope_text_def bm_get_insert)

definition item_inv :: "expr_value \<Rightarrow> page_scope \<Rightarrow> bool" where
  "item_inv item scope = (faithful_scope item scope \<and> (\<forall>root. base_path scope root \<noteq> None \<longrightarrow> \<not> internal_name root))"

lemma inv_insert:
  assumes "item_inv item scope" and "k = ax_render_path \<or> k = each_unsupported_key"
  shows "item_inv item (bm_insert k v scope)"
proof -
  have base: "base_path (bm_insert k v scope) = base_path scope"
    using assms(2) by (auto simp: base_path_def scope_text_insert fun_eq_iff split: option.split)
  have "bm_get (bm_insert k v scope) root = bm_get scope root" if "base_path scope root \<noteq> None" for root
  proof -
    from assms(1) that have "\<not> internal_name root" by (simp add: item_inv_def)
    with assms(2) show ?thesis by (auto simp: bm_get_insert)
  qed
  with assms(1) base show ?thesis unfolding item_inv_def faithful_scope_def by (metis option.distinct(1))
qed

lemma inv_mark: "item_inv item scope \<Longrightarrow> item_inv item (mark_if_references e scope)"
  by (simp add: mark_if_references_def mark_each_render_unsupported_def inv_insert)

lemma inv_let:
  assumes "item_inv item scope" and "page_eval env fns scope e = Inr v" and "plain_path e" and "\<not> internal_name name"
    and "bm_get scope name = None"
  shows "item_inv item (bind_data name e v scope)"
proof -
  let ?scope = "bm_insert name v scope"
  note ext = external_name [OF assms(4)]
  have base: "base_path ?scope = base_path scope"
    using ext by (auto simp: base_path_def scope_text_insert fun_eq_iff split: option.split)
  from assms(1,5) have fresh: "base_path scope name = None" by (fastforce simp: item_inv_def faithful_scope_def)
  have inv1: "item_inv item ?scope"
    unfolding item_inv_def faithful_scope_def base
  proof (intro conjI allI impI)
    fix root p assume root: "base_path scope root = Some p"
    with fresh have "root \<noteq> name" by auto
    with assms(1) root show "\<exists>v'. bm_get ?scope root = Some v' \<and> (\<forall>w. resolve_each_path item p = Some w \<longrightarrow> v' = to_server w)"
      by (auto simp: item_inv_def faithful_scope_def bm_get_insert)
  next
    fix root assume "base_path scope root \<noteq> None"
    with assms(1) show "\<not> internal_name root" by (simp add: item_inv_def)
  qed
  show ?thesis
  proof (cases "each_render_path e ?scope")
    case None
    then show ?thesis using inv_mark [OF inv1] by (simp add: bind_data_def Let_def)
  next
    case (Some path)
    let ?out = "bm_insert (each_param_prefix @ name) (AvString path) ?scope"
    have path: "each_render_path e scope = Some path" using Some unfolding each_render_path_base base .
    have v: "v = to_server w" if "resolve_each_path item path = Some w" for w
      using faithful_eval [OF _ assms(3) path that, of env fns] assms(1,2) by (simp add: item_inv_def)
    from fresh path have bound: "scope_text scope each_render_binding \<noteq> None"
      by (auto simp: each_render_path_base base_path_def split: option.splits)
    have new: "base_path ?out root = (if root = name then Some path else base_path scope root)" for root
      using ext fresh bound by (auto simp: base_path_def scope_text_insert split: option.splits if_splits)
    have "item_inv item ?out"
      unfolding item_inv_def faithful_scope_def
    proof (intro conjI allI impI)
      fix root p assume root: "base_path ?out root = Some p"
      show "\<exists>v'. bm_get ?out root = Some v' \<and> (\<forall>w. resolve_each_path item p = Some w \<longrightarrow> v' = to_server w)"
      proof (cases "root = name")
        case True
        have "bm_get ?out name = Some v" using ext [of name] by (auto simp: bm_get_insert)
        moreover have "p = path" using True root new by simp
        ultimately show ?thesis using True v by blast
      next
        case False
        with root new have old: "base_path scope root = Some p" by simp
        with assms(1) have "\<not> internal_name root" by (auto simp: item_inv_def)
        with False have "bm_get ?out root = bm_get scope root" using internal_names(4) by (auto simp: bm_get_insert)
        with old assms(1) show ?thesis by (auto simp: item_inv_def faithful_scope_def)
      qed
    next
      fix root assume "base_path ?out root \<noteq> None"
      with new assms(1,4) show "\<not> internal_name root" by (auto simp: item_inv_def split: if_splits)
    qed
    with Some show ?thesis by (simp add: bind_data_def Let_def)
  qed
qed

lemma item_scope_inv: "item_scope env fns item scope \<Longrightarrow> item_inv item scope"
proof (induction rule: item_scope.induct)
  case (item_start scope binding)
  note ext = external_name [OF item_start(2)]
  have base: "base_path (bm_insert each_render_binding (AvString binding) (bm_insert binding (to_server item) scope)) root
      = (if root = binding then Some [] else None)" for root
    using ext item_start(1) by (auto simp: base_path_def scope_text_insert scope_text_def [of scope])
  with ext item_start(2) show ?case by (auto simp: item_inv_def faithful_scope_def bm_get_insert split: if_splits)
qed (auto intro: inv_insert inv_mark inv_let)




text \<open>A name that is bound again keeps the path it had: the browser would show the title of the item where the
  server rendered another text.\<close>

lemma stale_update_path:
  "lower_statements demo_page_env 1 no_sources None
      [SmData ''title'' (ExMember (ExIdentifier ''row'') ''title''), SmData ''title'' (ExString ''Untitled''), SmText (ExIdentifier ''title'')]
      [(''__ax_each_render_binding'', AvString ''row''), (''row'', AvRecord [(''title'', AvString ''Home'')])]
    = Inr ([each_value_node ''title'' ''Untitled''],
       [(''__ax_each_render_binding'', AvString ''row''), (''__ax_each_render_param:title'', AvString ''title''),
        (''__ax_render_path'', AvString ''0''), (''row'', AvRecord [(''title'', AvString ''Home'')]), (''title'', AvString ''Untitled'')])"
  by (simp add: page_unfold record_get_def)

text \<open>What is written between the tags of a component is lowered in the scope of the component: its parameter hides
  the name of the page.\<close>

lemma slot_sees_component_scope:
  "\<exists>scope'. lower_statements demo_page_env 3 (no_sources\<lparr> src_components := [box_component] \<rparr>) None
      [SmComponent (AxComponent ''Box'' [(''title'', ExString ''of the box'')] no_style (BodyInline (ExIdentifier ''title'')))]
      [(''title'', AvString ''of the page'')] = Inr ([NodeText ''of the box''], scope')"
  by (simp add: numeral_3_eq_3 page_unfold box_component_def strip_slot_statement_def)

text \<open>The tag of a \<open>Copy\<close> is a value and is rendered as it is.\<close>

lemma copy_tag_is_markup:
  "\<exists>node scope'. lower_statements demo_page_env 1 no_sources None
      [SmComponent (AxComponent ''Copy'' [(''as'', ExIdentifier ''tag'')] no_style BodyEmpty)] [(''tag'', AvString ''p><script'')] = Inr ([node], scope')
    \<and> render_node node = ''<p><script class='' @ [CHR 0x22] @ ''ax-copy'' @ [CHR 0x22] @ ''></p><script>''"
  by (simp add: page_unfold component_element_def copy_element_def prop_string_def or_default_def with_class_def
    finish_element_def push_behavior_props_def push_remaining_props_def bind_prop_def element_with_attrs_def render_node_def push_attr_def
    escape_html_chars html_char_def attr_def action_form_def)

text \<open>The properties of an imported component are evaluated with the functions of the imported document, not
  with those of the page that writes them; a local component gets those of the page.\<close>

definition box_module :: ax_document where
  "box_module = demo_document [] \<lparr> doc_components := [box_component] \<rparr>"

definition greeting_function :: ax_function where
  "greeting_function = \<lparr> function_name = ''greeting'', function_params = [], function_body = ExString ''hello'' \<rparr>"

definition box_import :: ax_import where
  "box_import = \<lparr> import_bindings = [\<lparr> imported_name = ''Box'', local_name = ''Box'' \<rparr>], import_source = ''box.ax'' \<rparr>"

definition greeted_box :: ax_component where
  "greeted_box = AxComponent ''Box'' [(''title'', ExCall [''greeting''] [])] no_style BodyEmpty"

lemma imported_props_miss_functions:
  "lower_statements (demo_page_env\<lparr> pg_import_source := (\<lambda>source. Some ''module''), pg_parse := (\<lambda>source. Inr box_module) \<rparr>) 2
      (no_sources\<lparr> src_functions := [greeting_function], src_imports := [box_import] \<rparr>) None [SmComponent greeted_box] []
    = Inl (Raised (UnsupportedCall ''greeting''))
  \<and> (\<exists>scope'. lower_statements demo_page_env 3 (no_sources\<lparr> src_functions := [greeting_function], src_components := [box_component] \<rparr>) None
      [SmComponent greeted_box] [] = Inr ([], scope'))"
  by (simp add: numeral_3_eq_3 numeral_2_eq_2 page_unfold greeted_box_def box_import_def box_module_def box_component_def demo_document_def
    lower_imported_component_nodes_def imported_component_def document_sources_def eval_function_call_def greeting_function_def
    resolve_function_def find_function_def eval_nat_numeral)

end
