(* ===== verification/Page_Ends.thy ===== *)
theory Page_Ends
  imports Page_Correct
begin

section \<open>Pages that end\<close>

text \<open>
  Lowering follows the bodies of components, so it ends when no component contains itself: when the
  components can be ranked such that the body of each uses only components of a smaller rank. Slots are no
  exception, since what is put into a slot was written outside of the component.
\<close>

subsection \<open>Components a statement uses\<close>

fun uses_statement :: "ax_statement \<Rightarrow> string set"
  and uses_component :: "ax_component \<Rightarrow> string set"
  and uses_body :: "markup_body \<Rightarrow> string set"
  and uses_stage :: "pipeline_stage \<Rightarrow> string set"
  and uses_cases :: "(string \<times> ax_statement list) list \<Rightarrow> string set" where
  "uses_statement (SmData name e) = {}"
| "uses_statement (SmEach binding source key state body blank) = (\<Union>s \<in> set body. uses_statement s) \<union> (\<Union>s \<in> set blank. uses_statement s)"
| "uses_statement (SmIf e body els) = (\<Union>s \<in> set body. uses_statement s) \<union> (\<Union>s \<in> set els. uses_statement s)"
| "uses_statement (SmMatch e cases dflt) =
     uses_cases cases \<union> (case dflt of Some body \<Rightarrow> \<Union>s \<in> set body. uses_statement s | None \<Rightarrow> {})"
| "uses_statement (SmText e) = {}"
| "uses_statement (SmComponent cmpt) = uses_component cmpt"
| "uses_statement (SmPipeline e stages) = (\<Union>s \<in> set stages. uses_stage s)"
| "uses_component (AxComponent name props style body) = insert name (uses_body body)"
| "uses_body BodyEmpty = {}"
| "uses_body (BodyInline e) = {}"
| "uses_body (BodyBlock body) = (\<Union>s \<in> set body. uses_statement s)"
| "uses_stage (StageComponent cmpt) = uses_component cmpt"
| "uses_stage (StageEach binding) = {}"
| "uses_cases [] = {}"
| "uses_cases ((c, body) # cases) = (\<Union>s \<in> set body. uses_statement s) \<union> uses_cases cases"

definition ranked_components :: "(string \<Rightarrow> nat) \<Rightarrow> component_def list \<Rightarrow> bool" where
  "ranked_components rank components = (\<forall>c \<in> set components. \<forall>c' \<in> set components.
     (\<exists>s \<in> set (cd_body c). cd_name c' \<in> uses_statement s) \<longrightarrow> rank (cd_name c') < rank (cd_name c))"

subsection \<open>Results that end\<close>

definition ended :: "eval_failure + 'a \<Rightarrow> bool" where
  "ended r = (r \<noteq> Inl Diverges)"

named_theorems ending

lemma ended_simps [simp]: "ended (Inr x)" "ended (Inl (Raised e))" "ended (Inl (Panicked p))"
  by (simp_all add: ended_def)

lemma ended_then [ending]: "ended m \<Longrightarrow> (\<And>x. ended (f x)) \<Longrightarrow> ended (and_then m f)"
  by (cases m) (auto simp: ended_def)

lemma ended_bind: "ended m \<Longrightarrow> (\<And>x. m = Inr x \<Longrightarrow> ended (f x)) \<Longrightarrow> ended (and_then m f)"
  by (cases m) (auto simp: ended_def)

lemma ended_try_map [ending]: "(\<And>x. x \<in> set xs \<Longrightarrow> ended (f x)) \<Longrightarrow> ended (try_map f xs)"
  by (induction xs) (simp_all add: ending)

lemma ended_ok_or [ending]: "ended (Inl e :: eval_failure + 'a) \<Longrightarrow> ended (ok_or e m :: eval_failure + 'a)"
  by (cases m) simp_all

lemma unsupported_ended [simp]: "ended (unsupported message)"
  by (simp add: unsupported_def)

definition total_eval :: "page_env \<Rightarrow> ax_function list \<Rightarrow> bool" where
  "total_eval env fns = (\<forall>scope e. ended (page_eval env fns scope e))"

lemma total_evalD [ending]: "total_eval env fns \<Longrightarrow> ended (page_eval env fns scope e)"
  by (simp add: total_eval_def)

text \<open>Without functions every evaluation ends.\<close>

lemma float_ended [simp]: "ended (finite_float_value b operator)"
  by (simp add: finite_float_value_def split: option.split)

lemma numeric_ended: "(\<And>a b. ended (f a b)) \<Longrightarrow> ended (eval_numeric_binary l r f g operator z)"
  by (auto simp: eval_numeric_binary_def ending split: ax_value.split)

lemma compare_ended [simp]: "ended (eval_compare_binary l r operation operator)"
  by (auto simp: eval_compare_binary_def compare_floats_def split: ax_value.split option.split)

lemma plain_op_ended [simp]: "ended (plain_int_op checks exact wrapping message a b)"
  by (simp add: plain_int_op_def split: option.split)

lemma add_ended [simp]: "ended (add_values l r)"
  by (auto simp: add_values_def split: ax_value.split option.split)

lemma unary_ended [simp]: "ended (eval_unary_expr ck op v)"
  by (auto simp: eval_unary_expr_def split: ax_unary_op.split ax_value.split option.split)

lemma index_ended [simp]: "ended (eval_index_expr a i)"
  by (auto simp: eval_index_expr_def split: ax_value.split)

lemma binary_ended [simp]: "ended (eval_binary_expr ck op l r)"
  by (auto simp: eval_binary_expr_def ending intro!: numeric_ended split: ax_binary_op.split ax_value.split)

lemma total_without_functions: "total_eval env []"
proof -
  have "ended (eval_expr ck [] res n scope e)" for ck res n scope e
  proof (induction ck "[] :: ax_function list" res n scope e rule: eval_expr.induct)
    case (6 ck res n scope flds)
    then show ?case by (auto intro!: ended_then ended_try_map)
  next
    case (12 ck res n scope obj property)
    then show ?case
      by (cases "eval_expr ck [] res n scope obj")
        (auto simp: ended_def split: eval_failure.split lower_error.split ax_value.split)
  next
    case (13 ck res n scope path args)
    have "resolve_function [] path = None" by (simp add: resolve_function_def find_function_def split: list.split)
    with 13 show ?case by (auto simp: ending intro!: ended_then ended_try_map)
  qed (auto simp: ending intro!: ended_then ended_try_map split: ax_value.split)
  then show ?thesis by (simp add: total_eval_def page_eval_def)
qed

lemma text_ended [ending]: "total_eval env fns \<Longrightarrow> ended (lower_each_render_text env fns e scope)"
  by (auto simp: lower_each_render_text_def ending intro!: ended_then split: option.split)

lemma props_ended [ending]: "total_eval env fns \<Longrightarrow> ended (eval_props env fns cmpt scope)"
  by (auto simp: eval_props_def ending intro!: ended_then ended_try_map)

lemma style_ended [ending]: "total_eval env fns \<Longrightarrow> ended (style_attrs env fns style scope)"
  by (auto simp: style_attrs_def style_attr_def ending intro!: ended_then split: option.split)

lemma params_ended [ending]: "total_eval env fns \<Longrightarrow> ended (bind_component_params env fns name props params scope)"
  by (induction params arbitrary: scope) (auto simp: ending intro!: ended_then split: option.split)

lemma states_ended [ending]: "total_eval env fns \<Longrightarrow> ended (bind_component_states env fns states scope)"
  by (induction states arbitrary: scope) (auto simp: ending intro!: ended_then)

lemma scope_ended [ending]: "total_eval env fns \<Longrightarrow> ended (component_scope env fns cmpt def props scope)"
  by (auto simp: component_scope_def ending intro!: ended_then)

lemma page_params_ended [ending]: "total_eval env fns \<Longrightarrow> ended (apply_params_to_scope env fns params scope)"
  by (induction params arbitrary: scope) (auto simp: ending intro!: ended_then split: option.split)

lemma prop_text_ended [ending]: "total_eval env fns \<Longrightarrow> ended (first_prop_text env fns scope names cmpt)"
  by (auto simp: first_prop_text_def page_text_def ending intro!: ended_then split: option.split)

lemma select_ended [ending]: "total_eval env fns \<Longrightarrow> ended (select_slot_statements env fns scope requested body)"
  by (induction body) (auto simp: statement_slot_name_def ending intro!: ended_then split: ax_statement.split)

lemma selected_members:
  "select_slot_statements env fns scope requested body = Inr selected \<Longrightarrow> set selected \<subseteq> strip_slot_statement ` set body"
  by (induction body arbitrary: selected) (fastforce simp: and_then_Inr_iff split: if_splits)+

lemma key_ended [ending]: "ended (each_key_identity v)"
  by (cases v) (simp_all add: each_key_identity_def)

lemma nested_ended: "ended (rec srcs slot body scope) \<Longrightarrow> ended (lower_nested rec srcs slot body scope)"
  by (auto simp: lower_nested_def intro!: ended_then split: prod.split)

subsection \<open>Statements that end\<close>

definition statement_ends :: "page_env \<Rightarrow> lowering_sources \<Rightarrow> slot_context option \<Rightarrow> ax_statement \<Rightarrow> bool" where
  "statement_ends env srcs slot s = (\<exists>N. \<forall>n \<ge> N. \<forall>path scope. ended (lower_statement env (lower_statements env n) srcs slot path s scope))"

fun slot_ends :: "page_env \<Rightarrow> lowering_sources \<Rightarrow> slot_context option \<Rightarrow> bool" where
  "slot_ends env srcs None = True"
| "slot_ends env srcs (Some (SlotContext body srcs' parent)) =
     (srcs' = srcs \<and> (\<forall>s \<in> set body. statement_ends env srcs parent (strip_slot_statement s)))"

lemma sequence_ended:
  "(\<And>s path scope. s \<in> set body \<Longrightarrow> ended (lower_statement env rec srcs slot path s scope))
   \<Longrightarrow> ended (lower_sequence env rec srcs slot parent i body scope)"
  by (induction body arbitrary: i scope) (auto simp: Let_def intro!: ended_then split: prod.split)

lemma uniform_bound: "\<forall>x \<in> set xs. \<exists>N. \<forall>n \<ge> N. Q n x \<Longrightarrow> \<exists>N :: nat. \<forall>n \<ge> N. \<forall>x \<in> set xs. Q n x"
proof (induction xs)
  case (Cons x xs)
  then obtain N M where "\<forall>n \<ge> N. Q n x" "\<forall>n \<ge> M. \<forall>x \<in> set xs. Q n x" by auto
  then have "\<forall>n \<ge> max N M. \<forall>y \<in> set (x # xs). Q n y" by simp
  then show ?case by blast
qed simp

lemma bodies_end:
  assumes "\<forall>s \<in> set xs. statement_ends env srcs slot s"
  shows "\<exists>N. \<forall>n \<ge> N. \<forall>body scope. set body \<subseteq> set xs \<longrightarrow> ended (lower_statements env n srcs slot body scope)"
proof -
  from uniform_bound [OF assms [unfolded statement_ends_def]] obtain N where
    N: "\<And>n s path scope. N \<le> n \<Longrightarrow> s \<in> set xs \<Longrightarrow> ended (lower_statement env (lower_statements env n) srcs slot path s scope)" by blast
  have "ended (lower_statements env n srcs slot body scope)" if "Suc N \<le> n" "set body \<subseteq> set xs" for n body scope
  proof -
    from that(1) obtain k where n: "n = Suc k" and k: "N \<le> k" by (cases n) auto
    have "ended (lower_statement env (lower_statements env k) srcs slot path s scope)" if "s \<in> set body" for s path scope
      using N [OF k] that \<open>set body \<subseteq> set xs\<close> by blast
    then show ?thesis
      by (auto simp: n lower_block_def Let_def intro!: ended_then sequence_ended split: prod.split)
  qed
  then show ?thesis by blast
qed

lemma slot_ended:
  assumes "total_eval env (src_functions srcs)"
    and "\<And>sel scope. set sel \<subseteq> strip_slot_statement ` set body \<Longrightarrow> ended (rec srcs parent sel scope)"
  shows "ended (lower_slot env rec (Some (SlotContext body srcs parent)) cmpt scope)"
  using assms by (auto simp: lower_slot_def slot_name_expr_def ending intro!: ended_bind nested_ended dest: selected_members)

lemma children_ended:
  assumes "total_eval env (src_functions srcs)"
    and "\<And>scope. ended (rec srcs slot (component_children_to_statements cmpt) scope)"
  shows "ended (lower_component_children env rec srcs slot cmpt scope)"
  using assms by (auto simp: lower_component_children_def component_children_to_statements_def ending
    intro!: ended_then nested_ended split: markup_body.splits prod.split)

lemma node_ended:
  assumes "total_eval env (src_functions srcs)"
    and "\<And>scope. ended (rec srcs slot (component_children_to_statements cmpt) scope)"
  shows "ended (lower_component_node env rec srcs slot cmpt scope)"
  using assms by (auto simp: lower_component_node_def ending intro!: ended_then children_ended split: prod.split)

lemma local_ended:
  assumes "total_eval env (src_functions srcs)"
    and "\<And>scope. ended (rec srcs (Some (SlotContext (component_children_to_statements cmpt) srcs slot)) (cd_body def) scope)"
  shows "ended (lower_local_component_nodes env rec srcs srcs slot cmpt def scope)"
  using assms by (auto simp: lower_local_component_nodes_def ending intro!: ended_then nested_ended)

lemma component_ends:
  assumes "total_eval env (src_functions srcs)" and "\<And>path. pg_import_source env path = None" and "slot_ends env srcs slot"
    and "\<forall>s \<in> set (component_children_to_statements cmpt). statement_ends env srcs slot s \<and> statement_ends env srcs slot (strip_slot_statement s)"
    and "\<And>def slot' s. resolve_component (src_components srcs) (component_name cmpt) = Some def \<Longrightarrow> slot_ends env srcs slot'
      \<Longrightarrow> s \<in> set (cd_body def) \<Longrightarrow> statement_ends env srcs slot' s"
  shows "\<exists>N. \<forall>n \<ge> N. \<forall>scope. ended (lower_component_nodes env (lower_statements env n) srcs slot cmpt scope)"
proof -
  let ?body = "component_children_to_statements cmpt"
  let ?inner = "Some (SlotContext ?body srcs slot)"
  from assms(4) obtain N1 where N1: "\<And>n body scope. N1 \<le> n \<Longrightarrow> set body \<subseteq> set ?body \<Longrightarrow> ended (lower_statements env n srcs slot body scope)"
    using bodies_end [of ?body env srcs slot] by meson
  obtain N2 where N2: "\<And>n scope. N2 \<le> n \<Longrightarrow> ended (lower_slot env (lower_statements env n) slot cmpt scope)"
  proof (cases slot)
    case None
    with that show thesis by (simp add: lower_slot_def)
  next
    case (Some c)
    then obtain body parent where slot: "slot = Some (SlotContext body srcs parent)"
      and "\<forall>s \<in> set (map strip_slot_statement body). statement_ends env srcs parent s"
      using assms(3) by (cases c) auto
    from bodies_end [OF this(2)] obtain N where
      "\<And>n sel scope. N \<le> n \<Longrightarrow> set sel \<subseteq> strip_slot_statement ` set body \<Longrightarrow> ended (lower_statements env n srcs parent sel scope)"
      by (metis list.set_map)
    with slot_ended [OF assms(1), of body _ parent] slot that show thesis by blast
  qed
  obtain N3 where N3: "\<And>n def scope. N3 \<le> n \<Longrightarrow> resolve_component (src_components srcs) (component_name cmpt) = Some def
      \<Longrightarrow> ended (lower_statements env n srcs ?inner (cd_body def) scope)"
  proof (cases "resolve_component (src_components srcs) (component_name cmpt)")
    case (Some def)
    have "slot_ends env srcs ?inner" using assms(4) by simp
    with assms(5) [OF Some] bodies_end [of "cd_body def" env srcs ?inner] obtain N where
      "\<And>n scope. N \<le> n \<Longrightarrow> ended (lower_statements env n srcs ?inner (cd_body def) scope)" by blast
    with Some that show thesis by auto
  qed (use that in simp)
  have "ended (lower_component_nodes env (lower_statements env n) srcs slot cmpt scope)" if "max N1 (max N2 N3) \<le> n" for n scope
  proof -
    from that have n: "N1 \<le> n" "N2 \<le> n" "N3 \<le> n" by simp_all
    have no_import: "Option.bind (resolve_import (src_imports srcs) (component_name cmpt))
        (\<lambda>(binding, path). map_option (\<lambda>source. (binding, path, source)) (pg_import_source env path)) = None"
      by (cases "resolve_import (src_imports srcs) (component_name cmpt)") (auto simp: assms(2))
    show ?thesis
      unfolding lower_component_nodes_def no_import
      by (auto simp: Let_def N1 [OF n(1)] N2 [OF n(2)] N3 [OF n(3)]
        intro!: ended_then children_ended [OF assms(1)] node_ended [OF assms(1)] local_ended [OF assms(1)] split: option.split)
  qed
  then show ?thesis by blast
qed

lemma items_ended:
  assumes "total_eval env (src_functions srcs)" and "\<And>scope. ended (rec srcs slot body scope)"
  shows "ended (lower_keyed_items env rec srcs slot binding key body path scope items st)"
    and "ended (lower_plain_items rec srcs slot binding body path scope i items)"
  using assms by (induction items arbitrary: st i)
    (auto simp: lower_keyed_item_def Let_def ending intro!: ended_then nested_ended split: prod.split)

lemma each_ended:
  assumes "total_eval env (src_functions srcs)" and "\<And>scope. ended (rec srcs slot body scope)" and "\<And>scope. ended (rec srcs slot blank scope)"
  shows "ended (lower_each env rec srcs slot binding key state body blank path scope v)"
  using assms by (auto simp: lower_each_def lower_keyed_each_def Let_def items_ended intro!: ended_then nested_ended
    split: ax_value.split option.split)

lemma stages_ended:
  assumes "\<And>cmpt scope. StageComponent cmpt \<in> set stages \<Longrightarrow> ended (lower_component_nodes env rec srcs slot cmpt scope)"
  shows "ended (lower_stages env rec srcs slot scope stages)"
  using assms
proof (induction stages)
  case (Cons s stages)
  then show ?case by (cases s) (auto intro!: ended_then split: prod.split)
qed simp

subsection \<open>Ranked components\<close>

definition allowed :: "(string \<Rightarrow> nat) \<Rightarrow> component_def list \<Rightarrow> nat \<Rightarrow> string set" where
  "allowed rank components r = {name. \<forall>c \<in> set components. cd_name c = name \<longrightarrow> rank name < r}"

definition body_statements :: "markup_body \<Rightarrow> ax_statement list" where
  "body_statements b = (case b of BodyEmpty \<Rightarrow> [] | BodyInline e \<Rightarrow> [SmText e] | BodyBlock body \<Rightarrow> body)"

definition both_end :: "page_env \<Rightarrow> lowering_sources \<Rightarrow> slot_context option \<Rightarrow> ax_statement \<Rightarrow> bool" where
  "both_end env srcs slot s = (statement_ends env srcs slot s \<and> statement_ends env srcs slot (strip_slot_statement s))"

lemma component_statement_ends:
  "statement_ends env srcs slot (SmComponent cmpt)
     \<longleftrightarrow> (\<exists>N. \<forall>n \<ge> N. \<forall>scope. ended (lower_component_nodes env (lower_statements env n) srcs slot cmpt scope))"
  by (simp add: statement_ends_def)

lemma nested_statement_ends:
  assumes "\<forall>s \<in> set (concat bodies). both_end env srcs slot s"
    and "\<And>rec path scope. (\<And>body scope. body \<in> set bodies \<Longrightarrow> ended (rec srcs slot body scope)) \<Longrightarrow> ended (lower_statement env rec srcs slot path s scope)"
  shows "statement_ends env srcs slot s"
proof -
  from assms(1) obtain N where N: "\<And>n body scope. N \<le> n \<Longrightarrow> set body \<subseteq> set (concat bodies) \<Longrightarrow> ended (lower_statements env n srcs slot body scope)"
    using bodies_end [of "concat bodies" env srcs slot] unfolding both_end_def by meson
  have "ended (lower_statement env (lower_statements env n) srcs slot path s scope)" if "N \<le> n" for n path scope
    by (rule assms(2)) (use N [OF that] in auto)
  then show ?thesis by (auto simp: statement_ends_def)
qed

lemma match_body_member: "match_body cases dflt v \<in> set (map snd cases @ (case dflt of Some b \<Rightarrow> [b] | None \<Rightarrow> []) @ [[]])"
  by (force simp: match_body_def split: option.split dest!: found_member)

lemma statements_end:
  assumes total: "total_eval env (src_functions srcs)" and import: "\<And>path. pg_import_source env path = None"
    and smaller: "\<And>c slot s. rank (cd_name c) < r \<Longrightarrow> c \<in> set (src_components srcs) \<Longrightarrow> slot_ends env srcs slot
      \<Longrightarrow> s \<in> set (cd_body c) \<Longrightarrow> statement_ends env srcs slot s"
  shows "uses_statement s \<subseteq> allowed rank (src_components srcs) r \<Longrightarrow> slot_ends env srcs slot \<Longrightarrow> both_end env srcs slot s"
    and "uses_component cmpt \<subseteq> allowed rank (src_components srcs) r \<Longrightarrow> slot_ends env srcs slot
      \<Longrightarrow> statement_ends env srcs slot (SmComponent (AxComponent (component_name cmpt) props (component_style cmpt) (component_body cmpt)))"
    and "uses_body b \<subseteq> allowed rank (src_components srcs) r \<Longrightarrow> slot_ends env srcs slot
      \<Longrightarrow> \<forall>s \<in> set (body_statements b). both_end env srcs slot s"
    and "uses_stage st \<subseteq> allowed rank (src_components srcs) r \<Longrightarrow> slot_ends env srcs slot
      \<Longrightarrow> case st of StageComponent c \<Rightarrow> statement_ends env srcs slot (SmComponent c) | StageEach binding \<Rightarrow> True"
proof (induction s and cmpt and b and st arbitrary: slot and slot props and slot and slot)
  case (SmData name e)
  show ?case using total by (simp add: both_end_def statement_ends_def strip_slot_statement_def ending)
next
  case (SmEach binding source key state body blank)
  then have "\<forall>s \<in> set (concat [body, blank]). both_end env srcs slot s" by (auto simp: UN_subset_iff)
  then have "statement_ends env srcs slot (SmEach binding source key state body blank)"
    by (rule nested_statement_ends) (use total in \<open>auto simp: Let_def ending intro!: ended_then each_ended\<close>)
  then show ?case by (simp add: both_end_def strip_slot_statement_def)
next
  case (SmIf e body els)
  then have "\<forall>s \<in> set (concat [body, els]). both_end env srcs slot s" by (auto simp: UN_subset_iff)
  then have "statement_ends env srcs slot (SmIf e body els)"
    by (rule nested_statement_ends) (use total in \<open>auto simp: Let_def lower_branch_def ending intro!: ended_then nested_ended\<close>)
  then show ?case by (simp add: both_end_def strip_slot_statement_def)
next
  case (SmMatch e cases dflt)
  let ?bodies = "map snd cases @ (case dflt of Some b \<Rightarrow> [b] | None \<Rightarrow> []) @ [[]]"
  have uses: "uses_statement s \<subseteq> uses_cases cases" if "(c, body) \<in> set cases" "s \<in> set body" for c body s
    using that by (induction cases rule: list.induct) auto
  have "\<forall>s \<in> set (concat ?bodies). both_end env srcs slot s"
  proof
    fix s assume "s \<in> set (concat ?bodies)"
    then consider c body where "(c, body) \<in> set cases" "s \<in> set body" | body where "dflt = Some body" "s \<in> set body"
      by (auto split: option.splits)
    then show "both_end env srcs slot s"
    proof cases
      case (1 c body)
      then have "uses_statement s \<subseteq> allowed rank (src_components srcs) r" using uses [OF 1] SmMatch.prems(1) by auto
      with 1 show ?thesis using SmMatch.IH(1) [of "(c, body)" body s slot] SmMatch.prems(2) by (simp add: prod_set_simps)
    next
      case (2 body)
      then show ?thesis using SmMatch.IH(2) [of body s slot] SmMatch.prems by (auto simp: UN_subset_iff)
    qed
  qed
  then have "statement_ends env srcs slot (SmMatch e cases dflt)"
  proof (rule nested_statement_ends)
    fix rec :: lower_rec and path scope assume rec: "\<And>body scope. body \<in> set ?bodies \<Longrightarrow> ended (rec srcs slot body scope)"
    have "ended (lower_branch rec srcs slot p (match_body cases dflt v) scope')" for p v scope'
      using rec [OF match_body_member] by (simp add: lower_branch_def nested_ended)
    then show "ended (lower_statement env rec srcs slot path (SmMatch e cases dflt) scope)"
      using total by (auto simp: Let_def page_text_def ending intro!: ended_then)
  qed
  then show ?case by (simp add: both_end_def strip_slot_statement_def)
next
  case (SmText e)
  show ?case using total by (auto simp: both_end_def statement_ends_def strip_slot_statement_def ending intro!: ended_then split: prod.split)
next
  case (SmComponent cmpt)
  then show ?case
    using SmComponent.IH [of slot "component_props cmpt"] SmComponent.IH [of slot "filter (\<lambda>p. fst p \<noteq> ''slot'') (component_props cmpt)"]
    by (simp add: both_end_def strip_slot_statement_def)
next
  case (SmPipeline e stages)
  have "\<forall>st \<in> set stages. \<exists>N. \<forall>n \<ge> N. \<forall>c scope. st = StageComponent c \<longrightarrow> ended (lower_component_nodes env (lower_statements env n) srcs slot c scope)"
  proof
    fix st assume "st \<in> set stages"
    with SmPipeline have "case st of StageComponent c \<Rightarrow> statement_ends env srcs slot (SmComponent c) | StageEach binding \<Rightarrow> True"
      by (auto simp: UN_subset_iff)
    then show "\<exists>N. \<forall>n \<ge> N. \<forall>c scope. st = StageComponent c \<longrightarrow> ended (lower_component_nodes env (lower_statements env n) srcs slot c scope)"
      by (cases st) (auto simp: component_statement_ends)
  qed
  from uniform_bound [OF this] obtain N where
    "\<And>n c scope. N \<le> n \<Longrightarrow> StageComponent c \<in> set stages \<Longrightarrow> ended (lower_component_nodes env (lower_statements env n) srcs slot c scope)"
    by blast
  then have "ended (lower_statement env (lower_statements env n) srcs slot path (SmPipeline e stages) scope)" if "N \<le> n" for n path scope
    using that total by (auto simp: Let_def lower_pipeline_def ending intro!: ended_then stages_ended)
  then have "statement_ends env srcs slot (SmPipeline e stages)" by (auto simp: statement_ends_def)
  then show ?case by (simp add: both_end_def strip_slot_statement_def)
next
  case (AxComponent name props' style body)
  let ?cmpt = "AxComponent name props style body"
  have "\<forall>s \<in> set (component_children_to_statements ?cmpt). statement_ends env srcs slot s \<and> statement_ends env srcs slot (strip_slot_statement s)"
    using AxComponent by (auto simp: both_end_def component_children_to_statements_def body_statements_def)
  moreover have "statement_ends env srcs slot' s"
    if "resolve_component (src_components srcs) name = Some def" "slot_ends env srcs slot'" "s \<in> set (cd_body def)" for def slot' s
  proof -
    from that(1) have c: "def \<in> set (src_components srcs)" "cd_name def = name"
      by (auto simp: resolve_component_def dest: found_member)
    with AxComponent.prems(1) have "rank (cd_name def) < r" by (auto simp: allowed_def)
    with smaller c(1) that(2,3) show ?thesis by blast
  qed
  ultimately show ?case
    unfolding component_statement_ends using component_ends [OF total import AxComponent.prems(2), of ?cmpt] by simp
next
  case BodyEmpty
  then show ?case by (simp add: body_statements_def)
next
  case (BodyInline e)
  then show ?case using total
    by (auto simp: body_statements_def both_end_def statement_ends_def strip_slot_statement_def ending intro!: ended_then split: prod.split)
next
  case (BodyBlock body)
  then show ?case by (auto simp: body_statements_def)
next
  case (StageComponent c)
  from StageComponent.IH [of slot "component_props c"] StageComponent.prems show ?case by simp
next
  case (StageEach b)
  then show ?case by simp
qed

lemma ranked_bodies_end:
  assumes "total_eval env (src_functions srcs)" and "\<And>path. pg_import_source env path = None"
    and ranked: "ranked_components rank (src_components srcs)"
  shows "c \<in> set (src_components srcs) \<Longrightarrow> slot_ends env srcs slot \<Longrightarrow> s \<in> set (cd_body c) \<Longrightarrow> statement_ends env srcs slot s"
proof (induction "rank (cd_name c)" arbitrary: c slot s rule: less_induct)
  case less
  have "uses_statement s \<subseteq> allowed rank (src_components srcs) (rank (cd_name c))"
    using ranked less.prems(1,3) by (auto simp: ranked_components_def allowed_def)
  from statements_end(1) [where rank = rank, OF assms(1,2) less.hyps this less.prems(2)] show ?case
    by (simp add: both_end_def)
qed



definition boxed_page :: ax_document where
  "boxed_page = demo_document [SmComponent (AxComponent ''Box'' [(''title'', ExString ''x'')] no_style
     (BodyBlock [SmComponent (AxComponent ''Box'' [] no_style (BodyInline (ExIdentifier ''title'')))]))]
     \<lparr> doc_components := [box_component] \<rparr>"


end
