(* ===== verification/Sql_Correct.thy ===== *)
theory Sql_Correct
  imports Sql
begin

section \<open>The SQL compilers bind what they promise\<close>

text \<open>
  A text \<open>binds\<close> its parameters: in PostgreSQL the numbers after the dollar signs count up
  from the next free index, elsewhere there is one question mark per parameter. The lemmas
  compose texts from pieces; quoted identifiers that passed \<open>validate_ident\<close> and the fixed
  keywords hold no mark. \<open>clause_ok\<close> is what a compiled filter promises. Then come the
  independence of the text from the values, and the splitting of list literals.
\<close>


subsection \<open>Placeholders of a text\<close>

fun dollar_marks :: "string \<Rightarrow> nat list" where
  "dollar_marks [] = []"
| "dollar_marks (c # cs) =
     (if c = CHR 0x24 then digits_value (takeWhile is_digit cs) # dollar_marks cs else dollar_marks cs)"

definition no_digit :: "string \<Rightarrow> bool" where
  "no_digit s = (case s of c # _ \<Rightarrow> \<not> is_digit c | [] \<Rightarrow> True)"

lemma no_digit_simps [simp]: "no_digit []" "no_digit (c # s) \<longleftrightarrow> \<not> is_digit c"
  by (simp_all add: no_digit_def)

lemma takeWhile_no_digit: "no_digit b \<Longrightarrow> takeWhile is_digit (a @ b) = takeWhile is_digit a"
  by (induction a) (auto simp: no_digit_def split: list.splits)

lemma dollar_marks_append: "no_digit b \<Longrightarrow> dollar_marks (a @ b) = dollar_marks a @ dollar_marks b"
proof (induction a)
  case (Cons c a)
  then show ?case by (simp add: takeWhile_no_digit)
qed simp

text \<open>\<open>binds d k n s\<close>: the text \<open>s\<close> binds \<open>n\<close> parameters after \<open>k\<close> earlier ones.\<close>

definition binds :: "sql_dialect \<Rightarrow> nat \<Rightarrow> nat \<Rightarrow> string \<Rightarrow> bool" where
  "binds d k n s =
     (if d = Postgres then dollar_marks s = [Suc k..<Suc (k + n)] else count_list s (CHR 0x3F) = n)"

lemma binds_append:
  "binds d k n a \<Longrightarrow> binds d (k + n) m b \<Longrightarrow> no_digit b \<Longrightarrow> binds d k (n + m) (a @ b)"
  using upt_add_eq_append [of "Suc k" "Suc (k + n)" m]
  by (auto simp: binds_def dollar_marks_append add.assoc simp del: upt_Suc split: if_splits)

definition markless :: "string \<Rightarrow> bool" where
  "markless s = (CHR 0x24 \<notin> set s \<and> CHR 0x3F \<notin> set s)"

lemma markless_simps [simp]: "markless []" "markless (c # s) \<longleftrightarrow> c \<noteq> CHR 0x24 \<and> c \<noteq> CHR 0x3F \<and> markless s"
  "markless (a @ b) \<longleftrightarrow> markless a \<and> markless b"
  by (auto simp: markless_def)

lemma markless_binds: "markless s \<Longrightarrow> binds d k 0 s"
proof -
  assume "markless s"
  then have "dollar_marks s = [] \<and> count_list s (CHR 0x3F) = 0"
    by (induction s) (auto simp: markless_def)
  then show ?thesis by (simp add: binds_def)
qed

lemma binds_Nil: "binds d k 0 []"
  by (simp add: binds_def)

lemma markless_prefix: "markless a \<Longrightarrow> binds d k n b \<Longrightarrow> binds d k n (a @ b)"
  by (induction a) (auto simp: binds_def split: if_splits)

lemma markless_suffix: "binds d k n a \<Longrightarrow> markless b \<Longrightarrow> no_digit b \<Longrightarrow> binds d k n (a @ b)"
  using binds_append [of d k n a 0 b] by (simp add: markless_binds)

lemma binds_placeholder: "binds d k 1 (placeholder d (Suc k))"
proof -
  have tw: "takeWhile is_digit (show_nat n) = show_nat n" for n
    using show_nat_digits by (simp add: takeWhile_eq_all_conv list_all_iff)
  have "dollar_marks (show_nat n) = []" for n
  proof -
    have "list_all is_digit s \<Longrightarrow> dollar_marks s = []" for s
      by (induction s) (auto simp: is_digit_def code_def)
    then show ?thesis using show_nat_digits by blast
  qed
  then show ?thesis by (cases d) (simp_all add: binds_def tw digits_value_show_nat del: takeWhile_eq_all_conv)
qed

lemma no_digit_placeholder [simp]: "no_digit (placeholder d i @ s)" "no_digit (placeholder d i)"
  by (cases d; simp add: is_digit_def code_def)+

lemma no_digit_quote [simp]: "no_digit (quote_ident d i @ s)" "no_digit (quote_ident d i)"
  by (cases d; simp add: is_digit_def code_def)+

subsection \<open>Identifiers\<close>

lemma validate_ident_chars:
  "validate_ident i = Inr u \<Longrightarrow> c \<in> set i \<Longrightarrow> ident_char c \<or> space_byte c"
  using trim_decomp_space [of i]
  by (auto simp: validate_ident_def list_all_iff split: if_splits) (metis Un_iff set_append)

lemma ident_markless: "validate_ident i = Inr u \<Longrightarrow> markless (quote_ident d i)"
proof -
  assume v: "validate_ident i = Inr u"
  have "\<not> (ident_char c \<or> space_byte c)" if "c = CHR 0x24 \<or> c = CHR 0x3F" for c
    using that by (auto simp: ident_char_def is_alphanumeric_def is_digit_def space_byte_def is_whitespace_def code_def)
  with validate_ident_chars [OF v] show ?thesis by (cases d) (auto simp: markless_def)
qed


lemma ident_no_digit: "validate_ident i = Inr u \<Longrightarrow> markless (quote_ident d i) \<and> no_digit (quote_ident d i)"
  by (simp add: ident_markless)

fun binds_all :: "sql_dialect \<Rightarrow> nat \<Rightarrow> nat list \<Rightarrow> string list \<Rightarrow> bool" where
  "binds_all d k [] ss = (ss = [])"
| "binds_all d k (n # ns) ss = (case ss of [] \<Rightarrow> False | s # ss \<Rightarrow> binds d k n s \<and> binds_all d (k + n) ns ss)"

lemma binds_join:
  "binds_all d k ns ss \<Longrightarrow> markless sep \<Longrightarrow> sep \<noteq> [] \<Longrightarrow> no_digit sep \<Longrightarrow> binds d k (sum_list ns) (join_with sep ss)"
proof (induction d k ns ss rule: binds_all.induct)
  case (2 d k n ns ss)
  then obtain s ts where s: "ss = s # ts" and b: "binds d k n s" "binds_all d (k + n) ns ts" by (auto split: list.splits)
  from 2(1) [OF s b(2) 2(3-5)] have ih: "binds d (k + n) (sum_list ns) (join_with sep ts)" .
  show ?case
  proof (cases ts)
    case Nil
    with b have "ns = []" by (cases ns) auto
    with b s Nil show ?thesis by simp
  next
    case (Cons t us)
    have "no_digit (sep @ join_with sep ts)" using 2(4,5) by (cases sep) auto
    then show ?thesis using binds_append [OF b(1) markless_prefix [OF 2(3) ih]] s Cons by simp
  qed
qed (simp add: binds_Nil)

subsection \<open>Parameters\<close>

definition params_from :: "nat \<Rightarrow> string list \<Rightarrow> sql_param list" where
  "params_from k vs = map (\<lambda>(i, v). \<lparr> param_index = i, param_value = v \<rparr>) (zip [Suc k..<Suc (k + length vs)] vs)"

lemma length_params_from [simp]: "length (params_from k vs) = length vs"
  by (simp add: params_from_def del: upt_Suc)

lemma params_from_Nil [simp]: "params_from k [] = []"
  by (simp add: params_from_def)

lemma params_from_Cons: "params_from k (v # vs) = \<lparr> param_index = Suc k, param_value = v \<rparr> # params_from (Suc k) vs"
  by (simp add: params_from_def upt_conv_Cons del: upt_Suc)

lemma params_from_append: "params_from k (vs @ ws) = params_from k vs @ params_from (k + length vs) ws"
  by (induction vs arbitrary: k) (simp_all add: params_from_Cons)

lemma params_from_index: "map param_index (params_from k vs) = [Suc k..<Suc (k + length vs)]"
  by (induction vs arbitrary: k) (simp_all add: params_from_Cons upt_conv_Cons del: upt_Suc)

lemma params_from_value: "map param_value (params_from k vs) = vs"
  by (induction vs arbitrary: k) (simp_all add: params_from_Cons)

lemma push_sql_params_eq:
  "push_sql_params ps vs d = (map (placeholder d) [Suc (length ps)..<Suc (length ps + length vs)],
     ps @ params_from (length ps) vs)"
  by (induction ps vs d rule: push_sql_params.induct)
    (simp_all add: push_sql_param_def params_from_Cons upt_conv_Cons del: upt_Suc)

lemma placeholders_bind: "binds_all d k (replicate n 1) (map (placeholder d) [Suc k..<Suc (k + n)])"
proof (induction n arbitrary: k)
  case (Suc n)
  from Suc.IH [of "Suc k"] show ?case
    by (simp add: upt_conv_Cons binds_placeholder [simplified] del: upt_Suc)
qed simp

lemma binds_placeholder_list: "binds d k n (join_with '', '' (map (placeholder d) [Suc k..<Suc (k + n)]))"
  using binds_join [OF placeholders_bind, of "'', ''" d k n]
  by (simp add: is_digit_def code_def sum_list_replicate del: upt_Suc)

definition filter_values :: "query_filter_plan \<Rightarrow> string list" where
  "filter_values f =
     (case fp_op f of FoEq \<Rightarrow> [fp_value f] | FoNe \<Rightarrow> [fp_value f]
      | FoIsNull \<Rightarrow> [] | FoIsNotNull \<Rightarrow> []
      | _ \<Rightarrow> (case filter_list_values (fp_value f) of Some vs \<Rightarrow> vs | None \<Rightarrow> []))"

text \<open>What a compiled clause has to satisfy: it binds the values of its filter, in order.\<close>

definition clause_ok :: "sql_dialect \<Rightarrow> (query_filter_plan \<Rightarrow> sql_param list \<Rightarrow> sql_error + (string \<times> sql_param list)) \<Rightarrow> bool" where
  "clause_ok d clause = (\<forall>f ps c ps'. clause f ps = Inr (c, ps') \<longrightarrow>
     ps' = ps @ params_from (length ps) (filter_values f) \<and> binds d (length ps) (length (filter_values f)) c)"

lemma compile_list_filter_ok:
  assumes "compile_list_filter op v field d ps ctxt = Inr (c, ps')" and "markless field"
  shows "\<exists>vs. filter_list_values v = Some vs \<and> ps' = ps @ params_from (length ps) vs \<and> binds d (length ps) (length vs) c"
proof -
  from assms(1) obtain vs where vs: "filter_list_values v = Some vs"
    by (auto simp: compile_list_filter_def split: option.splits)
  show ?thesis
  proof (cases "vs = []")
    case True
    with assms(1) vs show ?thesis
      by (auto simp: compile_list_filter_def intro!: markless_binds split: if_splits)
  next
    case False
    let ?m = "join_with '', '' (map (placeholder d) [Suc (length ps)..<Suc (length ps + length vs)])"
    from False assms(1) vs have c: "c = (field @ '' '' @ (if op = FoIn then ''in'' else ''not in'') @ '' ('') @ ?m @ '')''"
      and p: "ps' = ps @ params_from (length ps) vs"
      by (simp_all add: compile_list_filter_def push_sql_params_eq del: upt_Suc)
    have "binds d (length ps) (length vs) (?m @ '')'')"
      by (rule markless_suffix [OF binds_placeholder_list]) (simp_all add: is_digit_def code_def)
    then have "binds d (length ps) (length vs) c"
      unfolding c by (rule markless_prefix [rotated]) (use assms(2) in simp)
    with p vs show ?thesis by blast
  qed
qed

lemma clause_with_field_ok:
  assumes "compile_filter_clause_with_field f field d ps ctxt = Inr (c, ps')" and "markless field"
  shows "ps' = ps @ params_from (length ps) (filter_values f) \<and> binds d (length ps) (length (filter_values f)) c"
proof -
  have one: "binds d (length ps) (Suc 0) (field @ op @ placeholder d (Suc (length ps)))" if "markless op" for op
    using markless_prefix [of "field @ op"] that assms(2) binds_placeholder [of d "length ps"] by simp
  note defs = compile_filter_clause_with_field_def push_sql_param_def filter_values_def
  show ?thesis
  proof (cases "fp_op f")
    case FoEq
    with assms(1) one [of "'' = ''"] show ?thesis by (simp add: defs params_from_Cons)
  next
    case FoNe
    with assms(1) one [of "'' != ''"] show ?thesis by (simp add: defs params_from_Cons)
  next
    case FoIn
    with assms(1) have "compile_list_filter FoIn (fp_value f) field d ps ctxt = Inr (c, ps')" by (simp add: defs)
    from compile_list_filter_ok [OF this assms(2)] FoIn show ?thesis by (auto simp: filter_values_def)
  next
    case FoNotIn
    with assms(1) have "compile_list_filter FoNotIn (fp_value f) field d ps ctxt = Inr (c, ps')" by (simp add: defs)
    from compile_list_filter_ok [OF this assms(2)] FoNotIn show ?thesis by (auto simp: filter_values_def)
  next
    case FoIsNull
    with assms show ?thesis by (auto simp: defs intro: markless_binds)
  next
    case FoIsNotNull
    with assms show ?thesis by (auto simp: defs intro: markless_binds)
  qed
qed

lemma compile_filters_ok:
  assumes "clause_ok d clause"
  shows "compile_filters clause fs ps = Inr (cs, ps') \<Longrightarrow>
    ps' = ps @ params_from (length ps) (concat (map filter_values fs))
    \<and> binds_all d (length ps) (map (\<lambda>f. length (filter_values f)) fs) cs"
proof (induction fs arbitrary: ps cs)
  case (Cons f fs)
  then obtain c ps1 cs1 where c: "clause f ps = Inr (c, ps1)" "compile_filters clause fs ps1 = Inr (cs1, ps')" "cs = c # cs1"
    by (auto simp: and_then_Inr_iff)
  from assms c(1) have c1: "ps1 = ps @ params_from (length ps) (filter_values f)"
    "binds d (length ps) (length (filter_values f)) c" by (simp_all add: clause_ok_def)
  from Cons.IH [OF c(2)] c1 c(3) show ?case by (simp add: params_from_append)
qed simp

lemma compile_filters_length: "compile_filters clause fs ps = Inr (cs, ps') \<Longrightarrow> length cs = length fs"
  by (induction fs arbitrary: ps cs) (auto simp: and_then_Inr_iff)

lemma mutation_clause_ok: "clause_ok d (\<lambda>f ps. compile_filter_clause f d ps ctxt)"
proof -
  have "compile_filter_clause f d ps ctxt = Inr (c, ps') \<Longrightarrow>
     ps' = ps @ params_from (length ps) (filter_values f) \<and> binds d (length ps) (length (filter_values f)) c" for f ps c ps'
    using clause_with_field_ok [of f "quote_ident d (fp_field f)"] ident_markless
    by (auto simp: compile_filter_clause_def and_then_Inr_iff)
  then show ?thesis unfolding clause_ok_def by blast
qed

lemma compile_query_field_markless:
  "compile_query_field f source qs b d = Inr name \<Longrightarrow> validate_ident source = Inr u \<Longrightarrow> markless name \<and> no_digit name"
  by (auto simp: compile_query_field_def qualified_ident_def and_then_Inr_iff ident_markless split: option.splits if_splits)

lemma query_clause_ok:
  assumes "validate_ident source = Inr u"
  shows "clause_ok d (compile_query_filter (\<lambda>f. compile_query_field f source qs b d) d)"
  unfolding clause_ok_def compile_query_filter_def
  using clause_with_field_ok compile_query_field_markless [OF _ assms] by (fastforce simp: and_then_Inr_iff)

lemma markless_concat: "markless (concat ss) \<longleftrightarrow> (\<forall>s \<in> set ss. markless s)"
  by (induction ss) auto

lemma markless_join: "markless sep \<Longrightarrow> \<forall>s \<in> set ss. markless s \<Longrightarrow> markless (join_with sep ss)"
  using set_join_with [of sep ss] by (fastforce simp: markless_def)

lemma markless_show_nat [simp]: "markless (show_nat n)"
proof -
  have "list_all is_digit s \<Longrightarrow> markless s" for s
    by (induction s) (auto simp: is_digit_def code_def)
  then show ?thesis using show_nat_digits by blast
qed

lemma check_join_columns_ok:
  "check_join_columns c cs ss ts = Inr u \<Longrightarrow> col \<in> set cs \<Longrightarrow>
     validate_ident (jc_source col) = Inr () \<and> validate_ident (jc_target col) = Inr ()"
  by (induction c cs ss ts rule: check_join_columns.induct) (auto simp: and_then_Inr_iff split: if_splits)

lemma check_joins_ok:
  "check_joins js qs = Inr qs' \<Longrightarrow> j \<in> set js \<Longrightarrow> validate_ident (qj_collection j) = Inr () \<and>
     (\<forall>col \<in> set (qj_columns j). validate_ident (jc_source col) = Inr () \<and> validate_ident (jc_target col) = Inr ())"
  by (induction js qs rule: check_joins.induct)
    (auto simp: and_then_Inr_iff dest: check_join_columns_ok split: if_splits)

lemma join_clause_markless:
  assumes "validate_ident source = Inr u" and "check_joins js qs = Inr qs'" and "j \<in> set js"
  shows "markless (join_clause d source j)"
  unfolding join_clause_def qualified_ident_def
  using check_joins_ok [OF assms(2,3)] ident_markless [OF assms(1)]
  by (auto intro!: markless_join simp: ident_markless)

lemma try_map_Inr_all: "try_map f xs = Inr ys \<Longrightarrow> y \<in> set ys \<Longrightarrow> \<exists>x \<in> set xs. f x = Inr y"
  by (induction xs arbitrary: ys) (auto simp: and_then_Inr_iff)

lemma query_head_markless:
  "validate_ident source = Inr u \<Longrightarrow> check_joins js qs = Inr qs' \<Longrightarrow> markless (query_head d source js)"
  using join_clause_markless [of source u js qs qs'] by (auto simp: query_head_def ident_markless markless_concat)

lemma count_clause_markless: "markless w \<Longrightarrow> markless (count_clause w n)"
  by (cases n) (simp_all add: count_clause_def)

lemma count_clause_no_digit: "w \<noteq> [] \<Longrightarrow> no_digit w \<Longrightarrow> no_digit s \<Longrightarrow> no_digit (count_clause w n @ s)"
  by (cases n; cases w) (simp_all add: count_clause_def)

lemma optional_clause_no_digit: "w \<noteq> [] \<Longrightarrow> no_digit w \<Longrightarrow> no_digit s \<Longrightarrow> no_digit (optional_clause w sep cs @ s)"
  by (cases w) (simp_all add: optional_clause_def)

lemma optional_clause_binds:
  "binds_all d k ns cs \<Longrightarrow> markless w \<Longrightarrow> markless sep \<Longrightarrow> sep \<noteq> [] \<Longrightarrow> no_digit sep \<Longrightarrow>
   binds d k (sum_list ns) (optional_clause w sep cs)"
  using binds_join [of d k ns cs sep] by (cases ns) (auto simp: optional_clause_def markless_prefix binds_Nil)

lemma compile_order_markless:
  "validate_ident source = Inr u \<Longrightarrow> compile_order (\<lambda>f. compile_query_field f source qs b d) d ord = Inr t \<Longrightarrow> markless t"
  using compile_query_field_markless
  by (cases "qo_direction ord") (fastforce simp: compile_order_def and_then_Inr_iff)+

lemma length_concat_filters: "sum_list (map (\<lambda>f. length (filter_values f)) fs) = length (concat (map filter_values fs))"
  by (induction fs) auto

lemma space_no_digit [simp]: "\<not> is_digit (CHR '' '')"
  by (simp add: is_digit_def code_def)

subsection \<open>Mutations\<close>

lemma compile_assignments_ok:
  "compile_assignments d fs ps = Inr (cs, ps') \<Longrightarrow>
     ps' = ps @ params_from (length ps) (map ap_value fs)
     \<and> map snd cs = map (placeholder d) [Suc (length ps)..<Suc (length ps + length fs)]
     \<and> (\<forall>c \<in> set cs. markless (fst c) \<and> no_digit (fst c))"
proof (induction fs arbitrary: ps cs)
  case (Cons f fs)
  let ?p = "\<lparr> param_index = Suc (length ps), param_value = ap_value f \<rparr>"
  from Cons.prems obtain cs1 where c: "validate_ident (ap_name f) = Inr ()" "compile_assignments d fs (ps @ [?p]) = Inr (cs1, ps')"
    "cs = (quote_ident d (ap_name f), placeholder d (Suc (length ps))) # cs1"
    by (auto simp: push_sql_param_def and_then_Inr_iff)
  from Cons.IH [OF c(2)] c(1,3) show ?case
    by (simp add: params_from_Cons upt_conv_Cons ident_markless del: upt_Suc)
qed simp

lemma assignments_bind:
  "\<lbrakk> map snd cs = map (placeholder d) [Suc k..<Suc (k + n)]; \<forall>c \<in> set cs. markless (fst c) \<rbrakk>
   \<Longrightarrow> binds_all d k (replicate n 1) (map (\<lambda>(column, p). column @ '' = '' @ p) cs)"
proof (induction n arbitrary: k cs)
  case (Suc n)
  then obtain c cs' where cs: "cs = c # cs'" "snd c = placeholder d (Suc k)"
    "map snd cs' = map (placeholder d) [Suc (Suc k)..<Suc (Suc k + n)]"
    by (cases cs) (auto simp: upt_conv_Cons simp del: upt_Suc)
  have "binds d k 1 ((fst c @ '' = '') @ placeholder d (Suc k))"
    by (rule markless_prefix [OF _ binds_placeholder]) (use Suc.prems cs in simp)
  with Suc.IH [OF cs(3)] Suc.prems cs show ?case by (cases c) simp
qed simp

lemma insert_parameters:
  assumes "compile_insert_plan_to_sql collection fs d = Inr s"
  shows "sql_params s = params_from 0 (map ap_value fs) \<and> binds d 0 (length (sql_params s)) (sql_text s)"
proof -
  from assms obtain cs where c: "validate_ident collection = Inr ()" "compile_assignments d fs [] = Inr (cs, sql_params s)"
    and t: "sql_text s = ''insert into '' @ quote_ident d collection @ '' ('' @ join_with '', '' (map fst cs)
                 @ '') values ('' @ join_with '', '' (map snd cs) @ '')''"
    by (auto simp: compile_insert_plan_to_sql_def and_then_Inr_iff split: if_splits)
  note ok = compile_assignments_ok [OF c(2)]
  have b: "binds d 0 (length fs) (join_with '', '' (map snd cs))"
    using ok binds_placeholder_list [of d 0 "length fs"] by (simp del: upt_Suc)
  have "binds d 0 (length fs) ((''insert into '' @ quote_ident d collection @ '' ('' @ join_with '', '' (map fst cs) @ '') values ('')
      @ join_with '', '' (map snd cs) @ '')'')"
    by (rule markless_prefix [OF _ markless_suffix [OF b]])
      (use ok in \<open>auto simp: ident_markless [OF c(1)] is_digit_def code_def intro!: markless_join\<close>)
  with ok show ?thesis
    by (simp_all add: t)
qed

lemma update_parameters:
  assumes "compile_update_plan_to_sql collection fs filters d = Inr s"
  shows "sql_params s = params_from 0 (map ap_value fs @ concat (map filter_values filters)) \<and> binds d 0 (length (sql_params s)) (sql_text s)"
proof -
  from assms obtain cs ps clauses where c: "validate_ident collection = Inr ()" "compile_assignments d fs [] = Inr (cs, ps)"
    and m: "mutation_filters d filters ps = Inr (clauses, sql_params s)"
    and t: "sql_text s = ''update '' @ quote_ident d collection @ '' set ''
                   @ join_with '', '' (map (\<lambda>(column, p). column @ '' = '' @ p) cs)
                   @ optional_clause '' where '' '' and '' clauses"
    by (auto simp: compile_update_plan_to_sql_def and_then_Inr_iff split: if_splits)
  note ok = compile_assignments_ok [OF c(2)]
  from compile_filters_ok [OF mutation_clause_ok m [unfolded mutation_filters_def]] ok
  have p: "sql_params s = params_from 0 (map ap_value fs @ concat (map filter_values filters))"
    and f: "binds_all d (length fs) (map (\<lambda>f. length (filter_values f)) filters) clauses"
    by (simp_all add: params_from_append)
  have a: "binds d 0 (length fs) (join_with '', '' (map (\<lambda>(column, p). column @ '' = '' @ p) cs))"
    using binds_join [OF assignments_bind [of cs d 0 "length fs"], of "'', ''"] ok
    by (simp add: is_digit_def code_def sum_list_replicate del: upt_Suc)
  have w: "binds d (0 + length fs) (length (concat (map filter_values filters))) (optional_clause '' where '' '' and '' clauses)"
    using optional_clause_binds [OF f, of "'' where ''" "'' and ''"] by (simp add: length_concat_filters)
  have "no_digit (optional_clause '' where '' '' and '' clauses)"
    using optional_clause_no_digit [of "'' where ''" "[]"] by simp
  from markless_prefix [OF _ binds_append [OF a w this], of "''update '' @ quote_ident d collection @ '' set ''"] p
  show ?thesis
    by (simp_all add: t ident_markless [OF c(1)])
qed

lemma delete_parameters:
  assumes "compile_delete_plan_to_sql collection filters d = Inr s"
  shows "sql_params s = params_from 0 (concat (map filter_values filters)) \<and> binds d 0 (length (sql_params s)) (sql_text s)"
proof -
  from assms obtain clauses where c: "validate_ident collection = Inr ()"
    and m: "mutation_filters d filters [] = Inr (clauses, sql_params s)"
    and t: "sql_text s = ''delete from '' @ quote_ident d collection @ '' where '' @ join_with '' and '' clauses"
    by (auto simp: compile_delete_plan_to_sql_def and_then_Inr_iff split: if_splits)
  from compile_filters_ok [OF mutation_clause_ok m [unfolded mutation_filters_def]]
  have p: "sql_params s = params_from 0 (concat (map filter_values filters))"
    and f: "binds_all d 0 (map (\<lambda>f. length (filter_values f)) filters) clauses" by simp_all
  from binds_join [OF f, of "'' and ''"] have "binds d 0 (length (concat (map filter_values filters))) (join_with '' and '' clauses)"
    by (simp add: length_concat_filters)
  from markless_prefix [OF _ this, of "''delete from '' @ quote_ident d collection @ '' where ''"] p
  show ?thesis
    by (simp_all add: t ident_markless [OF c])
qed

subsection \<open>Clauses one by one\<close>

lemma compile_filters_clauses:
  "compile_filters clause fs ps = Inr (cs, ps') \<Longrightarrow> list_all2 (\<lambda>f c. \<exists>ps qs. clause f ps = Inr (c, qs)) fs cs"
  by (induction fs arbitrary: ps cs) (auto simp: and_then_Inr_iff)

definition lists_nothing :: "query_filter_plan \<Rightarrow> bool" where
  "lists_nothing f = (fp_op f \<in> {FoIn, FoNotIn} \<and> filter_list_values (fp_value f) = Some [])"

lemma mutation_clause_closed:
  "compile_filter_clause f d ps MutationContext = Inr (c, ps') \<Longrightarrow> lists_nothing f \<Longrightarrow> c = ''1 = 0''"
  by (auto simp: compile_filter_clause_def and_then_Inr_iff compile_filter_clause_with_field_def
      compile_list_filter_def lists_nothing_def)

lemma mutation_filters_closed:
  "mutation_filters d fs ps = Inr (cs, ps') \<Longrightarrow> list_all2 (\<lambda>f c. lists_nothing f \<longrightarrow> c = ''1 = 0'') fs cs"
  unfolding mutation_filters_def
  using mutation_clause_closed by (fastforce dest!: compile_filters_clauses elim: list_all2_mono)

subsection \<open>The text does not depend on the values\<close>

definition same_shape :: "query_filter_plan \<Rightarrow> query_filter_plan \<Rightarrow> bool" where
  "same_shape f g = (fp_field f = fp_field g \<and> fp_op f = fp_op g
     \<and> (fp_op f \<in> {FoIn, FoNotIn} \<longrightarrow>
          map_option length (filter_list_values (fp_value f)) = map_option length (filter_list_values (fp_value g))))"

abbreviation clause_rel :: "sql_error + 'a \<times> sql_param list \<Rightarrow> sql_error + 'a \<times> sql_param list \<Rightarrow> bool" where
  "clause_rel \<equiv> rel_sum (=) (rel_prod (=) (\<lambda>ps qs. length ps = length qs))"

lemma rel_and_then:
  "\<lbrakk> rel_sum (=) R a b; \<And>x y. R x y \<Longrightarrow> rel_sum (=) S (f x) (g y) \<rbrakk> \<Longrightarrow> rel_sum (=) S (and_then a f) (and_then b g)"
  by (auto elim: rel_sum.cases)

lemma rel_and_then_same:
  "(\<And>x. a = Inr x \<Longrightarrow> rel_sum (=) S (f x) (g x)) \<Longrightarrow> rel_sum (=) S (and_then a f) (and_then a g)"
  by (cases a) auto

lemma rel_sum_eq_refl [simp]: "rel_sum (=) (=) x x"
  by (simp add: sum.rel_eq)

lemma compile_list_filter_rel:
  assumes "map_option length (filter_list_values v) = map_option length (filter_list_values w)" and "length ps = length qs"
  shows "clause_rel (compile_list_filter op v field d ps ctxt) (compile_list_filter op w field d qs ctxt)"
proof (cases "filter_list_values v")
  case None
  with assms(1) show ?thesis by (simp add: compile_list_filter_def)
next
  case (Some vs)
  with assms(1) obtain ws where ws: "filter_list_values w = Some ws" "length ws = length vs"
    by (cases "filter_list_values w") auto
  then have "ws = [] \<longleftrightarrow> vs = []" by auto
  with Some ws assms(2) show ?thesis by (simp add: compile_list_filter_def push_sql_params_eq del: upt_Suc)
qed

lemma clause_with_field_rel:
  "\<lbrakk> same_shape f g; length ps = length qs \<rbrakk> \<Longrightarrow>
   clause_rel (compile_filter_clause_with_field f field d ps ctxt) (compile_filter_clause_with_field g field d qs ctxt)"
  by (cases "fp_op f")
    (auto simp: same_shape_def compile_filter_clause_with_field_def push_sql_param_def compile_list_filter_rel)

lemma compile_filters_rel:
  assumes "\<And>f g ps qs. same_shape f g \<Longrightarrow> length ps = length qs \<Longrightarrow> clause_rel (clause f ps) (clause g qs)"
  shows "list_all2 same_shape fs gs \<Longrightarrow> length ps = length qs \<Longrightarrow>
    clause_rel (compile_filters clause fs ps) (compile_filters clause gs qs)"
proof (induction fs gs arbitrary: ps qs rule: list_all2_induct)
  case (Cons f fs g gs)
  show ?case unfolding compile_filters.simps
    by (rule rel_and_then [OF assms [OF Cons(1,4)]])
      (auto intro!: rel_and_then Cons.IH)
qed simp

lemma query_filter_rel:
  "same_shape f g \<Longrightarrow> length ps = length qs \<Longrightarrow> clause_rel (compile_query_filter field d f ps) (compile_query_filter field d g qs)"
  unfolding compile_query_filter_def
  by (auto intro!: rel_and_then_same simp: same_shape_def clause_with_field_rel [unfolded same_shape_def])

lemma mutation_filter_rel:
  "same_shape f g \<Longrightarrow> length ps = length qs \<Longrightarrow> clause_rel (compile_filter_clause f d ps ctxt) (compile_filter_clause g d qs ctxt)"
  unfolding compile_filter_clause_def
  by (auto intro!: rel_and_then_same simp: same_shape_def clause_with_field_rel [unfolded same_shape_def])

abbreviation text_rel :: "sql_error + sql_query \<Rightarrow> sql_error + sql_query \<Rightarrow> bool" where
  "text_rel \<equiv> rel_sum (=) (\<lambda>s t. sql_text s = sql_text t \<and> length (sql_params s) = length (sql_params t))"

lemma query_text_rel:
  "list_all2 same_shape (qp_filters q) gs \<Longrightarrow>
   text_rel (compile_query_plan_to_sql q d) (compile_query_plan_to_sql (q\<lparr> qp_filters := gs \<rparr>) d)"
  unfolding compile_query_plan_to_sql_def Let_def
  by (auto intro!: rel_and_then_same rel_and_then [OF compile_filters_rel [OF query_filter_rel]])

lemma delete_text_rel:
  "list_all2 same_shape fs gs \<Longrightarrow> text_rel (compile_delete_plan_to_sql c fs d) (compile_delete_plan_to_sql c gs d)"
  unfolding compile_delete_plan_to_sql_def mutation_filters_def
  by (auto intro!: rel_and_then_same rel_and_then [OF compile_filters_rel [OF mutation_filter_rel]])

lemma assignments_rel:
  "map ap_name fs = map ap_name gs \<Longrightarrow> length ps = length qs \<Longrightarrow>
   clause_rel (compile_assignments d fs ps) (compile_assignments d gs qs)"
proof (induction fs arbitrary: gs ps qs)
  case (Cons f fs)
  then obtain g gs' where g: "gs = g # gs'" "ap_name f = ap_name g" "map ap_name fs = map ap_name gs'" by (cases gs) auto
  with Cons.prems show ?case
    by (auto simp: push_sql_param_def intro!: rel_and_then_same rel_and_then [OF Cons.IH [OF g(3)]])
qed simp

lemma update_text_rel:
  "map ap_name as = map ap_name bs \<Longrightarrow> list_all2 same_shape fs gs \<Longrightarrow>
   text_rel (compile_update_plan_to_sql c as fs d) (compile_update_plan_to_sql c bs gs d)"
  unfolding compile_update_plan_to_sql_def mutation_filters_def
  by (auto intro!: rel_and_then_same rel_and_then [OF assignments_rel] rel_and_then [OF compile_filters_rel [OF mutation_filter_rel]])

subsection \<open>Scanning balanced text\<close>

definition at_depth :: "nat \<Rightarrow> scan_state" where
  "at_depth k = \<lparr> scan_depth = k, scan_string = None, scan_escaped = False \<rparr>"

fun no_split :: "char \<Rightarrow> scan_state \<Rightarrow> string \<Rightarrow> bool" where
  "no_split delim st [] = True"
| "no_split delim st (c # cs) = (\<not> at_delimiter delim st c \<and> no_split delim (scan_char st c) cs)"

lemma no_split_append: "no_split delim st (a @ b) \<longleftrightarrow> no_split delim st a \<and> no_split delim (foldl scan_char st a) b"
  by (induction a arbitrary: st) auto

text \<open>\<open>calm m s\<close>: scanning \<open>s\<close> at bracket depth \<open>m\<close> or deeper splits nowhere and ends at the
  same depth.\<close>

definition calm :: "nat \<Rightarrow> string \<Rightarrow> bool" where
  "calm m s = (\<forall>k \<ge> m. no_split (CHR '','') (at_depth k) s \<and> foldl scan_char (at_depth k) s = at_depth k)"

lemma calm_append: "calm m a \<Longrightarrow> calm m b \<Longrightarrow> calm m (a @ b)"
  by (simp add: calm_def no_split_append)

lemma calm_Nil [simp]: "calm m []"
  by (simp add: calm_def)

lemma calm_mono: "calm 0 s \<Longrightarrow> calm m s"
  by (simp add: calm_def)

definition tame :: "char \<Rightarrow> bool" where
  "tame c = (\<not> is_quote c \<and> \<not> is_opening c \<and> \<not> is_closing c)"

lemma scan_tame: "tame c \<Longrightarrow> scan_char (at_depth k) c = at_depth k"
  by (simp add: tame_def scan_char_def at_depth_def)

lemma at_delimiter_tame: "tame c \<Longrightarrow> at_delimiter d (at_depth k) c \<longleftrightarrow> c = d \<and> k = 0"
  by (auto simp: tame_def at_delimiter_def at_depth_def)

lemma calm_tame: "list_all (\<lambda>c. tame c \<and> c \<noteq> CHR '','') s \<Longrightarrow> calm m s"
  by (induction s) (auto simp: calm_def at_delimiter_tame scan_tame)

lemma calm_comma: "list_all tame s \<Longrightarrow> calm 1 s"
  by (induction s) (auto simp: calm_def at_delimiter_tame scan_tame)

lemma calm_wrap: "is_opening l \<Longrightarrow> is_closing r \<Longrightarrow> calm 1 s \<Longrightarrow> calm m (l # s @ [r])"
proof -
  assume l: "is_opening l" and r: "is_closing r" and s: "calm 1 s"
  have d: "\<not> at_delimiter (CHR '','') st l" "\<not> at_delimiter (CHR '','') st r" for st
    using l r by (auto simp: at_delimiter_def)
  have o: "scan_char (at_depth k) l = at_depth (Suc k)" for k
    using l by (auto simp: scan_char_def at_depth_def is_opening_def is_quote_def)
  have c: "scan_char (at_depth (Suc k)) r = at_depth k" for k
    using r by (auto simp: scan_char_def at_depth_def is_opening_def is_closing_def is_quote_def)
  from s have "no_split (CHR '','') (at_depth (Suc k)) s \<and> foldl scan_char (at_depth (Suc k)) s = at_depth (Suc k)" for k
    by (simp add: calm_def)
  then show ?thesis by (simp add: calm_def no_split_append d o c)
qed

subsection \<open>Strings\<close>

definition in_quotes :: "nat \<Rightarrow> scan_state" where
  "in_quotes k = \<lparr> scan_depth = k, scan_string = Some (CHR 0x22), scan_escaped = False \<rparr>"

lemma no_split_quotes: "scan_string st \<noteq> None \<Longrightarrow> \<not> at_delimiter d st c"
  by (auto simp: at_delimiter_def)

definition quiet :: "string \<Rightarrow> bool" where
  "quiet s = (\<forall>k. no_split (CHR '','') (in_quotes k) s \<and> foldl scan_char (in_quotes k) s = in_quotes k)"

lemma quiet_append: "quiet a \<Longrightarrow> quiet b \<Longrightarrow> quiet (a @ b)"
  by (simp add: quiet_def no_split_append)

lemma quiet_char: "c \<noteq> CHR 0x22 \<Longrightarrow> c \<noteq> CHR 0x5C \<Longrightarrow> quiet [c]"
  by (simp add: quiet_def at_delimiter_def scan_char_def in_quotes_def)

lemma quiet_Nil: "quiet []"
  by (simp add: quiet_def)

lemma quiet_plain: "\<forall>c \<in> set s. c \<noteq> CHR 0x22 \<and> c \<noteq> CHR 0x5C \<Longrightarrow> quiet s"
proof (induction s)
  case (Cons c s)
  then show ?case using quiet_append [OF quiet_char [of c], of s] by simp
qed (rule quiet_Nil)

lemma quiet_escape: "quiet [CHR 0x5C, c]"
  by (simp add: quiet_def at_delimiter_def scan_char_def in_quotes_def)

lemma alphanumeric_plain: "is_alphanumeric c \<Longrightarrow> c \<noteq> CHR 0x22 \<and> c \<noteq> CHR 0x5C"
  by (auto simp: is_alphanumeric_def is_digit_def code_def)

lemma quiet_unicode: "quiet (unicode_escape n)"
proof -
  have "quiet (CHR 0x7B # show_hex n @ [CHR 0x7D])"
    by (rule quiet_plain) (auto dest: show_hex_alphanumeric alphanumeric_plain)
  from quiet_append [OF quiet_escape this] show ?thesis by (simp add: unicode_escape_def)
qed

lemma quiet_chunk: "p \<in> set (utf8_split s) \<Longrightarrow> quiet (debug_chunk printable p)"
proof -
  assume p: "p \<in> set (utf8_split s)"
  obtain cp raw where c: "p = (cp, raw)" by force
  have raw: "quiet raw" if "(case cp of Some n \<Rightarrow> n | None \<Rightarrow> 65533) \<notin> {34, 92}"
  proof (rule quiet_plain)
    show "\<forall>c \<in> set raw. c \<noteq> CHR 0x22 \<and> c \<noteq> CHR 0x5C"
      using utf8_split_bytes [of cp raw s] p c that by (auto simp: code_def)
  qed
  show ?thesis unfolding c debug_chunk_def Let_def
    using raw by (auto intro: quiet_escape quiet_unicode)
qed

lemma calm_debug_str: "calm m (debug_str printable s)"
proof -
  have "quiet (concat (map (debug_chunk printable) ps))" if "set ps \<subseteq> set (utf8_split s)" for ps
    using that by (induction ps) (auto simp: quiet_Nil intro: quiet_append quiet_chunk)
  then have q: "quiet (concat (map (debug_chunk printable) (utf8_split s)))" by blast
  have o: "scan_char (at_depth k) (CHR 0x22) = in_quotes k" "scan_char (in_quotes k) (CHR 0x22) = at_depth k" for k
    by (simp_all add: scan_char_def at_depth_def in_quotes_def is_quote_def)
  have "\<not> at_delimiter (CHR '','') st (CHR 0x22)" for st by (simp add: at_delimiter_def)
  with q show ?thesis by (simp add: debug_str_def calm_def quiet_def no_split_append o)
qed

definition num_char :: "char \<Rightarrow> bool" where
  "num_char c = (is_digit c \<or> c \<in> set ''.-NaNinfe'')"

lemma show_nat_num [simp]: "c \<in> set (show_nat n) \<Longrightarrow> num_char c"
  using show_nat_digits by (auto simp: num_char_def list_all_iff)

lemma show_int_num: "c \<in> set (show_int i) \<Longrightarrow> num_char c"
  by (auto simp: show_int_def num_char_def split: if_splits dest!: show_nat_num)

lemma num_char_literals [simp]: "num_char (CHR ''.'')" "num_char (CHR ''-'')" "num_char (CHR ''0'')" "num_char (CHR ''e'')"
  by (simp_all add: num_char_def is_digit_def code_def)

lemma show_decimal_num: "c \<in> set (show_decimal n e) \<Longrightarrow> num_char c"
  by (auto simp: show_decimal_def Let_def dest: in_set_takeD in_set_dropD split: if_splits)

lemma show_f64_num: "c \<in> set (show_f64 b) \<Longrightarrow> num_char c"
  by (auto simp: show_f64_def dest: show_decimal_num split: if_splits prod.splits) (auto simp: num_char_def)

lemma debug_f64_num: "c \<in> set (debug_f64 b) \<Longrightarrow> num_char c"
  by (auto simp: debug_f64_def Let_def dest: show_f64_num show_int_num in_set_takeD in_set_dropD split: if_splits prod.splits)

lemma num_char_tame: "num_char c \<Longrightarrow> tame c \<and> c \<noteq> CHR '','' \<and> \<not> space_byte c"
  by (auto simp: num_char_def tame_def is_quote_def is_opening_def is_closing_def is_digit_def space_byte_def
      is_whitespace_def code_def)

lemma alphanumeric_tame: "is_alphanumeric c \<or> c = CHR ''_'' \<Longrightarrow> tame c \<and> c \<noteq> CHR '','' \<and> \<not> space_byte c"
  by (auto simp: is_alphanumeric_def tame_def is_quote_def is_opening_def is_closing_def is_digit_def space_byte_def
      is_whitespace_def code_def)

subsection \<open>Rendered expressions\<close>

definition plain_name :: "string \<Rightarrow> bool" where
  "plain_name s = (s \<noteq> [] \<and> list_all ident_char s)"

fun plain_expr :: "ax_expr \<Rightarrow> bool" where
  "plain_expr (ExList es) = list_all plain_expr es"
| "plain_expr (ExObject fs) = list_all (\<lambda>(n, e). plain_expr e) fs"
| "plain_expr (ExIdentifier n) = plain_name n"
| "plain_expr (ExUnary op e) = plain_expr e"
| "plain_expr (ExBinary op a b) = (plain_expr a \<and> plain_expr b)"
| "plain_expr (ExIndex a b) = (plain_expr a \<and> plain_expr b)"
| "plain_expr (ExMember a p) = (plain_expr a \<and> plain_name p)"
| "plain_expr (ExOptionalMember a p) = (plain_expr a \<and> plain_name p)"
| "plain_expr (ExCall path args) = (path \<noteq> [] \<and> list_all plain_name path \<and> list_all plain_expr args)"
| "plain_expr e = True"

definition edges :: "string \<Rightarrow> bool" where
  "edges s = (s \<noteq> [] \<and> \<not> space_byte (hd s) \<and> \<not> space_byte (last s))"

definition solid :: "string \<Rightarrow> bool" where
  "solid s = (calm 0 s \<and> edges s)"

lemma tame_word:
  assumes "list_all (\<lambda>c. tame c \<and> c \<noteq> CHR '','' \<and> \<not> space_byte c) s" and "s \<noteq> []"
  shows "solid s"
proof -
  have "calm 0 s" by (rule calm_tame) (use assms(1) in \<open>simp add: list_all_iff\<close>)
  moreover have "\<not> space_byte (hd s)" "\<not> space_byte (last s)"
    using assms hd_in_set [OF assms(2)] last_in_set [OF assms(2)] unfolding list_all_iff by blast+
  ultimately show ?thesis using assms(2) by (simp add: solid_def edges_def)
qed

lemma plain_name_solid: "plain_name s \<Longrightarrow> solid s"
  by (rule tame_word)
    (simp_all add: plain_name_def ident_char_def alphanumeric_tame list_all_iff)

lemma num_solid: "s \<noteq> [] \<Longrightarrow> list_all num_char s \<Longrightarrow> solid s"
  by (rule tame_word) (simp_all add: num_char_tame list_all_iff)

lemma solid_append: "solid a \<Longrightarrow> solid b \<Longrightarrow> solid (a @ b)"
  by (auto simp: solid_def edges_def intro: calm_append)

lemma debug_str_solid: "solid (debug_str pr s)"
  using calm_debug_str by (simp add: solid_def edges_def) (simp add: debug_str_def space_byte_def is_whitespace_def code_def)

lemma solid_calm: "solid s \<Longrightarrow> calm m s"
  by (simp add: solid_def calm_mono)

lemma calm_join: "list_all solid ss \<Longrightarrow> calm 1 (join_with '', '' ss)"
proof (induction "'', '' :: string" ss rule: join_with.induct)
  case (3 s t ss)
  have sep: "calm 1 '', ''" by (rule calm_comma) (simp add: tame_def is_quote_def is_opening_def is_closing_def)
  have s: "calm 1 s" using 3 by (simp add: solid_calm)
  have "calm 1 (join_with '', '' (t # ss))" using 3 by simp
  from calm_append [OF s calm_append [OF sep this]] show ?case by simp
qed (simp_all add: solid_calm)

lemma wrap_solid:
  "list_all (\<lambda>c. tame c \<and> c \<noteq> CHR '','') pre \<Longrightarrow> pre = [] \<or> \<not> space_byte (hd pre) \<Longrightarrow>
   is_opening l \<Longrightarrow> is_closing r \<Longrightarrow> calm 1 s \<Longrightarrow> solid (pre @ l # s @ [r])"
proof -
  assume pre: "list_all (\<lambda>c. tame c \<and> c \<noteq> CHR '','') pre" "pre = [] \<or> \<not> space_byte (hd pre)"
    and w: "is_opening l" "is_closing r" "calm 1 s"
  have "\<not> space_byte l" "\<not> space_byte r"
    using w by (auto simp: is_opening_def is_closing_def space_byte_def is_whitespace_def code_def)
  then have "edges (pre @ l # s @ [r])" using pre(2) by (cases pre) (auto simp: edges_def)
  with calm_append [OF calm_tame [OF pre(1)] calm_wrap [OF w]] show ?thesis by (simp add: solid_def)
qed

lemma paren: "is_opening (CHR ''('')" "is_closing (CHR '')'')" "is_opening (CHR ''['')" "is_closing (CHR '']'')"
  "is_opening (CHR 0x7B)" "is_closing (CHR 0x7D)"
  by (simp_all add: is_opening_def is_closing_def)

lemma calm_paren: "calm 1 s \<Longrightarrow> calm 1 (CHR ''('' # s @ '')'')"
  using calm_wrap [OF paren(1,2)] by simp

lemma word_paren_solid:
  "list_all (\<lambda>c. tame c \<and> c \<noteq> CHR '','' \<and> \<not> space_byte c) w \<Longrightarrow> calm 1 s \<Longrightarrow> solid (w @ CHR ''('' # s @ '')'')"
proof -
  assume w: "list_all (\<lambda>c. tame c \<and> c \<noteq> CHR '','' \<and> \<not> space_byte c) w" and s: "calm 1 s"
  have "list_all (\<lambda>c. tame c \<and> c \<noteq> CHR '','') w" using w unfolding list_all_iff by blast
  moreover have "w = [] \<or> \<not> space_byte (hd w)" using w hd_in_set unfolding list_all_iff by blast
  ultimately show ?thesis using wrap_solid [OF _ _ paren(1,2) s] by blast
qed

lemmas scan_simps = tame_def is_quote_def is_opening_def is_closing_def space_byte_def is_whitespace_def code_def

lemma binary_solid:
  assumes "solid l" "solid r"
  shows "solid (render_binary op a b l r)"
proof -
  note c = solid_calm [OF assms(1), of 1] solid_calm [OF assms(2), of 1]
  have amp: "calm 1 ''&''" "calm 1 '', ''" "calm 1 '', &''" "calm 1 '' ''" "calm 1 ''!''"
    by (rule calm_comma, simp add: scan_simps)+
  have null: "solid (''__ax_is_null'' @ CHR ''('' # (''&'' @ CHR ''('' # s @ '')'') @ '')'')" if "calm 1 s" for s
    by (rule word_paren_solid) (simp add: scan_simps, intro calm_append amp calm_paren that)
  have q: "solid ''?''" by (rule tame_word) (simp add: scan_simps, simp)
  have null_test: "solid (render_null_test op s)" if "calm 1 s" for s
  proof -
    have n: "solid (''__ax_is_null(&('' @ s @ ''))?'')" using solid_append [OF null [OF that] q] by simp
    moreover have "solid ([] @ CHR ''('' # (''!'' @ ''__ax_is_null(&('' @ s @ ''))?'') @ '')'')"
      by (rule word_paren_solid) (simp, intro calm_append amp solid_calm n)
    ultimately show ?thesis by (simp add: render_null_test_def)
  qed
  have add: "solid (''__ax_add'' @ CHR ''('' # (''&'' @ (CHR ''('' # l @ '')'') @ '', &'' @ (CHR ''('' # r @ '')'')) @ '')'')"
    by (rule word_paren_solid) (simp add: scan_simps, intro calm_append amp calm_paren c)
  have "solid ([] @ CHR ''('' # l @ '')'')" by (rule word_paren_solid) (simp, rule c)
  moreover have "solid (''.unwrap_or'' @ CHR ''('' # r @ '')'')" by (rule word_paren_solid) (simp add: scan_simps, rule c)
  ultimately have fall: "solid (''('' @ l @ '').unwrap_or('' @ r @ '')'')" using solid_append by fastforce
  have cin: "solid (''contains'' @ CHR ''('' # (r @ '', '' @ l) @ '')'')"
    by (rule word_paren_solid) (simp add: scan_simps, intro calm_append amp c)
  have "calm 1 (render_binary_op op)"
    by (rule calm_comma) (cases op, simp_all add: scan_simps)
  then have inf: "solid ([] @ CHR ''('' # (l @ '' '' @ render_binary_op op @ '' '' @ r) @ '')'')"
    by (intro word_paren_solid calm_append amp c) simp
  show ?thesis unfolding render_binary_def using null_test c add fall cin inf by simp
qed


lemma env_access_solid: "list_all (\<lambda>c. tame c \<and> c \<noteq> CHR '','' \<and> \<not> space_byte c) accessor \<Longrightarrow> solid (env_access pr accessor key)"
proof -
  assume a: "list_all (\<lambda>c. tame c \<and> c \<noteq> CHR '','' \<and> \<not> space_byte c) accessor"
  have 1: "solid (''runtime.env'' @ CHR ''('' # [] @ '')'')"
    by (rule word_paren_solid) (simp_all add: scan_simps)
  have 2: "solid ((''.'' @ accessor) @ CHR ''('' # debug_str pr key @ '')'')"
    by (rule word_paren_solid) (use a in \<open>simp_all add: scan_simps solid_calm debug_str_solid\<close>)
  have q: "solid ''?''" by (rule tame_word) (simp_all add: scan_simps)
  from solid_append [OF 1 solid_append [OF 2 q]] show ?thesis by (simp add: env_access_def)
qed

lemma env_solid: "try_render_runtime_env pr e = Some s \<Longrightarrow> solid s"
  by (auto simp: try_render_runtime_env_def scan_simps intro!: env_access_solid split: option.splits list.splits if_splits)

lemma auth_solid: "try_render_auth e = Some s \<Longrightarrow> solid s"
proof -
  assume "try_render_auth e = Some s"
  then have "s \<in> {''Auth.bearer'', ''Auth.session'', ''Auth.signedSession'', ''Auth.subject''}"
    by (auto simp: try_render_auth_def split: option.splits list.splits if_splits)
  then show ?thesis by (elim insertE emptyE) (simp_all add: tame_word scan_simps)
qed

lemma word_solid: "list_all (\<lambda>c. tame c \<and> c \<noteq> CHR '','' \<and> \<not> space_byte c) w \<Longrightarrow> w \<noteq> [] \<Longrightarrow> solid w"
  by (rule tame_word)

lemma index_solid: "solid l \<Longrightarrow> solid r \<Longrightarrow> solid (l @ ''['' @ r @ '']'')"
  using solid_append [OF _ wrap_solid [OF _ _ paren(3,4), of "[]"]] solid_calm by simp

lemma path_solid: "ps \<noteq> [] \<Longrightarrow> list_all plain_name ps \<Longrightarrow> solid (join_with ''::'' ps)"
proof (induction "''::''" ps rule: join_with.induct)
  case (3 s t ss)
  have colons: "solid ''::''" by (rule tame_word) (simp_all add: scan_simps)
  have s: "solid s" and j: "solid (join_with ''::'' (t # ss))" using 3 by (simp_all add: plain_name_solid)
  from solid_append [OF s solid_append [OF colons j]] show ?case by simp
qed (simp_all add: plain_name_solid)

lemma call_solid: "solid f \<Longrightarrow> calm 1 args \<Longrightarrow> solid (f @ ''('' @ args @ '')'')"
  using solid_append [of f "CHR ''('' # args @ '')''"] word_paren_solid [of "[]" args] by simp

lemma vec_solid: "calm 1 args \<Longrightarrow> solid (''vec!['' @ args @ '']'')"
  using wrap_solid [OF _ _ paren(3,4), of "''vec!''" args] by (simp add: scan_simps)

lemma solid_mid: "solid a \<Longrightarrow> calm 0 m \<Longrightarrow> solid b \<Longrightarrow> solid (a @ m @ b)"
  by (auto simp: solid_def edges_def intro!: calm_append)

lemma float_solid: "solid (debug_f64 v @ ''_f64'')"
  by (rule tame_word)
    (use debug_f64_num num_char_tame in \<open>auto simp: list_all_iff scan_simps\<close>)

lemma object_solid: "calm 1 fs \<Longrightarrow> solid (''json!('' @ [CHR 0x7B] @ fs @ [CHR 0x7D] @ '')'')"
  using word_paren_solid [of "''json!''" "CHR 0x7B # fs @ [CHR 0x7D]"] calm_wrap [OF paren(5,6), of fs 1]
  by (simp add: scan_simps)

lemma length_solid: "solid o' \<Longrightarrow> solid (''__ax_length(&('' @ o' @ ''))?'')"
proof -
  assume o': "solid o'"
  have amp: "calm 1 ''&''" by (rule calm_comma) (simp add: scan_simps)
  have q: "solid ''?''" by (rule tame_word) (simp_all add: scan_simps)
  have "solid (''__ax_length'' @ CHR ''('' # (''&'' @ CHR ''('' # o' @ '')'') @ '')'')"
    by (rule word_paren_solid) (simp add: scan_simps, intro calm_append amp calm_paren solid_calm o')
  from solid_append [OF this q] show ?thesis by simp
qed

lemma optional_member_solid: "solid o' \<Longrightarrow> solid (''__ax_optional_member('' @ o' @ '', '' @ debug_str pr p @ '')'')"
proof -
  assume o': "solid o'"
  have sep: "calm 1 '', ''" by (rule calm_comma) (simp add: scan_simps)
  have "solid (''__ax_optional_member'' @ CHR ''('' # (o' @ '', '' @ debug_str pr p) @ '')'')"
    by (rule word_paren_solid) (simp add: scan_simps, intro calm_append sep solid_calm o' debug_str_solid)
  then show ?thesis by simp
qed

lemmas render_plain = try_render_runtime_env_def try_render_auth_def

lemma render_solid: "plain_expr e \<Longrightarrow> solid (render_expr pr e)"
proof (induction e)
  case (ExString s)
  have "solid (''.to_string'' @ CHR ''('' # [] @ '')'')" by (rule word_paren_solid) (simp_all add: scan_simps)
  from solid_append [OF debug_str_solid this] show ?case
    by (simp add: render_expr.simps try_render_runtime_env_def try_render_auth_def)
next
  case (ExNumber v)
  show ?case
    using num_solid [of "show_int (sint v)"] show_int_num [of _ "sint v"]
    by (simp add: render_expr.simps try_render_runtime_env_def try_render_auth_def list_all_iff) (simp add: show_int_def)
next
  case (ExFloat v)
  show ?case using float_solid by (simp add: render_expr.simps render_plain)
next
  case (ExBool b)
  then show ?case
    by (simp add: render_expr.simps try_render_runtime_env_def try_render_auth_def tame_word scan_simps)
next
  case (ExList es)
  then have "calm 1 (join_with '', '' (map (render_expr pr) es))" by (intro calm_join) (auto simp: list_all_iff)
  from vec_solid [OF this] show ?case
    by (simp add: render_expr.simps try_render_runtime_env_def try_render_auth_def)
next
  case (ExObject fs)
  have colon: "calm 0 '': ''" by (rule calm_tame) (simp add: scan_simps)
  have "solid (debug_str pr name @ '': '' @ render_expr pr v)" if "(name, v) \<in> set fs" for name v
    using ExObject.IH [OF that, of v] ExObject.prems that
    by (intro solid_mid [OF debug_str_solid colon]) (auto simp: list_all_iff)
  then have "list_all solid (map (\<lambda>(name, v). debug_str pr name @ '': '' @ render_expr pr v) fs)"
    by (auto simp: list_all_iff)
  from object_solid [OF calm_join [OF this]] show ?case by (simp add: render_expr.simps render_plain)
next
  case (ExIdentifier n)
  have "solid ''serde_json::Value::Null''" by (rule tame_word) (simp_all add: scan_simps)
  with ExIdentifier plain_name_solid [of n] show ?case
    by (simp add: render_expr.simps try_render_runtime_env_def try_render_auth_def)
next
  case (ExUnary op e)
  have "calm 1 (render_unary_op op)" by (rule calm_comma) (cases op; simp add: scan_simps)
  with ExUnary have "solid ([] @ CHR ''('' # (render_unary_op op @ render_expr pr e) @ '')'')"
    by (intro word_paren_solid calm_append) (simp_all add: solid_calm)
  then show ?case by (simp add: render_expr.simps try_render_runtime_env_def try_render_auth_def)
next
  case (ExBinary op a b)
  then show ?case
    by (simp add: render_expr.simps [of _ "ExBinary op a b"] try_render_runtime_env_def try_render_auth_def binary_solid)
next
  case (ExIndex a b)
  have "solid ([] @ CHR ''('' # render_expr pr a @ '')'')"
    by (rule word_paren_solid) (use ExIndex in \<open>simp_all add: solid_calm\<close>)
  then show ?case using ExIndex index_solid [of _ "render_expr pr b"]
    by (simp add: render_expr.simps [of _ "ExIndex a b"] try_render_runtime_env_def try_render_auth_def Let_def)
next
  case (ExMember a p)
  have dot: "solid ''.''" by (rule tame_word) (simp_all add: scan_simps)
  from ExMember have a: "solid (render_expr pr a)" and p: "solid p" by (simp_all add: plain_name_solid)
  show ?case
    using length_solid [OF a] solid_append [OF a solid_append [OF dot p]] env_solid auth_solid
    by (simp add: render_expr.simps [of _ "ExMember a p"] split: option.split)
next
  case (ExOptionalMember a p)
  with optional_member_solid [of "render_expr pr a" pr p] env_solid auth_solid show ?case
    by (simp add: render_expr.simps [of _ "ExOptionalMember a p"] split: option.split)
next
  case (ExCall path args)
  then have args: "calm 1 (join_with '', '' (map (render_expr pr) args))"
    by (intro calm_join) (auto simp: list_all_iff)
  from ExCall have "solid (join_with ''::'' path)" by (intro path_solid) simp_all
  from vec_solid [OF args] call_solid [OF this args] show ?case
    by (simp add: render_expr.simps render_plain Let_def)
qed


subsection \<open>List literals\<close>

lemma split_from_calm:
  "no_split (CHR '','') st s \<Longrightarrow> split_from (CHR '','') st acc (s @ t) = split_from (CHR '','') (foldl scan_char st s) (rev s @ acc) t"
  by (induction s arbitrary: st acc) auto

lemma split_joined:
  "solid r \<Longrightarrow> list_all solid rs \<Longrightarrow>
   split_from (CHR '','') scan_start acc (join_with '', '' (r # rs)) = trim (rev acc @ r) # map (\<lambda>s. trim (CHR '' '' # s)) rs"
proof (induction rs arbitrary: r acc)
  have start: "scan_start = at_depth 0" by (simp add: scan_start_def at_depth_def)
  have solid: "split_from (CHR '','') scan_start acc (r @ t) = split_from (CHR '','') scan_start (rev r @ acc) t"
    if "solid r" for r acc t
    using solid_calm [OF that, of 0] split_from_calm [of "at_depth 0" r acc t] by (simp add: calm_def start)
  case Nil
  then show ?case using solid [of r acc "[]"] by simp
next
  have start: "scan_start = at_depth 0" by (simp add: scan_start_def at_depth_def)
  have solid: "split_from (CHR '','') scan_start acc (r @ t) = split_from (CHR '','') scan_start (rev r @ acc) t"
    if "solid r" for r acc t
    using solid_calm [OF that, of 0] split_from_calm [of "at_depth 0" r acc t] by (simp add: calm_def start)
  case (Cons s rs)
  have comma: "at_delimiter (CHR '','') scan_start (CHR '','')"
    by (simp add: at_delimiter_def scan_start_def scan_simps)
  have space: "\<not> at_delimiter (CHR '','') scan_start (CHR '' '')" "scan_char scan_start (CHR '' '') = scan_start"
    by (simp_all add: at_delimiter_def scan_char_def scan_start_def scan_simps)
  show ?case using Cons solid [of r acc] by (simp add: comma space)
qed

lemma trim_solid_text: "solid r \<Longrightarrow> trim r = r" "solid r \<Longrightarrow> trim (CHR '' '' # r) = r"
proof -
  assume r: "solid r"
  then show t: "trim r = r" by (intro trim_solid) (simp add: solid_def edges_def)
  have "utf8_split (CHR '' '' # r) = (Some 32, [CHR '' '']) # utf8_split r"
    by (simp add: utf8_more_def code_def)
  then have "trim (CHR '' '' # r) = trim r" by (simp add: trim_def space_chunk_def is_whitespace_def)
  with t show "trim (CHR '' '' # r) = r" by simp
qed


lemma list_filter_values:
  assumes "list_all plain_expr es"
  shows "filter_list_values (render_expr pr (ExList es)) = Some (map (render_expr pr) es)"
proof -
  let ?rs = "map (render_expr pr) es"
  have rs: "list_all solid ?rs" using assms render_solid by (auto simp: list_all_iff)
  have r: "render_expr pr (ExList es) = ''vec!['' @ join_with '', '' ?rs @ '']''"
    by (simp add: render_expr.simps render_plain)
  from vec_solid [OF calm_join [OF rs]] have t: "trim (render_expr pr (ExList es)) = ''vec!['' @ join_with '', '' ?rs @ '']''"
    unfolding r by (rule trim_solid_text)
  have "strip_prefix ''vec!['' (''vec!['' @ join_with '', '' ?rs @ '']'') = Some (join_with '', '' ?rs @ '']'')"
    "strip_suffix '']'' (join_with '', '' ?rs @ '']'') = Some (join_with '', '' ?rs)"
    by (simp_all only: strip_prefix_Some strip_suffix_Some)
  then have i: "list_inner (''vec!['' @ join_with '', '' ?rs @ '']'') = Some (join_with '', '' ?rs)"
    unfolding list_inner_def by simp
  show ?thesis
  proof (cases es)
    case Nil
    with t i show ?thesis by (simp add: filter_list_values_def trim_def)
  next
    case (Cons e es')
    with rs have e: "solid (render_expr pr e)" "list_all solid (map (render_expr pr) es')" by simp_all
    have "trim (join_with '', '' ?rs) \<noteq> []"
    proof
      assume n: "trim (join_with '', '' ?rs) = []"
      obtain a b where "join_with '', '' ?rs = a @ trim (join_with '', '' ?rs) @ b" "list_all space_byte a" "list_all space_byte b"
        using trim_decomp_space by blast
      with n have "list_all space_byte (join_with '', '' ?rs)" by simp
      moreover obtain c r' where "render_expr pr e = c # r'" "\<not> space_byte c"
        using e(1) by (cases "render_expr pr e") (auto simp: solid_def edges_def)
      then have "hd (join_with '', '' ?rs) = c" "join_with '', '' ?rs \<noteq> []"
        by (cases "map (render_expr pr) es'"; simp add: Cons)+
      ultimately show False using \<open>\<not> space_byte c\<close> by (metis hd_in_set list_all_iff)
    qed
    with t i show ?thesis
      using split_joined [OF e, of "[]"] e
      by (simp add: filter_list_values_def Cons split_top_level_def trim_solid_text list_all_iff)
  qed
qed

subsection \<open>Properties\<close>

lemma valid_ident: "s \<noteq> [] \<Longrightarrow> list_all ident_char s \<Longrightarrow> validate_ident s = Inr ()"
proof -
  assume s: "s \<noteq> []" "list_all ident_char s"
  have "\<not> space_byte c" if "ident_char c" for c
    using that alphanumeric_tame [of c] by (auto simp: ident_char_def)
  then have "trim s = s" using s by (intro trim_solid) (auto simp: list_all_iff)
  with s show ?thesis by (simp add: validate_ident_def)
qed

lemmas demo_ident = valid_ident ident_char_def is_alphanumeric_def is_digit_def code_def

text \<open>C14. A compiled insert, update or delete has the parameters of its assignments and then of its
  filters, numbered from 1 in the order of the plan, and its text binds exactly these: in
  PostgreSQL the marks are $1, $2, and so on in order of appearance, elsewhere there is one
  question mark per parameter.\<close>

theorem mutation_parameters:
  "(\<forall>s. compile_insert_plan_to_sql collection fs d = Inr s \<longrightarrow>
      sql_params s = params_from 0 (map ap_value fs) \<and> binds d 0 (length (sql_params s)) (sql_text s))
   \<and> (\<forall>s. compile_update_plan_to_sql collection fs filters d = Inr s \<longrightarrow>
      sql_params s = params_from 0 (map ap_value fs @ concat (map filter_values filters))
      \<and> binds d 0 (length (sql_params s)) (sql_text s))
   \<and> (\<forall>s. compile_delete_plan_to_sql collection filters d = Inr s \<longrightarrow>
      sql_params s = params_from 0 (concat (map filter_values filters)) \<and> binds d 0 (length (sql_params s)) (sql_text s))"
  using insert_parameters update_parameters delete_parameters by blast

lemma mutation_parameters_witness:
  "\<exists>s. compile_insert_plan_to_sql ''users'' [\<lparr> ap_name = ''name'', ap_value = ''input.name'' \<rparr>] Postgres = Inr s
    \<and> sql_params s = [\<lparr> param_index = 1, param_value = ''input.name'' \<rparr>] \<and> binds Postgres 0 1 (sql_text s)"
proof -
  have "\<exists>s. compile_insert_plan_to_sql ''users'' [\<lparr> ap_name = ''name'', ap_value = ''input.name'' \<rparr>] Postgres = Inr s"
    by (simp add: compile_insert_plan_to_sql_def demo_ident push_sql_param_def)
  then show ?thesis
    using mutation_parameters [of "''users''" "[\<lparr> ap_name = ''name'', ap_value = ''input.name'' \<rparr>]" Postgres "[]"]
    by (auto simp: params_from_Cons)
qed

text \<open>A compiled query has one parameter per value of its filters, the elements of a list filter
  each its own, numbered from 1 in the order of the filters, and its text binds exactly these.\<close>

theorem query_parameters:
  assumes "compile_query_plan_to_sql q d = Inr s"
  shows "map param_index (sql_params s) = [1..<Suc (length (sql_params s))]
    \<and> map param_value (sql_params s) = concat (map filter_values (qp_filters q))
    \<and> binds d 0 (length (sql_params s)) (sql_text s)"
proof -
  from assms obtain source qs clauses orders where src: "validate_ident source = Inr ()"
    and js: "check_joins (qp_joins q) [source] = Inr qs"
    and fs: "compile_filters (compile_query_filter (\<lambda>f. compile_query_field f source qs (qp_joins q \<noteq> []) d) d) (qp_filters q) []
        = Inr (clauses, sql_params s)"
    and os: "try_map (compile_order (\<lambda>f. compile_query_field f source qs (qp_joins q \<noteq> []) d) d) (qp_orders q) = Inr orders"
    and t: "sql_text s = query_head d source (qp_joins q)
                 @ optional_clause '' where '' '' and '' clauses
                 @ optional_clause '' order by '' '', '' orders
                 @ count_clause '' limit '' (qp_limit q) @ count_clause '' offset '' (qp_offset q)"
    by (auto simp: compile_query_plan_to_sql_def and_then_Inr_iff Let_def)
  let ?vs = "concat (map filter_values (qp_filters q))"
  let ?tail = "optional_clause '' order by '' '', '' orders @ count_clause '' limit '' (qp_limit q) @ count_clause '' offset '' (qp_offset q)"
  from compile_filters_ok [OF query_clause_ok [OF src] fs] have p: "sql_params s = params_from 0 ?vs"
    and b: "binds_all d 0 (map (\<lambda>f. length (filter_values f)) (qp_filters q)) clauses" by simp_all
  have w: "binds d 0 (length ?vs) (optional_clause '' where '' '' and '' clauses)"
    using optional_clause_binds [OF b, of "'' where ''" "'' and ''"] by (simp add: length_concat_filters)
  have "\<forall>t \<in> set orders. markless t" using try_map_Inr_all [OF os] compile_order_markless [OF src] by blast
  then have "markless ?tail" by (auto simp: optional_clause_def count_clause_markless intro: markless_join)
  moreover have "no_digit ?tail"
    using count_clause_no_digit [of "'' offset ''" "[]" "qp_offset q"]
    by (intro optional_clause_no_digit count_clause_no_digit) simp_all
  ultimately have "binds d 0 (length ?vs) (optional_clause '' where '' '' and '' clauses @ ?tail)"
    by (rule markless_suffix [OF w])
  from markless_prefix [OF query_head_markless [OF src js] this] p show ?thesis
    by (simp add: t params_from_index params_from_value del: upt_Suc)
qed

definition demo_query :: query_plan where
  "demo_query = \<lparr> qp_source = SpStream ''posts'', qp_joins = [],
     qp_filters = [\<lparr> fp_field = ''id'', fp_op = FoEq, fp_value = ''input.id'' \<rparr>], qp_orders = [],
     qp_limit = Some 10, qp_offset = None, qp_mode = QmMany \<rparr>"

lemma query_parameters_witness:
  "\<exists>s. compile_query_plan_to_sql demo_query Postgres = Inr s \<and> map param_value (sql_params s) = [''input.id'']
     \<and> binds Postgres 0 1 (sql_text s)"
proof -
  obtain s where s: "compile_query_plan_to_sql demo_query Postgres = Inr s"
    by (simp add: compile_query_plan_to_sql_def demo_query_def demo_ident Let_def compile_query_filter_def
        compile_query_field_def compile_filter_clause_with_field_def push_sql_param_def)
  then show ?thesis using query_parameters [OF s] s by (auto simp: demo_query_def filter_values_def dest: arg_cong [of _ _ length])
qed

text \<open>The text of a compiled statement does not depend on the values: plans that differ only in the
  values of their assignments and filters, list filters in lists of the same length, compile to
  the same text with the same number of parameters, or fail with the same error.\<close>

theorem text_without_values:
  assumes "map ap_name as = map ap_name bs" and "list_all2 same_shape fs gs"
  shows "rel_sum (=) (\<lambda>s t. sql_text s = sql_text t \<and> length (sql_params s) = length (sql_params t))
       (compile_update_plan_to_sql c as fs d) (compile_update_plan_to_sql c bs gs d)
     \<and> rel_sum (=) (\<lambda>s t. sql_text s = sql_text t \<and> length (sql_params s) = length (sql_params t))
       (compile_delete_plan_to_sql c fs d) (compile_delete_plan_to_sql c gs d)
     \<and> rel_sum (=) (\<lambda>s t. sql_text s = sql_text t \<and> length (sql_params s) = length (sql_params t))
       (compile_query_plan_to_sql (q\<lparr> qp_filters := fs \<rparr>) d) (compile_query_plan_to_sql (q\<lparr> qp_filters := gs \<rparr>) d)"
  using update_text_rel [OF assms, of c d] delete_text_rel [OF assms(2), of c d]
    query_text_rel [of "q\<lparr> qp_filters := fs \<rparr>" gs d] assms(2) by simp

lemma text_without_values_witness:
  "rel_sum (=) (\<lambda>s t. sql_text s = sql_text t \<and> length (sql_params s) = length (sql_params t))
     (compile_delete_plan_to_sql ''users'' [\<lparr> fp_field = ''id'', fp_op = FoEq, fp_value = ''1'' \<rparr>] MySql)
     (compile_delete_plan_to_sql ''users'' [\<lparr> fp_field = ''id'', fp_op = FoEq, fp_value = ''2 or 1'' \<rparr>] MySql)"
  using text_without_values [of "[]" "[]" "[\<lparr> fp_field = ''id'', fp_op = FoEq, fp_value = ''1'' \<rparr>]"
      "[\<lparr> fp_field = ''id'', fp_op = FoEq, fp_value = ''2 or 1'' \<rparr>]" "''users''" MySql demo_query]
  by (simp add: same_shape_def)

text \<open>Mutations fail closed: without filters there is no delete, a compiled delete has one clause per
  filter, and in a delete as in an update a list filter over the empty list becomes the clause
  \<open>1 = 0\<close>, for \<open>not in\<close> too.\<close>

theorem mutation_fails_closed:
  "(\<exists>e. compile_delete_plan_to_sql c [] d = Inl e)
   \<and> (\<forall>s. compile_delete_plan_to_sql c fs d = Inr s \<longrightarrow>
        (\<exists>cs. sql_text s = ''delete from '' @ quote_ident d c @ '' where '' @ join_with '' and '' cs \<and> cs \<noteq> []
           \<and> list_all2 (\<lambda>f cl. fp_op f \<in> {FoIn, FoNotIn} \<and> filter_list_values (fp_value f) = Some [] \<longrightarrow> cl = ''1 = 0'') fs cs))
   \<and> (\<forall>s. compile_update_plan_to_sql c as fs d = Inr s \<longrightarrow> fs \<noteq> [] \<longrightarrow>
        (\<exists>cs sets. sql_text s = ''update '' @ quote_ident d c @ '' set '' @ sets @ '' where '' @ join_with '' and '' cs
           \<and> list_all2 (\<lambda>f cl. fp_op f \<in> {FoIn, FoNotIn} \<and> filter_list_values (fp_value f) = Some [] \<longrightarrow> cl = ''1 = 0'') fs cs))"
proof (intro conjI allI impI)
  show "\<exists>e. compile_delete_plan_to_sql c [] d = Inl e"
    by (cases "validate_ident c") (simp_all add: compile_delete_plan_to_sql_def)
next
  fix s assume "compile_delete_plan_to_sql c fs d = Inr s"
  then obtain cs ps where "mutation_filters d fs [] = Inr (cs, ps)" "fs \<noteq> []"
    and t: "sql_text s = ''delete from '' @ quote_ident d c @ '' where '' @ join_with '' and '' cs"
    by (auto simp: compile_delete_plan_to_sql_def and_then_Inr_iff split: if_splits)
  with mutation_filters_closed [of d fs "[]" cs ps]
  show "\<exists>cs. sql_text s = ''delete from '' @ quote_ident d c @ '' where '' @ join_with '' and '' cs \<and> cs \<noteq> []
     \<and> list_all2 (\<lambda>f cl. fp_op f \<in> {FoIn, FoNotIn} \<and> filter_list_values (fp_value f) = Some [] \<longrightarrow> cl = ''1 = 0'') fs cs"
    by (intro exI [of _ cs]) (auto simp: lists_nothing_def)
next
  fix s assume s: "compile_update_plan_to_sql c as fs d = Inr s" and fs: "fs \<noteq> []"
  then obtain cols ps0 cs ps where m: "mutation_filters d fs ps0 = Inr (cs, ps)"
    and t: "sql_text s = ''update '' @ quote_ident d c @ '' set '' @ join_with '', '' (map (\<lambda>(column, p). column @ '' = '' @ p) cols)
        @ optional_clause '' where '' '' and '' cs"
    by (auto simp: compile_update_plan_to_sql_def and_then_Inr_iff split: if_splits)
  have "cs \<noteq> []" using m fs compile_filters_length [of _ fs ps0 cs ps] by (auto simp: mutation_filters_def)
  with t mutation_filters_closed [OF m]
  show "\<exists>cs sets. sql_text s = ''update '' @ quote_ident d c @ '' set '' @ sets @ '' where '' @ join_with '' and '' cs
     \<and> list_all2 (\<lambda>f cl. fp_op f \<in> {FoIn, FoNotIn} \<and> filter_list_values (fp_value f) = Some [] \<longrightarrow> cl = ''1 = 0'') fs cs"
    by (auto simp: lists_nothing_def optional_clause_def)
qed

lemma mutation_fails_closed_witness:
  "\<exists>s. compile_delete_plan_to_sql ''users'' [\<lparr> fp_field = ''id'', fp_op = FoNotIn, fp_value = ''vec![]'' \<rparr>] Postgres = Inr s
     \<and> sql_text s = ''delete from '' @ quote_ident Postgres ''users'' @ '' where 1 = 0''"
proof -
  let ?fs = "[\<lparr> fp_field = ''id'', fp_op = FoNotIn, fp_value = ''vec![]'' \<rparr>]"
  have e: "filter_list_values ''vec![]'' = Some []" using list_filter_values [of "[]"] by (simp add: render_expr.simps render_plain)
  then obtain s where s: "compile_delete_plan_to_sql ''users'' ?fs Postgres = Inr s"
    by (simp add: compile_delete_plan_to_sql_def demo_ident mutation_filters_def compile_filter_clause_def
        compile_filter_clause_with_field_def compile_list_filter_def)
  then obtain cs where "sql_text s = ''delete from '' @ quote_ident Postgres ''users'' @ '' where '' @ join_with '' and '' cs"
      "list_all2 (\<lambda>f cl. fp_op f \<in> {FoIn, FoNotIn} \<and> filter_list_values (fp_value f) = Some [] \<longrightarrow> cl = ''1 = 0'') ?fs cs"
    using mutation_fails_closed [of "''users''" Postgres ?fs] by blast
  then have "sql_text s = ''delete from '' @ quote_ident Postgres ''users'' @ '' where 1 = 0''"
    using e by (cases cs) simp_all
  with s show ?thesis by blast
qed

text \<open>The elements of a list filter survive their way through the text of the plan: the text of a
  rendered list literal splits into exactly the rendered elements, whatever strings, brackets and
  commas they contain, when the names in it are identifiers.\<close>

theorem list_filter_items:
  assumes "list_all plain_expr es"
  shows "filter_list_values (fp_value (lower_filter printable \<lparr> qf_field = field, qf_op = FoIn, qf_value = ExList es \<rparr>))
       = Some (map (render_expr printable) es)"
  using list_filter_values [OF assms] by (simp add: lower_filter_def)

lemma list_filter_items_witness:
  "filter_list_values (fp_value (lower_filter (\<lambda>_. True) \<lparr> qf_field = ''id'', qf_op = FoIn,
      qf_value = ExList [ExString ''a, b]'', ExNumber 2] \<rparr>))
    = Some (map (render_expr (\<lambda>_. True)) [ExString ''a, b]'', ExNumber 2])"
  using list_filter_items [of "[ExString ''a, b]'', ExNumber 2]"] by simp

text \<open>Identifiers are checked after trimming but used as they are: the name of a collection with a
  space before it is accepted, and quoted with the space.\<close>

theorem ident_used_untrimmed:
  "compile_insert_plan_to_sql '' users'' [\<lparr> ap_name = ''id'', ap_value = ''1'' \<rparr>] MySql =
     Inr \<lparr> sql_text = ''insert into '' @ [CHR 0x60] @ '' users'' @ [CHR 0x60] @ '' ('' @ [CHR 0x60] @ ''id'' @ [CHR 0x60]
             @ '') values (?)'',
           sql_params = [\<lparr> param_index = 1, param_value = ''1'' \<rparr>] \<rparr>"
proof -
  have "trim '' users'' = ''users''"
    using trim_solid_text(2) [of "''users''"] by (simp add: tame_word scan_simps)
  then have "validate_ident '' users'' = Inr ()" by (simp add: validate_ident_def demo_ident)
  then show ?thesis by (simp add: compile_insert_plan_to_sql_def demo_ident push_sql_param_def)
qed

end
