(* ===== verification/Database_Values.thy ===== *)
theory Database_Values
  imports Runtime_Base Ax_Float Complex_Main
begin

section \<open>Retries and numeric parameters\<close>

text \<open>
  From \<open>axonyx-runtime/src/backend.rs\<close>: the retry loop of database reads and the encoding of a
  decimal text as a PostgreSQL \<open>NUMERIC\<close> parameter. The operation of a read is a function of the
  number of calls made before; the delays the loop sleeps are returned. The last section gives the
  digits on the wire their value.
\<close>

subsection \<open>Retries\<close>

definition is_retryable_database_read_error :: "rt_error \<Rightarrow> bool" where
  "is_retryable_database_read_error e =
     (case e of RtDatabase d \<Rightarrow> dbe_code d \<in> {''db.timeout'', ''db.connection_failed''} | _ \<Rightarrow> False)"

definition saturating_mul_u64 :: "nat \<Rightarrow> nat \<Rightarrow> nat" where
  "saturating_mul_u64 a b = min (2 ^ 64 - 1) (a * b)"

function retry_from :: "database_policy \<Rightarrow> (nat \<Rightarrow> rt_error + 'a) \<Rightarrow> nat \<Rightarrow> (rt_error + 'a) \<times> nat list" where
  "retry_from p operation attempt =
     (case operation attempt of
        Inr v \<Rightarrow> (Inr v, [])
      | Inl e \<Rightarrow>
          if attempt < read_retry_attempts p \<and> is_retryable_database_read_error e
          then (case retry_from p operation (attempt + 1) of
                  (r, delays) \<Rightarrow> (r, saturating_mul_u64 (read_retry_backoff_ms p) (attempt + 1) # delays))
          else (Inl e, []))"
  by pat_completeness auto
termination
  by (relation "measure (\<lambda>(p, operation, attempt). read_retry_attempts p - attempt)") auto

declare retry_from.simps [simp del]

definition retry_database_read :: "database_policy \<Rightarrow> (nat \<Rightarrow> rt_error + 'a) \<Rightarrow> (rt_error + 'a) \<times> nat list" where
  "retry_database_read p operation = retry_from p operation 0"

definition transient :: "rt_error + 'a \<Rightarrow> bool" where
  "transient r = (case r of Inl e \<Rightarrow> is_retryable_database_read_error e | Inr _ \<Rightarrow> False)"

lemma retry_from_spec:
  assumes "attempt \<le> read_retry_attempts p"
  shows "\<exists>k \<ge> attempt. k \<le> read_retry_attempts p
    \<and> retry_from p operation attempt
        = (operation k, map (\<lambda>j. saturating_mul_u64 (read_retry_backoff_ms p) (j + 1)) [attempt..<k])
    \<and> (\<forall>j. attempt \<le> j \<and> j < k \<longrightarrow> transient (operation j))
    \<and> (k = read_retry_attempts p \<or> \<not> transient (operation k))"
  using assms
proof (induction p operation attempt rule: retry_from.induct)
  case (1 p operation attempt)
  show ?case
  proof (cases "attempt < read_retry_attempts p \<and> transient (operation attempt)")
    case True
    then obtain e where e: "operation attempt = Inl e" "is_retryable_database_read_error e"
      by (auto simp: transient_def split: sum.splits)
    from True have "attempt + 1 \<le> read_retry_attempts p" by simp
    from 1(1) [OF e(1) _ this] True e obtain k where k: "attempt + 1 \<le> k" "k \<le> read_retry_attempts p"
      and r: "retry_from p operation (attempt + 1)
        = (operation k, map (\<lambda>j. saturating_mul_u64 (read_retry_backoff_ms p) (j + 1)) [attempt + 1..<k])"
      and t: "\<forall>j. attempt + 1 \<le> j \<and> j < k \<longrightarrow> transient (operation j)"
      and l: "k = read_retry_attempts p \<or> \<not> transient (operation k)" by auto
    have "\<forall>j. attempt \<le> j \<and> j < k \<longrightarrow> transient (operation j)"
      using t True by (metis Suc_eq_plus1 Suc_leI le_neq_implies_less)
    moreover have "[attempt..<k] = attempt # [attempt + 1..<k]" using k by (simp add: upt_conv_Cons)
    ultimately show ?thesis using k r l e True
      by (intro exI [of _ k]) (simp add: retry_from.simps [of p operation attempt])
  next
    case False
    then have "retry_from p operation attempt = (operation attempt, [])"
      by (auto simp: retry_from.simps [of p operation attempt] transient_def split: sum.splits)
    with False 1(2) show ?thesis by (intro exI [of _ attempt]) auto
  qed
qed

text \<open>C23. A database read ends: it makes at most one call more than the configured number of retries,
  which the environment limits to five, retries only timeouts and failed connections, sleeps
  the growing delays in between, and answers with the outcome of its last call.\<close>

theorem retry_terminates:
  assumes "env_database_policy e = Inr p"
  shows "\<exists>k \<le> 5. k \<le> read_retry_attempts p
    \<and> retry_database_read p operation
        = (operation k, map (\<lambda>j. saturating_mul_u64 (read_retry_backoff_ms p) (j + 1)) [0..<k])
    \<and> (\<forall>j < k. transient (operation j))
    \<and> (k = read_retry_attempts p \<or> \<not> transient (operation k))"
proof -
  have "read_retry_attempts p \<le> 5"
    using env_database_policy_bounds [OF assms] by (simp add: max_db_read_retry_attempts_def)
  with retry_from_spec [of 0 p operation] show ?thesis
    unfolding retry_database_read_def by (metis le0 le_trans)
qed

lemma retry_terminates_witness:
  "\<exists>k \<le> 5. retry_database_read \<lparr> query_timeout_ms = 5000, read_retry_attempts = 1, read_retry_backoff_ms = 50,
       sqlite_busy_timeout_ms = 5000 \<rparr> (\<lambda>n. Inl RtNotFound :: rt_error + nat)
     = (Inl RtNotFound, map (\<lambda>j. saturating_mul_u64 50 (j + 1)) [0..<k])"
proof -
  have "env_database_policy \<lparr> env_public = [], env_secret = [] \<rparr> = Inr \<lparr> query_timeout_ms = 5000, read_retry_attempts = 1,
      read_retry_backoff_ms = 50, sqlite_busy_timeout_ms = 5000 \<rparr>"
    by (simp add: env_database_policy_def secret_of_def or_else_def parse_positive_env_value_def
        parse_non_negative_env_value_def max_db_read_retry_attempts_def)
  from retry_terminates [OF this, of "\<lambda>n. Inl RtNotFound :: rt_error + nat"] show ?thesis by auto
qed

subsection \<open>Numeric parameters\<close>

text \<open>\<open>parse_decimal_parts\<close>: sign, digits and the number of digits before the point. \<open>None\<close> is an
  error of the source, or the overflow of the one \<open>i64\<close> addition. The conversions of lengths
  cannot fail on a 64-bit host.\<close>

definition split_once_any :: "char set \<Rightarrow> string \<Rightarrow> (string \<times> string) option" where
  "split_once_any ds s =
     (case dropWhile (\<lambda>c. c \<notin> ds) s of [] \<Rightarrow> None | _ # r \<Rightarrow> Some (takeWhile (\<lambda>c. c \<notin> ds) s, r))"

definition parse_mantissa :: "string \<Rightarrow> (string \<times> string) option" where
  "parse_mantissa mantissa =
     (let parts = split_on (CHR ''.'') mantissa;
          integer = hd parts;
          fraction = (case tl parts of f # _ \<Rightarrow> f | [] \<Rightarrow> []) in
      if integer = [] \<or> 2 < length parts \<or> \<not> list_all is_digit integer \<or> \<not> list_all is_digit fraction then None
      else Some (integer, fraction))"

definition parse_decimal_parts :: "string \<Rightarrow> (bool \<times> string \<times> nat) option" where
  "parse_decimal_parts v = do {
     let (negative, unsigned) = (case strip_prefix ''-'' v of Some r \<Rightarrow> (True, r) | None \<Rightarrow> (False, v));
     (mantissa, exponent) \<leftarrow>
       (case split_once_any {CHR ''e'', CHR ''E''} unsigned of
          None \<Rightarrow> Some (unsigned, 0)
        | Some (m, e) \<Rightarrow> map_option (\<lambda>n. (m, n)) (parse_signed 64 e));
     (integer, fraction) \<leftarrow> parse_mantissa mantissa;
     let digits = integer @ fraction;
     let position = int (length integer) + exponent;
     (if in_i64 position then Some () else None);
     let (digits, point) = (if position < 0 then (replicate (nat (- position)) (CHR ''0'') @ digits, 0) else (digits, nat position));
     Some (negative, digits @ replicate (point - length digits) (CHR ''0''), point) }"

fun digit_groups :: "string \<Rightarrow> nat list" where
  "digit_groups (a # b # c # d # s) = digits_value [a, b, c, d] # digit_groups s"
| "digit_groups _ = []"

fun strip_leading :: "int \<Rightarrow> nat list \<Rightarrow> int \<times> nat list" where
  "strip_leading w (0 # gs) = strip_leading (w - 1) gs"
| "strip_leading w gs = (w, gs)"

definition strip_trailing :: "nat list \<Rightarrow> nat list" where
  "strip_trailing gs = rev (dropWhile (\<lambda>g. g = 0) (rev gs))"

record pg_numeric =
  numeric_weight :: int
  numeric_negative :: bool
  numeric_scale :: nat
  numeric_groups :: "nat list"

definition postgres_decimal :: "string \<Rightarrow> pg_numeric option" where
  "postgres_decimal v = do {
     (negative, digits, point) \<leftarrow> parse_decimal_parts v;
     let scale = length digits - point;
     if 2 ^ 16 \<le> scale then None
     else do {
       let integer_groups = (point + 3) div 4;
       let grouped = replicate (integer_groups * 4 - point) (CHR ''0'') @ digits
             @ replicate ((4 - scale mod 4) mod 4) (CHR ''0'');
       let (weight, groups) = strip_leading (int integer_groups - 1) (digit_groups grouped);
       let groups = strip_trailing groups;
       let weight = (if groups = [] then 0 else weight);
       if 2 ^ 31 \<le> integer_groups \<or> 2 ^ 15 \<le> length groups \<or> weight < - (2 ^ 15) \<or> 2 ^ 15 \<le> weight then None
       else Some \<lparr> numeric_weight = weight, numeric_negative = negative, numeric_scale = scale, numeric_groups = groups \<rparr> } }"

definition be16 :: "nat \<Rightarrow> bytes" where
  "be16 n = [char_of (n div 256), char_of n]"

definition postgres_decimal_to_sql :: "string \<Rightarrow> bytes option" where
  "postgres_decimal_to_sql v = map_option (\<lambda>n.
     be16 (length (numeric_groups n)) @ be16 (nat (numeric_weight n mod 2 ^ 16))
     @ be16 (if numeric_negative n then 0x4000 else 0) @ be16 (numeric_scale n)
     @ concat (map be16 (numeric_groups n))) (postgres_decimal v)"

subsection \<open>The encoded value\<close>

fun groups_value :: "int \<Rightarrow> nat list \<Rightarrow> rat" where
  "groups_value w [] = 0"
| "groups_value w (g # gs) = of_nat g * 10000 powi w + groups_value (w - 1) gs"

definition numeric_value :: "pg_numeric \<Rightarrow> rat" where
  "numeric_value n = (if numeric_negative n then -1 else 1) * groups_value (numeric_weight n) (numeric_groups n)"

lemma groups_value_append: "groups_value w (gs @ hs) = groups_value w gs + groups_value (w - int (length gs)) hs"
  by (induction w gs rule: groups_value.induct) (simp_all add: algebra_simps)

lemma groups_value_zeros: "\<forall>g \<in> set gs. g = 0 \<Longrightarrow> groups_value w gs = 0"
  by (induction w gs rule: groups_value.induct) auto

lemma strip_leading_value: "strip_leading w gs = (w', gs') \<Longrightarrow> groups_value w' gs' = groups_value w gs"
  by (induction w gs rule: strip_leading.induct) auto

lemma strip_trailing_decomp: "\<exists>zs. gs = strip_trailing gs @ zs \<and> (\<forall>g \<in> set zs. g = 0)"
proof (intro exI conjI)
  show "gs = strip_trailing gs @ rev (takeWhile (\<lambda>g. g = 0) (rev gs))"
    unfolding strip_trailing_def by (metis rev_append rev_rev_ident takeWhile_dropWhile_id)
  show "\<forall>g \<in> set (rev (takeWhile (\<lambda>g. g = 0) (rev gs))). g = 0" by (auto dest: set_takeWhileD)
qed

lemma strip_trailing_value: "groups_value w (strip_trailing gs) = groups_value w gs"
proof -
  obtain zs where "gs = strip_trailing gs @ zs" "\<forall>g \<in> set zs. g = 0" using strip_trailing_decomp by blast
  then show ?thesis using groups_value_append [of w "strip_trailing gs" zs] groups_value_zeros by simp
qed

lemma digits_value_append: "digits_value (s @ t) = digits_value s * 10 ^ length t + digits_value t"
proof (induction t rule: rev_induct)
  case (snoc c t)
  have "digits_value (s @ t @ [c]) = digits_value (s @ t) * 10 + (code c - 48)"
    using digits_value_snoc [of "s @ t" c] by simp
  with snoc show ?case by (simp add: digits_value_snoc algebra_simps)
qed (simp add: digits_value_def)

lemma digits_value_zeros: "digits_value (replicate n (CHR ''0'')) = 0"
  by (induction n) (simp_all add: digits_value_def code_def)

lemma digit_groups_value:
  "length s = 4 * k \<Longrightarrow> groups_value w (digit_groups s) = of_nat (digits_value s) * 10000 powi (w - int k + 1)"
proof (induction s arbitrary: k w rule: digit_groups.induct)
  case (1 a b c d s)
  then obtain k' where k: "k = Suc k'" "length s = 4 * k'" by (cases k) auto
  have "digits_value (a # b # c # d # s) = digits_value [a, b, c, d] * 10 ^ length s + digits_value s"
    using digits_value_append [of "[a, b, c, d]" s] by simp
  moreover have "(10 :: rat) ^ length s = 10000 powi int k'"
    by (simp add: k power_mult power_int_def)
  moreover have "(10000 :: rat) powi int k' * 10000 powi (w - int k') = 10000 powi w"
    using power_int_add [of "10000 :: rat" "int k'" "w - int k'"] by simp
  ultimately show ?case using 1(1) [OF k(2), of "w - 1"] k(1)
    by (simp add: algebra_simps)
next
  case "2_2"
  then show ?case by (cases k) simp_all
next
  case "2_3"
  then show ?case by (cases k) simp_all
next
  case "2_4"
  then show ?case by (cases k) simp_all
qed (simp add: digits_value_def)

lemma pad_to_four: "\<exists>q. a + (4 - a mod 4) mod 4 = 4 * (q :: nat)"
proof -
  obtain b r where a: "a = 4 * b + r" "r < 4" by (metis div_mod_decomp mod_less_divisor mult.commute zero_less_numeral)
  then have "a mod 4 = r" by simp
  moreover have "r = 0 \<or> r = 1 \<or> r = 2 \<or> r = 3" using a(2) by linarith
  ultimately have "a + (4 - a mod 4) mod 4 = 4 * b \<or> a + (4 - a mod 4) mod 4 = 4 * (b + 1)"
    using a(1) by auto
  then show ?thesis by blast
qed

lemma whole_groups: "(a + 3) div 4 * 4 - a + a = 4 * ((a + 3) div 4 :: nat)"
  by (simp add: le_div_geq)

text \<open>The text of a decimal, read as a rational.\<close>

definition decimal_value :: "bool \<Rightarrow> string \<Rightarrow> string \<Rightarrow> int \<Rightarrow> rat" where
  "decimal_value negative integer fraction exponent =
     (if negative then -1 else 1) * of_nat (digits_value (integer @ fraction)) * 10 powi (exponent - int (length fraction))"

lemma ten_shift: "a + r = 4 * q \<Longrightarrow> (10 :: rat) ^ r * 10000 powi (- int q) = 10 powi (- int a)"
proof -
  assume a: "a + r = 4 * q"
  have "(10000 :: rat) powi int q = 10 ^ (4 * q)" by (simp add: power_mult power_int_def)
  also have "\<dots> = 10 ^ a * 10 ^ r" by (simp add: power_add [symmetric] a)
  finally show ?thesis by (simp add: power_int_minus field_simps)
qed

lemma strip_leading_set: "strip_leading w gs = (w', gs') \<Longrightarrow> set gs' \<subseteq> set gs"
  by (induction w gs rule: strip_leading.induct) auto

lemma strip_trailing_set: "set (strip_trailing gs) \<subseteq> set gs"
  by (auto simp: strip_trailing_def dest: set_dropWhileD)

lemma digits_value_less: "list_all is_digit s \<Longrightarrow> digits_value s < 10 ^ length s"
proof (induction s rule: rev_induct)
  case (snoc c s)
  then have "digits_value s + 1 \<le> 10 ^ length s" "code c - 48 \<le> 9" by (auto simp: is_digit_def)
  then have "digits_value s * 10 + (code c - 48) < 10 * 10 ^ length s" by linarith
  then show ?case by (simp add: digits_value_snoc)
qed (simp add: digits_value_def)

lemma digit_groups_less: "list_all is_digit s \<Longrightarrow> \<forall>g \<in> set (digit_groups s). g < 10000"
  proof (induction s rule: digit_groups.induct)
  case (1 a b c d s)
  then show ?case using digits_value_less [of "[a, b, c, d]"] by simp
qed simp_all

lemma postgres_decimal_parts:
  assumes "parse_decimal_parts v = Some (negative, digits, point)" and "list_all is_digit digits"
  shows "point \<le> length digits \<Longrightarrow> postgres_decimal v = Some n \<Longrightarrow>
    numeric_value n = (if negative then -1 else 1) * of_nat (digits_value digits) * 10 powi (int point - int (length digits))
    \<and> numeric_scale n = length digits - point \<and> (\<forall>g \<in> set (numeric_groups n). g < 10000)"
proof -
  assume p: "point \<le> length digits" and n: "postgres_decimal v = Some n"
  let ?scale = "length digits - point" and ?ig = "(point + 3) div 4" and ?rp = "(4 - (length digits - point) mod 4) mod 4"
  let ?grouped = "replicate (?ig * 4 - point) (CHR ''0'') @ digits @ replicate ?rp (CHR ''0'')"
  obtain w gs where st: "strip_leading (int ?ig - 1) (digit_groups ?grouped) = (w, gs)" by force
  from n assms st have nv: "numeric_negative n = negative" "numeric_scale n = ?scale"
      "numeric_groups n = strip_trailing gs" "numeric_weight n = (if strip_trailing gs = [] then 0 else w)"
    by (auto simp: postgres_decimal_def Let_def split: if_splits)
  obtain q where q: "?scale + ?rp = 4 * q" using pad_to_four by blast
  have ip: "?ig * 4 - point + point = 4 * ?ig" by (rule whole_groups)
  have "length ?grouped = (?ig * 4 - point + point) + (?scale + ?rp)"
    using p by (simp only: length_append length_replicate) linarith
  then have len: "length ?grouped = 4 * (?ig + q)" unfolding ip q by simp
  have "groups_value (numeric_weight n) (numeric_groups n) = groups_value w (strip_trailing gs)"
    using nv by (cases "strip_trailing gs") simp_all
  also have "\<dots> = groups_value (int ?ig - 1) (digit_groups ?grouped)"
    using strip_leading_value [OF st] by (simp add: strip_trailing_value)
  also have "\<dots> = of_nat (digits_value ?grouped) * 10000 powi (int ?ig - 1 - int (?ig + q) + 1)"
    by (rule digit_groups_value [OF len])
  also have "digits_value ?grouped = digits_value digits * 10 ^ ?rp"
    by (simp only: digits_value_append digits_value_zeros) simp
  also have "int ?ig - 1 - int (?ig + q) + 1 = - int q" by simp
  also have "(of_nat (digits_value digits * 10 ^ ?rp) :: rat) * 10000 powi (- int q) = of_nat (digits_value digits) * 10 powi (- int ?scale)"
    by (simp add: ten_shift [OF q])
  finally have "groups_value (numeric_weight n) (numeric_groups n) = of_nat (digits_value digits) * 10 powi (- int ?scale)" .
  moreover have "list_all is_digit ?grouped"
    using assms(2) by (auto simp: list_all_iff is_digit_def code_def)
  then have "\<forall>g \<in> set (digit_groups ?grouped). g < 10000" by (rule digit_groups_less)
  then have "\<forall>g \<in> set (numeric_groups n). g < 10000"
    using subset_trans [OF strip_trailing_set strip_leading_set [OF st]] unfolding nv(3) by blast
  ultimately show ?thesis using nv p by (simp add: numeric_value_def of_nat_diff)
qed


definition decimal_text :: "bool \<Rightarrow> string \<Rightarrow> string \<Rightarrow> int \<Rightarrow> string \<Rightarrow> bool" where
  "decimal_text negative integer fraction exponent v =
     (integer \<noteq> [] \<and> list_all is_digit integer \<and> list_all is_digit fraction
      \<and> (\<exists>dot e. v = (if negative then ''-'' else []) @ integer @ dot @ e
           \<and> (dot = [] \<and> fraction = [] \<or> dot = CHR ''.'' # fraction)
           \<and> (e = [] \<and> exponent = 0 \<or> (\<exists>c es. e = c # es \<and> c \<in> {CHR ''e'', CHR ''E''} \<and> parse_signed 64 es = Some exponent))))"

lemma split_once_any_Some:
  "split_once_any ds s = Some (a, b) \<Longrightarrow> \<exists>c \<in> ds. s = a @ c # b"
  unfolding split_once_any_def
  by (auto split: list.splits) (metis (mono_tags, lifting) dropWhile_eq_Cons_conv takeWhile_dropWhile_id)

lemma split_on_two:
  "split_on d s = [a] \<Longrightarrow> s = a" "split_on d s = [a, b] \<Longrightarrow> s = a @ d # b"
proof -
  show "s = a" if "split_on d s = [a]"
  proof (cases "d \<in> set s")
    case True
    then obtain x y where "s = x @ d # y" "d \<notin> set x" by (metis split_list_first)
    with that show ?thesis by (simp add: split_on_append)
  qed (use that split_on_absent in force)
  show "s = a @ d # b" if ab: "split_on d s = [a, b]"
  proof (cases "d \<in> set s")
    case True
    then obtain x y where xy: "s = x @ d # y" "d \<notin> set x" by (metis split_list_first)
    with ab have *: "a = x" "split_on d y = [b]" by (simp_all add: split_on_append)
    have "y = b"
    proof (cases "d \<in> set y")
      case True
      then obtain u v where "y = u @ d # v" "d \<notin> set u" by (metis split_list_first)
      with * show ?thesis by (simp add: split_on_append)
    qed (use * split_on_absent in force)
    with xy * show ?thesis by simp
  qed (use ab split_on_absent in force)
qed

lemma parse_mantissa_Some:
  assumes "parse_mantissa m = Some (integer, fraction)"
  shows "integer \<noteq> [] \<and> list_all is_digit integer \<and> list_all is_digit fraction
    \<and> (m = integer \<and> fraction = [] \<or> m = integer @ CHR ''.'' # fraction)"
proof -
  consider p where "split_on (CHR ''.'') m = [p]" | p q where "split_on (CHR ''.'') m = [p, q]"
    | p q r rs where "split_on (CHR ''.'') m = p # q # r # rs"
    by (metis list.exhaust split_on_not_Nil)
  then show ?thesis
  proof cases
    case 1
    with assms split_on_two(1) [OF 1] show ?thesis by (auto simp: parse_mantissa_def Let_def split: if_splits)
  next
    case 2
    with assms split_on_two(2) [OF 2] show ?thesis by (auto simp: parse_mantissa_def Let_def split: if_splits)
  next
    case 3
    with assms show ?thesis by (simp add: parse_mantissa_def Let_def)
  qed
qed


lemma shifted_digits:
  fixes integer fraction :: string and exponent :: int
  defines "d \<equiv> integer @ fraction" and "position \<equiv> int (length integer) + exponent"
  defines "d' \<equiv> (if position < 0 then replicate (nat (- position)) (CHR ''0'') @ d else d)"
  defines "digits \<equiv> d' @ replicate (nat position - length d') (CHR ''0'')"
  shows "nat position \<le> length digits"
    and "list_all is_digit d \<Longrightarrow> list_all is_digit digits"
    and "of_nat (digits_value digits) * (10 :: rat) powi (int (nat position) - int (length digits))
      = of_nat (digits_value d) * 10 powi (exponent - int (length fraction))"
proof -
  show "nat position \<le> length digits" by (simp add: digits_def)
  show "list_all is_digit d \<Longrightarrow> list_all is_digit digits"
    by (auto simp: digits_def d'_def list_all_iff is_digit_def code_def)
  have d: "int (length d) = int (length integer) + int (length fraction)" by (simp add: d_def)
  show "of_nat (digits_value digits) * (10 :: rat) powi (int (nat position) - int (length digits))
      = of_nat (digits_value d) * 10 powi (exponent - int (length fraction))"
  proof (cases "position < 0")
    case True
    then have "digits = replicate (nat (- position)) (CHR ''0'') @ d" by (simp add: digits_def d'_def)
    moreover from this have "int (nat position) - int (length digits) = exponent - int (length fraction)"
      using True d by (simp add: position_def)
    ultimately show ?thesis by (simp add: digits_value_append digits_value_zeros)
  next
    case False
    let ?k = "nat position - length d"
    have ds: "digits = d @ replicate ?k (CHR ''0'')" using False by (simp add: digits_def d'_def)
    have e: "exponent - int (length fraction) = int ?k + (int (nat position) - int (length digits))"
      using False d by (simp add: ds position_def)
    have "(10 :: rat) ^ ?k * 10 powi (int (nat position) - int (length digits)) = 10 powi (exponent - int (length fraction))"
      unfolding e using power_int_add [of "10 :: rat" "int ?k"] by simp
    then show ?thesis by (simp add: ds digits_value_append digits_value_zeros)
  qed
qed

lemma strip_leading_hd: "strip_leading w gs = (w', gs') \<Longrightarrow> gs' = [] \<or> hd gs' \<noteq> 0"
  by (induction w gs rule: strip_leading.induct) auto

lemma strip_trailing_ends:
  "gs = [] \<or> hd gs \<noteq> 0 \<Longrightarrow> strip_trailing gs = [] \<or> hd (strip_trailing gs) \<noteq> 0 \<and> last (strip_trailing gs) \<noteq> 0"
proof (cases "strip_trailing gs")
  case (Cons g hs)
  assume "gs = [] \<or> hd gs \<noteq> 0"
  moreover obtain zs where "gs = strip_trailing gs @ zs" using strip_trailing_decomp by blast
  ultimately have "hd (strip_trailing gs) \<noteq> 0" using Cons by (metis append_Cons append_is_Nil_conv list.distinct(1) list.sel(1))
  moreover have "last (strip_trailing gs) \<noteq> 0"
  proof -
    from Cons have "dropWhile (\<lambda>g. g = 0) (rev gs) \<noteq> []" by (auto simp: strip_trailing_def)
    then show ?thesis using hd_dropWhile [of "\<lambda>g. g = 0" "rev gs"] by (simp add: strip_trailing_def last_rev)
  qed
  ultimately show ?thesis by simp
qed simp

lemma postgres_decimal_trimmed:
  "postgres_decimal v = Some n \<Longrightarrow> numeric_groups n = [] \<or> hd (numeric_groups n) \<noteq> 0 \<and> last (numeric_groups n) \<noteq> 0"
  by (auto simp: postgres_decimal_def Let_def bind_eq_Some_conv split: prod.splits if_splits
      dest!: strip_leading_hd strip_trailing_ends)

lemma parse_decimal_parts_Some:
  assumes "parse_decimal_parts v = Some (negative, digits, point)"
  shows "point \<le> length digits \<and> list_all is_digit digits \<and> (\<exists>integer fraction exponent.
    decimal_text negative integer fraction exponent v
    \<and> of_nat (digits_value digits) * (10 :: rat) powi (int point - int (length digits))
      = of_nat (digits_value (integer @ fraction)) * 10 powi (exponent - int (length fraction)))"
proof -
  define unsigned where "unsigned = (case strip_prefix ''-'' v of Some r \<Rightarrow> r | None \<Rightarrow> v)"
  obtain m exponent integer fraction where
      ne: "negative = (strip_prefix ''-'' v \<noteq> None)"
    and me: "(case split_once_any {CHR ''e'', CHR ''E''} unsigned of None \<Rightarrow> Some (unsigned, 0)
        | Some (m, e) \<Rightarrow> map_option (\<lambda>n. (m, n)) (parse_signed 64 e)) = Some (m, exponent)"
    and ma: "parse_mantissa m = Some (integer, fraction)"
    and dg: "digits = (let d = integer @ fraction; position = int (length integer) + exponent;
          d' = (if position < 0 then replicate (nat (- position)) (CHR ''0'') @ d else d)
        in d' @ replicate (nat position - length d') (CHR ''0''))"
    and po: "point = nat (int (length integer) + exponent)"
    using assms unfolding parse_decimal_parts_def unsigned_def
    by (auto simp: Let_def bind_eq_Some_conv split: option.splits if_splits)
  have v: "v = (if negative then ''-'' else []) @ unsigned"
    by (auto simp: ne unsigned_def strip_prefix_Some split: option.splits)
  obtain dot where dot: "m = integer @ dot" "dot = [] \<and> fraction = [] \<or> dot = CHR ''.'' # fraction"
    using parse_mantissa_Some [OF ma] by auto
  have un: "\<exists>e. unsigned = m @ e \<and> (e = [] \<and> exponent = 0
      \<or> (\<exists>c es. e = c # es \<and> c \<in> {CHR ''e'', CHR ''E''} \<and> parse_signed 64 es = Some exponent))"
    using me by (auto split: option.splits dest!: split_once_any_Some)
  have "decimal_text negative integer fraction exponent v"
    unfolding decimal_text_def v using un parse_mantissa_Some [OF ma] dot by (metis append.assoc)
  moreover have "list_all is_digit (integer @ fraction)" using parse_mantissa_Some [OF ma] by simp
  ultimately show ?thesis
    using shifted_digits [where integer = integer and fraction = fraction and exponent = exponent] unfolding dg po Let_def by blast
qed

lemma postgres_decimal_counts:
  "postgres_decimal v = Some n \<Longrightarrow> length (numeric_groups n) < 2 ^ 15 \<and> numeric_scale n < 2 ^ 16
    \<and> - (2 ^ 15) \<le> numeric_weight n \<and> numeric_weight n < 2 ^ 15"
  by (auto simp: postgres_decimal_def Let_def bind_eq_Some_conv split: prod.splits if_splits)

text \<open>A text accepted as a \<open>NUMERIC\<close> parameter is a decimal, and the base-10000 digits sent to the
  server have exactly its value: each is below 10000, neither the first nor the last is zero, and
  the counts fit the sixteen bits of the wire format.\<close>

theorem postgres_numeric_exact:
  assumes "postgres_decimal v = Some n"
  shows "(\<exists>negative integer fraction exponent.
      decimal_text negative integer fraction exponent v
      \<and> numeric_value n = decimal_value negative integer fraction exponent)
    \<and> (\<forall>g \<in> set (numeric_groups n). g < 10000)
    \<and> (numeric_groups n = [] \<or> hd (numeric_groups n) \<noteq> 0 \<and> last (numeric_groups n) \<noteq> 0)
    \<and> length (numeric_groups n) < 2 ^ 15 \<and> numeric_scale n < 2 ^ 16
    \<and> - (2 ^ 15) \<le> numeric_weight n \<and> numeric_weight n < 2 ^ 15"
proof -
  obtain negative digits point where p: "parse_decimal_parts v = Some (negative, digits, point)"
    using assms by (auto simp: postgres_decimal_def bind_eq_Some_conv)
  note parts = parse_decimal_parts_Some [OF p]
  note value_parts = postgres_decimal_parts [OF p conjunct1 [OF conjunct2 [OF parts]] conjunct1 [OF parts] assms]
  from parts value_parts have "\<exists>negative integer fraction exponent.
      decimal_text negative integer fraction exponent v
      \<and> numeric_value n = decimal_value negative integer fraction exponent"
    by (fastforce simp: decimal_value_def mult.assoc)
  with value_parts postgres_decimal_trimmed [OF assms] postgres_decimal_counts [OF assms] show ?thesis by blast
qed

lemma postgres_numeric_exact_witness:
  "postgres_decimal ''-12.5'' = Some \<lparr> numeric_weight = 0, numeric_negative = True, numeric_scale = 1, numeric_groups = [12, 5000] \<rparr>
   \<and> (\<exists>negative integer fraction exponent. decimal_text negative integer fraction exponent ''-12.5''
        \<and> numeric_value \<lparr> numeric_weight = 0, numeric_negative = True, numeric_scale = 1, numeric_groups = [12, 5000] \<rparr>
            = decimal_value negative integer fraction exponent)"
proof -
  have "postgres_decimal ''-12.5'' = Some \<lparr> numeric_weight = 0, numeric_negative = True, numeric_scale = 1, numeric_groups = [12, 5000] \<rparr>"
  proof -
    have "parse_decimal_parts ''-12.5'' = Some (True, ''125'', 2)"
      by (simp add: parse_decimal_parts_def split_once_any_def parse_mantissa_def is_digit_def code_def in_i64_def)
    moreover have "replicate 2 z = [z, z]" "replicate 3 z = [z, z, z]" for z :: char
      by (simp_all add: numeral_2_eq_2 numeral_3_eq_3)
    moreover have "strip_leading 0 [12, 5000] = (0, [12, 5000])" by code_simp
    ultimately show ?thesis
      by (simp add: postgres_decimal_def strip_trailing_def digits_value_def code_def)
  qed
  from this postgres_numeric_exact [OF this] show ?thesis by blast
qed

end
