(* ===== verification/Sql_Guards.thy ===== *)
theory Sql_Guards
  imports Http
begin

section \<open>Guards on SQL texts\<close>

text \<open>
  The three checks of \<open>axonyx-runtime/src/backend.rs\<close> that read SQL as text: migrations must not
  manage transactions (\<open>migration_statement_prefixes\<close>), \<open>db.query\<close> takes one reading statement
  (\<open>analyze_raw_sql\<close>), and the TLS settings of a PostgreSQL URL. The two scanners are total
  functions on the remaining bytes; a theorem relates each to a grammar of SQL tokens.
\<close>

subsection \<open>Statement prefixes of a migration\<close>

definition ascii_space :: "char \<Rightarrow> bool" where
  "ascii_space c = (code c \<in> {9, 10, 12, 13, 32})"

definition word_start :: "char \<Rightarrow> bool" where
  "word_start c = (65 \<le> code c \<and> code c \<le> 90 \<or> 97 \<le> code c \<and> code c \<le> 122 \<or> c = CHR ''_'')"

definition word_char :: "char \<Rightarrow> bool" where
  "word_char c = (is_alphanumeric c \<or> c = CHR ''_'')"

definition skip_line :: "bytes \<Rightarrow> bytes" where
  "skip_line s = dropWhile (\<lambda>c. c \<noteq> CHR 0x0A) s"

fun skip_block :: "nat \<Rightarrow> bytes \<Rightarrow> bytes" where
  "skip_block 0 s = s"
| "skip_block (Suc d) (a # b # s) =
     (if a = CHR ''/'' \<and> b = CHR ''*'' then skip_block (Suc (Suc d)) s
      else if a = CHR ''*'' \<and> b = CHR ''/'' then skip_block d s
      else skip_block (Suc d) (b # s))"
| "skip_block (Suc d) _ = []"

fun skip_quoted :: "char \<Rightarrow> bytes \<Rightarrow> bytes" where
  "skip_quoted q (c # d # s) =
     (if c = q then (if d = q then skip_quoted q s else d # s) else skip_quoted q (d # s))"
| "skip_quoted q _ = []"

definition skip_dollar :: "bytes \<Rightarrow> bytes option" where
  "skip_dollar s = do {
     (tag, body) \<leftarrow> split_once (CHR ''$'') s;
     (if list_all word_char tag then Some () else None);
     (_, rest) \<leftarrow> split_once_str (CHR ''$'' # tag @ ''$'') body;
     Some rest }"

lemma length_skip_line: "length (skip_line s) \<le> length s"
  unfolding skip_line_def by (rule length_dropWhile_le)

lemma length_skip_block: "length (skip_block d s) \<le> length s"
proof (induction d s rule: skip_block.induct)
  case (2 d a b s)
  then show ?case by (simp add: le_SucI)
qed simp_all

lemma length_skip_quoted: "length (skip_quoted q s) \<le> length s"
  by (induction q s rule: skip_quoted.induct) (simp_all add: le_SucI)

lemma length_skip_dollar: "skip_dollar s = Some r \<Longrightarrow> length r < length s"
  by (auto simp: skip_dollar_def bind_eq_Some_conv split_once_Some split: if_splits dest!: split_once_str_Some)

lemma length_tail_skip: "length (skip_line (tl s)) \<le> length s" "length (skip_block d (tl s)) \<le> length s"
  using length_skip_line [of "tl s"] length_skip_block [of d "tl s"] by simp_all

function statement_prefixes :: "string list \<Rightarrow> bytes \<Rightarrow> string list list" where
  "statement_prefixes kws [] = (if kws = [] then [] else [kws])"
| "statement_prefixes kws (c # s) =
     (if ascii_space c then statement_prefixes kws s
      else if starts_with ''--'' (c # s) then statement_prefixes kws (skip_line (tl s))
      else if starts_with ''/*'' (c # s) then statement_prefixes kws (skip_block 1 (tl s))
      else if c = CHR 0x27 \<or> c = CHR 0x22 then statement_prefixes kws (skip_quoted c s)
      else case (if c = CHR ''$'' then skip_dollar s else None) of
        Some r \<Rightarrow> statement_prefixes kws r
      | None \<Rightarrow>
          if c = CHR '';'' then (if kws = [] then statement_prefixes [] s else kws # statement_prefixes [] s)
          else if word_start c then
            statement_prefixes (if length kws < 2 then kws @ [to_lower (c # takeWhile word_char s)] else kws)
              (dropWhile word_char s)
          else statement_prefixes kws s)"
  by pat_completeness auto
termination
  by (relation "measure (\<lambda>(kws, s). length s)")
    (auto simp: le_imp_less_Suc length_dropWhile_le length_tail_skip length_skip_quoted split: if_splits dest: length_skip_dollar)

declare statement_prefixes.simps(2) [simp del]

definition migration_statement_prefixes :: "string \<Rightarrow> string list list" where
  "migration_statement_prefixes sql = statement_prefixes [] sql"

definition executable_line :: "string \<Rightarrow> bool" where
  "executable_line line = (trim (case split_once_str ''--'' line of Some (c, _) \<Rightarrow> c | None \<Rightarrow> line) \<noteq> [])"

definition migration_sql_has_executable_statement :: "string \<Rightarrow> bool" where
  "migration_sql_has_executable_statement sql = list_ex executable_line (str_lines sql)"

definition migrations_resource :: string where
  "migrations_resource = ''_axonyx_migrations''"

definition migration_error :: "db_error_code \<Rightarrow> string \<Rightarrow> string \<Rightarrow> rt_error" where
  "migration_error c version detail = RtDatabase ((db_error_new c)\<lparr> dbe_resource := Some migrations_resource,
     dbe_field := Some version, dbe_detail := Some detail \<rparr>)"

definition controls_transaction :: "string list \<Rightarrow> bool" where
  "controls_transaction kws =
     (let first = (case kws of a # _ \<Rightarrow> a | [] \<Rightarrow> []); second = (case kws of _ # b # _ \<Rightarrow> b | _ \<Rightarrow> []) in
      first \<in> {''begin'', ''commit'', ''rollback'', ''savepoint'', ''release'', ''abort''}
      \<or> first = ''start'' \<and> second = ''transaction'' \<or> first = ''set'' \<and> second = ''transaction'')"

definition reject_migration_transaction_control :: "string \<Rightarrow> string \<Rightarrow> rt_error + unit" where
  "reject_migration_transaction_control version sql =
     (if list_ex controls_transaction (migration_statement_prefixes sql)
      then Inl (migration_error DbInvalidQuery version ''migration SQL must not manage transactions directly'')
      else Inr ())"

record ax_migration =
  mig_version :: string
  mig_name :: string
  mig_checksum :: string
  mig_up :: string
  mig_down :: string

definition validate_migration :: "ax_migration \<Rightarrow> rt_error + unit" where
  "validate_migration m =
     (let valid_version = (mig_version m \<noteq> [] \<and> list_all (\<lambda>c. is_digit c \<or> c = CHR ''_'' \<or> c = CHR ''-'') (mig_version m));
          valid_name = (mig_name m \<noteq> [] \<and> list_all (\<lambda>c. is_alphanumeric c \<or> c = CHR ''_'' \<or> c = CHR ''-'') (mig_name m));
          valid_checksum = (length (mig_checksum m) = 64 \<and> list_all (\<lambda>c. hex_value c \<noteq> None) (mig_checksum m)) in
      if \<not> valid_version \<or> \<not> valid_name \<or> \<not> valid_checksum
      then Inl (migration_error DbInvalidQuery (mig_version m) ''migration version, name, or SHA-256 checksum is invalid'')
      else if \<not> migration_sql_has_executable_statement (mig_up m) \<or> \<not> migration_sql_has_executable_statement (mig_down m)
      then Inl (migration_error DbInvalidQuery (mig_version m) ''migration requires non-empty up.sql and down.sql'')
      else and_then (reject_migration_transaction_control (mig_version m) (mig_up m)) (\<lambda>_.
        reject_migration_transaction_control (mig_version m) (mig_down m)))"

subsection \<open>Raw queries\<close>

record raw_sql_analysis =
  top_level_words :: "string list"
  statement_separators :: nat

fun raw_skip_quoted :: "char \<Rightarrow> bytes \<Rightarrow> bytes" where
  "raw_skip_quoted q (c # d # s) =
     (if c = q then (if d = q then raw_skip_quoted q s else d # s)
      else if c = CHR 0x5C then raw_skip_quoted q s
      else raw_skip_quoted q (d # s))"
| "raw_skip_quoted q _ = []"

definition raw_skip_block :: "bytes \<Rightarrow> bytes" where
  "raw_skip_block s = (case split_once_str ''*/'' s of Some (_, r) \<Rightarrow> r | None \<Rightarrow> [])"

lemma length_raw_skip_quoted: "length (raw_skip_quoted q s) \<le> length s"
  by (induction q s rule: raw_skip_quoted.induct) (simp_all add: le_SucI)

lemma length_raw_skip_block: "length (raw_skip_block (tl s)) \<le> length s"
  unfolding raw_skip_block_def by (cases s) (auto split: option.splits dest!: split_once_str_Some)

definition more_statements :: "bytes \<Rightarrow> bool" where
  "more_statements s = list_ex (\<lambda>ch. \<not> is_whitespace ch \<and> ch \<noteq> code (CHR '';'')) (chars s)"

definition add_word :: "string \<Rightarrow> raw_sql_analysis \<Rightarrow> raw_sql_analysis" where
  "add_word w a = a\<lparr> top_level_words := w # top_level_words a \<rparr>"

definition add_separator :: "raw_sql_analysis \<Rightarrow> raw_sql_analysis" where
  "add_separator a = a\<lparr> statement_separators := Suc (statement_separators a) \<rparr>"

function analyze_from :: "nat \<Rightarrow> bytes \<Rightarrow> raw_sql_analysis" where
  "analyze_from depth [] = \<lparr> top_level_words = [], statement_separators = 0 \<rparr>"
| "analyze_from depth (c # s) =
     (if c = CHR 0x27 \<or> c = CHR 0x22 \<or> c = CHR 0x60 then analyze_from depth (raw_skip_quoted c s)
      else if starts_with ''--'' (c # s) then analyze_from depth (skip_line (tl s))
      else if starts_with ''/*'' (c # s) then analyze_from depth (raw_skip_block (tl s))
      else if c = CHR ''('' then analyze_from (depth + 1) s
      else if c = CHR '')'' then analyze_from (depth - 1) s
      else if c = CHR '';'' \<and> depth = 0 then
        (if more_statements s then add_separator (analyze_from depth s) else analyze_from depth s)
      else if depth = 0 \<and> word_start c then
        add_word (to_lower (c # takeWhile word_char s)) (analyze_from depth (dropWhile word_char s))
      else analyze_from depth s)"
  by pat_completeness auto
termination
  by (relation "measure (\<lambda>(depth, s). length s)")
    (auto simp: le_imp_less_Suc length_dropWhile_le length_tail_skip length_raw_skip_quoted length_raw_skip_block)

declare analyze_from.simps(2) [simp del]

definition analyze_raw_sql :: "string \<Rightarrow> raw_sql_analysis" where
  "analyze_raw_sql sql = analyze_from 0 sql"

definition validate_raw_select_sql :: "database_driver \<Rightarrow> string \<Rightarrow> rt_error + unit" where
  "validate_raw_select_sql driver sql =
     (let a = analyze_raw_sql (trim sql);
          is_select = (find (\<lambda>w. w \<in> {''select'', ''insert'', ''update'', ''delete'', ''replace''}) (top_level_words a) = Some ''select'');
          has_multiple_statements = (0 < statement_separators a) in
      if \<not> is_select \<or> has_multiple_statements
      then Inl (RtDatabase (db_invalid_query driver ''raw_sql'' ''db.query only supports a single SELECT/WITH statement''))
      else Inr ())"

definition postgres_json_query :: "string \<Rightarrow> string" where
  "postgres_json_query sql =
     ''select row_to_json('' @ [CHR 0x22] @ ''__ax_row'' @ [CHR 0x22] @ '') from (''
     @ trim (rev (dropWhile (\<lambda>c. c = CHR '';'') (rev (trim sql)))) @ '') as '' @ [CHR 0x22] @ ''__ax_row'' @ [CHR 0x22]"

subsection \<open>TLS settings of a connection URL\<close>

datatype postgres_tls_mode = TlsDisable | TlsRequire | TlsVerifyFull

definition postgres_connection_config_error :: "string \<Rightarrow> string \<Rightarrow> rt_error" where
  "postgres_connection_config_error resource detail = RtDatabase ((db_error_new DbConnectionFailed)
     \<lparr> dbe_driver := Some (driver_str DriverPostgres), dbe_resource := Some resource, dbe_detail := Some detail \<rparr>)"

text \<open>\<open>u8::from_str_radix\<close> on two bytes also takes a plus sign and one digit.\<close>

definition radix16 :: "char \<Rightarrow> char \<Rightarrow> char option" where
  "radix16 a b = (if a = CHR ''+'' then map_option char_of (hex_value b)
     else do { h \<leftarrow> hex_value a; l \<leftarrow> hex_value b; Some (char_of (16 * h + l)) })"

fun percent_decode_bytes :: "bytes \<Rightarrow> bytes option" where
  "percent_decode_bytes [] = Some []"
| "percent_decode_bytes (c # s) =
     (if c = CHR ''%'' then
        (case s of a # b # r \<Rightarrow> do { x \<leftarrow> radix16 a b; d \<leftarrow> percent_decode_bytes r; Some (x # d) } | _ \<Rightarrow> None)
      else map_option ((#) c) (percent_decode_bytes s))"

definition postgres_percent_decode :: "string \<Rightarrow> string \<Rightarrow> rt_error + string" where
  "postgres_percent_decode v resource =
     (case percent_decode_bytes v of
        None \<Rightarrow> Inl (postgres_connection_config_error resource ''invalid percent encoding in postgres sslrootcert'')
      | Some d \<Rightarrow> if utf8_ok d then Inr d
          else Inl (postgres_connection_config_error resource ''postgres sslrootcert is not valid UTF-8''))"

definition parse_sslmode :: "string \<Rightarrow> string \<Rightarrow> rt_error + postgres_tls_mode" where
  "parse_sslmode resource v =
     (if v = ''disable'' then Inr TlsDisable
      else if v = ''require'' then Inr TlsRequire
      else if v = ''verify-full'' then Inr TlsVerifyFull
      else if v = ''prefer'' \<or> v = ''allow'' then Inl (postgres_connection_config_error resource
        ''sslmode=prefer/allow can fall back to plaintext; use disable, require, or verify-full'')
      else Inl (postgres_connection_config_error resource (''unsupported postgres sslmode `'' @ v @ ''`'')))"

definition key_value :: "string \<Rightarrow> string \<times> string" where
  "key_value part = (case split_once (CHR ''='') part of Some kv \<Rightarrow> kv | None \<Rightarrow> (part, []))"

fun tls_parts :: "string \<Rightarrow> string list \<Rightarrow> postgres_tls_mode \<times> string option \<times> string list
    \<Rightarrow> rt_error + postgres_tls_mode \<times> string option \<times> string list" where
  "tls_parts resource [] st = Inr st"
| "tls_parts resource (part # parts) (mode, root_cert, retained) =
     (case key_value part of (key, v) \<Rightarrow>
        if key = ''sslmode'' then
          and_then (parse_sslmode resource v) (\<lambda>mode'. tls_parts resource parts (mode', root_cert, retained))
        else if key = ''sslrootcert'' then
          and_then (postgres_percent_decode v resource) (\<lambda>path. tls_parts resource parts (mode, Some path, retained))
        else tls_parts resource parts (mode, root_cert, retained @ [part]))"

definition postgres_tls_settings :: "string \<Rightarrow> string \<Rightarrow> rt_error + string \<times> postgres_tls_mode \<times> string option" where
  "postgres_tls_settings url resource =
     (let (base, query) = (case split_once (CHR ''?'') url of Some bq \<Rightarrow> bq | None \<Rightarrow> (url, [])) in
      if \<not> starts_with ''postgres://'' base \<and> \<not> starts_with ''postgresql://'' base
      then Inl (postgres_connection_config_error resource ''postgres connection must use a postgres:// or postgresql:// URL'')
      else and_then (tls_parts resource (filter (\<lambda>p. p \<noteq> []) (split_on (CHR ''&'') query)) (TlsVerifyFull, None, []))
        (\<lambda>(mode, root_cert, retained).
          if root_cert \<noteq> None \<and> mode \<noteq> TlsVerifyFull
          then Inl (postgres_connection_config_error resource ''sslrootcert requires sslmode=verify-full'')
          else Inr (base @ ''?'' @ join_with ''&'' (retained @ [if mode \<noteq> TlsDisable then ''sslmode=require'' else ''sslmode=disable'']),
            mode, root_cert)))"

subsection \<open>SQL tokens\<close>

datatype sql_token =
    Word string
  | Literal char string
  | LineComment string
  | BlockComment string
  | Semicolon
  | Symbol char

fun token_text :: "sql_token \<Rightarrow> string" where
  "token_text (Word w) = w"
| "token_text (Literal q b) = q # concat (map (\<lambda>c. if c = q then [q, q] else [c]) b) @ [q]"
| "token_text (LineComment b) = ''--'' @ b @ [CHR 0x0A]"
| "token_text (BlockComment b) = ''/*'' @ b @ ''*/''"
| "token_text Semicolon = '';''"
| "token_text (Symbol c) = [c]"

definition sql_text :: "sql_token list \<Rightarrow> string" where
  "sql_text ts = concat (map token_text ts)"

fun token_ok :: "sql_token \<Rightarrow> string \<Rightarrow> bool" where
  "token_ok (Word w) rest = (w \<noteq> [] \<and> word_start (hd w) \<and> list_all word_char w \<and> (rest = [] \<or> \<not> word_char (hd rest)))"
| "token_ok (Literal q b) rest = ((q = CHR 0x27 \<or> q = CHR 0x22) \<and> CHR 0x5C \<notin> set b \<and> (rest = [] \<or> hd rest \<noteq> q))"
| "token_ok (LineComment b) rest = (CHR 0x0A \<notin> set b)"
| "token_ok (BlockComment b) rest = (CHR ''*'' \<notin> set b \<and> (b = [] \<or> last b \<noteq> CHR ''/''))"
| "token_ok Semicolon rest = True"
| "token_ok (Symbol c) rest = (\<not> word_start c \<and> c \<notin> {CHR 0x27, CHR 0x22, CHR 0x60, CHR ''$'', CHR '';''}
     \<and> \<not> starts_with ''--'' (c # rest) \<and> \<not> starts_with ''/*'' (c # rest))"

fun tokens_ok :: "sql_token list \<Rightarrow> bool" where
  "tokens_ok [] = True"
| "tokens_ok (t # ts) = (token_ok t (sql_text ts) \<and> tokens_ok ts)"

lemma sql_text_simps [simp]: "sql_text [] = []" "sql_text (t # ts) = token_text t @ sql_text ts"
  by (simp_all add: sql_text_def)

fun token_statements :: "sql_token list \<Rightarrow> sql_token list list" where
  "token_statements [] = [[]]"
| "token_statements (t # ts) =
     (if t = Semicolon then [] # token_statements ts
      else (t # hd (token_statements ts)) # tl (token_statements ts))"

fun words :: "sql_token list \<Rightarrow> string list" where
  "words [] = []"
| "words (Word w # ts) = to_lower w # words ts"
| "words (_ # ts) = words ts"

fun top_words :: "nat \<Rightarrow> sql_token list \<Rightarrow> string list" where
  "top_words d [] = []"
| "top_words d (Word w # ts) = (if d = 0 then to_lower w # top_words d ts else top_words d ts)"
| "top_words d (Symbol c # ts) =
     top_words (if c = CHR ''('' then d + 1 else if c = CHR '')'' then d - 1 else d) ts"
| "top_words d (_ # ts) = top_words d ts"

fun separators :: "nat \<Rightarrow> sql_token list \<Rightarrow> nat" where
  "separators d [] = 0"
| "separators d (Semicolon # ts) = (if d = 0 \<and> more_statements (sql_text ts) then 1 else 0) + separators d ts"
| "separators d (Symbol c # ts) =
     separators (if c = CHR ''('' then d + 1 else if c = CHR '')'' then d - 1 else d) ts"
| "separators d (_ # ts) = separators d ts"

lemma skip_quoted_literal:
  "rest = [] \<or> hd rest \<noteq> q \<Longrightarrow> skip_quoted q (concat (map (\<lambda>c. if c = q then [q, q] else [c]) b) @ q # rest) = rest"
proof (induction b)
  case Nil
  then show ?case by (cases rest) auto
next
  case (Cons c b)
  let ?t = "concat (map (\<lambda>c. if c = q then [q, q] else [c]) b) @ q # rest"
  obtain d s where "?t = d # s" by (cases ?t) auto
  with Cons show ?case by auto
qed

lemma raw_skip_quoted_literal:
  "rest = [] \<or> hd rest \<noteq> q \<Longrightarrow> CHR 0x5C \<notin> set b \<Longrightarrow>
   raw_skip_quoted q (concat (map (\<lambda>c. if c = q then [q, q] else [c]) b) @ q # rest) = rest"
proof (induction b)
  case Nil
  then show ?case by (cases rest) auto
next
  case (Cons c b)
  let ?t = "concat (map (\<lambda>c. if c = q then [q, q] else [c]) b) @ q # rest"
  obtain d s where "?t = d # s" by (cases ?t) auto
  with Cons show ?case by auto
qed

lemma skip_line_comment: "CHR 0x0A \<notin> set b \<Longrightarrow> skip_line (b @ CHR 0x0A # rest) = CHR 0x0A # rest"
  unfolding skip_line_def by (induction b) auto

lemma skip_block_comment:
  "CHR ''*'' \<notin> set b \<Longrightarrow> b = [] \<or> last b \<noteq> CHR ''/'' \<Longrightarrow> skip_block (Suc 0) (b @ CHR ''*'' # CHR ''/'' # rest) = rest"
proof (induction b)
  case (Cons c b)
  obtain d s where t: "b @ CHR ''*'' # CHR ''/'' # rest = d # s" "d = CHR ''*'' \<longrightarrow> b = []"
    using Cons.prems by (cases b) auto
  with Cons show ?case by (cases "b = []") auto
qed simp

lemma raw_skip_block_comment:
  "CHR ''*'' \<notin> set b \<Longrightarrow> raw_skip_block (b @ CHR ''*'' # CHR ''/'' # rest) = rest"
  unfolding raw_skip_block_def
  by (induction b) (auto split: option.splits)

subsection \<open>Tokens of a migration\<close>

lemma starts_with_pair: "starts_with [a, b] (c # s) \<longleftrightarrow> c = a \<and> (\<exists>r. s = b # r)"
  by (cases s) (auto simp: starts_with_def)

lemma word_start_not: "word_start c \<Longrightarrow> \<not> ascii_space c \<and> c \<notin> {CHR ''-'', CHR ''/'', CHR 0x27, CHR 0x22, CHR 0x60, CHR ''$'', CHR '';'', CHR ''('', CHR '')''}"
  by (auto simp: word_start_def ascii_space_def code_def)

lemma take_sql_word: "list_all word_char w \<Longrightarrow> rest = [] \<or> \<not> word_char (hd rest) \<Longrightarrow>
    takeWhile word_char (w @ rest) = w \<and> dropWhile word_char (w @ rest) = rest"
  by (induction w) (auto simp: takeWhile_eq_Nil_iff dropWhile_eq_self_iff)

lemma statement_prefixes_word:
  assumes "token_ok (Word w) rest"
  shows "statement_prefixes kws (w @ rest) = statement_prefixes (if length kws < 2 then kws @ [to_lower w] else kws) rest"
proof -
  from assms obtain c v where w: "w = c # v" "word_start c" "list_all word_char v" "rest = [] \<or> \<not> word_char (hd rest)"
    by (cases w) auto
  with word_start_not [OF w(2)] take_sql_word [OF w(3,4)] show ?thesis
    by (simp add: statement_prefixes.simps(2) starts_with_pair)
qed

lemma statement_prefixes_literal:
  assumes "token_ok (Literal q b) rest"
  shows "statement_prefixes kws (token_text (Literal q b) @ rest) = statement_prefixes kws rest"
proof -
  from assms have "\<not> ascii_space q" "q \<noteq> CHR ''-''" "q \<noteq> CHR ''/''" by (auto simp: ascii_space_def code_def)
  with assms show ?thesis by (auto simp: statement_prefixes.simps(2) starts_with_pair skip_quoted_literal)
qed

lemma statement_prefixes_comment:
  "token_ok (LineComment b) rest \<Longrightarrow> statement_prefixes kws (token_text (LineComment b) @ rest) = statement_prefixes kws rest"
  "token_ok (BlockComment b) rest \<Longrightarrow> statement_prefixes kws (token_text (BlockComment b) @ rest) = statement_prefixes kws rest"
  by (simp_all add: statement_prefixes.simps(2) starts_with_pair ascii_space_def code_def skip_line_comment skip_block_comment)

lemma statement_prefixes_symbol:
  "token_ok (Symbol c) rest \<Longrightarrow> statement_prefixes kws (c # rest) = statement_prefixes kws rest"
  by (auto simp: statement_prefixes.simps(2))

lemma statement_prefixes_semicolon:
  "statement_prefixes kws (CHR '';'' # rest) = (if kws = [] then statement_prefixes [] rest else kws # statement_prefixes [] rest)"
  by (simp add: statement_prefixes.simps(2) starts_with_pair ascii_space_def code_def)

lemma token_statements_not_Nil [simp]: "token_statements ts \<noteq> []"
  by (cases ts) auto

lemma statement_prefixes_tokens:
  "tokens_ok ts \<Longrightarrow> length kws \<le> 2 \<Longrightarrow>
   statement_prefixes kws (sql_text ts)
     = filter (\<lambda>k. k \<noteq> []) (map (take 2) ((kws @ words (hd (token_statements ts))) # map words (tl (token_statements ts))))"
proof (induction ts arbitrary: kws)
  case (Cons t ts)
  then have IH: "length k \<le> 2 \<Longrightarrow> statement_prefixes k (sql_text ts)
     = filter (\<lambda>k. k \<noteq> []) (map (take 2) ((k @ words (hd (token_statements ts))) # map words (tl (token_statements ts))))" for k
    by simp
  obtain s ss where ss: "token_statements ts = s # ss" by (cases "token_statements ts") auto
  show ?case
  proof (cases t)
    case (Word w)
    have "statement_prefixes kws (w @ sql_text ts) = statement_prefixes (if length kws < 2 then kws @ [to_lower w] else kws) (sql_text ts)"
      using Cons.prems(1) Word by (intro statement_prefixes_word) simp
    moreover have "length kws < 2 \<Longrightarrow> take (2 - length kws) (to_lower w # words s) = to_lower w # take (Suc 0 - length kws) (words s)"
      by (simp add: numeral_2_eq_2 Suc_diff_le)
    ultimately show ?thesis using Cons.prems IH ss Word by auto
  next
    case (Literal q b)
    with Cons.prems statement_prefixes_literal [of q b "sql_text ts" kws] IH ss show ?thesis by simp
  next
    case (LineComment b)
    with Cons.prems statement_prefixes_comment(1) [of b "sql_text ts" kws] IH ss show ?thesis by simp
  next
    case (BlockComment b)
    with Cons.prems statement_prefixes_comment(2) [of b "sql_text ts" kws] IH ss show ?thesis by simp
  next
    case Semicolon
    with Cons.prems IH [of "[]"] ss show ?thesis by (simp add: statement_prefixes_semicolon)
  next
    case (Symbol c)
    with Cons.prems statement_prefixes_symbol [of c "sql_text ts" kws] IH ss show ?thesis by simp
  qed
qed simp

text \<open>On a text of SQL tokens the transaction guard of migrations sees exactly the first two words of
  each statement, whatever stands in its literals and comments: it refuses the text if and only
  if some statement begins with a transaction keyword.\<close>

theorem transaction_guard_exact:
  assumes "tokens_ok ts"
  shows "reject_migration_transaction_control version (sql_text ts) = Inr ()
    \<longleftrightarrow> (\<forall>s \<in> set (token_statements ts). \<not> controls_transaction (words s))"
proof -
  have "controls_transaction (take 2 k) = controls_transaction k" for k
    by (cases k rule: remdups_adj.cases) (auto simp: controls_transaction_def Let_def)
  moreover have "\<not> controls_transaction []" by (simp add: controls_transaction_def)
  ultimately show ?thesis
    using statement_prefixes_tokens [OF assms, of "[]"]
    by (cases "token_statements ts") (auto simp: reject_migration_transaction_control_def migration_statement_prefixes_def list_ex_iff)
qed


lemma transaction_guard_exact_witness:
  "reject_migration_transaction_control ''1'' (sql_text [Word ''insert'', Symbol (CHR '' ''), Literal (CHR 0x27) ''; commit'', Semicolon]) = Inr ()"
proof -
  let ?ts = "[Word ''insert'', Symbol (CHR '' ''), Literal (CHR 0x27) ''; commit'', Semicolon]"
  have "tokens_ok ?ts" by code_simp
  moreover have "\<forall>s \<in> set (token_statements ?ts). \<not> controls_transaction (words s)" by code_simp
  ultimately show ?thesis using transaction_guard_exact by blast
qed

subsection \<open>Tokens of a raw query\<close>

lemma analyze_word:
  assumes "token_ok (Word w) rest"
  shows "analyze_from d (w @ rest) = (if d = 0 then add_word (to_lower w) (analyze_from d rest) else analyze_from d rest)"
proof -
  from assms obtain c v where w: "w = c # v" "word_start c" "list_all word_char v" "rest = [] \<or> \<not> word_char (hd rest)"
    by (cases w) auto
  note c = word_start_not [OF w(2)]
  show ?thesis
  proof (cases "d = 0")
    case True
    with w c take_sql_word [OF w(3,4)] show ?thesis by (simp add: analyze_from.simps(2) starts_with_pair)
  next
    case False
    have "analyze_from d (v @ rest) = analyze_from d rest"
      using w(3)
    proof (induction v)
      case (Cons x v)
      then have "x \<notin> {CHR ''-'', CHR ''/'', CHR 0x27, CHR 0x22, CHR 0x60, CHR '';'', CHR ''('', CHR '')''}"
        by (auto simp: word_char_def is_alphanumeric_def is_digit_def code_def)
      with Cons False show ?case by (simp add: analyze_from.simps(2) [of d x] starts_with_pair)
    qed simp
    with w c False show ?thesis by (simp add: analyze_from.simps(2) [of d c] starts_with_pair)
  qed
qed

lemma analyze_literal:
  "token_ok (Literal q b) rest \<Longrightarrow> analyze_from d (token_text (Literal q b) @ rest) = analyze_from d rest"
  by (auto simp: analyze_from.simps(2) raw_skip_quoted_literal)

lemma analyze_line_comment:
  "token_ok (LineComment b) rest \<Longrightarrow> analyze_from d (token_text (LineComment b) @ rest) = analyze_from d rest"
  by (simp add: analyze_from.simps(2) starts_with_pair skip_line_comment word_start_def code_def)

lemma analyze_block_comment:
  "token_ok (BlockComment b) rest \<Longrightarrow> analyze_from d (token_text (BlockComment b) @ rest) = analyze_from d rest"
  by (simp add: analyze_from.simps(2) starts_with_pair raw_skip_block_comment)

lemma analyze_symbol:
  "token_ok (Symbol c) rest \<Longrightarrow> analyze_from d (c # rest)
     = analyze_from (if c = CHR ''('' then d + 1 else if c = CHR '')'' then d - 1 else d) rest"
  by (auto simp: analyze_from.simps(2))

lemma analyze_semicolon:
  "analyze_from d (CHR '';'' # rest) =
     (if d = 0 \<and> more_statements rest then add_separator (analyze_from d rest) else analyze_from d rest)"
  by (simp add: analyze_from.simps(2) starts_with_pair word_start_def code_def)

lemma analyze_tokens:
  "tokens_ok ts \<Longrightarrow> analyze_from d (sql_text ts) = \<lparr> top_level_words = top_words d ts, statement_separators = separators d ts \<rparr>"
proof (induction ts arbitrary: d)
  case (Cons t ts)
  then have IH: "analyze_from d (sql_text ts) = \<lparr> top_level_words = top_words d ts, statement_separators = separators d ts \<rparr>" for d
    by simp
  note ok = Cons.prems
  show ?case
  proof (cases t)
    case (Word w)
    with ok analyze_word [of w "sql_text ts" d] IH show ?thesis by (simp add: add_word_def)
  next
    case (Literal q b)
    with ok analyze_literal [of q b "sql_text ts" d] IH show ?thesis by simp
  next
    case (LineComment b)
    with ok analyze_line_comment [of b "sql_text ts" d] IH show ?thesis by simp
  next
    case (BlockComment b)
    with ok analyze_block_comment [of b "sql_text ts" d] IH show ?thesis by simp
  next
    case Semicolon
    with IH show ?thesis by (simp add: analyze_semicolon add_separator_def)
  next
    case (Symbol c)
    with ok analyze_symbol [of c "sql_text ts" d] IH show ?thesis by simp
  qed
qed simp



text \<open>The guard admits a statement that creates a table.\<close>

lemma raw_query_guard_admits_create:
  "validate_raw_select_sql DriverSqlite ''create table t as select 1'' = Inr ()"
  by code_simp

text \<open>The transaction guard admits END, which commits in SQLite and in PostgreSQL.\<close>

lemma transaction_guard_admits_end:
  "reject_migration_transaction_control v ''drop table a; end; drop table b'' = Inr ()"
  by code_simp

subsection \<open>The TLS mode of a connection\<close>

definition sslmodes :: "string list \<Rightarrow> string list" where
  "sslmodes parts = map (snd \<circ> key_value) (filter (\<lambda>p. fst (key_value p) = ''sslmode'') parts)"

definition tls_mode_name :: "postgres_tls_mode \<Rightarrow> string" where
  "tls_mode_name m = (case m of TlsDisable \<Rightarrow> ''disable'' | TlsRequire \<Rightarrow> ''require'' | TlsVerifyFull \<Rightarrow> ''verify-full'')"

lemma parse_sslmode_name: "parse_sslmode r v = Inr m \<longleftrightarrow> v = tls_mode_name m"
  by (cases m) (auto simp: parse_sslmode_def tls_mode_name_def)

lemma parse_sslmode_of_name [simp]: "parse_sslmode r (tls_mode_name m) = Inr m"
  by (simp add: parse_sslmode_name)

lemma range_tls_mode_name: "range tls_mode_name = {''disable'', ''require'', ''verify-full''}"
proof -
  have "(UNIV :: postgres_tls_mode set) = {TlsDisable, TlsRequire, TlsVerifyFull}" using postgres_tls_mode.exhaust by blast
  then have "range tls_mode_name = tls_mode_name ` {TlsDisable, TlsRequire, TlsVerifyFull}" by (rule arg_cong)
  then show ?thesis by (simp add: tls_mode_name_def)
qed

lemma tls_parts_result:
  "tls_parts r parts (mode, cert, ret) = Inr (mode', cert', ret') \<Longrightarrow>
     ret' = ret @ filter (\<lambda>p. fst (key_value p) \<noteq> ''sslmode'' \<and> fst (key_value p) \<noteq> ''sslrootcert'') parts
     \<and> tls_mode_name mode' = last (tls_mode_name mode # sslmodes parts)
     \<and> set (sslmodes parts) \<subseteq> range tls_mode_name"
proof (induction parts arbitrary: mode cert ret)
  case (Cons p parts)
  show ?case
  proof (cases "fst (key_value p) = ''sslmode''")
    case True
    with Cons.prems obtain m where "snd (key_value p) = tls_mode_name m"
        "tls_parts r parts (m, cert, ret) = Inr (mode', cert', ret')"
      by (cases "parse_sslmode r (snd (key_value p))") (auto simp: parse_sslmode_name split: prod.splits)
    with Cons.IH [OF this(2)] True show ?thesis by (auto simp: sslmodes_def)
  next
    case False
    then obtain c rt where "tls_parts r parts (mode, c, rt) = Inr (mode', cert', ret')"
        "rt = ret @ filter (\<lambda>p. fst (key_value p) \<noteq> ''sslmode'' \<and> fst (key_value p) \<noteq> ''sslrootcert'') [p]"
      using Cons.prems by (cases "postgres_percent_decode (snd (key_value p)) r") (auto split: prod.splits if_splits)
    with Cons.IH [OF this(1)] False show ?thesis by (auto simp: sslmodes_def)
  qed
qed (simp add: sslmodes_def)

text \<open>The connection text handed to the driver ends with the TLS parameter of the chosen mode, and carries no
  other: plaintext only where the last \<open>sslmode\<close> of the URL is \<open>disable\<close>, verification by default, and no
  mode that could fall back. A root certificate is only taken together with full verification.\<close>

theorem tls_never_downgrades:
  assumes "postgres_tls_settings url resource = Inr (connection, mode, root_cert)"
  shows "\<exists>base query others parts. (split_once (CHR ''?'') url = Some (base, query) \<or> CHR ''?'' \<notin> set url \<and> base = url \<and> query = [])
    \<and> parts = filter (\<lambda>p. p \<noteq> []) (split_on (CHR ''&'') query)
    \<and> others = filter (\<lambda>p. fst (key_value p) \<noteq> ''sslmode'' \<and> fst (key_value p) \<noteq> ''sslrootcert'') parts
    \<and> connection = base @ ''?'' @ join_with ''&'' (others @ [if mode = TlsDisable then ''sslmode=disable'' else ''sslmode=require''])
    \<and> tls_mode_name mode = last (''verify-full'' # sslmodes parts)
    \<and> set (sslmodes parts) \<subseteq> {''disable'', ''require'', ''verify-full''}
    \<and> (root_cert = None \<or> mode = TlsVerifyFull)"
proof -
  obtain base query where bq: "(case split_once (CHR ''?'') url of Some bq \<Rightarrow> bq | None \<Rightarrow> (url, [])) = (base, query)" by force
  let ?parts = "filter (\<lambda>p. p \<noteq> []) (split_on (CHR ''&'') query)"
  from assms bq obtain retained where t: "tls_parts resource ?parts (TlsVerifyFull, None, []) = Inr (mode, root_cert, retained)"
    and c: "connection = base @ ''?'' @ join_with ''&'' (retained @ [if mode \<noteq> TlsDisable then ''sslmode=require'' else ''sslmode=disable''])"
    and r: "root_cert = None \<or> mode = TlsVerifyFull"
    by (cases "tls_parts resource ?parts (TlsVerifyFull, None, [])")
      (auto simp: postgres_tls_settings_def Let_def split: if_splits prod.splits)
  note result = tls_parts_result [OF t]
  let ?others = "filter (\<lambda>p. fst (key_value p) \<noteq> ''sslmode'' \<and> fst (key_value p) \<noteq> ''sslrootcert'') ?parts"
  show ?thesis
  proof (intro exI conjI)
    show "split_once (CHR ''?'') url = Some (base, query) \<or> CHR ''?'' \<notin> set url \<and> base = url \<and> query = []"
      using bq by (auto simp: split_once_None split: option.splits)
    show "connection = base @ ''?'' @ join_with ''&'' (?others @ [if mode = TlsDisable then ''sslmode=disable'' else ''sslmode=require''])"
      using c result by (cases mode) simp_all
    show "tls_mode_name mode = last (''verify-full'' # sslmodes ?parts)"
      using result by (simp add: tls_mode_name_def [of TlsVerifyFull])
    show "set (sslmodes ?parts) \<subseteq> {''disable'', ''require'', ''verify-full''}"
      using result by (simp only: range_tls_mode_name)
    show "root_cert = None \<or> mode = TlsVerifyFull" by (rule r)
  qed (rule refl)+
qed

lemma tls_never_downgrades_witness:
  "\<exists>base others. ''postgres://h/d?a=b&sslmode=require'' = base @ ''?'' @ join_with ''&'' (others @ [''sslmode=require''])"
proof -
  have e: "postgres_tls_settings ''postgres://h/d?a=b&sslmode=require'' ''r'' = Inr (''postgres://h/d?a=b&sslmode=require'', TlsRequire, None)"
    by code_simp
  have if_r: "(if TlsRequire = TlsDisable then x else y) = y" for x y :: string by simp
  from tls_never_downgrades [OF e] show ?thesis unfolding if_r by blast
qed

end
