(* ===== verification/Session_Config.thy ===== *)
theory Session_Config
  imports Session_Correct Mutation_Guard
begin

section \<open>Sessions of the database runtime\<close>

text \<open>
  From \<open>axonyx-runtime/src/backend.rs\<close>: the session configuration read from the environment, the
  choice of the store, and the session operations of \<open>AxDatabaseRuntime\<close>. Opening a SQLite file
  and connecting to PostgreSQL are arguments.
\<close>

definition parse_session_bool :: "string \<Rightarrow> string \<Rightarrow> rt_error + bool" where
  "parse_session_bool v name =
     (let s = to_lower (trim v) in
      if s \<in> {''true'', ''1'', ''yes'', ''on''} then Inr True
      else if s \<in> {''false'', ''0'', ''no'', ''off''} then Inr False
      else Inl (RtMessage (name @ '' must be true or false, got `'' @ v @ ''`'')))"

definition parse_same_site :: "string \<Rightarrow> rt_error + same_site" where
  "parse_same_site v =
     (let s = to_lower (trim v) in
      if s = ''strict'' then Inr SameSiteStrict
      else if s = ''lax'' then Inr SameSiteLax
      else if s = ''none'' then Inr SameSiteNone
      else Inl (RtMessage (''SESSION_COOKIE_SAME_SITE must be Strict, Lax, or None, got `'' @ v @ ''`'')))"

text \<open>A setting that is present is read, an absent one keeps its default.\<close>

definition setting :: "ax_env \<Rightarrow> string \<Rightarrow> 'a \<Rightarrow> (string \<Rightarrow> rt_error + 'a) \<Rightarrow> rt_error + 'a" where
  "setting e key absent parse = (case bm_get (env_secret e) key of Some v \<Rightarrow> parse v | None \<Rightarrow> Inr absent)"

definition parse_ttl :: "(string \<Rightarrow> string) \<Rightarrow> string \<Rightarrow> rt_error + i64" where
  "parse_ttl message v = ok_or (RtMessage (message v)) (map_option word_of_int (parse_signed 64 v))"

definition session_cookie_policy_from_env :: "ax_env \<Rightarrow> rt_error + session_policy" where
  "session_cookie_policy_from_env e =
     and_then (setting e ''session_ttl_seconds'' (policy_ttl default_policy)
        (parse_ttl (\<lambda>v. ''SESSION_TTL_SECONDS must be a positive integer, got `'' @ v @ ''`''))) (\<lambda>ttl.
     and_then (setting e ''session_absolute_ttl_seconds'' (policy_absolute_ttl default_policy)
        (parse_ttl (\<lambda>v. ''SESSION_ABSOLUTE_TTL_SECONDS must be a positive integer''))) (\<lambda>absolute.
     and_then (setting e ''session_cookie_secure'' (policy_secure default_policy)
        (\<lambda>v. parse_session_bool v ''SESSION_COOKIE_SECURE'')) (\<lambda>secure.
     and_then (setting e ''session_cookie_same_site'' (policy_same_site default_policy) parse_same_site) (\<lambda>site.
       let name = (case bm_get (env_secret e) ''session_cookie_name'' of Some v \<Rightarrow> v | None \<Rightarrow> policy_name default_policy);
           path = (case bm_get (env_secret e) ''session_cookie_path'' of Some v \<Rightarrow> v | None \<Rightarrow> policy_path default_policy);
           p = \<lparr> policy_name = name, policy_path = path, policy_domain = bm_get (env_secret e) ''session_cookie_domain'',
                 policy_ttl = ttl, policy_absolute_ttl = absolute, policy_secure = secure, policy_same_site = site \<rparr>
       in and_then (policy_validate p) (\<lambda>_. Inr p)))))"

definition sqlite_database_path :: "string \<Rightarrow> string" where
  "sqlite_database_path url =
     (if url \<in> {'':memory:'', ''sqlite::memory:'', ''sqlite://:memory:''} then '':memory:''
      else case strip_prefix ''sqlite:///'' url of Some path \<Rightarrow> ''/'' @ path
      | None \<Rightarrow> (case strip_prefix ''sqlite://'' url of Some path \<Rightarrow> path
      | None \<Rightarrow> (case strip_prefix ''sqlite:'' url of Some path \<Rightarrow> path | None \<Rightarrow> url)))"

datatype ('q, 'p) session_backend = BackendMemory | BackendSqlite 'q | BackendPostgres 'p

record ('q, 'p) configured_session =
  configured_store :: "('q, 'p) session_backend"
  configured_policy :: session_policy
  configured_secret :: string

definition configured_session_from_env :: "(string \<Rightarrow> rt_error + 'q)
    \<Rightarrow> (string \<Rightarrow> nat \<Rightarrow> nat \<Rightarrow> nat \<Rightarrow> rt_error + 'p) \<Rightarrow> ax_env \<Rightarrow> rt_error + ('q, 'p) configured_session" where
  "configured_session_from_env open_sqlite connect_postgres e =
     and_then (ax_env_secret e ''session_key'') (\<lambda>secret.
     and_then (env_database_config e) (\<lambda>c.
       if config_transport c \<noteq> TransportDirect then Inl (RtMessage ''sessions require direct database transport'')
       else
         and_then
           (case config_driver c of
              DriverMemory \<Rightarrow> Inr BackendMemory
            | DriverSqlite \<Rightarrow>
                and_then (ok_or (RtMessage ''SQLite sessions require AX_SECRET_DB_URL'') (config_url c)) (\<lambda>url.
                and_then (open_sqlite (sqlite_database_path url)) (\<lambda>q. Inr (BackendSqlite q)))
            | DriverPostgres \<Rightarrow>
                and_then (ok_or (RtMessage ''Postgres sessions require AX_SECRET_DB_URL'') (config_url c)) (\<lambda>url.
                and_then (connect_postgres url (config_pool_max_size c) (config_pool_timeout_ms c)
                    (query_timeout_ms (config_policy c))) (\<lambda>p. Inr (BackendPostgres p)))
            | DriverMySql \<Rightarrow> Inl (RtMessage ''MySQL session storage is not implemented yet''))
           (\<lambda>store.
         and_then (session_cookie_policy_from_env e) (\<lambda>p.
         and_then (policy_validate p) (\<lambda>_.
           Inr \<lparr> configured_store = store, configured_policy = p, configured_secret = secret \<rparr>)))))"

text \<open>The operations of \<open>AxDatabaseRuntime\<close> on its configured manager and secret; the clock is the
  result of \<open>current_unix_timestamp\<close>.\<close>

definition current_unix_timestamp :: "nat option \<Rightarrow> rt_error + i64" where
  "current_unix_timestamp since_epoch =
     and_then (ok_or (RtMessage ''system clock is before the Unix epoch'') since_epoch) (\<lambda>seconds.
       if seconds < 2 ^ 63 then Inr (word_of_nat seconds)
       else Inl (RtMessage ''system clock exceeds the supported session range''))"

definition runtime_create_session :: "(bytes \<Rightarrow> bytes \<Rightarrow> bytes) \<Rightarrow> string \<Rightarrow> nat option \<Rightarrow> ('s, 'v) session_manager \<Rightarrow> string
    \<Rightarrow> string \<Rightarrow> (string, 'v) bmap \<Rightarrow> ('s, 'v ax_session \<times> ax_cookie) store_op" where
  "runtime_create_session mac uuid clock mgr secret subject data =
     store_then (store_lift (current_unix_timestamp clock)) (\<lambda>now. manager_create mac uuid mgr subject data secret now)"

definition runtime_load_session_of :: "(bytes \<Rightarrow> bytes \<Rightarrow> bytes) \<Rightarrow> nat option \<Rightarrow> ('s, 'v) session_manager \<Rightarrow> string
    \<Rightarrow> http_request \<Rightarrow> ('s, 'v ax_session option) store_op" where
  "runtime_load_session_of mac clock mgr secret r =
     store_then (store_lift (current_unix_timestamp clock)) (\<lambda>now. manager_load mac mgr r secret now)"

definition runtime_refresh_session :: "(bytes \<Rightarrow> bytes \<Rightarrow> bytes) \<Rightarrow> nat option \<Rightarrow> ('s, 'v) session_manager \<Rightarrow> string
    \<Rightarrow> http_request \<Rightarrow> ('s, ('v ax_session \<times> ax_cookie) option) store_op" where
  "runtime_refresh_session mac clock mgr secret r =
     (if to_upper (req_method r) \<in> {''GET'', ''HEAD'', ''OPTIONS''}
      then store_lift (Inl (RtMessage ''Session.refresh requires a mutating HTTP request''))
      else store_then (store_lift (current_unix_timestamp clock)) (\<lambda>now. manager_refresh mac mgr r secret now))"

definition runtime_destroy_session :: "(bytes \<Rightarrow> bytes \<Rightarrow> bytes) \<Rightarrow> ('s, 'v) session_manager \<Rightarrow> string
    \<Rightarrow> http_request \<Rightarrow> ('s, ax_cookie) store_op" where
  "runtime_destroy_session mac mgr secret r = manager_destroy mac mgr r secret"

subsection \<open>What the configuration guarantees\<close>

lemma configured_policy_valid:
  "session_cookie_policy_from_env e = Inr p \<Longrightarrow> policy_validate p = Inr ()"
  by (auto simp: session_cookie_policy_from_env_def and_then_Inr_iff Let_def)

lemma configured_secure:
  "session_cookie_policy_from_env e = Inr p \<Longrightarrow> bm_get (env_secret e) ''session_cookie_secure'' = None \<Longrightarrow> policy_secure p"
  by (auto simp: session_cookie_policy_from_env_def and_then_Inr_iff Let_def setting_def default_policy_def)

lemma refresh_needs_mutation:
  "runtime_refresh_session mac clock mgr secret r s = (Inr x, s') \<Longrightarrow> \<not> is_safe_method (req_method r)"
  by (auto simp: runtime_refresh_session_def is_safe_method_def store_lift_def split: if_splits)

end
