(* ===== verification/Migrations.thy ===== *)
theory Migrations
  imports Sql_Guards Session_Config
begin

section \<open>Database migrations\<close>

text \<open>
  The migration runner of \<open>axonyx-runtime/src/backend.rs\<close> for SQLite and PostgreSQL: the history table
  \<open>_axonyx_migrations\<close>, applying a batch inside one transaction, and rolling the latest one back. A
  database is its history table and the rest of its contents; a connection has the durable
  database and the one the open transaction works on, and dropping the transaction throws the
  latter away. The SQL engine is a parameter: what a batch does to a connection, the failure of a
  statement, the failure text of a rejected statement, and the clock. Both drivers take a lock for the
  whole transaction (\<open>begin immediate\<close>, an advisory lock), so an operation is one step. A fault of
  the commit stands for a commit that did not take place.
\<close>

subsection \<open>Failures of the drivers\<close>

datatype sqlite_failure = SqliteFailure "nat option" string

datatype postgres_failure = PostgresDbError string string | PostgresError "string list"

definition translated :: "database_driver \<Rightarrow> string \<Rightarrow> db_error_code option \<Rightarrow> string \<Rightarrow> rt_error" where
  "translated driver resource native detail =
     (let e = db_error_from_driver_detail driver resource detail in
      case native of
        None \<Rightarrow> RtDatabase e
      | Some c \<Rightarrow> RtDatabase (e\<lparr> dbe_code := db_code_str c, dbe_status := db_code_status c, dbe_message := db_code_message c \<rparr>))"

text \<open>2067 and 1555 are the extended codes of UNIQUE and PRIMARY KEY, 19 is the primary code of a
  constraint violation, the low byte of an extended code.\<close>

fun sqlite_runtime_error :: "string \<Rightarrow> sqlite_failure \<Rightarrow> rt_error" where
  "sqlite_runtime_error resource (SqliteFailure xcode detail) =
     translated DriverSqlite resource
       (case xcode of
          Some x \<Rightarrow> if x = 2067 \<or> x = 1555 then Some DbUniqueViolation
                    else if x mod 256 = 19 then Some DbConstraintViolation else None
        | None \<Rightarrow> None) detail"

fun postgres_runtime_error :: "string \<Rightarrow> postgres_failure \<Rightarrow> rt_error" where
  "postgres_runtime_error resource (PostgresDbError state message) =
     translated DriverPostgres resource
       (if state = ''23505'' then Some DbUniqueViolation
        else if state \<in> {''23502'', ''23503'', ''23514'', ''23P01''} then Some DbConstraintViolation
        else None) (state @ '': '' @ message)"
| "postgres_runtime_error resource (PostgresError chain) =
     translated DriverPostgres resource None (join_with '': '' chain)"

subsection \<open>Databases and transactions\<close>

record migration_row =
  row_version :: string
  row_name :: string
  row_checksum :: string
  row_applied_at :: string
  row_execution_ms :: nat

record 'd database =
  db_log :: "migration_row list option"
  db_data :: 'd

record 'd connection =
  durable :: "'d database"
  working :: "'d database"

datatype migration_step =
    StepOpen | StepBusyTimeout | StepBegin | StepLock | StepTableExists | StepEnsureTable
  | StepLookup string | StepInsert string | StepReadBack string | StepLatest | StepDelete string
  | StepHistory | StepCommit

record ('f, 'd) sql_engine =
  engine_error :: "string \<Rightarrow> 'f \<Rightarrow> rt_error"
  engine_batch :: "string \<Rightarrow> 'd connection \<Rightarrow> 'f option \<times> 'd connection"
  engine_fault :: "migration_step \<Rightarrow> 'f option"
  engine_reject :: "migration_step \<Rightarrow> 'f"
  engine_clock :: "string \<Rightarrow> string \<times> nat"
  engine_le :: "string \<Rightarrow> string \<Rightarrow> bool"

definition run_step :: "('f, 'd) sql_engine \<Rightarrow> migration_step \<Rightarrow> ('s, unit) store_op" where
  "run_step eng step = store_lift (case engine_fault eng step of
     Some f \<Rightarrow> Inl (engine_error eng migrations_resource f) | None \<Rightarrow> Inr ())"

text \<open>A statement on the history table: it fails where the driver does, where the table is missing,
  and where its action is undefined.\<close>

definition table_statement :: "('f, 'd) sql_engine \<Rightarrow> migration_step \<Rightarrow> (migration_row list \<Rightarrow> ('a \<times> migration_row list) option)
    \<Rightarrow> ('d connection, 'a) store_op" where
  "table_statement eng step act = store_then (run_step eng step) (\<lambda>_ c.
     case Option.bind (db_log (working c)) act of
       None \<Rightarrow> (Inl (engine_error eng migrations_resource (engine_reject eng step)), c)
     | Some (x, rows) \<Rightarrow> (Inr x, c\<lparr> working := (working c)\<lparr> db_log := Some rows \<rparr> \<rparr>))"

definition batch_statement :: "('f, 'd) sql_engine \<Rightarrow> string \<Rightarrow> string \<Rightarrow> ('d connection, unit) store_op" where
  "batch_statement eng version sql c =
     (case engine_batch eng sql c of
        (Some f, c') \<Rightarrow> (Inl (engine_error eng version f), c')
      | (None, c') \<Rightarrow> (Inr (), c'))"

definition find_version :: "string \<Rightarrow> migration_row list \<Rightarrow> migration_row option" where
  "find_version v rows = find (\<lambda>r. row_version r = v) rows"

definition select_checksum :: "string \<Rightarrow> migration_row list \<Rightarrow> (string option \<times> migration_row list) option" where
  "select_checksum v rows = Some (map_option row_checksum (find_version v rows), rows)"

definition insert_migration_row :: "migration_row \<Rightarrow> migration_row list \<Rightarrow> (unit \<times> migration_row list) option" where
  "insert_migration_row r rows = (if find_version (row_version r) rows \<noteq> None then None else Some ((), rows @ [r]))"

definition select_applied_at :: "string \<Rightarrow> migration_row list \<Rightarrow> (string \<times> migration_row list) option" where
  "select_applied_at v rows = map_option (\<lambda>r. (row_applied_at r, rows)) (find_version v rows)"

definition delete_migration_row :: "string \<Rightarrow> migration_row list \<Rightarrow> (unit \<times> migration_row list) option" where
  "delete_migration_row v rows = Some ((), filter (\<lambda>r. row_version r \<noteq> v) rows)"

fun insert_ordered :: "(string \<Rightarrow> string \<Rightarrow> bool) \<Rightarrow> migration_row \<Rightarrow> migration_row list \<Rightarrow> migration_row list" where
  "insert_ordered le r [] = [r]"
| "insert_ordered le r (x # xs) = (if le (row_version r) (row_version x) then r # x # xs else x # insert_ordered le r xs)"

definition order_by_version :: "(string \<Rightarrow> string \<Rightarrow> bool) \<Rightarrow> migration_row list \<Rightarrow> migration_row list" where
  "order_by_version le rows = foldr (insert_ordered le) rows []"

definition select_latest :: "(string \<Rightarrow> string \<Rightarrow> bool) \<Rightarrow> migration_row list \<Rightarrow> ((string \<times> string) option \<times> migration_row list) option" where
  "select_latest le rows = Some (case rev (order_by_version le rows) of
     [] \<Rightarrow> None | r # _ \<Rightarrow> Some (row_version r, row_checksum r), rows)"

definition ensure_migrations_table :: "('f, 'd) sql_engine \<Rightarrow> ('d connection, unit) store_op" where
  "ensure_migrations_table eng = store_then (run_step eng StepEnsureTable) (\<lambda>_ c.
     (Inr (), case db_log (working c) of
        None \<Rightarrow> c\<lparr> working := (working c)\<lparr> db_log := Some [] \<rparr> \<rparr> | Some _ \<Rightarrow> c))"

definition migrations_table_exists :: "('f, 'd) sql_engine \<Rightarrow> ('d connection, bool) store_op" where
  "migrations_table_exists eng = store_then (run_step eng StepTableExists) (\<lambda>_ c. (Inr (db_log (working c) \<noteq> None), c))"

definition commit_transaction :: "('f, 'd) sql_engine \<Rightarrow> ('d connection, unit) store_op" where
  "commit_transaction eng = store_then (run_step eng StepCommit) (\<lambda>_ c. (Inr (), c\<lparr> durable := working c \<rparr>))"

definition transaction :: "('f, 'd) sql_engine \<Rightarrow> ('d connection, 'a) store_op \<Rightarrow> ('d database, 'a) store_op" where
  "transaction eng body = store_then (run_step eng StepBegin) (\<lambda>_ db.
     case body \<lparr> durable = db, working = db \<rparr> of (r, c) \<Rightarrow> (r, durable c))"

subsection \<open>Applying migrations\<close>

definition migration_fail :: "db_error_code \<Rightarrow> string \<Rightarrow> string \<Rightarrow> ('s, 'a) store_op" where
  "migration_fail c version detail = store_lift (Inl (migration_error c version detail))"

definition new_row :: "ax_migration \<Rightarrow> string \<Rightarrow> nat \<Rightarrow> migration_row" where
  "new_row m at ms = \<lparr> row_version = mig_version m, row_name = mig_name m, row_checksum = mig_checksum m,
     row_applied_at = at, row_execution_ms = ms \<rparr>"

definition elapsed_ms :: "('f, 'd) sql_engine \<Rightarrow> ax_migration \<Rightarrow> nat" where
  "elapsed_ms eng m = min (2 ^ 64 - 1) (snd (engine_clock eng (mig_version m)))"

text \<open>The statements that record a migration: SQLite reads \<open>applied_at\<close> back, PostgreSQL returns it from
  the insert and stores a signed number.\<close>

definition sqlite_record :: "('f, 'd) sql_engine \<Rightarrow> ax_migration \<Rightarrow> ('d connection, migration_row) store_op" where
  "sqlite_record eng m =
     (let v = mig_version m in
      store_then (table_statement eng (StepInsert v) (insert_migration_row (new_row m (fst (engine_clock eng v)) (elapsed_ms eng m)))) (\<lambda>_.
      store_then (table_statement eng (StepReadBack v) (select_applied_at v)) (\<lambda>at.
      store_return (new_row m at (elapsed_ms eng m)))))"

definition postgres_record :: "('f, 'd) sql_engine \<Rightarrow> ax_migration \<Rightarrow> ('d connection, migration_row) store_op" where
  "postgres_record eng m =
     (let v = mig_version m; at = fst (engine_clock eng v) in
      store_then (table_statement eng (StepInsert v) (insert_migration_row (new_row m at (min (2 ^ 63 - 1) (elapsed_ms eng m))))) (\<lambda>_.
      store_return (new_row m at (elapsed_ms eng m))))"

type_synonym ('f, 'd) recorder = "('f, 'd) sql_engine \<Rightarrow> ax_migration \<Rightarrow> ('d connection, migration_row) store_op"

fun apply_pending :: "('f, 'd) recorder \<Rightarrow> ('f, 'd) sql_engine \<Rightarrow> bool \<Rightarrow> ax_migration list \<Rightarrow> migration_row list
    \<Rightarrow> ('d connection, migration_row list) store_op" where
  "apply_pending rec eng skip [] applied = store_return applied"
| "apply_pending rec eng skip (m # ms) applied =
     store_then (table_statement eng (StepLookup (mig_version m)) (select_checksum (mig_version m))) (\<lambda>existing.
       case existing of
         Some checksum \<Rightarrow>
           if checksum \<noteq> mig_checksum m
           then migration_fail DbMigrationChecksumMismatch (mig_version m) ''migration version is already present with a different checksum''
           else if skip then apply_pending rec eng skip ms applied
           else migration_fail DbMigrationConflict (mig_version m) ''migration version is already present in database history''
       | None \<Rightarrow>
           store_then (batch_statement eng (mig_version m) (mig_up m)) (\<lambda>_.
           store_then (rec eng m) (\<lambda>row. apply_pending rec eng skip ms (applied @ [row]))))"

definition apply_all :: "('f, 'd) recorder \<Rightarrow> ('f, 'd) sql_engine \<Rightarrow> bool \<Rightarrow> ax_migration list
    \<Rightarrow> ('d connection, migration_row list) store_op" where
  "apply_all rec eng skip ms =
     store_then (ensure_migrations_table eng) (\<lambda>_.
     store_then (apply_pending rec eng skip ms []) (\<lambda>applied.
     store_then (commit_transaction eng) (\<lambda>_. store_return applied)))"

definition validate_all :: "ax_migration list \<Rightarrow> rt_error + unit" where
  "validate_all ms = and_then (try_map validate_migration ms) (\<lambda>_. Inr ())"

definition ensure_persistent_sqlite_migration_url :: "string option \<Rightarrow> rt_error + unit" where
  "ensure_persistent_sqlite_migration_url url =
     (if (case url of Some u \<Rightarrow> sqlite_database_path u = '':memory:'' | None \<Rightarrow> False)
      then Inl (migration_error DbInvalidQuery migrations_resource ''database migrations require a persistent SQLite file'')
      else Inr ())"

definition sqlite_open_connection :: "('f, 'd) sql_engine \<Rightarrow> string option \<Rightarrow> ('d database, unit) store_op" where
  "sqlite_open_connection eng url =
     (case url of
        None \<Rightarrow> store_lift (Inl (RtDatabase ((db_error_new DbConnectionFailed)\<lparr> dbe_driver := Some (driver_str DriverSqlite),
          dbe_resource := Some migrations_resource, dbe_detail := Some ''missing sqlite database url'' \<rparr>)))
      | Some _ \<Rightarrow> store_then (run_step eng StepOpen) (\<lambda>_. run_step eng StepBusyTimeout))"

definition sqlite_apply_migrations_locked :: "('f, 'd) sql_engine \<Rightarrow> string option \<Rightarrow> ax_migration list \<Rightarrow> bool
    \<Rightarrow> ('d database, migration_row list) store_op" where
  "sqlite_apply_migrations_locked eng url ms skip =
     store_then (store_lift (validate_all ms)) (\<lambda>_.
       if ms = [] then store_return []
       else store_then (store_lift (ensure_persistent_sqlite_migration_url url)) (\<lambda>_.
         store_then (sqlite_open_connection eng url) (\<lambda>_.
         transaction eng (apply_all sqlite_record eng skip ms))))"

text \<open>\<open>pop().ok_or_else\<close> of the single migration.\<close>

definition pop_applied :: "ax_migration \<Rightarrow> migration_row list \<Rightarrow> rt_error + migration_row" where
  "pop_applied m rows = (if rows = [] then Inl (migration_error DbMigrationConflict (mig_version m) ''migration was already applied'')
     else Inr (last rows))"

definition sqlite_apply_migration :: "('f, 'd) sql_engine \<Rightarrow> string option \<Rightarrow> ax_migration \<Rightarrow> ('d database, migration_row) store_op" where
  "sqlite_apply_migration eng url m =
     store_then (sqlite_apply_migrations_locked eng url [m] False) (\<lambda>rows. store_lift (pop_applied m rows))"

definition sqlite_apply_migrations :: "('f, 'd) sql_engine \<Rightarrow> string option \<Rightarrow> ax_migration list \<Rightarrow> ('d database, migration_row list) store_op" where
  "sqlite_apply_migrations eng url ms = sqlite_apply_migrations_locked eng url ms True"

text \<open>The PostgreSQL side reaches its client through a pool or opens one; \<open>connect\<close> is the result of that.\<close>

record pool_state =
  pool_max_size :: nat
  pool_connections :: nat
  pool_idle :: nat

definition postgres_pool_connection :: "pool_state \<Rightarrow> string option \<Rightarrow> string \<Rightarrow> rt_error + unit" where
  "postgres_pool_connection st failure resource =
     (case failure of
        None \<Rightarrow> Inr ()
      | Some text \<Rightarrow>
          Inl (RtDatabase ((db_error_new (if pool_max_size st \<le> pool_connections st \<and> pool_idle st = 0 then DbTimeout else DbConnectionFailed))
            \<lparr> dbe_driver := Some (driver_str DriverPostgres), dbe_resource := Some resource, dbe_detail := Some text \<rparr>)))"

definition postgres_open_connection :: "(postgres_tls_mode \<Rightarrow> string option \<Rightarrow> rt_error + unit) \<Rightarrow> (string \<Rightarrow> postgres_failure option)
    \<Rightarrow> string option \<Rightarrow> string \<Rightarrow> rt_error + unit" where
  "postgres_open_connection tls client_connect url resource =
     (case url of
        None \<Rightarrow> Inl (postgres_connection_config_error resource ''missing postgres database url'')
      | Some u \<Rightarrow> and_then (postgres_tls_settings u resource) (\<lambda>(connection_url, mode, root_cert).
          and_then (tls mode root_cert) (\<lambda>_.
          case client_connect connection_url of
            Some f \<Rightarrow> Inl (postgres_runtime_error resource f)
          | None \<Rightarrow> Inr ())))"

definition postgres_with_client :: "(pool_state \<times> string option) option \<Rightarrow> rt_error + unit \<Rightarrow> ('s, 'a) store_op \<Rightarrow> ('s, 'a) store_op" where
  "postgres_with_client pool opened operation =
     store_then (store_lift (case pool of
        Some (st, failure) \<Rightarrow> postgres_pool_connection st failure migrations_resource
      | None \<Rightarrow> opened)) (\<lambda>_. operation)"

definition postgres_apply_migrations_locked :: "('f, 'd) sql_engine \<Rightarrow> (pool_state \<times> string option) option \<Rightarrow> rt_error + unit
    \<Rightarrow> ax_migration list \<Rightarrow> bool \<Rightarrow> ('d database, migration_row list) store_op" where
  "postgres_apply_migrations_locked eng pool opened ms skip =
     store_then (store_lift (validate_all ms)) (\<lambda>_.
       if ms = [] then store_return []
       else postgres_with_client pool opened
         (transaction eng (store_then (run_step eng StepLock) (\<lambda>_. apply_all postgres_record eng skip ms))))"

definition postgres_apply_migration :: "('f, 'd) sql_engine \<Rightarrow> (pool_state \<times> string option) option \<Rightarrow> rt_error + unit
    \<Rightarrow> ax_migration \<Rightarrow> ('d database, migration_row) store_op" where
  "postgres_apply_migration eng pool opened m =
     store_then (postgres_apply_migrations_locked eng pool opened [m] False) (\<lambda>rows. store_lift (pop_applied m rows))"

definition postgres_apply_migrations :: "('f, 'd) sql_engine \<Rightarrow> (pool_state \<times> string option) option \<Rightarrow> rt_error + unit
    \<Rightarrow> ax_migration list \<Rightarrow> ('d database, migration_row list) store_op" where
  "postgres_apply_migrations eng pool opened ms = postgres_apply_migrations_locked eng pool opened ms True"

subsection \<open>Rolling back and reading the history\<close>

definition validate_rollback_target :: "ax_migration \<Rightarrow> (string \<times> string) option \<Rightarrow> rt_error + unit" where
  "validate_rollback_target m latest =
     (case latest of
        None \<Rightarrow> Inl (migration_error DbMigrationConflict (mig_version m) ''database migration history is empty'')
      | Some (version, checksum) \<Rightarrow>
          if version \<noteq> mig_version m then Inl (migration_error DbMigrationConflict (mig_version m)
            (''only latest migration `'' @ version @ ''` can be rolled back''))
          else if checksum \<noteq> mig_checksum m then Inl (migration_error DbMigrationChecksumMismatch (mig_version m)
            ''local migration differs from the applied migration'')
          else Inr ())"

definition rollback_latest :: "('f, 'd) sql_engine \<Rightarrow> ax_migration \<Rightarrow> ('d connection, unit) store_op" where
  "rollback_latest eng m =
     store_then (migrations_table_exists eng) (\<lambda>present.
       if \<not> present then migration_fail DbMigrationConflict (mig_version m) ''database migration history is empty''
       else store_then (table_statement eng StepLatest (select_latest (engine_le eng))) (\<lambda>latest.
         store_then (store_lift (validate_rollback_target m latest)) (\<lambda>_.
         store_then (batch_statement eng (mig_version m) (mig_down m)) (\<lambda>_.
         store_then (table_statement eng (StepDelete (mig_version m)) (delete_migration_row (mig_version m))) (\<lambda>_.
         commit_transaction eng)))))"

definition sqlite_rollback_migration :: "('f, 'd) sql_engine \<Rightarrow> string option \<Rightarrow> ax_migration \<Rightarrow> ('d database, unit) store_op" where
  "sqlite_rollback_migration eng url m =
     store_then (store_lift (validate_migration m)) (\<lambda>_.
     store_then (store_lift (ensure_persistent_sqlite_migration_url url)) (\<lambda>_.
     store_then (sqlite_open_connection eng url) (\<lambda>_.
     transaction eng (rollback_latest eng m))))"

definition postgres_rollback_migration :: "('f, 'd) sql_engine \<Rightarrow> (pool_state \<times> string option) option \<Rightarrow> rt_error + unit
    \<Rightarrow> ax_migration \<Rightarrow> ('d database, unit) store_op" where
  "postgres_rollback_migration eng pool opened m =
     store_then (store_lift (validate_migration m)) (\<lambda>_.
     postgres_with_client pool opened
       (transaction eng (store_then (run_step eng StepLock) (\<lambda>_. rollback_latest eng m))))"

text \<open>Reading the history outside a transaction: the durable table, in version order. A negative time
  cannot be stored by the code above.\<close>

definition read_history :: "('f, 'd) sql_engine \<Rightarrow> ('d database, migration_row list) store_op" where
  "read_history eng =
     store_then (run_step eng StepTableExists) (\<lambda>_ db.
       case db_log db of
         None \<Rightarrow> (Inr [], db)
       | Some rows \<Rightarrow> store_then (run_step eng StepHistory) (\<lambda>_. store_return (order_by_version (engine_le eng) rows)) db)"

definition sqlite_migration_history :: "('f, 'd) sql_engine \<Rightarrow> string option \<Rightarrow> ('d database, migration_row list) store_op" where
  "sqlite_migration_history eng url =
     store_then (store_lift (ensure_persistent_sqlite_migration_url url)) (\<lambda>_.
     store_then (sqlite_open_connection eng url) (\<lambda>_. read_history eng))"

definition postgres_migration_history :: "('f, 'd) sql_engine \<Rightarrow> (pool_state \<times> string option) option \<Rightarrow> rt_error + unit
    \<Rightarrow> ('d database, migration_row list) store_op" where
  "postgres_migration_history eng pool opened = postgres_with_client pool opened (read_history eng)"

subsection \<open>What the statements do\<close>

lemma store_then_cases:
  "store_then f g s = (r, s') \<longleftrightarrow>
     (\<exists>e. f s = (Inl e, s') \<and> r = Inl e) \<or> (\<exists>x s1. f s = (Inr x, s1) \<and> g x s1 = (r, s'))"
  unfolding store_then_def by (cases "f s"; cases "fst (f s)") auto

lemma run_step_result: "run_step eng step s = (r, s') \<longleftrightarrow> s' = s \<and>
   (case engine_fault eng step of Some f \<Rightarrow> r = Inl (engine_error eng migrations_resource f) | None \<Rightarrow> r = Inr ())"
  by (auto simp: run_step_def store_lift_def split: option.splits)

lemma run_step_Inr: "run_step eng step s = (Inr u, s') \<longleftrightarrow> s' = s \<and> engine_fault eng step = None"
  by (auto simp: run_step_result split: option.splits)

lemma table_statement_Inr:
  "table_statement eng step act c = (Inr x, c') \<longleftrightarrow>
     (\<exists>rows rows'. engine_fault eng step = None \<and> db_log (working c) = Some rows \<and> act rows = Some (x, rows')
        \<and> c' = c\<lparr> working := (working c)\<lparr> db_log := Some rows' \<rparr> \<rparr>)"
  by (auto simp: table_statement_def store_then_cases run_step_Inr bind_eq_Some_conv split: option.splits prod.splits)

lemma table_statement_durable: "durable (snd (table_statement eng step act c)) = durable c"
  by (auto simp: table_statement_def store_then_def run_step_def store_lift_def split: option.splits prod.splits sum.splits)

lemma log_same [simp]: "db_log w = Some rows \<Longrightarrow> w\<lparr> db_log := Some rows \<rparr> = w"
  by (cases w) simp

lemma working_same [simp]: "c\<lparr> working := working c \<rparr> = c"
  by (cases c) simp

definition keeps_history :: "('f, 'd) sql_engine \<Rightarrow> string \<Rightarrow> bool" where
  "keeps_history eng sql \<longleftrightarrow> (\<forall>c. durable (snd (engine_batch eng sql c)) = durable c
     \<and> db_log (working (snd (engine_batch eng sql c))) = db_log (working c))"

definition logged_as :: "ax_migration \<Rightarrow> migration_row \<Rightarrow> bool" where
  "logged_as m r = (row_version r = mig_version m \<and> row_name r = mig_name m \<and> row_checksum r = mig_checksum m)"

lemma new_row_logged [simp]: "logged_as m (new_row m at ms)" "row_version (new_row m at ms) = mig_version m"
  by (simp_all add: logged_as_def new_row_def)

lemma batch_statement_keeps:
  assumes "keeps_history eng sql"
  shows "durable (snd (batch_statement eng v sql c)) = durable c"
    and "db_log (working (snd (batch_statement eng v sql c))) = db_log (working c)"
proof -
  obtain o1 c1 where b: "engine_batch eng sql c = (o1, c1)" by force
  with assms have "durable c1 = durable c \<and> db_log (working c1) = db_log (working c)"
    unfolding keeps_history_def by (metis snd_conv)
  with b show "durable (snd (batch_statement eng v sql c)) = durable c"
      "db_log (working (snd (batch_statement eng v sql c))) = db_log (working c)"
    by (auto simp: batch_statement_def split: option.splits)
qed

subsection \<open>The contract of a recorder\<close>

locale migration_recorder =
  fixes rec :: "('f, 'd) recorder"
  assumes rec_durable: "durable (snd (rec eng m c)) = durable c"
    and rec_appends: "rec eng m c = (Inr row, c') \<Longrightarrow> \<exists>rows r. db_log (working c) = Some rows
      \<and> find_version (mig_version m) rows = None \<and> logged_as m r \<and> logged_as m row
      \<and> c' = c\<lparr> working := (working c)\<lparr> db_log := Some (rows @ [r]) \<rparr> \<rparr>"

lemma store_then_durable:
  "(\<And>c. durable (snd (f c)) = durable c) \<Longrightarrow> (\<And>x c. durable (snd (g x c)) = durable c) \<Longrightarrow>
    durable (snd (store_then f g c)) = durable c"
proof -
  assume f: "\<And>c. durable (snd (f c)) = durable c" and g: "\<And>x c. durable (snd (g x c)) = durable c"
  obtain r s where fc: "f c = (r, s)" by force
  with f [of c] have "durable s = durable c" by simp
  with fc g [of _ s] show ?thesis by (cases r) (simp_all add: store_then_def)
qed

interpretation sqlite: migration_recorder sqlite_record
proof
  fix eng :: "('f, 'd) sql_engine" and m c
  show "durable (snd (sqlite_record eng m c)) = durable c"
    unfolding sqlite_record_def Let_def
    by (intro store_then_durable table_statement_durable) (simp add: store_return_def)
next
  fix eng :: "('f, 'd) sql_engine" and m c row c'
  assume "sqlite_record eng m c = (Inr row, c')"
  then show "\<exists>rows r. db_log (working c) = Some rows
      \<and> find_version (mig_version m) rows = None \<and> logged_as m r \<and> logged_as m row
      \<and> c' = c\<lparr> working := (working c)\<lparr> db_log := Some (rows @ [r]) \<rparr> \<rparr>"
    by (auto simp: sqlite_record_def Let_def store_then_cases table_statement_Inr insert_migration_row_def
        select_applied_at_def store_return_def split: if_splits) (metis new_row_logged(1))
qed

interpretation postgres: migration_recorder postgres_record
proof
  fix eng :: "('f, 'd) sql_engine" and m c
  show "durable (snd (postgres_record eng m c)) = durable c"
    unfolding postgres_record_def Let_def
    by (intro store_then_durable table_statement_durable) (simp add: store_return_def)
next
  fix eng :: "('f, 'd) sql_engine" and m c row c'
  assume "postgres_record eng m c = (Inr row, c')"
  then show "\<exists>rows r. db_log (working c) = Some rows
      \<and> find_version (mig_version m) rows = None \<and> logged_as m r \<and> logged_as m row
      \<and> c' = c\<lparr> working := (working c)\<lparr> db_log := Some (rows @ [r]) \<rparr> \<rparr>"
    by (auto simp: postgres_record_def Let_def store_then_cases table_statement_Inr insert_migration_row_def
        store_return_def split: if_splits) (metis new_row_logged(1))
qed

fun pending :: "string set \<Rightarrow> ax_migration list \<Rightarrow> ax_migration list" where
  "pending vs [] = []"
| "pending vs (m # ms) =
     (if mig_version m \<in> vs then pending vs ms else m # pending (insert (mig_version m) vs) ms)"

definition versions :: "migration_row list \<Rightarrow> string set" where
  "versions rows = row_version ` set rows"

lemma find_version_None: "find_version v rows = None \<longleftrightarrow> v \<notin> versions rows"
  by (auto simp: find_version_def versions_def find_None_iff)

lemma find_version_append: "find_version v (rows @ new) = (case find_version v rows of None \<Rightarrow> find_version v new | Some r \<Rightarrow> Some r)"
  unfolding find_version_def by (induction rows) auto

definition history :: "'d database \<Rightarrow> migration_row list" where
  "history db = (case db_log db of None \<Rightarrow> [] | Some rows \<Rightarrow> rows)"

definition migrated :: "ax_migration list \<Rightarrow> 'd database \<Rightarrow> migration_row list \<Rightarrow> 'd database \<Rightarrow> bool" where
  "migrated ms db out db' \<longleftrightarrow> (\<exists>new. db_log db' = Some (history db @ new)
     \<and> list_all2 logged_as (pending (versions (history db)) ms) new
     \<and> list_all2 logged_as (pending (versions (history db)) ms) out
     \<and> (\<forall>m \<in> set ms. map_option row_checksum (find_version (mig_version m) (history db @ new)) = Some (mig_checksum m)))"

context migration_recorder
begin

lemma apply_pending_durable:
  assumes "\<forall>m \<in> set ms. keeps_history eng (mig_up m)"
  shows "durable (snd (apply_pending rec eng skip ms applied c)) = durable c"
  using assms
proof (induction ms arbitrary: applied c)
  case (Cons m ms)
  have "durable (snd ((case x of
         Some checksum \<Rightarrow>
           if checksum \<noteq> mig_checksum m
           then migration_fail DbMigrationChecksumMismatch (mig_version m) ''migration version is already present with a different checksum''
           else if skip then apply_pending rec eng skip ms applied
           else migration_fail DbMigrationConflict (mig_version m) ''migration version is already present in database history''
       | None \<Rightarrow>
           store_then (batch_statement eng (mig_version m) (mig_up m)) (\<lambda>_.
           store_then (rec eng m) (\<lambda>row. apply_pending rec eng skip ms (applied @ [row])))) c)) = durable c" for x c
    using Cons by (auto simp: migration_fail_def store_lift_def split: option.splits
        intro!: store_then_durable batch_statement_keeps rec_durable)
  then show ?case unfolding apply_pending.simps by (intro store_then_durable table_statement_durable)
qed (simp add: store_return_def)

lemma apply_pending_history:
  assumes "\<forall>m \<in> set ms. keeps_history eng (mig_up m)" and "db_log (working c) = Some rows"
    and "apply_pending rec eng skip ms applied c = (Inr out, c')"
  shows "\<exists>new out'. out = applied @ out' \<and> db_log (working c') = Some (rows @ new)
    \<and> list_all2 logged_as (pending (versions rows) ms) new \<and> list_all2 logged_as (pending (versions rows) ms) out'
    \<and> (\<forall>m \<in> set ms. map_option row_checksum (find_version (mig_version m) (rows @ new)) = Some (mig_checksum m))"
  using assms
proof (induction ms arbitrary: applied c rows)
  case (Cons m ms)
  show ?case
  proof (cases "find_version (mig_version m) rows")
    case (Some r)
    from Cons.prems(2,3) Some have ck: "row_checksum r = mig_checksum m" and s: "skip"
      and "apply_pending rec eng skip ms applied c = (Inr out, c')"
      by (auto simp: store_then_cases table_statement_Inr select_checksum_def migration_fail_def store_lift_def split: if_splits)
    from Cons.IH [OF _ Cons.prems(2) this(3)] Cons.prems(1) obtain new out' where
      "out = applied @ out' \<and> db_log (working c') = Some (rows @ new)
    \<and> list_all2 logged_as (pending (versions rows) ms) new \<and> list_all2 logged_as (pending (versions rows) ms) out'
    \<and> (\<forall>m \<in> set ms. map_option row_checksum (find_version (mig_version m) (rows @ new)) = Some (mig_checksum m))" by auto
    moreover have "mig_version m \<in> versions rows" using Some find_version_None [of "mig_version m" rows] by simp
    ultimately show ?thesis using ck Some by (auto simp: find_version_append)
  next
    case None
    from Cons.prems(2,3) None obtain c1 row c2 where
        b: "batch_statement eng (mig_version m) (mig_up m) c = (Inr (), c1)" and r: "rec eng m c1 = (Inr row, c2)"
      and rest: "apply_pending rec eng skip ms (applied @ [row]) c2 = (Inr out, c')"
      by (auto simp: store_then_cases table_statement_Inr select_checksum_def split: if_splits)
    have l1: "db_log (working c1) = Some rows"
      using batch_statement_keeps(2) [of eng "mig_up m" "mig_version m" c] Cons.prems(1,2) b by simp
    from rec_appends [OF r] l1 obtain x where x: "logged_as m x" "logged_as m row"
        "c2 = c1\<lparr> working := (working c1)\<lparr> db_log := Some (rows @ [x]) \<rparr> \<rparr>" by auto
    then have l2: "db_log (working c2) = Some (rows @ [x])" by simp
    from Cons.IH [OF _ l2 rest] Cons.prems(1) obtain new out' where o: "out = (applied @ [row]) @ out'"
        "db_log (working c') = Some ((rows @ [x]) @ new)"
        "list_all2 logged_as (pending (versions (rows @ [x])) ms) new" "list_all2 logged_as (pending (versions (rows @ [x])) ms) out'"
        "\<forall>m \<in> set ms. map_option row_checksum (find_version (mig_version m) ((rows @ [x]) @ new)) = Some (mig_checksum m)" by auto
    have "versions (rows @ [x]) = insert (mig_version m) (versions rows)" using x(1) by (auto simp: versions_def logged_as_def)
    moreover have "mig_version m \<notin> versions rows" using None find_version_None [of "mig_version m" rows] by simp
    moreover have "map_option row_checksum (find_version (mig_version m) (rows @ x # new)) = Some (mig_checksum m)"
      using None x(1) by (simp add: find_version_append logged_as_def) (simp add: find_version_def)
    ultimately show ?thesis using o x
      by (intro exI [of _ "x # new"] exI [of _ "row # out'"]) auto
  qed
qed (auto simp: store_return_def)

lemma apply_pending_again:
  assumes "db_log (working c) = Some rows"
    and "\<forall>m \<in> set ms. engine_fault eng (StepLookup (mig_version m)) = None
      \<and> map_option row_checksum (find_version (mig_version m) rows) = Some (mig_checksum m)"
  shows "apply_pending rec eng True ms applied c = (Inr applied, c)"
  using assms(2)
proof (induction ms)
  case (Cons m ms)
  then have "table_statement eng (StepLookup (mig_version m)) (select_checksum (mig_version m)) c = (Inr (Some (mig_checksum m)), c)"
    using assms(1) by (simp add: table_statement_Inr select_checksum_def)
  with Cons show ?case by (simp add: store_then_def)
qed (simp add: store_return_def)

lemma apply_pending_lookups:
  "apply_pending rec eng skip ms applied c = (Inr out, c') \<Longrightarrow> m \<in> set ms \<Longrightarrow> engine_fault eng (StepLookup (mig_version m)) = None"
  by (induction ms arbitrary: applied c)
    (auto simp: store_then_cases table_statement_Inr migration_fail_def store_lift_def split: option.splits if_splits)

lemma apply_all_durable:
  assumes "\<forall>m \<in> set ms. keeps_history eng (mig_up m)" and "apply_all rec eng skip ms c = (Inl e, c')"
  shows "durable c' = durable c"
proof -
  from assms(2) consider "ensure_migrations_table eng c = (Inl e, c')"
    | c1 where "ensure_migrations_table eng c = (Inr (), c1)" "apply_pending rec eng skip ms [] c1 = (Inl e, c')"
    | c1 out where "ensure_migrations_table eng c = (Inr (), c1)" "apply_pending rec eng skip ms [] c1 = (Inr out, c')"
    by (auto simp: apply_all_def store_then_cases commit_transaction_def store_return_def run_step_Inr)
      (auto simp: run_step_result)
  moreover have "durable (snd (ensure_migrations_table eng c)) = durable c"
    by (auto simp: ensure_migrations_table_def store_then_def run_step_def store_lift_def split: option.splits)
  moreover have "durable (snd (apply_pending rec eng skip ms [] d)) = durable d" for d
    by (rule apply_pending_durable [OF assms(1)])
  ultimately show ?thesis by (cases; metis snd_conv)
qed

lemma apply_all_migrates:
  assumes "\<forall>m \<in> set ms. keeps_history eng (mig_up m)"
    and "apply_all rec eng skip ms \<lparr> durable = db, working = db \<rparr> = (Inr out, c')"
  shows "migrated ms db out (durable c')"
proof -
  from assms(2) obtain c1 c2 where e: "ensure_migrations_table eng \<lparr> durable = db, working = db \<rparr> = (Inr (), c1)"
      and a: "apply_pending rec eng skip ms [] c1 = (Inr out, c2)" and c': "c' = c2\<lparr> durable := working c2 \<rparr>"
    by (auto simp: apply_all_def store_then_cases commit_transaction_def store_return_def run_step_Inr)
  have "db_log (working c1) = Some (history db)"
    using e by (auto simp: ensure_migrations_table_def store_then_cases run_step_Inr history_def split: option.splits)
  from apply_pending_history [OF assms(1) this a] c' show ?thesis by (auto simp: migrated_def)
qed

lemma apply_all_again:
  assumes "apply_all rec eng True ms \<lparr> durable = db, working = db \<rparr> = (Inr out, c')"
    and "migrated ms db out (durable c')"
  shows "apply_all rec eng True ms \<lparr> durable = durable c', working = durable c' \<rparr>
    = (Inr [], \<lparr> durable = durable c', working = durable c' \<rparr>)"
proof -
  let ?d = "\<lparr> durable = durable c', working = durable c' \<rparr>"
  from assms(1) obtain c1 c2 where e: "ensure_migrations_table eng \<lparr> durable = db, working = db \<rparr> = (Inr (), c1)"
      and a: "apply_pending rec eng True ms [] c1 = (Inr out, c2)" and k: "engine_fault eng StepCommit = None"
    by (auto simp: apply_all_def store_then_cases commit_transaction_def store_return_def run_step_Inr)
  from assms(2) obtain rows where rows: "db_log (durable c') = Some rows"
      "\<forall>m \<in> set ms. map_option row_checksum (find_version (mig_version m) rows) = Some (mig_checksum m)"
    by (auto simp: migrated_def)
  have "ensure_migrations_table eng ?d = (Inr (), ?d)"
    using e rows(1) by (auto simp: ensure_migrations_table_def store_then_cases run_step_Inr)
  moreover have "apply_pending rec eng True ms [] ?d = (Inr [], ?d)"
    using rows apply_pending_lookups [OF a] by (intro apply_pending_again) auto
  moreover have "commit_transaction eng ?d = (Inr (), ?d)"
    using k by (simp add: commit_transaction_def store_then_def run_step_def store_lift_def)
  ultimately show ?thesis by (simp add: apply_all_def store_then_def store_return_def)
qed

end

lemma transaction_Inr:
  "transaction eng body db = (Inr x, db') \<longleftrightarrow>
     (\<exists>c. engine_fault eng StepBegin = None \<and> body \<lparr> durable = db, working = db \<rparr> = (Inr x, c) \<and> db' = durable c)"
  by (auto simp: transaction_def store_then_cases run_step_Inr split: prod.splits)

lemma transaction_Inl:
  "transaction eng body db = (Inl e, db') \<Longrightarrow>
     db' = db \<or> (\<exists>c. body \<lparr> durable = db, working = db \<rparr> = (Inl e, c) \<and> db' = durable c)"
  by (auto simp: transaction_def store_then_cases run_step_result split: prod.splits)

text \<open>The steps before a transaction leave the database alone.\<close>

definition pure_op :: "('s, 'a) store_op \<Rightarrow> bool" where
  "pure_op f \<longleftrightarrow> (\<forall>s. snd (f s) = s)"

lemma pure_ops [intro]:
  "pure_op (store_lift r)" "pure_op (store_return x)" "pure_op (run_step eng step)"
  "pure_op f \<Longrightarrow> (\<And>x. pure_op (g x)) \<Longrightarrow> pure_op (store_then f g)"
proof -
  assume f: "pure_op f" and g: "\<And>x. pure_op (g x)"
  show "pure_op (store_then f g)"
    unfolding pure_op_def
  proof
    fix s
    obtain r s' where "f s = (r, s')" by force
    moreover from this f have "s' = s" unfolding pure_op_def by (metis snd_conv)
    ultimately show "snd (store_then f g s) = s" using g by (cases r) (auto simp: store_then_def pure_op_def)
  qed
qed (simp_all add: pure_op_def store_lift_def store_return_def run_step_def)

lemma pure_sqlite_open: "pure_op (sqlite_open_connection eng url)"
  unfolding sqlite_open_connection_def by (cases url) auto

lemma pure_store_then: "pure_op f \<Longrightarrow> store_then f g s = (r, s') \<longleftrightarrow>
    (\<exists>e. fst (f s) = Inl e \<and> r = Inl e \<and> s' = s) \<or> (\<exists>x. fst (f s) = Inr x \<and> g x s = (r, s'))"
proof -
  assume "pure_op f"
  then have "snd (f s) = s" by (simp add: pure_op_def)
  then show ?thesis by (auto simp: store_then_cases) (metis prod.collapse)+
qed


subsection \<open>All or nothing\<close>

definition all_or_nothing :: "ax_migration list \<Rightarrow> 'd database \<Rightarrow> (rt_error + migration_row list) \<times> 'd database \<Rightarrow> bool" where
  "all_or_nothing ms db result =
     (case result of
        (Inl e, db') \<Rightarrow> db' = db
      | (Inr out, db') \<Rightarrow> if ms = [] then out = [] \<and> db' = db else migrated ms db out db')"

lemma all_or_nothing_pure:
  "pure_op f \<Longrightarrow> (\<And>x. all_or_nothing ms db (g x db)) \<Longrightarrow> all_or_nothing ms db (store_then f g db)"
proof -
  assume f: "pure_op f" and g: "\<And>x. all_or_nothing ms db (g x db)"
  obtain r s' where r: "f db = (r, s')" by force
  with f have "s' = db" unfolding pure_op_def by (metis snd_conv)
  with r g show ?thesis by (cases r) (auto simp: store_then_def all_or_nothing_def)
qed

context migration_recorder
begin

lemma transaction_all_or_nothing:
  assumes "\<forall>m \<in> set ms. keeps_history eng (mig_up m)" and "ms \<noteq> []" and "pure_op f"
  shows "all_or_nothing ms db (transaction eng (store_then f (\<lambda>_. apply_all rec eng skip ms)) db)"
proof -
  obtain r db' where t: "transaction eng (store_then f (\<lambda>_. apply_all rec eng skip ms)) db = (r, db')" by force
  show ?thesis
  proof (cases r)
    case (Inl e)
    with t transaction_Inl [of eng "store_then f (\<lambda>_. apply_all rec eng skip ms)" db e db'] assms(3)
    have "db' = db" by (auto simp: pure_store_then dest: apply_all_durable [OF assms(1)])
    with t Inl show ?thesis by (simp add: all_or_nothing_def)
  next
    case (Inr out)
    with t assms(3) have "migrated ms db out db'"
      by (auto simp: transaction_Inr pure_store_then intro: apply_all_migrates [OF assms(1)])
    with t Inr assms(2) show ?thesis by (simp add: all_or_nothing_def)
  qed
qed

lemma transaction_again:
  assumes "pure_op f" "transaction eng (store_then f (\<lambda>_. apply_all rec eng True ms)) db = (Inr out, db')"
    and "\<forall>m \<in> set ms. keeps_history eng (mig_up m)" and "\<And>s s'. fst (f s) = fst (f s')"
  shows "transaction eng (store_then f (\<lambda>_. apply_all rec eng True ms)) db' = (Inr [], db')"
proof -
  from assms(1,2) obtain c x where "engine_fault eng StepBegin = None" and x: "fst (f \<lparr> durable = db, working = db \<rparr>) = Inr x"
      and a: "apply_all rec eng True ms \<lparr> durable = db, working = db \<rparr> = (Inr out, c)" and d: "db' = durable c"
    by (auto simp: transaction_Inr pure_store_then)
  moreover from apply_all_again [OF a apply_all_migrates [OF assms(3) a]] d
  have "apply_all rec eng True ms \<lparr> durable = db', working = db' \<rparr> = (Inr [], \<lparr> durable = db', working = db' \<rparr>)" by simp
  moreover from x assms(4) have "fst (f \<lparr> durable = db', working = db' \<rparr>) = Inr x" by metis
  ultimately show ?thesis using assms(1) by (auto simp: transaction_Inr pure_store_then)
qed

end

lemma sqlite_all_or_nothing:
  assumes "\<forall>m \<in> set ms. keeps_history eng (mig_up m)"
  shows "all_or_nothing ms db (sqlite_apply_migrations_locked eng url ms skip db)"
proof (cases "ms = []")
  case True
  then show ?thesis
    by (simp add: sqlite_apply_migrations_locked_def all_or_nothing_def store_return_def store_then_def store_lift_def validate_all_def)
next
  case False
  from sqlite.transaction_all_or_nothing [OF assms False, of "store_return ()" db skip]
  have "all_or_nothing ms db (transaction eng (apply_all sqlite_record eng skip ms) db)" by (simp only: store_then_return) blast
  then show ?thesis
    unfolding sqlite_apply_migrations_locked_def if_not_P [OF False]
    by (intro all_or_nothing_pure pure_ops pure_sqlite_open)
qed

lemma postgres_all_or_nothing:
  assumes "\<forall>m \<in> set ms. keeps_history eng (mig_up m)"
  shows "all_or_nothing ms db (postgres_apply_migrations_locked eng pool opened ms skip db)"
proof (cases "ms = []")
  case True
  then show ?thesis
    by (simp add: postgres_apply_migrations_locked_def all_or_nothing_def store_return_def store_then_def store_lift_def validate_all_def)
next
  case False
  show ?thesis
    unfolding postgres_apply_migrations_locked_def postgres_with_client_def if_not_P [OF False]
    by (intro all_or_nothing_pure pure_ops postgres.transaction_all_or_nothing [OF assms False])
qed


lemma pure_success:
  "pure_op f \<Longrightarrow> store_then f g s = (Inr y, s') \<longleftrightarrow> (\<exists>x. fst (f s) = Inr x \<and> g x s = (Inr y, s'))"
  by (auto simp: pure_store_then)

lemma store_lift_fst [simp]: "fst (store_lift r s) = r" "fst (run_step eng step s) = fst (run_step eng step t)"
  by (simp_all add: store_lift_def run_step_def)

lemma sqlite_open_fst: "fst (sqlite_open_connection eng url s) = fst (sqlite_open_connection eng url t)"
  by (auto simp: sqlite_open_connection_def store_lift_def store_then_def run_step_def split: option.splits)

text \<open>Applying a batch that has just been applied changes nothing and reports nothing as applied.\<close>

theorem migrations_idempotent:
  assumes "\<forall>m \<in> set ms. keeps_history eng (mig_up m)"
  shows "(sqlite_apply_migrations eng url ms db = (Inr out, db') \<longrightarrow> sqlite_apply_migrations eng url ms db' = (Inr [], db'))
    \<and> (postgres_apply_migrations eng pool opened ms db = (Inr out, db') \<longrightarrow> postgres_apply_migrations eng pool opened ms db' = (Inr [], db'))"
proof (cases "ms = []")
  case True
  then show ?thesis
    by (auto simp: sqlite_apply_migrations_def sqlite_apply_migrations_locked_def postgres_apply_migrations_def
        postgres_apply_migrations_locked_def pure_success [OF pure_ops(1)] store_return_def simp del: store_then_lift)
next
  case False
  let ?lock = "run_step eng StepLock"
  have "sqlite_apply_migrations eng url ms db' = (Inr [], db')" if "sqlite_apply_migrations eng url ms db = (Inr out, db')"
    using that False sqlite.transaction_again [of "store_return ()" eng ms db out db'] assms sqlite_open_fst [of eng url db db']
    by (auto simp: sqlite_apply_migrations_def sqlite_apply_migrations_locked_def pure_success [OF pure_ops(1)]
        pure_success [OF pure_sqlite_open] store_return_def simp del: store_then_lift)
  moreover have "postgres_apply_migrations eng pool opened ms db' = (Inr [], db')"
    if "postgres_apply_migrations eng pool opened ms db = (Inr out, db')"
    using that False postgres.transaction_again [of ?lock eng ms db out db'] assms store_lift_fst(2)
    by (auto simp: postgres_apply_migrations_def postgres_apply_migrations_locked_def postgres_with_client_def
        pure_success [OF pure_ops(1)] pure_ops simp del: store_then_lift)
  ultimately show ?thesis by blast
qed

subsection \<open>Only the latest migration is rolled back\<close>

lemma insert_ordered_set: "set (insert_ordered le r xs) = insert r (set xs)"
  by (induction xs) auto

lemma order_by_version_set: "set (order_by_version le rows) = set rows"
  unfolding order_by_version_def by (induction rows) (auto simp: insert_ordered_set)

definition version_order :: "(string \<Rightarrow> string \<Rightarrow> bool) \<Rightarrow> bool" where
  "version_order le \<longleftrightarrow> (\<forall>a b. le a b \<or> le b a) \<and> (\<forall>a b c. le a b \<longrightarrow> le b c \<longrightarrow> le a c)"

lemma insert_ordered_sorted:
  "version_order le \<Longrightarrow> sorted_wrt (\<lambda>a b. le (row_version a) (row_version b)) xs \<Longrightarrow>
    sorted_wrt (\<lambda>a b. le (row_version a) (row_version b)) (insert_ordered le r xs)"
  by (induction xs) (auto simp: insert_ordered_set version_order_def)

lemma order_by_version_sorted:
  "version_order le \<Longrightarrow> sorted_wrt (\<lambda>a b. le (row_version a) (row_version b)) (order_by_version le rows)"
  unfolding order_by_version_def by (induction rows) (auto simp: insert_ordered_sorted)

lemma select_latest_max:
  assumes "version_order le" and "select_latest le rows = Some (Some (v, k), rows')"
  shows "rows' = rows \<and> (\<exists>r \<in> set rows. row_version r = v \<and> row_checksum r = k \<and> (\<forall>x \<in> set rows. le (row_version x) v))"
proof -
  from assms(2) obtain r rs where r: "rev (order_by_version le rows) = r # rs" "row_version r = v" "row_checksum r = k" "rows' = rows"
    unfolding select_latest_def by (cases "rev (order_by_version le rows)") simp_all
  have "rev (rev (order_by_version le rows)) = rev (r # rs)" by (simp only: r(1))
  then have o: "order_by_version le rows = rev rs @ [r]" by (simp only: rev_rev_ident rev.simps)
  have "le (row_version r) (row_version r)" using assms(1) unfolding version_order_def by blast
  with order_by_version_sorted [OF assms(1), of rows] have "\<forall>x \<in> set (rev rs @ [r]). le (row_version x) (row_version r)"
    unfolding o by (simp add: sorted_wrt_append)
  then have "\<forall>x \<in> set rows. le (row_version x) v" "r \<in> set rows"
    using order_by_version_set [of le rows] r(2) unfolding o by auto
  with r show ?thesis by blast
qed

definition fails_clean :: "('d connection, 'a) store_op \<Rightarrow> bool" where
  "fails_clean f \<longleftrightarrow> (\<forall>c e c'. f c = (Inl e, c') \<longrightarrow> durable c' = durable c)"

lemma fails_clean_then:
  assumes "\<And>c. durable (snd (f c)) = durable c" and "\<And>x. fails_clean (g x)"
  shows "fails_clean (store_then f g)"
  unfolding fails_clean_def store_then_cases
  using assms unfolding fails_clean_def by (metis snd_conv)

lemma fails_clean_durable: "(\<And>c. durable (snd (f c)) = durable c) \<Longrightarrow> fails_clean f"
  unfolding fails_clean_def by (metis snd_conv)

lemma pure_durable: "pure_op f \<Longrightarrow> durable (snd (f c)) = durable c"
  by (simp add: pure_op_def)

lemma rollback_fails_clean: "keeps_history eng (mig_down m) \<Longrightarrow> fails_clean (rollback_latest eng m)"
proof -
  assume k: "keeps_history eng (mig_down m)"
  have t: "durable (snd (migrations_table_exists eng c)) = durable c" for c
    unfolding migrations_table_exists_def by (intro store_then_durable pure_durable pure_ops) (simp add: pure_op_def)
  have c: "fails_clean (commit_transaction eng)"
    by (auto simp: fails_clean_def commit_transaction_def store_then_cases run_step_result)
  have f: "fails_clean (migration_fail x y z)" for x y z
    by (auto simp: fails_clean_def migration_fail_def store_lift_def)
  show ?thesis
    unfolding rollback_latest_def
    by (intro fails_clean_then t; (split if_split)?; intro conjI impI f fails_clean_then table_statement_durable
        pure_durable pure_ops batch_statement_keeps(1) [OF k] c)
qed

lemma rollback_latest_result:
  assumes "version_order (engine_le eng)" and "keeps_history eng (mig_down m)"
    and "rollback_latest eng m \<lparr> durable = db, working = db \<rparr> = (r, c')"
  shows "case r of Inl _ \<Rightarrow> durable c' = db | Inr _ \<Rightarrow> \<exists>rows. db_log db = Some rows
      \<and> (\<exists>x \<in> set rows. row_version x = mig_version m \<and> row_checksum x = mig_checksum m
           \<and> (\<forall>y \<in> set rows. engine_le eng (row_version y) (mig_version m)))
      \<and> db_log (durable c') = Some (filter (\<lambda>y. row_version y \<noteq> mig_version m) rows)"
proof (cases r)
  case (Inl e)
  with rollback_fails_clean [OF assms(2)] assms(3) have "durable c' = db" unfolding fails_clean_def by fastforce
  with Inl show ?thesis by simp
next
  case (Inr u)
  with assms(3) obtain rows latest rows' c1 where
      l: "select_latest (engine_le eng) rows = Some (latest, rows')" and rows: "db_log db = Some rows"
    and v: "validate_rollback_target m latest = Inr ()"
    and b: "batch_statement eng (mig_version m) (mig_down m) \<lparr> durable = db, working = db\<lparr> db_log := Some rows' \<rparr> \<rparr> = (Inr (), c1)"
    and d: "store_then (table_statement eng (StepDelete (mig_version m)) (delete_migration_row (mig_version m))) (\<lambda>_. commit_transaction eng) c1 = (Inr u, c')"
    by (auto simp: rollback_latest_def store_then_cases migrations_table_exists_def run_step_Inr table_statement_Inr
        migration_fail_def store_lift_def simp del: store_then_lift split: if_splits)
  from v obtain x where "latest = Some (mig_version m, mig_checksum m)"
    by (auto simp: validate_rollback_target_def split: option.splits if_splits)
  with select_latest_max [OF assms(1), of rows "mig_version m" "mig_checksum m" rows'] l
  have max: "rows' = rows" "\<exists>r \<in> set rows. row_version r = mig_version m \<and> row_checksum r = mig_checksum m
      \<and> (\<forall>x \<in> set rows. engine_le eng (row_version x) (mig_version m))" by auto
  have "db_log (working c1) = Some rows"
    using batch_statement_keeps(2) [OF assms(2), of "mig_version m" "\<lparr> durable = db, working = db\<lparr> db_log := Some rows' \<rparr> \<rparr>"] b max(1)
    by simp
  with d have "db_log (durable c') = Some (filter (\<lambda>y. row_version y \<noteq> mig_version m) rows)"
    by (auto simp: store_then_cases table_statement_Inr delete_migration_row_def commit_transaction_def run_step_Inr)
  with max(2) rows Inr show ?thesis by auto
qed

definition rolled_back :: "('f, 'd) sql_engine \<Rightarrow> ax_migration \<Rightarrow> 'd database \<Rightarrow> (rt_error + unit) \<times> 'd database \<Rightarrow> bool" where
  "rolled_back eng m db result =
     (case result of
        (Inl e, db') \<Rightarrow> db' = db
      | (Inr _, db') \<Rightarrow> \<exists>rows. db_log db = Some rows
          \<and> (\<exists>x \<in> set rows. row_version x = mig_version m \<and> row_checksum x = mig_checksum m
               \<and> (\<forall>y \<in> set rows. engine_le eng (row_version y) (mig_version m)))
          \<and> db_log db' = Some (filter (\<lambda>y. row_version y \<noteq> mig_version m) rows))"

lemma rolled_back_pure:
  "pure_op f \<Longrightarrow> (\<And>x. rolled_back eng m db (g x db)) \<Longrightarrow> rolled_back eng m db (store_then f g db)"
proof -
  assume f: "pure_op f" and g: "\<And>x. rolled_back eng m db (g x db)"
  obtain r s' where r: "f db = (r, s')" by force
  with f have "s' = db" unfolding pure_op_def by (metis snd_conv)
  with r g show ?thesis by (cases r) (auto simp: store_then_def rolled_back_def)
qed

lemma transaction_rolled_back:
  assumes "version_order (engine_le eng)" and "keeps_history eng (mig_down m)" and "pure_op f"
  shows "rolled_back eng m db (transaction eng (store_then f (\<lambda>_. rollback_latest eng m)) db)"
proof -
  obtain r db' where t: "transaction eng (store_then f (\<lambda>_. rollback_latest eng m)) db = (r, db')" by force
  show ?thesis
  proof (cases r)
    case (Inl e)
    with t transaction_Inl [of eng "store_then f (\<lambda>_. rollback_latest eng m)" db e db'] assms(3)
    have "db' = db" by (auto simp: pure_store_then dest!: rollback_latest_result [OF assms(1,2)])
    with t Inl show ?thesis by (simp add: rolled_back_def)
  next
    case (Inr u)
    with t assms(3) obtain c where "rollback_latest eng m \<lparr> durable = db, working = db \<rparr> = (Inr u, c)" "db' = durable c"
      by (auto simp: transaction_Inr pure_store_then)
    with rollback_latest_result [OF assms(1,2), of db "Inr u" c] have "rolled_back eng m db (Inr u, db')"
      by (simp add: rolled_back_def)
    with t Inr show ?thesis by simp
  qed
qed

text \<open>C22. A rollback undoes at most the latest migration: it succeeds only for the recorded migration of the greatest
  version with the recorded checksum, and then removes exactly its row; any error leaves the database as it was.\<close>

theorem rollback_only_latest:
  assumes "version_order (engine_le eng)" and "keeps_history eng (mig_down m)"
  shows "rolled_back eng m db (sqlite_rollback_migration eng url m db)
    \<and> rolled_back eng m db (postgres_rollback_migration eng pool opened m db)"
proof
  from transaction_rolled_back [OF assms pure_ops(2), of db "()"]
  have "rolled_back eng m db (transaction eng (rollback_latest eng m) db)" by (simp only: store_then_return)
  then show "rolled_back eng m db (sqlite_rollback_migration eng url m db)"
    unfolding sqlite_rollback_migration_def by (intro rolled_back_pure pure_ops pure_sqlite_open)
  show "rolled_back eng m db (postgres_rollback_migration eng pool opened m db)"
    unfolding postgres_rollback_migration_def postgres_with_client_def
    by (intro rolled_back_pure pure_ops transaction_rolled_back [OF assms])
qed

subsection \<open>A database to test with\<close>

definition demo_engine :: "(string, nat) sql_engine" where
  "demo_engine = \<lparr> engine_error = (\<lambda>_ f. RtMessage f),
     engine_batch = (\<lambda>_ c. (None, c\<lparr> working := (working c)\<lparr> db_data := Suc (db_data (working c)) \<rparr> \<rparr>)),
     engine_fault = (\<lambda>_. None), engine_reject = (\<lambda>_. ''rejected''), engine_clock = (\<lambda>_. (''now'', 3)), engine_le = (\<le>) \<rparr>"

definition demo_migration :: ax_migration where
  "demo_migration = \<lparr> mig_version = ''1'', mig_name = ''a'', mig_checksum = replicate 64 (CHR ''a''),
     mig_up = ''vacuum'', mig_down = ''vacuum'' \<rparr>"

definition demo_database :: "nat database" where
  "demo_database = \<lparr> db_log = None, db_data = 0 \<rparr>"

lemma demo_valid: "validate_migration demo_migration = Inr ()"
proof -
  have "reject_migration_transaction_control v ''vacuum'' = Inr ()" for v
    by (simp add: reject_migration_transaction_control_def migration_statement_prefixes_def statement_prefixes.simps(2)
        ascii_space_def starts_with_def word_start_def word_char_def is_alphanumeric_def is_digit_def code_def
        to_lower_def lower_char_def controls_transaction_def)
  moreover have "migration_sql_has_executable_statement ''vacuum''" by code_simp
  ultimately show ?thesis
    by (simp add: validate_migration_def demo_migration_def list_all_iff is_digit_def is_alphanumeric_def hex_value_def code_def)
qed

lemma demo_keeps: "keeps_history demo_engine sql"
  by (simp add: keeps_history_def demo_engine_def)

lemma demo_order: "version_order (engine_le demo_engine)"
  by (auto simp: version_order_def demo_engine_def)

lemma demo_applies:
  "sqlite_apply_migrations demo_engine (Some ''app.db'') [demo_migration] demo_database
     = (Inr [new_row demo_migration ''now'' 3], \<lparr> db_log = Some [new_row demo_migration ''now'' 3], db_data = 1 \<rparr>)"
  by (simp add: demo_valid sqlite_apply_migrations_def sqlite_apply_migrations_locked_def validate_all_def
        ensure_persistent_sqlite_migration_url_def sqlite_database_path_def sqlite_open_connection_def run_step_def
        transaction_def apply_all_def ensure_migrations_table_def table_statement_def select_checksum_def find_version_def
        batch_statement_def sqlite_record_def insert_migration_row_def select_applied_at_def elapsed_ms_def
        commit_transaction_def store_then_def store_return_def store_lift_def demo_engine_def demo_database_def new_row_def Let_def)


lemma migrations_idempotent_witness:
  "\<exists>out db. sqlite_apply_migrations demo_engine (Some ''app.db'') [demo_migration] demo_database = (Inr out, db)
    \<and> sqlite_apply_migrations demo_engine (Some ''app.db'') [demo_migration] db = (Inr [], db)"
  using migrations_idempotent [of "[demo_migration]" demo_engine "Some ''app.db''"] demo_keeps demo_applies by fastforce

lemma rollback_only_latest_witness:
  "rolled_back demo_engine demo_migration \<lparr> db_log = Some [new_row demo_migration ''now'' 3], db_data = 1 \<rparr>
     (Inr (), \<lparr> db_log = Some [], db_data = 2 \<rparr>)"
proof -
  have "sqlite_rollback_migration demo_engine (Some ''app.db'') demo_migration \<lparr> db_log = Some [new_row demo_migration ''now'' 3], db_data = 1 \<rparr>
      = (Inr (), \<lparr> db_log = Some [], db_data = 2 \<rparr>)"
    by (simp add: demo_valid sqlite_rollback_migration_def ensure_persistent_sqlite_migration_url_def sqlite_database_path_def
        sqlite_open_connection_def run_step_def transaction_def rollback_latest_def migrations_table_exists_def
        table_statement_def select_latest_def order_by_version_def validate_rollback_target_def batch_statement_def
        delete_migration_row_def commit_transaction_def store_then_def store_return_def store_lift_def demo_engine_def new_row_def Let_def)
  with rollback_only_latest [OF demo_order demo_keeps, of demo_migration] show ?thesis by metis
qed

end
