(* ===== verification/Spec2Isabelle.thy ===== *)
theory Spec2Isabelle
  imports Native_Correct Form_Correct Preview_Flow Storage_Correct Preview_Expr_Correct Page_Safe Page_Each Page_Ends Sql_Correct Csrf_Http Login_Throttle Validation Database_Values Migrations "HOL-Library.Multiset"
begin

text \<open>
  \<^bold>\<open>Axonyx runtime: a verification library\<close>

  Axonyx is a page language and its runtime. A document (\<open>axonyx-core\<close>) declares pages, components, state and
  handlers; \<open>axonyx-runtime\<close> serves it: it lowers pages to nodes and HTML, executes queries, actions
  and API routes, and guards them with sessions, tokens, throttles and checks of requests and responses.
  In the browser, \<open>axonyx-state-wasm\<close> evaluates the reactive expressions that were compiled for it.
  The theories follow this order. A machine integer is a word, a float its IEEE bits, a string its UTF-8 bytes, a
  \<open>BTreeMap\<close> the ordered association list \<open>bmap\<close>; an error is the left side of a sum, a panic and an endless
  recursion are values of their own, and what a function changes it returns.

  \<^bold>\<open>Browser state.\<close> \<open>Ax_Prelude\<close> holds the shared lemmas (results, UTF-8, text, ordered maps, bytes) and
  \<open>Ax_Float\<close> the floats. \<open>Value_Codec\<close> and \<open>State_Executor\<close> model \<open>axonyx-state-wasm/src/lib.rs\<close>: typed value
  frames, the expression machine and every exported function over the shared buffers. \<open>Ax_Expr\<close> is the expression tree of \<open>ax_ast.rs\<close>
  and \<open>eval_expr\<close> of \<open>ax_lowering.rs\<close>; \<open>Reactive_Compile\<close> is the compiler of \<open>ax_parser_auto.rs\<close>.
  \<open>Reactive_Correct\<close> proves that compiled programs compute the value of the expression, \<open>Hydration\<close> that the server
  computes the same value. The frames nest 32 deep, a buffer has 64 KiB, the stack 4096 values, a collection 1024 items:
  these are the constants of the source.

  \<^bold>\<open>Types and inputs.\<close> \<open>Ax_Types\<close> models the type language of \<open>ax_types.rs\<close>, the inference and the acceptance of
  initial values (at most 32 deep); \<open>Ax_Types_Correct\<close> shows it sound for \<open>eval_expr\<close>. \<open>Json_Contract\<close> and \<open>Json_Correct\<close>
  treat the contracts of JSON values and record inputs (64 deep, so a budget of 65 steps down a contract is enough), \<open>Validation\<close> and \<open>Mutation_Guard\<close> the
  checks of fields, media types, hosts and origins.

  \<^bold>\<open>Requests and sessions.\<close> \<open>Runtime_Base\<close> (errors, environment, database settings of \<open>backend.rs\<close>), \<open>Http\<close>
  (\<open>server.rs\<close>: requests, responses, cookies, events, authentication, middleware, routes), \<open>Session_Manager\<close>, \<open>Session_Config\<close> and
  \<open>Session_Correct\<close> (\<open>session.rs\<close> and its stores; the interface of a store is the locale \<open>session_store\<close>, met
  by the memory store and by the tables of SQLite and PostgreSQL), \<open>Csrf_Http\<close>, \<open>Login_Throttle\<close> (4096 keys).

  \<^bold>\<open>Database.\<close> \<open>Query_Plan\<close> and \<open>Sql\<close> (\<open>ax_query_ast.rs\<close>, \<open>ax_backend_lowering.rs\<close>, \<open>ax_sql.rs\<close>) compile queries,
  \<open>Sql_Correct\<close> shows how text, parameters and names relate; \<open>Sql_Guards\<close> the scanners that guard raw SQL,
  \<open>Database_Values\<close> reads with retries and NUMERIC encoding, \<open>Migrations\<close> histories, batches and rollbacks (locale
  \<open>migration_recorder\<close>, interpreted for both databases).

  \<^bold>\<open>Pages.\<close> \<open>Page_Tree\<close>, \<open>Page_Elements\<close> and \<open>Page_Lower\<close> model \<open>ax_lowering.rs\<close> from \<open>lower_document\<close> down: scopes,
  lists with and without keys, components, slots, imports and the attributes of every built-in component; a body takes one unit of fuel
  for each level of nesting. \<open>Html_Render\<close> is the renderer of \<open>axonyx-runtime/src/lib.rs\<close>; \<open>Html_Correct\<close> reads its
  output back with an HTML tokenizer. \<open>Page_Correct\<close> shows that nested bodies leave the scope alone, \<open>Page_Safe\<close>
  that data stays data in the HTML, \<open>Page_Each\<close> that the items of a keyed list have keys of their own and that the state executor reads at
  an update path what the server rendered, \<open>Page_Ends\<close> that some fuel is enough when no component contains itself.

  \<^bold>\<open>Callbacks and forms.\<close> \<open>Native\<close> and \<open>Native_Correct\<close> (\<open>native.rs\<close>, \<open>native_response.rs\<close>): the registry, its limits and
  the shape checks; \<open>Form_Result\<close> and \<open>Form_Correct\<close> (\<open>form_result.rs\<close>): what a refused form replays (at most 64 KiB and 32 controls).

  \<^bold>\<open>The preview server.\<close> \<open>Preview_Store\<close>, \<open>Plan_Steps\<close>, \<open>Preview_Runtime\<close>, \<open>Preview_Route\<close>, \<open>Preview_Action\<close>,
  \<open>Preview_Handlers\<close> and \<open>Preview_Responses\<close> model the execution of lowered handlers in \<open>axonyx-runtime/src/lib.rs\<close>: collections,
  transactions, every step of an action and of a route, their hooks and responses. The two loops over steps satisfy the locale
  \<open>handler_loop\<close> (\<open>Preview_Correct\<close>), and \<open>Preview_Flow\<close> proves from its facts what a refused requirement, a
  successful action and a checked response do. \<open>Preview_Expr\<close> and \<open>Preview_Expr_Correct\<close> are the evaluator of lowered
  expressions, with fuel twice the size of a tree, and its agreement with \<open>eval_expr\<close>. \<open>Storage\<close> and \<open>Storage_Correct\<close> (\<open>storage.rs\<close>): capabilities and files
  by content hash (names of at most 64, 255 and 255 bytes).

  \<^bold>\<open>Parameters.\<close> What is not written in the repository is an argument: the clock, random bytes, HMAC and SHA-256, Argon2,
  the database drivers, \<open>serde_json\<close>, \<open>syn\<close>, the file system, the callbacks of an application and its resolvers.
  The theorems hold for all of them, or state what they rely on.

  \<^bold>\<open>Not modelled.\<close> The parsers (\<open>ax_parser.rs\<close>, \<open>ax_parser_v2.rs\<close>, \<open>ax_backend_parser.rs\<close> and most of
  \<open>ax_parser_auto.rs\<close>) and the formatter, which work on lines of text: a page is lowered from its tree, and where an import is
  parsed the parser is an argument. The generators of Rust text (\<open>ax_backend_codegen.rs\<close>,
  \<open>ax_native_codegen.rs\<close>, \<open>ax_domain_codegen.rs\<close>): their output is a program whose meaning is that of the compiler.
  The editor services (\<open>ax_language_service.rs\<close>, \<open>ax_local_symbols.rs\<close>, \<open>ax_semantics_v2.rs\<close>) and the document checker
  of \<open>ax_types.rs\<close>, which report positions. The older builder interface (\<open>layout.rs\<close>, \<open>ui.rs\<close>,
  \<open>state.rs\<close>, \<open>pipeline_render.rs\<close>), the macros, the entry points and browser scripts of \<open>axonyx-runtime/src/lib.rs\<close>, and the adapters to axum,
  SQLite and PostgreSQL, which are input and output.

  This theory holds the properties that span the browser and the server.
\<close>

section \<open>Properties\<close>

subsection \<open>A reactive expression to test with\<close>

definition demo_bindings :: conversion_bindings where
  "demo_bindings = \<lparr> bound_states = [(''count'', \<lparr> binding_signal_id = ''s0'', binding_ty = ''Int'', binding_literals = None, binding_initial = ''0'' \<rparr>)],
     bound_functions = [\<lparr> function_name = ''twice'', function_params = [\<lparr> param_name = ''n'', param_ty = None, param_literal_values = [], param_default = None \<rparr>], function_body = ExBinary OpMul (ExIdentifier ''n'') (ExNumber 2) \<rparr>] \<rparr>"

definition demo_expr :: ax_expr where
  "demo_expr = ExBinary OpAdd (ExCall [''twice''] [ExIdentifier ''count'']) (ExNumber 1)"

definition demo_expanded :: ax_expr where
  "demo_expanded = ExBinary OpAdd (ExBinary OpMul (ExIdentifier ''count'') (ExNumber 2)) (ExNumber 1)"

definition demo_plan :: reactive_plan where
  "demo_plan = \<lparr> plan_expression = demo_expanded,
     plan_program = expression_magic @ [op_byte 0] @ le_bytes 2 0 @ [op_byte 5] @ word_bytes 2 @ [op_byte 22]
       @ [op_byte 5] @ word_bytes 1 @ [op_byte 20],
     plan_signals = [''s0''], plan_types = [''Int''], plan_initials = [''0''] \<rparr>"

lemma demo_expand: "expand_pure demo_bindings [] [] [] demo_expr = Inr demo_expanded"
  by (simp add: demo_bindings_def demo_expr_def demo_expanded_def find_function_def bm_get_def Let_def)
lemma demo_compile: "compile_reactive_expression demo_expr demo_bindings = Inr (Some demo_plan)"
  by (simp add: compile_reactive_expression_def demo_expand)
   (simp add: demo_expanded_def demo_bindings_def demo_plan_def bm_get_def compile_dependency_def unary_opcode_def binary_opcode_def)

lemma demo_inputs: "inputs_ok demo_expr demo_bindings"
  by (simp add: inputs_ok_def demo_expr_def demo_bindings_def function_ok_def)

lemma demo_eval: "expr_eval (state_env demo_bindings (\<lambda>_. EvInt 5)) demo_expanded = Some (EvInt 11)"
  by (simp add: demo_expanded_def state_env_def demo_bindings_def bm_get_def binary_meaning_def expr_numeric_def expr_add_def checked_mul_def checked_add_def i64_of_def in_i64_def)

definition demo_request :: bytes where
  "demo_request = le_bytes 4 (length (plan_program demo_plan)) @ plan_program demo_plan @ le_bytes 4 1
     @ header 4 @ word_bytes 5"

definition demo_executor :: executor where
  "demo_executor = \<lparr> string_buffer = replicate string_capacity (CHR 0x00),
     value_buffer = demo_request @ replicate (value_capacity - length demo_request) (CHR 0x00) \<rparr>"

lemma demo_executor_ok: "executor_ok demo_executor"
  by (simp add: executor_ok_def demo_executor_def demo_request_def demo_plan_def expression_magic_def value_capacity_def)

subsection \<open>Reactive expressions and the state executor\<close>

text \<open>C1. A compiled reactive expression, sent to the browser's state executor as a request
  with the current values of its signals, is answered with the value of the expression, and with
  an error exactly where the expression has none (or its value does not fit the reply buffer).\<close>

theorem compiled_request_correct:
  assumes "compile_reactive_expression e b = Inr (Some plan)" and "inputs_ok e b"
    and "stack_need (plan_expression plan) \<le> stack_max_values"
    and "\<forall>s \<in> set (plan_signals plan). value_ok (sig s)"
    and "request_frame (plan_program plan) (map sig (plan_signals plan)) = Some r"
    and "length r \<le> value_capacity" and "take (length r) (value_buffer ex) = r"
  shows "ax_state_evaluate_expression ex (length r) = reply ex (expr_eval (state_env b sig) (plan_expression plan))"
proof -
  have l: "length r < usize_limit" using assms(6) by (rule value_capacity_less)
  have "length (plan_program plan) \<le> length r"
    using assms(5) by (auto simp: request_frame_def bind_eq_Some_conv)
  with l have p: "length (plan_program plan) < usize_limit" by simp
  have "list_all value_ok (map sig (plan_signals plan))" using assms(4) by (simp add: list_all_iff)
  from evaluate_request_frame [OF assms(5) this l] compiled_program_correct [OF assms(1,2) p assms(3)] assms(6,7)
  show ?thesis by (simp add: ax_state_evaluate_expression_def)
qed

lemma compiled_request_correct_witness:
  "ax_state_evaluate_expression demo_executor (length demo_request) = reply demo_executor (Some (EvInt 11))"
proof -
  have "ax_state_evaluate_expression demo_executor (length demo_request)
      = reply demo_executor (expr_eval (state_env demo_bindings (\<lambda>_. EvInt 5)) (plan_expression demo_plan))"
    by (rule compiled_request_correct [OF demo_compile demo_inputs])
      (simp_all add: demo_plan_def demo_expanded_def stack_max_values_def request_frame_def demo_request_def
        demo_executor_def value_capacity_def expression_magic_def u32_bytes_def)
  then show ?thesis by (simp add: demo_plan_def demo_eval)
qed

text \<open>C2. Server and browser agree on a reactive expression: when the compiled program gets a
  value in the browser, rendering the same expression on the server gets the same value, whatever
  the server's functions, resolver, fuel and overflow checks, unless the expression compares an
  integer with a float by equality.\<close>

theorem hydration_agrees:
  assumes "compile_reactive_expression e b = Inr (Some plan)" and "inputs_ok e b"
    and "\<forall>n s. bm_get (bound_states b) n = Some s \<longrightarrow>
           plain (sig (binding_signal_id s)) \<and> bm_get scope n = Some (to_server (sig (binding_signal_id s)))"
    and "length (plan_program plan) < usize_limit" and "stack_need (plan_expression plan) \<le> stack_max_values"
    and "equality_uniform (state_env b sig) (plan_expression plan)"
    and "evaluate_expression_program (plan_program plan) (map sig (plan_signals plan)) = Some v"
  shows "eval_expr checks functions resolver fuel scope (plan_expression plan) = Inr (to_server v)"
proof -
  from assms(1) obtain D where x: "expand_pure b [] [] [] e = Inr (plan_expression plan)"
    and c: "compile_node b (plan_expression plan) ([], expression_magic) = Inr (D, plan_program plan)"
    by (rule compile_reactive_Some)
  have ok: "expr_ok (plan_expression plan)" using expand_ok [OF x] assms(2) by (simp add: inputs_ok_def)
  have v: "expr_eval (state_env b sig) (plan_expression plan) = Some v"
    using compiled_program_correct [OF assms(1,2,4,5)] assms(7) by simp
  show ?thesis
    by (rule server_agrees [THEN conjunct1, OF _ v expand_call_free [OF x] ok compile_literals_small(1) [OF c] assms(6)])
      (use assms(3) in \<open>auto simp: state_env_def\<close>)
qed

lemma hydration_agrees_witness:
  "eval_expr True [] (\<lambda>_ _. None) 0 [(''count'', AvNumber 5)] demo_expanded = Inr (AvNumber 11)"
proof -
  have l: "length (plan_program demo_plan) < usize_limit"
    by (simp add: demo_plan_def expression_magic_def usize_limit_def)
  have s: "stack_need (plan_expression demo_plan) \<le> stack_max_values"
    by (simp add: demo_plan_def demo_expanded_def stack_max_values_def)
  have r: "evaluate_expression_program (plan_program demo_plan) (map (\<lambda>_. EvInt 5) (plan_signals demo_plan))
      = Some (EvInt 11)"
    using compiled_program_correct [OF demo_compile demo_inputs l s, of "\<lambda>_. EvInt 5"] demo_eval
    by (simp add: demo_plan_def)
  have "eval_expr True [] (\<lambda>_ _. None) 0 [(''count'', AvNumber 5)] (plan_expression demo_plan)
      = Inr (to_server (EvInt 11))"
    by (rule hydration_agrees [OF demo_compile demo_inputs _ l s _ r])
      (simp_all add: demo_bindings_def bm_get_def demo_plan_def demo_expanded_def comparison_uniform_def
        split: option.split)
  then show ?thesis by (simp add: demo_plan_def)
qed

text \<open>Compilation is total on inlined expressions within the documented limits: strings of
  less than 2 ^ 32 bytes, collections of at most 1024 items, known states, at most 65536 of them. The
  plan's expression is the inlined one and has no call left.\<close>

theorem compile_succeeds:
  assumes "expand_pure b [] [] [] e = Inr e'" and "expression_references_state e' (bound_states b)"
    and "within_limits b e'" and "length (bound_states b) \<le> 65536"
  shows "\<exists>plan. compile_reactive_expression e b = Inr (Some plan) \<and> plan_expression plan = e' \<and> call_free e'"
proof -
  have "deps_ok b ([], expression_magic)" by (simp add: deps_ok_def)
  from compile_total(1) [OF assms(4,3) this] obtain d p where
    "compile_node b e' ([], expression_magic) = Inr (d, p)" by auto
  with assms(1,2) expand_call_free [OF assms(1)] show ?thesis
    by (simp add: compile_reactive_expression_def Let_def)
qed

lemma compile_succeeds_witness:
  "\<exists>plan. compile_reactive_expression demo_expr demo_bindings = Inr (Some plan)
     \<and> plan_expression plan = demo_expanded \<and> call_free demo_expanded"
  by (rule compile_succeeds [OF demo_expand]) (simp_all add: demo_expanded_def demo_bindings_def bm_get_def)

text \<open>C6. Every request of the state executor either answers \<open>state_error\<close> and leaves both
  buffers as they were, or writes one well-formed value frame of the returned length and changes
  no other byte.\<close>

theorem state_call_contract:
  assumes "executor_ok ex" and "call \<in> {ax_state_evaluate_expression, ax_state_reconcile_keys, ax_state_render_each}"
    and "call ex len = (n, ex')"
  shows "executor_ok ex' \<and> string_buffer ex' = string_buffer ex \<and>
    (if n = state_error then ex' = ex
     else n \<le> value_capacity \<and> drop n (value_buffer ex') = drop n (value_buffer ex) \<and>
       (\<exists>v. value_ok v \<and> decode_expr_value (take n (value_buffer ex')) 0 = Some (v, n)))"
proof (cases "value_capacity < len")
  case True
  with assms show ?thesis
    by (auto simp: ax_state_evaluate_expression_def ax_state_reconcile_keys_def ax_state_render_each_def)
next
  case False
  with assms(2,3) obtain m where m: "reply ex m = (n, ex')" "\<And>v. m = Some v \<Longrightarrow> value_ok v"
    by (fastforce simp: ax_state_evaluate_expression_def ax_state_reconcile_keys_def ax_state_render_each_def
        bind_eq_Some_conv dest: evaluate_request_ok whole_value_ok reconcile_ok render_ok)
  from reply_spec [OF assms(1) m(2) m(1)] m(2) show ?thesis by (auto split: if_splits)
qed

lemma state_call_contract_witness:
  "executor_ok (snd (ax_state_evaluate_expression demo_executor (length demo_request)))"
  using state_call_contract [OF demo_executor_ok _ prod.collapse [symmetric],
    of ax_state_evaluate_expression "length demo_request"] by simp

text \<open>C9. Decoding the frame of a well-formed value gives that value back and consumes exactly
  the frame, whatever follows it; the stand-alone validator accepts the same bytes.\<close>

theorem value_frame_roundtrip:
  assumes "encode_expr_value 0 v = Some frame" and "value_ok v" and "length frame \<le> value_capacity"
  shows "decode_expr_value (frame @ rest) 0 = Some (v, length frame)
    \<and> validate_value_frame (frame @ rest) 0 = Some (length frame)"
proof -
  have "decode (Suc value_max_depth - 0) (frame @ rest) = Some (v, length frame)"
    by (rule decode_encode(1)) (use assms value_capacity_less in auto)
  with decode_validate [OF this] show ?thesis
    by (simp only: decode_expr_value_def validate_value_frame_def)
qed

lemma value_frame_roundtrip_witness:
  "decode_expr_value ((header 6 @ le_bytes 4 1 @ header 0) @ ''tail'') 0 = Some (EvList [EvNull], 12)"
proof -
  have "decode_expr_value ((header 6 @ le_bytes 4 1 @ header 0) @ ''tail'') 0
      = Some (EvList [EvNull], length (header 6 @ le_bytes 4 1 @ header 0))"
    by (rule value_frame_roundtrip [THEN conjunct1])
      (simp_all add: u32_bytes_def value_max_depth_def value_capacity_def)
  then show ?thesis by simp
qed

text \<open>The frame format is canonical: what the decoder accepts is the encoding of the value
  it returns, so two frames of one value are equal; the value is well formed, and as a whole buffer
  the frame is accepted by \<open>ax_state_apply_value\<close>.\<close>

theorem value_frame_canonical:
  assumes "decode_expr_value bs 0 = Some (v, n)"
  shows "n \<le> length bs \<and> value_ok v \<and> encode_expr_value 0 v = Some (take n bs)
    \<and> ax_state_apply_value \<lparr> string_buffer = sb, value_buffer = bs \<rparr> 0 n
        = (if n \<le> value_capacity then n else state_error)"
proof -
  note c = decode_expr_value_canonical [OF assms]
  show ?thesis
  proof (cases "n \<le> value_capacity")
    case True
    then have "length (take n bs) < usize_limit" using value_capacity_less by auto
    moreover from c have "encode_expr_value 0 v = Some (take n bs)" "value_ok v" by auto
    ultimately have "decode (Suc value_max_depth - 0) (take n bs @ []) = Some (v, length (take n bs))"
      by (intro decode_encode(1))
    from decode_validate [OF this] c True show ?thesis
      by (simp add: ax_state_apply_value_def validate_value_frame_def del: validate.simps)
  next
    case False
    with c show ?thesis by (simp add: ax_state_apply_value_def)
  qed
qed

lemma value_frame_canonical_witness:
  "encode_expr_value 0 EvNull = Some (take 4 (header 0))"
  by (rule value_frame_canonical [THEN conjunct2, THEN conjunct2, THEN conjunct1])
    (simp add: decode_expr_value_def decode_payload_def has_header_def header_def)

text \<open>A reconciliation plan splits the old keys into removed and kept ones and the next keys
  into inserted and kept ones; the kept keys come in their next order, and no removed key is in the
  next list nor an inserted one in the old list.\<close>

theorem reconcile_plan:
  assumes "reconcile_key_request v = Some plan"
  shows "\<exists>old next inserted order removed.
     plan = EvObject [(''inserted'', EvList (map EvString inserted)), (''order'', EvList (map EvString order)),
                      (''removed'', EvList (map EvString removed))]
   \<and> (\<exists>fs. v = EvObject fs \<and> map_of fs ''old'' = Some (EvList (map EvString old))
           \<and> map_of fs ''next'' = Some (EvList (map EvString next)))
   \<and> mset old = mset removed + mset order \<and> mset next = mset inserted + mset order
   \<and> set removed \<inter> set next = {} \<and> set inserted \<inter> set old = {}
   \<and> order = filter (\<lambda>k. k \<in> set order) next \<and> distinct old \<and> distinct next"
  using assms
proof (rule reconcile_Some, goal_cases)
  case (1 old new)
  let ?i = "filter (\<lambda>k. k \<notin> set old) new" and ?o = "filter (\<lambda>k. k \<in> set old) new"
    and ?r = "filter (\<lambda>k. k \<notin> set new) old"
  have new: "mset new = mset ?i + mset ?o"
    using multiset_partition [of "mset new" "\<lambda>k. k \<in> set old"] by (simp add: add.commute)
  have "mset ?o = mset (filter (\<lambda>k. k \<in> set new) old)"
    using 1(1,2) by (intro set_eq_iff_mset_eq_distinct [THEN iffD1]) auto
  then have old: "mset old = mset ?r + mset ?o"
    using multiset_partition [of "mset old" "\<lambda>k. k \<in> set new"] by (simp add: add.commute)
  have o: "?o = filter (\<lambda>k. k \<in> set ?o) new" by (auto intro: filter_cong)
  have fs: "\<exists>fs. v = EvObject fs \<and> map_of fs ''old'' = Some (EvList (map EvString old))
      \<and> map_of fs ''next'' = Some (EvList (map EvString new))"
    using 1(5) by auto
  have d: "set ?r \<inter> set new = {}" "set ?i \<inter> set old = {}" by auto
  show ?case
    by (rule exI [of _ old], rule exI [of _ new], rule exI [of _ ?i], rule exI [of _ ?o], rule exI [of _ ?r],
        intro conjI) (rule 1(8) fs old new d o 1(1,2))+
qed

definition demo_keys :: expr_value where
  "demo_keys = EvObject [(''old'', EvList [EvString ''a'', EvString ''b'']),
     (''next'', EvList [EvString ''b'', EvString ''c''])]"

lemma reconcile_plan_witness:
  "\<exists>old next inserted order removed.
     EvObject [(''inserted'', EvList [EvString ''c'']), (''order'', EvList [EvString ''b'']),
       (''removed'', EvList [EvString ''a''])]
       = EvObject [(''inserted'', EvList (map EvString inserted)), (''order'', EvList (map EvString order)),
                   (''removed'', EvList (map EvString removed))]
   \<and> (\<exists>fs. demo_keys = EvObject fs \<and> map_of fs ''old'' = Some (EvList (map EvString old))
           \<and> map_of fs ''next'' = Some (EvList (map EvString next)))
   \<and> mset old = mset removed + mset order \<and> mset next = mset inserted + mset order
   \<and> set removed \<inter> set next = {} \<and> set inserted \<inter> set old = {}
   \<and> order = filter (\<lambda>k. k \<in> set order) next \<and> distinct old \<and> distinct next"
  by (rule reconcile_plan) (simp add: demo_keys_def reconcile_key_request_def take_string_list_def reconcile_max_keys_def)

text \<open>Rendering an item resolves every requested path and answers in the order of the paths,
  or fails as a whole; a path that resolves is empty or has at most 32 segments, none empty.\<close>

theorem render_each_result:
  "render_each_request (EvObject [(''item'', item), (''paths'', EvList (map EvString paths))]) =
     (if length paths \<le> render_max_paths \<and> (\<forall>p \<in> set paths. resolve_each_path item p \<noteq> None)
      then Some (EvList (map (\<lambda>p. the (resolve_each_path item p)) paths)) else None)
   \<and> (\<forall>p \<in> set paths. resolve_each_path item p \<noteq> None \<longrightarrow>
        p = [] \<or> length (split_on (CHR ''.'') p) \<le> value_max_depth \<and> [] \<notin> set (split_on (CHR ''.'') p))"
proof
  have any: "opt_map any_string (map EvString paths) = Some paths"
    by (induction paths) auto
  have all: "opt_map (resolve_each_path item) ps =
      (if \<forall>p \<in> set ps. resolve_each_path item p \<noteq> None then Some (map (\<lambda>p. the (resolve_each_path item p)) ps) else None)" for ps
    by (induction ps) (auto split: option.splits)
  show "render_each_request (EvObject [(''item'', item), (''paths'', EvList (map EvString paths))]) =
     (if length paths \<le> render_max_paths \<and> (\<forall>p \<in> set paths. resolve_each_path item p \<noteq> None)
      then Some (EvList (map (\<lambda>p. the (resolve_each_path item p)) paths)) else None)"
    by (auto simp: render_each_request_def take_render_paths_def any all)
next
  have seg: "resolve_segments n v ps = Some w \<Longrightarrow> [] \<notin> set ps \<and> (ps = [] \<or> n + length ps \<le> value_max_depth)" for n v ps w
    by (induction n v ps rule: resolve_segments.induct)
      (fastforce simp: bind_eq_Some_conv split: if_splits expr_value.splits)+
  show "\<forall>p \<in> set paths. resolve_each_path item p \<noteq> None \<longrightarrow>
        p = [] \<or> length (split_on (CHR ''.'') p) \<le> value_max_depth \<and> [] \<notin> set (split_on (CHR ''.'') p)"
    using seg [of 0] by (fastforce simp: resolve_each_path_def split: if_splits)
qed

lemma render_each_result_witness:
  "render_each_request (EvObject [(''item'', EvObject [(''a'', EvInt 3)]), (''paths'', EvList (map EvString [''a'', []]))])
     = Some (EvList [EvInt 3, EvObject [(''a'', EvInt 3)]])"
  using render_each_result [of "EvObject [(''a'', EvInt 3)]" "[''a'', []]"]
  by (simp add: render_max_paths_def resolve_each_path_def value_max_depth_def)

text \<open>\<open>ax_state_supports_operation\<close> tells the truth: it answers 1 for a type and an
  operation exactly if the apply function of that type can succeed with that operation.\<close>

theorem supported_operations:
  "ax_state_supports_operation value_type operation =
     of_bool (value_type = 0 \<and> (\<exists>e len. executor_ok e \<and> ax_state_apply_string e operation len \<noteq> state_error)
       \<or> value_type = 1 \<and> (\<exists>a b. \<not> is_nan (ax_state_apply_number operation a b))
       \<or> value_type = 2 \<and> (\<exists>a b. ax_state_apply_bool operation a b \<noteq> state_error)
       \<or> value_type = 3 \<and> (\<exists>e len. executor_ok e \<and> ax_state_apply_value e operation len \<noteq> state_error))"
proof -
  have s: "(\<exists>e len. executor_ok e \<and> ax_state_apply_string e operation len \<noteq> state_error) \<longleftrightarrow> operation = 0"
    using zero_executor_ok
    by (auto simp: ax_state_apply_string_def state_error_def utf8_ok_def intro!: exI [of _ zero_executor] exI [of _ 0])
  have v: "(\<exists>e len. executor_ok e \<and> ax_state_apply_value e operation len \<noteq> state_error) \<longleftrightarrow> operation = 0"
  proof
    show "\<exists>e len. executor_ok e \<and> ax_state_apply_value e operation len \<noteq> state_error" if "operation = 0"
      using that zero_executor_ok zero_executor_value
      by (intro exI [of _ zero_executor] exI [of _ 4]) (simp add: state_error_def)
  qed (auto simp: ax_state_apply_value_def split: if_splits)
  have nan: "is_nan f64_nan" by (simp add: f64_nan_def is_nan_def f64_mag_make inf_mag_def)
  have z: "\<not> is_nan (f64_make False 0)" by (simp add: is_nan_def f64_mag_make)
  have add: "f64_add (f64_make False 0) (f64_make False 0) = f64_make False 0"
    by (simp add: f64_add_def is_nan_def is_inf_def f64_mag_make f64_int_def f64_units_def f64_sign_make inf_mag_def)
  have sub: "f64_sub (f64_make False 0) (f64_make True 0) = f64_make False 0"
    by (simp add: f64_sub_def f64_neg_def f64_sign_make f64_mag_make add)
  have n: "(\<exists>a b. \<not> is_nan (ax_state_apply_number operation a b)) \<longleftrightarrow> operation \<in> {0, 1, 2}"
    using nan z add sub unfolding ax_state_apply_number_def by (auto, metis+)
  have b: "(\<exists>a b. ax_state_apply_bool operation a b \<noteq> state_error) \<longleftrightarrow> operation \<in> {0, 3}"
    by (auto simp: ax_state_apply_bool_def state_error_def)
  show ?thesis unfolding ax_state_supports_operation_def s v n b by auto
qed

text \<open>The exception in the previous property is needed: \<open>1 == 1.0\<close> is true in the browser and
  false on the server.\<close>

theorem mixed_equality_differs:
  "expr_eval env (ExBinary OpEq (ExNumber 1) (ExFloat (f64_of_i64 1))) = Some (EvBool True)
   \<and> eval_expr checks functions resolver fuel scope (ExBinary OpEq (ExNumber 1) (ExFloat (f64_of_i64 1)))
       = Inr (AvBool False)"
proof -
  have "\<not> is_nan (f64_of_i64 1)"
    using f64_mag_make [OF le_less_trans [OF round_mag_le inf_mag_less]] round_mag_le
    by (simp add: f64_of_i64_def is_nan_def not_less)
  then show ?thesis
    by (simp add: binary_meaning_def expr_values_equal_def f64_eq_refl eval_binary_expr_def)
qed

definition subtract_function :: ax_function where
  "subtract_function =
     (let p = (\<lambda>n. \<lparr> param_name = n, param_ty = None, param_literal_values = [], param_default = None \<rparr>)
      in \<lparr> function_name = ''minus'', function_params = [p ''a'', p ''b''],
           function_body = ExBinary OpSub (ExIdentifier ''a'') (ExIdentifier ''b'') \<rparr>)"

text \<open>Inlining substitutes by name and is not capture-free: \<open>minus(b, 1)\<close> with the parameters
  \<open>a\<close> and \<open>b\<close> becomes \<open>1 - 1\<close>, while the server evaluates the call to \<open>b - 1\<close>; and an argument
  with the name of its own parameter is refused as recursive.\<close>

theorem inlining_captures_arguments:
  "expand_pure \<lparr> bound_states = states, bound_functions = [subtract_function] \<rparr> [] [] []
      (ExCall [''minus''] [ExIdentifier ''b'', ExNumber 1])
    = Inr (ExBinary OpSub (ExNumber 1) (ExNumber 1))
   \<and> eval_expr checks [subtract_function] resolver 1 [(''b'', AvNumber 9)]
      (ExCall [''minus''] [ExIdentifier ''b'', ExNumber 1]) = Inr (AvNumber 8)
   \<and> expand_pure \<lparr> bound_states = states, bound_functions = [subtract_function] \<rparr> [] [] []
      (ExCall [''minus''] [ExIdentifier ''a'', ExNumber 1])
    = Inl ''pure function parameter `a` resolves recursively''"
  by (simp add: subtract_function_def find_function_def resolve_function_def bm_get_def Let_def
      eval_function_call_def eval_binary_expr_def eval_numeric_binary_def plain_int_op_def checked_sub_def
      i64_of_def in_i64_def)

end
